(* ===== verification/Prelude.thy ===== *)
theory Prelude
  imports Main "HOL-Library.Sublist"
begin

text \<open>
  Shared vocabulary of the development: the JavaScript string operations the sources use
  (\<open>trim\<close>, \<open>toLowerCase\<close>, \<open>slice\<close>, \<open>split\<close>, \<open>join\<close>, \<open>indexOf\<close>), the insertion-ordered
  \<open>Map\<close> as an association list, fallible computations as sums, and the generic lemmas the
  component theories share. A JavaScript string is a list of code units; the model's
  \<open>char\<close> is one code unit below 256, which covers every header value, path, label and
  identifier the modelled code inspects.
\<close>

named_theorems js_defs \<open>definitions of the JavaScript string operations\<close>
named_theorems res_simps \<open>rewrites for results of fallible computations\<close>

section \<open>Fallible computations\<close>

text \<open>A call that throws is \<open>Inl\<close> of the error; a call that returns is \<open>Inr\<close>.\<close>

type_synonym ('e, 'a) res = "'e + 'a"

primrec res_bind :: "('e, 'a) res \<Rightarrow> ('a \<Rightarrow> ('e, 'b) res) \<Rightarrow> ('e, 'b) res" where
  "res_bind (Inl e) f = Inl e"
| "res_bind (Inr x) f = f x"

text \<open>\<open>for (const x of xs) check(x)\<close>, where \<open>check\<close> may throw.\<close>

primrec res_all :: "('a \<Rightarrow> ('e, unit) res) \<Rightarrow> 'a list \<Rightarrow> ('e, unit) res" where
  "res_all f [] = Inr ()"
| "res_all f (x # xs) = res_bind (f x) (\<lambda>_. res_all f xs)"

lemma res_bind_Inr [res_simps]: "res_bind r f = Inr y \<longleftrightarrow> (\<exists>x. r = Inr x \<and> f x = Inr y)"
  by (cases r) auto

lemma res_all_Inr [res_simps]: "res_all f xs = Inr u \<longleftrightarrow> (\<forall>x \<in> set xs. f x = Inr ())"
  by (induction xs) (auto simp: res_simps)

section \<open>JavaScript strings\<close>

text \<open>White space that \<open>String.prototype.trim\<close> removes: TAB, LF, VT, FF, CR, SP and NBSP.\<close>

definition js_space :: "char \<Rightarrow> bool" where
  "js_space c = (let n = (of_char c :: nat) in (9 \<le> n \<and> n \<le> 13) \<or> n = 32 \<or> n = 160)"

definition js_trim :: "string \<Rightarrow> string" where
  "js_trim s = rev (dropWhile js_space (rev (dropWhile js_space s)))"

text \<open>\<open>toLowerCase\<close>: ASCII letters and the Latin-1 letters with a lower-case partner.\<close>

definition js_lower_char :: "char \<Rightarrow> char" where
  "js_lower_char c =
     (let n = (of_char c :: nat)
      in if (65 \<le> n \<and> n \<le> 90) \<or> (192 \<le> n \<and> n \<le> 222 \<and> n \<noteq> 215) then char_of (n + 32) else c)"

definition js_lower :: "string \<Rightarrow> string" where
  "js_lower s = map js_lower_char s"

text \<open>\<open>slice(from, to)\<close>: negative positions count from the end, both are clamped.\<close>

definition js_pos :: "int \<Rightarrow> int \<Rightarrow> nat" where
  "js_pos n i = nat (if i < 0 then max (n + i) 0 else min i n)"

definition js_slice :: "'a list \<Rightarrow> int \<Rightarrow> int \<Rightarrow> 'a list" where
  "js_slice s from to =
     (let n = int (length s) in take (js_pos n to - js_pos n from) (drop (js_pos n from) s))"

text \<open>\<open>split\<close> on a one-character separator, and \<open>join\<close>.\<close>

fun js_split :: "char \<Rightarrow> string \<Rightarrow> string list" where
  "js_split sep [] = [[]]"
| "js_split sep (c # s) =
     (if c = sep then [] # js_split sep s
      else case js_split sep s of [] \<Rightarrow> [[c]] | p # ps \<Rightarrow> (c # p) # ps)"

fun js_join :: "string \<Rightarrow> string list \<Rightarrow> string" where
  "js_join sep [] = []"
| "js_join sep [x] = x"
| "js_join sep (x # y # ys) = x @ sep @ js_join sep (y # ys)"

primrec js_index_of :: "char \<Rightarrow> string \<Rightarrow> nat option" where
  "js_index_of c [] = None"
| "js_index_of c (d # s) = (if d = c then Some 0 else map_option Suc (js_index_of c s))"

text \<open>\<open>String(n)\<close> of a natural number, and the UTF-8 length of a string of code units below 256.\<close>

fun nat_dec :: "nat \<Rightarrow> string" where
  "nat_dec n = (if n < 10 then [char_of (48 + n)] else nat_dec (n div 10) @ [char_of (48 + n mod 10)])"

declare nat_dec.simps [simp del]

definition utf8_length :: "string \<Rightarrow> nat" where
  "utf8_length s = sum_list (map (\<lambda>c. if (of_char c :: nat) < 128 then 1 else 2) s)"

lemmas js_basic_defs [js_defs] =
  js_space_def js_trim_def js_lower_char_def js_lower_def js_pos_def js_slice_def Let_def

lemma js_split_nonempty [simp]: "js_split sep s \<noteq> []"
  by (cases s) (auto split: list.splits)

lemma js_join_Cons: "ps \<noteq> [] \<Longrightarrow> js_join sep (p # ps) = p @ sep @ js_join sep ps"
  by (cases ps) auto

lemma js_join_first: "js_join sep ((c # p) # ps) = c # js_join sep (p # ps)"
  by (cases ps) auto

lemma js_join_split [simp]: "js_join [sep] (js_split sep s) = s"
proof (induction sep s rule: js_split.induct)
  case (2 sep c s)
  obtain p ps where *: "js_split sep s = p # ps"
    by (cases "js_split sep s") auto
  with 2 show ?case
    by (auto simp: js_join_Cons js_join_first)
qed simp

lemma js_split_piece: "p \<in> set (js_split sep s) \<Longrightarrow> sep \<notin> set p"
  by (induction sep s arbitrary: p rule: js_split.induct) (auto split: if_splits list.splits)

lemma js_split_subset: "p \<in> set (js_split sep s) \<Longrightarrow> set p \<subseteq> set s"
  by (induction sep s arbitrary: p rule: js_split.induct) (fastforce split: if_splits list.splits)+

lemma js_split_no_sep: "sep \<notin> set s \<Longrightarrow> js_split sep s = [s]"
  by (induction sep s rule: js_split.induct) auto

lemma js_index_of_None [simp]: "js_index_of c s = None \<longleftrightarrow> c \<notin> set s"
  by (induction s) auto

lemma js_index_of_Some:
  "js_index_of c s = Some i \<longleftrightarrow> i < length s \<and> s ! i = c \<and> c \<notin> set (take i s)"
  by (induction s arbitrary: i) (auto simp: nth_Cons take_Cons split: nat.splits)

lemma js_slice_full_prefix [simp]: "n \<ge> 0 \<Longrightarrow> js_slice s 0 n = take (nat n) s"
  by (auto simp: js_slice_def js_pos_def min_def Let_def)

lemma length_js_lower [simp]: "length (js_lower s) = length s"
  by (simp add: js_lower_def)

lemma set_dropWhile_sub: "set (dropWhile P xs) \<subseteq> set xs"
  by (auto dest: set_dropWhileD)

lemma js_trim_subset: "set (js_trim s) \<subseteq> set s"
proof -
  have "set (js_trim s) \<subseteq> set (dropWhile js_space s)"
    by (auto simp: js_trim_def dest: set_dropWhileD)
  then show ?thesis using set_dropWhile_sub [of js_space s] by blast
qed

lemma js_trim_id: "s = [] \<or> (\<not> js_space (hd s) \<and> \<not> js_space (last s)) \<Longrightarrow> js_trim s = s"
  by (cases s) (auto simp: js_trim_def hd_rev split: if_splits
      intro: iffD2 [OF dropWhile_eq_self_iff])

section \<open>Insertion-ordered maps\<close>

text \<open>
  A JavaScript \<open>Map\<close> iterates in insertion order; \<open>set\<close> on a present key keeps its
  position, \<open>delete\<close> followed by \<open>set\<close> moves it to the end.
\<close>

type_synonym ('k, 'v) jsmap = "('k \<times> 'v) list"

definition jsmap_delete :: "'k \<Rightarrow> ('k, 'v) jsmap \<Rightarrow> ('k, 'v) jsmap" where
  "jsmap_delete k m = filter (\<lambda>(k', _). k' \<noteq> k) m"

primrec jsmap_set :: "'k \<Rightarrow> 'v \<Rightarrow> ('k, 'v) jsmap \<Rightarrow> ('k, 'v) jsmap" where
  "jsmap_set k v [] = [(k, v)]"
| "jsmap_set k v (e # m) = (if fst e = k then (k, v) # m else e # jsmap_set k v m)"

abbreviation jsmap_keys :: "('k, 'v) jsmap \<Rightarrow> 'k list" where
  "jsmap_keys m \<equiv> map fst m"

abbreviation jsmap_wf :: "('k, 'v) jsmap \<Rightarrow> bool" where
  "jsmap_wf m \<equiv> distinct (map fst m)"

lemma map_of_jsmap_set [simp]: "map_of (jsmap_set k v m) = (map_of m)(k \<mapsto> v)"
  by (induction m) auto

lemma map_of_jsmap_delete [simp]: "map_of (jsmap_delete k m) = (map_of m)(k := None)"
  by (induction m) (auto simp: jsmap_delete_def)

lemma keys_jsmap_set [simp]:
  "jsmap_keys (jsmap_set k v m) = (if k \<in> set (jsmap_keys m) then jsmap_keys m else jsmap_keys m @ [k])"
  by (induction m) auto

lemma keys_jsmap_delete [simp]: "jsmap_keys (jsmap_delete k m) = filter (\<lambda>x. x \<noteq> k) (jsmap_keys m)"
  by (induction m) (auto simp: jsmap_delete_def)

lemma jsmap_wf_set [simp]: "jsmap_wf m \<Longrightarrow> jsmap_wf (jsmap_set k v m)"
  by simp

lemma jsmap_wf_delete [simp]: "jsmap_wf m \<Longrightarrow> jsmap_wf (jsmap_delete k m)"
  by simp

lemma jsmap_set_fresh: "k \<notin> set (jsmap_keys m) \<Longrightarrow> jsmap_set k v m = m @ [(k, v)]"
  by (induction m) auto

lemma length_jsmap_delete:
  "jsmap_wf m \<Longrightarrow> length (jsmap_delete k m) = length m - (if k \<in> set (jsmap_keys m) then 1 else 0)"
proof (induction m)
  case (Cons e m)
  then show ?case
    by (cases "fst e = k") (auto simp: jsmap_delete_def split_beta filter_id_conv Suc_diff_le
        image_iff simp flip: length_greater_0_conv intro!: Suc_pred)
qed (simp add: jsmap_delete_def)

section \<open>Lists\<close>

text \<open>\<open>Array.prototype.find\<close> is \<open>List.find\<close>; a first duplicate is what a \<open>Set\<close> scan reports.\<close>

fun first_dup :: "'a list \<Rightarrow> 'a list \<Rightarrow> 'a option" where
  "first_dup seen [] = None"
| "first_dup seen (x # xs) = (if x \<in> set seen then Some x else first_dup (x # seen) xs)"

lemma first_dup_None: "first_dup seen xs = None \<longleftrightarrow> distinct xs \<and> set xs \<inter> set seen = {}"
  by (induction seen xs rule: first_dup.induct) auto

lemma first_dup_Some:
  "first_dup seen xs = Some x \<Longrightarrow> x \<in> set xs \<and> (x \<in> set seen \<or> \<not> distinct xs)"
  by (induction seen xs rule: first_dup.induct) (auto split: if_splits)

text \<open>A separator that does not occur before it, or not after it, splits a list in one way.\<close>

lemma first_sep_eq:
  "c \<notin> set v \<Longrightarrow> c \<notin> set v' \<Longrightarrow> v @ c # u = v' @ c # u' \<longleftrightarrow> v = v' \<and> u = u'"
proof (induction v arbitrary: v')
  case Nil
  then show ?case by (cases v') auto
next
  case (Cons x v)
  then show ?case by (cases v') auto
qed

lemma last_sep_eq:
  assumes "c \<notin> set v" "c \<notin> set v'"
  shows "u @ c # v = u' @ c # v' \<longleftrightarrow> u = u' \<and> v = v'"
proof -
  have "u @ c # v = u' @ c # v' \<longleftrightarrow> rev v @ c # rev u = rev v' @ c # rev u'"
    using rev_is_rev_conv [of "u @ c # v" "u' @ c # v'"] by simp
  then show ?thesis using assms first_sep_eq [of c "rev v" "rev v'" "rev u" "rev u'"] by auto
qed

end
