(* ===== verification/Regex.thy ===== *)
theory Regex
  imports Prelude
begin

text \<open>
  The anchored regular expressions of the sources, as data. \<open>matches r s\<close> is what
  \<open>/^r$/.test(s)\<close> computes; \<open>matches_lang\<close> ties the derivative-based matcher to the
  language of the expression. The bounds at the end (alphabet, length, first and last
  character) turn a successful test into the facts the callers rely on.
\<close>

section \<open>Expressions and their languages\<close>

datatype rexp =
    Zero
  | One
  | Cls "char \<Rightarrow> bool"
  | Alt rexp rexp
  | Seq rexp rexp
  | Star rexp
  | Rep nat nat rexp

definition conc :: "string set \<Rightarrow> string set \<Rightarrow> string set" where
  "conc A B = {u @ v | u v. u \<in> A \<and> v \<in> B}"

primrec lpow :: "string set \<Rightarrow> nat \<Rightarrow> string set" where
  "lpow A 0 = {[]}"
| "lpow A (Suc n) = conc A (lpow A n)"

primrec lang :: "rexp \<Rightarrow> string set" where
  "lang Zero = {}"
| "lang One = {[]}"
| "lang (Cls P) = {[c] | c. P c}"
| "lang (Alt r s) = lang r \<union> lang s"
| "lang (Seq r s) = conc (lang r) (lang s)"
| "lang (Star r) = (\<Union>n. lpow (lang r) n)"
| "lang (Rep m n r) = (\<Union>k \<in> {m..n}. lpow (lang r) k)"

abbreviation ropt :: "rexp \<Rightarrow> rexp" where
  "ropt r \<equiv> Alt One r"

abbreviation rplus :: "rexp \<Rightarrow> rexp" where
  "rplus r \<equiv> Seq r (Star r)"

text \<open>A literal, and the expression for a character class given by its members.\<close>

primrec lit :: "string \<Rightarrow> rexp" where
  "lit [] = One"
| "lit (c # s) = Seq (Cls (\<lambda>d. d = c)) (lit s)"

definition cls :: "string \<Rightarrow> rexp" where
  "cls s = Cls (\<lambda>c. c \<in> set s)"

section \<open>Matching by derivatives\<close>

primrec nullable :: "rexp \<Rightarrow> bool" where
  "nullable Zero = False"
| "nullable One = True"
| "nullable (Cls P) = False"
| "nullable (Alt r s) = (nullable r \<or> nullable s)"
| "nullable (Seq r s) = (nullable r \<and> nullable s)"
| "nullable (Star r) = True"
| "nullable (Rep m n r) = (m \<le> n \<and> (m = 0 \<or> nullable r))"

fun mk_seq :: "rexp \<Rightarrow> rexp \<Rightarrow> rexp" where
  "mk_seq Zero s = Zero"
| "mk_seq One s = s"
| "mk_seq r s = Seq r s"

fun mk_alt :: "rexp \<Rightarrow> rexp \<Rightarrow> rexp" where
  "mk_alt Zero s = s"
| "mk_alt r Zero = r"
| "mk_alt r s = Alt r s"

primrec deriv :: "char \<Rightarrow> rexp \<Rightarrow> rexp" where
  "deriv c Zero = Zero"
| "deriv c One = Zero"
| "deriv c (Cls P) = (if P c then One else Zero)"
| "deriv c (Alt r s) = mk_alt (deriv c r) (deriv c s)"
| "deriv c (Seq r s) =
     (if nullable r then mk_alt (mk_seq (deriv c r) s) (deriv c s) else mk_seq (deriv c r) s)"
| "deriv c (Star r) = mk_seq (deriv c r) (Star r)"
| "deriv c (Rep m n r) = (if n = 0 then Zero else mk_seq (deriv c r) (Rep (m - 1) (n - 1) r))"

primrec matches :: "rexp \<Rightarrow> string \<Rightarrow> bool" where
  "matches r [] = nullable r"
| "matches r (c # s) = matches (deriv c r) s"

lemma concI [intro]: "u \<in> A \<Longrightarrow> v \<in> B \<Longrightarrow> u @ v \<in> conc A B"
  by (auto simp: conc_def)

lemma concE [elim]:
  assumes "w \<in> conc A B"
  obtains u v where "w = u @ v" "u \<in> A" "v \<in> B"
  using assms by (auto simp: conc_def)

lemma conc_empty [simp]: "conc {} B = {}" "conc A {} = {}"
  by (auto simp: conc_def)

lemma conc_eps [simp]: "conc {[]} B = B" "conc A {[]} = A"
  by (auto simp: conc_def)

lemma conc_assoc: "conc (conc A B) C = conc A (conc B C)"
  by (auto simp: conc_def) (metis append.assoc)+

lemma Nil_conc [simp]: "[] \<in> conc A B \<longleftrightarrow> [] \<in> A \<and> [] \<in> B"
  by (auto simp: conc_def)

lemma Nil_lpow [simp]: "[] \<in> lpow A n \<longleftrightarrow> n = 0 \<or> [] \<in> A"
  by (induction n) auto

lemma nullable_lang: "nullable r \<longleftrightarrow> [] \<in> lang r"
  by (induction r) (auto simp: Bex_def)

lemma lang_mk_seq [simp]: "lang (mk_seq r s) = conc (lang r) (lang s)"
  by (cases "(r, s)" rule: mk_seq.cases) auto

lemma lang_mk_alt [simp]: "lang (mk_alt r s) = lang r \<union> lang s"
  by (cases "(r, s)" rule: mk_alt.cases) auto

text \<open>Left quotient of a language by a character.\<close>

definition quot :: "char \<Rightarrow> string set \<Rightarrow> string set" where
  "quot c A = {s. c # s \<in> A}"

lemma quot_conc: "quot c (conc A B) = conc (quot c A) B \<union> (if [] \<in> A then quot c B else {})"
  by (auto simp: quot_def conc_def Cons_eq_append_conv)

lemma quot_simple [simp]: "quot c {} = {}" "quot c {[]} = {}"
  by (simp_all add: quot_def)

lemma conc_mono: "A \<subseteq> A' \<Longrightarrow> B \<subseteq> B' \<Longrightarrow> conc A B \<subseteq> conc A' B'"
  by (fastforce simp: conc_def)

lemma conc_UN: "conc A (\<Union>i \<in> I. B i) = (\<Union>i \<in> I. conc A (B i))"
  by (fastforce simp: conc_def)

lemma quot_UN: "quot c (\<Union>i \<in> I. B i) = (\<Union>i \<in> I. quot c (B i))"
  by (auto simp: quot_def)

lemma lpow_Suc_nullable: "[] \<in> A \<Longrightarrow> lpow A n \<subseteq> lpow A (Suc n)"
  using conc_mono [of "{[]}" A "lpow A n" "lpow A n"] by simp

lemma quot_lpow: "quot c (lpow A (Suc n)) = conc (quot c A) (lpow A n)"
proof (induction n)
  case 0
  show ?case by simp
next
  case (Suc n)
  have "quot c (lpow A (Suc (Suc n))) =
      conc (quot c A) (lpow A (Suc n)) \<union> (if [] \<in> A then quot c (lpow A (Suc n)) else {})"
    unfolding lpow.simps(2) [of A "Suc n"] by (rule quot_conc)
  also have "\<dots> = conc (quot c A) (lpow A (Suc n))"
    using Suc.IH conc_mono [OF subset_refl lpow_Suc_nullable, of A "quot c A" n] by auto
  finally show ?case .
qed

lemma UN_nat_shift: "B 0 = {} \<Longrightarrow> (\<Union>n. B n) = (\<Union>n. B (Suc n))" for B :: "nat \<Rightarrow> 'a set"
proof (intro equalityI subsetI)
  fix x assume "B 0 = {}" "x \<in> (\<Union>n. B n)"
  then obtain n where "x \<in> B n" "n \<noteq> 0" by (metis UN_E empty_iff)
  then show "x \<in> (\<Union>n. B (Suc n))" by (cases n) auto
qed auto

lemma quot_star: "quot c (\<Union>n. lpow A n) = conc (quot c A) (\<Union>n. lpow A n)"
proof -
  have "quot c (\<Union>n. lpow A n) = (\<Union>n. quot c (lpow A n))"
    by (rule quot_UN)
  also have "\<dots> = (\<Union>n. quot c (lpow A (Suc n)))"
    by (rule UN_nat_shift) simp
  also have "\<dots> = conc (quot c A) (\<Union>n. lpow A n)"
    by (simp only: quot_lpow conc_UN)
  finally show ?thesis .
qed

lemma UN_interval_shift:
  "B 0 = {} \<Longrightarrow> (\<Union>k \<in> {m..Suc n}. B k) = (\<Union>k \<in> {m - 1..n}. B (Suc k))" for B :: "nat \<Rightarrow> 'a set"
proof (intro equalityI subsetI)
  fix x assume "B 0 = {}" "x \<in> (\<Union>k \<in> {m..Suc n}. B k)"
  then obtain k where "x \<in> B k" "k \<noteq> 0" "m \<le> k" "k \<le> Suc n"
    by (metis UN_E atLeastAtMost_iff empty_iff)
  then have "k - 1 \<in> {m - 1..n}" "x \<in> B (Suc (k - 1))" by auto
  then show "x \<in> (\<Union>k \<in> {m - 1..n}. B (Suc k))" by blast
qed force

lemma quot_rep:
  "quot c (\<Union>k \<in> {m..n}. lpow A k) =
     (if n = 0 then {} else conc (quot c A) (\<Union>k \<in> {m - 1..n - 1}. lpow A k))"
proof (cases n)
  case 0
  then show ?thesis by (auto simp: quot_UN)
next
  case (Suc n')
  have "quot c (\<Union>k \<in> {m..Suc n'}. lpow A k) = (\<Union>k \<in> {m - 1..n'}. quot c (lpow A (Suc k)))"
    unfolding quot_UN by (rule UN_interval_shift) simp
  also have "\<dots> = conc (quot c A) (\<Union>k \<in> {m - 1..n'}. lpow A k)"
    by (simp only: quot_lpow conc_UN)
  finally show ?thesis using Suc by simp
qed

lemma lang_deriv: "lang (deriv c r) = quot c (lang r)"
proof (induction r)
  case (Seq r s)
  then show ?case by (auto simp: quot_conc nullable_lang)
next
  case (Star r)
  then show ?case by (simp add: quot_star)
next
  case (Rep m n r)
  then show ?case by (simp add: quot_rep)
qed (auto simp: quot_def)

theorem matches_lang: "matches r s \<longleftrightarrow> s \<in> lang r"
  by (induction s arbitrary: r) (auto simp: lang_deriv quot_def nullable_lang)

lemma lang_lit [simp]: "lang (lit s) = {s}"
  by (induction s) (auto simp: conc_def)

section \<open>What a match tells\<close>

primrec alphabet :: "rexp \<Rightarrow> char set" where
  "alphabet Zero = {}"
| "alphabet One = {}"
| "alphabet (Cls P) = Collect P"
| "alphabet (Alt r s) = alphabet r \<union> alphabet s"
| "alphabet (Seq r s) = alphabet r \<union> alphabet s"
| "alphabet (Star r) = alphabet r"
| "alphabet (Rep m n r) = alphabet r"

text \<open>An upper bound on the length of the matched strings, \<open>None\<close> where there is none.\<close>

primrec max_len :: "rexp \<Rightarrow> nat option" where
  "max_len Zero = Some 0"
| "max_len One = Some 0"
| "max_len (Cls P) = Some 1"
| "max_len (Alt r s) =
     (case (max_len r, max_len s) of (Some a, Some b) \<Rightarrow> Some (max a b) | _ \<Rightarrow> None)"
| "max_len (Seq r s) =
     (case (max_len r, max_len s) of (Some a, Some b) \<Rightarrow> Some (a + b) | _ \<Rightarrow> None)"
| "max_len (Star r) = None"
| "max_len (Rep m n r) = map_option (\<lambda>a. n * a) (max_len r)"

primrec min_len :: "rexp \<Rightarrow> nat" where
  "min_len Zero = 0"
| "min_len One = 0"
| "min_len (Cls P) = 1"
| "min_len (Alt r s) = min (min_len r) (min_len s)"
| "min_len (Seq r s) = min_len r + min_len s"
| "min_len (Star r) = 0"
| "min_len (Rep m n r) = m * min_len r"

primrec firsts :: "rexp \<Rightarrow> char set" where
  "firsts Zero = {}"
| "firsts One = {}"
| "firsts (Cls P) = Collect P"
| "firsts (Alt r s) = firsts r \<union> firsts s"
| "firsts (Seq r s) = firsts r \<union> (if nullable r then firsts s else {})"
| "firsts (Star r) = firsts r"
| "firsts (Rep m n r) = firsts r"

primrec lasts :: "rexp \<Rightarrow> char set" where
  "lasts Zero = {}"
| "lasts One = {}"
| "lasts (Cls P) = Collect P"
| "lasts (Alt r s) = lasts r \<union> lasts s"
| "lasts (Seq r s) = lasts s \<union> (if nullable s then lasts r else {})"
| "lasts (Star r) = lasts r"
| "lasts (Rep m n r) = lasts r"

lemma lpow_alphabet: "\<forall>w \<in> A. set w \<subseteq> X \<Longrightarrow> w \<in> lpow A n \<Longrightarrow> set w \<subseteq> X"
  by (induction n arbitrary: w) (simp, fastforce)

lemma lpow_len_le: "\<forall>w \<in> A. length w \<le> b \<Longrightarrow> w \<in> lpow A n \<Longrightarrow> length w \<le> n * b"
  by (induction n arbitrary: w) (simp, fastforce intro: add_mono)

lemma lpow_len_ge: "\<forall>w \<in> A. b \<le> length w \<Longrightarrow> w \<in> lpow A n \<Longrightarrow> n * b \<le> length w"
  by (induction n arbitrary: w) (simp, fastforce intro: add_mono)

lemma lpow_hd: "\<forall>w \<in> A. w \<noteq> [] \<longrightarrow> hd w \<in> X \<Longrightarrow> w \<in> lpow A n \<Longrightarrow> w \<noteq> [] \<longrightarrow> hd w \<in> X"
proof (induction n arbitrary: w)
  case (Suc n)
  then obtain u v where "w = u @ v" "u \<in> A" "v \<in> lpow A n" by auto
  with Suc show ?case by (cases "u = []") auto
qed simp

lemma lpow_last: "\<forall>w \<in> A. w \<noteq> [] \<longrightarrow> last w \<in> X \<Longrightarrow> w \<in> lpow A n \<Longrightarrow> w \<noteq> [] \<longrightarrow> last w \<in> X"
proof (induction n arbitrary: w)
  case (Suc n)
  then obtain u v where "w = u @ v" "u \<in> A" "v \<in> lpow A n" by auto
  with Suc show ?case by (cases "v = []") auto
qed simp

lemma lang_alphabet: "w \<in> lang r \<Longrightarrow> set w \<subseteq> alphabet r"
proof (induction r arbitrary: w)
  case (Seq r s)
  from Seq.prems obtain u v where "w = u @ v" "u \<in> lang r" "v \<in> lang s" by auto
  with Seq.IH show ?case by fastforce
next
  case (Star r)
  then show ?case using lpow_alphabet [of "lang r" "alphabet r" w] by auto
next
  case (Rep m n r)
  then show ?case using lpow_alphabet [of "lang r" "alphabet r" w] by auto
qed auto

lemma lang_max_len: "w \<in> lang r \<Longrightarrow> max_len r = Some b \<Longrightarrow> length w \<le> b"
proof (induction r arbitrary: w b)
  case (Seq r s)
  then show ?case by (fastforce split: option.splits intro: add_mono)
next
  case (Rep m n r)
  then obtain a k where *: "b = n * a" "max_len r = Some a" "w \<in> lpow (lang r) k" "k \<le> n" by auto
  with Rep.IH have "length w \<le> k * a" using lpow_len_le [of "lang r" a w k] by blast
  also have "\<dots> \<le> b" using * by simp
  finally show ?case .
qed (fastforce split: option.splits)+

lemma lang_min_len: "w \<in> lang r \<Longrightarrow> min_len r \<le> length w"
proof (induction r arbitrary: w)
  case (Seq r s)
  then show ?case by (fastforce intro: add_mono)
next
  case (Rep m n r)
  then obtain k where *: "w \<in> lpow (lang r) k" "m \<le> k" by auto
  then have "m * min_len r \<le> k * min_len r" by simp
  also have "\<dots> \<le> length w" using Rep.IH * lpow_len_ge [of "lang r" "min_len r" w k] by blast
  finally show ?case by simp
qed fastforce+

lemma lang_firsts: "w \<in> lang r \<Longrightarrow> w \<noteq> [] \<Longrightarrow> hd w \<in> firsts r"
proof (induction r arbitrary: w)
  case (Seq r s)
  from Seq.prems(1) obtain u v where "w = u @ v" "u \<in> lang r" "v \<in> lang s" by auto
  with Seq.IH(1) [of u] Seq.IH(2) [of v] Seq.prems(2) show ?case by (cases "u = []") (auto simp: nullable_lang)
next
  case (Star r)
  then show ?case using lpow_hd [of "lang r" "firsts r" w] by auto
next
  case (Rep m n r)
  then show ?case using lpow_hd [of "lang r" "firsts r" w] by auto
qed auto

lemma lang_lasts: "w \<in> lang r \<Longrightarrow> w \<noteq> [] \<Longrightarrow> last w \<in> lasts r"
proof (induction r arbitrary: w)
  case (Seq r s)
  from Seq.prems(1) obtain u v where "w = u @ v" "u \<in> lang r" "v \<in> lang s" by auto
  with Seq.IH(1) [of u] Seq.IH(2) [of v] Seq.prems(2) show ?case by (cases "v = []") (auto simp: nullable_lang)
next
  case (Star r)
  then show ?case using lpow_last [of "lang r" "lasts r" w] by auto
next
  case (Rep m n r)
  then show ?case using lpow_last [of "lang r" "lasts r" w] by auto
qed auto

lemmas matches_bounds =
  lang_alphabet [folded matches_lang] lang_max_len [folded matches_lang]
  lang_min_len [folded matches_lang] lang_firsts [folded matches_lang]
  lang_lasts [folded matches_lang]

lemma conc_Cls: "w \<in> conc {[c] | c. P c} B \<longleftrightarrow> (\<exists>c v. w = c # v \<and> P c \<and> v \<in> B)"
proof
  assume "\<exists>c v. w = c # v \<and> P c \<and> v \<in> B"
  then obtain c v where "w = [c] @ v" "P c" "v \<in> B" by auto
  then show "w \<in> conc {[c] | c. P c} B" by blast
qed (auto simp: conc_def)

lemma lpow_Cls: "w \<in> lpow {[c] | c. P c} n \<longleftrightarrow> length w = n \<and> (\<forall>c \<in> set w. P c)"
  by (induction n arbitrary: w) (auto simp: conc_Cls length_Suc_conv)

lemma matches_rplus_Cls: "matches (rplus (Cls P)) s \<longleftrightarrow> s \<noteq> [] \<and> (\<forall>c \<in> set s. P c)"
  by (cases s) (auto simp: matches_lang conc_Cls lpow_Cls)

lemma matches_Rep_Cls:
  "matches (Rep m n (Cls P)) s \<longleftrightarrow> m \<le> length s \<and> length s \<le> n \<and> (\<forall>c \<in> set s. P c)"
  by (auto simp: matches_lang lpow_Cls)

end
