(* ===== verification/CacheControl.thy ===== *)
theory CacheControl
  imports Regex
begin

text \<open>
  \<^verbatim>\<open>src/cache-control.ts\<close>, the forced CDN policy of \<^verbatim>\<open>src/pool-server/cache-policy.ts\<close>,
  \<^verbatim>\<open>src/cdn-tags.ts\<close> and \<^verbatim>\<open>src/static-asset-headers.ts\<close>: the Cache-Control parser, the
  shared-cache freshness verdict, and the decisions the pool server builds on it.
\<close>

section \<open>Cache-Control directives\<close>

record directive =
  d_name :: string
  d_value :: "string option"

abbreviation QUOTE :: char where "QUOTE \<equiv> CHR 0x22"
abbreviation BSLASH :: char where "BSLASH \<equiv> CHR 0x5C"
abbreviation COMMA :: char where "COMMA \<equiv> CHR 0x2C"
abbreviation EQUALS :: char where "EQUALS \<equiv> CHR 0x3D"
abbreviation SPACE :: char where "SPACE \<equiv> CHR 0x20"

definition token_char :: "char \<Rightarrow> bool" where
  "token_char c = (c \<in> set ''!#$%&'' \<or> c = CHR 0x27 \<or> c \<in> set ''*+-.^_'' \<or> c = CHR 0x60 \<or>
     c \<in> set ''|~0123456789ABCDEFGHIJKLMNOPQRSTUVWXYZabcdefghijklmnopqrstuvwxyz'')"

definition CACHE_CONTROL_TOKEN_RE :: rexp where
  "CACHE_CONTROL_TOKEN_RE = rplus (Cls token_char)"

text \<open>
  The member loop: \<open>cur\<close> is the current member, reversed. Commas inside a quoted string
  do not separate members.
\<close>

fun scan_members :: "bool \<Rightarrow> bool \<Rightarrow> string \<Rightarrow> string \<Rightarrow> string list" where
  "scan_members quoted escaped cur [] = [rev cur]"
| "scan_members quoted escaped cur (ch # s) =
     (if quoted then
        (if escaped then scan_members quoted False (ch # cur) s
         else if ch = BSLASH then scan_members quoted True (ch # cur) s
         else if ch = QUOTE then scan_members False escaped (ch # cur) s
         else scan_members quoted escaped (ch # cur) s)
      else if ch = QUOTE then scan_members True escaped (ch # cur) s
      else if ch = COMMA then rev cur # scan_members quoted escaped [] s
      else scan_members quoted escaped (ch # cur) s)"

text \<open>The loop that looks for the closing quote, and the unescaping \<open>replace\<close>.\<close>

fun closing_quote :: "bool \<Rightarrow> nat \<Rightarrow> string \<Rightarrow> nat option" where
  "closing_quote esc i [] = None"
| "closing_quote esc i (ch # s) =
     (if esc then closing_quote False (Suc i) s
      else if ch = BSLASH then closing_quote True (Suc i) s
      else if ch = QUOTE then Some i
      else closing_quote esc (Suc i) s)"

definition quotable :: "char \<Rightarrow> bool" where
  "quotable c = (let n = (of_char c :: nat) in n = 9 \<or> n = 32 \<or> (33 \<le> n \<and> n \<le> 126) \<or> 128 \<le> n)"

fun unescape :: "string \<Rightarrow> string" where
  "unescape [] = []"
| "unescape [c] = [c]"
| "unescape (c # d # s) = (if c = BSLASH \<and> quotable d then d # unescape s else c # unescape (d # s))"

definition parse_member :: "string \<Rightarrow> directive option" where
  "parse_member rawMember =
     (let member = js_trim rawMember;
          equals = js_index_of EQUALS member;
          rawName = js_trim (case equals of None \<Rightarrow> member | Some i \<Rightarrow> take i member)
      in if member = [] then None
         else if \<not> matches CACHE_CONTROL_TOKEN_RE rawName then None
         else case equals of
           None \<Rightarrow> Some \<lparr>d_name = js_lower rawName, d_value = None\<rparr>
         | Some i \<Rightarrow>
             (let rawValue = js_trim (drop (Suc i) member)
              in if rawValue \<noteq> [] \<and> hd rawValue = QUOTE then
                   (case closing_quote False 1 (tl rawValue) of
                      None \<Rightarrow> None
                    | Some e \<Rightarrow>
                        if js_trim (drop (Suc e) rawValue) \<noteq> [] then None
                        else Some \<lparr>d_name = js_lower rawName,
                                   d_value = Some (unescape (take (e - 1) (tl rawValue)))\<rparr>)
                 else if \<not> matches CACHE_CONTROL_TOKEN_RE rawValue then None
                 else Some \<lparr>d_name = js_lower rawName, d_value = Some rawValue\<rparr>))"

definition parseCacheControlDirectives :: "string \<Rightarrow> directive list" where
  "parseCacheControlDirectives cacheControl =
     List.map_filter parse_member (scan_members False False [] cacheControl)"

definition hasUnqualifiedCacheControlDirective :: "string \<Rightarrow> string \<Rightarrow> bool" where
  "hasUnqualifiedCacheControlDirective cacheControl name =
     (\<exists>d \<in> set (parseCacheControlDirectives cacheControl).
        d_name d = js_lower name \<and> d_value d = None)"

text \<open>\<open>/^\d+$/.test(v) && Number(v) > 0\<close>.\<close>

definition digit :: "char \<Rightarrow> bool" where
  "digit c = (c \<in> set ''0123456789'')"

primrec decimal :: "nat \<Rightarrow> string \<Rightarrow> nat" where
  "decimal acc [] = acc"
| "decimal acc (c # s) = decimal (acc * 10 + (of_char c - 48)) s"

definition positive_seconds :: "string \<Rightarrow> bool" where
  "positive_seconds v = (matches (rplus (Cls digit)) v \<and> decimal 0 v > 0)"

definition directive_values :: "directive list \<Rightarrow> string \<Rightarrow> string list" where
  "directive_values ds name = List.map_filter d_value (filter (\<lambda>d. d_name d = name) ds)"

definition grantsPositiveSeconds :: "directive list \<Rightarrow> string \<Rightarrow> bool" where
  "grantsPositiveSeconds ds name = (\<exists>v \<in> set (directive_values ds name). positive_seconds v)"

definition hasUnqualified :: "directive list \<Rightarrow> string \<Rightarrow> bool" where
  "hasUnqualified ds name = (\<exists>d \<in> set ds. d_name d = name \<and> d_value d = None)"

definition grantsSharedCacheFreshness :: "string \<Rightarrow> bool" where
  "grantsSharedCacheFreshness cacheControl =
     (let ds = parseCacheControlDirectives cacheControl
      in if hasUnqualified ds ''no-store'' \<or> hasUnqualified ds ''no-cache'' \<or>
            hasUnqualified ds ''private'' then False
         else if (if directive_values ds ''s-maxage'' \<noteq> []
                  then \<exists>v \<in> set (directive_values ds ''s-maxage''). positive_seconds v
                  else grantsPositiveSeconds ds ''max-age'') then True
         else grantsPositiveSeconds ds ''stale-while-revalidate'' \<or>
              grantsPositiveSeconds ds ''stale-if-error'')"

section \<open>The forced CDN policy\<close>




section \<open>Cache tags and static asset headers\<close>

text \<open>\<open>sha256hex\<close> stands for Node's \<open>createHash("sha256").update(x).digest("hex")\<close>.\<close>

definition cdnTagForBuildId :: "(string \<Rightarrow> string) \<Rightarrow> string \<Rightarrow> string" where
  "cdnTagForBuildId sha256hex buildId = ''build-'' @ sha256hex buildId"

definition hex_digit :: "char \<Rightarrow> bool" where
  "hex_digit c = (c \<in> set ''0123456789abcdef'')"

definition RECORDED_CDN_TAG_PATTERN :: rexp where
  "RECORDED_CDN_TAG_PATTERN = Seq (lit ''build-'') (Rep 64 64 (Cls hex_digit))"

definition cdnCacheTag :: "(string \<Rightarrow> string) \<Rightarrow> string \<Rightarrow> string option \<Rightarrow> (string \<times> string) list" where
  "cdnCacheTag sha256hex cacheControl buildId =
     (case buildId of
        None \<Rightarrow> []
      | Some b \<Rightarrow>
          if b = [] then []
          else if hasUnqualifiedCacheControlDirective cacheControl ''immutable'' then []
          else if grantsSharedCacheFreshness cacheControl
          then [(''cache-tag'', cdnTagForBuildId sha256hex b)] else [])"

record static_asset_headers =
  sah_cacheControl :: string
  sah_headers :: "(string \<times> string) list"

definition NEXT_STATIC_PREFIX :: string where
  "NEXT_STATIC_PREFIX = ''/_next/static/''"

definition isNextStaticPath :: "string \<Rightarrow> bool" where
  "isNextStaticPath pathname = prefix NEXT_STATIC_PREFIX pathname"

definition nextStaticAssetHeaders :: "string \<Rightarrow> string \<Rightarrow> static_asset_headers" where
  "nextStaticAssetHeaders pathname basePath =
     (let rel = drop (length NEXT_STATIC_PREFIX) pathname
      in if prefix ''service-worker/'' rel
         then \<lparr>sah_cacheControl = ''public, max-age=0, must-revalidate'',
               sah_headers = [(''Service-Worker-Allowed'', if basePath = [] then ''/'' else basePath)]\<rparr>
         else \<lparr>sah_cacheControl = ''public, max-age=31536000, immutable'', sah_headers = []\<rparr>)"

section \<open>Lemmas\<close>

lemma token_re: "matches CACHE_CONTROL_TOKEN_RE s \<longleftrightarrow> s \<noteq> [] \<and> (\<forall>c \<in> set s. token_char c)"
  by (simp add: CACHE_CONTROL_TOKEN_RE_def matches_rplus_Cls)

text \<open>Printing a directive list, the inverse of the parser.\<close>

fun escape_quoted :: "string \<Rightarrow> string" where
  "escape_quoted [] = []"
| "escape_quoted (c # s) = (if c = BSLASH \<or> c = QUOTE then BSLASH # c # escape_quoted s else c # escape_quoted s)"

definition print_directive :: "directive \<Rightarrow> string" where
  "print_directive d =
     (case d_value d of
        None \<Rightarrow> d_name d
      | Some v \<Rightarrow> d_name d @ [EQUALS] @
          (if v \<noteq> [] \<and> list_all token_char v then v else [QUOTE] @ escape_quoted v @ [QUOTE]))"

definition print_directives :: "directive list \<Rightarrow> string" where
  "print_directives ds = js_join [COMMA, SPACE] (map print_directive ds)"

definition wf_directive :: "directive \<Rightarrow> bool" where
  "wf_directive d = (d_name d \<noteq> [] \<and> list_all token_char (d_name d) \<and> js_lower (d_name d) = d_name d)"

lemma token_not_special:
  assumes "token_char c"
  shows "c \<noteq> QUOTE" "c \<noteq> COMMA" "c \<noteq> EQUALS" "\<not> js_space c"
  using assms by (auto simp: token_char_def js_space_def)

lemma scan_plain:
  "\<forall>c \<in> set s. c \<noteq> QUOTE \<and> c \<noteq> COMMA \<Longrightarrow>
   scan_members False False cur (s @ rest) = scan_members False False (rev s @ cur) rest"
  by (induction s arbitrary: cur) auto

lemma scan_quoted:
  "scan_members True False cur (escape_quoted v @ QUOTE # rest) =
   scan_members False False (QUOTE # rev (escape_quoted v) @ cur) rest"
  by (induction v arbitrary: cur) auto

lemma scan_directive:
  assumes "wf_directive d"
  shows "scan_members False False cur (print_directive d @ rest) =
         scan_members False False (rev (print_directive d) @ cur) rest"
proof -
  have name: "\<forall>c \<in> set (d_name d). c \<noteq> QUOTE \<and> c \<noteq> COMMA"
    using assms token_not_special by (auto simp: wf_directive_def list_all_iff)
  show ?thesis
  proof (cases "d_value d")
    case None
    with name show ?thesis by (simp add: print_directive_def scan_plain)
  next
    case (Some v)
    show ?thesis
    proof (cases "v \<noteq> [] \<and> list_all token_char v")
      case True
      then have "\<forall>c \<in> set v. c \<noteq> QUOTE \<and> c \<noteq> COMMA"
        using token_not_special(1,2) unfolding list_all_iff by blast
      then have "\<forall>c \<in> set (d_name d @ [EQUALS] @ v). c \<noteq> QUOTE \<and> c \<noteq> COMMA"
        using name by (simp add: ball_Un)
      with True Some scan_plain [of "d_name d @ [EQUALS] @ v" cur rest] show ?thesis
        by (simp add: print_directive_def)
    next
      case False
      have "\<forall>c \<in> set (d_name d @ [EQUALS]). c \<noteq> QUOTE \<and> c \<noteq> COMMA"
        using name by simp
      note plain = scan_plain [OF this, of cur "QUOTE # escape_quoted v @ QUOTE # rest"]
      have "print_directive d = (d_name d @ [EQUALS]) @ QUOTE # escape_quoted v @ [QUOTE]"
        using False Some unfolding print_directive_def by (simp only: option.case if_False append.simps append_assoc)
      then show ?thesis using plain by (simp add: scan_quoted)
    qed
  qed
qed

lemma scan_directives:
  "\<forall>d \<in> set ds. wf_directive d \<Longrightarrow> ds \<noteq> [] \<Longrightarrow>
   scan_members False False cur (print_directives ds) =
   (rev cur @ print_directive (hd ds)) # map (\<lambda>d. SPACE # print_directive d) (tl ds)"
proof (induction ds arbitrary: cur)
  case (Cons d ds)
  show ?case
  proof (cases "ds = []")
    case True
    with Cons.prems scan_directive [of d cur "[]"] show ?thesis
      by (simp add: print_directives_def)
  next
    case False
    then have "print_directives (d # ds) = print_directive d @ COMMA # SPACE # print_directives ds"
      by (simp add: print_directives_def js_join_Cons)
    with Cons False scan_directive [of d cur "COMMA # SPACE # print_directives ds"] show ?thesis
      by (cases ds) auto
  qed
qed simp

lemma closing_quote_escape:
  "closing_quote False i (escape_quoted v @ QUOTE # rest) = Some (i + length (escape_quoted v))"
  by (induction v arbitrary: i) auto

lemma unescape_escape: "unescape (escape_quoted v) = v"
proof (induction v)
  case (Cons c v)
  then show ?case
    by (cases v) (auto simp: quotable_def)
qed simp

lemma js_trim_space: "js_trim (SPACE # s) = js_trim s"
  by (simp add: js_trim_def js_space_def)

lemma print_directive_edges:
  assumes "wf_directive d"
  shows "print_directive d \<noteq> []" "\<not> js_space (hd (print_directive d))"
    "\<not> js_space (last (print_directive d))"
proof -
  have q: "\<not> js_space QUOTE" by (simp add: js_space_def)
  have nm: "d_name d \<noteq> []" "\<forall>c \<in> set (d_name d). \<not> js_space c"
    using assms token_not_special by (auto simp: wf_directive_def list_all_iff)
  then have "\<not> js_space (hd (d_name d))" "\<not> js_space (last (d_name d))" by auto
  moreover have "\<not> js_space (last v)" if "v \<noteq> []" "list_all token_char v" for v
    using that token_not_special(4) by (auto simp: list_all_iff)
  ultimately show "print_directive d \<noteq> []" "\<not> js_space (hd (print_directive d))"
    "\<not> js_space (last (print_directive d))"
    using nm q by (auto simp: print_directive_def split: option.splits)
qed

lemma js_index_of_prefix:
  "c \<notin> set u \<Longrightarrow> js_index_of c (u @ c # v) = Some (length u)"
  by (induction u) auto

lemma parse_print_member:
  assumes wf: "wf_directive d" and trim: "js_trim m = print_directive d"
  shows "parse_member m = Some d"
proof -
  have nm: "d_name d \<noteq> []" "\<forall>c \<in> set (d_name d). token_char c" "js_lower (d_name d) = d_name d"
    using wf by (auto simp: wf_directive_def list_all_iff)
  have nEq: "EQUALS \<notin> set (d_name d)" using nm(2) token_not_special(3) by blast
  have nmt: "js_trim (d_name d) = d_name d"
    using nm token_not_special(4) by (intro js_trim_id) auto
  show ?thesis
  proof (cases "d_value d")
    case None
    with trim nm nEq nmt show ?thesis
      by (cases d) (auto simp: parse_member_def Let_def print_directive_def token_re js_index_of_None [THEN iffD2])
  next
    case (Some v)
    have qs: "\<not> js_space QUOTE" by (simp add: js_space_def)
    have dv: "\<lparr>d_name = d_name d, d_value = Some v\<rparr> = d" using Some by simp
    show ?thesis
    proof (cases "v \<noteq> [] \<and> list_all token_char v")
      case True
      then have vt: "js_trim v = v" "hd v \<noteq> QUOTE" "\<forall>c \<in> set v. token_char c"
        using token_not_special(1,4) by (auto intro!: js_trim_id simp: list_all_iff)
      have p: "print_directive d = d_name d @ EQUALS # v"
        using True Some by (simp add: print_directive_def)
      show ?thesis
        using nm nEq nmt True Some vt dv
        by (simp add: parse_member_def Let_def trim p token_re js_index_of_prefix)
    next
      case False
      then have p: "print_directive d = d_name d @ EQUALS # QUOTE # escape_quoted v @ [QUOTE]"
        using Some by (auto simp: print_directive_def)
      have vt: "js_trim (QUOTE # escape_quoted v @ [QUOTE]) = QUOTE # escape_quoted v @ [QUOTE]"
        using qs by (intro js_trim_id) auto
      have cq: "closing_quote False (Suc 0) (escape_quoted v @ [QUOTE]) = Some (Suc (length (escape_quoted v)))"
        using closing_quote_escape [of 1 v "[]"] by simp
      show ?thesis
        using nm nEq nmt Some dv
        by (simp add: parse_member_def Let_def trim p token_re js_index_of_prefix vt cq
            unescape_escape js_trim_def [of "[]"])
    qed
  qed
qed

lemma parse_print_directives:
  assumes "\<forall>d \<in> set ds. wf_directive d"
  shows "parseCacheControlDirectives (print_directives ds) = ds"
proof (cases ds)
  case Nil
  then show ?thesis
    by (simp add: parseCacheControlDirectives_def print_directives_def parse_member_def js_trim_def
        List.map_filter_def)
next
  case (Cons d ds')
  have t: "js_trim (print_directive x) = print_directive x" if "wf_directive x" for x
    using print_directive_edges [OF that] by (intro js_trim_id) auto
  have "parse_member (print_directive x) = Some x" "parse_member (SPACE # print_directive x) = Some x"
    if "wf_directive x" for x
    using parse_print_member [OF that] t [OF that] js_trim_space by auto
  then have "List.map_filter parse_member (map (\<lambda>d. SPACE # print_directive d) ds') = ds'"
    using assms Cons by (auto simp: List.map_filter_def filter_map comp_def intro!: map_idI)
  with Cons assms scan_directives [of ds "[]"] \<open>\<And>x. wf_directive x \<Longrightarrow> parse_member (print_directive x) = Some x\<close>
  show ?thesis
    by (simp add: parseCacheControlDirectives_def List.map_filter_def)
qed

section \<open>Properties\<close>


definition standard_directives :: "string list" where
  "standard_directives =
     [''no-store'', ''no-cache'', ''private'', ''s-maxage'', ''max-age'',
      ''stale-while-revalidate'', ''stale-if-error'']"




lemma grants_print:
  assumes "\<forall>d \<in> set ds. wf_directive d"
  shows "grantsSharedCacheFreshness (print_directives ds) =
    (let g = grantsPositiveSeconds ds in
     \<not> (hasUnqualified ds ''no-store'' \<or> hasUnqualified ds ''no-cache'' \<or> hasUnqualified ds ''private'') \<and>
     ((if directive_values ds ''s-maxage'' \<noteq> [] then g ''s-maxage'' else g ''max-age'') \<or>
      g ''stale-while-revalidate'' \<or> g ''stale-if-error''))"
  by (auto simp: grantsSharedCacheFreshness_def parse_print_directives [OF assms]
      grantsPositiveSeconds_def Let_def)

lemma directive_values_skip:
  "d_name d \<noteq> n \<Longrightarrow> directive_values (xs @ d # ys) n = directive_values (xs @ ys) n"
  by (simp add: directive_values_def)

lemma hasUnqualified_skip:
  "d_name d \<noteq> n \<Longrightarrow> hasUnqualified (xs @ d # ys) n = hasUnqualified (xs @ ys) n"
  by (auto simp: hasUnqualified_def)

text \<open>
  Cache-Control round trip. Parsing the printed form of any list of directives (token
  names in lower case; values that are absent, tokens, or arbitrary strings printed as quoted
  strings, commas, quotes and backslashes included) returns exactly that list: members are
  never split inside a quoted string, merged, reordered or partially interpreted.
\<close>

theorem cache_control_roundtrip:
  assumes "\<forall>d \<in> set ds. wf_directive d"
  shows "parseCacheControlDirectives (print_directives ds) = ds"
  using assms by (rule parse_print_directives)

theorem cache_control_roundtrip_witness:
  "parseCacheControlDirectives (print_directives
     [\<lparr>d_name = ''private'', d_value = Some ''a, b''\<rparr>, \<lparr>d_name = ''max-age'', d_value = Some ''60''\<rparr>]) =
   [\<lparr>d_name = ''private'', d_value = Some ''a, b''\<rparr>, \<lparr>d_name = ''max-age'', d_value = Some ''60''\<rparr>]"
  by (rule cache_control_roundtrip) (simp add: wf_directive_def token_char_def js_lower_def js_lower_char_def)

text \<open>
  extension directives are inert. A directive whose name is not one of the seven the
  verdict inspects (such as \<open>x-no-store\<close> or \<open>x-s-maxage\<close>) can be inserted anywhere in a
  Cache-Control field without changing the shared-cache freshness verdict: it neither vetoes
  nor grants a window.
\<close>

theorem extension_directive_inert:
  assumes "\<forall>d \<in> set (xs @ d # ys). wf_directive d" and "d_name d \<notin> set standard_directives"
  shows "grantsSharedCacheFreshness (print_directives (xs @ d # ys)) =
         grantsSharedCacheFreshness (print_directives (xs @ ys))"
proof -
  have ne: "d_name d \<noteq> n" if "n \<in> set standard_directives" for n using assms(2) that by auto
  have "\<forall>d \<in> set (xs @ ys). wf_directive d" using assms(1) by auto
  then show ?thesis
    using ne unfolding grants_print [OF assms(1)] grants_print [OF \<open>\<forall>d \<in> set (xs @ ys). wf_directive d\<close>]
    by (simp add: standard_directives_def directive_values_skip hasUnqualified_skip
        grantsPositiveSeconds_def Let_def)
qed

theorem extension_directive_inert_witness:
  "grantsSharedCacheFreshness (print_directives
     ([\<lparr>d_name = ''max-age'', d_value = Some ''60''\<rparr>] @ \<lparr>d_name = ''x-no-store'', d_value = None\<rparr> # [])) =
   grantsSharedCacheFreshness (print_directives ([\<lparr>d_name = ''max-age'', d_value = Some ''60''\<rparr>] @ []))"
  by (rule extension_directive_inert)
     (simp_all add: wf_directive_def token_char_def js_lower_def js_lower_char_def standard_directives_def)










text \<open>
  every mutable response a shared cache may store carries the deploy tag. For a Node-style
  SHA-256 hex digest (64 hexadecimal characters), a response whose Cache-Control grants a
  shared-cache window and is not marked \<open>immutable\<close> gets exactly one \<open>cache-tag\<close> header,
  whose value has the recorded-tag shape (so it is comma-free and 70 characters long, within
  the CDN's limits); a response that grants no window gets none.
\<close>

theorem cacheable_mutable_response_tagged:
  assumes "\<And>x. length (sha x) = 64 \<and> list_all hex_digit (sha x)" and "b \<noteq> []"
    and "\<not> hasUnqualifiedCacheControlDirective cc ''immutable''"
  shows "(\<exists>tag. cdnCacheTag sha cc (Some b) =
            (if grantsSharedCacheFreshness cc then [(''cache-tag'', tag)] else []) \<and>
            matches RECORDED_CDN_TAG_PATTERN tag \<and> length tag = 70 \<and> COMMA \<notin> set tag)"
proof -
  let ?tag = "cdnTagForBuildId sha b"
  have "sha b \<in> lang (Rep 64 64 (Cls hex_digit))"
    using assms(1) [of b] matches_Rep_Cls [of 64 64 hex_digit "sha b"]
    unfolding matches_lang list_all_iff by auto
  moreover have "''build-'' \<in> lang (lit ''build-'')" by (simp only: lang_lit singleton_iff)
  ultimately have "matches RECORDED_CDN_TAG_PATTERN ?tag"
    unfolding matches_lang RECORDED_CDN_TAG_PATTERN_def cdnTagForBuildId_def lang.simps by (rule concI [rotated])
  moreover have "length ?tag = 70"
    using assms(1) [of b] by (simp add: cdnTagForBuildId_def)
  moreover have "COMMA \<notin> set ?tag"
  proof -
    have "\<not> hex_digit COMMA" by (simp add: hex_digit_def)
    with assms(1) [of b] have "COMMA \<notin> set (sha b)" unfolding list_all_iff by blast
    then show ?thesis by (simp add: cdnTagForBuildId_def)
  qed
  moreover have "cdnCacheTag sha cc (Some b) =
      (if grantsSharedCacheFreshness cc then [(''cache-tag'', ?tag)] else [])"
    using assms(2,3) by (simp add: cdnCacheTag_def)
  ultimately show ?thesis by blast
qed

theorem cacheable_mutable_response_tagged_witness:
  "\<exists>tag. cdnCacheTag (\<lambda>x. replicate 64 (CHR ''a'')) [] (Some ''b1'') =
     (if grantsSharedCacheFreshness [] then [(''cache-tag'', tag)] else []) \<and>
     matches RECORDED_CDN_TAG_PATTERN tag \<and> length tag = 70 \<and> COMMA \<notin> set tag"
  by (rule cacheable_mutable_response_tagged)
     (simp_all add: hex_digit_def list_all_iff hasUnqualifiedCacheControlDirective_def
       parseCacheControlDirectives_def parse_member_def js_trim_def List.map_filter_def)

end
