(* ===== verification/FrameCursor.thy ===== *)
theory FrameCursor
  imports Prelude "HOL-Library.Word"
begin

text \<open>
  \<^verbatim>\<open>src/pool-server/websocket-frame-cursor.ts\<close>: the cursor that follows the client-bound
  byte stream of a tunnelled WebSocket, so that shutdown writes a close frame only between
  two relayed frames. Bytes are 8-bit words; a JavaScript number used as a length is a
  natural number checked against \<open>Number.MAX_SAFE_INTEGER\<close>.
\<close>

unbundle bit_operations_syntax

section \<open>The cursor\<close>

type_synonym byte = "8 word"

record cursor =
  trackable :: bool
  payloadRemaining :: nat
  header :: "byte list"
  closeRelayed :: bool
  relayStopped :: bool

definition new_cursor :: cursor where
  "new_cursor = \<lparr>trackable = True, payloadRemaining = 0, header = [], closeRelayed = False,
     relayStopped = False\<rparr>"

datatype parsed = Incomplete | Untrackable | Parsed nat bool

definition MAX_SAFE_INTEGER :: nat where
  "MAX_SAFE_INTEGER = 2 ^ 53 - 1"

text \<open>The loop over the eight bytes of an extended length; \<open>None\<close> past the safe integers.\<close>

primrec length64 :: "nat \<Rightarrow> byte list \<Rightarrow> nat option" where
  "length64 acc [] = Some acc"
| "length64 acc (b # bs) =
     (let payloadLength = acc * 256 + unat b
      in if payloadLength > MAX_SAFE_INTEGER then None else length64 payloadLength bs)"

definition parseFrameHeader :: "byte list \<Rightarrow> parsed" where
  "parseFrameHeader h =
     (if length h < 2 then Incomplete
      else let close = ((h ! 0) AND 0x0f = 0x8) in
        if (h ! 1) AND 0x80 \<noteq> 0 then Untrackable
        else let length7 = unat ((h ! 1) AND 0x7f) in
          if length7 < 126 then Parsed length7 close
          else if length7 = 126 then
            (if length h < 4 then Incomplete
             else Parsed (push_bit 8 (unat (h ! 2)) OR unat (h ! 3)) close)
          else if length h < 10 then Incomplete
          else case length64 0 (take 8 (drop 2 h)) of
                 None \<Rightarrow> Untrackable
               | Some n \<Rightarrow> Parsed n close)"

text \<open>The body of \<open>observe\<close>: payload bytes are skipped in bulk, header bytes one at a time.\<close>

function observe_loop :: "cursor \<Rightarrow> byte list \<Rightarrow> cursor" where
  "observe_loop c chunk =
     (if chunk = [] then c
      else if payloadRemaining c > 0 then
        (let consumed = min (payloadRemaining c) (length chunk)
         in observe_loop (c\<lparr>payloadRemaining := payloadRemaining c - consumed\<rparr>) (drop consumed chunk))
      else
        (let h = header c @ [hd chunk]
         in case parseFrameHeader h of
              Incomplete \<Rightarrow> observe_loop (c\<lparr>header := h\<rparr>) (tl chunk)
            | Untrackable \<Rightarrow> c\<lparr>header := h, trackable := False\<rparr>
            | Parsed n close \<Rightarrow>
                observe_loop (c\<lparr>payloadRemaining := n, closeRelayed := closeRelayed c \<or> close,
                  header := []\<rparr>) (tl chunk)))"
  by pat_completeness auto
termination
  by (relation "measure (\<lambda>(c, chunk). length chunk)") auto

declare observe_loop.simps [simp del]

definition observe :: "cursor \<Rightarrow> byte list \<Rightarrow> cursor" where
  "observe c chunk = (if \<not> trackable c then c else observe_loop c chunk)"

definition atFrameBoundary :: "cursor \<Rightarrow> bool" where
  "atFrameBoundary c =
     (trackable c \<and> \<not> relayStopped c \<and> \<not> closeRelayed c \<and> payloadRemaining c = 0 \<and> header c = [])"

definition stopRelay :: "cursor \<Rightarrow> cursor" where
  "stopRelay c = c\<lparr>relayStopped := True\<rparr>"

section \<open>The tunnel around the cursor\<close>

text \<open>
  The two sockets of a tunnel as the module sees them: the cursor registered for the client
  socket (\<open>None\<close> for an untracked socket), whether the pool socket is still piped into the
  client, and every byte written to the client.
\<close>

record tunnel =
  cursor_of :: "cursor option"
  piped :: bool
  client_out :: "byte list"

definition trackTunnelFraming :: "byte list \<Rightarrow> tunnel \<Rightarrow> tunnel" where
  "trackTunnelFraming relayedHead t =
     t\<lparr>cursor_of := Some (if relayedHead \<noteq> [] then observe new_cursor relayedHead else new_cursor)\<rparr>"

text \<open>A \<open>data\<close> event of the pool socket: the pipe relays the chunk, the listener observes it.\<close>

definition pool_data :: "byte list \<Rightarrow> tunnel \<Rightarrow> tunnel" where
  "pool_data chunk t =
     t\<lparr>client_out := (if piped t then client_out t @ chunk else client_out t),
       cursor_of := map_option (\<lambda>c. observe c chunk) (cursor_of t)\<rparr>"

definition injectTunnelCloseFrame :: "byte list \<Rightarrow> tunnel \<Rightarrow> tunnel \<times> bool" where
  "injectTunnelCloseFrame closeFrame t =
     (case cursor_of t of
        None \<Rightarrow> (t, False)
      | Some c \<Rightarrow>
          if \<not> atFrameBoundary c then (t, False)
          else (t\<lparr>cursor_of := Some (stopRelay c), piped := False,
                  client_out := client_out t @ closeFrame\<rparr>, True))"

datatype tunnel_event = PoolData "byte list" | InjectClose "byte list"

fun tunnel_step :: "tunnel \<Rightarrow> tunnel_event \<Rightarrow> tunnel" where
  "tunnel_step t (PoolData chunk) = pool_data chunk t"
| "tunnel_step t (InjectClose f) = fst (injectTunnelCloseFrame f t)"

definition tunnel_run :: "tunnel \<Rightarrow> tunnel_event list \<Rightarrow> tunnel" where
  "tunnel_run t es = foldl tunnel_step t es"

section \<open>Unmasked frames (RFC 6455, 5.2) as a reference\<close>

record frame =
  first_byte :: byte
  payload :: "byte list"

definition be_bytes :: "nat \<Rightarrow> nat \<Rightarrow> byte list" where
  "be_bytes k n = map (\<lambda>i. word_of_nat (n div 256 ^ (k - 1 - i))) [0..<k]"

definition frame_header :: "frame \<Rightarrow> byte list" where
  "frame_header f =
     (let n = length (payload f) in
      first_byte f # (if n < 126 then [word_of_nat n]
        else if n < 65536 then 126 # be_bytes 2 n
        else 127 # be_bytes 8 n))"

definition encode :: "frame \<Rightarrow> byte list" where
  "encode f = frame_header f @ payload f"

definition is_close :: "frame \<Rightarrow> bool" where
  "is_close f = (first_byte f AND 0x0f = 0x8)"

definition wf_frame :: "frame \<Rightarrow> bool" where
  "wf_frame f = (length (payload f) \<le> MAX_SAFE_INTEGER)"

section \<open>Byte-at-a-time reference of the bulk loop\<close>

definition observe_byte :: "cursor \<Rightarrow> byte \<Rightarrow> cursor" where
  "observe_byte c b =
     (if \<not> trackable c then c
      else if payloadRemaining c > 0 then c\<lparr>payloadRemaining := payloadRemaining c - 1\<rparr>
      else case parseFrameHeader (header c @ [b]) of
             Incomplete \<Rightarrow> c\<lparr>header := header c @ [b]\<rparr>
           | Untrackable \<Rightarrow> c\<lparr>header := header c @ [b], trackable := False\<rparr>
           | Parsed n close \<Rightarrow>
               c\<lparr>payloadRemaining := n, closeRelayed := closeRelayed c \<or> close, header := []\<rparr>)"

lemma foldl_untrackable [simp]: "\<not> trackable c \<Longrightarrow> foldl observe_byte c bs = c"
  by (induction bs) (auto simp: observe_byte_def)

lemma foldl_payload:
  "trackable c \<Longrightarrow> length bs \<le> payloadRemaining c \<Longrightarrow>
   foldl observe_byte c bs = c\<lparr>payloadRemaining := payloadRemaining c - length bs\<rparr>"
  by (induction bs arbitrary: c) (auto simp: observe_byte_def)

lemma observe_loop_foldl: "trackable c \<Longrightarrow> observe_loop c bs = foldl observe_byte c bs"
proof (induction c bs rule: observe_loop.induct)
  case (1 c chunk)
  show ?case
  proof (cases "chunk = []")
    case True
    then show ?thesis by (simp add: observe_loop.simps [of c "[]"])
  next
    case ne: False
    show ?thesis
    proof (cases "payloadRemaining c > 0")
      case True
      let ?k = "min (payloadRemaining c) (length chunk)"
      have "foldl observe_byte c chunk = foldl observe_byte (foldl observe_byte c (take ?k chunk)) (drop ?k chunk)"
        by (simp flip: foldl_append)
      also have "foldl observe_byte c (take ?k chunk) = c\<lparr>payloadRemaining := payloadRemaining c - ?k\<rparr>"
        using 1(4) foldl_payload [of c "take ?k chunk"] by simp
      finally show ?thesis
        using 1(1) [OF ne True refl] 1(4) ne True by (simp add: observe_loop.simps [of c chunk] Let_def)
    next
      case False
      obtain b bs where c: "chunk = b # bs" using ne by (cases chunk) auto
      show ?thesis
        using 1(2,3) [OF ne False refl] 1(4) False c
        by (cases "parseFrameHeader (header c @ [b])")
           (auto simp: observe_loop.simps [of c "b # bs"] observe_byte_def [of c b] Let_def)
    qed
  qed
qed

lemma observe_foldl: "observe c bs = foldl observe_byte c bs"
  by (simp add: observe_def observe_loop_foldl)

lemma observe_Nil [simp]: "observe c [] = c"
  by (simp add: observe_foldl)

lemma observe_append: "observe c (a @ b) = observe (observe c a) b"
  by (simp add: observe_foldl)

section \<open>Headers\<close>

lemma be_bytes_Suc: "be_bytes (Suc k) n = word_of_nat (n div 256 ^ k) # be_bytes k n"
proof -
  have "[0..<Suc k] = 0 # map Suc [0..<k]" by (simp add: map_Suc_upt upt_conv_Cons del: upt_Suc)
  then show ?thesis by (simp add: be_bytes_def comp_def del: upt_Suc)
qed

lemma be_bytes_0 [simp]: "be_bytes 0 n = []"
  by (simp add: be_bytes_def)

lemma length_be_bytes [simp]: "length (be_bytes k n) = k"
  by (simp add: be_bytes_def)

lemma be_bytes_2: "be_bytes 2 n = [word_of_nat (n div 256), word_of_nat n]"
  by (simp add: be_bytes_Suc numeral_2_eq_2)

lemma length64_be_bytes:
  "n \<le> MAX_SAFE_INTEGER \<Longrightarrow> length64 (n div 256 ^ k) (be_bytes k n) = Some n"
proof (induction k)
  case (Suc k)
  have "n div 256 ^ Suc k * 256 + n div 256 ^ k mod 256 = n div 256 ^ k"
    by (simp add: div_mult2_eq power_Suc2 del: power_Suc)
  moreover have "n div 256 ^ k \<le> MAX_SAFE_INTEGER"
    using Suc.prems div_le_dividend le_trans by blast
  ultimately show ?case
    using Suc by (simp add: be_bytes_Suc unat_of_nat Let_def del: power_Suc)
qed simp

lemma and_7f: "unat ((w :: byte) AND 0x7f) = unat w mod 128"
proof -
  have "unat (w AND 0x7f) = unat w AND mask 7"
    by (simp add: unsigned_and_eq mask_eq_exp_minus_1)
  then show ?thesis by (simp add: take_bit_eq_mod flip: take_bit_eq_mask)
qed

lemma and_80: "n < 128 \<Longrightarrow> (word_of_nat n :: byte) AND 0x80 = 0"
proof -
  assume n: "n < 128"
  have "unat ((word_of_nat n :: byte) AND 0x80) = n AND 2 ^ 7"
    using n by (simp add: unsigned_and_eq unat_of_nat)
  also have "\<dots> = 0"
    unfolding and_exp_eq_0_iff_not_bit using n by (simp add: bit_iff_odd)
  finally show ?thesis by (simp add: unat_eq_zero)
qed

lemma or_be16: "b < 256 \<Longrightarrow> push_bit 8 a OR b = a * 256 + (b :: nat)"
proof -
  assume "b < 256"
  then have b: "take_bit 8 b = b" by (simp add: take_bit_eq_mod)
  have "push_bit 8 a AND take_bit 8 b = 0"
    by (rule bit_eqI) (auto simp: bit_simps)
  then have "push_bit 8 a + b = push_bit 8 a OR b"
    using b by (simp add: disjunctive_add_eq_or)
  then show ?thesis by (simp add: push_bit_eq_mult)
qed

lemma header_len:
  "length (frame_header f) =
     (if length (payload f) < 126 then 2 else if length (payload f) < 65536 then 4 else 10)"
  by (simp add: frame_header_def Let_def)

lemma parse_full_header:
  assumes "wf_frame f"
  shows "parseFrameHeader (frame_header f) = Parsed (length (payload f)) (is_close f)"
proof -
  let ?n = "length (payload f)"
  consider "?n < 126" | "126 \<le> ?n" "?n < 65536" | "65536 \<le> ?n" by linarith
  then show ?thesis
  proof cases
    case 1
    then show ?thesis
      by (simp add: frame_header_def parseFrameHeader_def Let_def and_80 and_7f unat_of_nat is_close_def)
  next
    case 2
    have "?n div 256 * 256 + ?n mod 256 = ?n" by simp
    with 2 show ?thesis
      using or_be16 [of "?n mod 256" "?n div 256"] and_80 [of 126] and_7f [of 126]
      by (simp add: frame_header_def parseFrameHeader_def Let_def unat_of_nat is_close_def
          be_bytes_2)
  next
    case 3
    have "?n < 256 ^ 8" using assms by (simp add: wf_frame_def MAX_SAFE_INTEGER_def)
    then have "length64 0 (be_bytes 8 ?n) = Some ?n"
      using length64_be_bytes [of ?n 8] assms by (simp add: wf_frame_def)
    with 3 show ?thesis
      using and_80 [of 127] and_7f [of 127]
      by (simp add: frame_header_def parseFrameHeader_def Let_def is_close_def)
  qed
qed

lemma parse_part_header:
  assumes "i < length (frame_header f)"
  shows "parseFrameHeader (take i (frame_header f)) = Incomplete"
proof (cases "i < 2")
  case True
  then have "length (take i (frame_header f)) < 2" by simp
  then show ?thesis unfolding parseFrameHeader_def by (simp only: if_True)
next
  case False
  let ?n = "length (payload f)"
  from False assms have "\<not> ?n < 126" by (auto simp: header_len split: if_splits)
  moreover have "take i (frame_header f) ! 1 = frame_header f ! 1" using False by simp
  ultimately show ?thesis
    using False assms and_80 [of 126] and_7f [of 126] and_80 [of 127] and_7f [of 127]
    by (auto simp: parseFrameHeader_def frame_header_def Let_def split: if_splits)
qed

text \<open>A cursor that expects the first byte of a frame.\<close>

definition at_start :: "cursor \<Rightarrow> bool" where
  "at_start c = (trackable c \<and> payloadRemaining c = 0 \<and> header c = [])"

lemma observe_header_part:
  assumes "at_start c" "i < length (frame_header f)"
  shows "observe c (take i (frame_header f)) = c\<lparr>header := take i (frame_header f)\<rparr>"
  using assms(2)
proof (induction i)
  case 0
  then show ?case using assms(1) by (simp add: at_start_def)
next
  case (Suc i)
  then have t: "take (Suc i) (frame_header f) = take i (frame_header f) @ [frame_header f ! i]"
    by (simp add: take_Suc_conv_app_nth)
  with Suc assms(1) parse_part_header [OF Suc.prems] show ?case
    by (simp add: observe_append) (simp add: observe_foldl observe_byte_def at_start_def)
qed

lemma observe_header:
  assumes "at_start c" "wf_frame f"
  shows "observe c (frame_header f) =
    c\<lparr>payloadRemaining := length (payload f), closeRelayed := closeRelayed c \<or> is_close f\<rparr>"
proof -
  obtain hs b where h: "frame_header f = hs @ [b]"
    using header_len [of f] by (cases "frame_header f" rule: rev_cases) (auto split: if_splits)
  then have "observe c hs = c\<lparr>header := hs\<rparr>"
    using observe_header_part [OF assms(1), of "length hs" f] by simp
  then have "observe c (hs @ [b]) = observe_byte (c\<lparr>header := hs\<rparr>) b"
    unfolding observe_append by (simp add: observe_foldl)
  then show ?thesis
    using assms(1) parse_full_header [OF assms(2)] by (simp add: h observe_byte_def at_start_def)
qed

lemma observe_frame:
  assumes "at_start c" "wf_frame f"
  shows "observe c (encode f) = c\<lparr>closeRelayed := closeRelayed c \<or> is_close f\<rparr>"
proof -
  let ?c = "c\<lparr>payloadRemaining := length (payload f), closeRelayed := closeRelayed c \<or> is_close f\<rparr>"
  have "observe ?c (payload f) = ?c\<lparr>payloadRemaining := 0\<rparr>"
    using assms(1) foldl_payload [of ?c "payload f"] by (simp add: observe_foldl at_start_def)
  then show ?thesis
    using assms observe_header by (simp add: encode_def observe_append at_start_def)
qed

definition encode_all :: "frame list \<Rightarrow> byte list" where
  "encode_all fs = concat (map encode fs)"

lemma encode_all_simps [simp]:
  "encode_all [] = []" "encode_all (f # fs) = encode f @ encode_all fs"
  "encode_all (fs @ gs) = encode_all fs @ encode_all gs"
  by (simp_all add: encode_all_def)

lemma observe_frames:
  "at_start c \<Longrightarrow> \<forall>f \<in> set fs. wf_frame f \<Longrightarrow>
   observe c (encode_all fs) = c\<lparr>closeRelayed := closeRelayed c \<or> (\<exists>f \<in> set fs. is_close f)\<rparr>"
proof (induction fs arbitrary: c)
  case (Cons f fs)
  have "at_start (c\<lparr>closeRelayed := closeRelayed c \<or> is_close f\<rparr>)"
    using Cons.prems(1) by (simp add: at_start_def)
  from Cons.IH [OF this] Cons.prems show ?case
    by (simp add: observe_append observe_frame disj_assoc)
qed simp

lemma observe_part_frame:
  assumes "at_start c" "wf_frame f" "strict_prefix p (encode f)" "p \<noteq> []"
  shows "\<not> at_start (observe c p)"
proof (cases "length p < length (frame_header f)")
  case True
  then have "p = take (length p) (frame_header f)"
    using assms(3) by (metis encode_def prefixE prefix_def strict_prefix_def append_eq_conv_conj
        take_append diff_is_0_eq' less_imp_le take0 append_Nil2)
  then show ?thesis
    using observe_header_part [OF assms(1) True] assms(4) by (auto simp: at_start_def)
next
  case False
  then obtain q where p: "p = frame_header f @ q"
    using assms(3) by (metis encode_def linorder_not_less prefix_length_prefix prefix_def strict_prefix_def)
  with assms(3) have "length q < length (payload f)"
    by (auto simp: encode_def strict_prefix_def prefix_def)
  moreover have "observe c p =
    foldl observe_byte (c\<lparr>payloadRemaining := length (payload f), closeRelayed := closeRelayed c \<or> is_close f\<rparr>) q"
    using observe_header [OF assms(1,2)] p by (simp add: observe_append) (simp add: observe_foldl)
  ultimately show ?thesis
    using assms(1) by (simp add: foldl_payload at_start_def)
qed

lemma new_cursor_start [simp]: "at_start new_cursor" "\<not> closeRelayed new_cursor" "\<not> relayStopped new_cursor"
  by (simp_all add: at_start_def new_cursor_def)

lemma boundary_at_start:
  "atFrameBoundary c \<longleftrightarrow> at_start c \<and> \<not> relayStopped c \<and> \<not> closeRelayed c"
  by (auto simp: atFrameBoundary_def at_start_def)

section \<open>What the tunnel needs of a frame tracker\<close>

text \<open>
  The contract between the tunnel and its cursor: chunking does not matter, whole frames
  lead from one frame start to the next, a proper part of a frame does not, a reported
  boundary is a frame start, and a stopped tracker never reports one again.
\<close>

locale frame_tracker =
  fixes obs :: "'c \<Rightarrow> 'b list \<Rightarrow> 'c" and bnd :: "'c \<Rightarrow> bool" and stop :: "'c \<Rightarrow> 'c"
    and start :: "'c \<Rightarrow> bool" and enc :: "'f \<Rightarrow> 'b list" and wf :: "'f \<Rightarrow> bool"
  assumes obs_nil: "obs c [] = c"
    and obs_app: "obs c (a @ b) = obs (obs c a) b"
    and whole: "start c \<Longrightarrow> wf f \<Longrightarrow> start (obs c (enc f))"
    and part: "start c \<Longrightarrow> wf f \<Longrightarrow> strict_prefix p (enc f) \<Longrightarrow> p \<noteq> [] \<Longrightarrow> \<not> start (obs c p)"
    and bnd_start: "bnd c \<Longrightarrow> start c"
    and stop_bnd: "\<not> bnd (obs (stop c) x)"
begin

lemma foldl_obs: "foldl obs c chunks = obs c (concat chunks)"
  by (induction chunks arbitrary: c) (simp_all add: obs_nil obs_app)

lemma start_frames: "start c \<Longrightarrow> \<forall>f \<in> set fs. wf f \<Longrightarrow> start (obs c (concat (map enc fs)))"
  by (induction fs arbitrary: c) (auto simp: obs_nil obs_app whole)

lemma prefix_split:
  "prefix s (concat (map enc fs)) \<Longrightarrow>
   \<exists>gs hs p. fs = gs @ hs \<and> s = concat (map enc gs) @ p \<and> (p = [] \<or> (\<exists>f \<in> set hs. strict_prefix p (enc f)))"
proof (induction fs arbitrary: s)
  case Nil
  then show ?case by (auto intro: exI [of _ "[]"])
next
  case (Cons f fs)
  show ?case
  proof (cases "prefix (enc f) s")
    case True
    then obtain r where s: "s = enc f @ r" by (auto simp: prefix_def)
    with Cons.prems have "prefix r (concat (map enc fs))" by simp
    with Cons.IH obtain gs hs p where "fs = gs @ hs" "r = concat (map enc gs) @ p"
      "p = [] \<or> (\<exists>f \<in> set hs. strict_prefix p (enc f))" by blast
    with s show ?thesis by (intro exI [of _ "f # gs"] exI [of _ hs] exI [of _ p]) simp
  next
    case False
    with Cons.prems have "strict_prefix s (enc f)"
      using prefix_same_cases [of s _ "enc f"] by (force simp: strict_prefix_def)
    then show ?thesis by (intro exI [of _ "[]"] exI [of _ "f # fs"] exI [of _ s]) auto
  qed
qed

lemma boundary_complete:
  assumes "start c" "\<forall>f \<in> set fs. wf f" "prefix s (concat (map enc fs))" "bnd (obs c s)"
  shows "\<exists>gs hs. fs = gs @ hs \<and> s = concat (map enc gs)"
proof -
  obtain gs hs p where *: "fs = gs @ hs" "s = concat (map enc gs) @ p"
    "p = [] \<or> (\<exists>f \<in> set hs. strict_prefix p (enc f))"
    using prefix_split [OF assms(3)] by blast
  have "start (obs c (concat (map enc gs)))" using start_frames assms(1,2) * by simp
  moreover have "start (obs (obs c (concat (map enc gs))) p)"
    using bnd_start [OF assms(4)] * by (simp add: obs_app)
  ultimately have "p = []" using part assms(2) * by fastforce
  with * show ?thesis by auto
qed

end

lemma stopped_observe: "relayStopped (observe c bs) = relayStopped c"
proof -
  have "relayStopped (observe_byte c b) = relayStopped c" for c b
    by (auto simp: observe_byte_def split: parsed.splits)
  then have "relayStopped (foldl observe_byte c bs) = relayStopped c"
    by (induction bs arbitrary: c) auto
  then show ?thesis by (simp add: observe_foldl)
qed

interpretation ft: frame_tracker observe atFrameBoundary stopRelay at_start encode wf_frame
proof unfold_locales
  show "at_start c \<Longrightarrow> wf_frame f \<Longrightarrow> at_start (observe c (encode f))" for c f
    by (simp add: observe_frame) (simp add: at_start_def)
  show "\<not> atFrameBoundary (observe (stopRelay c) x)" for c x
    by (simp add: boundary_at_start stopped_observe stopRelay_def)
qed (simp_all add: observe_append observe_part_frame boundary_at_start)

section \<open>Runs of the tunnel\<close>

primrec pool_bytes :: "tunnel_event \<Rightarrow> byte list" where
  "pool_bytes (PoolData chunk) = chunk"
| "pool_bytes (InjectClose f) = []"

lemma tunnel_run_Nil [simp]: "tunnel_run t [] = t"
  and tunnel_run_Cons [simp]: "tunnel_run t (e # es) = tunnel_run (tunnel_step t e) es"
  by (simp_all add: tunnel_run_def)

text \<open>Once the relay is stopped, the client sees nothing more, whatever the pool sends.\<close>

lemma stopped_tunnel_silent:
  "cursor_of t = Some c \<Longrightarrow> relayStopped c \<Longrightarrow> \<not> piped t \<Longrightarrow>
   client_out (tunnel_run t es) = client_out t \<and>
   snd (injectTunnelCloseFrame f (tunnel_run t es)) = False"
proof (induction es arbitrary: t c)
  case Nil
  then show ?case by (simp add: injectTunnelCloseFrame_def boundary_at_start)
next
  case (Cons e es)
  show ?case
  proof (cases e)
    case (PoolData chunk)
    with Cons.prems Cons.IH [of "tunnel_step t e" "observe c chunk"] show ?thesis
      by (simp add: pool_data_def stopped_observe)
  next
    case (InjectClose g)
    with Cons.prems have "tunnel_step t e = t"
      by (simp add: injectTunnelCloseFrame_def boundary_at_start)
    with Cons show ?thesis by simp
  qed
qed

text \<open>Before an injection the cursor has observed exactly what the client has received.\<close>

lemma tunnel_in_step:
  assumes "\<forall>e \<in> set es. \<exists>chunk. e = PoolData chunk" "piped t" "cursor_of t = Some (observe c (client_out t))"
  shows "piped (tunnel_run t es) \<and>
    client_out (tunnel_run t es) = client_out t @ concat (map pool_bytes es) \<and>
    cursor_of (tunnel_run t es) = Some (observe c (client_out t @ concat (map pool_bytes es)))"
  using assms
proof (induction es arbitrary: t)
  case (Cons e es)
  then obtain chunk where e: "e = PoolData chunk" by auto
  with Cons.prems have "piped (tunnel_step t e)"
    "cursor_of (tunnel_step t e) = Some (observe c (client_out (tunnel_step t e)))"
    "client_out (tunnel_step t e) = client_out t @ chunk"
    by (simp_all add: pool_data_def observe_append)
  with Cons.IH [of "tunnel_step t e"] Cons.prems e show ?case by simp
qed simp

definition fresh_tunnel :: "byte list \<Rightarrow> tunnel" where
  "fresh_tunnel relayedHead =
     trackTunnelFraming relayedHead \<lparr>cursor_of = None, piped = True, client_out = relayedHead\<rparr>"

lemma fresh_tunnel_in_step:
  "piped (fresh_tunnel h)" "client_out (fresh_tunnel h) = h"
  "cursor_of (fresh_tunnel h) = Some (observe new_cursor h)"
  by (auto simp: fresh_tunnel_def trackTunnelFraming_def)

lemma fresh_tunnel_run:
  assumes "\<forall>e \<in> set es. \<exists>chunk. e = PoolData chunk"
  shows "cursor_of (tunnel_run (fresh_tunnel h) es) = Some (observe new_cursor (h @ concat (map pool_bytes es)))"
    "client_out (tunnel_run (fresh_tunnel h) es) = h @ concat (map pool_bytes es)"
  using tunnel_in_step [OF assms, of "fresh_tunnel h" new_cursor] by (simp_all add: fresh_tunnel_in_step)

section \<open>Properties\<close>

text \<open>
  the bulk loop is the byte-at-a-time reading of the stream. Skipping a payload in one
  step, resuming a header split over several TCP chunks and stopping at an untrackable byte
  give exactly the state of the per-byte reference, for every cursor and every chunk; hence
  the way the relayed bytes are cut into chunks never changes the cursor.
\<close>

theorem observe_chunking_irrelevant:
  "observe c (concat chunks) = foldl observe_byte c (concat chunks) \<and>
   foldl observe c chunks = observe c (concat chunks)"
  by (simp add: observe_foldl ft.foldl_obs)

text \<open>
  the cursor recognises exactly the frame boundaries. After any sequence of well-formed
  unmasked frames it is at a boundary if and only if none of them was a close frame, and after
  any proper non-empty part of one more frame (inside its header or its payload) it is not.
\<close>

theorem cursor_tracks_frames:
  assumes "\<forall>f \<in> set fs. wf_frame f" "wf_frame g"
  shows "(atFrameBoundary (observe new_cursor (encode_all fs)) \<longleftrightarrow> (\<forall>f \<in> set fs. \<not> is_close f)) \<and>
         (\<forall>p. strict_prefix p (encode g) \<and> p \<noteq> [] \<longrightarrow>
              \<not> atFrameBoundary (observe new_cursor (encode_all fs @ p)))"
proof -
  note o = observe_frames [OF new_cursor_start(1) assms(1)]
  have "atFrameBoundary (observe new_cursor (encode_all fs)) \<longleftrightarrow> (\<forall>f \<in> set fs. \<not> is_close f)"
    by (simp add: o boundary_at_start) (simp add: at_start_def new_cursor_def)
  moreover have "at_start (observe new_cursor (encode_all fs))"
    using ft.start_frames [OF new_cursor_start(1) assms(1)] by (simp add: encode_all_def)
  ultimately show ?thesis
    using ft.part [OF _ assms(2)] by (simp add: observe_append boundary_at_start)
qed

theorem cursor_tracks_frames_witness:
  "\<not> atFrameBoundary (observe new_cursor
     (encode_all [\<lparr>first_byte = 0x81, payload = [1, 2, 3]\<rparr>] @ [0x82, 0x02, 7]))"
proof -
  have "strict_prefix [0x82, 0x02, 7] (encode \<lparr>first_byte = 0x82, payload = [7, 8]\<rparr>)"
    by (simp add: encode_def frame_header_def strict_prefix_def)
  with cursor_tracks_frames [of "[\<lparr>first_byte = 0x81, payload = [1, 2, 3]\<rparr>]"
      "\<lparr>first_byte = 0x82, payload = [7, 8]\<rparr>"]
  show ?thesis by (simp add: wf_frame_def MAX_SAFE_INTEGER_def)
qed

text \<open>
  C37: an injected close frame never lands inside a relayed frame. Let the pool send, in any
  chunks and after any bytes already carried by the upgrade response, a prefix of a stream of
  well-formed frames. If the injection succeeds, what the client had received is a sequence of
  complete frames without a close frame, and the close frame follows it directly.
\<close>

theorem injection_only_between_frames:
  assumes "\<forall>f \<in> set fs. wf_frame f" and "\<forall>e \<in> set es. \<exists>chunk. e = PoolData chunk"
    and "prefix (h @ concat (map pool_bytes es)) (encode_all fs)"
    and "injectTunnelCloseFrame cf (tunnel_run (fresh_tunnel h) es) = (t, True)"
  shows "\<exists>gs hs. fs = gs @ hs \<and> (\<forall>f \<in> set gs. \<not> is_close f) \<and> client_out t = encode_all gs @ cf"
proof -
  let ?s = "h @ concat (map pool_bytes es)"
  note run = fresh_tunnel_run [OF assms(2), of h]
  from assms(4) run have b: "atFrameBoundary (observe new_cursor ?s)" and out: "client_out t = ?s @ cf"
    by (auto simp: injectTunnelCloseFrame_def split: if_splits)
  obtain gs hs where g: "fs = gs @ hs" "?s = encode_all gs"
    using ft.boundary_complete [OF new_cursor_start(1) assms(1) _ b] assms(3) unfolding encode_all_def by blast
  then have "\<forall>f \<in> set gs. wf_frame f" using assms(1) by simp
  then have "\<forall>f \<in> set gs. \<not> is_close f"
    using b g observe_frames [OF new_cursor_start(1), of gs] by (simp add: boundary_at_start)
  with g out show ?thesis by auto
qed

theorem injection_only_between_frames_witness:
  "\<exists>gs hs. [\<lparr>first_byte = 0x81, payload = [5]\<rparr>] = gs @ hs \<and> (\<forall>f \<in> set gs. \<not> is_close f) \<and>
     client_out (fst (injectTunnelCloseFrame [0x88, 0] (tunnel_run (fresh_tunnel [0x81]) [PoolData [1], PoolData [5]]))) =
     encode_all gs @ [0x88, 0]"
proof (rule injection_only_between_frames [where es = "[PoolData [1], PoolData [5]]" and h = "[0x81]"])
  show "injectTunnelCloseFrame [0x88, 0] (tunnel_run (fresh_tunnel [0x81]) [PoolData [1], PoolData [5]]) =
    (fst (injectTunnelCloseFrame [0x88, 0] (tunnel_run (fresh_tunnel [0x81]) [PoolData [1], PoolData [5]])), True)"
    by (simp add: injectTunnelCloseFrame_def tunnel_run_def fresh_tunnel_def trackTunnelFraming_def
        pool_data_def observe_foldl observe_byte_def new_cursor_def parseFrameHeader_def atFrameBoundary_def Let_def)
qed (simp_all add: wf_frame_def MAX_SAFE_INTEGER_def encode_def frame_header_def)

text \<open>
  at most one close frame is injected, and it is the last thing the client sees. After a
  successful injection no later pool data reaches the client and every later injection is
  refused, for any further events.
\<close>

theorem injection_is_final:
  assumes "injectTunnelCloseFrame cf t = (t', True)"
  shows "client_out (tunnel_run t' es) = client_out t @ cf \<and>
         snd (injectTunnelCloseFrame cf' (tunnel_run t' es)) = False"
proof -
  from assms obtain c where "cursor_of t' = Some (stopRelay c)" "\<not> piped t'" "client_out t' = client_out t @ cf"
    by (auto simp: injectTunnelCloseFrame_def split: option.splits if_splits)
  then show ?thesis
    using stopped_tunnel_silent [of t' "stopRelay c" es cf'] by (simp add: stopRelay_def)
qed

theorem injection_is_final_witness:
  "client_out (tunnel_run (fst (injectTunnelCloseFrame [0x88, 0] (fresh_tunnel []))) [PoolData [9]]) = [0x88, 0] \<and>
   snd (injectTunnelCloseFrame [0x88, 0] (tunnel_run (fst (injectTunnelCloseFrame [0x88, 0] (fresh_tunnel []))) [PoolData [9]])) = False"
proof -
  have "injectTunnelCloseFrame [0x88, 0] (fresh_tunnel []) =
      (fst (injectTunnelCloseFrame [0x88, 0] (fresh_tunnel [])), True)"
    by (simp add: injectTunnelCloseFrame_def fresh_tunnel_def trackTunnelFraming_def atFrameBoundary_def new_cursor_def)
  from injection_is_final [OF this, of "[PoolData [9]]" "[0x88, 0]"] show ?thesis
    by (simp add: fresh_tunnel_in_step)
qed

end
