(* ===== verification/EtagCache.thy ===== *)
theory EtagCache
  imports Prelude "HOL-Library.Multiset"
begin

text \<open>
  \<^verbatim>\<open>src/pool-server/http-cache.ts\<close>: conditional requests, the bounded LRU of memoized ETags,
  and the admission of asynchronous file hashes (at most four running, at most 64 pending).
  The module's globals are the fields of one record; an asynchronous call is a sequence of
  steps (request, settle, continuation) that any other step may interleave with.
\<close>

section \<open>ETags\<close>

abbreviation DQUOTE :: char where "DQUOTE \<equiv> CHR 0x22"

text \<open>\<open>sha1b64\<close> stands for \<open>createHash("sha1").update(x).digest("base64url")\<close>.\<close>

definition staticAssetEtag :: "('b \<Rightarrow> string) \<Rightarrow> 'b \<Rightarrow> string" where
  "staticAssetEtag sha1b64 content = [DQUOTE] @ sha1b64 content @ [DQUOTE]"

definition strip_weak :: "string \<Rightarrow> string" where
  "strip_weak s = (if prefix ''W/'' s then drop 2 s else s)"

definition ifNoneMatchMatches :: "string option \<Rightarrow> string \<Rightarrow> bool" where
  "ifNoneMatchMatches value etag =
     (case value of
        None \<Rightarrow> False
      | Some v \<Rightarrow> v \<noteq> [] \<and>
          (\<exists>candidate \<in> set (js_split (CHR '','') v).
             let normalized = strip_weak (js_trim candidate)
             in normalized = ''*'' \<or> normalized = etag))"

section \<open>The memo cache\<close>

definition MAX_MEMOIZED_ETAGS :: nat where "MAX_MEMOIZED_ETAGS = 4096"
definition MAX_CONCURRENT_ETAG_HASHES :: nat where "MAX_CONCURRENT_ETAG_HASHES = 4"
definition MAX_PENDING_ETAG_HASHES :: nat where "MAX_PENDING_ETAG_HASHES = 64"

type_synonym etag_map = "(string, string) jsmap"

text \<open>The size and the modification time enter the key in their printed form.\<close>

definition etagCacheKey :: "string \<Rightarrow> string \<Rightarrow> string \<Rightarrow> string" where
  "etagCacheKey filePath fsize mtimeMs = filePath @ '':'' @ fsize @ '':'' @ mtimeMs"

text \<open>The eviction loop: the first key of the map is the oldest one.\<close>

function evict_oldest :: "nat \<Rightarrow> etag_map \<Rightarrow> etag_map" where
  "evict_oldest cap m =
     (if length m \<ge> cap \<and> m \<noteq> [] then evict_oldest cap (jsmap_delete (fst (hd m)) m) else m)"
  by pat_completeness auto
termination
proof (relation "measure (\<lambda>(cap, m). length m)")
  fix cap :: nat and m :: etag_map
  assume "length m \<ge> cap \<and> m \<noteq> []"
  then show "((cap, jsmap_delete (fst (hd m)) m), (cap, m)) \<in> measure (\<lambda>(cap, m). length m)"
    by (cases m) (auto simp: jsmap_delete_def le_imp_less_Suc)
qed simp

declare evict_oldest.simps [simp del]

definition rememberEtag :: "string \<Rightarrow> string \<Rightarrow> etag_map \<Rightarrow> etag_map" where
  "rememberEtag key etag m =
     jsmap_set key etag (evict_oldest MAX_MEMOIZED_ETAGS (jsmap_delete key m))"

definition cachedEtag :: "string \<Rightarrow> etag_map \<Rightarrow> string option \<times> etag_map" where
  "cachedEtag key m =
     (case map_of m key of
        None \<Rightarrow> (None, m)
      | Some cached \<Rightarrow> (Some cached, jsmap_set key cached (jsmap_delete key m)))"

text \<open>\<open>readContent\<close> is called only on a miss; \<open>hash\<close> is \<open>staticAssetEtag\<close>.\<close>

definition staticAssetEtagForFile ::
    "('b \<Rightarrow> string) \<Rightarrow> (string \<Rightarrow> 'b) \<Rightarrow> string \<Rightarrow> etag_map \<Rightarrow> string \<times> etag_map" where
  "staticAssetEtagForFile sha1b64 readContent key m =
     (case cachedEtag key m of
        (Some cached, m') \<Rightarrow> (cached, m')
      | (None, m') \<Rightarrow>
          (let etag = staticAssetEtag sha1b64 (readContent key)
           in (etag, rememberEtag key etag m')))"

section \<open>Admission of asynchronous hashes\<close>

text \<open>
  \<open>pendingEtagCache\<close> holds the keys with a promise; \<open>running\<close> and \<open>etagHashQueue\<close> are the
  computations started and waiting; \<open>settled\<close> are promises resolved (\<open>Some etag\<close>) or rejected
  (\<open>None\<close>) whose \<open>await\<close> has not resumed yet.
\<close>

record etag_state =
  etagCache :: etag_map
  pendingEtagCache :: "string list"
  activeEtagHashes :: nat
  etagHashQueue :: "string list"
  running :: "string list"
  settled :: "(string \<times> string option) list"

definition init_etag_state :: etag_state where
  "init_etag_state = \<lparr>etagCache = [], pendingEtagCache = [], activeEtagHashes = 0,
     etagHashQueue = [], running = [], settled = []\<rparr>"

text \<open>
  \<open>start\<close>: the counter is incremented and the stream opened; when \<open>createReadStream\<close> throws
  (\<open>\<not> opens key\<close>), \<open>settle\<close> decrements the counter again, pumps the queue and rejects.
\<close>

function pumpEtagHashQueue :: "(string \<Rightarrow> bool) \<Rightarrow> etag_state \<Rightarrow> etag_state" where
  "pumpEtagHashQueue opens s =
     (if activeEtagHashes s < MAX_CONCURRENT_ETAG_HASHES \<and> etagHashQueue s \<noteq> [] then
        (let k = hd (etagHashQueue s); s' = s\<lparr>etagHashQueue := tl (etagHashQueue s)\<rparr>
         in if opens k
            then pumpEtagHashQueue opens
                   (s'\<lparr>activeEtagHashes := activeEtagHashes s' + 1, running := running s' @ [k]\<rparr>)
            else let s'' = pumpEtagHashQueue opens s'
                 in s''\<lparr>settled := settled s'' @ [(k, None)]\<rparr>)
      else s)"
  by pat_completeness auto
termination
  by (relation "measure (\<lambda>(opens, s). length (etagHashQueue s))") auto

declare pumpEtagHashQueue.simps [simp del]

definition settle_hash ::
    "(string \<Rightarrow> bool) \<Rightarrow> string \<Rightarrow> string option \<Rightarrow> etag_state \<Rightarrow> etag_state" where
  "settle_hash opens key result s =
     (let s' = pumpEtagHashQueue opens (s\<lparr>activeEtagHashes := activeEtagHashes s - 1\<rparr>)
      in s'\<lparr>settled := settled s' @ [(key, result)]\<rparr>)"

definition start_hash :: "(string \<Rightarrow> bool) \<Rightarrow> string \<Rightarrow> etag_state \<Rightarrow> etag_state" where
  "start_hash opens key s =
     (let s' = s\<lparr>activeEtagHashes := activeEtagHashes s + 1\<rparr>
      in if opens key then s'\<lparr>running := running s' @ [key]\<rparr> else settle_hash opens key None s')"

definition hashFileWithAdmission :: "(string \<Rightarrow> bool) \<Rightarrow> string \<Rightarrow> etag_state \<Rightarrow> etag_state" where
  "hashFileWithAdmission opens key s =
     (if activeEtagHashes s < MAX_CONCURRENT_ETAG_HASHES then start_hash opens key s
      else s\<lparr>etagHashQueue := etagHashQueue s @ [key]\<rparr>)"

datatype etag_reply = Cached string | Awaiting | NoValidator

definition staticAssetEtagForFileAsync ::
    "(string \<Rightarrow> bool) \<Rightarrow> string \<Rightarrow> etag_state \<Rightarrow> etag_reply \<times> etag_state" where
  "staticAssetEtagForFileAsync opens key s =
     (case cachedEtag key (etagCache s) of
        (Some cached, m) \<Rightarrow> (Cached cached, s\<lparr>etagCache := m\<rparr>)
      | (None, m) \<Rightarrow>
          if key \<in> set (pendingEtagCache s) then (Awaiting, s)
          else if length (pendingEtagCache s) \<ge> MAX_PENDING_ETAG_HASHES then (NoValidator, s)
          else (Awaiting, let s' = hashFileWithAdmission opens key s
                          in s'\<lparr>pendingEtagCache := pendingEtagCache s' @ [key]\<rparr>))"

text \<open>The continuation of the \<open>await\<close>: remember a resolved digest, then the \<open>finally\<close> block.\<close>

definition resume_await :: "string \<Rightarrow> string option \<Rightarrow> etag_state \<Rightarrow> etag_state" where
  "resume_await key result s =
     (let s' = (case result of
                  None \<Rightarrow> s
                | Some etag \<Rightarrow> s\<lparr>etagCache := rememberEtag key etag (etagCache s)\<rparr>)
      in s'\<lparr>pendingEtagCache := removeAll key (pendingEtagCache s')\<rparr>)"

inductive etag_step :: "(string \<Rightarrow> bool) \<Rightarrow> etag_state \<Rightarrow> etag_state \<Rightarrow> bool" for opens where
  request: "etag_step opens s (snd (staticAssetEtagForFileAsync opens key s))"
| settle: "key \<in> set (running s) \<Longrightarrow>
     etag_step opens s (settle_hash opens key result (s\<lparr>running := remove1 key (running s)\<rparr>))"
| resume: "settled s = (key, result) # rest \<Longrightarrow>
     etag_step opens s (resume_await key result (s\<lparr>settled := rest\<rparr>))"

inductive etag_reachable :: "(string \<Rightarrow> bool) \<Rightarrow> etag_state \<Rightarrow> bool" for opens where
  init: "etag_reachable opens init_etag_state"
| step: "etag_reachable opens s \<Longrightarrow> etag_step opens s t \<Longrightarrow> etag_reachable opens t"

section \<open>The memo cache as an interface\<close>

text \<open>
  What a caller needs of a memo: a read returns the stored value and forgets nothing, a write
  stores the value and at most forgets others.
\<close>

locale memo_cache =
  fixes get :: "'k \<Rightarrow> 's \<Rightarrow> 'v option \<times> 's" and put :: "'k \<Rightarrow> 'v \<Rightarrow> 's \<Rightarrow> 's"
    and look :: "'s \<Rightarrow> 'k \<Rightarrow> 'v option" and inv :: "'s \<Rightarrow> bool"
  assumes get_value: "inv s \<Longrightarrow> fst (get k s) = look s k"
    and get_keeps: "inv s \<Longrightarrow> look (snd (get k s)) = look s"
    and get_inv: "inv s \<Longrightarrow> inv (snd (get k s))"
    and put_stores: "inv s \<Longrightarrow> look (put k v s) k = Some v"
    and put_others: "inv s \<Longrightarrow> k' \<noteq> k \<Longrightarrow> look (put k v s) k' = None \<or> look (put k v s) k' = look s k'"
    and put_inv: "inv s \<Longrightarrow> inv (put k v s)"
begin

text \<open>A memo agrees with a function when every stored value is the function's.\<close>

definition agrees :: "('k \<Rightarrow> 'v) \<Rightarrow> 's \<Rightarrow> bool" where
  "agrees f s = (\<forall>k v. look s k = Some v \<longrightarrow> v = f k)"

lemma agrees_put: "inv s \<Longrightarrow> agrees f s \<Longrightarrow> agrees f (put k (f k) s)"
  unfolding agrees_def by (metis put_stores put_others option.distinct(1) option.inject)

lemma agrees_get: "inv s \<Longrightarrow> agrees f s \<Longrightarrow> agrees f (snd (get k s))"
  by (simp add: agrees_def get_keeps)

lemma memoized_call:
  assumes "inv s" "agrees f s"
    and "r = (case get k s of (Some v, s') \<Rightarrow> (v, s') | (None, s') \<Rightarrow> (f k, put k (f k) s'))"
  shows "fst r = f k \<and> inv (snd r) \<and> agrees f (snd r)"
proof -
  obtain v s1 where g: "get k s = (v, s1)" by fastforce
  have "inv s1" "agrees f s1" using assms g get_inv [of s k] agrees_get [of s f k] by auto
  moreover have "v = look s k" using assms(1) g get_value [of s k] by simp
  ultimately show ?thesis
    using g assms put_inv agrees_put by (auto simp: agrees_def split: option.splits)
qed

end

definition etag_map_inv :: "etag_map \<Rightarrow> bool" where
  "etag_map_inv m = (jsmap_wf m \<and> length m \<le> MAX_MEMOIZED_ETAGS)"

text \<open>The map read backwards is the recency list; eviction keeps its front.\<close>

lemma jsmap_delete_hd: "jsmap_wf (e # m) \<Longrightarrow> jsmap_delete (fst e) (e # m) = m"
  by (force simp: jsmap_delete_def filter_id_conv)

lemma evict_oldest_drop:
  "jsmap_wf m \<Longrightarrow> 0 < cap \<Longrightarrow> evict_oldest cap m = drop (Suc (length m) - cap) m"
proof (induction cap m rule: evict_oldest.induct)
  case (1 cap m)
  show ?case
  proof (cases "length m \<ge> cap \<and> m \<noteq> []")
    case True
    then obtain e m' where m: "m = e # m'" by (cases m) auto
    have "evict_oldest cap m = evict_oldest cap m'"
      using True m jsmap_delete_hd [of e m'] 1(2) by (simp add: evict_oldest.simps [of cap "e # m'"])
    with 1 True m jsmap_delete_hd [of e m'] show ?thesis by (simp add: Suc_diff_le)
  next
    case False
    with 1(3) show ?thesis by (auto simp: evict_oldest.simps [of cap m])
  qed
qed

lemma evict_small: "jsmap_wf m \<Longrightarrow> 0 < cap \<Longrightarrow> length (evict_oldest cap m) < cap"
  by (simp add: evict_oldest_drop)

lemma jsmap_delete_absent: "k \<notin> fst ` set (jsmap_delete k m)"
  by (auto simp: jsmap_delete_def)

lemma evict_subset: "jsmap_wf m \<Longrightarrow> 0 < cap \<Longrightarrow> set (evict_oldest cap m) \<subseteq> set m"
  by (simp add: evict_oldest_drop set_drop_subset)

lemma evict_wf: "jsmap_wf m \<Longrightarrow> 0 < cap \<Longrightarrow> jsmap_wf (evict_oldest cap m)"
  by (simp add: evict_oldest_drop flip: drop_map)

lemma MAX_pos [simp]: "0 < MAX_MEMOIZED_ETAGS"
  by (simp add: MAX_MEMOIZED_ETAGS_def)

lemma remember_append:
  assumes "jsmap_wf m"
  shows "rememberEtag k v m = evict_oldest MAX_MEMOIZED_ETAGS (jsmap_delete k m) @ [(k, v)]"
proof -
  have "jsmap_wf (jsmap_delete k m)" using assms by simp
  then have "k \<notin> fst ` set (evict_oldest MAX_MEMOIZED_ETAGS (jsmap_delete k m))"
    using evict_subset [OF _ MAX_pos] jsmap_delete_absent [of k m] by fastforce
  then show ?thesis by (simp add: rememberEtag_def jsmap_set_fresh)
qed

lemma remember_inv: "etag_map_inv m \<Longrightarrow> etag_map_inv (rememberEtag k v m)"
proof -
  assume m: "etag_map_inv m"
  let ?m = "jsmap_delete k m"
  have wf: "jsmap_wf ?m" using m by (simp add: etag_map_inv_def)
  have "k \<notin> fst ` set (evict_oldest MAX_MEMOIZED_ETAGS ?m)"
    using evict_subset [OF wf MAX_pos] jsmap_delete_absent [of k m] by fastforce
  then show ?thesis
    using m wf evict_small [OF wf MAX_pos] evict_wf [OF wf MAX_pos]
    by (simp add: etag_map_inv_def remember_append)
qed

lemma cached_inv: "etag_map_inv m \<Longrightarrow> etag_map_inv (snd (cachedEtag k m))"
proof -
  assume m: "etag_map_inv m"
  have "length (jsmap_set k v (jsmap_delete k m)) = length m" if "map_of m k = Some v" for v
  proof -
    have "k \<in> set (jsmap_keys m)" using that by (force dest: map_of_SomeD)
    then show ?thesis
      using m length_jsmap_delete [of m k] jsmap_delete_absent [of k m]
      by (simp add: etag_map_inv_def jsmap_set_fresh)
        (metis Suc_pred image_iff length_pos_if_in_set)
  qed
  with m show ?thesis
    by (auto simp: cachedEtag_def etag_map_inv_def split: option.splits simp del: keys_jsmap_set)
qed

lemma remember_others:
  assumes "etag_map_inv m" "k' \<noteq> k"
  shows "map_of (rememberEtag k v m) k' = None \<or> map_of (rememberEtag k v m) k' = map_of m k'"
proof -
  let ?e = "evict_oldest MAX_MEMOIZED_ETAGS (jsmap_delete k m)"
  have wf: "jsmap_wf (jsmap_delete k m)" using assms(1) by (simp add: etag_map_inv_def)
  have "map_of ?e k' = None \<or> map_of ?e k' = map_of (jsmap_delete k m) k'"
  proof (cases "map_of ?e k'")
    case (Some w)
    then have "(k', w) \<in> set (jsmap_delete k m)"
      using evict_subset [OF wf MAX_pos] by (auto dest: map_of_SomeD)
    with wf have "map_of (jsmap_delete k m) k' = Some w" by (rule map_of_is_SomeI)
    with Some show ?thesis by simp
  qed simp
  with assms(2) show ?thesis by (simp add: rememberEtag_def)
qed

lemma cached_look: "fst (cachedEtag k m) = map_of m k" "map_of (snd (cachedEtag k m)) = map_of m"
  by (auto simp: cachedEtag_def split: option.splits)

lemma remember_stores: "map_of (rememberEtag k v m) k = Some v"
  by (simp add: rememberEtag_def)

interpretation em: memo_cache cachedEtag rememberEtag map_of etag_map_inv
  by unfold_locales
    (simp_all add: cached_look cached_inv remember_stores remember_others remember_inv)

section \<open>The admission invariant\<close>

text \<open>Every pending key is exactly one job: running, queued, or settled and not yet resumed.\<close>

definition jobs :: "etag_state \<Rightarrow> string multiset" where
  "jobs s = mset (running s) + mset (etagHashQueue s) + mset (map fst (settled s))"

definition etag_inv :: "etag_state \<Rightarrow> bool" where
  "etag_inv s \<longleftrightarrow>
     etag_map_inv (etagCache s) \<and>
     activeEtagHashes s = length (running s) \<and>
     activeEtagHashes s \<le> MAX_CONCURRENT_ETAG_HASHES \<and>
     (etagHashQueue s \<noteq> [] \<longrightarrow> activeEtagHashes s = MAX_CONCURRENT_ETAG_HASHES) \<and>
     distinct (pendingEtagCache s) \<and> mset (pendingEtagCache s) = jobs s \<and>
     length (pendingEtagCache s) \<le> MAX_PENDING_ETAG_HASHES"

lemma pump_frame [simp]:
  "etagCache (pumpEtagHashQueue opens s) = etagCache s"
  "pendingEtagCache (pumpEtagHashQueue opens s) = pendingEtagCache s"
  by (induction opens s rule: pumpEtagHashQueue.induct)
    (simp_all add: pumpEtagHashQueue.simps [of _ s for s] Let_def)

lemma pump_jobs: "jobs (pumpEtagHashQueue opens s) = jobs s"
proof (induction opens s rule: pumpEtagHashQueue.induct)
  case (1 opens s)
  show ?case
  proof (cases "activeEtagHashes s < MAX_CONCURRENT_ETAG_HASHES \<and> etagHashQueue s \<noteq> []")
    case True
    then obtain k q where "etagHashQueue s = k # q" by (cases "etagHashQueue s") auto
    with 1 True show ?thesis
      by (cases "opens k") (simp_all add: pumpEtagHashQueue.simps [of opens s] Let_def jobs_def)
  next
    case False
    then show ?thesis by (simp only: pumpEtagHashQueue.simps [of opens s] if_False)
  qed
qed

text \<open>What holds between any two calls: the counter counts, and never passes the limit.\<close>

definition admitted :: "etag_state \<Rightarrow> bool" where
  "admitted s \<longleftrightarrow> activeEtagHashes s = length (running s) \<and> activeEtagHashes s \<le> MAX_CONCURRENT_ETAG_HASHES"

definition pumped :: "etag_state \<Rightarrow> bool" where
  "pumped s \<longleftrightarrow> (etagHashQueue s \<noteq> [] \<longrightarrow> activeEtagHashes s = MAX_CONCURRENT_ETAG_HASHES)"

lemma admission_frame [simp]:
  "admitted (s\<lparr>settled := x\<rparr>) = admitted s" "pumped (s\<lparr>settled := x\<rparr>) = pumped s"
  "admitted (s\<lparr>pendingEtagCache := p\<rparr>) = admitted s" "pumped (s\<lparr>pendingEtagCache := p\<rparr>) = pumped s"
  "admitted (s\<lparr>etagCache := m\<rparr>) = admitted s" "pumped (s\<lparr>etagCache := m\<rparr>) = pumped s"
  by (simp_all add: admitted_def pumped_def)

lemma jobs_frame [simp]:
  "jobs (s\<lparr>settled := settled s @ [(k, r)]\<rparr>) = add_mset k (jobs s)"
  "jobs (s\<lparr>activeEtagHashes := a\<rparr>) = jobs s" "jobs (s\<lparr>pendingEtagCache := p\<rparr>) = jobs s"
  "jobs (s\<lparr>etagCache := m\<rparr>) = jobs s"
  by (simp_all add: jobs_def)

lemma pump_admitted: "admitted s \<Longrightarrow> admitted (pumpEtagHashQueue opens s) \<and> pumped (pumpEtagHashQueue opens s)"
proof (induction opens s rule: pumpEtagHashQueue.induct)
  case (1 opens s)
  let ?k = "hd (etagHashQueue s)" and ?t = "s\<lparr>etagHashQueue := tl (etagHashQueue s)\<rparr>"
  show ?case
  proof (cases "activeEtagHashes s < MAX_CONCURRENT_ETAG_HASHES \<and> etagHashQueue s \<noteq> []")
    case True
    show ?thesis
    proof (cases "opens ?k")
      case o: True
      let ?u = "?t\<lparr>activeEtagHashes := activeEtagHashes ?t + 1, running := running ?t @ [?k]\<rparr>"
      have "pumpEtagHashQueue opens s = pumpEtagHashQueue opens ?u"
        using True o by (simp add: pumpEtagHashQueue.simps [of opens s] Let_def)
      moreover have "admitted ?u" using True 1(3) by (simp add: admitted_def)
      ultimately show ?thesis using 1(1) [OF True refl refl o] by simp
    next
      case o: False
      have "pumpEtagHashQueue opens s =
          (pumpEtagHashQueue opens ?t)\<lparr>settled := settled (pumpEtagHashQueue opens ?t) @ [(?k, None)]\<rparr>"
        using True o by (simp add: pumpEtagHashQueue.simps [of opens s] Let_def)
      moreover have "admitted ?t" using 1(3) by (simp add: admitted_def)
      ultimately show ?thesis
        using 1(2) [OF True refl refl o] by simp
    qed
  next
    case False
    then have "pumpEtagHashQueue opens s = s" by (simp only: pumpEtagHashQueue.simps [of opens s] if_False)
    with False 1(3) show ?thesis by (auto simp: admitted_def pumped_def)
  qed
qed

lemma settle_admitted:
  assumes "0 < activeEtagHashes s" "activeEtagHashes s - 1 = length (running s)"
    "activeEtagHashes s \<le> MAX_CONCURRENT_ETAG_HASHES"
  shows "admitted (settle_hash opens k r s) \<and> pumped (settle_hash opens k r s)"
    "jobs (settle_hash opens k r s) = add_mset k (jobs s)"
    "etagCache (settle_hash opens k r s) = etagCache s"
    "pendingEtagCache (settle_hash opens k r s) = pendingEtagCache s"
proof -
  let ?s = "s\<lparr>activeEtagHashes := activeEtagHashes s - 1\<rparr>"
  have "admitted ?s" using assms by (simp add: admitted_def)
  from pump_admitted [OF this, of opens] pump_jobs [of opens ?s]
  show "admitted (settle_hash opens k r s) \<and> pumped (settle_hash opens k r s)"
    "jobs (settle_hash opens k r s) = add_mset k (jobs s)"
    by (simp_all add: settle_hash_def Let_def)
qed (simp_all add: settle_hash_def Let_def)

lemma etag_inv_alt:
  "etag_inv s \<longleftrightarrow> etag_map_inv (etagCache s) \<and> admitted s \<and> pumped s \<and>
     distinct (pendingEtagCache s) \<and> mset (pendingEtagCache s) = jobs s \<and>
     length (pendingEtagCache s) \<le> MAX_PENDING_ETAG_HASHES"
  by (auto simp: etag_inv_def admitted_def pumped_def)

lemma admission_inv:
  assumes "admitted s" "pumped s"
  shows "admitted (hashFileWithAdmission opens k s) \<and> pumped (hashFileWithAdmission opens k s)"
    "jobs (hashFileWithAdmission opens k s) = add_mset k (jobs s)"
    "etagCache (hashFileWithAdmission opens k s) = etagCache s"
    "pendingEtagCache (hashFileWithAdmission opens k s) = pendingEtagCache s"
  using assms settle_admitted [of "s\<lparr>activeEtagHashes := activeEtagHashes s + 1\<rparr>" opens k None]
  by (auto simp: hashFileWithAdmission_def start_hash_def admitted_def pumped_def jobs_def Let_def)

lemma request_inv:
  assumes "etag_inv s"
  shows "etag_inv (snd (staticAssetEtagForFileAsync opens k s))"
proof -
  have c: "etag_map_inv (snd (cachedEtag k (etagCache s)))"
    using assms em.get_inv by (simp add: etag_inv_alt)
  have adm: "admitted s" "pumped s" using assms by (simp_all add: etag_inv_alt)
  show ?thesis
    using assms c admission_inv [OF adm, of opens k]
    by (auto simp: staticAssetEtagForFileAsync_def etag_inv_alt Let_def split: prod.splits option.splits)
qed

lemma settle_inv:
  assumes "etag_inv s" "k \<in> set (running s)"
  shows "etag_inv (settle_hash opens k r (s\<lparr>running := remove1 k (running s)\<rparr>))"
proof -
  let ?s = "s\<lparr>running := remove1 k (running s)\<rparr>"
  have "0 < activeEtagHashes ?s" "activeEtagHashes ?s - 1 = length (running ?s)"
    "activeEtagHashes ?s \<le> MAX_CONCURRENT_ETAG_HASHES"
    using assms length_pos_if_in_set [OF assms(2)] by (simp_all add: etag_inv_def length_remove1)
  note st = settle_admitted [OF this, of opens k r]
  have "add_mset k (jobs ?s) = jobs s" using assms(2) by (simp add: jobs_def)
  with st assms(1) show ?thesis by (simp add: etag_inv_alt)
qed

lemma resume_inv:
  assumes "etag_inv s" "settled s = (k, r) # rest"
  shows "etag_inv (resume_await k r (s\<lparr>settled := rest\<rparr>))"
proof -
  have "jobs s = add_mset k (jobs (s\<lparr>settled := rest\<rparr>))"
    using assms(2) by (simp add: jobs_def)
  moreover have "distinct (pendingEtagCache s)" "mset (pendingEtagCache s) = jobs s"
    using assms(1) by (simp_all add: etag_inv_alt)
  ultimately have "mset (removeAll k (pendingEtagCache s)) = jobs (s\<lparr>settled := rest\<rparr>)"
    by (metis add_mset_remove_trivial distinct_remove1_removeAll mset_remove1)
  moreover have "length (removeAll k (pendingEtagCache s)) \<le> MAX_PENDING_ETAG_HASHES"
    using assms(1) le_trans [OF length_removeAll_less_eq [of k "pendingEtagCache s"]] by (simp add: etag_inv_alt)
  ultimately show ?thesis
    using assms(1) em.put_inv
    by (auto simp: resume_await_def etag_inv_alt Let_def distinct_removeAll split: option.splits)
qed

inductive_cases etag_stepE: "etag_step opens s t"

lemma etag_step_inv: "etag_step opens s t \<Longrightarrow> etag_inv s \<Longrightarrow> etag_inv t"
  by (auto elim!: etag_stepE intro: request_inv settle_inv resume_inv)

lemma etag_reachable_inv: "etag_reachable opens s \<Longrightarrow> etag_inv s"
proof (induction rule: etag_reachable.induct)
  case init
  show ?case
    by (simp add: etag_inv_def init_etag_state_def etag_map_inv_def jobs_def)
next
  case (step s t)
  then show ?case by (blast intro: etag_step_inv)
qed

section \<open>Properties\<close>

text \<open>
  asset fan-out stays bounded. In every reachable state of the ETag module, under any
  interleaving of requests, stream completions, stream failures, synchronous open failures and
  resumed awaits, at most 4 hash streams are running, at most 64 keys are pending, the memo
  holds at most 4096 entries, and a hash waits in the queue only while all 4 slots are taken.
\<close>

theorem etag_hash_bounds:
  assumes "etag_reachable opens s"
  shows "length (running s) \<le> 4 \<and> length (pendingEtagCache s) \<le> 64 \<and> length (etagCache s) \<le> 4096 \<and>
         activeEtagHashes s = length (running s) \<and> (etagHashQueue s \<noteq> [] \<longrightarrow> length (running s) = 4)"
  using etag_reachable_inv [OF assms]
  by (auto simp: etag_inv_def etag_map_inv_def MAX_CONCURRENT_ETAG_HASHES_def MAX_PENDING_ETAG_HASHES_def
      MAX_MEMOIZED_ETAGS_def)

theorem etag_hash_bounds_witness:
  "length (running (snd (staticAssetEtagForFileAsync (\<lambda>_. True) ''k'' init_etag_state))) \<le> 4"
  using etag_hash_bounds [OF etag_reachable.step [OF etag_reachable.init etag_step.request]] by blast

text \<open>
  C38: no awaited digest is lost. In every reachable state the pending keys are exactly the jobs
  that are running, queued or about to resume, each once; so when no stream is running and no
  await is left to resume, nothing is queued or pending any more (the queue cannot strand a
  request even when opening a file throws).
\<close>

theorem etag_no_stranded_request:
  assumes "etag_reachable opens s"
  shows "mset (pendingEtagCache s) = jobs s \<and> distinct (pendingEtagCache s) \<and>
         (running s = [] \<and> settled s = [] \<longrightarrow> etagHashQueue s = [] \<and> pendingEtagCache s = [])"
proof -
  have i: "etag_inv s" by (rule etag_reachable_inv [OF assms])
  have "etagHashQueue s = []" if "running s = []"
    using i that by (auto simp: etag_inv_def MAX_CONCURRENT_ETAG_HASHES_def)
  with i show ?thesis by (auto simp: etag_inv_def jobs_def)
qed

theorem etag_no_stranded_request_witness:
  "mset (pendingEtagCache (snd (staticAssetEtagForFileAsync (\<lambda>_. True) ''k'' init_etag_state))) =
     jobs (snd (staticAssetEtagForFileAsync (\<lambda>_. True) ''k'' init_etag_state)) \<and>
   etagHashQueue init_etag_state = [] \<and> pendingEtagCache init_etag_state = []"
proof -
  have "running init_etag_state = []" "settled init_etag_state = []"
    by (simp_all add: init_etag_state_def)
  then show ?thesis
    using etag_no_stranded_request [OF etag_reachable.step [OF etag_reachable.init etag_step.request], of "\<lambda>_. True" "''k''"]
      etag_no_stranded_request [OF etag_reachable.init] by blast
qed

text \<open>
  the memo evicts the least recently used entry. Read from the most recent to the oldest
  entry, remembering a digest puts its entry in front, removes an older entry of the same key
  and cuts the list at 4096; a hit moves the entry to the front and removes nothing else.
\<close>

theorem etag_memo_is_lru:
  assumes "jsmap_wf m" "length m \<le> MAX_MEMOIZED_ETAGS"
  shows "rev (rememberEtag k v m) =
           take MAX_MEMOIZED_ETAGS ((k, v) # filter (\<lambda>e. fst e \<noteq> k) (rev m)) \<and>
         (map_of m k = Some w \<longrightarrow> rev (snd (cachedEtag k m)) = (k, w) # filter (\<lambda>e. fst e \<noteq> k) (rev m))"
proof -
  let ?d = "jsmap_delete k m"
  have d: "rev ?d = filter (\<lambda>e. fst e \<noteq> k) (rev m)"
    by (simp add: jsmap_delete_def case_prod_unfold rev_filter)
  have len: "length ?d \<le> MAX_MEMOIZED_ETAGS"
    unfolding jsmap_delete_def by (rule le_trans [OF length_filter_le assms(2)])
  have "rev (drop (Suc (length ?d) - MAX_MEMOIZED_ETAGS) ?d) = take (MAX_MEMOIZED_ETAGS - 1) (rev ?d)"
  proof (cases "length ?d = MAX_MEMOIZED_ETAGS")
    case False
    with len show ?thesis by simp
  qed (simp add: rev_drop)
  then have "rev (rememberEtag k v m) = (k, v) # take (MAX_MEMOIZED_ETAGS - 1) (rev ?d)"
    using assms by (simp add: remember_append evict_oldest_drop)
  moreover have "jsmap_set k w ?d = ?d @ [(k, w)]"
    using jsmap_delete_absent [of k m] by (simp add: jsmap_set_fresh)
  ultimately show ?thesis
    using d by (simp add: cachedEtag_def take_Cons' MAX_MEMOIZED_ETAGS_def)
qed

theorem etag_memo_is_lru_witness:
  "rev (rememberEtag ''a'' ''1'' [(''a'', ''0''), (''b'', ''2'')]) =
     take MAX_MEMOIZED_ETAGS ((''a'', ''1'') # filter (\<lambda>e. fst e \<noteq> ''a'') (rev [(''a'', ''0''), (''b'', ''2'')]))"
  using etag_memo_is_lru [of "[(''a'', ''0''), (''b'', ''2'')]" "''a''" "''1''"]
  by (simp add: MAX_MEMOIZED_ETAGS_def)

text \<open>
  memoization is transparent. As long as the memo only holds digests of the current
  content of each key (which names path, size and modification time), the synchronous serve
  path returns exactly the digest of the file's content, whether it hit or missed, and leaves a
  memo with the same guarantee.
\<close>

theorem etag_memo_transparent:
  assumes "etag_map_inv m" "\<forall>k v. map_of m k = Some v \<longrightarrow> v = staticAssetEtag sha (readContent k)"
    and "staticAssetEtagForFile sha readContent key m = (etag, m')"
  shows "etag = staticAssetEtag sha (readContent key) \<and> etag_map_inv m' \<and>
         (\<forall>k v. map_of m' k = Some v \<longrightarrow> v = staticAssetEtag sha (readContent k))"
proof -
  let ?f = "\<lambda>k. staticAssetEtag sha (readContent k)"
  have "em.agrees ?f m" using assms(2) by (simp add: em.agrees_def)
  moreover have "(etag, m') =
      (case cachedEtag key m of (Some v, s') \<Rightarrow> (v, s') | (None, s') \<Rightarrow> (?f key, rememberEtag key (?f key) s'))"
    unfolding assms(3) [symmetric] staticAssetEtagForFile_def Let_def ..
  ultimately have "fst (etag, m') = ?f key \<and> etag_map_inv (snd (etag, m')) \<and> em.agrees ?f (snd (etag, m'))"
    by (rule em.memoized_call [OF assms(1)])
  then show ?thesis by (simp add: em.agrees_def)
qed

theorem etag_memo_transparent_witness:
  "\<exists>m'. staticAssetEtagForFile (\<lambda>b. b) (\<lambda>k. k @ ''!'') ''f'' [] =
     (staticAssetEtag (\<lambda>b. b) ''f!'', m') \<and> etag_map_inv m'"
proof -
  obtain e m' where r: "staticAssetEtagForFile (\<lambda>b. b) (\<lambda>k. k @ ''!'') ''f'' [] = (e, m')" by fastforce
  from etag_memo_transparent [OF _ _ this] r show ?thesis by (simp add: etag_map_inv_def)
qed

text \<open>
  the memo key identifies the file version. Two keys are equal only for the same path, size
  and modification time, whatever characters the path contains (the two numbers print without a
  colon).
\<close>

theorem etag_cache_key_injective:
  assumes "CHR '':'' \<notin> set s1 \<union> set m1 \<union> set s2 \<union> set m2"
    and "etagCacheKey p1 s1 m1 = etagCacheKey p2 s2 m2"
  shows "p1 = p2 \<and> s1 = s2 \<and> m1 = m2"
proof -
  have "p1 @ CHR '':'' # s1 @ CHR '':'' # m1 = p2 @ CHR '':'' # s2 @ CHR '':'' # m2"
    using assms(2) by (simp add: etagCacheKey_def)
  then have "p1 @ CHR '':'' # s1 = p2 @ CHR '':'' # s2 \<and> m1 = m2"
    using last_sep_eq [of "CHR '':''" m1 m2 "p1 @ CHR '':'' # s1" "p2 @ CHR '':'' # s2"] assms(1) by simp
  then show ?thesis using last_sep_eq [of "CHR '':''" s1 s2 p1 p2] assms(1) by simp
qed

theorem etag_cache_key_injective_witness:
  "etagCacheKey ''/a:1'' ''20'' ''3'' = etagCacheKey ''/a:1'' ''20'' ''3'' \<and> ''20'' = ''20''"
  using etag_cache_key_injective [of "''20''" "''3''" "''20''" "''3''" "''/a:1''" "''/a:1''"] by simp

end
