(* ===== verification/Json.thy ===== *)
theory Json
  imports Prelude Complex_Main
begin

text \<open>
  Parsed JSON values. A serialised text is represented by what \<open>JSON.parse\<close> (or \<open>cjson.decode\<close>)
  makes of it: \<open>Some\<close> value, or \<open>None\<close> where the parser throws. Finite JavaScript numbers are
  rationals; \<open>JHuge\<close> is a literal such as \<open>1e999\<close> that parses to an infinite number.
\<close>

datatype json =
    JNull
  | JBool bool
  | JNum rat
  | JHuge
  | JStr string
  | JArr "json list"
  | JObj "(string \<times> json) list"

type_synonym raw_json = "json option"

text \<open>Property access \<open>obj?.[key]\<close>: \<open>None\<close> is \<open>undefined\<close>, also on a value without properties.\<close>

fun jget :: "json \<Rightarrow> string \<Rightarrow> json option" where
  "jget (JObj fs) k = map_of fs k"
| "jget _ k = None"

text \<open>\<open>typeof x === "number" && Number.isFinite(x) ? x : undefined\<close>.\<close>

fun finite_number :: "json option \<Rightarrow> rat option" where
  "finite_number (Some (JNum q)) = Some q"
| "finite_number _ = None"

fun is_string :: "json option \<Rightarrow> string option" where
  "is_string (Some (JStr s)) = Some s"
| "is_string _ = None"

definition MAX_SAFE :: rat where
  "MAX_SAFE = 2 ^ 53 - 1"

definition is_integer :: "rat \<Rightarrow> bool" where
  "is_integer q = (of_int \<lfloor>q\<rfloor> = q)"

definition is_safe_integer :: "rat \<Rightarrow> bool" where
  "is_safe_integer q = (is_integer q \<and> \<bar>q\<bar> \<le> MAX_SAFE)"

text \<open>
  A lifetime option as the callers pass it: absent, \<open>false\<close>, or any JavaScript number. Numbers
  other than finite ones compare as \<open>Math.max\<close> compares them.
\<close>

datatype lifetime = Absent | Never | Secs rat | PosInf | NegInf | NotANumber

fun is_number :: "lifetime \<Rightarrow> bool" where
  "is_number Absent = False"
| "is_number Never = False"
| "is_number _ = True"

fun js_max :: "lifetime \<Rightarrow> rat \<Rightarrow> lifetime" where
  "js_max (Secs q) b = Secs (max q b)"
| "js_max NegInf b = Secs b"
| "js_max l b = l"

fun js_max2 :: "lifetime \<Rightarrow> lifetime \<Rightarrow> lifetime" where
  "js_max2 (Secs a) l = js_max l a"
| "js_max2 NegInf l = l"
| "js_max2 PosInf NotANumber = NotANumber"
| "js_max2 k l = k"

fun lifetime_of_json :: "json option \<Rightarrow> lifetime" where
  "lifetime_of_json (Some (JNum q)) = Secs q"
| "lifetime_of_json (Some JHuge) = PosInf"
| "lifetime_of_json (Some (JBool False)) = Never"
| "lifetime_of_json _ = Absent"

text \<open>\<open>Object.entries\<close>: an array or a string is read by index, \<open>null\<close> throws.\<close>

fun object_entries :: "json \<Rightarrow> (string \<times> json) list option" where
  "object_entries JNull = None"
| "object_entries (JObj ms) = Some ms"
| "object_entries (JArr xs) = Some (zip (map nat_dec [0..<length xs]) xs)"
| "object_entries (JStr s) = Some (zip (map nat_dec [0..<length s]) (map (\<lambda>c. JStr [c]) s))"
| "object_entries _ = Some []"

text \<open>A list of strings, or \<open>None\<close> when some element is not a string.\<close>

fun all_strings :: "json list \<Rightarrow> string list option" where
  "all_strings [] = Some []"
| "all_strings (JStr s # js) = map_option ((#) s) (all_strings js)"
| "all_strings (_ # js) = None"

lemma all_strings_map [simp]: "all_strings (map JStr ss) = Some ss"
  by (induction ss) auto

text \<open>An optional member of an object literal: absent when \<open>undefined\<close>.\<close>

definition jmember :: "string \<Rightarrow> json option \<Rightarrow> (string \<times> json) list" where
  "jmember k v = (case v of None \<Rightarrow> [] | Some j \<Rightarrow> [(k, j)])"

lemma map_of_jmember [simp]: "map_of (jmember k v) x = (if x = k then v else None)"
  by (auto simp: jmember_def split: option.splits)

lemma set_jmember: "fst ` set (jmember k v) \<subseteq> {k}"
  by (auto simp: jmember_def split: option.splits)

end
