(* ===== verification/TagManifest.thy ===== *)
theory TagManifest
  imports Json
begin

text \<open>
  \<^verbatim>\<open>src/pool-server/valkey-cache/tag-manifest.ts\<close> and \<^verbatim>\<open>valkey-clock.ts\<close>: the shared tag
  manifest of the distributed cache, its Lua merge script, and the freshness verdict of a
  cache entry. Times are milliseconds (rational, as JavaScript numbers); the Valkey hash maps
  field names to the parsed form of the stored text.
\<close>

section \<open>Tags\<close>

definition TAG_MANIFEST_TTL_SECONDS :: rat where "TAG_MANIFEST_TTL_SECONDS = 30 * 24 * 60 * 60"
definition TAG_MANIFEST_EPOCH_FIELD :: string where
  "TAG_MANIFEST_EPOCH_FIELD = CHR 0x1F # ''adapter-k8s-epoch''"
definition MAX_CLOCK_SKEW_MS :: rat where "MAX_CLOCK_SKEW_MS = 60000"
definition MAX_EXPLICIT_TAG_LENGTH :: nat where "MAX_EXPLICIT_TAG_LENGTH = 256"
definition MAX_SOFT_TAG_LENGTH :: nat where "MAX_SOFT_TAG_LENGTH = 1024"
definition MAX_MANIFEST_TAGS_PER_CALL :: nat where "MAX_MANIFEST_TAGS_PER_CALL = 256"

definition isRootParamTag :: "string \<Rightarrow> bool" where
  "isRootParamTag tag = prefix ''_N_RP_'' tag"

definition maxTagLength :: "string \<Rightarrow> nat" where
  "maxTagLength tag =
     (if prefix ''_N_T_'' tag \<or> isRootParamTag tag then MAX_SOFT_TAG_LENGTH else MAX_EXPLICIT_TAG_LENGTH)"

definition filterManifestTags :: "string list \<Rightarrow> string list" where
  "filterManifestTags tags =
     filter (\<lambda>tag. tag \<noteq> [] \<and> tag \<noteq> TAG_MANIFEST_EPOCH_FIELD \<and> length tag \<le> maxTagLength tag) tags"

function chunkManifestTags :: "'a list \<Rightarrow> 'a list list" where
  "chunkManifestTags tags =
     (if tags = [] then []
      else take MAX_MANIFEST_TAGS_PER_CALL tags # chunkManifestTags (drop MAX_MANIFEST_TAGS_PER_CALL tags))"
  by pat_completeness auto
termination
  by (relation "measure length") (auto simp: MAX_MANIFEST_TAGS_PER_CALL_def)

declare chunkManifestTags.simps [simp del]

section \<open>Watermarks and freshness\<close>

record tag_state =
  ts_stale :: "rat option"
  ts_expired :: "rat option"
  ts_at :: "rat option"

type_synonym tag_manifest = "string \<Rightarrow> tag_state option"

text \<open>\<open>JSON.stringify\<close> of a tag state, and the sanitizing parser.\<close>

definition tag_state_json :: "tag_state \<Rightarrow> json" where
  "tag_state_json s =
     JObj (jmember ''stale'' (map_option JNum (ts_stale s)) @
           jmember ''expired'' (map_option JNum (ts_expired s)) @
           jmember ''at'' (map_option JNum (ts_at s)))"

definition parseTagState :: "raw_json \<Rightarrow> tag_state option" where
  "parseTagState raw =
     (case raw of
        None \<Rightarrow> None
      | Some (JObj fs) \<Rightarrow>
          Some \<lparr>ts_stale = finite_number (map_of fs ''stale''),
                ts_expired = finite_number (map_of fs ''expired''),
                ts_at = Some (case finite_number (map_of fs ''at'') of None \<Rightarrow> 0 | Some a \<Rightarrow> a)\<rparr>
      | Some _ \<Rightarrow> None)"

definition watermark :: "(tag_state \<Rightarrow> rat option) \<Rightarrow> tag_manifest \<Rightarrow> string \<Rightarrow> rat option" where
  "watermark field manifest tag = Option.bind (manifest tag) field"

fun areTagsExpired :: "string list \<Rightarrow> rat \<Rightarrow> tag_manifest \<Rightarrow> rat \<Rightarrow> bool" where
  "areTagsExpired [] entryTimestamp manifest now = False"
| "areTagsExpired (tag # tags) entryTimestamp manifest now =
     (case watermark ts_expired manifest tag of
        Some expiredAt \<Rightarrow>
          if expiredAt \<le> now \<and> expiredAt > entryTimestamp then True
          else areTagsExpired tags entryTimestamp manifest now
      | None \<Rightarrow> areTagsExpired tags entryTimestamp manifest now)"

fun areTagsStale :: "string list \<Rightarrow> rat \<Rightarrow> tag_manifest \<Rightarrow> bool" where
  "areTagsStale [] entryTimestamp manifest = False"
| "areTagsStale (tag # tags) entryTimestamp manifest =
     (let staleAt = (case watermark ts_stale manifest tag of None \<Rightarrow> 0 | Some x \<Rightarrow> x)
      in if staleAt > entryTimestamp then True else areTagsStale tags entryTimestamp manifest)"

definition maxExpiration :: "string list \<Rightarrow> tag_manifest \<Rightarrow> rat" where
  "maxExpiration tags manifest =
     foldl (\<lambda>mx tag. let expiredAt = (case watermark ts_expired manifest tag of None \<Rightarrow> 0 | Some x \<Rightarrow> x)
                      in if expiredAt > mx then expiredAt else mx) 0 tags"

text \<open>
  \<open>durations\<close> is \<open>None\<close> for a hard revalidation and \<open>Some expire\<close> for a profiled one, where
  \<open>expire\<close> is itself optional.
\<close>

definition computeTagUpdate :: "tag_state option \<Rightarrow> rat \<Rightarrow> rat option option \<Rightarrow> tag_state" where
  "computeTagUpdate existing now durations =
     (let base = (case existing of None \<Rightarrow> \<lparr>ts_stale = None, ts_expired = None, ts_at = None\<rparr> | Some s \<Rightarrow> s)
      in case durations of
           Some expire \<Rightarrow>
             (let nxt = base\<lparr>ts_stale := Some now, ts_at := Some now\<rparr>
              in case expire of None \<Rightarrow> nxt | Some e \<Rightarrow> nxt\<lparr>ts_expired := Some (now + e * 1000)\<rparr>)
         | None \<Rightarrow> base\<lparr>ts_expired := Some now, ts_at := Some now\<rparr>)"

record cache_entry =
  e_timestamp :: rat
  e_revalidate :: rat
  e_expire :: rat
  e_tags :: "string list"

datatype freshness = Expired | Stale | Fresh rat

definition evaluateEntry :: "cache_entry \<Rightarrow> tag_manifest \<Rightarrow> rat \<Rightarrow> freshness" where
  "evaluateEntry entry manifest now =
     (if now > e_timestamp entry + e_expire entry * 1000 then Expired
      else if areTagsExpired (e_tags entry) (e_timestamp entry) manifest now then Expired
      else if now > e_timestamp entry + e_revalidate entry * 1000 then Expired
      else if areTagsStale (e_tags entry) (e_timestamp entry) manifest then Stale
      else Fresh (e_revalidate entry))"

section \<open>The merge script\<close>

text \<open>
  The Valkey hash under the manifest key, with the deadline \<open>EXPIRE\<close> gave it; past the
  deadline the key is gone (\<open>live\<close>). \<open>str2num\<close> is Lua's \<open>tonumber\<close> on strings, \<open>now\<close> the server
  time in milliseconds. A decoded object or array is a Lua table; an array has none of the named
  members. An infinite \<open>at\<close> is later than every server time, and \<open>cjson.encode\<close> raises on an
  infinite number.
\<close>

record manifest_store =
  hfields :: "string \<Rightarrow> raw_json option"
  expires_at :: "rat option"

definition empty_store :: manifest_store where
  "empty_store = \<lparr>hfields = (\<lambda>_. None), expires_at = None\<rparr>"

definition live :: "rat \<Rightarrow> manifest_store \<Rightarrow> manifest_store" where
  "live now st = (case expires_at st of None \<Rightarrow> st | Some d \<Rightarrow> if now \<le> d then st else empty_store)"

fun lua_tonumber :: "(string \<Rightarrow> rat option) \<Rightarrow> json option \<Rightarrow> rat option" where
  "lua_tonumber str2num (Some (JNum q)) = Some q"
| "lua_tonumber str2num (Some (JStr s)) = str2num s"
| "lua_tonumber str2num _ = None"

fun is_table :: "json \<Rightarrow> bool" where
  "is_table (JObj _) = True"
| "is_table (JArr _) = True"
| "is_table _ = False"

text \<open>What one iteration of the loop does with the field: keep it, write a value, or abort the script.\<close>

datatype merge_result = Keep | Write json | Abort

definition encode_state :: "json option \<Rightarrow> json option \<Rightarrow> rat \<Rightarrow> merge_result" where
  "encode_state stale expired now =
     (if stale = Some JHuge \<or> expired = Some JHuge then Abort
      else Write (JObj (jmember ''stale'' stale @ jmember ''expired'' expired @ [(''at'', JNum now)])))"

definition event_shift :: "rat \<Rightarrow> tag_state \<Rightarrow> rat" where
  "event_shift now incoming = (case ts_at incoming of None \<Rightarrow> 0 | Some clientAt \<Rightarrow> now - clientAt)"

definition skewed :: "rat \<Rightarrow> tag_state \<Rightarrow> bool" where
  "skewed now incoming =
     (event_shift now incoming > MAX_CLOCK_SKEW_MS \<or> event_shift now incoming < - MAX_CLOCK_SKEW_MS)"

definition merge_field ::
    "(string \<Rightarrow> rat option) \<Rightarrow> rat \<Rightarrow> raw_json option \<Rightarrow> tag_state \<Rightarrow> merge_result" where
  "merge_field str2num now existing incoming =
     (let shift = event_shift now incoming;
          stale = map_option (\<lambda>x. JNum (x + shift)) (ts_stale incoming);
          expired = map_option (\<lambda>x. JNum (x + shift)) (ts_expired incoming)
      in case existing of
           Some (Some cur) \<Rightarrow>
             if is_table cur then
               (let curAt = (case lua_tonumber str2num (jget cur ''at'') of None \<Rightarrow> 0 | Some a \<Rightarrow> a)
                in if now < curAt \<or> jget cur ''at'' = Some JHuge then Keep
                   else encode_state (case stale of None \<Rightarrow> jget cur ''stale'' | Some x \<Rightarrow> Some x)
                          (case expired of None \<Rightarrow> jget cur ''expired'' | Some x \<Rightarrow> Some x) now)
             else encode_state stale expired now
         | _ \<Rightarrow> encode_state stale expired now)"

text \<open>The loop: the fields written so far stay written when a later iteration aborts.\<close>

fun merge_pairs ::
    "(string \<Rightarrow> rat option) \<Rightarrow> rat \<Rightarrow> (string \<times> tag_state) list \<Rightarrow> manifest_store \<Rightarrow> nat \<Rightarrow> manifest_store \<times> nat option"
where
  "merge_pairs str2num now [] st clamped = (st, Some clamped)"
| "merge_pairs str2num now ((field, incoming) # rest) st clamped =
     (let clamped' = clamped + (if skewed now incoming then 1 else 0)
      in case merge_field str2num now (hfields st field) incoming of
           Keep \<Rightarrow> merge_pairs str2num now rest st clamped'
         | Write j \<Rightarrow> merge_pairs str2num now rest (st\<lparr>hfields := (hfields st)(field \<mapsto> Some j)\<rparr>) clamped'
         | Abort \<Rightarrow> (st, None))"

text \<open>\<open>HINCRBY key field 1\<close>: an absent field counts as 0; a non-integer or a value at the 64-bit bound is an error.\<close>

definition hincrby :: "string \<Rightarrow> manifest_store \<Rightarrow> manifest_store option" where
  "hincrby field st =
     (case hfields st field of
        None \<Rightarrow> Some (st\<lparr>hfields := (hfields st)(field \<mapsto> Some (JNum 1))\<rparr>)
      | Some (Some (JNum n)) \<Rightarrow>
          if is_integer n \<and> n < 2 ^ 63 - 1
          then Some (st\<lparr>hfields := (hfields st)(field \<mapsto> Some (JNum (n + 1)))\<rparr>) else None
      | Some _ \<Rightarrow> None)"

text \<open>The whole script: the hash afterwards, and the clamp count or \<open>None\<close> for an error reply.\<close>

definition UPDATE_TAGS_SCRIPT ::
    "(string \<Rightarrow> rat option) \<Rightarrow> rat \<Rightarrow> (string \<times> tag_state) list \<Rightarrow> rat \<Rightarrow> manifest_store \<Rightarrow> manifest_store \<times> nat option"
where
  "UPDATE_TAGS_SCRIPT str2num now pairs ttlSeconds st =
     (case merge_pairs str2num now pairs (live now st) 0 of
        (st1, None) \<Rightarrow> (st1, None)
      | (st1, Some clamped) \<Rightarrow>
          (case hincrby TAG_MANIFEST_EPOCH_FIELD st1 of
             None \<Rightarrow> (st1, None)
           | Some st2 \<Rightarrow>
               (if ttlSeconds > 0 then st2\<lparr>expires_at := Some (now + ttlSeconds * 1000)\<rparr> else st2,
                Some clamped)))"

text \<open>
  The calls one \<open>updateTags\<close> makes: the tags filtered and cut into batches, every event stamped
  with the client's clock at the start. The server runs each batch at a time of its own, and the
  batches of all replicas interleave; an execution is a list of calls with their server times.
\<close>

record tag_call =
  c_client :: rat
  c_durations :: "rat option option"
  c_tags :: "string list"

definition updateTags_calls :: "string list \<Rightarrow> rat option option \<Rightarrow> rat \<Rightarrow> tag_call list" where
  "updateTags_calls tags durations now =
     map (\<lambda>chunk. \<lparr>c_client = now, c_durations = durations, c_tags = chunk\<rparr>)
       (chunkManifestTags (filterManifestTags tags))"

definition call_args :: "tag_call \<Rightarrow> (string \<times> tag_state) list" where
  "call_args c = map (\<lambda>tag. (tag, computeTagUpdate None (c_client c) (c_durations c))) (c_tags c)"

definition exec_call ::
    "(string \<Rightarrow> rat option) \<Rightarrow> rat \<Rightarrow> tag_call \<Rightarrow> manifest_store \<Rightarrow> manifest_store \<times> nat option" where
  "exec_call str2num now c st = UPDATE_TAGS_SCRIPT str2num now (call_args c) TAG_MANIFEST_TTL_SECONDS st"

fun exec_calls :: "(string \<Rightarrow> rat option) \<Rightarrow> (rat \<times> tag_call) list \<Rightarrow> manifest_store \<Rightarrow> manifest_store" where
  "exec_calls str2num [] st = st"
| "exec_calls str2num ((now, c) # cs) st = exec_calls str2num cs (fst (exec_call str2num now c st))"

text \<open>\<open>tagStates\<close>: the live fields of the requested tags, unparsable ones left out.\<close>

definition tagStates :: "manifest_store \<Rightarrow> string list \<Rightarrow> tag_manifest" where
  "tagStates st tags = (\<lambda>tag. if tag \<in> set tags then Option.bind (hfields st tag) parseTagState else None)"

text \<open>The epoch field as the reader validates it: a decimal number, an absent field is zero.\<close>

definition read_epoch :: "manifest_store \<Rightarrow> nat option" where
  "read_epoch st =
     (case hfields st TAG_MANIFEST_EPOCH_FIELD of
        None \<Rightarrow> Some 0
      | Some (Some (JNum q)) \<Rightarrow> if is_integer q \<and> 0 \<le> q then Some (nat \<lfloor>q\<rfloor>) else None
      | _ \<Rightarrow> None)"

section \<open>The clock sample\<close>

record clock_sample =
  serverNow :: rat
  localNow :: rat

datatype clock_error = InvalidTimestamp

text \<open>\<open>None\<close> stands for a reading that is not a finite number.\<close>

definition sampleValkeyClock :: "rat option \<Rightarrow> rat option \<Rightarrow> rat option \<Rightarrow> (clock_error, clock_sample) res" where
  "sampleValkeyClock before reply after =
     (case (before, reply, after) of
        (Some b, Some r, Some a) \<Rightarrow> Inr \<lparr>serverNow = r, localNow = (b + a) / 2\<rparr>
      | _ \<Rightarrow> Inl InvalidTimestamp)"

definition toLocal :: "clock_sample \<Rightarrow> rat \<Rightarrow> rat" where
  "toLocal c timestamp = timestamp - (serverNow c - localNow c)"


section \<open>Batches\<close>

lemma concat_chunk [simp]: "concat (chunkManifestTags xs) = xs"
proof (induction xs rule: chunkManifestTags.induct)
  case (1 tags)
  then show ?case by (subst chunkManifestTags.simps) auto
qed

lemma chunk_length: "c \<in> set (chunkManifestTags xs) \<Longrightarrow> c \<noteq> [] \<and> length c \<le> MAX_MANIFEST_TAGS_PER_CALL"
proof (induction xs rule: chunkManifestTags.induct)
  case (1 tags)
  then show ?case
    by (subst (asm) chunkManifestTags.simps)
      (auto simp: MAX_MANIFEST_TAGS_PER_CALL_def split: if_splits)
qed

lemma filter_no_epoch: "TAG_MANIFEST_EPOCH_FIELD \<notin> set (filterManifestTags tags)"
  by (simp add: filterManifestTags_def)

lemma calls_tags: "concat (map c_tags (updateTags_calls tags d now)) = filterManifestTags tags"
  by (simp add: updateTags_calls_def comp_def)

section \<open>The stored form of a tag state\<close>

lemma parse_tag_state_json [simp]:
  "parseTagState (Some (tag_state_json s)) = Some (s\<lparr>ts_at := Some (case ts_at s of None \<Rightarrow> 0 | Some a \<Rightarrow> a)\<rparr>)"
  by (cases s) (auto simp: parseTagState_def tag_state_json_def map_add_def split: option.splits)

text \<open>
  The hash as the script leaves it: the epoch field counts, every other field is the serialised
  state of an event not later than \<open>clock\<close>.
\<close>

definition state_ok :: "rat \<Rightarrow> tag_state \<Rightarrow> bool" where
  "state_ok clock s = (case ts_at s of None \<Rightarrow> False | Some a \<Rightarrow> a \<le> clock)"

definition store_rel :: "rat \<Rightarrow> nat \<Rightarrow> tag_manifest \<Rightarrow> manifest_store \<Rightarrow> bool" where
  "store_rel clock n m st \<longleftrightarrow>
     m TAG_MANIFEST_EPOCH_FIELD = None \<and>
     hfields st TAG_MANIFEST_EPOCH_FIELD = (if n = 0 then None else Some (Some (JNum (of_nat n)))) \<and>
     (\<forall>t. t \<noteq> TAG_MANIFEST_EPOCH_FIELD \<longrightarrow> hfields st t = map_option (\<lambda>s. Some (tag_state_json s)) (m t)) \<and>
     (\<forall>t s. m t = Some s \<longrightarrow> state_ok clock s)"

text \<open>What Next's in-process handler does with the same event: a read-modify-write at one clock.\<close>

definition next_update :: "rat \<Rightarrow> tag_call \<Rightarrow> tag_manifest \<Rightarrow> tag_manifest" where
  "next_update now c m = (\<lambda>t. if t \<in> set (c_tags c) then Some (computeTagUpdate (m t) now (c_durations c)) else m t)"

fun next_updates :: "(rat \<times> tag_call) list \<Rightarrow> tag_manifest \<Rightarrow> tag_manifest" where
  "next_updates [] m = m"
| "next_updates ((now, c) # cs) m = next_updates cs (next_update now c m)"

lemma computeTagUpdate_at [simp]: "ts_at (computeTagUpdate ex now d) = Some now"
  by (auto simp: computeTagUpdate_def Let_def split: option.splits)

lemma computeTagUpdate_idem:
  "computeTagUpdate (Some (computeTagUpdate ex now d)) now d = computeTagUpdate ex now d"
  by (auto simp: computeTagUpdate_def Let_def split: option.splits)

lemma jget_tag_state_json [simp]:
  "jget (tag_state_json s) ''at'' = map_option JNum (ts_at s)"
  "jget (tag_state_json s) ''stale'' = map_option JNum (ts_stale s)"
  "jget (tag_state_json s) ''expired'' = map_option JNum (ts_expired s)"
  by (auto simp: tag_state_json_def map_add_def split: option.splits)

lemma is_table_tag_state_json [simp]: "is_table (tag_state_json s)"
  by (simp add: tag_state_json_def)

text \<open>One field: the event lands on the server clock, and only the watermarks it sets replace stored ones.\<close>

lemma merge_field_absent:
  "merge_field f now None (computeTagUpdate None c d) = Write (tag_state_json (computeTagUpdate None now d))"
  by (auto simp: merge_field_def encode_state_def event_shift_def computeTagUpdate_def tag_state_json_def
      jmember_def Let_def split: option.splits)

lemma merge_field_present:
  assumes "state_ok clock s" "clock \<le> now"
  shows "merge_field f now (Some (Some (tag_state_json s))) (computeTagUpdate None c d) =
    Write (tag_state_json (computeTagUpdate (Some s) now d))"
proof -
  obtain a where a: "ts_at s = Some a" "a \<le> now"
    using assms by (auto simp: state_ok_def split: option.splits)
  then have keep: "\<not> now < a" by simp
  have cur: "merge_field f now (Some (Some (tag_state_json s))) e =
      encode_state (case ts_stale e of None \<Rightarrow> map_option JNum (ts_stale s) | Some x \<Rightarrow> Some (JNum (x + event_shift now e)))
        (case ts_expired e of None \<Rightarrow> map_option JNum (ts_expired s) | Some x \<Rightarrow> Some (JNum (x + event_shift now e))) now"
    for e
    using keep by (cases "ts_stale e"; cases "ts_expired e") (simp_all add: merge_field_def Let_def a(1))
  show ?thesis
    unfolding cur
    by (simp add: encode_state_def event_shift_def computeTagUpdate_def tag_state_json_def jmember_def
        Let_def split: option.split)
qed

lemma state_ok_mono: "state_ok clock s \<Longrightarrow> clock \<le> now \<Longrightarrow> state_ok now s"
  by (auto simp: state_ok_def split: option.splits)

lemma store_rel_mono: "store_rel clock n m st \<Longrightarrow> clock \<le> now \<Longrightarrow> store_rel now n m st"
  unfolding store_rel_def by (blast intro: state_ok_mono)

lemma store_rel_write:
  assumes "store_rel clock n m st" "clock \<le> now" "t \<noteq> TAG_MANIFEST_EPOCH_FIELD" "state_ok now s"
  shows "store_rel now n (m(t \<mapsto> s)) (st\<lparr>hfields := (hfields st)(t \<mapsto> Some (tag_state_json s))\<rparr>)"
  using store_rel_mono [OF assms(1,2)] assms(3,4) unfolding store_rel_def by simp

lemma state_ok_update [simp]: "state_ok now (computeTagUpdate ex now d)"
  by (simp add: state_ok_def)

lemma merge_field_rel:
  assumes "store_rel clock n m st" "clock \<le> now" "t \<noteq> TAG_MANIFEST_EPOCH_FIELD"
  shows "merge_field f now (hfields st t) (computeTagUpdate None c d) =
    Write (tag_state_json (computeTagUpdate (m t) now d))"
  using assms merge_field_present [of clock _ now f c d]
  by (cases "m t") (auto simp: store_rel_def merge_field_absent)

lemma merge_pairs_rel:
  assumes "store_rel clock n m st" "clock \<le> now" "TAG_MANIFEST_EPOCH_FIELD \<notin> set ts"
  shows "\<exists>st' k'. merge_pairs f now (map (\<lambda>tag. (tag, computeTagUpdate None c d)) ts) st k = (st', Some k') \<and>
    expires_at st' = expires_at st \<and>
    store_rel now n (\<lambda>t. if t \<in> set ts then Some (computeTagUpdate (m t) now d) else m t) st'"
  using assms
proof (induction ts arbitrary: st m k clock)
  case Nil
  then show ?case by (auto intro: store_rel_mono)
next
  case (Cons t ts)
  let ?s = "computeTagUpdate (m t) now d"
  have eq: "merge_field f now (hfields st t) (computeTagUpdate None c d) = Write (tag_state_json ?s)"
    using Cons.prems by (auto intro: merge_field_rel)
  have "store_rel now n (m(t \<mapsto> ?s)) (st\<lparr>hfields := (hfields st)(t \<mapsto> Some (tag_state_json ?s))\<rparr>)"
    using Cons.prems by (intro store_rel_write) auto
  note ih = Cons.IH [OF this order_refl, of "k + (if skewed now (computeTagUpdate None c d) then 1 else 0)"]
  obtain st' k' where "merge_pairs f now (map (\<lambda>tag. (tag, computeTagUpdate None c d)) ts)
      (st\<lparr>hfields := (hfields st)(t \<mapsto> Some (tag_state_json ?s))\<rparr>)
      (k + (if skewed now (computeTagUpdate None c d) then 1 else 0)) = (st', Some k')"
    "expires_at st' = expires_at st"
    "store_rel now n (\<lambda>x. if x \<in> set ts then Some (computeTagUpdate ((m(t \<mapsto> ?s)) x) now d) else (m(t \<mapsto> ?s)) x) st'"
    using ih Cons.prems(3) by auto
  moreover have "(\<lambda>x. if x \<in> set ts then Some (computeTagUpdate ((m(t \<mapsto> ?s)) x) now d) else (m(t \<mapsto> ?s)) x) =
      (\<lambda>x. if x \<in> set (t # ts) then Some (computeTagUpdate (m x) now d) else m x)"
    by (auto simp: computeTagUpdate_idem)
  ultimately show ?case by (auto simp: eq)
qed


lemma hincrby_rel:
  assumes "store_rel now n m st" "n < 2 ^ 62"
  shows "\<exists>st'. hincrby TAG_MANIFEST_EPOCH_FIELD st = Some st' \<and> store_rel now (Suc n) m st'"
proof -
  have "(of_nat n :: rat) < of_nat (2 ^ 62)" using assms(2) by (simp only: of_nat_less_iff)
  then have "(of_nat n :: rat) < 2 ^ 63 - 1" by simp
  moreover have "is_integer (of_nat n)" by (simp add: is_integer_def)
  ultimately show ?thesis
    using assms(1) by (auto simp: hincrby_def store_rel_def add.commute split: if_splits)
qed

text \<open>One call of the script refines Next's read-modify-write at the server's time.\<close>

lemma exec_call_rel:
  assumes rel: "store_rel clock n m st" and mono: "clock \<le> now" and live: "live now st = st"
    and tags: "TAG_MANIFEST_EPOCH_FIELD \<notin> set (c_tags c)" and n: "n < 2 ^ 62"
  shows "\<exists>st' k. exec_call f now c st = (st', Some k) \<and> store_rel now (Suc n) (next_update now c m) st' \<and>
    expires_at st' = Some (now + TAG_MANIFEST_TTL_SECONDS * 1000)"
proof -
  obtain st1 k where 1: "merge_pairs f now (call_args c) st 0 = (st1, Some k)"
    "store_rel now n (next_update now c m) st1"
    using merge_pairs_rel [OF rel mono tags] by (fastforce simp: call_args_def next_update_def)
  obtain st2 where 2: "hincrby TAG_MANIFEST_EPOCH_FIELD st1 = Some st2"
    "store_rel now (Suc n) (next_update now c m) st2"
    using hincrby_rel [OF 1(2) n] by blast
  have "store_rel now (Suc n) (next_update now c m) (st2\<lparr>expires_at := e\<rparr>)" for e
    using 2(2) by (simp add: store_rel_def)
  then show ?thesis
    using 1 2 by (auto simp: exec_call_def UPDATE_TAGS_SCRIPT_def live TAG_MANIFEST_TTL_SECONDS_def)
qed

text \<open>
  An execution whose server times do not run backwards, and in which no silence is as long as the
  manifest's retention. Tags come from \<open>filterManifestTags\<close>, so none is the epoch field.
\<close>

abbreviation within_ttl :: "rat \<Rightarrow> rat \<Rightarrow> bool" where
  "within_ttl t t' \<equiv> t \<le> t' \<and> t' \<le> t + TAG_MANIFEST_TTL_SECONDS * 1000"

definition execution :: "(rat \<times> tag_call) list \<Rightarrow> bool" where
  "execution cs \<longleftrightarrow> successively within_ttl (map fst cs) \<and>
     (\<forall>(now, c) \<in> set cs. TAG_MANIFEST_EPOCH_FIELD \<notin> set (c_tags c)) \<and> length cs < 2 ^ 62"

lemma exec_calls_append: "exec_calls f (xs @ ys) st = exec_calls f ys (exec_calls f xs st)"
  by (induction f xs st rule: exec_calls.induct) auto

lemma next_updates_append: "next_updates (xs @ ys) m = next_updates ys (next_updates xs m)"
  by (induction xs m rule: next_updates.induct) auto

lemma execution_butlast: "execution (cs @ [x]) \<Longrightarrow> execution cs"
  by (auto simp: execution_def successively_append_iff)

lemma store_rel_empty: "store_rel clock 0 Map.empty empty_store"
  by (simp add: store_rel_def empty_store_def)

lemma execution_rel:
  assumes "execution cs"
  shows "\<exists>st. exec_calls f cs empty_store = st \<and>
    store_rel (if cs = [] then 0 else fst (last cs)) (length cs) (next_updates cs Map.empty) st \<and>
    expires_at st = (if cs = [] then None else Some (fst (last cs) + TAG_MANIFEST_TTL_SECONDS * 1000))"
  using assms
proof (induction cs rule: rev_induct)
  case Nil
  then show ?case by (auto simp: store_rel_empty) (simp add: empty_store_def)
next
  case (snoc x cs)
  obtain now c where x: "x = (now, c)" by (cases x)
  let ?clock = "if cs = [] then now else fst (last cs)"
  let ?st = "exec_calls f cs empty_store"
  have rel: "store_rel ?clock (length cs) (next_updates cs Map.empty) ?st"
    and ex: "expires_at ?st = (if cs = [] then None else Some (fst (last cs) + TAG_MANIFEST_TTL_SECONDS * 1000))"
    using snoc.IH [OF execution_butlast [OF snoc.prems]] store_rel_empty by (auto split: if_splits)
  have mono: "?clock \<le> now" and lv: "live now ?st = ?st"
    and tags: "TAG_MANIFEST_EPOCH_FIELD \<notin> set (c_tags c)" and n: "length cs < 2 ^ 62"
    using snoc.prems ex
    by (auto simp: execution_def successively_append_iff x last_map live_def split: if_splits)
  show ?case
    using exec_call_rel [OF rel mono lv tags n, of f] by (auto simp: exec_calls_append next_updates_append x)
qed


lemma tagStates_rel:
  assumes "store_rel clock n m st"
  shows "tagStates st tags = m |` set tags"
proof
  fix t
  show "tagStates st tags t = (m |` set tags) t"
  proof (cases "t = TAG_MANIFEST_EPOCH_FIELD")
    case True
    then show ?thesis
      using assms by (auto simp: tagStates_def store_rel_def restrict_map_def parseTagState_def)
  next
    case False
    have at: "s\<lparr>ts_at := Some (case ts_at s of None \<Rightarrow> 0 | Some a \<Rightarrow> a)\<rparr> = s" if "m t = Some s" for s
    proof -
      have "state_ok clock s" using assms that by (auto simp: store_rel_def)
      then show ?thesis by (cases s) (auto simp: state_ok_def split: option.splits)
    qed
    from False show ?thesis
      using assms at by (cases "m t") (simp_all add: tagStates_def store_rel_def restrict_map_def)
  qed
qed

lemma live_execution:
  assumes "execution cs" "cs \<noteq> []" "now \<le> fst (last cs) + TAG_MANIFEST_TTL_SECONDS * 1000"
  shows "live now (exec_calls f cs empty_store) = exec_calls f cs empty_store"
  using execution_rel [OF assms(1), of f] assms(2,3) by (auto simp: live_def)

lemma tagStates_execution:
  assumes "execution cs" "cs \<noteq> []" "now \<le> fst (last cs) + TAG_MANIFEST_TTL_SECONDS * 1000"
  shows "tagStates (live now (exec_calls f cs empty_store)) tags = next_updates cs Map.empty |` set tags"
  using execution_rel [OF assms(1), of f] live_execution [OF assms, of f] by (auto intro: tagStates_rel)

section \<open>Invalidations last\<close>

text \<open>The server times of an execution do not decrease.\<close>

lemma execution_sorted:
  assumes "execution cs"
  shows "sorted (map fst cs)"
proof -
  have "successively (\<le>) (map fst cs)"
    using assms unfolding execution_def by (auto intro: successively_mono)
  then show ?thesis
    using successively_conv_sorted_wrt [of "(\<le>) :: rat \<Rightarrow> rat \<Rightarrow> bool"] by (simp add: transp_on_def)
qed

text \<open>A tag revalidated at \<open>T\<close> keeps a watermark that defeats every entry rendered before \<open>T\<close>.\<close>

definition invalidated :: "rat \<Rightarrow> rat \<Rightarrow> tag_state \<Rightarrow> bool" where
  "invalidated T now s \<longleftrightarrow> (\<exists>x. ts_stale s = Some x \<and> T \<le> x) \<or> (\<exists>x. ts_expired s = Some x \<and> T \<le> x \<and> x \<le> now)"

lemma invalidated_update: "T \<le> now \<Longrightarrow> invalidated T now (computeTagUpdate ex now d)"
  by (auto simp: invalidated_def computeTagUpdate_def Let_def split: option.splits)

lemma invalidated_mono: "invalidated T now s \<Longrightarrow> now \<le> now' \<Longrightarrow> invalidated T now' s"
  unfolding invalidated_def by (meson order_trans)

lemma invalidated_run:
  assumes "m t = Some s" "invalidated T now s" "T \<le> now" "sorted (now # map fst cs)"
  shows "\<exists>s'. next_updates cs m t = Some s' \<and> invalidated T (fst (last ((now, c) # cs))) s'"
  using assms
proof (induction cs arbitrary: m s now c)
  case (Cons x cs)
  obtain now' c' where x: "x = (now', c')" by (cases x)
  let ?s = "if t \<in> set (c_tags c') then computeTagUpdate (m t) now' (c_durations c') else s"
  have "next_update now' c' m t = Some ?s" "T \<le> now'" "sorted (now' # map fst cs)"
    using Cons.prems x by (auto simp: next_update_def)
  moreover have "invalidated T now' ?s"
    using Cons.prems x by (auto intro: invalidated_update invalidated_mono)
  ultimately show ?case
    using Cons.IH [of "next_update now' c' m" ?s now' c'] x by auto
qed auto

lemma areTagsExpired_iff:
  "areTagsExpired tags ts m now \<longleftrightarrow> (\<exists>t \<in> set tags. \<exists>x. watermark ts_expired m t = Some x \<and> x \<le> now \<and> ts < x)"
  by (induction tags ts m now rule: areTagsExpired.induct) (auto split: option.splits)

lemma areTagsStale_iff:
  "areTagsStale tags ts m \<longleftrightarrow>
     (\<exists>t \<in> set tags. ts < (case watermark ts_stale m t of None \<Rightarrow> 0 | Some x \<Rightarrow> x))"
  by (induction tags ts m rule: areTagsStale.induct) (auto simp: Let_def)

lemma invalidated_not_fresh:
  assumes "m t = Some s" "invalidated T now s" "e_timestamp e < T" "t \<in> set (e_tags e)"
  shows "evaluateEntry e (m |` set (e_tags e)) now \<noteq> Fresh r"
proof -
  let ?m = "m |` set (e_tags e)"
  have wm: "watermark fld ?m t = fld s" for fld
    using assms by (simp add: watermark_def)
  have "areTagsStale (e_tags e) (e_timestamp e) ?m \<or> areTagsExpired (e_tags e) (e_timestamp e) ?m now"
    using assms wm unfolding invalidated_def areTagsExpired_iff areTagsStale_iff
    by (metis (no_types, lifting) less_le_trans option.simps(5))
  then show ?thesis by (auto simp: evaluateEntry_def)
qed


lemma next_updates_invalidated:
  assumes "execution (cs1 @ (T, c) # cs2)" "t \<in> set (c_tags c)"
  shows "\<exists>s. next_updates (cs1 @ (T, c) # cs2) Map.empty t = Some s \<and>
    invalidated T (fst (last ((T, c) # cs2))) s"
proof -
  let ?m = "next_update T c (next_updates cs1 Map.empty)"
  obtain s where s: "?m t = Some s" "invalidated T T s"
    using assms(2) invalidated_update [OF order_refl] by (auto simp: next_update_def)
  have "sorted (T # map fst cs2)"
    using execution_sorted [OF assms(1)] by (simp add: sorted_append)
  from invalidated_run [where m = ?m and t = t and cs = cs2, OF s order_refl this, of c] show ?thesis
    by (simp add: next_updates_append)
qed

text \<open>Once hard-expired at \<open>T\<close>, a tag stays so as long as no event schedules a new expiry.\<close>

definition reschedules :: "string \<Rightarrow> tag_call \<Rightarrow> bool" where
  "reschedules t c = (t \<in> set (c_tags c) \<and> (case c_durations c of Some (Some _) \<Rightarrow> True | _ \<Rightarrow> False))"

lemma expired_run:
  assumes "m t = Some s" "ts_expired s = Some x" "T \<le> x" "x \<le> now" "sorted (now # map fst cs)"
    "\<forall>(_, c) \<in> set cs. \<not> reschedules t c"
  shows "\<exists>s' x'. next_updates cs m t = Some s' \<and> ts_expired s' = Some x' \<and> T \<le> x' \<and> x' \<le> fst (last ((now, c) # cs))"
  using assms
proof (induction cs arbitrary: m s x now c)
  case (Cons y cs)
  obtain now' c' where y: "y = (now', c')" by (cases y)
  have nr: "\<not> reschedules t c'" and tl: "\<forall>(_, c) \<in> set cs. \<not> reschedules t c"
    and le: "now \<le> now'" and st: "sorted (now' # map fst cs)"
    using Cons.prems y by auto
  have "\<exists>s' x'. next_update now' c' m t = Some s' \<and> ts_expired s' = Some x' \<and> T \<le> x' \<and> x' \<le> now'"
    using nr le Cons.prems(1-4)
    by (auto simp: next_update_def reschedules_def computeTagUpdate_def Let_def split: option.splits)
  then obtain s' x' where "next_update now' c' m t = Some s'" "ts_expired s' = Some x'" "T \<le> x'" "x' \<le> now'"
    by blast
  from Cons.IH [where m = "next_update now' c' m", OF this st tl, of c'] y show ?case by simp
qed auto

lemma hard_run_expired:
  assumes "execution (cs1 @ (T, c) # cs2)" "t \<in> set (c_tags c)" "c_durations c = None"
    "\<forall>(_, c') \<in> set cs2. \<not> reschedules t c'" "t \<in> set tags" "ts < T"
    "fst (last ((T, c) # cs2)) \<le> now" "now \<le> fst (last ((T, c) # cs2)) + TAG_MANIFEST_TTL_SECONDS * 1000"
  shows "areTagsExpired tags ts
      (tagStates (live now (exec_calls str2num (cs1 @ (T, c) # cs2) empty_store)) tags) now"
proof -
  let ?m = "next_update T c (next_updates cs1 Map.empty)"
  have "\<exists>s. ?m t = Some s \<and> ts_expired s = Some T"
    using assms(2,3) by (auto simp: next_update_def computeTagUpdate_def Let_def split: option.splits)
  moreover have "sorted (T # map fst cs2)"
    using execution_sorted [OF assms(1)] by (simp add: sorted_append)
  ultimately obtain s x where sx: "next_updates (cs1 @ (T, c) # cs2) Map.empty t = Some s"
      "ts_expired s = Some x" "T \<le> x" "x \<le> fst (last ((T, c) # cs2))"
    using expired_run [of ?m t _ T T T cs2 c] assms(4) by (fastforce simp: next_updates_append)
  have tags: "tagStates (live now (exec_calls str2num (cs1 @ (T, c) # cs2) empty_store)) tags =
      next_updates (cs1 @ (T, c) # cs2) Map.empty |` set tags"
    using assms(1,8) by (intro tagStates_execution) auto
  show ?thesis
    unfolding areTagsExpired_iff tags
  proof (intro bexI exI conjI)
    show "watermark ts_expired (next_updates (cs1 @ (T, c) # cs2) Map.empty |` set tags) t = Some x"
      using sx assms(5) by (simp add: watermark_def)
  qed (use sx assms(5-7) in auto)
qed

section \<open>What the caches rely on\<close>

text \<open>
  The two laws the cache handlers use: the epoch counts the calls, so equal epochs mean that no
  call ran in between, and a fresh verdict means that no call newer than the entry touched any of
  its tags. \<open>now\<close> is the server time of the read, \<open>now'\<close> that of the clock sample after it.
\<close>

definition readable :: "(rat \<times> tag_call) list \<Rightarrow> rat \<Rightarrow> bool" where
  "readable lg now \<longleftrightarrow> (lg \<noteq> [] \<longrightarrow> within_ttl (fst (last lg)) now)"

definition covered :: "(rat \<times> tag_call) list \<Rightarrow> string list \<Rightarrow> rat \<Rightarrow> bool" where
  "covered lg tags ts \<longleftrightarrow> (\<forall>(T, c) \<in> set lg. \<forall>t \<in> set tags. t \<in> set (c_tags c) \<longrightarrow> T \<le> ts)"

locale tag_authority =
  fixes valid :: "(rat \<times> tag_call) list \<Rightarrow> bool"
    and epoch_at :: "(rat \<times> tag_call) list \<Rightarrow> rat \<Rightarrow> nat option"
    and states_at :: "(rat \<times> tag_call) list \<Rightarrow> rat \<Rightarrow> string list \<Rightarrow> tag_manifest"
  assumes epoch_counts: "valid lg \<Longrightarrow> readable lg now \<Longrightarrow> epoch_at lg now = Some (length lg)"
    and fresh_covered: "valid lg \<Longrightarrow> readable lg now \<Longrightarrow> now \<le> now' \<Longrightarrow>
      evaluateEntry e (states_at lg now (e_tags e)) now' = Fresh r \<Longrightarrow> covered lg (e_tags e) (e_timestamp e)"
begin

lemma epoch_bound: "valid lg \<Longrightarrow> readable lg now \<Longrightarrow> epoch_at lg now = Some n \<Longrightarrow> n \<le> length lg"
  using epoch_counts by force

lemma fresh_covered_prefix:
  assumes "valid lg" "readable lg now" "now \<le> now'"
    "evaluateEntry e (states_at lg now (e_tags e)) now' = Fresh r"
  shows "covered (take n lg) (e_tags e) (e_timestamp e)"
  using fresh_covered [OF assms] set_take_subset [of n lg] unfolding covered_def by blast

end

lemma covered_append: "n \<le> length lg \<Longrightarrow> covered (take n (lg @ xs)) tags ts = covered (take n lg) tags ts"
  by simp

lemma covered_tags_mono: "covered lg tags ts \<Longrightarrow> set tags' \<subseteq> set tags \<Longrightarrow> covered lg tags' ts"
  unfolding covered_def by blast

abbreviation store_at :: "(string \<Rightarrow> rat option) \<Rightarrow> (rat \<times> tag_call) list \<Rightarrow> rat \<Rightarrow> manifest_store" where
  "store_at f lg now \<equiv> live now (exec_calls f lg empty_store)"

lemma read_epoch_execution:
  assumes "execution lg" "readable lg now"
  shows "read_epoch (store_at f lg now) = Some (length lg)"
proof -
  have rel: "store_rel (if lg = [] then 0 else fst (last lg)) (length lg) (next_updates lg Map.empty) (exec_calls f lg empty_store)"
    using execution_rel [OF assms(1), of f] by blast
  have "store_at f lg now = exec_calls f lg empty_store"
    using live_execution [OF assms(1), of now f] assms(2) by (cases "lg = []") (auto simp: readable_def live_def empty_store_def)
  then show ?thesis
    using rel by (simp add: read_epoch_def store_rel_def is_integer_def)
qed

lemma fresh_verdict_covered:
  assumes "execution lg" "readable lg now" "now \<le> now'"
    "evaluateEntry e (tagStates (store_at f lg now) (e_tags e)) now' = Fresh r"
  shows "covered lg (e_tags e) (e_timestamp e)"
  unfolding covered_def
proof (intro ballI impI, clarify)
  fix T c t assume c: "(T, c) \<in> set lg" and t: "t \<in> set (e_tags e)" "t \<in> set (c_tags c)"
  obtain cs1 cs2 where lg: "lg = cs1 @ (T, c) # cs2" using split_list [OF c] by blast
  have last: "last lg = last ((T, c) # cs2)" "lg \<noteq> []" by (simp_all add: lg)
  have rd: "fst (last lg) \<le> now" "now \<le> fst (last lg) + TAG_MANIFEST_TTL_SECONDS * 1000"
    using assms(2) last(2) by (auto simp: readable_def)
  obtain s where s: "next_updates lg Map.empty t = Some s" "invalidated T now' s"
    using next_updates_invalidated [OF assms(1) [unfolded lg] t(2)] invalidated_mono rd(1) assms(3)
    unfolding lg [symmetric] last(1) [symmetric] by (meson order_trans)
  have "tagStates (store_at f lg now) (e_tags e) = next_updates lg Map.empty |` set (e_tags e)"
    using tagStates_execution [OF assms(1) last(2) rd(2)] .
  with assms(4) have "\<not> e_timestamp e < T"
    using invalidated_not_fresh [where m = "next_updates lg Map.empty", OF s _ t(1)] by auto
  then show "T \<le> e_timestamp e" by simp
qed

interpretation ta: tag_authority execution "\<lambda>lg now. read_epoch (store_at f lg now)"
    "\<lambda>lg now. tagStates (store_at f lg now)" for f
  by unfold_locales (auto intro: read_epoch_execution fresh_verdict_covered)

section \<open>Properties\<close>

text \<open>
  C1: The shared manifest behaves like Next's single-process one. Whatever batches the replicas
  sent, in whatever interleaving the server ran them and however wrong each client clock was,
  reading the manifest gives exactly the states that Next's read-modify-write would have built
  from the same events at the server's time, provided the server clock did not step back and
  the manifest was never silent for its whole retention.
\<close>

theorem tag_manifest_refines_next:
  assumes "execution cs" "cs \<noteq> []" "now \<le> fst (last cs) + TAG_MANIFEST_TTL_SECONDS * 1000"
  shows "tagStates (live now (exec_calls str2num cs empty_store)) tags = next_updates cs Map.empty |` set tags"
  using assms by (rule tagStates_execution)

definition no_number :: "string \<Rightarrow> rat option" where
  "no_number s = None"

text \<open>Two replicas, one five minutes behind and one five minutes ahead of the server.\<close>

definition sample_execution :: "(rat \<times> tag_call) list" where
  "sample_execution =
     [(1000000, \<lparr>c_client = 700000, c_durations = None, c_tags = [''a'']\<rparr>),
      (1000500, \<lparr>c_client = 1300500, c_durations = Some (Some 60), c_tags = [''a'', ''b'']\<rparr>)]"

lemma sample_execution_ok: "execution sample_execution"
  by (simp add: execution_def sample_execution_def TAG_MANIFEST_TTL_SECONDS_def TAG_MANIFEST_EPOCH_FIELD_def)

theorem tag_manifest_refines_next_witness:
  "tagStates (live 1000600 (exec_calls no_number sample_execution empty_store)) [''a''] ''a'' =
     Some \<lparr>ts_stale = Some 1000500, ts_expired = Some 1060500, ts_at = Some 1000500\<rparr>"
proof -
  have "tagStates (live 1000600 (exec_calls no_number sample_execution empty_store)) [''a''] =
      next_updates sample_execution Map.empty |` set [''a'']"
    by (rule tag_manifest_refines_next [OF sample_execution_ok])
      (simp_all add: sample_execution_def TAG_MANIFEST_TTL_SECONDS_def)
  then show ?thesis
    by (simp add: sample_execution_def next_update_def computeTagUpdate_def)
qed



text \<open>
  C4: A hard revalidation takes effect at once and is not undone by a profiled one without an
  expiry. From the server time \<open>T\<close> of the hard event on, entries rendered before \<open>T\<close> are expired
  (not merely stale) until some later event for the tag sets a new expiry of its own.
\<close>

theorem hard_revalidation_expires:
  assumes "execution (cs1 @ (T, c) # cs2)" "t \<in> set (c_tags c)" "c_durations c = None"
    "\<forall>(_, c') \<in> set cs2. \<not> reschedules t c'" "t \<in> set (e_tags e)" "e_timestamp e < T"
    "fst (last ((T, c) # cs2)) \<le> now" "now \<le> fst (last ((T, c) # cs2)) + TAG_MANIFEST_TTL_SECONDS * 1000"
  shows "evaluateEntry e
      (tagStates (live now (exec_calls str2num (cs1 @ (T, c) # cs2) empty_store)) (e_tags e)) now = Expired"
  using hard_run_expired [OF assms] by (simp add: evaluateEntry_def)

definition hard_then_profiled :: "(rat \<times> tag_call) list" where
  "hard_then_profiled =
     [(1000000, \<lparr>c_client = 700000, c_durations = None, c_tags = [''a'']\<rparr>),
      (1000500, \<lparr>c_client = 1000500, c_durations = Some None, c_tags = [''a'']\<rparr>)]"

theorem hard_revalidation_expires_witness:
  "evaluateEntry \<lparr>e_timestamp = 999999, e_revalidate = 900, e_expire = 3600, e_tags = [''a'']\<rparr>
     (tagStates (live 1000600 (exec_calls no_number hard_then_profiled empty_store)) [''a'']) 1000600 = Expired"
  using hard_revalidation_expires [of "[]" 1000000 "snd (hd hard_then_profiled)" "tl hard_then_profiled" "''a''"
      "\<lparr>e_timestamp = 999999, e_revalidate = 900, e_expire = 3600, e_tags = [''a'']\<rparr>" 1000600 no_number]
  by (simp add: hard_then_profiled_def execution_def reschedules_def TAG_MANIFEST_TTL_SECONDS_def
      TAG_MANIFEST_EPOCH_FIELD_def)

text \<open>
  No tag is dropped by batching. The batches of one \<open>updateTags\<close> call carry, in order, exactly
  the storable tags of the request, every batch is non-empty and within the argument bound, and
  none touches the epoch field.
\<close>

theorem update_tags_batches:
  "concat (map c_tags (updateTags_calls tags d now)) = filterManifestTags tags \<and>
   (\<forall>c \<in> set (updateTags_calls tags d now).
      c_tags c \<noteq> [] \<and> length (c_tags c) \<le> 256 \<and> TAG_MANIFEST_EPOCH_FIELD \<notin> set (c_tags c))"
proof (intro conjI ballI)
  fix c assume c: "c \<in> set (updateTags_calls tags d now)"
  then have ch: "c_tags c \<in> set (chunkManifestTags (filterManifestTags tags))"
    by (auto simp: updateTags_calls_def)
  show "c_tags c \<noteq> []" "length (c_tags c) \<le> 256"
    using chunk_length [OF ch] by (auto simp: MAX_MANIFEST_TAGS_PER_CALL_def)
  have "set (c_tags c) \<subseteq> set (filterManifestTags tags)"
    using ch concat_chunk [of "filterManifestTags tags"] by (metis UN_upper set_concat)
  then show "TAG_MANIFEST_EPOCH_FIELD \<notin> set (c_tags c)"
    using filter_no_epoch by blast
qed (rule calls_tags)

theorem update_tags_batches_witness:
  "concat (map c_tags (updateTags_calls [''a'', [], ''b''] None 5)) = [''a'', ''b''] \<and>
   length (c_tags (hd (updateTags_calls [''a'', [], ''b''] None 5))) \<le> 256"
proof -
  have f: "filterManifestTags [''a'', [], ''b''] = [''a'', ''b'']"
    by (simp add: filterManifestTags_def maxTagLength_def isRootParamTag_def TAG_MANIFEST_EPOCH_FIELD_def
        MAX_SOFT_TAG_LENGTH_def MAX_EXPLICIT_TAG_LENGTH_def)
  have "updateTags_calls [''a'', [], ''b''] None 5 \<noteq> []"
    by (simp add: updateTags_calls_def f chunkManifestTags.simps [of "[''a'', ''b'']"])
  then show ?thesis
    using update_tags_batches [of "[''a'', [], ''b'']" None 5] by (simp add: f)
qed

text \<open>
  The clock translation is as accurate as the round trip. If the server read its clock while
  this process's clock showed some \<open>t\<close> between \<open>before\<close> and \<open>after\<close>, then translating any server
  timestamp errs by at most half the round trip.
\<close>

theorem clock_translation_error:
  assumes "sampleValkeyClock (Some before) (Some reply) (Some after) = Inr c" "before \<le> t" "t \<le> after"
  shows "\<bar>toLocal c x - (x - (reply - t))\<bar> \<le> (after - before) / 2"
proof -
  have eq: "toLocal c x - (x - (reply - t)) = (before + after) / 2 - t"
    using assms(1) by (auto simp: sampleValkeyClock_def toLocal_def)
  show ?thesis
    unfolding eq using assms(2,3) by (simp add: abs_le_iff field_simps)
qed

theorem clock_translation_error_witness:
  "\<bar>toLocal \<lparr>serverNow = 5000, localNow = 1010\<rparr> 4900 - (4900 - (5000 - 1015))\<bar> \<le> (1020 - 1000 :: rat) / 2"
  using clock_translation_error [of 1000 5000 1020 "\<lparr>serverNow = 5000, localNow = 1010\<rparr>" 1015 4900]
  by (simp add: sampleValkeyClock_def)

end
