(* ===== verification/Names.thy ===== *)
theory Names
  imports Regex
begin

text \<open>
  \<^verbatim>\<open>src/emit/templates/utils.ts\<close>, first part: the Kubernetes resource names the charts emit, their
  63-character truncation, and the guards that refuse two objects of one kind with one name. The
  SHA-256 hex digest of Node is the parameter \<open>sha\<close>.
\<close>

section \<open>Character classes\<close>

definition lower :: "char \<Rightarrow> bool" where
  "lower c = (let n = (of_char c :: nat) in 97 \<le> n \<and> n \<le> 122)"

definition upper :: "char \<Rightarrow> bool" where
  "upper c = (let n = (of_char c :: nat) in 65 \<le> n \<and> n \<le> 90)"

definition dec_digit :: "char \<Rightarrow> bool" where
  "dec_digit c = (let n = (of_char c :: nat) in 48 \<le> n \<and> n \<le> 57)"

definition alnum :: "char \<Rightarrow> bool" where
  "alnum c = (lower c \<or> dec_digit c)"

definition ldh :: "char \<Rightarrow> bool" where
  "ldh c = (alnum c \<or> c = CHR ''-'')"

definition DNS_1035_LABEL_RE :: rexp where
  "DNS_1035_LABEL_RE = Seq (Cls lower) (ropt (Seq (Rep 0 61 (Cls ldh)) (Cls alnum)))"

section \<open>Names\<close>

definition strip_hyphens :: "string \<Rightarrow> string" where
  "strip_hyphens s = rev (dropWhile (\<lambda>c. c = CHR ''-'') (rev (dropWhile (\<lambda>c. c = CHR ''-'') s)))"

definition hyphenate :: "char \<Rightarrow> char" where
  "hyphenate c = (if alnum c then c else CHR ''-'')"

definition sanitizeK8sName :: "string \<Rightarrow> string \<Rightarrow> string" where
  "sanitizeK8sName name sfx =
     (let s0 = map hyphenate (js_lower name);
          s1 = (if s0 \<noteq> [] \<and> lower (hd s0) then s0 else ''b-'' @ s0);
          s2 = js_slice s1 0 (63 - int (length sfx))
      in strip_hyphens s2 @ sfx)"

definition routingManifestSnapshotName :: "(string \<Rightarrow> string) \<Rightarrow> string \<Rightarrow> string \<Rightarrow> string" where
  "routingManifestSnapshotName sha releaseName buildId =
     sanitizeK8sName (releaseName @ ''-rm-'' @ buildId) (''-'' @ js_slice (sha buildId) 0 8)"

definition compositionPlanResourceName :: "string \<Rightarrow> string \<Rightarrow> string" where
  "compositionPlanResourceName releaseName buildId = sanitizeK8sName (releaseName @ ''-composition-'' @ buildId) []"

record pool_resource_names =
  deployment :: string
  hpa :: string
  hcp :: string

definition poolResourceNames :: "string \<Rightarrow> string \<Rightarrow> string \<Rightarrow> pool_resource_names" where
  "poolResourceNames releaseName poolName buildId =
     (let base = releaseName @ ''-'' @ poolName @ ''-'' @ buildId
      in \<lparr>deployment = sanitizeK8sName base [], hpa = sanitizeK8sName base ''-hpa'', hcp = sanitizeK8sName base ''-hcp''\<rparr>)"

definition composedBuildResourceNames :: "(string \<Rightarrow> string) \<Rightarrow> string \<Rightarrow> string list \<Rightarrow> string \<Rightarrow> string list" where
  "composedBuildResourceNames sha releaseName poolNames buildId =
     concat (map (\<lambda>p. let n = poolResourceNames releaseName p buildId in [deployment n, hpa n, hcp n]) poolNames) @
     [routingManifestSnapshotName sha releaseName buildId]"

section \<open>Collision guards\<close>

text \<open>A collision is the kind and the first name seen twice in it.\<close>

type_synonym bucket = "string \<times> string list"

fun first_collision :: "bucket list \<Rightarrow> (string \<times> string) option" where
  "first_collision [] = None"
| "first_collision ((kind, names) # buckets) =
     (case first_dup [] names of Some name \<Rightarrow> Some (kind, name) | None \<Rightarrow> first_collision buckets)"

definition versioned_names :: "(pool_resource_names \<Rightarrow> string) \<Rightarrow> string \<Rightarrow> (string \<times> string) list \<Rightarrow> string list" where
  "versioned_names f releaseName builds = map (\<lambda>(pool, buildId). f (poolResourceNames releaseName pool buildId)) builds"

definition emitted_buckets :: "(string \<Rightarrow> string) \<Rightarrow> string \<Rightarrow> string list \<Rightarrow> string list \<Rightarrow> bucket list" where
  "emitted_buckets sha releaseName poolNames buildIds =
     (let builds = concat (map (\<lambda>buildId. map (\<lambda>pool. (pool, buildId)) poolNames) buildIds)
      in [(''Deployment/Service'',
             versioned_names deployment releaseName builds @
             map (\<lambda>pool. sanitizeK8sName (releaseName @ ''-'' @ pool) []) poolNames @ [releaseName @ ''-routing-service'']),
          (''HorizontalPodAutoscaler'', versioned_names hpa releaseName builds @ [releaseName @ ''-routing-service-hpa'']),
          (''HealthCheckPolicy'',
             versioned_names hcp releaseName builds @
             map (\<lambda>pool. sanitizeK8sName (releaseName @ ''-'' @ pool) ''-hcp'') poolNames),
          (''ConfigMap'',
             concat (map (\<lambda>buildId. [routingManifestSnapshotName sha releaseName buildId,
                                      compositionPlanResourceName releaseName buildId]) buildIds))])"

definition findEmittedNameCollision ::
    "(string \<Rightarrow> string) \<Rightarrow> string \<Rightarrow> string list \<Rightarrow> string list \<Rightarrow> (string \<times> string) option" where
  "findEmittedNameCollision sha releaseName poolNames buildIds =
     first_collision (emitted_buckets sha releaseName poolNames buildIds)"

text \<open>\<open>new Set([...])\<close> in insertion order.\<close>

fun dedup :: "'a list \<Rightarrow> 'a list \<Rightarrow> 'a list" where
  "dedup seen [] = []"
| "dedup seen (x # xs) = (if x \<in> set seen then dedup seen xs else x # dedup (x # seen) xs)"

record build_topology =
  bt_buildId :: string
  bt_pools :: "string list"

definition topology_buckets :: "(string \<Rightarrow> string) \<Rightarrow> string \<Rightarrow> build_topology \<Rightarrow> build_topology \<Rightarrow> bucket list" where
  "topology_buckets sha releaseName current previous =
     (let builds = map (\<lambda>pool. (pool, bt_buildId current)) (bt_pools current) @
                   map (\<lambda>pool. (pool, bt_buildId previous)) (bt_pools previous);
          stable = dedup [] (bt_pools current @ bt_pools previous)
      in [(''Deployment/Service'',
             versioned_names deployment releaseName builds @
             map (\<lambda>pool. sanitizeK8sName (releaseName @ ''-'' @ pool) []) stable @ [releaseName @ ''-routing-service'']),
          (''HorizontalPodAutoscaler'', versioned_names hpa releaseName builds @ [releaseName @ ''-routing-service-hpa'']),
          (''HealthCheckPolicy'',
             versioned_names hcp releaseName builds @
             map (\<lambda>pool. sanitizeK8sName (releaseName @ ''-'' @ pool) ''-hcp'') stable),
          (''ConfigMap'',
             [routingManifestSnapshotName sha releaseName (bt_buildId current),
              routingManifestSnapshotName sha releaseName (bt_buildId previous),
              compositionPlanResourceName releaseName (bt_buildId current),
              compositionPlanResourceName releaseName (bt_buildId previous)])])"

definition findBuildTopologyNameCollision ::
    "(string \<Rightarrow> string) \<Rightarrow> string \<Rightarrow> build_topology \<Rightarrow> build_topology \<Rightarrow> (string \<times> string) option" where
  "findBuildTopologyNameCollision sha releaseName current previous =
     first_collision (topology_buckets sha releaseName current previous)"

definition findBuildIdNameCollision ::
    "(string \<Rightarrow> string) \<Rightarrow> string \<Rightarrow> string list \<Rightarrow> string \<Rightarrow> string \<Rightarrow> (string \<times> string) option" where
  "findBuildIdNameCollision sha releaseName poolNames currentBuildId previousBuildId =
     findEmittedNameCollision sha releaseName poolNames [currentBuildId, previousBuildId]"

section \<open>Labels\<close>

text \<open>The shape shared by the name patterns: an edge character, an optional middle, an edge character.\<close>

lemma matches_edge_label:
  "matches (Seq (Cls P) (ropt (Seq (Rep 0 n (Cls Q)) (Cls R)))) s \<longleftrightarrow>
     (\<exists>c. s = [c] \<and> P c) \<or> (\<exists>c w d. s = c # w @ [d] \<and> P c \<and> length w \<le> n \<and> (\<forall>x \<in> set w. Q x) \<and> R d)"
proof -
  have "v \<in> conc (\<Union>k \<in> {0..n}. lpow {[c] | c. Q c} k) {[c] | c. R c} \<longleftrightarrow>
      (\<exists>w d. v = w @ [d] \<and> length w \<le> n \<and> (\<forall>x \<in> set w. Q x) \<and> R d)" (is "?l v \<longleftrightarrow> ?r v") for v
  proof
    assume "?l v"
    then obtain w k d where "v = w @ [d]" "k \<le> n" "w \<in> lpow {[c] | c. Q c} k" "R d" by (auto simp: conc_def)
    then show "?r v" unfolding lpow_Cls by blast
  next
    assume "?r v"
    then obtain w d where w: "v = w @ [d]" "length w \<le> n" "\<forall>x \<in> set w. Q x" "R d" by blast
    then have "w \<in> lpow {[c] | c. Q c} (length w)" by (simp add: lpow_Cls)
    then have "w \<in> (\<Union>k \<in> {0..n}. lpow {[c] | c. Q c} k)" using w(2) by auto
    then show "?l v" using w by (auto intro!: concI)
  qed
  note mid = this
  have "matches (Seq (Cls P) (ropt (Seq (Rep 0 n (Cls Q)) (Cls R)))) s \<longleftrightarrow>
      (\<exists>c v. s = c # v \<and> P c \<and> (v = [] \<or> v \<in> conc (\<Union>k \<in> {0..n}. lpow {[c] | c. Q c} k) {[c] | c. R c}))"
    unfolding matches_lang lang.simps conc_Cls by simp
  also have "\<dots> \<longleftrightarrow> (\<exists>c. s = [c] \<and> P c) \<or> (\<exists>c w d. s = c # w @ [d] \<and> P c \<and> length w \<le> n \<and> (\<forall>x \<in> set w. Q x) \<and> R d)"
    unfolding mid by blast
  finally show ?thesis .
qed

lemma edge_label_intro:
  assumes "s \<noteq> []" "P (hd s)" "R (last s)" "\<forall>x \<in> set s. Q x" "length s \<le> n + 2"
  shows "matches (Seq (Cls P) (ropt (Seq (Rep 0 n (Cls Q)) (Cls R)))) s"
proof -
  obtain c t where s: "s = c # t" using assms(1) by (cases s) auto
  show ?thesis
  proof (cases t rule: rev_cases)
    case Nil
    then show ?thesis using s assms(2) unfolding matches_edge_label by simp
  next
    case (snoc w d)
    then have "s = c # w @ [d] \<and> P c \<and> length w \<le> n \<and> (\<forall>x \<in> set w. Q x) \<and> R d" using s assms(2-) by simp
    then show ?thesis unfolding matches_edge_label by blast
  qed
qed

lemma ldh_alnum: "alnum c \<Longrightarrow> ldh c" "ldh (CHR ''-'')" "lower c \<Longrightarrow> alnum c"
  by (simp_all add: ldh_def alnum_def)

lemma ldh_hyphenate: "ldh (hyphenate c)"
  by (simp add: hyphenate_def ldh_def)

lemma lower_not_hyphen: "\<not> lower (CHR ''-'')" "lower (CHR ''b'')"
  by (simp_all add: lower_def Let_def)


text \<open>Sanitizing: the body starts with a letter, ends in a letter or digit, and fits.\<close>

lemma strip_hyphens_letter:
  assumes "s \<noteq> []" "lower (hd s)"
  shows "strip_hyphens s \<noteq> [] \<and> hd (strip_hyphens s) = hd s \<and> last (strip_hyphens s) \<noteq> CHR ''-'' \<and>
    prefix (strip_hyphens s) s"
proof -
  obtain c t where s: "s = c # t" "c \<noteq> CHR ''-''" using assms lower_not_hyphen(1) by (cases s) auto
  let ?P = "\<lambda>c. c = CHR ''-''"
  have r: "strip_hyphens s = rev (dropWhile ?P (rev s))" using s by (simp add: strip_hyphens_def)
  have ne: "dropWhile ?P (rev s) \<noteq> []" using s by (auto simp: dropWhile_eq_Nil_conv)
  have pre: "prefix (rev (dropWhile ?P (rev s))) s"
    using suffix_dropWhile [of ?P "rev s"] by (simp add: suffix_to_prefix)
  then obtain rest where rest: "s = rev (dropWhile ?P (rev s)) @ rest" by (auto simp: prefix_def)
  have "last (rev (dropWhile ?P (rev s))) \<noteq> CHR ''-''"
    using hd_dropWhile [OF ne] by (simp add: last_rev)
  moreover have "hd (rev (dropWhile ?P (rev s))) = hd s"
    using hd_append2 [of "rev (dropWhile ?P (rev s))" rest] ne rest by simp
  ultimately show ?thesis using ne pre by (simp add: r)
qed

definition sanitized_body :: "string \<Rightarrow> nat \<Rightarrow> string" where
  "sanitized_body name n =
     (let s0 = map hyphenate (js_lower name)
      in take n (if s0 \<noteq> [] \<and> lower (hd s0) then s0 else ''b-'' @ s0))"

lemma sanitize_body:
  "length sfx \<le> 63 \<Longrightarrow> sanitizeK8sName name sfx = strip_hyphens (sanitized_body name (63 - length sfx)) @ sfx"
  by (simp add: sanitizeK8sName_def sanitized_body_def Let_def nat_diff_distrib)

lemma sanitized_body_letter:
  assumes "0 < n"
  shows "sanitized_body name n \<noteq> [] \<and> lower (hd (sanitized_body name n)) \<and>
    (\<forall>c \<in> set (sanitized_body name n). ldh c) \<and> length (sanitized_body name n) \<le> n"
proof -
  let ?s0 = "map hyphenate (js_lower name)"
  let ?s1 = "if ?s0 \<noteq> [] \<and> lower (hd ?s0) then ?s0 else ''b-'' @ ?s0"
  have "?s1 \<noteq> []" "lower (hd ?s1)" using lower_not_hyphen(2) by auto
  moreover have "ldh (CHR ''b'')" by (simp add: ldh_def alnum_def lower_def Let_def)
  then have "\<forall>c \<in> set ?s1. ldh c" using ldh_hyphenate ldh_alnum(2) by auto
  moreover have "set (take n ?s1) \<subseteq> set ?s1" by (rule set_take_subset)
  ultimately show ?thesis
    using assms unfolding sanitized_body_def Let_def by (auto simp: hd_take simp del: set_map)
qed

lemma sanitized_strip:
  assumes "0 < n"
  shows "let b = strip_hyphens (sanitized_body name n) in
    b \<noteq> [] \<and> lower (hd b) \<and> alnum (last b) \<and> (\<forall>c \<in> set b. ldh c) \<and> length b \<le> n"
proof -
  let ?s = "sanitized_body name n"
  note b = sanitized_body_letter [OF assms, of name]
  note st = strip_hyphens_letter [of ?s, OF conjunct1 [OF b] conjunct1 [OF conjunct2 [OF b]]]
  have sub: "set (strip_hyphens ?s) \<subseteq> set ?s" "length (strip_hyphens ?s) \<le> length ?s"
    using st by (auto dest: set_mono_prefix prefix_length_le)
  have "ldh (last (strip_hyphens ?s))"
    using b st sub last_in_set [of "strip_hyphens ?s"] by blast
  then have "alnum (last (strip_hyphens ?s))" using st by (simp add: ldh_def)
  moreover have "length (strip_hyphens ?s) \<le> n" using b sub(2) by linarith
  ultimately show ?thesis using b st sub(1) by (auto simp: Let_def)
qed

text \<open>A suffix a template appends: a hyphen, then letters, digits and hyphens, ending in no hyphen.\<close>

definition template_suffix :: "string \<Rightarrow> bool" where
  "template_suffix sfx \<longleftrightarrow> sfx = [] \<or> (length sfx \<le> 62 \<and> (\<forall>c \<in> set sfx. ldh c) \<and> alnum (last sfx))"

lemma sanitized_is_label:
  assumes "template_suffix sfx"
  shows "matches DNS_1035_LABEL_RE (sanitizeK8sName name sfx)"
proof -
  have len: "length sfx \<le> 63" "0 < 63 - length sfx" using assms by (auto simp: template_suffix_def)
  let ?b = "strip_hyphens (sanitized_body name (63 - length sfx))"
  have b: "?b \<noteq> []" "lower (hd ?b)" "alnum (last ?b)" "\<forall>c \<in> set ?b. ldh c" "length ?b \<le> 63 - length sfx"
    using sanitized_strip [OF len(2), of name] by (auto simp: Let_def)
  have "matches DNS_1035_LABEL_RE (?b @ sfx)"
    unfolding DNS_1035_LABEL_RE_def
  proof (rule edge_label_intro)
    show "alnum (last (?b @ sfx))" using b(3) assms by (cases "sfx = []") (auto simp: template_suffix_def)
    show "\<forall>x \<in> set (?b @ sfx). ldh x" using b(4) assms by (auto simp: template_suffix_def)
    show "length (?b @ sfx) \<le> 61 + 2" using b(5) len by simp
  qed (use b in auto)
  then show ?thesis using sanitize_body [OF len(1)] by simp
qed

text \<open>A name that already is a label, short enough for its suffix, loses and gains nothing.\<close>

lemma label_kept:
  assumes "matches DNS_1035_LABEL_RE s" "length s + length sfx \<le> 63"
  shows "sanitizeK8sName s sfx = s @ sfx"
proof -
  have s: "s \<noteq> []" "lower (hd s)" "alnum (last s)" "\<forall>c \<in> set s. ldh c"
    using assms(1) unfolding DNS_1035_LABEL_RE_def matches_edge_label by (auto simp: ldh_alnum)
  have low: "js_lower_char c = c" if "ldh c" for c
    using that by (auto simp: ldh_def alnum_def lower_def dec_digit_def js_lower_char_def Let_def)
  have "js_lower s = s" unfolding js_lower_def by (rule map_idI) (use low s(4) in blast)
  moreover have "map hyphenate s = s" by (rule map_idI) (use s(4) in \<open>auto simp: hyphenate_def ldh_def\<close>)
  ultimately have "sanitized_body s (63 - length sfx) = s" using s(1,2) assms(2) by (simp add: sanitized_body_def Let_def)
  moreover have "last s \<noteq> CHR ''-''" using s(3) by (auto simp: alnum_def lower_def dec_digit_def Let_def)
  then have "strip_hyphens s = s"
    using s(1,2) lower_not_hyphen(1) by (cases s) (auto simp: strip_hyphens_def hd_rev dropWhile_eq_self_iff split: if_splits)
  ultimately show ?thesis using sanitize_body [of sfx s] assms(2) by simp
qed

lemma label_length: "matches DNS_1035_LABEL_RE s \<Longrightarrow> length s \<le> 63"
  unfolding DNS_1035_LABEL_RE_def matches_edge_label by auto


section \<open>What the guards decide\<close>

text \<open>The objects the charts emit for some pools and builds, by kind.\<close>

datatype emitted = Versioned string string | Stable string | Routing | Snapshot string | Plan string

fun object_name :: "(string \<Rightarrow> string) \<Rightarrow> string \<Rightarrow> string \<Rightarrow> emitted \<Rightarrow> string" where
  "object_name sha r kind (Versioned p b) =
     (let n = poolResourceNames r p b
      in if kind = ''Deployment/Service'' then deployment n
         else if kind = ''HorizontalPodAutoscaler'' then hpa n else hcp n)"
| "object_name sha r kind (Stable p) =
     sanitizeK8sName (r @ ''-'' @ p) (if kind = ''Deployment/Service'' then [] else ''-hcp'')"
| "object_name sha r kind Routing = r @ ''-routing-service'' @ (if kind = ''Deployment/Service'' then [] else ''-hpa'')"
| "object_name sha r kind (Snapshot b) = routingManifestSnapshotName sha r b"
| "object_name sha r kind (Plan b) = compositionPlanResourceName r b"

definition versioned_objects :: "(string \<times> string) list \<Rightarrow> emitted list" where
  "versioned_objects builds = map (\<lambda>(p, b). Versioned p b) builds"

definition inventory :: "(string \<times> string) list \<Rightarrow> string list \<Rightarrow> emitted list \<Rightarrow> (string \<times> emitted list) list" where
  "inventory builds stables configs =
     [(''Deployment/Service'', versioned_objects builds @ map Stable stables @ [Routing]),
      (''HorizontalPodAutoscaler'', versioned_objects builds @ [Routing]),
      (''HealthCheckPolicy'', versioned_objects builds @ map Stable stables),
      (''ConfigMap'', configs)]"

definition all_builds :: "string list \<Rightarrow> string list \<Rightarrow> (string \<times> string) list" where
  "all_builds pools buildIds = concat (map (\<lambda>b. map (\<lambda>p. (p, b)) pools) buildIds)"

lemma first_collision_None: "first_collision bs = None \<longleftrightarrow> (\<forall>(kind, names) \<in> set bs. distinct names)"
proof (induction bs rule: first_collision.induct)
  case (2 kind names buckets)
  have "first_dup [] names = None \<longleftrightarrow> distinct names" by (simp add: first_dup_None)
  then show ?case using 2 by (cases "first_dup [] names") auto
qed simp

lemma versioned_names_objects:
  "versioned_names deployment r builds = map (object_name sha r ''Deployment/Service'') (versioned_objects builds)"
  "versioned_names hpa r builds = map (object_name sha r ''HorizontalPodAutoscaler'') (versioned_objects builds)"
  "versioned_names hcp r builds = map (object_name sha r ''HealthCheckPolicy'') (versioned_objects builds)"
  by (auto simp: versioned_names_def versioned_objects_def Let_def)

lemma buckets_inventory:
  "emitted_buckets sha r pools buildIds =
     map (\<lambda>(kind, objs). (kind, map (object_name sha r kind) objs))
       (inventory (all_builds pools buildIds) pools (concat (map (\<lambda>b. [Snapshot b, Plan b]) buildIds)))"
  "topology_buckets sha r cur prev =
     map (\<lambda>(kind, objs). (kind, map (object_name sha r kind) objs))
       (inventory (map (\<lambda>p. (p, bt_buildId cur)) (bt_pools cur) @ map (\<lambda>p. (p, bt_buildId prev)) (bt_pools prev))
          (dedup [] (bt_pools cur @ bt_pools prev))
          [Snapshot (bt_buildId cur), Snapshot (bt_buildId prev), Plan (bt_buildId cur), Plan (bt_buildId prev)])"
  by (simp_all add: emitted_buckets_def topology_buckets_def inventory_def all_builds_def
      versioned_names_objects [of _ _ sha] map_concat comp_def Let_def)

lemma guard_exact:
  "first_collision (map (\<lambda>(kind, objs). (kind, map (object_name sha r kind) objs)) iv) = None \<longleftrightarrow>
     (\<forall>(kind, objs) \<in> set iv. distinct objs \<and> inj_on (object_name sha r kind) (set objs))"
  by (auto simp: first_collision_None distinct_map)

section \<open>Properties\<close>

text \<open>
  C39: Every sanitized name is a valid DNS-1035 label. For any input text and any suffix the
  templates append, the result matches the label pattern, has at most 63 characters and ends in
  that suffix. Nothing is lost without need: a name that already is a label and fits in 63
  characters together with the suffix is kept to the letter, whatever its length, so sanitizing
  again changes nothing.
\<close>

theorem sanitized_name_valid:
  assumes "template_suffix sfx"
  shows "matches DNS_1035_LABEL_RE (sanitizeK8sName name sfx) \<and> length (sanitizeK8sName name sfx) \<le> 63 \<and>
         suffix sfx (sanitizeK8sName name sfx) \<and>
         (matches DNS_1035_LABEL_RE name \<and> length name + length sfx \<le> 63 \<longrightarrow> sanitizeK8sName name sfx = name @ sfx) \<and>
         sanitizeK8sName (sanitizeK8sName name sfx) [] = sanitizeK8sName name sfx"
proof -
  have m: "matches DNS_1035_LABEL_RE (sanitizeK8sName name sfx)" by (rule sanitized_is_label [OF assms])
  then have l: "length (sanitizeK8sName name sfx) \<le> 63" by (rule label_length)
  moreover have "suffix sfx (sanitizeK8sName name sfx)" by (auto simp: sanitizeK8sName_def suffix_def Let_def)
  ultimately show ?thesis using m label_kept [OF m, of "[]"] by (auto intro: label_kept)
qed

lemma long_pool_label: "matches DNS_1035_LABEL_RE (''pool-'' @ replicate 54 (CHR ''7''))"
  unfolding DNS_1035_LABEL_RE_def
  by (rule edge_label_intro) (simp_all add: ldh_def alnum_def lower_def dec_digit_def Let_def)

theorem sanitized_name_valid_witness:
  "matches DNS_1035_LABEL_RE (sanitizeK8sName ''9_Release/Pool'' ''-hpa'') \<and>
   sanitizeK8sName (''pool-'' @ replicate 54 (CHR ''7'')) ''-hpa'' = ''pool-'' @ replicate 54 (CHR ''7'') @ ''-hpa''"
proof -
  have s: "template_suffix ''-hpa''"
    by (simp add: template_suffix_def ldh_def alnum_def lower_def dec_digit_def Let_def)
  have "length (''pool-'' @ replicate 54 (CHR ''7'')) + length ''-hpa'' \<le> 63" by simp
  then show ?thesis
    using sanitized_name_valid [OF s, of "''9_Release/Pool''"]
      sanitized_name_valid [OF s, of "''pool-'' @ replicate 54 (CHR ''7'')"] long_pool_label append_assoc by metis
qed

text \<open>
  The emission guard is exact. It accepts a release, its pools and build ids if and only if, in
  each kind (Deployments and Services, autoscalers, health-check policies, ConfigMaps), no two
  different objects the chart emits share a name and none is emitted twice. This covers a pool's
  versioned name meeting another pool's stable name or the routing tier's.
\<close>

theorem collision_guard_exact:
  "findEmittedNameCollision sha r pools buildIds = None \<longleftrightarrow>
     (\<forall>(kind, objs) \<in> set (inventory (all_builds pools buildIds) pools (concat (map (\<lambda>b. [Snapshot b, Plan b]) buildIds))).
        distinct objs \<and> inj_on (object_name sha r kind) (set objs))"
  unfolding findEmittedNameCollision_def buckets_inventory(1) by (rule guard_exact)

lemma sanitize_same: "sanitizeK8sName (''nextjs-'' @ ''api'' @ ''-'' @ ''v2'') [] = sanitizeK8sName (''nextjs-'' @ ''api-v2'') []"
  by simp

theorem collision_guard_exact_witness:
  "findEmittedNameCollision (\<lambda>_. ''0123456789abcdef'') ''nextjs'' [''api'', ''api-v2''] [''v2''] \<noteq> None"
proof
  let ?sha = "\<lambda>_. ''0123456789abcdef''"
  let ?objs = "versioned_objects (all_builds [''api'', ''api-v2''] [''v2'']) @ map Stable [''api'', ''api-v2''] @ [Routing]"
  assume "findEmittedNameCollision ?sha ''nextjs'' [''api'', ''api-v2''] [''v2''] = None"
  then have "\<forall>(kind, objs) \<in> set (inventory (all_builds [''api'', ''api-v2''] [''v2'']) [''api'', ''api-v2'']
      (concat (map (\<lambda>b. [Snapshot b, Plan b]) [''v2'']))). distinct objs \<and> inj_on (object_name ?sha ''nextjs'' kind) (set objs)"
    by (simp only: collision_guard_exact)
  moreover have "(''Deployment/Service'', ?objs) \<in> set (inventory (all_builds [''api'', ''api-v2''] [''v2'']) [''api'', ''api-v2'']
      (concat (map (\<lambda>b. [Snapshot b, Plan b]) [''v2''])))"
    by (simp add: inventory_def)
  ultimately have "inj_on (object_name ?sha ''nextjs'' ''Deployment/Service'') (set ?objs)" by fastforce
  moreover have "object_name ?sha ''nextjs'' ''Deployment/Service'' (Versioned ''api'' ''v2'') =
      object_name ?sha ''nextjs'' ''Deployment/Service'' (Stable ''api-v2'')"
    by (simp add: poolResourceNames_def Let_def)
  ultimately show False
    unfolding inj_on_def by (simp add: versioned_objects_def all_builds_def)
qed

text \<open>
  Truncation never eats the build digest. Two builds of a release get the same snapshot
  ConfigMap name only if the first eight hexadecimal digits of their digests agree, however long
  the release name and the build ids are.
\<close>

theorem snapshot_name_keeps_digest:
  assumes "\<And>b. length (sha b) = 64"
    and "routingManifestSnapshotName sha r a = routingManifestSnapshotName sha r' b"
  shows "take 8 (sha a) = take 8 (sha b)"
proof -
  have sl: "js_slice (sha x) 0 8 = take 8 (sha x)" for x by simp
  obtain u v where "u @ ''-'' @ take 8 (sha a) = v @ ''-'' @ take 8 (sha b)"
    using assms(2) unfolding routingManifestSnapshotName_def sanitizeK8sName_def Let_def sl by blast
  then show ?thesis using assms(1) by (auto simp: append_eq_append_conv)
qed

theorem snapshot_name_keeps_digest_witness:
  "routingManifestSnapshotName (\<lambda>b. replicate 64 (if b = ''x'' then CHR ''0'' else CHR ''1'')) ''r'' ''x'' \<noteq>
   routingManifestSnapshotName (\<lambda>b. replicate 64 (if b = ''x'' then CHR ''0'' else CHR ''1'')) ''r'' ''y''"
  using snapshot_name_keeps_digest [of "\<lambda>b. replicate 64 (if b = ''x'' then CHR ''0'' else CHR ''1'')" "''r''" "''x''" "''r''" "''y''"]
  by auto

text \<open>
  The composition-plan ConfigMap has no digest: with a 40-character release only ten characters of
  the build id survive, so two builds that differ after them collide, and the guard refuses them
  although their Deployments do not.
\<close>

lemma sanitize_truncates:
  assumes "take 63 a = take 63 b"
  shows "sanitizeK8sName a [] = sanitizeK8sName b []"
proof -
  let ?s = "\<lambda>x. map hyphenate (js_lower x)"
  have t: "take 63 (?s a) = take 63 (?s b)" using assms by (simp add: js_lower_def take_map)
  have "take 61 (take 63 (?s a)) = take 61 (take 63 (?s b))" by (simp only: t)
  then have t': "take 61 (?s a) = take 61 (?s b)" by simp
  have "?s a \<noteq> [] \<and> lower (hd (?s a)) \<longleftrightarrow> ?s b \<noteq> [] \<and> lower (hd (?s b))"
    using t by (cases "?s a"; cases "?s b") auto
  then have "sanitized_body a 63 = sanitized_body b 63"
    using t t' by (auto simp: sanitized_body_def Let_def)
  then show ?thesis by (simp add: sanitize_body)
qed

theorem plan_names_collide:
  "compositionPlanResourceName (replicate 40 CHR ''r'') ''20260801-1200'' =
   compositionPlanResourceName (replicate 40 CHR ''r'') ''20260801-1315''"
  unfolding compositionPlanResourceName_def by (rule sanitize_truncates) (simp add: take_append)

end
