(* ===== verification/Decimal.thy ===== *)
theory Decimal
  imports Names
begin

text \<open>
  Decimal, hexadecimal and UTF-8 texts: \<open>String(n)\<close> of a natural number and its inverse, Node's
  \<open>toString("hex")\<close> and \<open>Buffer.from(s, "hex")\<close>, and the UTF-8 encoding of a string of code units
  below 256. Bytes are characters.
\<close>

section \<open>Decimal\<close>

fun dec_value :: "string \<Rightarrow> nat" where
  "dec_value ds = foldl (\<lambda>n c. 10 * n + (of_char c - 48)) 0 ds"

lemma nat_dec_digits: "\<forall>c \<in> set (nat_dec n). dec_digit c"
  by (induction n rule: nat_dec.induct) (subst nat_dec.simps, auto simp: dec_digit_def)

lemma nat_dec_ne [simp]: "nat_dec n \<noteq> []"
  by (subst nat_dec.simps) simp

lemma nat_dec_value: "dec_value (nat_dec n) = n"
proof (induction n rule: nat_dec.induct)
  case (1 n)
  then show ?case by (cases "n < 10") (simp_all add: nat_dec.simps [of n])
qed

lemma length_nat_dec: "n < 10 ^ k \<Longrightarrow> 0 < k \<Longrightarrow> length (nat_dec n) \<le> k"
proof (induction n arbitrary: k rule: nat_dec.induct)
  case (1 n)
  show ?case
  proof (cases "n < 10")
    case False
    have "k \<noteq> 1" using False 1(2) by auto
    then obtain j where j: "k = Suc j" "0 < j" using 1(3) by (metis One_nat_def Suc_pred gr0I)
    then have "n div 10 < 10 ^ j" using 1(2) by (simp add: less_mult_imp_div_less)
    then show ?thesis using 1(1) [OF False _ j(2)] False j by (simp add: nat_dec.simps [of n])
  qed (use 1(3) in \<open>simp add: nat_dec.simps [of n]\<close>)
qed

lemma nat_dec_inj [simp]: "nat_dec m = nat_dec n \<longleftrightarrow> m = n"
  by (metis nat_dec_value)

lemma nat_dec_no: "\<not> dec_digit c \<Longrightarrow> c \<notin> set (nat_dec n)"
  using nat_dec_digits by blast

section \<open>Hexadecimal\<close>

definition nibble :: "nat \<Rightarrow> char" where
  "nibble n = char_of (if n < 10 then 48 + n else 87 + n)"

definition nibble_value :: "char \<Rightarrow> nat" where
  "nibble_value c = (let n = (of_char c :: nat) in if n < 58 then n - 48 else n - 87)"

primrec to_hex :: "string \<Rightarrow> string" where
  "to_hex [] = []"
| "to_hex (c # s) = nibble (of_char c div 16) # nibble (of_char c mod 16) # to_hex s"

fun from_hex :: "string \<Rightarrow> string" where
  "from_hex (a # b # s) = char_of (16 * nibble_value a + nibble_value b) # from_hex s"
| "from_hex _ = []"

definition hex_lower :: "char \<Rightarrow> bool" where
  "hex_lower c = (let n = (of_char c :: nat) in dec_digit c \<or> 97 \<le> n \<and> n \<le> 102)"

lemma of_char_nibble: "n < 16 \<Longrightarrow> of_char (nibble n) = (if n < 10 then 48 + n else 87 + n)"
  by (simp add: nibble_def)

lemma nibble_value_nibble [simp]: "n < 16 \<Longrightarrow> nibble_value (nibble n) = n"
  by (simp add: nibble_value_def of_char_nibble Let_def)

lemma nibble_hex: "n < 16 \<Longrightarrow> hex_lower (nibble n)"
  by (simp add: hex_lower_def of_char_nibble dec_digit_def Let_def)

lemma from_to_hex [simp]: "from_hex (to_hex s) = s"
  by (induction s) (simp_all add: of_char_mod_256 less_mult_imp_div_less)

lemma to_hex_inj [simp]: "to_hex s = to_hex t \<longleftrightarrow> s = t"
  by (metis from_to_hex)

lemma length_to_hex [simp]: "length (to_hex s) = 2 * length s"
  by (induction s) simp_all

lemma to_hex_chars: "\<forall>c \<in> set (to_hex s). hex_lower c"
  by (induction s) (simp_all add: nibble_hex less_mult_imp_div_less)

section \<open>UTF-8\<close>

definition utf8_char :: "char \<Rightarrow> string" where
  "utf8_char c = (let n = (of_char c :: nat) in if n < 128 then [c] else [char_of (192 + n div 64), char_of (128 + n mod 64)])"

definition utf8 :: "string \<Rightarrow> string" where
  "utf8 s = concat (map utf8_char s)"

lemma of_char_small: "n < 256 \<Longrightarrow> of_char (char_of n) = (n :: nat)"
  by simp

lemma utf8_char_step: "utf8_char c @ u = utf8_char d @ v \<longleftrightarrow> c = d \<and> u = v"
proof -
  let ?m = "of_char c :: nat" and ?n = "of_char d :: nat"
  have lt: "?m < 256" "?n < 256" using of_char_mod_256 by simp_all
  then have q: "192 + ?m div 64 < 256" "192 + ?n div 64 < 256" "128 + ?m mod 64 < 256" "128 + ?n mod 64 < 256" by linarith+
  have hi: "x \<noteq> char_of (192 + k div 64)" if "(of_char x :: nat) < 128" "k < 256" for x and k :: nat
    using that of_char_small [of "192 + k div 64"] by fastforce
  show ?thesis
  proof (cases "?m < 128 \<or> ?n < 128")
    case True
    then show ?thesis using hi [of c ?n] hi [of d ?m] lt by (auto simp: utf8_char_def Let_def)
  next
    case False
    have "char_of (192 + ?m div 64) = char_of (192 + ?n div 64) \<and> char_of (128 + ?m mod 64) = char_of (128 + ?n mod 64)
        \<longleftrightarrow> ?m div 64 = ?n div 64 \<and> ?m mod 64 = ?n mod 64"
      using of_char_small [OF q(1)] of_char_small [OF q(2)] of_char_small [OF q(3)] of_char_small [OF q(4)]
      by (metis add_left_cancel)
    also have "\<dots> \<longleftrightarrow> c = d" by (metis div_mult_mod_eq of_char_eq_iff)
    finally show ?thesis using False by (auto simp: utf8_char_def Let_def)
  qed
qed

lemma utf8_inj [simp]: "utf8 s = utf8 t \<longleftrightarrow> s = t"
proof (induction s arbitrary: t)
  case Nil
  then show ?case by (cases t) (simp_all add: utf8_def utf8_char_def Let_def)
next
  case (Cons c s)
  show ?case
  proof (cases t)
    case Nil
    then show ?thesis by (simp add: utf8_def utf8_char_def Let_def)
  next
    case (Cons d t')
    then show ?thesis using Cons.IH [of t'] utf8_char_step by (simp add: utf8_def)
  qed
qed

section \<open>Property order\<close>

text \<open>A JavaScript object lists the keys that are array indices first, ascending, then the others as they came.\<close>

definition array_index :: "string \<Rightarrow> bool" where
  "array_index s = (s \<noteq> [] \<and> list_all dec_digit s \<and> (s = ''0'' \<or> hd s \<noteq> CHR ''0'') \<and> dec_value s < 4294967295)"

definition obj_entries :: "(string \<times> 'v) list \<Rightarrow> (string \<times> 'v) list" where
  "obj_entries m = sort_key (dec_value \<circ> fst) (filter (array_index \<circ> fst) m) @ filter (Not \<circ> array_index \<circ> fst) m"

end
