(* ===== verification/IncrementalCache.thy ===== *)
theory IncrementalCache
  imports TagManifest Decimal
begin

text \<open>
  \<^verbatim>\<open>src/pool-server/valkey-cache/incremental-cache-handler.ts\<close>: the shared store of prerendered
  pages, route responses and fetch results. The values a call reads (the entry, the companion
  fetch tags, the tag states, the clock, the build seed) are the fields of an environment; each
  may be a failure, and every failure is a miss. What a call writes is part of its result.
\<close>

section \<open>Bounding the tag list\<close>

definition MAX_TAG_BYTES_PER_ENTRY :: nat where "MAX_TAG_BYTES_PER_ENTRY = 64 * 1024"
definition MAX_ROOT_PARAM_TAGS :: nat where "MAX_ROOT_PARAM_TAGS = 256"
definition RETENTION_MARGIN_SECONDS :: rat where "RETENTION_MARGIN_SECONDS = 60"
definition DURABLE_TTL_SECONDS :: rat where "DURABLE_TTL_SECONDS = 30 * 24 * 60 * 60"

definition tagCostBytes :: "string \<Rightarrow> nat" where
  "tagCostBytes tag = utf8_length tag + 1"

fun cap_wellformed :: "nat \<Rightarrow> string list \<Rightarrow> string list" where
  "cap_wellformed rootParamCount [] = []"
| "cap_wellformed rootParamCount (tag # raw) =
     (if tag = [] then cap_wellformed rootParamCount raw
      else if length tag > maxTagLength tag then cap_wellformed rootParamCount raw
      else if isRootParamTag tag then
        (if Suc rootParamCount > MAX_ROOT_PARAM_TAGS then cap_wellformed (Suc rootParamCount) raw
         else tag # cap_wellformed (Suc rootParamCount) raw)
      else tag # cap_wellformed rootParamCount raw)"

fun cap_spend :: "nat \<Rightarrow> string list \<Rightarrow> string list" where
  "cap_spend budget [] = []"
| "cap_spend budget (tag # tags) =
     (if isRootParamTag tag then tag # cap_spend budget tags
      else if tagCostBytes tag > budget then cap_spend budget tags
      else tag # cap_spend (budget - tagCostBytes tag) tags)"

definition reserved_bytes :: "string list \<Rightarrow> nat" where
  "reserved_bytes tags = sum_list (map tagCostBytes (filter isRootParamTag tags))"

definition capTags :: "string list \<Rightarrow> string list" where
  "capTags raw =
     (let wellFormed = cap_wellformed 0 raw;
          reservedBytes = reserved_bytes wellFormed;
          budget = (if reservedBytes > MAX_TAG_BYTES_PER_ENTRY then reservedBytes else MAX_TAG_BYTES_PER_ENTRY)
      in cap_spend (budget - reservedBytes) wellFormed)"

section \<open>The keyspace\<close>

definition safe_id_char :: "char \<Rightarrow> bool" where
  "safe_id_char c =
     (let n = (of_char c :: nat)
      in (48 \<le> n \<and> n \<le> 57) \<or> (65 \<le> n \<and> n \<le> 90) \<or> (97 \<le> n \<and> n \<le> 122) \<or> c = CHR ''_'' \<or> c = CHR ''.'' \<or> c = CHR ''-'')"

definition SAFE_BUILD_ID :: rexp where
  "SAFE_BUILD_ID = Rep 1 128 (Cls safe_id_char)"

datatype keyspace_error = UnsafeBuildId

definition assertSafeBuildId :: "string \<Rightarrow> (keyspace_error, unit) res" where
  "assertSafeBuildId buildId = (if matches SAFE_BUILD_ID buildId then Inr () else Inl UnsafeBuildId)"

definition key_prefix :: "string \<Rightarrow> string" where
  "key_prefix buildId = ''k8s:'' @ buildId @ '':''"

definition tagsKey :: "string \<Rightarrow> string" where
  "tagsKey buildId = key_prefix buildId @ ''tags''"

definition entryKey :: "string \<Rightarrow> string \<Rightarrow> string" where
  "entryKey buildId cacheKey = key_prefix buildId @ ''inc:'' @ cacheKey"

definition fetchTagsKey :: "string \<Rightarrow> string \<Rightarrow> string" where
  "fetchTagsKey buildId cacheKey = key_prefix buildId @ ''inc-fetch-tags:'' @ cacheKey"

section \<open>Stored entries\<close>

record stored_entry =
  se_value :: json
  se_tags :: "string list"
  se_lastModified :: rat
  se_ttlSeconds :: rat
  se_revalidateSeconds :: lifetime
  se_expireSeconds :: "rat option"

definition parseStoredEntry :: "raw_json \<Rightarrow> stored_entry option" where
  "parseStoredEntry raw =
     (case raw of
        Some (JObj e) \<Rightarrow>
          (case (finite_number (map_of e ''lastModified''), map_of e ''tags'',
                 finite_number (map_of e ''ttlSeconds''), map_of e ''value'') of
             (Some lm, Some (JArr ts), Some ttl, Some v) \<Rightarrow>
               (case all_strings ts of
                  None \<Rightarrow> None
                | Some tags \<Rightarrow>
                    if ttl \<le> 0 then None
                    else Some \<lparr>se_value = v, se_tags = tags, se_lastModified = lm, se_ttlSeconds = ttl,
                               se_revalidateSeconds =
                                 (case map_of e ''revalidateSeconds'' of
                                    Some (JBool False) \<Rightarrow> Never
                                  | Some (JNum q) \<Rightarrow> Secs q
                                  | _ \<Rightarrow> Absent),
                               se_expireSeconds = finite_number (map_of e ''expireSeconds'')\<rparr>)
           | _ \<Rightarrow> None)
      | _ \<Rightarrow> None)"

text \<open>
  The timestamp reported for an entry that a profiled revalidation made stale: just past its
  revalidate window when that can be expressed, and \<open>- 1\<close> otherwise. A read passes \<open>None\<close> for a
  window that is not a number; Next's windows are finite, and so are the stored ones.
\<close>

fun seconds :: "lifetime \<Rightarrow> rat option" where
  "seconds (Secs r) = Some r"
| "seconds _ = None"

definition staleByTagLastModified :: "rat option \<Rightarrow> rat option \<Rightarrow> rat \<Rightarrow> rat option \<Rightarrow> bool \<Rightarrow> rat" where
  "staleByTagLastModified revalidateSeconds expireSeconds now currentRevalidate allowNegative =
     (let revalidate = (case currentRevalidate of None \<Rightarrow> revalidateSeconds | Some r \<Rightarrow> Some r)
      in case revalidate of
           Some r \<Rightarrow>
             (let shifted = now - r * 1000 - 1000
              in if shifted \<le> 0 \<and> \<not> allowNegative then - 1
                 else case expireSeconds of
                        Some ex \<Rightarrow> if \<not> allowNegative \<and> ex * 1000 + shifted < now then - 1 else shifted
                      | None \<Rightarrow> shifted)
         | None \<Rightarrow> - 1)"

section \<open>Values\<close>

text \<open>
  A cached value is \<open>null\<close> or another plain JSON value, or an object whose members are JSON,
  buffers or a \<open>Map\<close> of buffers. \<open>to_b64\<close> is \<open>toString("base64")\<close>, \<open>from_b64\<close> is
  \<open>Buffer.from(x, "base64")\<close>, which may throw; both are Node's.
\<close>

datatype cfield = CJson json | CBuf string | CSeg "(string \<times> string) list"

datatype cvalue = CPlain json | CObj "(string \<times> cfield) list"

definition buffer_json :: "string \<Rightarrow> json" where
  "buffer_json b = JObj [(''type'', JStr ''Buffer''), (''data'', JArr (map (\<lambda>c. JNum (of_nat (of_char c))) b))]"

definition buffer_members :: "string list" where
  "buffer_members = [''rscData'', ''body'', ''buffer'']"

text \<open>
  The object built from a segment map by assignments \<open>seg[k] = ...\<close>: assigning a string to
  \<^verbatim>\<open>__proto__\<close> creates no member, and array indices are listed first.
\<close>

definition segment_object :: "(string \<Rightarrow> string) \<Rightarrow> (string \<times> string) list \<Rightarrow> (string \<times> json) list" where
  "segment_object to_b64 m =
     obj_entries (map (\<lambda>(k, v). (k, JStr (to_b64 v))) (filter (\<lambda>(k, _). k \<noteq> ''__proto__'') m))"

definition encode_member :: "(string \<Rightarrow> string) \<Rightarrow> string \<Rightarrow> cfield \<Rightarrow> json" where
  "encode_member to_b64 k f =
     (case f of
        CJson j \<Rightarrow> j
      | CBuf b \<Rightarrow> if k \<in> set buffer_members then JObj [(''__b64'', JStr (to_b64 b))] else buffer_json b
      | CSeg m \<Rightarrow> if k = ''segmentData'' then JObj [(''__segmap'', JObj (segment_object to_b64 m))]
                  else JObj [])"

fun encodeValue :: "(string \<Rightarrow> string) \<Rightarrow> cvalue \<Rightarrow> json" where
  "encodeValue to_b64 (CPlain j) = j"
| "encodeValue to_b64 (CObj ms) = JObj (map (\<lambda>(k, f). (k, encode_member to_b64 k f)) ms)"

text \<open>What a value is after \<open>JSON.stringify\<close>: an infinite number is written as \<open>null\<close>, at any depth.\<close>

fun written :: "json \<Rightarrow> json" where
  "written JHuge = JNull"
| "written (JArr xs) = JArr (map written xs)"
| "written (JObj ms) = JObj (map (\<lambda>(k, j). (k, written j)) ms)"
| "written j = j"

fun decode_segments :: "(json \<Rightarrow> string option) \<Rightarrow> (string \<times> json) list \<Rightarrow> (string \<times> string) list option" where
  "decode_segments from_b64 [] = Some []"
| "decode_segments from_b64 ((k, j) # es) =
     (case (from_b64 j, decode_segments from_b64 es) of (Some b, Some m) \<Rightarrow> Some ((k, b) # m) | _ \<Rightarrow> None)"

definition decode_member :: "(json \<Rightarrow> string option) \<Rightarrow> string \<Rightarrow> json \<Rightarrow> cfield option" where
  "decode_member from_b64 k j =
     (if k \<in> set buffer_members then
        (case jget j ''__b64'' of None \<Rightarrow> Some (CJson j) | Some x \<Rightarrow> map_option CBuf (from_b64 x))
      else if k = ''segmentData'' then
        (case jget j ''__segmap'' of
           None \<Rightarrow> Some (CJson j)
         | Some seg \<Rightarrow>
             (case object_entries seg of
                None \<Rightarrow> None
              | Some es \<Rightarrow> map_option CSeg (decode_segments from_b64 es)))
      else Some (CJson j))"

fun decode_members :: "(json \<Rightarrow> string option) \<Rightarrow> (string \<times> json) list \<Rightarrow> (string \<times> cfield) list option" where
  "decode_members from_b64 [] = Some []"
| "decode_members from_b64 ((k, j) # ms) =
     (case (decode_member from_b64 k j, decode_members from_b64 ms) of
        (Some f, Some fs) \<Rightarrow> Some ((k, f) # fs) | _ \<Rightarrow> None)"

fun decodeValue :: "(json \<Rightarrow> string option) \<Rightarrow> json \<Rightarrow> cvalue option" where
  "decodeValue from_b64 (JObj ms) = map_option CObj (decode_members from_b64 ms)"
| "decodeValue from_b64 (JArr xs) =
     Some (CObj (map (\<lambda>(k, j). (k, CJson j)) (zip (map nat_dec [0..<length xs]) xs)))"
| "decodeValue from_b64 j = Some (CPlain j)"

text \<open>Members of a value, and the tags it carries.\<close>

fun cmember :: "cvalue \<Rightarrow> string \<Rightarrow> json option" where
  "cmember (CObj ms) k = (case map_of ms k of Some (CJson j) \<Rightarrow> Some j | _ \<Rightarrow> None)"
| "cmember (CPlain j) k = None"

definition tagsFromFetchValue :: "cvalue \<Rightarrow> string list" where
  "tagsFromFetchValue v =
     (case cmember v ''tags'' of
        Some (JArr js) \<Rightarrow> capTags (List.map_filter (\<lambda>j. is_string (Some j)) js)
      | _ \<Rightarrow> [])"

definition split_tags :: "string \<Rightarrow> string list" where
  "split_tags h = filter (\<lambda>t. t \<noteq> []) (map js_trim (js_split (CHR '','') h))"

record set_ctx =
  sc_tags :: "string list option"
  sc_revalidate :: lifetime
  sc_cc_revalidate :: lifetime
  sc_cc_expire :: lifetime

definition extractTags :: "cvalue \<Rightarrow> set_ctx \<Rightarrow> string list option" where
  "extractTags v ctx =
     (case sc_tags ctx of
        Some (t # ts) \<Rightarrow> Some (capTags (t # ts))
      | _ \<Rightarrow>
          (case Option.bind (cmember v ''headers'') (\<lambda>h. jget h ''x-next-cache-tags'') of
             Some (JStr h) \<Rightarrow> Some (capTags (split_tags h))
           | Some (JArr hs) \<Rightarrow>
               map_option (\<lambda>ss. capTags (concat (map split_tags ss))) (all_strings hs)
           | _ \<Rightarrow> Some (capTags [])))"

section \<open>Reading\<close>

datatype io_failure = Unavailable

record seed_entry =
  seed_lastModified :: rat
  seed_tags :: "string list"
  seed_value :: cvalue

record inc_env =
  r_entry :: "(io_failure, raw_json option) res"
  r_fetch_tags :: "(io_failure, raw_json option) res"
  r_manifest :: "string list \<Rightarrow> (io_failure, tag_manifest) res"
  r_clock :: "(io_failure, clock_sample) res"
  r_seed :: "(io_failure, seed_entry option) res"

record get_ctx =
  g_kind :: "string option"
  g_revalidate :: "rat option"
  g_softTags :: "string list option"
  g_tags :: "string list option"

record handler_value =
  hv_lastModified :: rat
  hv_value :: cvalue
  hv_isStale :: bool

type_synonym tag_write = "(string list \<times> rat) option"

definition read_tag_states :: "inc_env \<Rightarrow> string list \<Rightarrow> (io_failure, tag_manifest) res" where
  "read_tag_states env tags = (if tags = [] then Inr Map.empty else r_manifest env tags)"

text \<open>
  The companion tag list of a fetch entry: what the read leaves in the value, and the companion
  record it rewrites, if any.
\<close>

definition reconcileFetchTags ::
    "inc_env \<Rightarrow> cvalue \<Rightarrow> string list \<Rightarrow> string list option \<Rightarrow> rat \<Rightarrow> cvalue \<times> tag_write" where
  "reconcileFetchTags env v fallbackTags requestTags ttlSeconds =
     (case v of
        CPlain j \<Rightarrow> (CPlain j, None)
      | CObj ms \<Rightarrow>
          (let valueTags = tagsFromFetchValue v;
               stored0 = (if valueTags = [] then fallbackTags else valueTags);
               stored = (case r_fetch_tags env of
                           Inr (Some (Some (JArr js))) \<Rightarrow>
                             (case all_strings js of None \<Rightarrow> stored0 | Some ts \<Rightarrow> capTags ts)
                         | _ \<Rightarrow> stored0)
           in case map_option capTags requestTags of
                Some current \<Rightarrow>
                  if \<not> set current \<subseteq> set stored
                  then (CObj (jsmap_set ''tags'' (CJson (JArr (map JStr current))) ms),
                        Some (current, max 1 (of_int \<lceil>ttlSeconds\<rceil>)))
                  else (CObj (jsmap_set ''tags'' (CJson (JArr (map JStr stored))) ms), None)
              | None \<Rightarrow> (CObj (jsmap_set ''tags'' (CJson (JArr (map JStr stored))) ms), None)))"

definition is_fetch :: "get_ctx \<Rightarrow> bool" where
  "is_fetch ctx = (g_kind ctx = Some ''FETCH'')"

definition opt_list :: "'a list option \<Rightarrow> 'a list" where
  "opt_list xs = (case xs of None \<Rightarrow> [] | Some ys \<Rightarrow> ys)"

definition freshness_tags :: "get_ctx \<Rightarrow> string list \<Rightarrow> string list" where
  "freshness_tags ctx own =
     (if is_fetch ctx then capTags (opt_list (g_tags ctx)) @ capTags (opt_list (g_softTags ctx))
      else own @ opt_list (case g_softTags ctx of None \<Rightarrow> g_tags ctx | Some s \<Rightarrow> Some s))"

definition stale_by_age :: "rat \<Rightarrow> rat \<Rightarrow> rat option \<Rightarrow> bool" where
  "stale_by_age now lastModified revalidate =
     (case revalidate of None \<Rightarrow> False | Some r \<Rightarrow> now \<ge> lastModified + r * 1000)"

definition fetch_window :: "get_ctx \<Rightarrow> rat option \<Rightarrow> rat option" where
  "fetch_window ctx own =
     (if is_fetch ctx then (case g_revalidate ctx of None \<Rightarrow> own | Some r \<Rightarrow> Some r) else own)"

definition seedFallback :: "inc_env \<Rightarrow> get_ctx \<Rightarrow> bool \<Rightarrow> handler_value option \<times> tag_write" where
  "seedFallback env ctx peek =
     (case r_seed env of
        Inr (Some seed) \<Rightarrow>
          (let (v, w) = (if is_fetch ctx
                         then reconcileFetchTags env (seed_value seed) (seed_tags seed) (g_tags ctx) DURABLE_TTL_SECONDS
                         else (seed_value seed, None));
               tags = freshness_tags ctx (seed_tags seed)
           in case (read_tag_states env tags, r_clock env) of
                (Inr manifest, Inr clock) \<Rightarrow>
                  if areTagsExpired tags 0 manifest (serverNow clock) then (None, w)
                  else
                    (let staleByTag = areTagsStale tags 0 manifest;
                         seedRevalidate =
                           (if is_fetch ctx then finite_number (cmember (seed_value seed) ''revalidate'') else None);
                         staleByAge = stale_by_age (localNow clock) (seed_lastModified seed) (fetch_window ctx seedRevalidate)
                     in if peek then
                          (Some \<lparr>hv_lastModified = seed_lastModified seed, hv_value = v,
                                 hv_isStale = (staleByTag \<or> staleByAge)\<rparr>, w)
                        else
                          (Some \<lparr>hv_lastModified =
                                   (if staleByTag \<or> (is_fetch ctx \<and> staleByAge)
                                    then staleByTagLastModified seedRevalidate None (localNow clock) (g_revalidate ctx) (is_fetch ctx)
                                    else seed_lastModified seed),
                                 hv_value = v, hv_isStale = False\<rparr>, w))
              | _ \<Rightarrow> (None, w))
      | _ \<Rightarrow> (None, None))"

definition getImpl ::
    "(json \<Rightarrow> string option) \<Rightarrow> inc_env \<Rightarrow> get_ctx \<Rightarrow> bool \<Rightarrow> bool \<Rightarrow> handler_value option \<times> tag_write" where
  "getImpl from_b64 env ctx skipSeed peek =
     (case r_entry env of
        Inl _ \<Rightarrow> (None, None)
      | Inr raw \<Rightarrow>
          (case Option.bind raw parseStoredEntry of
             None \<Rightarrow> if skipSeed then (None, None) else seedFallback env ctx peek
           | Some entry \<Rightarrow>
               (case decodeValue from_b64 (se_value entry) of
                  None \<Rightarrow> (None, None)
                | Some v0 \<Rightarrow>
                    (let (v, w) = (if is_fetch ctx
                                   then reconcileFetchTags env v0 (se_tags entry) (g_tags ctx) (se_ttlSeconds entry)
                                   else (v0, None));
                         tags = freshness_tags ctx (se_tags entry)
                     in case (read_tag_states env tags, r_clock env) of
                          (Inr manifest, Inr clock) \<Rightarrow>
                            if areTagsExpired tags (se_lastModified entry) manifest (serverNow clock) then (None, w)
                            else
                              (let staleByTag = areTagsStale tags (se_lastModified entry) manifest;
                                   staleByAge = stale_by_age (serverNow clock) (se_lastModified entry)
                                     (fetch_window ctx (seconds (se_revalidateSeconds entry)));
                                   localLastModified = toLocal clock (se_lastModified entry)
                               in if peek then
                                    (Some \<lparr>hv_lastModified = localLastModified, hv_value = v,
                                           hv_isStale = (staleByTag \<or> staleByAge)\<rparr>, w)
                                  else
                                    (Some \<lparr>hv_lastModified =
                                             (if staleByTag \<or> (is_fetch ctx \<and> staleByAge)
                                              then staleByTagLastModified (seconds (se_revalidateSeconds entry)) (se_expireSeconds entry)
                                                     (localNow clock) (g_revalidate ctx) (is_fetch ctx)
                                              else localLastModified),
                                           hv_value = v, hv_isStale = False\<rparr>, w))
                        | _ \<Rightarrow> (None, w)))))"

definition getStored where "getStored from_b64 env ctx = getImpl from_b64 env ctx True True"
definition getSeed where "getSeed env ctx = seedFallback env ctx True"
definition getPeek where "getPeek from_b64 env ctx = getImpl from_b64 env ctx False True"
definition get_entry where "get_entry from_b64 env ctx = getImpl from_b64 env ctx False False"

section \<open>Writing\<close>

text \<open>
  What \<open>set\<close> sends: the payload with the marker in place of the timestamp, its retention, and for
  fetch entries the companion tags. \<open>byte_size\<close> is the UTF-8 size of the serialised payload.
\<close>

definition SERVER_LAST_MODIFIED_MARKER :: string where
  "SERVER_LAST_MODIFIED_MARKER = ''__adapter_k8s_valkey_time__''"

record store_request =
  rq_payload :: json
  rq_ttlSeconds :: int
  rq_fetch_tags :: "string list option"

definition set_revalidate :: "cvalue \<Rightarrow> set_ctx \<Rightarrow> lifetime" where
  "set_revalidate data ctx =
     (let dataRevalidate = (if cmember data ''kind'' = Some (JStr ''FETCH'')
                            then lifetime_of_json (cmember data ''revalidate'') else Absent)
      in if is_number dataRevalidate then dataRevalidate
         else if is_number (sc_revalidate ctx) then sc_revalidate ctx
         else if is_number (sc_cc_revalidate ctx) then sc_cc_revalidate ctx
         else Absent)"

definition set_ttl :: "lifetime \<Rightarrow> lifetime \<Rightarrow> rat option" where
  "set_ttl revalidate expire =
     (if is_number revalidate \<or> is_number expire then
        (case js_max2 (if is_number revalidate then revalidate else Secs 0)
                (js_max2 (if is_number expire then expire else Secs 0) (Secs 1)) of
           Secs m \<Rightarrow> Some (m + RETENTION_MARGIN_SECONDS)
         | _ \<Rightarrow> None)
      else Some DURABLE_TTL_SECONDS)"

fun lifetime_json :: "lifetime \<Rightarrow> json" where
  "lifetime_json (Secs q) = JNum q"
| "lifetime_json Absent = JBool False"
| "lifetime_json Never = JBool False"
| "lifetime_json _ = JNull"

definition set_entry ::
    "(string \<Rightarrow> string) \<Rightarrow> (json \<Rightarrow> nat) \<Rightarrow> nat \<Rightarrow> cvalue \<Rightarrow> set_ctx \<Rightarrow> store_request option" where
  "set_entry to_b64 byte_size maxBytes data ctx =
     (case extractTags data ctx of
        None \<Rightarrow> None
      | Some tags \<Rightarrow>
          (let revalidate = set_revalidate data ctx
           in case set_ttl revalidate (sc_cc_expire ctx) of
                None \<Rightarrow> None
              | Some ttlSeconds \<Rightarrow>
                  (let ttl = \<lceil>ttlSeconds\<rceil>;
                       payload = JObj ([(''lastModified'', JStr SERVER_LAST_MODIFIED_MARKER),
                                        (''value'', written (encodeValue to_b64 data)),
                                        (''tags'', JArr (map JStr tags)),
                                        (''ttlSeconds'', JNum (of_int ttl)),
                                        (''revalidateSeconds'', lifetime_json revalidate)] @
                                       jmember ''expireSeconds''
                                         (if is_number (sc_cc_expire ctx) then Some (lifetime_json (sc_cc_expire ctx)) else None));
                       valueTags = tagsFromFetchValue data
                   in if byte_size payload > maxBytes then None
                      else Some \<lparr>rq_payload = payload, rq_ttlSeconds = ttl,
                                 rq_fetch_tags =
                                   (if cmember data ''kind'' = Some (JStr ''FETCH'')
                                    then Some (case sc_tags ctx of
                                                 Some ts \<Rightarrow> capTags ts
                                               | None \<Rightarrow> if valueTags \<noteq> [] then valueTags else tags)
                                    else None)\<rparr>)))"

text \<open>The store script: the payload stamped with the server time, its deadline, and the skew flag.\<close>

record stored_value =
  sv_json :: json
  sv_deadline :: rat

datatype script_error = MarkerMissing

definition STORE_INCREMENTAL_ENTRY_SCRIPT ::
    "rat \<Rightarrow> json \<Rightarrow> int \<Rightarrow> rat \<Rightarrow> (script_error, stored_value \<times> nat) res" where
  "STORE_INCREMENTAL_ENTRY_SCRIPT now payload ttlSeconds clientNow =
     (case payload of
        JObj ((k, v) # rest) \<Rightarrow>
          if k = ''lastModified'' \<and> v = JStr SERVER_LAST_MODIFIED_MARKER
          then Inr (\<lparr>sv_json = JObj ((''lastModified'', JNum now) # rest),
                     sv_deadline = now + of_int ttlSeconds * 1000\<rparr>,
                    if \<bar>now - clientNow\<bar> > MAX_CLOCK_SKEW_MS then 1 else 0)
          else Inl MarkerMissing
      | _ \<Rightarrow> Inl MarkerMissing)"

definition revalidateTag :: "string list \<Rightarrow> rat option option \<Rightarrow> rat \<Rightarrow> tag_call list" where
  "revalidateTag tags durations now = updateTags_calls tags durations now"


section \<open>Tag budgets\<close>

abbreviation storable :: "string \<Rightarrow> bool" where
  "storable tag \<equiv> tag \<noteq> [] \<and> length tag \<le> maxTagLength tag"

lemma cap_wellformed_subseq: "subseq (cap_wellformed n raw) raw"
  by (induction n raw rule: cap_wellformed.induct) auto

lemma cap_spend_subseq: "subseq (cap_spend b tags) tags"
  by (induction b tags rule: cap_spend.induct) auto

lemma cap_wellformed_storable: "t \<in> set (cap_wellformed n raw) \<Longrightarrow> storable t"
  by (induction n raw rule: cap_wellformed.induct) (auto split: if_splits)

lemma cap_wellformed_roots:
  "filter isRootParamTag (cap_wellformed n raw) =
     take (MAX_ROOT_PARAM_TAGS - n) (filter (\<lambda>t. isRootParamTag t \<and> storable t) raw)"
proof (induction n raw rule: cap_wellformed.induct)
  case (2 n tag raw)
  consider "\<not> storable tag" | "storable tag" "isRootParamTag tag" "n < MAX_ROOT_PARAM_TAGS"
    | "storable tag" "isRootParamTag tag" "\<not> n < MAX_ROOT_PARAM_TAGS" | "storable tag" "\<not> isRootParamTag tag"
    by blast
  then show ?case
  proof cases
    case 2: 2
    then have "MAX_ROOT_PARAM_TAGS - n = Suc (MAX_ROOT_PARAM_TAGS - Suc n)" by simp
    then show ?thesis using 2 "2.IH" by auto
  qed (use "2.IH" in auto)
qed simp

lemma cap_spend_roots: "filter isRootParamTag (cap_spend b tags) = filter isRootParamTag tags"
  by (induction b tags rule: cap_spend.induct) auto

lemma cap_spend_cost:
  "sum_list (map tagCostBytes (cap_spend b tags)) \<le> b + reserved_bytes tags"
  by (induction b tags rule: cap_spend.induct) (auto simp: reserved_bytes_def)

lemma capTags_storable: "t \<in> set (capTags raw) \<Longrightarrow> storable t"
  unfolding capTags_def Let_def
  using list_emb_set [OF cap_spend_subseq] cap_wellformed_storable by metis

lemma capTags_subset: "set (capTags raw) \<subseteq> set raw"
proof -
  have "subseq (capTags raw) raw"
    unfolding capTags_def Let_def using subseq_order.trans [OF cap_spend_subseq cap_wellformed_subseq] .
  then show ?thesis by (auto dest: list_emb_set)
qed

section \<open>Values and entries survive storage\<close>

text \<open>
  A value that can be told apart after serialisation: binary members only where the codec looks for
  them, no infinite number anywhere, and segments whose names an object keeps in the order of the map.
  Next's segment names begin with a slash.
\<close>

fun finite_json :: "json \<Rightarrow> bool" where
  "finite_json JHuge = False"
| "finite_json (JArr xs) = (\<forall>x \<in> set xs. finite_json x)"
| "finite_json (JObj ms) = (\<forall>m \<in> set ms. finite_json (snd m))"
| "finite_json j = True"

definition segment_key :: "string \<Rightarrow> bool" where
  "segment_key k = (k \<noteq> ''__proto__'' \<and> \<not> array_index k)"

definition codable_member :: "string \<times> cfield \<Rightarrow> bool" where
  "codable_member = (\<lambda>(k, f). case f of
      CJson j \<Rightarrow> finite_json j \<and> (k \<in> set buffer_members \<longrightarrow> jget j ''__b64'' = None) \<and>
        (k = ''segmentData'' \<longrightarrow> jget j ''__segmap'' = None)
    | CBuf _ \<Rightarrow> k \<in> set buffer_members
    | CSeg m \<Rightarrow> k = ''segmentData'' \<and> (\<forall>s \<in> set m. segment_key (fst s)))"

fun codable :: "cvalue \<Rightarrow> bool" where
  "codable (CObj ms) = (\<forall>m \<in> set ms. codable_member m)"
| "codable (CPlain (JObj _)) = False"
| "codable (CPlain (JArr _)) = False"
| "codable (CPlain j) = finite_json j"

lemma written_finite: "finite_json j \<Longrightarrow> written j = j"
  by (induction j rule: written.induct) (auto intro!: map_idI)

lemma segment_object_plain:
  assumes "\<forall>s \<in> set m. segment_key (fst s)"
  shows "segment_object to_b64 m = map (\<lambda>(k, v). (k, JStr (to_b64 v))) m"
proof -
  have "filter (\<lambda>(k, _). k \<noteq> ''__proto__'') m = m"
    using assms by (auto simp: filter_id_conv segment_key_def)
  moreover have "filter (array_index \<circ> fst) (map (\<lambda>(k, v). (k, JStr (to_b64 v))) m) = []"
    "filter (Not \<circ> array_index \<circ> fst) (map (\<lambda>(k, v). (k, JStr (to_b64 v))) m) = map (\<lambda>(k, v). (k, JStr (to_b64 v))) m"
    using assms by (auto simp: segment_key_def filter_empty_conv filter_id_conv)
  ultimately show ?thesis by (simp only: segment_object_def obj_entries_def) simp
qed

lemma decode_segments_enc:
  assumes "\<And>b. from_b64 (JStr (to_b64 b)) = Some b"
  shows "decode_segments from_b64 (map (\<lambda>(k, v). (k, JStr (to_b64 v))) m) = Some m"
  by (induction m) (auto simp: assms)

lemma written_encode_member:
  assumes "codable_member (k, f)"
  shows "written (encode_member to_b64 k f) = encode_member to_b64 k f"
proof (rule written_finite)
  show "finite_json (encode_member to_b64 k f)"
    using assms by (cases f) (auto simp: codable_member_def encode_member_def segment_object_plain)
qed

lemma decode_encode_member:
  assumes "\<And>b. from_b64 (JStr (to_b64 b)) = Some b" "codable_member (k, f)"
  shows "decode_member from_b64 k (written (encode_member to_b64 k f)) = Some f"
proof -
  have seg: "''segmentData'' \<notin> set buffer_members" by (simp add: buffer_members_def)
  show ?thesis
    unfolding written_encode_member [OF assms(2)] using assms(2) seg
    by (cases f)
      (simp_all add: codable_member_def encode_member_def decode_member_def assms(1) segment_object_plain
        decode_segments_enc [OF assms(1)])
qed

lemma decode_encode_members:
  assumes "\<And>b. from_b64 (JStr (to_b64 b)) = Some b" "\<forall>m \<in> set ms. codable_member m"
  shows "decode_members from_b64 (map (\<lambda>(k, f). (k, written (encode_member to_b64 k f))) ms) = Some ms"
  using assms(2) by (induction ms) (auto simp: decode_encode_member [OF assms(1)])

lemma decode_encode:
  assumes "\<And>b. from_b64 (JStr (to_b64 b)) = Some b" "codable v"
  shows "decodeValue from_b64 (written (encodeValue to_b64 v)) = Some v"
proof (cases v)
  case (CObj ms)
  have "written (encodeValue to_b64 v) = JObj (map (\<lambda>(k, f). (k, written (encode_member to_b64 k f))) ms)"
    by (simp add: CObj comp_def case_prod_beta)
  moreover have "decode_members from_b64 (map (\<lambda>(k, f). (k, written (encode_member to_b64 k f))) ms) = Some ms"
    using assms(2) CObj by (intro decode_encode_members assms(1)) auto
  ultimately show ?thesis using CObj by (simp only: decodeValue.simps) simp
next
  case (CPlain j)
  then show ?thesis using assms(2) by (cases j) auto
qed

text \<open>The two values outside that class which the codec changes silently.\<close>

lemma infinite_number_is_lost:
  "written (encodeValue to_b64 (CObj [(''status'', CJson JHuge)])) = JObj [(''status'', JNull)]"
  by (simp add: encode_member_def)

lemma proto_segment_is_lost: "segment_object to_b64 [(''__proto__'', b)] = []"
  by (simp add: segment_object_def obj_entries_def)

text \<open>The entry that the store script leaves for a request.\<close>

lemma set_ttl_pos: "set_ttl r e = Some ttl \<Longrightarrow> 61 \<le> ttl"
proof -
  have m: "\<exists>m. (js_max2 l (Secs 1) = Secs m \<and> 1 \<le> m) \<or> js_max2 l (Secs 1) = PosInf \<or> js_max2 l (Secs 1) = NotANumber"
    if "is_number l" for l using that by (cases l) auto
  have "js_max2 k l = Secs m \<Longrightarrow> (\<exists>x \<ge> 1. l = Secs x) \<or> l = PosInf \<or> l = NotANumber \<Longrightarrow> is_number k \<Longrightarrow> 1 \<le> m" for k l m
    by (cases k; cases l) auto
  moreover have "is_number (if is_number x then x else Secs 0)" for x by simp
  ultimately show "set_ttl r e = Some ttl \<Longrightarrow> 61 \<le> ttl"
    using m unfolding set_ttl_def RETENTION_MARGIN_SECONDS_def DURABLE_TTL_SECONDS_def
    by (fastforce split: if_splits lifetime.splits)
qed


lemma parse_stored:
  assumes "set_entry to_b64 byte_size maxBytes data ctx = Some rq"
    "STORE_INCREMENTAL_ENTRY_SCRIPT s (rq_payload rq) (rq_ttlSeconds rq) clientNow = Inr (sv, k)"
    "extractTags data ctx = Some tags"
  shows "\<exists>e. parseStoredEntry (Some (sv_json sv)) = Some e \<and> se_value e = written (encodeValue to_b64 data) \<and>
    se_tags e = tags \<and> se_lastModified e = s"
proof -
  obtain ttl where ttl: "set_ttl (set_revalidate data ctx) (sc_cc_expire ctx) = Some ttl"
    using assms(1,3) by (auto simp: set_entry_def Let_def split: option.splits)
  then have pos: "\<not> of_int \<lceil>ttl\<rceil> \<le> (0 :: rat)"
    using set_ttl_pos [OF ttl] by (auto simp: ceiling_le_zero)
  have "rq_payload rq = JObj ((''lastModified'', JStr SERVER_LAST_MODIFIED_MARKER) #
      (''value'', written (encodeValue to_b64 data)) # (''tags'', JArr (map JStr tags)) # (''ttlSeconds'', JNum (of_int \<lceil>ttl\<rceil>)) #
      (''revalidateSeconds'', lifetime_json (set_revalidate data ctx)) #
      jmember ''expireSeconds'' (if is_number (sc_cc_expire ctx) then Some (lifetime_json (sc_cc_expire ctx)) else None))"
    using assms(1,3) ttl by (auto simp: set_entry_def Let_def split: if_splits)
  then have "sv_json sv = JObj ((''lastModified'', JNum s) #
      (''value'', written (encodeValue to_b64 data)) # (''tags'', JArr (map JStr tags)) # (''ttlSeconds'', JNum (of_int \<lceil>ttl\<rceil>)) #
      (''revalidateSeconds'', lifetime_json (set_revalidate data ctx)) #
      jmember ''expireSeconds'' (if is_number (sc_cc_expire ctx) then Some (lifetime_json (sc_cc_expire ctx)) else None))"
    using assms(2) by (auto simp: STORE_INCREMENTAL_ENTRY_SCRIPT_def)
  then show ?thesis
    using pos by (simp add: parseStoredEntry_def)
qed

lemma no_watermark_fresh:
  assumes "\<forall>t \<in> set tags. \<forall>st. m t = Some st \<longrightarrow>
      (\<forall>x. ts_stale st = Some x \<or> ts_expired st = Some x \<longrightarrow> x \<le> ts)" "0 \<le> ts"
  shows "\<not> areTagsExpired tags ts m now" "\<not> areTagsStale tags ts m"
proof -
  have w: "x \<le> ts" if "t \<in> set tags" "watermark ts_stale m t = Some x \<or> watermark ts_expired m t = Some x" for t x
    using assms(1) that by (auto simp: watermark_def bind_eq_Some_conv)
  show "\<not> areTagsExpired tags ts m now"
    unfolding areTagsExpired_iff using w by (meson not_le)
  show "\<not> areTagsStale tags ts m"
    unfolding areTagsStale_iff using w assms(2) by (fastforce split: option.splits)
qed

lemma set_get:
  assumes "\<And>b. from_b64 (JStr (to_b64 b)) = Some b" and "codable data" and "0 \<le> s"
    and "set_entry to_b64 byte_size maxBytes data sctx = Some rq"
    and "STORE_INCREMENTAL_ENTRY_SCRIPT s (rq_payload rq) (rq_ttlSeconds rq) clientNow = Inr (sv, k)"
    and "extractTags data sctx = Some tags" and "g_kind ctx \<noteq> Some ''FETCH''"
    and "r_entry env = Inr (Some (Some (sv_json sv)))" and "r_clock env = Inr clock"
    and "r_manifest env = (\<lambda>ts. Inr (m |` set ts))"
    and "\<forall>t \<in> set (freshness_tags ctx tags). \<forall>st. m t = Some st \<longrightarrow>
          (\<forall>x. ts_stale st = Some x \<or> ts_expired st = Some x \<longrightarrow> x \<le> s)"
  shows "get_entry from_b64 env ctx =
    (Some \<lparr>hv_lastModified = toLocal clock s, hv_value = data, hv_isStale = False\<rparr>, None)"
proof -
  let ?tags = "freshness_tags ctx tags"
  obtain e where e: "parseStoredEntry (Some (sv_json sv)) = Some e" "se_value e = written (encodeValue to_b64 data)"
      "se_tags e = tags" "se_lastModified e = s"
    using parse_stored [OF assms(4,5,6)] by blast
  obtain mm where mm: "read_tag_states env ?tags = Inr mm" "\<And>t. t \<in> set ?tags \<Longrightarrow> mm t = m t"
    using assms(10) by (cases "?tags = []") (auto simp: read_tag_states_def)
  then have ok: "\<not> areTagsExpired ?tags s mm (serverNow clock)" "\<not> areTagsStale ?tags s mm"
    using no_watermark_fresh [of ?tags mm s] assms(3,11) by auto
  show ?thesis
    using e mm(1) ok assms(7-9) decode_encode [OF assms(1,2)]
    by (simp add: get_entry_def getImpl_def is_fetch_def)
qed


section \<open>Properties\<close>

text \<open>
  The stored tag list is bounded without losing what matters. It is a subsequence of the
  declared tags; its size on the wire is at most 64 KiB, or the size of the private root-parameter
  markers when they alone exceed that; and of those markers exactly the first 256 storable ones
  are kept, whatever else the list contains.
\<close>

theorem cap_tags_bounded:
  "subseq (capTags raw) raw \<and>
   sum_list (map tagCostBytes (capTags raw)) \<le> max 65536 (reserved_bytes (capTags raw)) \<and>
   filter isRootParamTag (capTags raw) = take 256 (filter (\<lambda>t. isRootParamTag t \<and> storable t) raw)"
proof (intro conjI)
  let ?w = "cap_wellformed 0 raw"
  have roots: "filter isRootParamTag (capTags raw) = filter isRootParamTag ?w"
    by (simp add: capTags_def Let_def cap_spend_roots)
  show "subseq (capTags raw) raw"
    unfolding capTags_def Let_def
    using subseq_order.trans [OF cap_spend_subseq cap_wellformed_subseq] .
  show "filter isRootParamTag (capTags raw) = take 256 (filter (\<lambda>t. isRootParamTag t \<and> storable t) raw)"
    unfolding roots cap_wellformed_roots by (simp add: MAX_ROOT_PARAM_TAGS_def)
  have "reserved_bytes (capTags raw) = reserved_bytes ?w"
    unfolding reserved_bytes_def roots ..
  moreover have "sum_list (map tagCostBytes (capTags raw)) \<le>
      ((if reserved_bytes ?w > MAX_TAG_BYTES_PER_ENTRY then reserved_bytes ?w else MAX_TAG_BYTES_PER_ENTRY) - reserved_bytes ?w)
       + reserved_bytes ?w"
    unfolding capTags_def Let_def by (rule cap_spend_cost)
  ultimately show "sum_list (map tagCostBytes (capTags raw)) \<le> max 65536 (reserved_bytes (capTags raw))"
    by (simp add: MAX_TAG_BYTES_PER_ENTRY_def split: if_splits)
qed

text \<open>
  C32: A stored page is read back unchanged, when its value is one that JSON carries (\<open>codable\<close>): no
  infinite number at any depth, binary members only under the names the codec knows, no plain member
  that looks like an encoded one, and no segment named \<^verbatim>\<open>__proto__\<close> or by an array index. What \<open>set\<close>
  sends, stamped by the store script at server time \<open>s\<close>, is then returned by a later read with the same
  value, buffers and segment map included, and the storage time translated to the reader's clock, as
  long as no watermark of its tags is newer than \<open>s\<close>. Base64 decoding is assumed to invert Node's encoding.
\<close>

theorem incremental_set_get:
  assumes "\<And>b. from_b64 (JStr (to_b64 b)) = Some b" and "codable data" and "0 \<le> s"
    and "set_entry to_b64 byte_size maxBytes data sctx = Some rq"
    and "STORE_INCREMENTAL_ENTRY_SCRIPT s (rq_payload rq) (rq_ttlSeconds rq) clientNow = Inr (sv, k)"
    and "extractTags data sctx = Some tags" and "g_kind ctx \<noteq> Some ''FETCH''"
    and "r_entry env = Inr (Some (Some (sv_json sv)))" and "r_clock env = Inr clock"
    and "r_manifest env = (\<lambda>ts. Inr (m |` set ts))"
    and "\<forall>t \<in> set (freshness_tags ctx tags). \<forall>st. m t = Some st \<longrightarrow>
          (\<forall>x. ts_stale st = Some x \<or> ts_expired st = Some x \<longrightarrow> x \<le> s)"
  shows "get_entry from_b64 env ctx =
    (Some \<lparr>hv_lastModified = toLocal clock s, hv_value = data, hv_isStale = False\<rparr>, None)"
  using assms by (rule set_get)

definition b64_tag :: "string \<Rightarrow> string" where "b64_tag b = ''b'' @ b"

fun b64_untag :: "json \<Rightarrow> string option" where
  "b64_untag (JStr (c # b)) = Some b"
| "b64_untag _ = None"

definition sample_page :: cvalue where
  "sample_page = CObj [(''kind'', CJson (JStr ''APP_PAGE'')), (''rscData'', CBuf ''xyz''), (''segmentData'', CSeg [(''/_tree'', ''pq'')]),
     (''headers'', CJson (JObj [(''x-next-cache-tags'', JStr ''a, b'')]))]"

lemma sample_segment: "segment_key ''/_tree''"
  by (simp add: segment_key_def array_index_def dec_digit_def Let_def)

definition sample_ctx :: set_ctx where
  "sample_ctx = \<lparr>sc_tags = None, sc_revalidate = Secs 60, sc_cc_revalidate = Absent, sc_cc_expire = Absent\<rparr>"

lemma sample_tags: "extractTags sample_page sample_ctx = Some [''a'', ''b'']"
  by (simp add: extractTags_def sample_ctx_def sample_page_def split_tags_def js_trim_def js_space_def capTags_def
      maxTagLength_def isRootParamTag_def reserved_bytes_def tagCostBytes_def utf8_length_def
      MAX_TAG_BYTES_PER_ENTRY_def MAX_SOFT_TAG_LENGTH_def MAX_EXPLICIT_TAG_LENGTH_def Let_def)

definition sample_request :: store_request where
  "sample_request = the (set_entry b64_tag (\<lambda>_. 100) 1000 sample_page sample_ctx)"

definition sample_stored :: json where
  "sample_stored = (case rq_payload sample_request of JObj (_ # rest) \<Rightarrow> JObj ((''lastModified'', JNum 5000) # rest) | j \<Rightarrow> j)"

definition sample_env :: inc_env where
  "sample_env = \<lparr>r_entry = Inr (Some (Some sample_stored)), r_fetch_tags = Inr None,
     r_manifest = (\<lambda>ts. Inr (Map.empty |` set ts)), r_clock = Inr \<lparr>serverNow = 6000, localNow = 5900\<rparr>, r_seed = Inr None\<rparr>"

lemma sample_set:
  "set_entry b64_tag (\<lambda>_. 100) 1000 sample_page sample_ctx = Some sample_request"
  "STORE_INCREMENTAL_ENTRY_SCRIPT 5000 (rq_payload sample_request) (rq_ttlSeconds sample_request) 5000 =
     Inr (\<lparr>sv_json = sample_stored, sv_deadline = 5000 + of_int (rq_ttlSeconds sample_request) * 1000\<rparr>, 0)"
  by (simp_all add: sample_request_def sample_stored_def set_entry_def sample_tags set_ttl_def set_revalidate_def
      STORE_INCREMENTAL_ENTRY_SCRIPT_def MAX_CLOCK_SKEW_MS_def Let_def)
     (simp_all add: sample_ctx_def sample_page_def Let_def)

theorem incremental_set_get_witness:
  "get_entry b64_untag sample_env \<lparr>g_kind = Some ''APP_PAGE'', g_revalidate = None, g_softTags = None, g_tags = None\<rparr> =
    (Some \<lparr>hv_lastModified = toLocal \<lparr>serverNow = 6000, localNow = 5900\<rparr> 5000, hv_value = sample_page, hv_isStale = False\<rparr>, None)"
  by (rule incremental_set_get [OF _ _ _ sample_set sample_tags, where m = Map.empty])
     (simp_all add: b64_tag_def sample_env_def sample_page_def sample_segment codable_member_def buffer_members_def)

text \<open>
  A hard revalidation removes the page everywhere. After a hard event for a tag at server
  time \<open>T\<close>, a read that checks this tag misses, whatever the entry kind, for every stored entry
  written before \<open>T\<close> and for the build's own seed, until an event reschedules the tag.
\<close>

theorem hard_revalidation_misses:
  assumes "execution (cs1 @ (T, c) # cs2)" "t \<in> set (c_tags c)" "c_durations c = None"
    "\<forall>(_, c') \<in> set cs2. \<not> reschedules t c'"
    "fst (last ((T, c) # cs2)) \<le> now" "now \<le> fst (last ((T, c) # cs2)) + TAG_MANIFEST_TTL_SECONDS * 1000"
    "r_manifest env = (\<lambda>tags. Inr (tagStates (live now (exec_calls str2num (cs1 @ (T, c) # cs2) empty_store)) tags))"
    "r_clock env = Inr \<lparr>serverNow = now, localNow = here\<rparr>" "0 < T"
    "r_entry env = Inr raw"
    "case Option.bind raw parseStoredEntry of
       Some e \<Rightarrow> se_lastModified e < T \<and> t \<in> set (freshness_tags ctx (se_tags e))
     | None \<Rightarrow> (\<exists>seed. r_seed env = Inr (Some seed) \<and> t \<in> set (freshness_tags ctx (seed_tags seed)))"
  shows "fst (getImpl from_b64 env ctx skipSeed peek) = None"
proof -
  have exp: "areTagsExpired tags ts
      (tagStates (live now (exec_calls str2num (cs1 @ (T, c) # cs2) empty_store)) tags) now"
    if "t \<in> set tags" "ts < T" for tags ts
    using hard_run_expired [OF assms(1-4) that assms(5,6)] .
  have rd: "read_tag_states env tags =
      Inr (tagStates (live now (exec_calls str2num (cs1 @ (T, c) # cs2) empty_store)) tags)" if "t \<in> set tags" for tags
    using that assms(7) by (auto simp: read_tag_states_def)
  show ?thesis
  proof (cases "Option.bind raw parseStoredEntry")
    case None
    then obtain seed where "r_seed env = Inr (Some seed)" "t \<in> set (freshness_tags ctx (seed_tags seed))"
      using assms(11) by auto
    then have "fst (seedFallback env ctx peek) = None"
      using exp [OF _ assms(9)] rd assms(8) by (simp add: seedFallback_def split_beta Let_def)
    then show ?thesis using assms(10) None by (simp add: getImpl_def)
  next
    case (Some e)
    then show ?thesis
      using exp rd assms(8,10,11) by (simp add: getImpl_def split_beta Let_def split: option.split)
  qed
qed

definition sample_hard_env :: inc_env where
  "sample_hard_env = sample_env\<lparr>
     r_manifest := (\<lambda>tags. Inr (tagStates (live 1000600 (exec_calls no_number hard_then_profiled empty_store)) tags)),
     r_clock := Inr \<lparr>serverNow = 1000600, localNow = 7\<rparr>\<rparr>"

theorem hard_revalidation_misses_witness:
  "fst (getImpl b64_untag sample_hard_env
     \<lparr>g_kind = Some ''APP_PAGE'', g_revalidate = None, g_softTags = None, g_tags = None\<rparr> False False) = None"
proof -
  have ex: "execution ([] @ (1000000, snd (hd hard_then_profiled)) # tl hard_then_profiled)"
    by (simp add: hard_then_profiled_def execution_def TAG_MANIFEST_TTL_SECONDS_def TAG_MANIFEST_EPOCH_FIELD_def)
  obtain e where e: "parseStoredEntry (Some sample_stored) = Some e" "se_tags e = [''a'', ''b'']" "se_lastModified e = 5000"
    using parse_stored [OF sample_set sample_tags] by auto
  show ?thesis
    by (rule hard_revalidation_misses [OF ex, where t = "''a''" and now = 1000600 and raw = "Some (Some sample_stored)"
            and here = 7 and str2num = no_number])
       (simp_all add: hard_then_profiled_def sample_hard_env_def sample_env_def reschedules_def
         TAG_MANIFEST_TTL_SECONDS_def e freshness_tags_def is_fetch_def)
qed


text \<open>
  A page that a profiled revalidation made stale is served while it regenerates. The reported
  timestamp is either past the revalidate window and inside the expire window, which Next reads as
  stale-while-revalidate, or \<open>- 1\<close> (a blocking render); the latter only when no such timestamp
  exists: the window reaches back to the epoch, or the expire window ends before it.
\<close>

theorem stale_page_served_while_revalidating:
  assumes "staleByTagLastModified (Some r) ex now None False = lm"
  shows "(lm \<noteq> - 1 \<longrightarrow> 0 < lm \<and> r * 1000 + lm < now \<and> (\<forall>e. ex = Some e \<longrightarrow> now \<le> e * 1000 + lm)) \<and>
         (lm = - 1 \<longleftrightarrow> now \<le> r * 1000 + 1000 \<or> (\<exists>e. ex = Some e \<and> e * 1000 < r * 1000 + 1000))"
proof -
  have "now - r * 1000 - 1000 \<noteq> - 1" if "\<not> now \<le> r * 1000 + 1000" using that by (simp add: field_simps)
  then show ?thesis
    using assms by (auto simp: staleByTagLastModified_def Let_def algebra_simps split: option.splits if_splits)
qed

theorem stale_page_served_while_revalidating_witness:
  "0 < (939000 :: rat) \<and> 60 * 1000 + 939000 < (1000000 :: rat) \<and>
   staleByTagLastModified (Some 60) (Some 3600) 1000000 None False = 939000"
  using stale_page_served_while_revalidating [of 60 "Some 3600" 1000000 939000]
  by (simp add: staleByTagLastModified_def Let_def)

datatype cache_key = Tags | Entry string | FetchTags string

fun key_of :: "string \<Rightarrow> cache_key \<Rightarrow> string" where
  "key_of buildId Tags = tagsKey buildId"
| "key_of buildId (Entry k) = entryKey buildId k"
| "key_of buildId (FetchTags k) = fetchTagsKey buildId k"

lemma safe_id_no_colon:
  assumes "assertSafeBuildId b = Inr u"
  shows "CHR '':'' \<notin> set b"
proof -
  have "matches SAFE_BUILD_ID b" using assms by (simp add: assertSafeBuildId_def split: if_splits)
  then have "\<forall>c \<in> set b. safe_id_char c" by (simp add: SAFE_BUILD_ID_def matches_Rep_Cls)
  moreover have "\<not> safe_id_char (CHR '':'')" by (simp add: safe_id_char_def Let_def)
  ultimately show ?thesis by blast
qed

lemma key_prefix_inj:
  assumes "assertSafeBuildId a = Inr ()" "assertSafeBuildId b = Inr ()" "key_prefix a @ x = key_prefix b @ y"
  shows "a = b \<and> x = y"
  using assms(3) first_sep_eq [OF safe_id_no_colon [OF assms(1)] safe_id_no_colon [OF assms(2)]]
  by (simp add: key_prefix_def)

text \<open>
  Builds never share a key. With build ids that pass the keyspace check, two keys of the page
  cache (an entry, companion fetch tags, or the tag manifest) are equal only for the same build,
  the same kind of key and the same cache key.
\<close>

theorem build_keyspaces_disjoint:
  assumes "assertSafeBuildId a = Inr ()" "assertSafeBuildId b = Inr ()" "key_of a k = key_of b l"
  shows "a = b \<and> k = l"
proof -
  define suffix where "suffix k = (case k of Tags \<Rightarrow> ''tags'' | Entry c \<Rightarrow> ''inc:'' @ c | FetchTags c \<Rightarrow> ''inc-fetch-tags:'' @ c)" for k
  have "key_of c j = key_prefix c @ suffix j" for c j
    by (cases j) (simp_all add: suffix_def tagsKey_def entryKey_def fetchTagsKey_def)
  with assms(3) have "a = b \<and> suffix k = suffix l"
    using key_prefix_inj [OF assms(1,2)] by simp
  then show ?thesis by (cases k; cases l) (auto simp: suffix_def)
qed

theorem build_keyspaces_disjoint_witness:
  "assertSafeBuildId ''b-1'' = Inr () \<and> assertSafeBuildId ''b-2'' = Inr () \<and>
   key_of ''b-1'' (Entry ''/x'') \<noteq> key_of ''b-2'' (Entry ''/x'')"
proof -
  have "assertSafeBuildId ''b-1'' = Inr ()" "assertSafeBuildId ''b-2'' = Inr ()"
    by (simp_all add: assertSafeBuildId_def SAFE_BUILD_ID_def matches_Rep_Cls safe_id_char_def Let_def)
  then show ?thesis using build_keyspaces_disjoint by blast
qed

text \<open>
  The retention of an entry is not capped by the retention of the manifest. A page with a
  one-year revalidate window is kept for longer than the 30 days the manifest survives without
  writes; a read after that finds the entry and no watermark, so a page that was hard-revalidated
  is served again.
\<close>

lemma extractTags_revalidate [simp]: "extractTags v (ctx\<lparr>sc_revalidate := r\<rparr>) = extractTags v ctx"
  by (simp add: extractTags_def)

lemma silent_manifest_forgets:
  assumes "execution cs" "cs \<noteq> []" "fst (last cs) + TAG_MANIFEST_TTL_SECONDS * 1000 < now"
  shows "tagStates (live now (exec_calls f cs empty_store)) tags = Map.empty"
  using execution_rel [OF assms(1), of f] assms(2,3) by (auto simp: live_def tagStates_def empty_store_def)

theorem revalidated_page_resurfaces:
  "\<exists>rq sv. set_entry b64_tag (\<lambda>_. 100) 1000 sample_page (sample_ctx\<lparr>sc_revalidate := Secs 31536000\<rparr>) = Some rq \<and>
     STORE_INCREMENTAL_ENTRY_SCRIPT 5000 (rq_payload rq) (rq_ttlSeconds rq) 5000 = Inr (sv, 0) \<and>
     3000000000 < sv_deadline sv \<and>
     get_entry b64_untag
       (sample_env\<lparr>r_entry := Inr (Some (Some (sv_json sv))), r_clock := Inr \<lparr>serverNow = 3000000000, localNow = 3000000000\<rparr>,
          r_manifest := (\<lambda>tags. Inr (tagStates (live 3000000000 (exec_calls no_number [hd hard_then_profiled] empty_store)) tags))\<rparr>)
       \<lparr>g_kind = Some ''APP_PAGE'', g_revalidate = None, g_softTags = None, g_tags = None\<rparr> =
     (Some \<lparr>hv_lastModified = 5000, hv_value = sample_page, hv_isStale = False\<rparr>, None)"
proof -
  let ?ctx = "sample_ctx\<lparr>sc_revalidate := Secs 31536000\<rparr>"
  have tags: "extractTags sample_page ?ctx = Some [''a'', ''b'']" by (simp add: sample_tags)
  have "\<exists>rq. set_entry b64_tag (\<lambda>_. 100) 1000 sample_page ?ctx = Some rq \<and> rq_ttlSeconds rq = 31536060"
    by (simp add: set_entry_def sample_tags set_ttl_def set_revalidate_def Let_def)
       (simp add: sample_ctx_def sample_page_def RETENTION_MARGIN_SECONDS_def Let_def)
  then obtain rq where rq: "set_entry b64_tag (\<lambda>_. 100) 1000 sample_page ?ctx = Some rq" "rq_ttlSeconds rq = 31536060"
    by blast
  obtain sv where sv: "STORE_INCREMENTAL_ENTRY_SCRIPT 5000 (rq_payload rq) (rq_ttlSeconds rq) 5000 = Inr (sv, 0)"
      "sv_deadline sv = 5000 + of_int (rq_ttlSeconds rq) * 1000"
    using rq(1) by (auto simp: set_entry_def sample_tags STORE_INCREMENTAL_ENTRY_SCRIPT_def MAX_CLOCK_SKEW_MS_def Let_def
        split: option.splits if_splits)
  have "execution [hd hard_then_profiled]"
    by (simp add: hard_then_profiled_def execution_def TAG_MANIFEST_EPOCH_FIELD_def)
  then have m: "tagStates (live 3000000000 (exec_calls no_number [hd hard_then_profiled] empty_store)) tags = Map.empty" for tags
    by (rule silent_manifest_forgets) (simp_all add: hard_then_profiled_def TAG_MANIFEST_TTL_SECONDS_def)
  have "get_entry b64_untag
       (sample_env\<lparr>r_entry := Inr (Some (Some (sv_json sv))), r_clock := Inr \<lparr>serverNow = 3000000000, localNow = 3000000000\<rparr>,
          r_manifest := (\<lambda>tags. Inr (tagStates (live 3000000000 (exec_calls no_number [hd hard_then_profiled] empty_store)) tags))\<rparr>)
       \<lparr>g_kind = Some ''APP_PAGE'', g_revalidate = None, g_softTags = None, g_tags = None\<rparr> =
     (Some \<lparr>hv_lastModified = toLocal \<lparr>serverNow = 3000000000, localNow = 3000000000\<rparr> 5000, hv_value = sample_page,
        hv_isStale = False\<rparr>, None)"
    by (rule set_get [OF _ _ _ rq(1) sv(1) tags, where m = Map.empty])
       (simp_all add: b64_tag_def sample_env_def m sample_page_def sample_segment codable_member_def buffer_members_def restrict_map_def)
  then show ?thesis
    using rq sv by (intro exI conjI) (assumption | simp add: toLocal_def)+
qed

end
