(* ===== verification/UseCache.thy ===== *)
theory UseCache
  imports IncrementalCache
begin

text \<open>
  \<^verbatim>\<open>src/pool-server/valkey-cache/use-cache-handler.ts\<close>: the \<open>use cache\<close> handler, a bounded in-process
  front before the shared store. Each method is split at its \<open>await\<close>s into the atomic segments
  that the event loop runs; the replies it waits for are arguments. The last part runs the
  segments of one replica against the shared tag manifest, in any interleaving.
\<close>

section \<open>The local front\<close>

record local_entry =
  le_tagExpiresAt :: "rat option"
  le_tags :: "string list"
  le_verifiedSoftTags :: "string list"
  le_stale :: rat
  le_timestamp :: rat
  le_expire :: rat
  le_revalidate :: rat
  le_value :: string

record front =
  localEntries :: "(string, local_entry) jsmap"
  localBytes :: int
  manifestEpoch :: "nat option"
  backingAvailable :: bool
  warming :: "string list"
  writeGeneration :: nat
  pendingSets :: "(string, nat) jsmap"

definition LOCAL_FRONT_MAX_BYTES :: int where "LOCAL_FRONT_MAX_BYTES = 50 * 1024 * 1024"
definition LOCAL_FRONT_MAX_ENTRIES :: nat where "LOCAL_FRONT_MAX_ENTRIES = 10000"
definition LOCAL_FRONT_MAX_CONCURRENT_WARMS :: nat where "LOCAL_FRONT_MAX_CONCURRENT_WARMS = 64"
definition LOCAL_ENTRY_OVERHEAD_BYTES :: nat where "LOCAL_ENTRY_OVERHEAD_BYTES = 256"

definition init_front :: front where
  "init_front = \<lparr>localEntries = [], localBytes = 0, manifestEpoch = None, backingAvailable = True,
     warming = [], writeGeneration = 0, pendingSets = []\<rparr>"

definition useCacheEntryKey :: "string \<Rightarrow> string \<Rightarrow> string" where
  "useCacheEntryKey buildId cacheKey = key_prefix buildId @ ''entry:'' @ cacheKey"

definition clearLocalEntries :: "front \<Rightarrow> front" where
  "clearLocalEntries f = f\<lparr>localEntries := [], localBytes := 0\<rparr>"

definition localEntrySize :: "string \<Rightarrow> local_entry \<Rightarrow> nat" where
  "localEntrySize cacheKey entry =
     LOCAL_ENTRY_OVERHEAD_BYTES + utf8_length cacheKey + length (le_value entry) +
     sum_list (map (\<lambda>tag. utf8_length tag + 8) (le_tags entry)) +
     sum_list (map (\<lambda>tag. utf8_length tag + 8) (le_verifiedSoftTags entry))"

definition removeLocalEntry :: "string \<Rightarrow> front \<Rightarrow> front" where
  "removeLocalEntry cacheKey f =
     (case map_of (localEntries f) cacheKey of
        None \<Rightarrow> f
      | Some current \<Rightarrow>
          f\<lparr>localEntries := jsmap_delete cacheKey (localEntries f),
            localBytes := localBytes f - int (localEntrySize cacheKey current)\<rparr>)"

text \<open>The eviction loop of \<open>putLocalEntry\<close>: drop the oldest entry while a bound is exceeded.\<close>

function evict_front :: "front \<Rightarrow> front" where
  "evict_front f =
     (if localBytes f > LOCAL_FRONT_MAX_BYTES \<or> length (localEntries f) > LOCAL_FRONT_MAX_ENTRIES
      then (case localEntries f of [] \<Rightarrow> f | (oldest, _) # _ \<Rightarrow> evict_front (removeLocalEntry oldest f))
      else f)"
  by pat_completeness auto
termination
  by (relation "measure (\<lambda>f. length (localEntries f))")
     (auto simp: removeLocalEntry_def jsmap_delete_def intro: le_imp_less_Suc length_filter_le)

declare evict_front.simps [simp del]

definition putLocalEntry :: "string \<Rightarrow> local_entry \<Rightarrow> front \<Rightarrow> front" where
  "putLocalEntry cacheKey entry f =
     (if (\<exists>current. map_of (localEntries f) cacheKey = Some current \<and> le_timestamp current > le_timestamp entry) then f
      else
        (let f1 = removeLocalEntry cacheKey f;
             entrySize = int (localEntrySize cacheKey entry)
         in if entrySize > LOCAL_FRONT_MAX_BYTES then f1
            else evict_front (f1\<lparr>localEntries := jsmap_set cacheKey entry (localEntries f1),
                                 localBytes := localBytes f1 + entrySize\<rparr>)))"

record cache_result =
  cr_value :: string
  cr_tags :: "string list"
  cr_stale :: rat
  cr_timestamp :: rat
  cr_expire :: rat
  cr_revalidate :: rat

definition entry_of_local :: "local_entry \<Rightarrow> cache_entry" where
  "entry_of_local e = \<lparr>e_timestamp = le_timestamp e, e_revalidate = le_revalidate e, e_expire = le_expire e, e_tags = []\<rparr>"

definition readLocalEntry :: "string \<Rightarrow> string list \<Rightarrow> rat \<Rightarrow> front \<Rightarrow> cache_result option \<times> front" where
  "readLocalEntry cacheKey softTags now f =
     (case map_of (localEntries f) cacheKey of
        None \<Rightarrow> (None, f)
      | Some entry \<Rightarrow>
          if \<exists>tag \<in> set softTags. tag \<notin> set (le_verifiedSoftTags entry) then (None, f)
          else
            (let verdict = evaluateEntry (entry_of_local entry) Map.empty now
             in if (case le_tagExpiresAt entry of None \<Rightarrow> False | Some d \<Rightarrow> now \<ge> d) \<or> verdict = Expired
                then (None, removeLocalEntry cacheKey f)
                else (Some \<lparr>cr_value = le_value entry, cr_tags = le_tags entry, cr_stale = le_stale entry,
                            cr_timestamp = le_timestamp entry, cr_expire = le_expire entry,
                            cr_revalidate = (case verdict of Fresh r \<Rightarrow> r | _ \<Rightarrow> - 1)\<rparr>,
                      f\<lparr>localEntries := jsmap_set cacheKey entry (jsmap_delete cacheKey (localEntries f))\<rparr>)))"

section \<open>The shared store\<close>

record stored_meta =
  m_tags :: "string list"
  m_stale :: rat
  m_timestamp :: rat
  m_expire :: rat
  m_revalidate :: rat

definition parseStoredMeta :: "raw_json \<Rightarrow> stored_meta option" where
  "parseStoredMeta raw =
     (case raw of
        Some (JObj m) \<Rightarrow>
          (case (finite_number (map_of m ''timestamp''), finite_number (map_of m ''expire''),
                 finite_number (map_of m ''revalidate''), finite_number (map_of m ''stale''), map_of m ''tags'') of
             (Some t, Some ex, Some rv, Some st, Some (JArr js)) \<Rightarrow>
               map_option (\<lambda>tags. \<lparr>m_tags = tags, m_stale = st, m_timestamp = t, m_expire = ex, m_revalidate = rv\<rparr>)
                 (all_strings js)
           | _ \<Rightarrow> None)
      | _ \<Rightarrow> None)"

text \<open>
  The earliest watermark after the entry's creation. The manifest holds only the tags it was read
  for, so it is given by that list.
\<close>

fun nextTagExpiration :: "rat \<Rightarrow> tag_manifest \<Rightarrow> string list \<Rightarrow> rat option" where
  "nextTagExpiration timestamp manifest [] = None"
| "nextTagExpiration timestamp manifest (tag # tags) =
     (let deadline = nextTagExpiration timestamp manifest tags
      in case watermark ts_expired manifest tag of
           Some x \<Rightarrow>
             if x > timestamp then Some (case deadline of None \<Rightarrow> x | Some d \<Rightarrow> min d x) else deadline
         | None \<Rightarrow> deadline)"

record stored_read =
  sr_meta :: stored_meta
  sr_localTimestamp :: rat
  sr_tagExpiresAt :: "rat option"
  sr_value :: string
  sr_freshness :: freshness

record uc_env =
  u_hash :: "(io_failure, raw_json option \<times> string option) res"
  u_manifest :: "string list \<Rightarrow> (io_failure, tag_manifest) res"
  u_clock :: "(io_failure, clock_sample) res"

definition uc_tag_states :: "uc_env \<Rightarrow> string list \<Rightarrow> (io_failure, tag_manifest) res" where
  "uc_tag_states env tags = (if tags = [] then Inr Map.empty else u_manifest env tags)"

definition entry_of_meta :: "stored_meta \<Rightarrow> string list \<Rightarrow> cache_entry" where
  "entry_of_meta m tags = \<lparr>e_timestamp = m_timestamp m, e_revalidate = m_revalidate m, e_expire = m_expire m, e_tags = tags\<rparr>"

definition readStored :: "uc_env \<Rightarrow> string list \<Rightarrow> (io_failure, stored_read option) res" where
  "readStored env softTags =
     res_bind (u_hash env) (\<lambda>(metaBuf, value).
       case (Option.bind metaBuf parseStoredMeta, value) of
         (Some meta, Some v) \<Rightarrow>
           (let tags = m_tags meta @ softTags
            in res_bind (uc_tag_states env tags) (\<lambda>manifest.
                 res_bind (u_clock env) (\<lambda>clock.
                   let verdict = evaluateEntry (entry_of_meta meta tags) manifest (serverNow clock)
                   in if verdict = Expired then Inr None
                      else Inr (Some \<lparr>sr_meta = meta, sr_localTimestamp = toLocal clock (m_timestamp meta),
                                      sr_tagExpiresAt = map_option (toLocal clock) (nextTagExpiration (m_timestamp meta) manifest tags),
                                      sr_value = v, sr_freshness = verdict\<rparr>))))
       | _ \<Rightarrow> Inr None)"

definition cacheEntry :: "stored_read \<Rightarrow> cache_result" where
  "cacheEntry r = \<lparr>cr_value = sr_value r, cr_tags = m_tags (sr_meta r), cr_stale = m_stale (sr_meta r),
     cr_timestamp = sr_localTimestamp r, cr_expire = m_expire (sr_meta r),
     cr_revalidate = (case sr_freshness r of Fresh x \<Rightarrow> x | _ \<Rightarrow> - 1)\<rparr>"

section \<open>Handler methods\<close>

record invocation =
  inv_epoch :: "nat option"
  inv_softTags :: "(string, string list) jsmap"

text \<open>\<open>prepareForInvocation\<close> after its read: the epoch, or \<open>None\<close> when reading or validating it failed.\<close>

definition prepareForInvocation :: "nat option \<Rightarrow> front \<Rightarrow> invocation \<times> front" where
  "prepareForInvocation reply f =
     (case reply of
        Some epoch \<Rightarrow>
          (\<lparr>inv_epoch = Some epoch, inv_softTags = []\<rparr>,
           (if manifestEpoch f \<noteq> None \<and> manifestEpoch f \<noteq> Some epoch then clearLocalEntries f else f)
             \<lparr>manifestEpoch := Some epoch, backingAvailable := True\<rparr>)
      | None \<Rightarrow>
          (\<lparr>inv_epoch = None, inv_softTags = []\<rparr>,
           (clearLocalEntries f)\<lparr>manifestEpoch := None, backingAvailable := False\<rparr>))"

text \<open>The start of a background warm: the captured epoch and write generation, when it starts.\<close>

definition warmLocalEntry :: "invocation \<Rightarrow> string \<Rightarrow> front \<Rightarrow> (nat option \<times> nat) option \<times> front" where
  "warmLocalEntry ivk cacheKey f =
     (if inv_epoch ivk \<noteq> manifestEpoch f \<or> \<not> backingAvailable f \<or> cacheKey \<in> set (map fst (pendingSets f)) \<or>
         cacheKey \<in> set (warming f) \<or> length (warming f) \<ge> LOCAL_FRONT_MAX_CONCURRENT_WARMS
      then (None, f)
      else (Some (inv_epoch ivk, writeGeneration f), f\<lparr>warming := cacheKey # warming f\<rparr>))"

definition local_of_read :: "string list \<Rightarrow> stored_read \<Rightarrow> rat \<Rightarrow> local_entry" where
  "local_of_read softTags r revalidate =
     \<lparr>le_tagExpiresAt = sr_tagExpiresAt r, le_tags = m_tags (sr_meta r), le_verifiedSoftTags = capTags softTags,
      le_stale = m_stale (sr_meta r), le_timestamp = sr_localTimestamp r, le_expire = m_expire (sr_meta r),
      le_revalidate = revalidate, le_value = sr_value r\<rparr>"

text \<open>The end of a warm: \<open>read\<close> is what \<open>readStored\<close> returned, \<open>Inl\<close> when it failed.\<close>

definition warm_done ::
    "string \<Rightarrow> string list \<Rightarrow> nat option \<Rightarrow> nat \<Rightarrow> (io_failure, stored_read option) res \<Rightarrow> front \<Rightarrow> front" where
  "warm_done cacheKey softTags epoch generation read f =
     (let f1 = (case read of
                  Inr (Some r) \<Rightarrow>
                    (case sr_freshness r of
                       Fresh rv \<Rightarrow>
                         if manifestEpoch f \<noteq> epoch \<or> writeGeneration f \<noteq> generation then f
                         else putLocalEntry cacheKey (local_of_read softTags r rv) f
                     | _ \<Rightarrow> f)
                | _ \<Rightarrow> f)
      in f1\<lparr>warming := removeAll cacheKey (warming f1)\<rparr>)"

text \<open>\<open>get\<close> inside a prepared invocation: no I/O, and possibly a warm started.\<close>

definition get_prepared ::
    "invocation \<Rightarrow> string \<Rightarrow> string list \<Rightarrow> rat \<Rightarrow> front \<Rightarrow> cache_result option \<times> (nat option \<times> nat) option \<times> invocation \<times> front" where
  "get_prepared ivk cacheKey softTags now f =
     (if inv_epoch ivk \<noteq> manifestEpoch f then (None, None, ivk, f)
      else
        (let ivk' = ivk\<lparr>inv_softTags := jsmap_set cacheKey
                          (capTags (opt_list (map_of (inv_softTags ivk) cacheKey) @ softTags)) (inv_softTags ivk)\<rparr>
         in case readLocalEntry cacheKey softTags now f of
              (Some r, f1) \<Rightarrow> (Some r, None, ivk', f1)
            | (None, f1) \<Rightarrow> (case warmLocalEntry ivk' cacheKey f1 of (job, f2) \<Rightarrow> (None, job, ivk', f2))))"

definition get_unprepared :: "uc_env \<Rightarrow> string list \<Rightarrow> cache_result option" where
  "get_unprepared env softTags =
     (case readStored env softTags of Inr (Some r) \<Rightarrow> Some (cacheEntry r) | _ \<Rightarrow> None)"

text \<open>
  \<open>set\<close>: the synchronous start, the decision once the entry and its body are there (a body that
  failed to drain or is over the cap is \<open>None\<close>), the store script, the admission to the front
  after it, and the release of the gate.
\<close>

definition set_begin :: "string \<Rightarrow> front \<Rightarrow> nat \<times> front" where
  "set_begin cacheKey f =
     (let f1 = removeLocalEntry cacheKey (f\<lparr>writeGeneration := Suc (writeGeneration f)\<rparr>)
      in (writeGeneration f1, f1\<lparr>pendingSets := jsmap_set cacheKey (writeGeneration f1) (pendingSets f1)\<rparr>))"

record new_entry =
  ne_tags :: "string list"
  ne_stale :: rat
  ne_timestamp :: rat
  ne_expire :: lifetime
  ne_revalidate :: lifetime

definition SERVER_TIMESTAMP_MARKER :: string where
  "SERVER_TIMESTAMP_MARKER = ''__adapter_k8s_valkey_time__''"

definition uc_ttl :: "rat \<Rightarrow> rat \<Rightarrow> int" where
  "uc_ttl expire revalidate =
     \<lceil>min (max (max expire revalidate) 1 + RETENTION_MARGIN_SECONDS) DURABLE_TTL_SECONDS\<rceil>"

record uc_request =
  q_meta :: json
  q_value :: string
  q_ttl :: int

definition set_request :: "new_entry \<Rightarrow> string option \<Rightarrow> uc_request option" where
  "set_request entry body =
     (case (ne_expire entry, ne_revalidate entry) of
        (Secs expire, Secs revalidate) \<Rightarrow>
          if expire \<le> 0 then None
          else
            (case body of
               None \<Rightarrow> None
             | Some buf \<Rightarrow>
                 Some \<lparr>q_meta = JObj [(''timestamp'', JStr SERVER_TIMESTAMP_MARKER),
                                      (''tags'', JArr (map JStr (capTags (ne_tags entry)))),
                                      (''stale'', JNum (ne_stale entry)), (''expire'', JNum expire),
                                      (''revalidate'', JNum revalidate)],
                       q_value = buf, q_ttl = uc_ttl expire revalidate\<rparr>)
      | _ \<Rightarrow> None)"

record uc_stored =
  us_meta :: json
  us_value :: string
  us_deadline :: rat

definition STORE_USE_CACHE_ENTRY_SCRIPT ::
    "rat \<Rightarrow> json \<Rightarrow> string \<Rightarrow> int \<Rightarrow> rat \<Rightarrow> rat \<Rightarrow> (script_error, uc_stored \<times> nat) res" where
  "STORE_USE_CACHE_ENTRY_SCRIPT now payload value ttlSeconds entryTimestamp clientNow =
     (case payload of
        JObj ((k, v) # rest) \<Rightarrow>
          if k = ''timestamp'' \<and> v = JStr SERVER_TIMESTAMP_MARKER
          then Inr (\<lparr>us_meta = JObj ((''timestamp'', JNum (now + entryTimestamp - clientNow)) # rest),
                     us_value = value, us_deadline = now + of_int ttlSeconds * 1000\<rparr>,
                    if \<bar>now - clientNow\<bar> > MAX_CLOCK_SKEW_MS then 1 else 0)
          else Inl MarkerMissing
      | _ \<Rightarrow> Inl MarkerMissing)"

text \<open>Whether a finished store goes on to check its tags for admission.\<close>

definition set_admission :: "invocation \<Rightarrow> front \<Rightarrow> bool" where
  "set_admission ivk f = (inv_epoch ivk = manifestEpoch f \<and> backingAvailable f)"

definition set_admit ::
    "invocation \<Rightarrow> string \<Rightarrow> new_entry \<Rightarrow> rat \<Rightarrow> rat \<Rightarrow> string \<Rightarrow> nat \<Rightarrow> tag_manifest \<Rightarrow> clock_sample \<Rightarrow> front \<Rightarrow> front" where
  "set_admit ivk cacheKey entry expire revalidate buf generation manifest clock f =
     (let softTags = opt_list (map_of (inv_softTags ivk) cacheKey);
          metaTags = capTags (ne_tags entry);
          tags = metaTags @ softTags;
          serverTimestamp = ne_timestamp entry + serverNow clock - localNow clock;
          verdict = evaluateEntry \<lparr>e_timestamp = serverTimestamp, e_revalidate = revalidate, e_expire = expire, e_tags = tags\<rparr>
                      manifest (serverNow clock)
      in case verdict of
           Fresh _ \<Rightarrow>
             if inv_epoch ivk = manifestEpoch f \<and> backingAvailable f \<and> writeGeneration f = generation
             then putLocalEntry cacheKey
                    \<lparr>le_tagExpiresAt = map_option (toLocal clock) (nextTagExpiration serverTimestamp manifest tags),
                     le_tags = metaTags, le_verifiedSoftTags = softTags, le_stale = ne_stale entry,
                     le_timestamp = ne_timestamp entry, le_expire = expire, le_revalidate = revalidate,
                     le_value = buf\<rparr> f
             else f
         | _ \<Rightarrow> f)"

definition set_finally :: "string \<Rightarrow> nat \<Rightarrow> front \<Rightarrow> front" where
  "set_finally cacheKey gate f =
     (if map_of (pendingSets f) cacheKey = Some gate then f\<lparr>pendingSets := jsmap_delete cacheKey (pendingSets f)\<rparr> else f)"

text \<open>\<open>updateTags\<close>: the local invalidation and the calls to send.\<close>

definition updateTags :: "string list \<Rightarrow> rat option option \<Rightarrow> rat \<Rightarrow> front \<Rightarrow> tag_call list \<times> front" where
  "updateTags tags durations now f =
     (if filterManifestTags tags = [] then ([], f)
      else (updateTags_calls tags durations now, (clearLocalEntries f)\<lparr>manifestEpoch := None\<rparr>))"

text \<open>\<open>None\<close> stands for \<open>Infinity\<close>: the tags were already checked.\<close>

definition getExpiration :: "bool \<Rightarrow> uc_env \<Rightarrow> string list \<Rightarrow> rat \<Rightarrow> rat option" where
  "getExpiration prepared env tags now =
     (if prepared then None
      else Some (case uc_tag_states env tags of
                   Inl _ \<Rightarrow> now
                 | Inr manifest \<Rightarrow>
                     (let expiration = maxExpiration tags manifest
                      in if expiration = 0 then 0
                         else case u_clock env of Inl _ \<Rightarrow> now | Inr clock \<Rightarrow> toLocal clock expiration)))"

definition hasTagUpdates :: "uc_env \<Rightarrow> string list \<Rightarrow> bool" where
  "hasTagUpdates env tags =
     (let filtered = filterManifestTags tags
      in if filtered = [] then False
         else case uc_tag_states env filtered of
                Inl _ \<Rightarrow> True
              | Inr manifest \<Rightarrow> (\<exists>t \<in> set filtered. manifest t \<noteq> None))"


section \<open>Bounds of the front\<close>

definition bytes_of :: "(string, local_entry) jsmap \<Rightarrow> int" where
  "bytes_of m = sum_list (map (\<lambda>(k, e). int (localEntrySize k e)) m)"

definition accounted :: "front \<Rightarrow> bool" where
  "accounted f \<longleftrightarrow> jsmap_wf (localEntries f) \<and> localBytes f = bytes_of (localEntries f)"

definition front_inv :: "front \<Rightarrow> bool" where
  "front_inv f \<longleftrightarrow> accounted f \<and> localBytes f \<le> LOCAL_FRONT_MAX_BYTES \<and>
     length (localEntries f) \<le> LOCAL_FRONT_MAX_ENTRIES \<and>
     distinct (warming f) \<and> length (warming f) \<le> LOCAL_FRONT_MAX_CONCURRENT_WARMS"

lemma bytes_of_nonneg: "0 \<le> bytes_of m"
  unfolding bytes_of_def by (induction m) auto

lemma bytes_of_delete:
  "jsmap_wf m \<Longrightarrow> bytes_of (jsmap_delete k m) =
     bytes_of m - (case map_of m k of None \<Rightarrow> 0 | Some e \<Rightarrow> int (localEntrySize k e))"
proof (induction m)
  case (Cons x m)
  have "k \<notin> fst ` set m \<Longrightarrow> map_of m k = None" by (simp add: map_of_eq_None_iff)
  with Cons show ?case
    by (cases x) (auto simp: bytes_of_def jsmap_delete_def split: option.splits)
qed (simp add: bytes_of_def jsmap_delete_def)

lemma bytes_of_set:
  "k \<notin> set (map fst m) \<Longrightarrow> bytes_of (jsmap_set k e m) = bytes_of m + int (localEntrySize k e)"
  by (simp add: bytes_of_def jsmap_set_fresh)

lemma delete_absent: "k \<notin> set (map fst m) \<Longrightarrow> jsmap_delete k m = m"
  by (induction m) (auto simp: jsmap_delete_def)

lemma remove_entries: "localEntries (removeLocalEntry k f) = jsmap_delete k (localEntries f)"
proof (cases "map_of (localEntries f) k")
  case None
  then have "k \<notin> set (map fst (localEntries f))" by (simp add: map_of_eq_None_iff)
  then show ?thesis using None delete_absent [of k "localEntries f"] by (simp add: removeLocalEntry_def)
qed (simp add: removeLocalEntry_def)

lemma remove_same [simp]:
  "manifestEpoch (removeLocalEntry k f) = manifestEpoch f"
  "backingAvailable (removeLocalEntry k f) = backingAvailable f"
  "warming (removeLocalEntry k f) = warming f"
  "writeGeneration (removeLocalEntry k f) = writeGeneration f"
  "pendingSets (removeLocalEntry k f) = pendingSets f"
  by (simp_all add: removeLocalEntry_def split: option.split)

lemma remove_accounted: "accounted f \<Longrightarrow> accounted (removeLocalEntry k f)"
  by (auto simp: accounted_def removeLocalEntry_def bytes_of_delete split: option.splits)

lemma remove_shrinks:
  "accounted f \<Longrightarrow> localBytes (removeLocalEntry k f) \<le> localBytes f \<and>
     length (localEntries (removeLocalEntry k f)) \<le> length (localEntries f)"
  by (auto simp: removeLocalEntry_def jsmap_delete_def split: option.splits)

lemma evict_front_spec:
  assumes "accounted f"
  shows "accounted (evict_front f) \<and> localBytes (evict_front f) \<le> LOCAL_FRONT_MAX_BYTES \<and>
    length (localEntries (evict_front f)) \<le> LOCAL_FRONT_MAX_ENTRIES \<and>
    set (localEntries (evict_front f)) \<subseteq> set (localEntries f) \<and>
    manifestEpoch (evict_front f) = manifestEpoch f \<and> backingAvailable (evict_front f) = backingAvailable f \<and>
    warming (evict_front f) = warming f \<and> writeGeneration (evict_front f) = writeGeneration f \<and>
    pendingSets (evict_front f) = pendingSets f"
  using assms
proof (induction f rule: evict_front.induct)
  case (1 f)
  show ?case
  proof (cases "localBytes f > LOCAL_FRONT_MAX_BYTES \<or> length (localEntries f) > LOCAL_FRONT_MAX_ENTRIES")
    case False
    then show ?thesis using 1(2) by (simp add: evict_front.simps [of f])
  next
    case True
    then obtain oldest e rest where m: "localEntries f = (oldest, e) # rest"
      using 1(2) by (cases "localEntries f") (auto simp: accounted_def bytes_of_def LOCAL_FRONT_MAX_BYTES_def)
    have "set (localEntries (removeLocalEntry oldest f)) \<subseteq> set (localEntries f)"
      by (auto simp: remove_entries jsmap_delete_def)
    with 1(1) [OF True m refl remove_accounted [OF 1(2)]] show ?thesis
      using True by (simp add: evict_front.simps [of f] m) blast
  qed
qed

lemma put_spec:
  assumes "front_inv f"
  shows "front_inv (putLocalEntry k e f) \<and>
    set (localEntries (putLocalEntry k e f)) \<subseteq> insert (k, e) (set (localEntries f)) \<and>
    manifestEpoch (putLocalEntry k e f) = manifestEpoch f \<and> backingAvailable (putLocalEntry k e f) = backingAvailable f \<and>
    warming (putLocalEntry k e f) = warming f \<and> writeGeneration (putLocalEntry k e f) = writeGeneration f \<and>
    pendingSets (putLocalEntry k e f) = pendingSets f"
proof -
  let ?f1 = "removeLocalEntry k f"
  let ?f2 = "?f1\<lparr>localEntries := jsmap_set k e (localEntries ?f1), localBytes := localBytes ?f1 + int (localEntrySize k e)\<rparr>"
  have acc: "accounted f" using assms by (simp add: front_inv_def)
  have fresh: "k \<notin> set (map fst (localEntries ?f1))" by (simp add: remove_entries)
  have sub: "set (localEntries ?f1) \<subseteq> set (localEntries f)" by (auto simp: remove_entries jsmap_delete_def)
  have acc2: "accounted ?f2"
    using remove_accounted [OF acc, of k] fresh by (simp add: accounted_def bytes_of_set)
  have "set (localEntries ?f2) \<subseteq> insert (k, e) (set (localEntries f))"
    using sub fresh by (auto simp: jsmap_set_fresh)
  then show ?thesis
    using evict_front_spec [OF acc2] assms remove_accounted [OF acc, of k] remove_shrinks [OF acc, of k] sub
    by (auto simp: putLocalEntry_def front_inv_def Let_def)
qed

lemma clear_inv: "front_inv f \<Longrightarrow> front_inv (clearLocalEntries f)"
  by (simp add: front_inv_def accounted_def clearLocalEntries_def bytes_of_def LOCAL_FRONT_MAX_BYTES_def)

lemma remove_inv: "front_inv f \<Longrightarrow> front_inv (removeLocalEntry k f)"
  using remove_accounted [of f k] remove_shrinks [of f k] by (auto simp: front_inv_def)

lemma read_local_spec:
  assumes "front_inv f" "readLocalEntry k soft now f = (r, f')"
  shows "front_inv f' \<and> set (localEntries f') \<subseteq> set (localEntries f) \<and> manifestEpoch f' = manifestEpoch f \<and>
    backingAvailable f' = backingAvailable f \<and> warming f' = warming f \<and> writeGeneration f' = writeGeneration f \<and>
    pendingSets f' = pendingSets f"
proof (cases "map_of (localEntries f) k")
  case None
  then show ?thesis using assms by (auto simp: readLocalEntry_def)
next
  case (Some e)
  have wf: "jsmap_wf (localEntries f)" using assms(1) by (simp add: front_inv_def accounted_def)
  have mem: "(k, e) \<in> set (localEntries f)" using Some by (rule map_of_SomeD)
  then have pos: "0 < length (localEntries f)" by (cases "localEntries f") auto
  let ?d = "jsmap_delete k (localEntries f)"
  have fresh: "k \<notin> set (map fst ?d)" by simp
  have len: "length (?d @ [(k, e)]) = length (localEntries f)"
    using length_jsmap_delete [OF wf, of k] mem pos by (force simp: image_iff)
  have "front_inv (f\<lparr>localEntries := jsmap_set k e ?d\<rparr>)"
    using assms(1) len bytes_of_delete [OF wf, of k] Some fresh wf
    unfolding front_inv_def accounted_def by (simp add: jsmap_set_fresh) (simp add: bytes_of_def)
  moreover have "set (jsmap_set k e ?d) \<subseteq> set (localEntries f)"
    using mem fresh by (auto simp: jsmap_set_fresh jsmap_delete_def)
  moreover have "set (localEntries (removeLocalEntry k f)) \<subseteq> set (localEntries f)"
    by (auto simp: remove_entries jsmap_delete_def)
  ultimately show ?thesis
    using assms Some remove_inv [OF assms(1), of k] by (auto simp: readLocalEntry_def Let_def split: if_splits)
qed


section \<open>One replica and the shared manifest\<close>

text \<open>
  A replica with its front, the epoch replies on their way, the prepared invocations, and the
  background work between two awaits. \<open>r_log\<close> is every call the server has executed, from this
  and all other replicas. \<open>lag\<close> is how far the server's clock is ahead of the replica's; samples
  are taken as exact here (their error is bounded separately). \<open>outage\<close> says whether reading the
  epoch may fail. Finished invocations and read jobs stay in their lists, so the relation allows
  every run of the code and more.
\<close>

datatype job =
    Warm string "string list" "nat option" nat
  | WarmRead string "string list" "nat option" nat "(io_failure, stored_read option) res"
  | Admit invocation string new_entry rat rat string nat
  | AdmitRead invocation string new_entry rat rat string nat tag_manifest clock_sample

record replica =
  r_front :: front
  r_log :: "(rat \<times> tag_call) list"
  r_replies :: "nat option list"
  r_invs :: "invocation list"
  r_jobs :: "job list"

definition init_replica :: replica where
  "init_replica = \<lparr>r_front = init_front, r_log = [], r_replies = [], r_invs = [], r_jobs = []\<rparr>"

definition started :: "string \<Rightarrow> string list \<Rightarrow> (nat option \<times> nat) option \<Rightarrow> job list" where
  "started cacheKey softTags job = (case job of None \<Rightarrow> [] | Some (e, g) \<Rightarrow> [Warm cacheKey softTags e g])"

inductive uc_step :: "(string \<Rightarrow> rat option) \<Rightarrow> rat \<Rightarrow> bool \<Rightarrow> replica \<Rightarrow> replica \<Rightarrow> bool"
  for str2num lag outage where
  call: "execution (r_log s @ [(now, c)]) \<Longrightarrow> uc_step str2num lag outage s (s\<lparr>r_log := r_log s @ [(now, c)]\<rparr>)"
| update: "updateTags tags durations now (r_front s) = (calls, f') \<Longrightarrow> uc_step str2num lag outage s (s\<lparr>r_front := f'\<rparr>)"
| epoch_read: "readable (r_log s) now \<Longrightarrow>
    uc_step str2num lag outage s (s\<lparr>r_replies := read_epoch (store_at str2num (r_log s) now) # r_replies s\<rparr>)"
| epoch_fail: "outage \<Longrightarrow> uc_step str2num lag outage s (s\<lparr>r_replies := None # r_replies s\<rparr>)"
| prepare: "reply \<in> set (r_replies s) \<Longrightarrow> prepareForInvocation reply (r_front s) = (ivk, f') \<Longrightarrow>
    uc_step str2num lag outage s
      (s\<lparr>r_front := f', r_invs := ivk # r_invs s, r_replies := remove1 reply (r_replies s)\<rparr>)"
| get: "ivk \<in> set (r_invs s) \<Longrightarrow> get_prepared ivk cacheKey softTags now (r_front s) = (res, job, ivk', f') \<Longrightarrow>
    uc_step str2num lag outage s
      (s\<lparr>r_front := f', r_invs := ivk' # r_invs s, r_jobs := started cacheKey softTags job @ r_jobs s\<rparr>)"
| warm_read: "Warm cacheKey softTags e g \<in> set (r_jobs s) \<Longrightarrow> readable (r_log s) now \<Longrightarrow> now \<le> now' \<Longrightarrow>
    env = \<lparr>u_hash = h, u_manifest = (\<lambda>tags. Inr (tagStates (store_at str2num (r_log s) now) tags)),
           u_clock = Inr \<lparr>serverNow = now', localNow = now' - lag\<rparr>\<rparr> \<Longrightarrow>
    uc_step str2num lag outage s (s\<lparr>r_jobs := WarmRead cacheKey softTags e g (readStored env softTags) # r_jobs s\<rparr>)"
| warm_fail: "Warm cacheKey softTags e g \<in> set (r_jobs s) \<Longrightarrow>
    uc_step str2num lag outage s (s\<lparr>r_jobs := WarmRead cacheKey softTags e g (Inl Unavailable) # r_jobs s\<rparr>)"
| warm_end: "WarmRead cacheKey softTags e g read \<in> set (r_jobs s) \<Longrightarrow>
    uc_step str2num lag outage s
      (s\<lparr>r_front := warm_done cacheKey softTags e g read (r_front s),
         r_jobs := remove1 (WarmRead cacheKey softTags e g read) (r_jobs s)\<rparr>)"
| set_start: "set_begin cacheKey (r_front s) = (g, f') \<Longrightarrow> uc_step str2num lag outage s (s\<lparr>r_front := f'\<rparr>)"
| set_stored: "ivk \<in> set (r_invs s) \<Longrightarrow> set_admission ivk (r_front s) \<Longrightarrow> set_request entry (Some buf) = Some rq \<Longrightarrow>
    ne_expire entry = Secs expire \<Longrightarrow> ne_revalidate entry = Secs revalidate \<Longrightarrow>
    uc_step str2num lag outage s (s\<lparr>r_jobs := Admit ivk cacheKey entry expire revalidate buf g # r_jobs s\<rparr>)"
| admit_read: "Admit ivk cacheKey entry expire revalidate buf g \<in> set (r_jobs s) \<Longrightarrow> readable (r_log s) now \<Longrightarrow> now \<le> now' \<Longrightarrow>
    tags = capTags (ne_tags entry) @ opt_list (map_of (inv_softTags ivk) cacheKey) \<Longrightarrow>
    uc_step str2num lag outage s
      (s\<lparr>r_jobs := AdmitRead ivk cacheKey entry expire revalidate buf g (tagStates (store_at str2num (r_log s) now) tags)
           \<lparr>serverNow = now', localNow = now' - lag\<rparr> # r_jobs s\<rparr>)"
| admit_end: "AdmitRead ivk cacheKey entry expire revalidate buf g manifest clock \<in> set (r_jobs s) \<Longrightarrow>
    uc_step str2num lag outage s
      (s\<lparr>r_front := set_admit ivk cacheKey entry expire revalidate buf g manifest clock (r_front s)\<rparr>)"
| set_end: "uc_step str2num lag outage s (s\<lparr>r_front := set_finally cacheKey g (r_front s)\<rparr>)"

inductive uc_reachable :: "(string \<Rightarrow> rat option) \<Rightarrow> rat \<Rightarrow> bool \<Rightarrow> replica \<Rightarrow> bool" for str2num lag outage where
  init: "uc_reachable str2num lag outage init_replica"
| step: "uc_reachable str2num lag outage s \<Longrightarrow> uc_step str2num lag outage s t \<Longrightarrow> uc_reachable str2num lag outage t"

inductive_cases uc_stepE: "uc_step str2num lag outage s t"

section \<open>The front keeps its bounds\<close>

lemma prepare_inv: "front_inv f \<Longrightarrow> front_inv (snd (prepareForInvocation reply f))"
  using clear_inv [of f] by (auto simp: prepareForInvocation_def front_inv_def accounted_def split: option.split)

lemma update_inv: "front_inv f \<Longrightarrow> front_inv (snd (updateTags tags d now f))"
  using clear_inv [of f] by (auto simp: updateTags_def front_inv_def accounted_def)

lemma warm_start_inv: "front_inv f \<Longrightarrow> front_inv (snd (warmLocalEntry ivk k f))"
  by (auto simp: warmLocalEntry_def front_inv_def accounted_def)

lemma front_inv_warming:
  "front_inv f \<Longrightarrow> front_inv (f\<lparr>warming := removeAll k (warming f)\<rparr>)"
  using order_trans [OF length_filter_le [of "\<lambda>x. k \<noteq> x" "warming f"]]
  by (auto simp: front_inv_def accounted_def removeAll_filter_not_eq)

lemma warm_done_inv: "front_inv f \<Longrightarrow> front_inv (warm_done k soft e g rd f)"
  unfolding warm_done_def Let_def
  by (intro front_inv_warming) (auto simp: put_spec split: sum.split option.split freshness.split)

lemma set_begin_inv: "front_inv f \<Longrightarrow> front_inv (snd (set_begin k f))"
  using remove_inv [of "f\<lparr>writeGeneration := Suc (writeGeneration f)\<rparr>" k]
  by (auto simp: set_begin_def front_inv_def accounted_def Let_def)

lemma set_finally_inv: "front_inv f \<Longrightarrow> front_inv (set_finally k g f)"
  by (auto simp: set_finally_def front_inv_def accounted_def)

lemma set_admit_inv: "front_inv f \<Longrightarrow> front_inv (set_admit ivk k entry ex rv buf g m c f)"
  by (auto simp: set_admit_def Let_def put_spec split: freshness.split)

lemma get_prepared_inv:
  assumes "front_inv f" "get_prepared ivk k soft now f = (r, job, ivk', f')"
  shows "front_inv f'"
proof -
  obtain q f1 where "readLocalEntry k soft now f = (q, f1)" by fastforce
  then show ?thesis
    using assms read_local_spec [OF assms(1)] warm_start_inv [of f1]
    by (auto simp: get_prepared_def Let_def split: if_splits option.splits prod.splits)
      (metis snd_conv)
qed

lemma uc_step_front_inv: "uc_step f lag outage s t \<Longrightarrow> front_inv (r_front s) \<Longrightarrow> front_inv (r_front t)"
proof (induction rule: uc_step.induct)
  case (update tags d now s calls f')
  then show ?case using update_inv [of "r_front s" tags d now] by simp
next
  case (prepare reply s ivk f')
  then show ?case using prepare_inv [of "r_front s" reply] by simp
next
  case (set_start k s g f')
  then show ?case using set_begin_inv [of "r_front s" k] by simp
qed (auto simp: warm_done_inv set_admit_inv set_finally_inv intro: get_prepared_inv)

lemma uc_reachable_front_inv: "uc_reachable f lag outage s \<Longrightarrow> front_inv (r_front s)"
proof (induction rule: uc_reachable.induct)
  case init
  then show ?case
    by (simp add: init_replica_def init_front_def front_inv_def accounted_def bytes_of_def LOCAL_FRONT_MAX_BYTES_def)
qed (rule uc_step_front_inv)


section \<open>The front never outlives an invalidation\<close>

definition epoch_ok :: "replica \<Rightarrow> nat option \<Rightarrow> bool" where
  "epoch_ok s e \<longleftrightarrow> (\<exists>n. e = Some n \<and> n \<le> length (r_log s))"

definition entry_covered :: "rat \<Rightarrow> (rat \<times> tag_call) list \<Rightarrow> local_entry \<Rightarrow> bool" where
  "entry_covered lag calls e \<longleftrightarrow> covered calls (le_tags e @ le_verifiedSoftTags e) (le_timestamp e + lag)"

fun job_ok :: "rat \<Rightarrow> replica \<Rightarrow> job \<Rightarrow> bool" where
  "job_ok lag s (Warm k soft e g) = epoch_ok s e"
| "job_ok lag s (WarmRead k soft e g rd) = (epoch_ok s e \<and>
     (\<forall>r rv. rd = Inr (Some r) \<and> sr_freshness r = Fresh rv \<longrightarrow>
        entry_covered lag (take (the e) (r_log s)) (local_of_read soft r rv)))"
| "job_ok lag s (Admit ivk k entry ex rv buf g) = epoch_ok s (inv_epoch ivk)"
| "job_ok lag s (AdmitRead ivk k entry ex rv buf g m c) = (epoch_ok s (inv_epoch ivk) \<and>
     (let tags = capTags (ne_tags entry) @ opt_list (map_of (inv_softTags ivk) k);
          ts = ne_timestamp entry + serverNow c - localNow c
      in serverNow c - localNow c = lag \<and>
         (\<forall>x. evaluateEntry \<lparr>e_timestamp = ts, e_revalidate = rv, e_expire = ex, e_tags = tags\<rparr> m (serverNow c) = Fresh x \<longrightarrow>
            covered (take (the (inv_epoch ivk)) (r_log s)) tags ts)))"

definition front_coherent :: "rat \<Rightarrow> (rat \<times> tag_call) list \<Rightarrow> front \<Rightarrow> bool" where
  "front_coherent lag lg f \<longleftrightarrow>
     (case manifestEpoch f of
        None \<Rightarrow> localEntries f = []
      | Some n \<Rightarrow> n \<le> length lg \<and> (\<forall>(k, e) \<in> set (localEntries f). entry_covered lag (take n lg) e))"

definition coherent :: "rat \<Rightarrow> replica \<Rightarrow> bool" where
  "coherent lag s \<longleftrightarrow> execution (r_log s) \<and> (\<forall>r \<in> set (r_replies s). epoch_ok s r) \<and>
     (\<forall>ivk \<in> set (r_invs s). epoch_ok s (inv_epoch ivk)) \<and> (\<forall>j \<in> set (r_jobs s). job_ok lag s j) \<and>
     front_coherent lag (r_log s) (r_front s)"

lemma epoch_ok_cong: "r_log t = r_log s \<Longrightarrow> epoch_ok t e = epoch_ok s e"
  by (simp add: epoch_ok_def)

lemma job_ok_cong: "r_log t = r_log s \<Longrightarrow> job_ok lag t j = job_ok lag s j"
  by (cases j) (simp_all add: epoch_ok_cong [of t s])

lemma epoch_ok_call: "epoch_ok s e \<Longrightarrow> epoch_ok (s\<lparr>r_log := r_log s @ xs\<rparr>) e"
  by (auto simp: epoch_ok_def)

lemma job_ok_call: "job_ok lag s j \<Longrightarrow> job_ok lag (s\<lparr>r_log := r_log s @ xs\<rparr>) j"
  by (cases j) (auto simp: epoch_ok_def entry_covered_def Let_def)

lemma coherent_front:
  "coherent lag s \<Longrightarrow> front_coherent lag (r_log s) f' \<Longrightarrow> coherent lag (s\<lparr>r_front := f'\<rparr>)"
  unfolding coherent_def by (simp add: epoch_ok_cong [of "s\<lparr>r_front := f'\<rparr>" s] job_ok_cong [of "s\<lparr>r_front := f'\<rparr>" s])

lemma coherent_job:
  "coherent lag s \<Longrightarrow> job_ok lag s j \<Longrightarrow> coherent lag (s\<lparr>r_jobs := j # r_jobs s\<rparr>)"
  unfolding coherent_def
  by (simp add: epoch_ok_cong [of "s\<lparr>r_jobs := j # r_jobs s\<rparr>" s] job_ok_cong [of "s\<lparr>r_jobs := j # r_jobs s\<rparr>" s])

text \<open>Operations that only drop entries, or add a covered one under the current epoch, keep coherence.\<close>

lemma front_coherent_shrink:
  "front_coherent lag lg f \<Longrightarrow> set (localEntries f') \<subseteq> set (localEntries f) \<Longrightarrow> manifestEpoch f' = manifestEpoch f \<Longrightarrow>
     front_coherent lag lg f'"
  unfolding front_coherent_def by (auto split: option.splits)

lemma front_coherent_put:
  assumes "front_coherent lag lg f" "front_inv f" "manifestEpoch f = Some n" "entry_covered lag (take n lg) e"
  shows "front_coherent lag lg (putLocalEntry k e f)"
  using assms put_spec [OF assms(2), of k e] unfolding front_coherent_def by auto

lemma prepare_coherent:
  assumes "front_coherent lag lg f" "reply = Some n" "n \<le> length lg"
  shows "front_coherent lag lg (snd (prepareForInvocation reply f))"
  using assms by (auto simp: prepareForInvocation_def front_coherent_def clearLocalEntries_def split: option.splits)

lemma warm_done_coherent:
  assumes "front_coherent lag (r_log s) f" "front_inv f" "job_ok lag s (WarmRead k soft e g rd)"
  shows "front_coherent lag (r_log s) (warm_done k soft e g rd f)"
proof -
  have "front_coherent lag (r_log s) (putLocalEntry k (local_of_read soft r rv) f)"
    if "rd = Inr (Some r)" "sr_freshness r = Fresh rv" "manifestEpoch f = e" for r rv
    using assms that by (auto simp: epoch_ok_def intro!: front_coherent_put)
  moreover have "front_coherent lag (r_log s) (h\<lparr>warming := w\<rparr>) = front_coherent lag (r_log s) h" for h w
    by (simp add: front_coherent_def split: option.split)
  ultimately show ?thesis
    using assms(1) by (auto simp: warm_done_def Let_def split: sum.split option.split freshness.split)
qed

lemma set_admit_coherent:
  assumes "front_coherent lag (r_log s) f" "front_inv f" "job_ok lag s (AdmitRead ivk k entry ex rv buf g m c)"
  shows "front_coherent lag (r_log s) (set_admit ivk k entry ex rv buf g m c f)"
proof -
  let ?soft = "opt_list (map_of (inv_softTags ivk) k)"
  let ?tags = "capTags (ne_tags entry) @ ?soft"
  let ?ts = "ne_timestamp entry + serverNow c - localNow c"
  obtain n where n: "inv_epoch ivk = Some n" using assms(3) by (auto simp: epoch_ok_def)
  have ts: "?ts = ne_timestamp entry + lag" using assms(3) by (auto simp: Let_def)
  have "front_coherent lag (r_log s) (putLocalEntry k e f)"
    if "evaluateEntry \<lparr>e_timestamp = ?ts, e_revalidate = rv, e_expire = ex, e_tags = ?tags\<rparr> m (serverNow c) = Fresh x"
      "inv_epoch ivk = manifestEpoch f" "le_tags e = capTags (ne_tags entry)" "le_verifiedSoftTags e = ?soft"
      "le_timestamp e = ne_timestamp entry" for x e
  proof (rule front_coherent_put [OF assms(1,2)])
    show "manifestEpoch f = Some n" using that(2) n by simp
    show "entry_covered lag (take n (r_log s)) e"
      using assms(3) that(1,3-) ts by (simp add: n entry_covered_def Let_def)
  qed
  then show ?thesis
    using assms(1) by (auto simp: set_admit_def Let_def split: freshness.split)
qed

lemma get_prepared_front:
  assumes "front_inv f" "get_prepared ivk k soft now f = (r, job, ivk', f')"
  shows "set (localEntries f') \<subseteq> set (localEntries f) \<and> manifestEpoch f' = manifestEpoch f \<and>
    inv_epoch ivk' = inv_epoch ivk \<and> (\<forall>e g. job = Some (e, g) \<longrightarrow> e = inv_epoch ivk)"
proof -
  obtain q f1 where "readLocalEntry k soft now f = (q, f1)" by fastforce
  then show ?thesis
    using assms read_local_spec [OF assms(1), of k soft now q f1]
    by (auto simp: get_prepared_def warmLocalEntry_def Let_def split: if_splits option.splits)
qed


lemma readStored_Some:
  assumes "readStored env soft = Inr (Some r)"
  obtains m clock where "uc_tag_states env (m_tags (sr_meta r) @ soft) = Inr m" "u_clock env = Inr clock"
    "sr_freshness r = evaluateEntry (entry_of_meta (sr_meta r) (m_tags (sr_meta r) @ soft)) m (serverNow clock)"
    "sr_localTimestamp r = toLocal clock (m_timestamp (sr_meta r))"
    "sr_tagExpiresAt r = map_option (toLocal clock) (nextTagExpiration (m_timestamp (sr_meta r)) m (m_tags (sr_meta r) @ soft))"
proof -
  obtain mb v meta where h: "u_hash env = Inr (mb, Some v)" "Option.bind mb parseStoredMeta = Some meta"
    using assms unfolding readStored_def
    by (cases "u_hash env") (auto split: option.splits prod.splits)
  obtain m where m: "uc_tag_states env (m_tags meta @ soft) = Inr m"
    using assms h unfolding readStored_def by (cases "uc_tag_states env (m_tags meta @ soft)") auto
  obtain clock where c: "u_clock env = Inr clock"
    using assms h m unfolding readStored_def by (cases "u_clock env") auto
  have "sr_meta r = meta" "sr_freshness r = evaluateEntry (entry_of_meta meta (m_tags meta @ soft)) m (serverNow clock)"
    "sr_localTimestamp r = toLocal clock (m_timestamp meta)"
    "sr_tagExpiresAt r = map_option (toLocal clock) (nextTagExpiration (m_timestamp meta) m (m_tags meta @ soft))"
    using assms h m c unfolding readStored_def by (auto simp: Let_def split: if_splits)
  with that m c show ?thesis by simp
qed

text \<open>The two reads: what they leave is covered by every call before the read.\<close>

lemma warm_read_ok:
  assumes "execution (r_log s)" "readable (r_log s) now" "now \<le> now'" "epoch_ok s e"
    "env = \<lparr>u_hash = h, u_manifest = (\<lambda>tags. Inr (tagStates (store_at f (r_log s) now) tags)),
            u_clock = Inr \<lparr>serverNow = now', localNow = now' - lag\<rparr>\<rparr>"
  shows "job_ok lag s (WarmRead k soft e g (readStored env soft))"
proof -
  have "entry_covered lag (take n (r_log s)) (local_of_read soft r rv)"
    if "readStored env soft = Inr (Some r)" "sr_freshness r = Fresh rv" for r rv n
  proof -
    let ?tags = "m_tags (sr_meta r) @ soft"
    note fresh = that(2)
    from readStored_Some [OF that(1)] obtain m clock where r: "uc_tag_states env ?tags = Inr m" "u_clock env = Inr clock"
      "sr_freshness r = evaluateEntry (entry_of_meta (sr_meta r) ?tags) m (serverNow clock)"
      "sr_localTimestamp r = toLocal clock (m_timestamp (sr_meta r))" by metis
    have c: "clock = \<lparr>serverNow = now', localNow = now' - lag\<rparr>" using r(2) unfolding assms(5) by simp
    have m: "uc_tag_states env ?tags = Inr m" "evaluateEntry (entry_of_meta (sr_meta r) ?tags) m now' = Fresh rv"
      "sr_localTimestamp r + lag = m_timestamp (sr_meta r)"
      using r(1) r(3) [unfolded fresh] r(4) unfolding c by (simp_all add: toLocal_def)
    have "m = tagStates (store_at f (r_log s) now) ?tags"
      using m(1) by (auto simp: uc_tag_states_def assms(5) tagStates_def split: if_splits)
    then have "covered (take n (r_log s)) ?tags (sr_localTimestamp r + lag)"
      using ta.fresh_covered_prefix [OF assms(1-3), of "entry_of_meta (sr_meta r) ?tags" f rv] m(2,3)
      by (simp add: entry_of_meta_def)
    then have "covered (take n (r_log s)) (m_tags (sr_meta r) @ capTags soft) (sr_localTimestamp r + lag)"
      by (rule covered_tags_mono) (use capTags_subset in auto)
    then show ?thesis by (simp add: entry_covered_def local_of_read_def)
  qed
  then show ?thesis using assms(4) by simp
qed

lemma admit_read_ok:
  assumes "execution (r_log s)" "readable (r_log s) now" "now \<le> now'" "epoch_ok s (inv_epoch ivk)"
    "tags = capTags (ne_tags entry) @ opt_list (map_of (inv_softTags ivk) k)"
  shows "job_ok lag s (AdmitRead ivk k entry ex rv buf g (tagStates (store_at f (r_log s) now) tags)
    \<lparr>serverNow = now', localNow = now' - lag\<rparr>)"
  using assms(4) ta.fresh_covered_prefix [OF assms(1-3),
      of "\<lparr>e_timestamp = ne_timestamp entry + lag, e_revalidate = rv, e_expire = ex, e_tags = tags\<rparr>" f]
  by (auto simp: Let_def assms(5))

lemma uc_step_coherent:
  assumes "uc_step f lag False s t" "coherent lag s" "front_inv (r_front s)"
  shows "coherent lag t"
  using assms
proof (induction rule: uc_step.induct)
  case (call s now c)
  have "epoch_ok s e \<Longrightarrow> epoch_ok (s\<lparr>r_log := r_log s @ [(now, c)]\<rparr>) e"
    "job_ok lag s j \<Longrightarrow> job_ok lag (s\<lparr>r_log := r_log s @ [(now, c)]\<rparr>) j" for e j
    using epoch_ok_call job_ok_call by blast+
  with call show ?case
    unfolding coherent_def front_coherent_def by (auto split: option.splits)
next
  case (update tags d now s calls f')
  then have "front_coherent lag (r_log s) f'"
    by (auto simp: updateTags_def coherent_def front_coherent_def clearLocalEntries_def split: if_splits)
  with update show ?case by (simp add: coherent_front)
next
  case (epoch_read s now)
  then have "read_epoch (store_at f (r_log s) now) = Some (length (r_log s))"
    using ta.epoch_counts by (simp add: coherent_def)
  then have "epoch_ok s (read_epoch (store_at f (r_log s) now))" by (simp add: epoch_ok_def)
  with epoch_read show ?case
    unfolding coherent_def by (auto simp: epoch_ok_cong [of "r_replies_update g s" s for g] job_ok_cong [of "r_replies_update g s" s for g])
next
  case (prepare reply s ivk f')
  obtain n where n: "reply = Some n" "n \<le> length (r_log s)"
    using prepare by (auto simp: coherent_def epoch_ok_def)
  have fc: "front_coherent lag (r_log s) f'"
    using prepare_coherent [OF _ n, of lag "r_front s"] prepare by (auto simp: coherent_def)
  have ep: "epoch_ok s (inv_epoch ivk)"
    using prepare(2) n by (auto simp: prepareForInvocation_def epoch_ok_def)
  let ?t = "s\<lparr>r_front := f', r_invs := ivk # r_invs s, r_replies := remove1 reply (r_replies s)\<rparr>"
  have "epoch_ok ?t e = epoch_ok s e" "job_ok lag ?t j = job_ok lag s j" for e j
    by (rule epoch_ok_cong, simp, rule job_ok_cong, simp)
  with fc ep prepare(3) set_remove1_subset [of reply "r_replies s"] show ?case
    unfolding coherent_def by auto
next
  case (get ivk s k soft now res job ivk' f')
  note gf = get_prepared_front [OF get(4) get(2)]
  let ?t = "s\<lparr>r_front := f', r_invs := ivk' # r_invs s, r_jobs := started k soft job @ r_jobs s\<rparr>"
  have cong: "epoch_ok ?t e = epoch_ok s e" "job_ok lag ?t j = job_ok lag s j" for e j
    by (rule epoch_ok_cong, simp, rule job_ok_cong, simp)
  have ep: "epoch_ok s (inv_epoch ivk)" using get(1,3) by (auto simp: coherent_def)
  have "\<forall>j \<in> set (started k soft job). job_ok lag s j"
    using ep gf by (auto simp: started_def split: option.splits)
  moreover have "front_coherent lag (r_log s) f'"
    using get(3) gf front_coherent_shrink [of lag "r_log s" "r_front s" f'] by (simp add: coherent_def)
  ultimately show ?case
    using get(3) gf ep unfolding coherent_def by (auto simp: cong)
next
  case (warm_read k soft e g s now now' env h)
  then have "epoch_ok s e" "execution (r_log s)" by (auto simp: coherent_def)
  then have "job_ok lag s (WarmRead k soft e g (readStored env soft))"
    using warm_read_ok [OF _ warm_read(2,3)] warm_read(4) by blast
  with warm_read show ?case by (simp add: coherent_job)
next
  case (warm_fail k soft e g s)
  then have "job_ok lag s (WarmRead k soft e g (Inl Unavailable))" by (auto simp: coherent_def)
  with warm_fail show ?case by (simp add: coherent_job)
next
  case (warm_end k soft e g rd s)
  let ?j = "WarmRead k soft e g rd"
  have "front_coherent lag (r_log s) (warm_done k soft e g rd (r_front s))"
    using warm_end by (intro warm_done_coherent) (auto simp: coherent_def)
  then have c: "coherent lag (s\<lparr>r_front := warm_done k soft e g rd (r_front s)\<rparr>)"
    using warm_end by (simp add: coherent_front)
  have "job_ok lag (s\<lparr>r_front := f', r_jobs := js\<rparr>) j = job_ok lag s j"
    "epoch_ok (s\<lparr>r_front := f', r_jobs := js\<rparr>) e = epoch_ok s e"
    "job_ok lag (s\<lparr>r_front := f'\<rparr>) j = job_ok lag s j" "epoch_ok (s\<lparr>r_front := f'\<rparr>) e = epoch_ok s e" for f' js j e
    by (rule job_ok_cong, simp, rule epoch_ok_cong, simp, rule job_ok_cong, simp, rule epoch_ok_cong, simp)
  with c set_remove1_subset [of ?j "r_jobs s"] show ?case
    unfolding coherent_def by auto
next
  case (set_start k s g f')
  then have "set (localEntries f') \<subseteq> set (localEntries (r_front s))" "manifestEpoch f' = manifestEpoch (r_front s)"
    by (auto simp: set_begin_def remove_entries jsmap_delete_def Let_def)
  with set_start show ?case
    using front_coherent_shrink [of lag "r_log s" "r_front s" f'] by (intro coherent_front) (auto simp: coherent_def)
next
  case (set_stored ivk s entry buf rq ex rv k g)
  then have "job_ok lag s (Admit ivk k entry ex rv buf g)" by (auto simp: coherent_def)
  with set_stored show ?case by (simp add: coherent_job)
next
  case (admit_read ivk k entry ex rv buf g s now now' tags)
  then have "epoch_ok s (inv_epoch ivk)" "execution (r_log s)" by (auto simp: coherent_def)
  from coherent_job [OF admit_read(5) admit_read_ok [OF this(2) admit_read(2,3) this(1) admit_read(4)]]
  show ?case .
next
  case (admit_end ivk k entry ex rv buf g m c s)
  then show ?case by (intro coherent_front set_admit_coherent) (auto simp: coherent_def)
next
  case (set_end s k g)
  have "set (localEntries (set_finally k g (r_front s))) \<subseteq> set (localEntries (r_front s))"
    "manifestEpoch (set_finally k g (r_front s)) = manifestEpoch (r_front s)"
    by (auto simp: set_finally_def)
  with set_end show ?case
    using front_coherent_shrink [of lag "r_log s" "r_front s"] by (intro coherent_front) (auto simp: coherent_def)
qed simp


lemma uc_reachable_coherent: "uc_reachable f lag False s \<Longrightarrow> coherent lag s"
proof (induction rule: uc_reachable.induct)
  case init
  then show ?case
    by (simp add: init_replica_def init_front_def coherent_def front_coherent_def execution_def)
next
  case (step s t)
  then show ?case using uc_step_coherent uc_reachable_front_inv by blast
qed

section \<open>The front's clock\<close>

lemma nextTagExpiration_iff:
  "(case nextTagExpiration ts m tags of None \<Rightarrow> False | Some d \<Rightarrow> d \<le> now) \<longleftrightarrow> areTagsExpired tags ts m now"
proof (induction tags)
  case (Cons t tags)
  show ?case
  proof (cases "watermark ts_expired m t")
    case None
    with Cons show ?thesis by simp
  next
    case (Some x)
    with Cons show ?thesis
      by (cases "nextTagExpiration ts m tags") (auto simp: min_le_iff_disj Let_def)
  qed
qed simp

text \<open>The local entry a check leaves, for a sample \<open>clock\<close> and the manifest it read.\<close>

definition admitted_entry :: "cache_entry \<Rightarrow> string list \<Rightarrow> tag_manifest \<Rightarrow> clock_sample \<Rightarrow> local_entry \<Rightarrow> bool" where
  "admitted_entry e soft m clock le \<longleftrightarrow>
     le_tagExpiresAt le = map_option (toLocal clock) (nextTagExpiration (e_timestamp e) m (e_tags e)) \<and>
     le_timestamp le = toLocal clock (e_timestamp e) \<and> le_expire le = e_expire e \<and>
     le_revalidate le = e_revalidate e \<and> le_verifiedSoftTags le = soft"

section \<open>Two runs\<close>

text \<open>
  A write that is admitted and served, and the run in which a failed preflight lets an entry into
  the front that a later invalidation does not remove.
\<close>

lemma put_empty:
  assumes "localEntries f = []" "localBytes f = 0" "localEntrySize k e \<le> 52428800"
  shows "putLocalEntry k e f = f\<lparr>localEntries := [(k, e)], localBytes := int (localEntrySize k e)\<rparr>"
  using assms
  by (simp add: putLocalEntry_def removeLocalEntry_def evict_front.simps LOCAL_FRONT_MAX_BYTES_def LOCAL_FRONT_MAX_ENTRIES_def)

definition tag_a_call :: tag_call where
  "tag_a_call = \<lparr>c_client = 7, c_durations = None, c_tags = [''a'']\<rparr>"

definition tag_x_call :: tag_call where
  "tag_x_call = \<lparr>c_client = 7, c_durations = None, c_tags = [''x'']\<rparr>"

definition demo_entry :: new_entry where
  "demo_entry = \<lparr>ne_tags = [''a''], ne_stale = 0, ne_timestamp = 2000, ne_expire = Secs 3600, ne_revalidate = Secs 900\<rparr>"

definition demo_local :: local_entry where
  "demo_local = \<lparr>le_tagExpiresAt = None, le_tags = [''a''], le_verifiedSoftTags = [], le_stale = 0,
     le_timestamp = 2000, le_expire = 3600, le_revalidate = 900, le_value = ''body''\<rparr>"

definition demo_manifest :: "(rat \<times> tag_call) list \<Rightarrow> tag_manifest" where
  "demo_manifest lg = tagStates (store_at no_number lg 2500) [''a'']"

lemma demo_tags: "capTags [''a''] = [''a'']"
  by (simp add: capTags_def maxTagLength_def isRootParamTag_def reserved_bytes_def tagCostBytes_def utf8_length_def
      MAX_TAG_BYTES_PER_ENTRY_def MAX_SOFT_TAG_LENGTH_def MAX_EXPLICIT_TAG_LENGTH_def Let_def)

lemma demo_size: "localEntrySize ''k'' demo_local \<le> 52428800"
  by (simp add: localEntrySize_def demo_local_def LOCAL_ENTRY_OVERHEAD_BYTES_def utf8_length_def)

lemma demo_request: "\<exists>rq. set_request demo_entry (Some ''body'') = Some rq"
  by (simp add: set_request_def demo_entry_def)

text \<open>A finished write whose tags were last updated at 1000 is admitted into an empty front.\<close>

lemma demo_admit:
  assumes "lg = [(1000, tag_a_call)] \<or> lg = [(1000, tag_x_call)]"
    "localEntries f = []" "localBytes f = 0" "inv_epoch ivk = manifestEpoch f" "backingAvailable f"
    "inv_softTags ivk = []" "writeGeneration f = 0"
  shows "set_admit ivk ''k'' demo_entry 3600 900 ''body'' 0 (demo_manifest lg) \<lparr>serverNow = 2500, localNow = 2500\<rparr> f =
    f\<lparr>localEntries := [(''k'', demo_local)], localBytes := int (localEntrySize ''k'' demo_local)\<rparr>"
proof -
  have ex: "execution lg" "lg \<noteq> []" "2500 \<le> fst (last lg) + TAG_MANIFEST_TTL_SECONDS * 1000"
    using assms(1) by (auto simp: execution_def tag_a_call_def tag_x_call_def TAG_MANIFEST_EPOCH_FIELD_def TAG_MANIFEST_TTL_SECONDS_def)
  have m: "demo_manifest lg = next_updates lg Map.empty |` {''a''}"
    unfolding demo_manifest_def by (simp add: tagStates_execution [OF ex])
  have wm: "watermark ts_expired (demo_manifest lg) ''a'' = None \<or> watermark ts_expired (demo_manifest lg) ''a'' = Some 1000"
      "watermark ts_stale (demo_manifest lg) ''a'' = None"
    using assms(1) by (auto simp: m watermark_def next_update_def computeTagUpdate_def tag_a_call_def tag_x_call_def)
  have "evaluateEntry \<lparr>e_timestamp = 2000, e_revalidate = 900, e_expire = 3600, e_tags = [''a'']\<rparr> (demo_manifest lg) 2500 = Fresh 900"
    using wm by (auto simp: evaluateEntry_def)
  moreover have "nextTagExpiration 2000 (demo_manifest lg) [''a''] = None" using wm by auto
  ultimately show ?thesis
    using assms(4-) put_empty [OF assms(2,3) demo_size]
    by (simp add: set_admit_def demo_entry_def demo_tags opt_list_def demo_local_def [symmetric] Let_def)
qed

lemma demo_serve:
  assumes "localEntries f = [(''k'', demo_local)]" "inv_epoch ivk = manifestEpoch f"
  shows "\<exists>job ivk' f'. get_prepared ivk ''k'' [] 3500 f =
    (Some \<lparr>cr_value = ''body'', cr_tags = [''a''], cr_stale = 0, cr_timestamp = 2000, cr_expire = 3600, cr_revalidate = 900\<rparr>,
     job, ivk', f')"
  using assms by (simp add: get_prepared_def readLocalEntry_def demo_local_def evaluateEntry_def entry_of_local_def Let_def)

definition demo_front :: "nat option \<Rightarrow> (string, local_entry) jsmap \<Rightarrow> front" where
  "demo_front ep es = \<lparr>localEntries = es, localBytes = bytes_of es, manifestEpoch = ep, backingAvailable = True,
     warming = [], writeGeneration = 0, pendingSets = []\<rparr>"

definition demo_inv :: "nat option \<Rightarrow> invocation" where
  "demo_inv ep = \<lparr>inv_epoch = ep, inv_softTags = []\<rparr>"

lemma demo_admitted:
  assumes r: "uc_reachable no_number 0 outage s" and f: "r_front s = demo_front ep []" and i: "demo_inv ep \<in> set (r_invs s)"
    and l: "r_log s = [(1000, tag_a_call)] \<or> r_log s = [(1000, tag_x_call)]"
  shows "\<exists>t. uc_reachable no_number 0 outage t \<and> r_front t = demo_front ep [(''k'', demo_local)] \<and>
    r_log t = r_log s \<and> r_invs t = r_invs s \<and> r_replies t = r_replies s"
proof -
  have adm: "set_admission (demo_inv ep) (r_front s)" by (simp add: set_admission_def f demo_front_def demo_inv_def)
  obtain rq where rq: "set_request demo_entry (Some ''body'') = Some rq" using demo_request by blast
  let ?s1 = "s\<lparr>r_jobs := Admit (demo_inv ep) ''k'' demo_entry 3600 900 ''body'' 0 # r_jobs s\<rparr>"
  have r1: "uc_reachable no_number 0 outage ?s1"
    using uc_step.set_stored [OF i adm rq, of 3600 900 no_number 0 outage "''k''" 0]
    by (intro uc_reachable.step [OF r]) (simp add: demo_entry_def)
  have rd: "readable (r_log ?s1) 2500"
    using l by (auto simp: readable_def TAG_MANIFEST_TTL_SECONDS_def)
  let ?j = "AdmitRead (demo_inv ep) ''k'' demo_entry 3600 900 ''body'' 0 (demo_manifest (r_log s)) \<lparr>serverNow = 2500, localNow = 2500\<rparr>"
  let ?s2 = "?s1\<lparr>r_jobs := ?j # r_jobs ?s1\<rparr>"
  have r2: "uc_reachable no_number 0 outage ?s2"
  proof (rule uc_reachable.step [OF r1])
    have "[''a''] = capTags (ne_tags demo_entry) @ opt_list (map_of (inv_softTags (demo_inv ep)) ''k'')"
      by (simp add: demo_entry_def demo_tags demo_inv_def opt_list_def)
    from uc_step.admit_read [where s = ?s1 and now = 2500 and now' = 2500, OF _ rd order_refl this, of 3600 900 "''body''" 0 no_number 0 outage]
    show "uc_step no_number 0 outage ?s1 ?s2" by (simp add: demo_manifest_def)
  qed
  let ?s3 = "?s2\<lparr>r_front := set_admit (demo_inv ep) ''k'' demo_entry 3600 900 ''body'' 0 (demo_manifest (r_log s))
      \<lparr>serverNow = 2500, localNow = 2500\<rparr> (r_front ?s2)\<rparr>"
  have r3: "uc_reachable no_number 0 outage ?s3"
    by (intro uc_reachable.step [OF r2] uc_step.admit_end) simp
  have "r_front ?s3 = demo_front ep [(''k'', demo_local)]"
    using demo_admit [OF l, of "demo_front ep []" "demo_inv ep"] f
    by (simp add: demo_front_def demo_inv_def bytes_of_def)
  with r3 show ?thesis by (intro exI [of _ ?s3]) simp
qed

text \<open>A preflight that reads the epoch: the reply and the prepared invocation.\<close>

lemma reach_call:
  assumes "uc_reachable f lag outage s" "execution (r_log s @ [(now, c)])"
  shows "\<exists>t. uc_reachable f lag outage t \<and> r_front t = r_front s \<and> r_log t = r_log s @ [(now, c)] \<and> r_invs t = r_invs s"
  using uc_reachable.step [OF assms(1) uc_step.call [where s = s, OF assms(2)]]
  by (intro exI [of _ "s\<lparr>r_log := r_log s @ [(now, c)]\<rparr>"]) simp

lemma reach_prepare:
  assumes "uc_reachable f lag outage s" "execution (r_log s)" "readable (r_log s) now"
    "f' = snd (prepareForInvocation (Some (length (r_log s))) (r_front s))"
  shows "\<exists>t. uc_reachable f lag outage t \<and> r_front t = f' \<and> r_log t = r_log s \<and>
    r_invs t = demo_inv (Some (length (r_log s))) # r_invs s"
proof -
  let ?n = "length (r_log s)"
  let ?s1 = "s\<lparr>r_replies := Some ?n # r_replies s\<rparr>"
  have r1: "uc_reachable f lag outage ?s1"
    using uc_step.epoch_read [where s = s, OF assms(3), of f lag outage] ta.epoch_counts [OF assms(2,3), of f]
    by (intro uc_reachable.step [OF assms(1)]) simp
  have p: "prepareForInvocation (Some ?n) (r_front ?s1) = (demo_inv (Some ?n), f')"
    using assms(4) by (simp add: prepareForInvocation_def demo_inv_def)
  let ?t = "?s1\<lparr>r_front := f', r_invs := demo_inv (Some ?n) # r_invs ?s1, r_replies := remove1 (Some ?n) (r_replies ?s1)\<rparr>"
  have "uc_reachable f lag outage ?t"
    by (rule uc_reachable.step [OF r1 uc_step.prepare [OF _ p]]) simp
  then show ?thesis by (intro exI [of _ ?t]) simp
qed

lemma demo_executions:
  "execution [(1000, tag_a_call)]" "execution [(1000, tag_x_call)]" "execution [(1000, tag_x_call), (3000, tag_a_call)]"
  by (simp_all add: execution_def tag_a_call_def tag_x_call_def TAG_MANIFEST_EPOCH_FIELD_def TAG_MANIFEST_TTL_SECONDS_def)

lemma demo_prepare: "snd (prepareForInvocation (Some n) (demo_front None es)) = demo_front (Some n) es"
  by (simp add: prepareForInvocation_def demo_front_def)

lemma init_demo_front: "r_front init_replica = demo_front None []" "r_log init_replica = []" "r_invs init_replica = []"
  by (simp_all add: init_replica_def init_front_def demo_front_def bytes_of_def)

lemma served_run:
  "\<exists>s. uc_reachable no_number 0 False s \<and> r_front s = demo_front (Some 1) [(''k'', demo_local)] \<and>
     r_log s = [(1000, tag_a_call)] \<and> demo_inv (Some 1) \<in> set (r_invs s)"
proof -
  obtain s1 where s1: "uc_reachable no_number 0 False s1" "r_front s1 = demo_front None []" "r_log s1 = [(1000, tag_a_call)]"
    using reach_call [OF uc_reachable.init, of 1000 tag_a_call no_number 0 False] demo_executions(1) by (auto simp: init_demo_front)
  have rd: "readable (r_log s1) 1500" using s1(3) by (simp add: readable_def TAG_MANIFEST_TTL_SECONDS_def)
  obtain s2 where s2: "uc_reachable no_number 0 False s2" "r_front s2 = demo_front (Some 1) []"
      "r_log s2 = [(1000, tag_a_call)]" "demo_inv (Some 1) \<in> set (r_invs s2)"
    using reach_prepare [OF s1(1) _ rd refl] demo_executions(1) s1(2,3) by (auto simp: demo_prepare)
  show ?thesis using demo_admitted [OF s2(1,2,4)] s2(3,4) by metis
qed

section \<open>Properties\<close>

text \<open>
  The front stays bounded. In every state a replica can reach, whatever the interleaving of
  reads, background warms, writes, tag updates and failures, the byte counter is exactly the size
  of the entries held, it is at most 50 MiB, at most 10000 entries are held, and at most 64 warms
  run, each for a different key.
\<close>

theorem use_cache_front_bounds:
  assumes "uc_reachable str2num lag outage s"
  shows "localBytes (r_front s) = sum_list (map (\<lambda>(k, e). int (localEntrySize k e)) (localEntries (r_front s))) \<and>
         localBytes (r_front s) \<le> 52428800 \<and> length (localEntries (r_front s)) \<le> 10000 \<and>
         distinct (warming (r_front s)) \<and> length (warming (r_front s)) \<le> 64"
  using uc_reachable_front_inv [OF assms]
  by (simp add: front_inv_def accounted_def bytes_of_def LOCAL_FRONT_MAX_BYTES_def LOCAL_FRONT_MAX_ENTRIES_def
      LOCAL_FRONT_MAX_CONCURRENT_WARMS_def)

theorem use_cache_front_bounds_witness:
  "localBytes (snd (set_begin ''k'' init_front)) = 0 \<and> length (warming (snd (set_begin ''k'' init_front))) \<le> 64"
proof -
  have "uc_reachable no_number 0 False (init_replica\<lparr>r_front := snd (set_begin ''k'' init_front)\<rparr>)"
    using uc_reachable.step [OF uc_reachable.init uc_step.set_start [of "''k''" init_replica "fst (set_begin ''k'' init_front)"
          "snd (set_begin ''k'' init_front)"]] by (simp add: init_replica_def)
  from use_cache_front_bounds [OF this] show ?thesis
    by (simp add: init_replica_def init_front_def set_begin_def removeLocalEntry_def Let_def)
qed

text \<open>
  C3: In a replica in which no preflight has failed (\<open>outage\<close> is false) and whose clock is behind the
  server's by a constant \<open>lag\<close>, a prepared read never serves what was invalidated before its preflight: an
  entry served to an invocation prepared at epoch \<open>n\<close> was rendered no earlier than every one of the first \<open>n\<close>
  tag updates (those executed before the epoch was read, on any replica) that names one of its tags or
  of the request's implicit tags, both on the server's clock. The first condition is necessary:
  \<open>failed_preflight_admits_stale_entry\<close> is a run with one failed preflight in which a stale entry is served.
\<close>

theorem prepared_read_sees_invalidations:
  assumes "uc_reachable str2num lag False s" "ivk \<in> set (r_invs s)" "inv_epoch ivk = Some n"
    "get_prepared ivk cacheKey softTags now (r_front s) = (Some r, job, ivk', f')"
  shows "\<forall>(T, c) \<in> set (take n (r_log s)). \<forall>t \<in> set (cr_tags r) \<union> set softTags.
           t \<in> set (c_tags c) \<longrightarrow> T \<le> cr_timestamp r + lag"
proof -
  have co: "front_coherent lag (r_log s) (r_front s)"
    using uc_reachable_coherent [OF assms(1)] by (simp add: coherent_def)
  have ep: "manifestEpoch (r_front s) = Some n"
    using assms(3,4) by (auto simp: get_prepared_def split: if_splits)
  obtain f1 where rl: "readLocalEntry cacheKey softTags now (r_front s) = (Some r, f1)"
    using assms(3,4) ep by (auto simp: get_prepared_def Let_def split: option.splits prod.splits)
  then obtain e where e: "map_of (localEntries (r_front s)) cacheKey = Some e" "set softTags \<subseteq> set (le_verifiedSoftTags e)"
      "cr_tags r = le_tags e" "cr_timestamp r = le_timestamp e"
    by (cases "map_of (localEntries (r_front s)) cacheKey")
      (auto simp: readLocalEntry_def Let_def subset_iff split: if_splits)
  have "entry_covered lag (take n (r_log s)) e"
    using co ep map_of_SomeD [OF e(1)] by (auto simp: front_coherent_def)
  then have "covered (take n (r_log s)) (cr_tags r @ softTags) (cr_timestamp r + lag)"
    unfolding entry_covered_def e(3,4) by (rule covered_tags_mono) (use e(2) in auto)
  then show ?thesis unfolding covered_def by simp
qed

theorem prepared_read_sees_invalidations_witness:
  "\<exists>(s :: replica) r job ivk' f'. get_prepared (demo_inv (Some 1)) ''k'' [] 3500 (r_front s) = (Some r, job, ivk', f') \<and>
     r_log s = [(1000, tag_a_call)] \<and> cr_tags r = [''a''] \<and> 1000 \<le> cr_timestamp r"
proof -
  obtain s where s: "uc_reachable no_number 0 False s" "r_front s = demo_front (Some 1) [(''k'', demo_local)]"
      "r_log s = [(1000, tag_a_call)]" "demo_inv (Some 1) \<in> set (r_invs s)"
    using served_run by blast
  obtain r job ivk' f' where g: "get_prepared (demo_inv (Some 1)) ''k'' [] 3500 (r_front s) = (Some r, job, ivk', f')"
      "cr_tags r = [''a'']"
    using demo_serve [of "r_front s" "demo_inv (Some 1)"] s(2) by (auto simp: demo_front_def demo_inv_def)
  have "1000 \<le> cr_timestamp r"
    using prepared_read_sees_invalidations [OF s(1,4) _ g(1)] g(2) s(3) by (simp add: demo_inv_def tag_a_call_def)
  with g s(3) show ?thesis by blast
qed

text \<open>
  The front expires entries exactly when the manifest would. For an entry admitted with the
  manifest \<open>m\<close> it was checked against, a later local read serves it if and only if evaluating the
  entry against \<open>m\<close> at the translated server time does not expire it, and a served entry keeps
  its revalidate window.
\<close>

theorem front_read_matches_manifest:
  assumes "admitted_entry e soft m clock le" "map_of (localEntries f) k = Some le" "set softTags \<subseteq> set soft"
    "\<not> areTagsStale (e_tags e) (e_timestamp e) m"
  shows "map_option cr_revalidate (fst (readLocalEntry k softTags now f)) =
    (case evaluateEntry e m (now + (serverNow clock - localNow clock)) of Fresh r \<Rightarrow> Some r | _ \<Rightarrow> None)"
proof -
  let ?off = "serverNow clock - localNow clock"
  have tl: "toLocal clock x \<le> now \<longleftrightarrow> x \<le> now + ?off" "toLocal clock x + y < now \<longleftrightarrow> x + y < now + ?off" for x y
    by (auto simp: toLocal_def)
  have exp: "(case le_tagExpiresAt le of None \<Rightarrow> False | Some d \<Rightarrow> now \<ge> d) = areTagsExpired (e_tags e) (e_timestamp e) m (now + ?off)"
    using assms(1) nextTagExpiration_iff [where ts = "e_timestamp e" and m = m and tags = "e_tags e" and now = "now + ?off"]
    by (auto simp: admitted_entry_def tl split: option.splits)
  show ?thesis
    using assms exp tl(2) [of "e_timestamp e"]
    by (auto simp: readLocalEntry_def evaluateEntry_def entry_of_local_def admitted_entry_def Let_def)
qed

theorem front_read_matches_manifest_witness:
  "fst (readLocalEntry ''k'' [] 903000 (demo_front (Some 1) [(''k'', demo_local)])) = None"
proof -
  have "map_option cr_revalidate (fst (readLocalEntry ''k'' [] 903000 (demo_front (Some 1) [(''k'', demo_local)]))) =
      (case evaluateEntry \<lparr>e_timestamp = 2100, e_revalidate = 900, e_expire = 3600, e_tags = [''a'']\<rparr> Map.empty
         (903000 + (serverNow \<lparr>serverNow = 2600, localNow = 2500\<rparr> - localNow \<lparr>serverNow = 2600, localNow = 2500\<rparr>))
       of Fresh r \<Rightarrow> Some r | _ \<Rightarrow> None)"
    by (rule front_read_matches_manifest [where le = demo_local and soft = "[]"])
       (simp_all add: admitted_entry_def demo_local_def demo_front_def toLocal_def watermark_def)
  then show ?thesis by (simp add: evaluateEntry_def watermark_def)
qed

text \<open>
  The manifest outlives every entry it may have to invalidate. The key of a \<open>use cache\<close> entry
  is kept for at least a minute and at most 30 days, so whenever an entry stored at server time
  \<open>s\<close> can still be read, the manifest written by any tag update since \<open>s\<close> is still there.
\<close>

theorem manifest_outlives_entry:
  assumes "set_request entry body = Some rq"
    "STORE_USE_CACHE_ENTRY_SCRIPT s (q_meta rq) (q_value rq) (q_ttl rq) ts clientNow = Inr (us, flag)"
    "exec_call str2num T c st = (st', Some n)" "s \<le> T" "now \<le> us_deadline us"
  shows "live now st' = st' \<and> s + 60000 < us_deadline us"
proof -
  obtain expire revalidate where ttl: "q_ttl rq = uc_ttl expire revalidate"
    using assms(1) by (auto simp: set_request_def split: lifetime.splits if_splits option.splits)
  have "q_ttl rq \<le> \<lceil>DURABLE_TTL_SECONDS\<rceil>"
    unfolding ttl uc_ttl_def by (intro ceiling_mono) simp
  then have ub: "of_int (q_ttl rq) \<le> DURABLE_TTL_SECONDS"
    by (simp add: DURABLE_TTL_SECONDS_def)
  have "61 \<le> min (max (max expire revalidate) 1 + RETENTION_MARGIN_SECONDS) DURABLE_TTL_SECONDS"
    by (simp add: RETENTION_MARGIN_SECONDS_def DURABLE_TTL_SECONDS_def)
  then have "\<lceil>61 :: rat\<rceil> \<le> q_ttl rq"
    unfolding ttl uc_ttl_def by (rule ceiling_mono)
  then have lb: "60 < (of_int (q_ttl rq) :: rat)" by simp
  have dl: "us_deadline us = s + of_int (q_ttl rq) * 1000"
    using assms(2) by (auto simp: STORE_USE_CACHE_ENTRY_SCRIPT_def split: json.splits list.splits if_splits)
  have "expires_at st' = Some (T + TAG_MANIFEST_TTL_SECONDS * 1000)"
    using assms(3) by (auto simp: exec_call_def UPDATE_TAGS_SCRIPT_def TAG_MANIFEST_TTL_SECONDS_def split: prod.splits option.splits)
  moreover have "now \<le> T + TAG_MANIFEST_TTL_SECONDS * 1000"
    using assms(4,5) dl ub by (simp add: TAG_MANIFEST_TTL_SECONDS_def DURABLE_TTL_SECONDS_def)
  ultimately show ?thesis using dl lb by (simp add: live_def)
qed



theorem manifest_outlives_entry_witness:
  "\<exists>rq us flag. set_request demo_entry (Some ''body'') = Some rq \<and>
     STORE_USE_CACHE_ENTRY_SCRIPT 2000 (q_meta rq) (q_value rq) (q_ttl rq) 2000 2000 = Inr (us, flag) \<and>
     live (us_deadline us) (fst (exec_call no_number 3000 tag_a_call empty_store)) = fst (exec_call no_number 3000 tag_a_call empty_store)"
proof -
  obtain rq where rq: "set_request demo_entry (Some ''body'') = Some rq" using demo_request by blast
  obtain us flag where us: "STORE_USE_CACHE_ENTRY_SCRIPT 2000 (q_meta rq) (q_value rq) (q_ttl rq) 2000 2000 = Inr (us, flag)"
    using rq by (auto simp: set_request_def demo_entry_def STORE_USE_CACHE_ENTRY_SCRIPT_def)
  obtain st n where st: "exec_call no_number 3000 tag_a_call empty_store = (st, Some n)"
    using exec_call_rel [OF store_rel_empty order_refl, of 3000 tag_a_call no_number]
    by (auto simp: live_def empty_store_def tag_a_call_def TAG_MANIFEST_EPOCH_FIELD_def)
  from manifest_outlives_entry [OF rq us st _ order_refl] rq us st show ?thesis by simp
qed

text \<open>
  With a failed preflight the guarantee of the prepared read is lost. An invocation whose preflight
  failed has no epoch; after a later preflight succeeded and a tag update of this replica reset the
  front's epoch, its own write is admitted, because two missing epochs compare equal. The next
  preflight then finds no epoch to compare with, keeps the entry, and serves it although a peer
  has revalidated its tag in the meantime.
\<close>

theorem failed_preflight_admits_stale_entry:
  "\<exists>s n r job ivk' f'. uc_reachable no_number 0 True s \<and> demo_inv (Some n) \<in> set (r_invs s) \<and>
     get_prepared (demo_inv (Some n)) ''k'' [] 3500 (r_front s) = (Some r, job, ivk', f') \<and>
     (3000, tag_a_call) \<in> set (take n (r_log s)) \<and> ''a'' \<in> set (c_tags tag_a_call) \<and>
     ''a'' \<in> set (cr_tags r) \<and> cr_timestamp r < 3000"
proof -
  let ?s1 = "init_replica\<lparr>r_replies := [None]\<rparr>"
  have r1: "uc_reachable no_number 0 True ?s1"
    using uc_step.epoch_fail [of True no_number 0 init_replica]
    by (intro uc_reachable.step [OF uc_reachable.init]) (simp add: init_replica_def)
  let ?f2 = "(demo_front None [])\<lparr>backingAvailable := False\<rparr>"
  have p: "prepareForInvocation None (r_front ?s1) = (demo_inv None, ?f2)"
    by (simp add: prepareForInvocation_def demo_inv_def init_replica_def init_front_def clearLocalEntries_def demo_front_def bytes_of_def)
  let ?s2 = "?s1\<lparr>r_front := ?f2, r_invs := demo_inv None # r_invs ?s1, r_replies := remove1 None (r_replies ?s1)\<rparr>"
  have r2: "uc_reachable no_number 0 True ?s2"
    by (rule uc_reachable.step [OF r1 uc_step.prepare [OF _ p]]) simp
  have "snd (prepareForInvocation (Some 0) ?f2) = demo_front (Some 0) []"
    by (simp add: prepareForInvocation_def demo_front_def)
  then obtain s3 where s3: "uc_reachable no_number 0 True s3" "r_front s3 = demo_front (Some 0) []" "r_log s3 = []"
      "demo_inv None \<in> set (r_invs s3)"
    using reach_prepare [OF r2 _ _ refl, of 0] by (auto simp: init_demo_front execution_def readable_def)
  have "filterManifestTags [''x''] = [''x'']"
    by (simp add: filterManifestTags_def maxTagLength_def isRootParamTag_def TAG_MANIFEST_EPOCH_FIELD_def
        MAX_SOFT_TAG_LENGTH_def MAX_EXPLICIT_TAG_LENGTH_def)
  then have u: "updateTags [''x''] None 7 (r_front s3) = (updateTags_calls [''x''] None 7, demo_front None [])"
    by (simp add: updateTags_def s3(2) clearLocalEntries_def demo_front_def bytes_of_def)
  let ?s4 = "s3\<lparr>r_front := demo_front None []\<rparr>"
  have r4: "uc_reachable no_number 0 True ?s4"
    by (rule uc_reachable.step [OF s3(1) uc_step.update [OF u]])
  obtain s5 where s5: "uc_reachable no_number 0 True s5" "r_front s5 = demo_front None []"
      "r_log s5 = [(1000, tag_x_call)]" "demo_inv None \<in> set (r_invs s5)"
    using reach_call [OF r4, of 1000 tag_x_call] demo_executions(2) s3(3,4) by auto
  obtain s6 where s6: "uc_reachable no_number 0 True s6" "r_front s6 = demo_front None [(''k'', demo_local)]"
      "r_log s6 = [(1000, tag_x_call)]"
    using demo_admitted [OF s5(1,2,4)] s5(3) by metis
  obtain s7 where s7: "uc_reachable no_number 0 True s7" "r_front s7 = demo_front None [(''k'', demo_local)]"
      "r_log s7 = [(1000, tag_x_call), (3000, tag_a_call)]"
    using reach_call [OF s6(1), of 3000 tag_a_call] demo_executions(3) s6(2,3) by auto
  have rd: "readable (r_log s7) 3200" using s7(3) by (simp add: readable_def TAG_MANIFEST_TTL_SECONDS_def)
  obtain s8 where s8: "uc_reachable no_number 0 True s8" "r_front s8 = demo_front (Some 2) [(''k'', demo_local)]"
      "r_log s8 = [(1000, tag_x_call), (3000, tag_a_call)]" "demo_inv (Some 2) \<in> set (r_invs s8)"
    using reach_prepare [OF s7(1) _ rd refl] demo_executions(3) s7(2,3) by (auto simp: demo_prepare numeral_2_eq_2)
  obtain r job ivk' f' where g: "get_prepared (demo_inv (Some 2)) ''k'' [] 3500 (r_front s8) = (Some r, job, ivk', f')"
      "cr_tags r = [''a'']" "cr_timestamp r = 2000"
    using demo_serve [of "r_front s8" "demo_inv (Some 2)"] s8(2) by (auto simp: demo_front_def demo_inv_def)
  show ?thesis
    by (intro exI conjI, rule s8(1), rule s8(4), rule g(1)) (simp_all add: s8(3) g tag_a_call_def)
qed

end
