(* ===== verification/Validators.thy ===== *)
theory Validators
  imports Names Json
begin

text \<open>
  \<^verbatim>\<open>src/emit/templates/utils.ts\<close>, second part: the validators in front of every value that is
  spliced into YAML, shell scripts or \<open>helm --set\<close> assignments, the Helm escape, and the blocks
  rendered from user configuration. A validator returns the error it throws, naming its subject.
  Values typed \<open>unknown\<close> in the source are JSON values, \<open>None\<close> being \<open>undefined\<close>.
\<close>

section \<open>Patterns\<close>

datatype invalid = Invalid string

type_synonym check = "(invalid, unit) res"

definition require :: "string \<Rightarrow> bool \<Rightarrow> check" where
  "require subject ok = (if ok then Inr () else Inl (Invalid subject))"

definition alnum_any :: "char \<Rightarrow> bool" where
  "alnum_any c = (lower c \<or> upper c \<or> dec_digit c)"

definition one_of :: "string \<Rightarrow> (char \<Rightarrow> bool) \<Rightarrow> char \<Rightarrow> bool" where
  "one_of cs P c = (c \<in> set cs \<or> P c)"

definition lower_hex :: "char \<Rightarrow> bool" where
  "lower_hex c = (let n = (of_char c :: nat) in dec_digit c \<or> 97 \<le> n \<and> n \<le> 102)"

definition RELEASE_NAME_RE :: rexp where
  "RELEASE_NAME_RE = Seq (Cls alnum) (ropt (Seq (Rep 0 38 (Cls ldh)) (Cls alnum)))"

definition PROJECT_ID_RE :: rexp where
  "PROJECT_ID_RE = Seq (Cls lower) (Seq (Rep 4 28 (Cls ldh)) (Cls alnum))"

definition GCP_RESOURCE_NAME_RE :: rexp where
  "GCP_RESOURCE_NAME_RE = Seq (Cls lower) (ropt (Seq (Rep 0 61 (Cls ldh)) (Cls alnum)))"

definition REGION_RE :: rexp where
  "REGION_RE = rplus (Cls ldh)"

definition NAMESPACE_RE :: rexp where
  "NAMESPACE_RE = Seq (Cls alnum) (ropt (Seq (Rep 0 61 (Cls ldh)) (Cls alnum)))"

definition HOSTNAME_RE :: rexp where
  "HOSTNAME_RE = Seq (ropt (lit ''*.'')) (Seq NAMESPACE_RE (Star (Seq (lit ''.'') NAMESPACE_RE)))"

definition path_segment :: rexp where
  "path_segment = Seq (rplus (Cls alnum)) (Star (Seq (cls ''._-'') (rplus (Cls alnum))))"

definition IMAGE_REGISTRY_RE :: rexp where
  "IMAGE_REGISTRY_RE =
     Seq path_segment (Seq (ropt (Seq (lit '':'') (Rep 1 5 (Cls dec_digit)))) (Star (Seq (lit ''/'') path_segment)))"

definition IMAGE_REFERENCE_RE :: rexp where
  "IMAGE_REFERENCE_RE =
     Seq (Cls alnum) (Seq (Star (Cls (one_of ''._-'' alnum)))
       (Seq (ropt (Seq (lit '':'') (rplus (Cls dec_digit))))
         (Seq (Star (Seq (lit ''/'') path_segment))
           (Seq (ropt (Seq (lit '':'') (Rep 1 128 (Cls (one_of ''._-'' alnum_any)))))
             (ropt (Seq (lit ''@sha256:'') (Rep 64 64 (Cls lower_hex))))))))"

definition BUILD_ID_RE :: rexp where
  "BUILD_ID_RE = Rep 1 128 (Cls (one_of ''._-'' alnum_any))"

definition QUALIFIED_NAME_PART_RE :: rexp where
  "QUALIFIED_NAME_PART_RE = Seq (Cls alnum_any) (ropt (Seq (Rep 0 61 (Cls (one_of ''-_.'' alnum_any))) (Cls alnum_any)))"

definition BUCKET_RE :: rexp where
  "BUCKET_RE = Seq (Cls alnum) (Seq (Rep 1 61 (Cls (one_of ''._-'' alnum))) (Cls alnum))"

definition QUANTITY_RE :: rexp where
  "QUANTITY_RE = Seq (rplus (Cls dec_digit)) (Seq (ropt (Seq (lit ''.'') (rplus (Cls dec_digit))))
     (ropt (Alt (lit ''m'') (Seq (cls ''KMGTPE'') (ropt (lit ''i''))))))"

definition PROBE_PATH_RE :: rexp where
  "PROBE_PATH_RE = Seq (lit ''/'') (Seq (Star (Cls (one_of ''._~-/'' alnum_any)))
     (ropt (Seq (lit ''?'') (Star (Cls (one_of ''._~-/=&%'' alnum_any))))))"

definition POOL_NAME_RE :: rexp where
  "POOL_NAME_RE = Seq (Cls alnum) (ropt (Seq (Star (Cls ldh)) (Cls alnum)))"

definition TELEMETRY_RE :: rexp where
  "TELEMETRY_RE = Seq (Cls lower) (Rep 0 62 (Cls ldh))"

section \<open>Validators\<close>

definition UNCONFIGURED_IMAGE_REGISTRY :: string where "UNCONFIGURED_IMAGE_REGISTRY = ''REGISTRY''"
definition K8S_NAMESPACE :: string where "K8S_NAMESPACE = ''default''"

definition assertSafeReleaseName :: "string \<Rightarrow> check" where
  "assertSafeReleaseName releaseName = require ''releaseName'' (matches RELEASE_NAME_RE releaseName)"

definition assertSafeHostname :: "string \<Rightarrow> check" where
  "assertSafeHostname hostname = require ''hostname'' (length hostname \<le> 253 \<and> matches HOSTNAME_RE hostname)"

definition assertSafeImageRegistry :: "string \<Rightarrow> check" where
  "assertSafeImageRegistry registry = require ''image registry'' (length registry \<le> 255 \<and> matches IMAGE_REGISTRY_RE registry)"

definition assertSafeImageReference :: "string \<Rightarrow> check" where
  "assertSafeImageReference img = require ''image reference'' (length img \<le> 512 \<and> matches IMAGE_REFERENCE_RE img)"

definition assertSafeBuildIdName :: "string \<Rightarrow> check" where
  "assertSafeBuildIdName buildId = require ''buildId'' (matches BUILD_ID_RE buildId)"

definition string_and :: "(string \<Rightarrow> bool) \<Rightarrow> json option \<Rightarrow> bool" where
  "string_and P v = (case v of Some (JStr s) \<Rightarrow> P s | _ \<Rightarrow> False)"

definition assertSafeNamespace :: "json option \<Rightarrow> check" where
  "assertSafeNamespace namespace = require ''namespace'' (string_and (matches NAMESPACE_RE) namespace)"

definition resolveK8sNamespace :: "json option \<Rightarrow> (invalid, string) res" where
  "resolveK8sNamespace namespace =
     (let resolved = (case namespace of None \<Rightarrow> Some (JStr K8S_NAMESPACE) | Some JNull \<Rightarrow> Some (JStr K8S_NAMESPACE) | v \<Rightarrow> v)
      in res_bind (assertSafeNamespace resolved)
           (\<lambda>_. case resolved of Some (JStr s) \<Rightarrow> Inr s | _ \<Rightarrow> Inl (Invalid ''namespace'')))"

definition assertSafeServiceName :: "json option \<Rightarrow> check" where
  "assertSafeServiceName name = require ''Service name'' (string_and (matches DNS_1035_LABEL_RE) name)"

definition dns_subdomain :: "string \<Rightarrow> bool" where
  "dns_subdomain name = list_all (matches NAMESPACE_RE) (js_split (CHR ''.'') name)"

definition assertSafeKubernetesObjectName :: "json option \<Rightarrow> string \<Rightarrow> check" where
  "assertSafeKubernetesObjectName name field =
     require field (string_and (\<lambda>s. length s \<le> 253 \<and> dns_subdomain s) name)"

definition assertSafeSecretName :: "json option \<Rightarrow> check" where
  "assertSafeSecretName name =
     (case assertSafeKubernetesObjectName name ''Secret name'' of Inl _ \<Rightarrow> Inl (Invalid ''Secret name'') | Inr _ \<Rightarrow> Inr ())"

definition assertSafeAnnotationName :: "json option \<Rightarrow> check" where
  "assertSafeAnnotationName name =
     require ''annotation name'' (string_and (\<lambda>s.
       case js_split (CHR ''/'') s of
         [part] \<Rightarrow> matches QUALIFIED_NAME_PART_RE part
       | [pre, part] \<Rightarrow> length pre \<le> 253 \<and> 0 < length pre \<and> dns_subdomain pre \<and> matches QUALIFIED_NAME_PART_RE part
       | _ \<Rightarrow> False) name)"

text \<open>The last slash separates the address from one to three digits; \<open>isIP\<close> is Node's.\<close>

definition assertSafeCidr :: "(string \<Rightarrow> nat) \<Rightarrow> json option \<Rightarrow> check" where
  "assertSafeCidr isIP cidr =
     require ''CIDR'' (string_and (\<lambda>s.
       CHR ''%'' \<notin> set s \<and>
       (let parts = js_split (CHR ''/'') s; digits = last parts; addr = js_join ''/'' (butlast parts);
            family = isIP addr;
            maxPrefix = (if family = 4 then 32 else if family = 6 then 128 else - 1 :: int)
        in length parts \<ge> 2 \<and> addr \<noteq> [] \<and> CHR 0x0A \<notin> set addr \<and> CHR 0x0D \<notin> set addr \<and>
           1 \<le> length digits \<and> length digits \<le> 3 \<and> list_all dec_digit digits \<and>
           family \<noteq> 0 \<and> foldl (\<lambda>n c. 10 * n + (int (of_char c) - 48)) 0 digits \<le> maxPrefix)) cidr)"

definition control_char :: "char \<Rightarrow> bool" where
  "control_char c = (let n = (of_char c :: nat) in n \<le> 31 \<or> n = 127)"

definition assertSafePathname :: "string \<Rightarrow> check" where
  "assertSafePathname pathname =
     require ''pathname'' (list_all (\<lambda>c. c \<noteq> CHR 0x22 \<and> c \<noteq> CHR 0x5C \<and> \<not> control_char c) pathname)"

definition assertSafeCelScalar :: "json option \<Rightarrow> string \<Rightarrow> check" where
  "assertSafeCelScalar v field = require field (string_and (list_all (\<lambda>c. \<not> control_char c)) v)"

definition assertSafeYamlScalar :: "json option \<Rightarrow> string \<Rightarrow> check" where
  "assertSafeYamlScalar v field =
     require field (string_and (list_all (\<lambda>c. c \<noteq> CHR 0x22 \<and> c \<noteq> CHR 0x5C \<and> \<not> control_char c)) v)"

definition assertSafeBucketName :: "string \<Rightarrow> check" where
  "assertSafeBucketName bucket = require ''bucket name'' (matches BUCKET_RE bucket)"

definition assertSafeProjectId :: "string \<Rightarrow> check" where
  "assertSafeProjectId projectId = require ''projectId'' (matches PROJECT_ID_RE projectId)"

definition assertSafeGcpResourceName :: "json option \<Rightarrow> string \<Rightarrow> check" where
  "assertSafeGcpResourceName name field = require field (string_and (matches GCP_RESOURCE_NAME_RE) name)"

definition assertSafeRegion :: "string \<Rightarrow> check" where
  "assertSafeRegion region = require ''region'' (matches REGION_RE region)"

definition assertSafeQuantity :: "json option \<Rightarrow> string \<Rightarrow> check" where
  "assertSafeQuantity v field = require field (string_and (matches QUANTITY_RE) v)"

definition assertSafeProbePath :: "json option \<Rightarrow> string \<Rightarrow> check" where
  "assertSafeProbePath v field = require field (string_and (\<lambda>s. length s \<le> 256 \<and> matches PROBE_PATH_RE s) v)"

definition assertSafeInteger :: "json option \<Rightarrow> string \<Rightarrow> rat \<Rightarrow> rat \<Rightarrow> check" where
  "assertSafeInteger v field mn mx =
     require field (case v of Some (JNum q) \<Rightarrow> is_integer q \<and> mn \<le> q \<and> q \<le> mx | _ \<Rightarrow> False)"

definition assertSafeReplicaCount :: "json option \<Rightarrow> string \<Rightarrow> check" where
  "assertSafeReplicaCount v field = assertSafeInteger v field 0 5000"

definition assertSafeTargetCPU :: "json option \<Rightarrow> string \<Rightarrow> check" where
  "assertSafeTargetCPU v field = assertSafeInteger v field 1 10000"

definition assertSafePoolName :: "string \<Rightarrow> check" where
  "assertSafePoolName poolName = require ''pool name'' (length poolName \<le> 63 \<and> matches POOL_NAME_RE poolName)"

definition assertSafeTelemetryProviderName :: "string \<Rightarrow> check" where
  "assertSafeTelemetryProviderName providerName = require ''telemetry provider name'' (matches TELEMETRY_RE providerName)"

record stable_pool_names =
  sp_service :: string
  sp_pdb :: string
  sp_hcp :: string
  sp_bcp :: string

definition stablePoolResourceNames :: "string \<Rightarrow> string \<Rightarrow> (invalid, stable_pool_names) res" where
  "stablePoolResourceNames releaseName poolName =
     res_bind (assertSafeReleaseName releaseName) (\<lambda>_. res_bind (assertSafePoolName poolName) (\<lambda>_.
       let base = releaseName @ ''-'' @ poolName
       in Inr \<lparr>sp_service = sanitizeK8sName base [], sp_pdb = sanitizeK8sName base ''-pdb'',
               sp_hcp = sanitizeK8sName base ''-hcp'', sp_bcp = sanitizeK8sName base ''-bcp''\<rparr>))"

section \<open>Reserved probe paths\<close>

definition RESERVED_PROBE_PATHS :: "string list" where
  "RESERVED_PROBE_PATHS = [''/healthz'', ''/readyz'']"

definition probe_candidates :: "string \<Rightarrow> string \<Rightarrow> string list" where
  "probe_candidates basePath pathname =
     (let bare = (if basePath \<noteq> [] \<and> prefix basePath pathname then drop (length basePath) pathname else pathname)
      in dedup [] [pathname, if bare = [] then ''/'' else bare])"

definition record_probe :: "string \<Rightarrow> string \<Rightarrow> string \<Rightarrow> (string, string) jsmap \<Rightarrow> (string, string) jsmap" where
  "record_probe basePath kind pathname owned =
     foldl (\<lambda>own candidate. if candidate \<in> set RESERVED_PROBE_PATHS \<and> candidate \<notin> set (map fst own)
                          then jsmap_set candidate kind own else own) owned (probe_candidates basePath pathname)"

definition assertProbePathsUnowned ::
    "string list \<Rightarrow> string list \<Rightarrow> string list \<Rightarrow> string option \<Rightarrow> ((string, string) jsmap, unit) res" where
  "assertProbePathsUnowned pathnames staticPathnames publicPathnames basePath =
     (let b = (case basePath of None \<Rightarrow> [] | Some p \<Rightarrow> p);
          o1 = foldl (\<lambda>own p. record_probe b ''a route'' p own) [] pathnames;
          o2 = foldl (\<lambda>own p. record_probe b ''a static output'' p own) o1 staticPathnames;
          owned = foldl (\<lambda>own p. record_probe b ''a public/ file'' p own) o2 publicPathnames
      in if owned = [] then Inr () else Inl owned)"

section \<open>Rendering\<close>

text \<open>\<open>split("{{")\<close>: cut at the leftmost occurrences.\<close>

fun split_braces :: "string \<Rightarrow> string list" where
  "split_braces [] = [[]]"
| "split_braces [c] = [[c]]"
| "split_braces (c # d # s) =
     (if c = CHR ''{'' \<and> d = CHR ''{'' then [] # split_braces s
      else case split_braces (d # s) of [] \<Rightarrow> [[c]] | p # ps \<Rightarrow> (c # p) # ps)"

definition helm_literal :: string where
  "helm_literal = ''{{ '' @ [CHR 0x22] @ ''{{'' @ [CHR 0x22] @ '' }}''"

definition escapeHelmActions :: "string \<Rightarrow> string" where
  "escapeHelmActions v = (if sublist ''{{'' v then js_join helm_literal (split_braces v) else v)"

definition NL :: string where "NL = [CHR 0x0A]"
definition DQ :: string where "DQ = [CHR 0x22]"

definition keepAtBirthAnnotationEntries :: "string \<Rightarrow> string" where
  "keepAtBirthAnnotationEntries indent =
     indent @ ''helm.sh/resource-policy: keep'' @ NL @
     indent @ ''argocd.argoproj.io/sync-options: Prune=false'' @ NL @
     indent @ ''kustomize.toolkit.fluxcd.io/prune: disabled'' @ NL"

definition job_mode_gate :: string where
  "job_mode_gate = ''{{- if and .Values.cutover (eq .Values.cutover.mode '' @ DQ @ ''job'' @ DQ @ '') }}'' @ NL"

definition renderKeepAtBirthAnnotations :: "string \<Rightarrow> string" where
  "renderKeepAtBirthAnnotations indent =
     indent @ job_mode_gate @ indent @ ''annotations:'' @ NL @
     keepAtBirthAnnotationEntries (indent @ ''  '') @ indent @ ''{{- end }}'' @ NL"

definition renderJobModeReconcilerKeepEntries :: "string \<Rightarrow> string" where
  "renderJobModeReconcilerKeepEntries indent =
     indent @ job_mode_gate @
     indent @ ''argocd.argoproj.io/sync-options: Prune=false'' @ NL @
     indent @ ''kustomize.toolkit.fluxcd.io/prune: disabled'' @ NL @
     indent @ ''{{- end }}'' @ NL"

definition renderImagePullSecrets :: "string list option \<Rightarrow> string \<Rightarrow> (invalid, string) res" where
  "renderImagePullSecrets pullSecrets indent =
     (case pullSecrets of
        None \<Rightarrow> Inr []
      | Some [] \<Rightarrow> Inr []
      | Some names \<Rightarrow>
          res_bind (res_all (\<lambda>name. assertSafeSecretName (Some (JStr name))) names) (\<lambda>_.
            Inr (indent @ ''imagePullSecrets:'' @ NL @
                 js_join NL (map (\<lambda>name. indent @ ''  - name: '' @ DQ @ name @ DQ) names) @ NL)))"

text \<open>\<open>JSON.stringify\<close> of a string: quotes, backslashes and control characters are escaped.\<close>

definition hex_char :: "nat \<Rightarrow> char" where
  "hex_char n = char_of (if n < 10 then 48 + n else 87 + n)"

definition json_escape :: "char \<Rightarrow> string" where
  "json_escape c =
     (let n = (of_char c :: nat); B = CHR 0x5C
      in if n = 34 \<or> n = 92 then [B, c]
         else if n = 8 then [B, CHR ''b''] else if n = 9 then [B, CHR ''t''] else if n = 10 then [B, CHR ''n'']
         else if n = 12 then [B, CHR ''f''] else if n = 13 then [B, CHR ''r'']
         else if n < 32 then [B, CHR ''u'', CHR ''0'', CHR ''0'', hex_char (n div 16), hex_char (n mod 16)]
         else [c])"

definition json_string :: "string \<Rightarrow> string" where
  "json_string s = DQ @ concat (map json_escape s) @ DQ"

definition yamlStr :: "string \<Rightarrow> string" where
  "yamlStr v = escapeHelmActions (json_string v)"

datatype env_value = Plain string | SecretRef string string bool | ConfigRef string string bool

datatype env_from = SecretSource string "string option" bool | ConfigSource string "string option" bool

definition spaces :: "nat \<Rightarrow> string" where "spaces n = replicate n (CHR 0x20)"

definition ref_entry :: "string \<Rightarrow> string \<Rightarrow> string \<Rightarrow> string \<Rightarrow> bool \<Rightarrow> string" where
  "ref_entry name refKind refName key optional =
     spaces 12 @ ''- name: '' @ name @ NL @ spaces 14 @ ''valueFrom:'' @ NL @ spaces 16 @ refKind @ '':'' @ NL @
     spaces 18 @ ''name: '' @ yamlStr refName @ NL @ spaces 18 @ ''key: '' @ yamlStr key @
     (if optional then NL @ spaces 18 @ ''optional: true'' else [])"

fun env_entry :: "string \<times> env_value \<Rightarrow> string" where
  "env_entry (name, Plain v) = spaces 12 @ ''- name: '' @ name @ NL @ spaces 14 @ ''value: '' @ yamlStr v"
| "env_entry (name, SecretRef secret key optional) = ref_entry name ''secretKeyRef'' secret key optional"
| "env_entry (name, ConfigRef configMap key optional) = ref_entry name ''configMapKeyRef'' configMap key optional"

definition source_entry :: "string \<Rightarrow> string \<Rightarrow> string option \<Rightarrow> bool \<Rightarrow> string" where
  "source_entry refKind refName pre optional =
     spaces 12 @ ''- '' @ refKind @ '':'' @ NL @ spaces 16 @ ''name: '' @ yamlStr refName @
     (if optional then NL @ spaces 16 @ ''optional: true'' else []) @
     (case pre of Some (c # p) \<Rightarrow> NL @ spaces 14 @ ''prefix: '' @ yamlStr (c # p) | _ \<Rightarrow> [])"

fun env_from_entry :: "env_from \<Rightarrow> string" where
  "env_from_entry (SecretSource secret pre optional) = source_entry ''secretRef'' secret pre optional"
| "env_from_entry (ConfigSource configMap pre optional) = source_entry ''configMapRef'' configMap pre optional"

definition renderUserEnvBlocks :: "(string \<times> env_value) list \<Rightarrow> env_from list \<Rightarrow> string \<times> string" where
  "renderUserEnvBlocks env envFrom =
     (if env = [] then [] else NL @ js_join NL (map env_entry env),
      if envFrom = [] then [] else NL @ spaces 10 @ ''envFrom:'' @ NL @ js_join NL (map env_from_entry envFrom))"


section \<open>What an accepted value can contain\<close>

text \<open>
  The validators of text, all of them. \<open>isIP\<close> is Node's; the validators with a \<open>field\<close> argument use it
  only in their message.
\<close>

datatype field = Release | Hostname | Registry | Reference | BuildId | Namespace | Service | Secret | ObjectName
  | Annotation | Cidr | Bucket | Project | GcpResource | Region | Quantity | ProbePath | Pool | Telemetry
  | Pathname | CelScalar | YamlScalar

fun accepts :: "(string \<Rightarrow> nat) \<Rightarrow> field \<Rightarrow> string \<Rightarrow> bool" where
  "accepts isIP Release v = (assertSafeReleaseName v = Inr ())"
| "accepts isIP Hostname v = (assertSafeHostname v = Inr ())"
| "accepts isIP Registry v = (assertSafeImageRegistry v = Inr ())"
| "accepts isIP Reference v = (assertSafeImageReference v = Inr ())"
| "accepts isIP BuildId v = (assertSafeBuildIdName v = Inr ())"
| "accepts isIP Namespace v = (assertSafeNamespace (Some (JStr v)) = Inr ())"
| "accepts isIP Service v = (assertSafeServiceName (Some (JStr v)) = Inr ())"
| "accepts isIP Secret v = (assertSafeSecretName (Some (JStr v)) = Inr ())"
| "accepts isIP ObjectName v = (assertSafeKubernetesObjectName (Some (JStr v)) ''object'' = Inr ())"
| "accepts isIP Annotation v = (assertSafeAnnotationName (Some (JStr v)) = Inr ())"
| "accepts isIP Cidr v = (assertSafeCidr isIP (Some (JStr v)) = Inr ())"
| "accepts isIP Bucket v = (assertSafeBucketName v = Inr ())"
| "accepts isIP Project v = (assertSafeProjectId v = Inr ())"
| "accepts isIP GcpResource v = (assertSafeGcpResourceName (Some (JStr v)) ''name'' = Inr ())"
| "accepts isIP Region v = (assertSafeRegion v = Inr ())"
| "accepts isIP Quantity v = (assertSafeQuantity (Some (JStr v)) ''quantity'' = Inr ())"
| "accepts isIP ProbePath v = (assertSafeProbePath (Some (JStr v)) ''path'' = Inr ())"
| "accepts isIP Pool v = (assertSafePoolName v = Inr ())"
| "accepts isIP Telemetry v = (assertSafeTelemetryProviderName v = Inr ())"
| "accepts isIP Pathname v = (assertSafePathname v = Inr ())"
| "accepts isIP CelScalar v = (assertSafeCelScalar (Some (JStr v)) ''scalar'' = Inr ())"
| "accepts isIP YamlScalar v = (assertSafeYamlScalar (Some (JStr v)) ''scalar'' = Inr ())"

fun length_limit :: "field \<Rightarrow> nat option" where
  "length_limit Release = Some 40"
| "length_limit Hostname = Some 253"
| "length_limit Registry = Some 255"
| "length_limit Reference = Some 512"
| "length_limit BuildId = Some 128"
| "length_limit Namespace = Some 63"
| "length_limit Service = Some 63"
| "length_limit Secret = Some 253"
| "length_limit ObjectName = Some 253"
| "length_limit Annotation = Some 317"
| "length_limit Bucket = Some 63"
| "length_limit Project = Some 30"
| "length_limit GcpResource = Some 63"
| "length_limit ProbePath = Some 256"
| "length_limit Pool = Some 63"
| "length_limit Telemetry = Some 63"
| "length_limit _ = None"

text \<open>
  Characters no shell, no \<open>helm --set\<close> and no quoted or plain YAML scalar gives a meaning to, the few
  more that a hostname and a probe path may have, and what is left to the three validators of scalars
  that their template quotes.
\<close>

definition word_char :: "char \<Rightarrow> bool" where
  "word_char c = one_of ''-._/:@'' alnum_any c"

fun extra_chars :: "field \<Rightarrow> string" where
  "extra_chars Hostname = ''*''"
| "extra_chars ProbePath = ''~?=&%''"
| "extra_chars _ = []"

fun permitted :: "field \<Rightarrow> char \<Rightarrow> bool" where
  "permitted Pathname c = (c \<noteq> CHR 0x22 \<and> c \<noteq> CHR 0x5C \<and> \<not> control_char c)"
| "permitted YamlScalar c = (c \<noteq> CHR 0x22 \<and> c \<noteq> CHR 0x5C \<and> \<not> control_char c)"
| "permitted CelScalar c = (\<not> control_char c)"
| "permitted f c = one_of (extra_chars f) word_char c"

definition quoted_scalars :: "field set" where
  "quoted_scalars = {Pathname, YamlScalar, CelScalar}"

definition plain_char :: "char \<Rightarrow> bool" where
  "plain_char c = one_of ''-._/:@*~?=&%'' alnum_any c"

lemma require_Inr [simp]: "require x ok = Inr () \<longleftrightarrow> ok"
  by (simp add: require_def)

lemma plain_classes:
  "lower c \<Longrightarrow> plain_char c" "upper c \<Longrightarrow> plain_char c" "dec_digit c \<Longrightarrow> plain_char c" "alnum c \<Longrightarrow> plain_char c"
  "ldh c \<Longrightarrow> plain_char c" "alnum_any c \<Longrightarrow> plain_char c" "lower_hex c \<Longrightarrow> plain_char c"
proof -
  have hex: "lower_hex c \<Longrightarrow> lower c \<or> dec_digit c" by (auto simp: lower_hex_def lower_def Let_def)
  show "lower c \<Longrightarrow> plain_char c" "upper c \<Longrightarrow> plain_char c" "dec_digit c \<Longrightarrow> plain_char c" "alnum c \<Longrightarrow> plain_char c"
    "ldh c \<Longrightarrow> plain_char c" "alnum_any c \<Longrightarrow> plain_char c" "lower_hex c \<Longrightarrow> plain_char c"
    using hex by (auto simp: plain_char_def one_of_def alnum_def alnum_any_def ldh_def)
qed

lemma plain_literals: "\<forall>c \<in> set ''*.:/@-_~?=&%''. plain_char c" "\<forall>c \<in> set ''sha256miKMGTPE''. plain_char c"
  by (simp_all add: plain_char_def one_of_def alnum_any_def lower_def upper_def dec_digit_def Let_def)

text \<open>An expression all of whose words are over a class of characters.\<close>

definition over :: "(char \<Rightarrow> bool) \<Rightarrow> rexp \<Rightarrow> bool" where
  "over P r \<longleftrightarrow> (\<forall>c \<in> alphabet r. P c)"

lemma over_simps [simp]:
  "over P One" "over P (Cls Q) \<longleftrightarrow> (\<forall>c. Q c \<longrightarrow> P c)" "over P (Alt r s) \<longleftrightarrow> over P r \<and> over P s"
  "over P (Seq r s) \<longleftrightarrow> over P r \<and> over P s" "over P (Star r) \<longleftrightarrow> over P r" "over P (Rep m n r) \<longleftrightarrow> over P r"
  by (auto simp: over_def)

lemma over_lit: "over P (lit s) \<longleftrightarrow> (\<forall>c \<in> set s. P c)"
  by (induction s) auto

lemma over_cls: "over P (cls s) \<longleftrightarrow> (\<forall>c \<in> set s. P c)"
  by (simp add: cls_def Ball_def)

lemma over_matches: "over P r \<Longrightarrow> matches r v \<Longrightarrow> c \<in> set v \<Longrightarrow> P c"
  using lang_alphabet [of v r] by (auto simp: over_def matches_lang)

abbreviation plain_re :: "rexp \<Rightarrow> bool" where
  "plain_re \<equiv> over plain_char"

lemmas plain_re_simps = over_simps
lemmas plain_lit = over_lit [of plain_char]
lemmas plain_cls = over_cls [of plain_char]

lemma plain_one_of: "\<forall>c \<in> set cs. plain_char c \<Longrightarrow> \<forall>c. P c \<longrightarrow> plain_char c \<Longrightarrow> plain_re (Cls (one_of cs P))"
  by (auto simp: one_of_def)

lemma plain_patterns:
  "plain_re RELEASE_NAME_RE" "plain_re PROJECT_ID_RE" "plain_re GCP_RESOURCE_NAME_RE" "plain_re REGION_RE"
  "plain_re NAMESPACE_RE" "plain_re DNS_1035_LABEL_RE" "plain_re POOL_NAME_RE" "plain_re TELEMETRY_RE" "plain_re path_segment"
  using plain_classes plain_literals
  by (auto simp: RELEASE_NAME_RE_def PROJECT_ID_RE_def GCP_RESOURCE_NAME_RE_def REGION_RE_def NAMESPACE_RE_def
      DNS_1035_LABEL_RE_def POOL_NAME_RE_def TELEMETRY_RE_def path_segment_def plain_cls)

lemma plain_compound_patterns:
  "plain_re HOSTNAME_RE" "plain_re IMAGE_REGISTRY_RE" "plain_re IMAGE_REFERENCE_RE" "plain_re BUILD_ID_RE"
  "plain_re BUCKET_RE" "plain_re QUANTITY_RE" "plain_re PROBE_PATH_RE"
  unfolding HOSTNAME_RE_def IMAGE_REGISTRY_RE_def IMAGE_REFERENCE_RE_def BUILD_ID_RE_def BUCKET_RE_def
    QUANTITY_RE_def PROBE_PATH_RE_def
  using plain_classes plain_literals plain_patterns
  by (simp_all add: plain_lit plain_cls one_of_def)

lemmas plain_matches = over_matches [of plain_char]

lemma split_chars: "c \<in> set s \<Longrightarrow> c = sep \<or> (\<exists>p \<in> set (js_split sep s). c \<in> set p)"
  by (induction sep s rule: js_split.induct) (auto split: list.splits)

lemma plain_subdomain: "dns_subdomain s \<Longrightarrow> c \<in> set s \<Longrightarrow> plain_char c"
  using split_chars [of c s "CHR ''.''"] plain_matches [OF plain_patterns(5)] plain_literals(1)
  by (auto simp: dns_subdomain_def list_all_iff)

lemma limit_matches: "matches r v \<Longrightarrow> max_len r = Some b \<Longrightarrow> length v \<le> b"
  using lang_max_len by (simp add: matches_lang)


section \<open>Helm and the quoted scalars\<close>






lemma split_braces_ne [simp]: "split_braces s \<noteq> []"
  by (cases s rule: split_braces.cases) (auto split: list.splits)





text \<open>
  The YAML parser behind Helm is not part of the repository. What is used of it is how YAML 1.1 reads a
  double-quoted scalar, from after its opening quote, into its content and what follows it: the quote
  ends it, the escapes that \<open>JSON.stringify\<close> writes have their JSON meaning, and a character that YAML
  allows raw stands for itself. Nothing is assumed of a character that YAML forbids or takes for a line
  break: the control characters, DEL and U+0080 to U+009F, among them NEL.
\<close>

definition yaml_char :: "char \<Rightarrow> bool" where
  "yaml_char c = (let n = (of_char c :: nat) in n = 9 \<or> 32 \<le> n \<and> n \<le> 126 \<or> 160 \<le> n)"

definition push_char :: "char \<Rightarrow> (string \<times> string) option \<Rightarrow> (string \<times> string) option" where
  "push_char c = map_option (\<lambda>(v, r). (c # v, r))"

definition short_escapes :: "(char \<times> char) list" where
  "short_escapes = [(CHR 0x22, CHR 0x22), (CHR 0x5C, CHR 0x5C), (CHR ''b'', CHR 0x08), (CHR ''t'', CHR 0x09),
     (CHR ''n'', CHR 0x0A), (CHR ''f'', CHR 0x0C), (CHR ''r'', CHR 0x0D)]"

text \<open>Stated for any class \<open>raw\<close> of characters that may stand for themselves; for YAML it is \<open>yaml_char\<close>.\<close>

definition reads_quoted :: "(char \<Rightarrow> bool) \<Rightarrow> (string \<Rightarrow> (string \<times> string) option) \<Rightarrow> bool" where
  "reads_quoted raw rd \<longleftrightarrow>
     (\<forall>s. rd (CHR 0x22 # s) = Some ([], s)) \<and>
     (\<forall>c s. raw c \<and> c \<noteq> CHR 0x22 \<and> c \<noteq> CHR 0x5C \<longrightarrow> rd (c # s) = push_char c (rd s)) \<and>
     (\<forall>(e, c) \<in> set short_escapes. \<forall>s. rd (CHR 0x5C # e # s) = push_char c (rd s)) \<and>
     (\<forall>n < 32. \<forall>s. rd (CHR 0x5C # CHR ''u'' # CHR ''0'' # CHR ''0'' # hex_char (n div 16) # hex_char (n mod 16) # s) =
        push_char (char_of n) (rd s))"

lemma char_code:
  "(of_char c :: nat) = 34 \<longleftrightarrow> c = CHR 0x22" "(of_char c :: nat) = 92 \<longleftrightarrow> c = CHR 0x5C" "(of_char c :: nat) = 8 \<longleftrightarrow> c = CHR 0x08"
  "(of_char c :: nat) = 9 \<longleftrightarrow> c = CHR 0x09" "(of_char c :: nat) = 10 \<longleftrightarrow> c = CHR 0x0A" "(of_char c :: nat) = 12 \<longleftrightarrow> c = CHR 0x0C"
  "(of_char c :: nat) = 13 \<longleftrightarrow> c = CHR 0x0D"
proof -
  have code: "(of_char c :: nat) = n \<longleftrightarrow> c = char_of n" if "n < 256" for n
    using that by (metis char_of_char of_char_of mod_less)
  show "(of_char c :: nat) = 34 \<longleftrightarrow> c = CHR 0x22" "(of_char c :: nat) = 92 \<longleftrightarrow> c = CHR 0x5C"
    "(of_char c :: nat) = 8 \<longleftrightarrow> c = CHR 0x08" "(of_char c :: nat) = 9 \<longleftrightarrow> c = CHR 0x09"
    "(of_char c :: nat) = 10 \<longleftrightarrow> c = CHR 0x0A" "(of_char c :: nat) = 12 \<longleftrightarrow> c = CHR 0x0C"
    "(of_char c :: nat) = 13 \<longleftrightarrow> c = CHR 0x0D"
    by (simp_all add: code char_of_def bit_0)
qed

lemma read_escaped_char:
  assumes "reads_quoted raw rd" "(of_char c :: nat) < 32 \<or> raw c"
  shows "rd (json_escape c @ s) = push_char c (rd s)"
proof (cases "c \<in> {CHR 0x22, CHR 0x5C, CHR 0x08, CHR 0x09, CHR 0x0A, CHR 0x0C, CHR 0x0D}")
  case True
  have "\<forall>(e, c) \<in> set short_escapes. \<forall>s. rd (CHR 0x5C # e # s) = push_char c (rd s)"
    using assms(1) by (simp add: reads_quoted_def)
  then show ?thesis using True by (elim insertE) (simp_all add: short_escapes_def json_escape_def Let_def)
next
  case False
  show ?thesis
  proof (cases "(of_char c :: nat) < 32")
    case True
    then have "rd (CHR 0x5C # CHR ''u'' # CHR ''0'' # CHR ''0'' # hex_char (of_char c div 16) # hex_char (of_char c mod 16) # s) =
        push_char (char_of (of_char c :: nat)) (rd s)"
      using assms(1) by (simp only: reads_quoted_def)
    then show ?thesis using True False by (simp add: json_escape_def Let_def char_code)
  next
    case high: False
    then have "rd (c # s) = push_char c (rd s)" using assms False by (simp add: reads_quoted_def)
    then show ?thesis using high False by (simp add: json_escape_def Let_def char_code)
  qed
qed

lemma read_json_string:
  assumes "reads_quoted raw rd" "list_all (\<lambda>c. (of_char c :: nat) < 32 \<or> raw c) v"
  shows "rd (concat (map json_escape v) @ DQ @ rest) = Some (v, rest)"
  using assms(2)
proof (induction v)
  case Nil
  then show ?case using assms(1) by (simp add: reads_quoted_def DQ_def)
next
  case (Cons c v)
  then show ?case by (simp add: read_escaped_char [OF assms(1)] push_char_def)
qed

text \<open>The reader of that kind that refuses every other raw character.\<close>

fun hex_value :: "char \<Rightarrow> nat" where
  "hex_value c = (let n = of_char c in if n < 58 then n - 48 else n - 87)"

fun read_quoted :: "(char \<Rightarrow> bool) \<Rightarrow> string \<Rightarrow> (string \<times> string) option" where
  "read_quoted raw [] = None"
| "read_quoted raw (c # s) =
     (if c = CHR 0x22 then Some ([], s)
      else if c = CHR 0x5C then
        (case s of
           [] \<Rightarrow> None
         | e # t \<Rightarrow>
             (if e = CHR ''u'' then
                (case t of
                   x # y # h # l # t' \<Rightarrow>
                     if x = CHR ''0'' \<and> y = CHR ''0'' then push_char (char_of (16 * hex_value h + hex_value l)) (read_quoted raw t')
                     else None
                 | _ \<Rightarrow> None)
              else case map_of short_escapes e of Some d \<Rightarrow> push_char d (read_quoted raw t) | None \<Rightarrow> None))
      else if raw c then push_char c (read_quoted raw s) else None)"

lemma hex_value_char: "n < 16 \<Longrightarrow> hex_value (hex_char n) = n"
  by (simp add: hex_char_def Let_def)

lemma read_quoted_reads: "reads_quoted raw (read_quoted raw)"
proof -
  have "read_quoted raw (CHR 0x5C # CHR ''u'' # CHR ''0'' # CHR ''0'' # hex_char (n div 16) # hex_char (n mod 16) # s) =
      push_char (char_of n) (read_quoted raw s)" if "n < 32" for n :: nat and s
  proof -
    have "hex_value (hex_char (n div 16)) = n div 16" "hex_value (hex_char (n mod 16)) = n mod 16"
      using that by (simp_all add: hex_value_char del: hex_value.simps)
    then show ?thesis by (simp del: hex_value.simps)
  qed
  moreover have "\<forall>(e, c) \<in> set short_escapes. \<forall>s. read_quoted raw (CHR 0x5C # e # s) = push_char c (read_quoted raw s)"
    by (simp add: short_escapes_def)
  moreover have "read_quoted raw (c # s) = push_char c (read_quoted raw s)" if "raw c" "c \<noteq> CHR 0x22" "c \<noteq> CHR 0x5C" for c s
    using that by simp
  ultimately show ?thesis
    by (simp only: reads_quoted_def) simp
qed

lemma json_text_ends: "read_quoted (\<lambda>_. True) (concat (map json_escape v) @ DQ @ rest) = Some (v, rest)"
  using read_json_string [OF read_quoted_reads, of "\<lambda>_. True" v rest] by (simp add: list_all_iff del: read_quoted.simps)






section \<open>Properties\<close>

text \<open>
  Of Node's \<open>isIP\<close>: an address without a zone is written with letters, digits, dots and colons.
\<close>

definition ip_addresses :: "(string \<Rightarrow> nat) \<Rightarrow> bool" where
  "ip_addresses isIP \<longleftrightarrow> (\<forall>a. isIP a \<noteq> 0 \<and> CHR ''%'' \<notin> set a \<longrightarrow> list_all (one_of ''.:'' alnum_any) a)"

lemma word_classes:
  "alnum_any c \<Longrightarrow> word_char c" "lower c \<Longrightarrow> word_char c" "upper c \<Longrightarrow> word_char c" "dec_digit c \<Longrightarrow> word_char c"
  "alnum c \<Longrightarrow> word_char c" "ldh c \<Longrightarrow> word_char c" "lower_hex c \<Longrightarrow> word_char c"
proof -
  have hex: "lower_hex c \<Longrightarrow> lower c \<or> dec_digit c" by (auto simp: lower_hex_def lower_def Let_def)
  show "alnum_any c \<Longrightarrow> word_char c" "lower c \<Longrightarrow> word_char c" "upper c \<Longrightarrow> word_char c" "dec_digit c \<Longrightarrow> word_char c"
    "alnum c \<Longrightarrow> word_char c" "ldh c \<Longrightarrow> word_char c" "lower_hex c \<Longrightarrow> word_char c"
    using hex by (auto simp: word_char_def one_of_def alnum_def alnum_any_def ldh_def)
qed

lemma word_literals: "\<forall>c \<in> set ''.:/@-_''. word_char c" "\<forall>c \<in> set ''sha256miKMGTPE''. word_char c"
  by (simp_all add: word_char_def one_of_def alnum_any_def lower_def upper_def dec_digit_def Let_def)

lemma word_patterns:
  "over word_char RELEASE_NAME_RE" "over word_char PROJECT_ID_RE" "over word_char GCP_RESOURCE_NAME_RE"
  "over word_char REGION_RE" "over word_char NAMESPACE_RE" "over word_char DNS_1035_LABEL_RE"
  "over word_char POOL_NAME_RE" "over word_char TELEMETRY_RE" "over word_char path_segment"
  "over word_char QUALIFIED_NAME_PART_RE" "over word_char BUCKET_RE" "over word_char QUANTITY_RE"
  "over word_char BUILD_ID_RE"
  using word_classes word_literals
  by (auto simp: RELEASE_NAME_RE_def PROJECT_ID_RE_def GCP_RESOURCE_NAME_RE_def REGION_RE_def NAMESPACE_RE_def
      DNS_1035_LABEL_RE_def POOL_NAME_RE_def TELEMETRY_RE_def path_segment_def QUALIFIED_NAME_PART_RE_def BUCKET_RE_def
      QUANTITY_RE_def BUILD_ID_RE_def over_cls over_lit one_of_def)

lemma word_compound_patterns: "over word_char IMAGE_REGISTRY_RE" "over word_char IMAGE_REFERENCE_RE"
  unfolding IMAGE_REGISTRY_RE_def IMAGE_REFERENCE_RE_def
  using word_classes word_literals word_patterns
  by (simp_all add: over_cls over_lit one_of_def)

lemma permitted_patterns: "over (permitted Hostname) HOSTNAME_RE" "over (permitted ProbePath) PROBE_PATH_RE"
proof -
  have "over P r \<Longrightarrow> \<forall>c. P c \<longrightarrow> Q c \<Longrightarrow> over Q r" for P Q r by (auto simp: over_def)
  from this [OF word_patterns(5), of "permitted Hostname"] have "over (permitted Hostname) NAMESPACE_RE"
    by (simp add: one_of_def)
  then show "over (permitted Hostname) HOSTNAME_RE"
    using word_literals by (simp add: HOSTNAME_RE_def over_lit one_of_def)
  show "over (permitted ProbePath) PROBE_PATH_RE"
    using word_literals word_classes by (simp add: PROBE_PATH_RE_def over_lit one_of_def)
qed

lemma word_subdomain: "dns_subdomain s \<Longrightarrow> c \<in> set s \<Longrightarrow> word_char c"
  using split_chars [of c s "CHR ''.''"] over_matches [OF word_patterns(5)] word_literals(1)
  by (auto simp: dns_subdomain_def list_all_iff)

lemma word_annotation:
  assumes "assertSafeAnnotationName (Some (JStr v)) = Inr ()" "c \<in> set v"
  shows "word_char c"
proof -
  have "c = CHR ''/'' \<or> (\<exists>p \<in> set (js_split (CHR ''/'') v). c \<in> set p)" by (rule split_chars [OF assms(2)])
  moreover have "word_char c" if "p \<in> set (js_split (CHR ''/'') v)" "c \<in> set p" for p
    using assms(1) that over_matches [OF word_patterns(10)] word_subdomain
    by (auto simp: assertSafeAnnotationName_def string_and_def split: list.splits)
  ultimately show ?thesis using word_literals(1) by auto
qed

lemma bounded_annotation:
  assumes "assertSafeAnnotationName (Some (JStr v)) = Inr ()"
  shows "length v \<le> 317"
proof -
  have part: "length p \<le> 63" if "matches QUALIFIED_NAME_PART_RE p" for p
    using limit_matches [OF that, of 63] by (simp add: QUALIFIED_NAME_PART_RE_def)
  consider p where "js_split (CHR ''/'') v = [p]" "matches QUALIFIED_NAME_PART_RE p"
    | q p where "js_split (CHR ''/'') v = [q, p]" "length q \<le> 253" "matches QUALIFIED_NAME_PART_RE p"
    using assms by (auto simp: assertSafeAnnotationName_def string_and_def split: list.splits)
  then show ?thesis
  proof cases
    case (1 p)
    then have "v = p" using js_join_split [of "CHR ''/''" v] by simp
    then show ?thesis using part [OF 1(2)] by simp
  next
    case (2 q p)
    then have "v = q @ ''/'' @ p" using js_join_split [of "CHR ''/''" v] by simp
    then show ?thesis using part [OF 2(3)] 2(2) by simp
  qed
qed

lemma js_join_snoc: "qs \<noteq> [] \<Longrightarrow> js_join sep (qs @ [q]) = js_join sep qs @ sep @ q"
  by (induction sep qs rule: js_join.induct) auto

lemma word_cidr:
  assumes "ip_addresses isIP" "assertSafeCidr isIP (Some (JStr v)) = Inr ()" "c \<in> set v"
  shows "word_char c"
proof -
  let ?ps = "js_split (CHR ''/'') v"
  let ?addr = "js_join ''/'' (butlast ?ps)"
  have safe: "CHR ''%'' \<notin> set v" "isIP ?addr \<noteq> 0" "list_all dec_digit (last ?ps)" "2 \<le> length ?ps"
    using assms(2) by (auto simp: assertSafeCidr_def string_and_def Let_def)
  have "set (butlast ?ps @ [last ?ps]) = set ?ps" by (metis append_butlast_last_id js_split_nonempty)
  then consider "c = CHR ''/''" | p where "p \<in> set (butlast ?ps)" "c \<in> set p" | "c \<in> set (last ?ps)"
    using split_chars [OF assms(3), of "CHR ''/''"] by (metis (no_types, lifting) Un_iff empty_iff empty_set set_ConsD set_append)
  then show ?thesis
  proof cases
    case (2 p)
    have join: "c \<in> set (js_join sep qs)" if "p \<in> set qs" for sep qs
      using that 2(2) by (induction sep qs rule: js_join.induct) auto
    have "x \<in> set v" if "x \<in> set ?addr" for x
    proof -
      have "butlast ?ps \<noteq> []" using safe(4) by (cases ?ps rule: rev_cases) auto
      then have "js_join ''/'' ?ps = ?addr @ ''/'' @ last ?ps"
        using js_join_snoc [of "butlast ?ps" "''/''" "last ?ps"] by (simp add: append_butlast_last_id)
      then show ?thesis using that by (metis Un_iff js_join_split set_append)
    qed
    then have "list_all (one_of ''.:'' alnum_any) ?addr"
      using assms(1) safe(1,2) by (auto simp: ip_addresses_def)
    then have "one_of ''.:'' alnum_any c" using join [OF 2(1)] by (simp add: list_all_iff)
    then show ?thesis using word_literals(1) word_classes(1) by (auto simp: one_of_def)
  qed (use safe(3) word_literals(1) word_classes(4) in \<open>auto simp: list_all_iff\<close>)
qed

lemmas validator_defs =
  assertSafeReleaseName_def assertSafeHostname_def assertSafeImageRegistry_def assertSafeImageReference_def
  assertSafeBuildIdName_def assertSafeNamespace_def assertSafeServiceName_def assertSafeSecretName_def
  assertSafeKubernetesObjectName_def assertSafeBucketName_def assertSafeProjectId_def assertSafeGcpResourceName_def
  assertSafeRegion_def assertSafeQuantity_def assertSafeProbePath_def assertSafePoolName_def
  assertSafeTelemetryProviderName_def assertSafePathname_def assertSafeCelScalar_def assertSafeYamlScalar_def
  string_and_def

lemma accepted_permitted:
  assumes "ip_addresses isIP" "accepts isIP f v" "c \<in> set v"
  shows "permitted f c"
  using assms(2,3)
  by (cases f) (auto simp: validator_defs one_of_def list_all_iff
      dest: word_annotation word_cidr [OF assms(1)] word_subdomain over_matches [OF word_patterns(1)]
        over_matches [OF word_patterns(2)] over_matches [OF word_patterns(3)] over_matches [OF word_patterns(4)]
        over_matches [OF word_patterns(5)] over_matches [OF word_patterns(6)] over_matches [OF word_patterns(7)]
        over_matches [OF word_patterns(8)] over_matches [OF word_patterns(11)] over_matches [OF word_patterns(12)]
        over_matches [OF word_patterns(13)] over_matches [OF word_compound_patterns(1)]
        over_matches [OF word_compound_patterns(2)] over_matches [OF permitted_patterns(1)]
        over_matches [OF permitted_patterns(2)] split: sum.splits)

lemma max_lens:
  "max_len RELEASE_NAME_RE = Some 40" "max_len PROJECT_ID_RE = Some 30" "max_len GCP_RESOURCE_NAME_RE = Some 63"
  "max_len NAMESPACE_RE = Some 63" "max_len DNS_1035_LABEL_RE = Some 63" "max_len BUILD_ID_RE = Some 128"
  "max_len BUCKET_RE = Some 63" "max_len TELEMETRY_RE = Some 63"
  by (simp_all add: RELEASE_NAME_RE_def PROJECT_ID_RE_def GCP_RESOURCE_NAME_RE_def NAMESPACE_RE_def
      DNS_1035_LABEL_RE_def BUILD_ID_RE_def BUCKET_RE_def TELEMETRY_RE_def)

lemma accepted_bounded: "accepts isIP f v \<Longrightarrow> length_limit f = Some n \<Longrightarrow> length v \<le> n"
  using max_lens
  by (cases f) (auto simp: validator_defs dest: limit_matches bounded_annotation split: sum.splits)

text \<open>
  C35: the validators of text are the injection boundary. For each of the twenty-two, with the class
  of characters and the length it grants. Nineteen of them check names, references, addresses, quantities
  and paths: what they accept consists of letters, digits and \<^verbatim>\<open>-._/:@\<close>, to which only the hostname adds
  \<^verbatim>\<open>*\<close> and only the probe path adds \<^verbatim>\<open>~?=&%\<close>. So none of these values holds a quote, white space, a brace,
  bracket, comma, dollar, semicolon or another character that ends or expands a word of a shell, a
  \<open>helm --set\<close> assignment or a YAML scalar, and all but the two hold no \<^verbatim>\<open>*?~&=%\<close> either. The other three,
  for path names, YAML scalars and CEL expressions, are for text that its template puts between quotes,
  and grant no more than what they check: no control character and, for the first two, no double quote
  and no backslash. Of \<open>isIP\<close>, behind the CIDR check, it is assumed that it refuses other characters.
\<close>

theorem validated_values_are_inert:
  assumes "ip_addresses isIP" "accepts isIP f v"
  shows "list_all (permitted f) v \<and> (\<forall>n. length_limit f = Some n \<longrightarrow> length v \<le> n)
    \<and> (f \<notin> quoted_scalars \<longrightarrow>
         set v \<inter> set (''{}[]$;,()<>|`!#+^'' @ [CHR 0x20, CHR 0x22, CHR 0x27, CHR 0x5C, CHR 0x09, CHR 0x0A, CHR 0x0D]) = {}
         \<and> (f \<noteq> Hostname \<and> f \<noteq> ProbePath \<longrightarrow> set v \<inter> set ''*?~&=%'' = {}))"
proof -
  let ?special = "set (''{}[]$;,()<>|`!#+^'' @ [CHR 0x20, CHR 0x22, CHR 0x27, CHR 0x5C, CHR 0x09, CHR 0x0A, CHR 0x0D])"
  have al: "list_all (permitted f) v" using accepted_permitted [OF assms] by (simp add: list_all_iff)
  have word: "\<forall>c \<in> ?special. \<not> word_char c" "\<forall>c \<in> set ''*?~&=%''. \<not> word_char c"
    by (simp_all add: word_char_def one_of_def alnum_any_def lower_def upper_def dec_digit_def Let_def)
  have "\<forall>c \<in> ?special. \<not> permitted f c" if "f \<notin> quoted_scalars"
    using word(1) that by (cases f) (simp_all add: quoted_scalars_def one_of_def)
  moreover have "\<forall>c \<in> set ''*?~&=%''. \<not> permitted f c" if "f \<notin> quoted_scalars" "f \<noteq> Hostname" "f \<noteq> ProbePath"
    using word(2) that by (cases f) (simp_all add: quoted_scalars_def one_of_def)
  ultimately show ?thesis using al accepted_bounded [OF assms(2)] unfolding list_all_iff by blast
qed

definition local_addresses :: "string \<Rightarrow> nat" where
  "local_addresses a = (if a = ''10.0.0.0'' then 4 else 0)"

lemma local_addresses_ip: "ip_addresses local_addresses"
  by (simp add: ip_addresses_def local_addresses_def one_of_def alnum_any_def dec_digit_def Let_def)

lemma reference_accepted: "accepts isIP Reference ''eu.gcr.io/app:v1''"
  by (simp add: assertSafeImageReference_def IMAGE_REFERENCE_RE_def path_segment_def cls_def one_of_def
      alnum_def alnum_any_def lower_def upper_def dec_digit_def Let_def lower_hex_def)

lemma cidr_accepted: "accepts local_addresses Cidr ''10.0.0.0/8''"
  by (simp add: assertSafeCidr_def string_and_def local_addresses_def dec_digit_def Let_def)

theorem validated_values_are_inert_witness:
  "list_all (permitted Cidr) ''10.0.0.0/8'' \<and> length ''eu.gcr.io/app:v1'' \<le> 512 \<and>
   set ''eu.gcr.io/app:v1'' \<inter> set ''*?~&=%'' = {}"
  using validated_values_are_inert [OF local_addresses_ip reference_accepted]
    validated_values_are_inert [OF local_addresses_ip cidr_accepted] by (simp add: quoted_scalars_def)




text \<open>
  The restriction is needed. \<open>JSON.stringify\<close> escapes neither DEL nor the characters after it, so
  \<open>yamlStr\<close> emits them raw although the validators of the same file treat DEL as unsafe in a scalar.
\<close>

lemma yamlStr_leaves_del: "yamlStr [CHR 0x7F] = [CHR 0x22, CHR 0x7F, CHR 0x22] \<and> \<not> yaml_char (CHR 0x7F)
    \<and> assertSafeYamlScalar (Some (JStr [CHR 0x7F])) ''value'' \<noteq> Inr ()"
  by (simp add: yamlStr_def json_string_def DQ_def json_escape_def yaml_char_def assertSafeYamlScalar_def string_and_def
      control_char_def escapeHelmActions_def sublist_Cons_right Let_def)

lemma record_probe_owned:
  "set (map fst (record_probe b k p own)) = set (map fst own) \<union> (set (probe_candidates b p) \<inter> set RESERVED_PROBE_PATHS)"
proof -
  have "set (map fst (foldl (\<lambda>own c. if c \<in> set RESERVED_PROBE_PATHS \<and> c \<notin> set (map fst own) then jsmap_set c k own else own) own cs))
      = set (map fst own) \<union> (set cs \<inter> set RESERVED_PROBE_PATHS)" for cs
    by (induction cs arbitrary: own) (auto simp del: set_map)
  then show ?thesis by (simp add: record_probe_def)
qed

lemma record_probes_owned:
  "set (map fst (foldl (\<lambda>own p. record_probe b k p own) own ps)) =
     set (map fst own) \<union> (\<Union>p \<in> set ps. set (probe_candidates b p) \<inter> set RESERVED_PROBE_PATHS)"
  by (induction ps arbitrary: own) (auto simp: record_probe_owned simp del: set_map)

lemma owned_empty: "(if own = [] then Inr () else Inl own) = Inr () \<longleftrightarrow> set (map fst own) = {}" for own :: "(string, string) jsmap"
  by simp

text \<open>
  the probe-path guard is exact. A build is accepted exactly when no route, static output or
  public file is, as it stands or with the base path removed, one of the paths the health probes
  own; no order of the three lists changes the answer.
\<close>

theorem probe_guard_exact:
  "assertProbePathsUnowned pathnames staticPathnames publicPathnames basePath = Inr () \<longleftrightarrow>
   (\<forall>p \<in> set (pathnames @ staticPathnames @ publicPathnames).
      \<forall>reserved \<in> {''/healthz'', ''/readyz''}. p \<noteq> reserved \<and> p \<noteq> (case basePath of None \<Rightarrow> [] | Some b \<Rightarrow> b) @ reserved)"
proof -
  let ?b = "case basePath of None \<Rightarrow> [] | Some b \<Rightarrow> b"
  have cand: "set (probe_candidates ?b p) \<inter> set RESERVED_PROBE_PATHS = {} \<longleftrightarrow>
      (\<forall>r \<in> {''/healthz'', ''/readyz''}. p \<noteq> r \<and> p \<noteq> ?b @ r)" for p
    by (auto simp: probe_candidates_def RESERVED_PROBE_PATHS_def Let_def prefix_def)
  have "assertProbePathsUnowned pathnames staticPathnames publicPathnames basePath = Inr () \<longleftrightarrow>
      (\<forall>p \<in> set (pathnames @ staticPathnames @ publicPathnames). set (probe_candidates ?b p) \<inter> set RESERVED_PROBE_PATHS = {})"
    unfolding assertProbePathsUnowned_def Let_def owned_empty record_probes_owned by auto
  then show ?thesis by (simp only: cand)
qed


theorem probe_guard_exact_witness:
  "assertProbePathsUnowned [''/'', ''/docs''] [] [''/docs/readyz''] (Some ''/docs'') \<noteq> Inr ()
   \<and> assertProbePathsUnowned [''/'', ''/docs''] [] [''/other/readyz''] (Some ''/docs'') = Inr ()"
  using probe_guard_exact [of "[''/'', ''/docs'']" "[]" "[''/docs/readyz'']" "Some ''/docs''"]
    probe_guard_exact [of "[''/'', ''/docs'']" "[]" "[''/other/readyz'']" "Some ''/docs''"] by simp

text \<open>
  A release name may start with a digit, but the Service named \<open>{releaseName}-routing-service\<close> by the
  chart is then no DNS-1035 label, and it is not the name the deployment is looked up by, which goes
  through \<open>sanitizeK8sName\<close>.
\<close>

theorem digit_release_breaks_service:
  "assertSafeReleaseName ''1app'' = Inr ()
   \<and> assertSafeServiceName (Some (JStr (''1app'' @ ''-routing-service''))) \<noteq> Inr ()
   \<and> sanitizeK8sName (''1app'' @ ''-routing-service'') [] \<noteq> ''1app'' @ ''-routing-service''"
proof -
  have "assertSafeReleaseName ''1app'' = Inr ()"
    by (simp add: assertSafeReleaseName_def RELEASE_NAME_RE_def alnum_def ldh_def lower_def dec_digit_def Let_def)
  moreover have "\<not> matches DNS_1035_LABEL_RE (''1app'' @ ''-routing-service'')"
    by (simp add: DNS_1035_LABEL_RE_def lower_def Let_def)
  moreover have "sanitizeK8sName (''1app'' @ ''-routing-service'') [] \<noteq> ''1app'' @ ''-routing-service''"
    using sanitized_is_label [of "[]" "''1app'' @ ''-routing-service''"] calculation(2)
    by (metis template_suffix_def)
  ultimately show ?thesis by (simp add: assertSafeServiceName_def string_and_def)
qed

end
