(* ===== verification/DeployState.thy ===== *)
theory DeployState
  imports Validators
begin

text \<open>
  \<^verbatim>\<open>src/cli/state.ts\<close>: the committed deploy state, kept in a local file and in a cluster ConfigMap.
  A state is the JSON object the code reads and spreads; a stored text is represented by what
  \<open>JSON.parse\<close> makes of it. \<open>kubectl\<close> is represented by its replies, so that every operation is a
  function of what it read. The last part runs any number of writers against one ConfigMap under
  the API server's optimistic concurrency, one step per await.
\<close>

section \<open>States and errors\<close>

datatype state_error =
    LocalStateReadError
  | ClusterStateReadError
  | StateDisagreementError
  | ClusterStateWriteError bool
  | UsageError
  | NamespaceError invalid

definition CONFIGMAP_NAME_SUFFIX :: string where
  "CONFIGMAP_NAME_SUFFIX = ''-adapter-state''"

definition configMapName :: "string \<Rightarrow> string" where
  "configMapName releaseName = releaseName @ CONFIGMAP_NAME_SUFFIX"

definition DIGEST_RE :: rexp where
  "DIGEST_RE = Seq (lit ''sha256:'') (Rep 64 64 (Cls lower_hex))"

definition digest_map :: "json option \<Rightarrow> bool" where
  "digest_map v =
     (case v of
        None \<Rightarrow> True
      | Some (JObj ms) \<Rightarrow>
          list_all (\<lambda>(key, digest). matches BUILD_ID_RE key \<and> string_and (matches DIGEST_RE) (Some digest)) ms
      | _ \<Rightarrow> False)"

definition isAdapterState :: "json \<Rightarrow> bool" where
  "isAdapterState v =
     (case v of
        JObj ms \<Rightarrow>
          string_and (\<lambda>s. s \<noteq> []) (jget v ''buildId'')
          \<and> (jget v ''previousBuildId'' = Some JNull \<or> string_and (\<lambda>_. True) (jget v ''previousBuildId''))
          \<and> digest_map (jget v ''routingImageDigests'')
      | _ \<Rightarrow> False)"

definition generationOf :: "json \<Rightarrow> rat" where
  "generationOf s = (case finite_number (jget s ''generation'') of Some g \<Rightarrow> g | None \<Rightarrow> 0)"

section \<open>The local file\<close>

datatype local_file = NoFile | Unreadable | Contents raw_json

definition removeLocalState :: "local_file \<Rightarrow> local_file" where
  "removeLocalState f = NoFile"

definition readLocalState :: "local_file \<Rightarrow> (state_error, json option) res" where
  "readLocalState f =
     (case f of
        NoFile \<Rightarrow> Inr None
      | Unreadable \<Rightarrow> Inl LocalStateReadError
      | Contents None \<Rightarrow> Inl LocalStateReadError
      | Contents (Some parsed) \<Rightarrow> if isAdapterState parsed then Inr (Some parsed) else Inl LocalStateReadError)"

definition readLocalStateQuiet :: "local_file \<Rightarrow> json option" where
  "readLocalStateQuiet f = (case readLocalState f of Inr s \<Rightarrow> s | Inl _ \<Rightarrow> None)"

section \<open>Reading the ConfigMap\<close>

text \<open>
  The \<open>state.json\<close> member: absent or no string, blank, or a text. What \<open>kubectl get -o json\<close> with
  \<open>--ignore-not-found\<close> prints: nothing, no JSON, or an object with its resource version.
\<close>

datatype stored_text = Missing | Blank | Text raw_json

datatype kubectl_stdout = NoOutput | Garbled | Object "string option" stored_text

datatype kubectl_reply = Unreachable | Printed kubectl_stdout

text \<open>The state, the resource version, and whether the reply is an error.\<close>

definition parseStateConfigMap :: "kubectl_stdout \<Rightarrow> json option \<times> string option \<times> bool" where
  "parseStateConfigMap stdout =
     (case stdout of
        NoOutput \<Rightarrow> (None, None, False)
      | Garbled \<Rightarrow> (None, None, True)
      | Object resourceVersion body \<Rightarrow>
          (case body of
             Text (Some state) \<Rightarrow>
               if isAdapterState state then (Some state, resourceVersion, False) else (None, resourceVersion, True)
           | _ \<Rightarrow> (None, resourceVersion, True)))"

definition readClusterState :: "kubectl_reply \<Rightarrow> (state_error, json option \<times> string option) res" where
  "readClusterState reply =
     (case reply of
        Unreachable \<Rightarrow> Inl ClusterStateReadError
      | Printed stdout \<Rightarrow>
          (case parseStateConfigMap stdout of
             (state, resourceVersion, failed) \<Rightarrow>
               if failed then Inl ClusterStateReadError else Inr (state, resourceVersion)))"

definition readClusterStateForWrite :: "kubectl_reply \<Rightarrow> (state_error, rat \<times> string option) res" where
  "readClusterStateForWrite reply =
     (case reply of
        Unreachable \<Rightarrow> Inl (ClusterStateWriteError False)
      | Printed stdout \<Rightarrow>
          (case parseStateConfigMap stdout of
             (state, resourceVersion, _) \<Rightarrow>
               Inr (case state of Some s \<Rightarrow> generationOf s | None \<Rightarrow> 0, resourceVersion)))"

definition currentResourceVersion :: "kubectl_reply \<Rightarrow> string option" where
  "currentResourceVersion reply =
     (case reply of Unreachable \<Rightarrow> None | Printed stdout \<Rightarrow> fst (snd (parseStateConfigMap stdout)))"

section \<open>Reading both\<close>

definition previous_is :: "json \<Rightarrow> json \<Rightarrow> bool" where
  "previous_is a b =
     (case jget a ''previousBuildId'' of
        Some (JStr p) \<Rightarrow> p \<noteq> [] \<and> jget b ''buildId'' = Some (JStr p)
      | _ \<Rightarrow> False)"

definition chooseNewerState :: "json \<Rightarrow> json \<Rightarrow> (state_error, json) res" where
  "chooseNewerState l c =
     (let localGen = generationOf l; clusterGen = generationOf c
      in if clusterGen > localGen then Inr c
         else if localGen > clusterGen then Inr l
         else if jget l ''buildId'' = jget c ''buildId'' \<and> jget l ''previousBuildId'' = jget c ''previousBuildId'' then Inr c
         else if previous_is l c then Inr l
         else if previous_is c l then Inr c
         else Inl StateDisagreementError)"

definition truthy_name :: "string option \<Rightarrow> string option" where
  "truthy_name r = (case r of Some (x # xs) \<Rightarrow> Some (x # xs) | _ \<Rightarrow> None)"

definition in_namespace :: "json option \<Rightarrow> (state_error, 'a) res \<Rightarrow> (state_error, 'a) res" where
  "in_namespace namespace r = (case resolveK8sNamespace namespace of Inl e \<Rightarrow> Inl (NamespaceError e) | Inr _ \<Rightarrow> r)"

definition readState ::
    "string option \<Rightarrow> bool \<Rightarrow> bool \<Rightarrow> json option \<Rightarrow> local_file \<Rightarrow> kubectl_reply \<Rightarrow> (state_error, json option) res" where
  "readState releaseName localOnly clusterOnly namespace file reply =
     (if clusterOnly then
        if localOnly \<or> truthy_name releaseName = None then Inl UsageError
        else in_namespace namespace (res_bind (readClusterState reply) (\<lambda>(state, _). Inr state))
      else
        res_bind (readLocalState file) (\<lambda>l.
          if truthy_name releaseName = None \<or> localOnly then Inr l
          else in_namespace namespace (res_bind (readClusterState reply) (\<lambda>(c, _).
                 case (c, l) of
                   (None, _) \<Rightarrow> Inr l
                 | (Some c', None) \<Rightarrow> Inr (Some c')
                 | (Some c', Some l') \<Rightarrow> res_bind (chooseNewerState l' c') (\<lambda>s. Inr (Some s))))))"

section \<open>Writing\<close>

record state_write =
  sw_body :: "(string \<times> json) list"
  sw_based :: json

definition stamp :: "(string \<times> json) list \<Rightarrow> rat \<Rightarrow> string \<Rightarrow> json" where
  "stamp body generation now = JObj (jsmap_set ''updatedAt'' (JStr now) (jsmap_set ''generation'' (JNum generation) body))"

definition moved_on :: "json \<Rightarrow> rat \<Rightarrow> bool" where
  "moved_on based clusterGeneration =
     (case finite_number (Some based) of Some g \<Rightarrow> clusterGeneration > g | None \<Rightarrow> False)"

definition next_generation :: "local_file \<Rightarrow> bool \<Rightarrow> rat \<Rightarrow> json \<Rightarrow> rat" where
  "next_generation file clusterOnly clusterGeneration based =
     max (max (case (if clusterOnly then None else readLocalStateQuiet file) of Some s \<Rightarrow> generationOf s | None \<Rightarrow> 0)
              clusterGeneration)
         (case finite_number (Some based) of Some g \<Rightarrow> g | None \<Rightarrow> 0) + 1"

text \<open>From the reply of the first read to the request of the write: no await in between.\<close>

definition commit_plan ::
    "bool \<Rightarrow> state_write \<Rightarrow> string \<Rightarrow> local_file \<Rightarrow> (state_error, rat \<times> string option) res \<Rightarrow>
     local_file \<times> (state_error, json \<times> string option) res" where
  "commit_plan clusterOnly sw now file existing =
     (let clusterGeneration = (case existing of Inr (g, _) \<Rightarrow> g | Inl _ \<Rightarrow> 0);
          stamped = stamp (sw_body sw) (next_generation file clusterOnly clusterGeneration (sw_based sw)) now;
          file' = (if clusterOnly then file else Contents (Some stamped))
      in case existing of
           Inl e \<Rightarrow> if clusterOnly then (file, Inl e) else (file', Inl e)
         | Inr (_, resourceVersion) \<Rightarrow>
             if moved_on (sw_based sw) clusterGeneration then (file, Inl (ClusterStateWriteError True))
             else (file', Inr (stamped, resourceVersion)))"

datatype kubectl_verb = Replace string | Create

record put_request =
  pr_verb :: kubectl_verb
  pr_name :: string
  pr_labels :: "(string \<times> string) list"
  pr_state :: json

definition state_request :: "string \<Rightarrow> json \<Rightarrow> string option \<Rightarrow> put_request" where
  "state_request releaseName state resourceVersion =
     \<lparr>pr_verb = (case truthy_name resourceVersion of Some v \<Rightarrow> Replace v | None \<Rightarrow> Create),
      pr_name = configMapName releaseName,
      pr_labels = [(''app.kubernetes.io/name'', releaseName), (''app.kubernetes.io/managed-by'', ''adapter-k8s'')],
      pr_state = state\<rparr>"

definition writeClusterState :: "bool \<Rightarrow> kubectl_reply \<Rightarrow> string option \<Rightarrow> (state_error, unit) res" where
  "writeClusterState acknowledged afterwards resourceVersion =
     (if acknowledged then Inr ()
      else let observed = currentResourceVersion afterwards
           in Inl (ClusterStateWriteError (observed \<noteq> None \<and> observed \<noteq> resourceVersion)))"

definition writeState ::
    "state_write \<Rightarrow> string option \<Rightarrow> json option \<Rightarrow> bool \<Rightarrow> string \<Rightarrow> local_file \<Rightarrow> kubectl_reply \<Rightarrow> bool \<Rightarrow> kubectl_reply \<Rightarrow>
     local_file \<times> put_request option \<times> (state_error, unit) res" where
  "writeState sw releaseName namespace clusterOnly now file reply acknowledged afterwards =
     (case resolveK8sNamespace namespace of
        Inl e \<Rightarrow> (file, None, Inl (NamespaceError e))
      | Inr _ \<Rightarrow>
          if clusterOnly \<and> truthy_name releaseName = None then (file, None, Inl UsageError)
          else
            (case truthy_name releaseName of
               None \<Rightarrow> (fst (commit_plan clusterOnly sw now file (Inr (0, None))), None,
                        res_bind (snd (commit_plan clusterOnly sw now file (Inr (0, None)))) (\<lambda>_. Inr ()))
             | Some release \<Rightarrow>
                 (case commit_plan clusterOnly sw now file (readClusterStateForWrite reply) of
                    (file', Inl e) \<Rightarrow> (file', None, Inl e)
                  | (file', Inr (stamped, resourceVersion)) \<Rightarrow>
                      (file', Some (state_request release stamped resourceVersion),
                       writeClusterState acknowledged afterwards resourceVersion))))"

section \<open>Writers sharing one ConfigMap\<close>

text \<open>
  The API server as its documentation describes it: an accepted write gets a resource version no
  object had before, a replace is accepted only for the current version, a create only when there
  is no object. Replies may be lost on the way, and anyone may edit or delete the object.
\<close>

record configmap =
  cm_version :: string
  cm_text :: stored_text

datatype phase =
    Idle
  | Asked bool state_write
  | Answered bool state_write kubectl_reply
  | Putting state_write json "string option"

record writer =
  wr_file :: local_file
  wr_phase :: phase

text \<open>A commit: the text it replaced, the state it stored, and the request behind it.\<close>

type_synonym commit = "stored_text option \<times> json \<times> state_write"

record world =
  w_cm :: "configmap option"
  w_versions :: "string set"
  w_writers :: "nat \<Rightarrow> writer"
  w_commits :: "commit list"

definition set_writer :: "nat \<Rightarrow> writer \<Rightarrow> world \<Rightarrow> world" where
  "set_writer i wr w = w\<lparr>w_writers := (w_writers w)(i := wr)\<rparr>"

definition reply_of :: "configmap option \<Rightarrow> kubectl_reply" where
  "reply_of cm = Printed (case cm of None \<Rightarrow> NoOutput | Some c \<Rightarrow> Object (Some (cm_version c)) (cm_text c))"

definition accepts_put :: "kubectl_verb \<Rightarrow> configmap option \<Rightarrow> bool" where
  "accepts_put verb cm =
     (case verb of Create \<Rightarrow> cm = None | Replace v \<Rightarrow> (case cm of Some c \<Rightarrow> cm_version c = v | None \<Rightarrow> False))"

inductive writer_step :: "world \<Rightarrow> world \<Rightarrow> bool" where
  begins: "writer_step w (set_writer i ((w_writers w i)\<lparr>wr_phase := Asked clusterOnly sw\<rparr>) w)"
    if "wr_phase (w_writers w i) = Idle"
| reads: "writer_step w (set_writer i ((w_writers w i)\<lparr>wr_phase := Answered clusterOnly sw reply\<rparr>) w)"
    if "wr_phase (w_writers w i) = Asked clusterOnly sw" "reply \<in> {reply_of (w_cm w), Unreachable, Printed Garbled}"
| decides: "writer_step w (set_writer i \<lparr>wr_file = file', wr_phase = Putting sw stamped v\<rparr> w)"
    if "wr_phase (w_writers w i) = Answered clusterOnly sw reply"
       "commit_plan clusterOnly sw now (wr_file (w_writers w i)) (readClusterStateForWrite reply) = (file', Inr (stamped, v))"
| refuses: "writer_step w (set_writer i \<lparr>wr_file = file', wr_phase = Idle\<rparr> w)"
    if "wr_phase (w_writers w i) = Answered clusterOnly sw reply"
       "commit_plan clusterOnly sw now (wr_file (w_writers w i)) (readClusterStateForWrite reply) = (file', Inl e)"
| commits: "writer_step w ((set_writer i ((w_writers w i)\<lparr>wr_phase := Idle\<rparr>) w)
      \<lparr>w_cm := Some \<lparr>cm_version = fresh, cm_text = Text (Some stamped)\<rparr>, w_versions := insert fresh (w_versions w),
       w_commits := w_commits w @ [(map_option cm_text (w_cm w), stamped, sw)]\<rparr>)"
    if "wr_phase (w_writers w i) = Putting sw stamped v"
       "accepts_put (pr_verb (state_request release stamped v)) (w_cm w)" "fresh \<notin> w_versions w" "fresh \<noteq> []"
| fails: "writer_step w (set_writer i ((w_writers w i)\<lparr>wr_phase := Idle\<rparr>) w)"
    if "wr_phase (w_writers w i) = Putting sw stamped v"

inductive outside_step :: "world \<Rightarrow> world \<Rightarrow> bool" where
  edited: "outside_step w (w\<lparr>w_cm := Some \<lparr>cm_version = fresh, cm_text = body\<rparr>, w_versions := insert fresh (w_versions w)\<rparr>)"
    if "fresh \<notin> w_versions w" "fresh \<noteq> []"
| deleted: "outside_step w (w\<lparr>w_cm := None\<rparr>)"
| restored: "outside_step w (set_writer i ((w_writers w i)\<lparr>wr_file := file\<rparr>) w)"

definition initial :: "world \<Rightarrow> bool" where
  "initial w \<longleftrightarrow> w_commits w = [] \<and> (\<forall>i. wr_phase (w_writers w i) = Idle) \<and>
     (\<forall>c. w_cm w = Some c \<longrightarrow> cm_version c \<in> w_versions w \<and> cm_version c \<noteq> [])"

inductive reachable :: "world \<Rightarrow> bool" where
  init: "reachable w" if "initial w"
| by_writer: "reachable w'" if "reachable w" "writer_step w w'"
| by_outside: "reachable w'" if "reachable w" "outside_step w w'"

text \<open>The same without interference from outside the program.\<close>

inductive undisturbed :: "world \<Rightarrow> bool" where
  init': "undisturbed w" if "initial w"
| by_writer': "undisturbed w'" if "undisturbed w" "writer_step w w'"


section \<open>What the writers keep\<close>

definition text_generation :: "stored_text \<Rightarrow> rat" where
  "text_generation t = (case t of Text (Some s) \<Rightarrow> if isAdapterState s then generationOf s else 0 | _ \<Rightarrow> 0)"

definition supersedes :: "json \<Rightarrow> state_write \<Rightarrow> stored_text \<Rightarrow> bool" where
  "supersedes st sw t \<longleftrightarrow> text_generation t < generationOf st \<and>
     (\<forall>g. finite_number (Some (sw_based sw)) = Some g \<longrightarrow> text_generation t \<le> g)"

fun phase_ok :: "configmap option \<Rightarrow> string set \<Rightarrow> phase \<Rightarrow> bool" where
  "phase_ok cm vs (Answered co sw (Printed (Object v body))) \<longleftrightarrow>
     (\<exists>x. v = Some x \<and> x \<in> vs \<and> x \<noteq> [] \<and> (\<forall>c. cm = Some c \<and> cm_version c = x \<longrightarrow> cm_text c = body))"
| "phase_ok cm vs (Putting sw st v) \<longleftrightarrow> (\<exists>g now. st = stamp (sw_body sw) g now) \<and>
     (\<forall>x. v = Some x \<longrightarrow> x \<in> vs \<and> x \<noteq> [] \<and> (\<forall>c. cm = Some c \<and> cm_version c = x \<longrightarrow> supersedes st sw (cm_text c)))"
| "phase_ok cm vs _ \<longleftrightarrow> True"

definition commit_ok :: "commit \<Rightarrow> bool" where
  "commit_ok = (\<lambda>(old, st, sw). (\<exists>g now. st = stamp (sw_body sw) g now) \<and> (\<forall>t. old = Some t \<longrightarrow> supersedes st sw t))"

definition world_ok :: "world \<Rightarrow> bool" where
  "world_ok w \<longleftrightarrow> (\<forall>c. w_cm w = Some c \<longrightarrow> cm_version c \<in> w_versions w \<and> cm_version c \<noteq> []) \<and>
     (\<forall>i. phase_ok (w_cm w) (w_versions w) (wr_phase (w_writers w i))) \<and> (\<forall>c \<in> set (w_commits w). commit_ok c)"

lemma generation_stamp [simp]: "generationOf (stamp body g now) = g"
  by (simp add: stamp_def generationOf_def)

lemma read_text: "readClusterStateForWrite (Printed (Object v body)) = Inr (text_generation body, v)"
  by (auto simp: readClusterStateForWrite_def parseStateConfigMap_def text_generation_def
      split: stored_text.splits option.splits)

lemma next_generation_above:
  "c < next_generation file co c based" "finite_number (Some based) = Some g \<Longrightarrow> g < next_generation file co c based"
  "co = False \<Longrightarrow> readLocalStateQuiet file = Some s \<Longrightarrow> generationOf s < next_generation file co c based"
  by (simp_all add: next_generation_def max_def)

lemma plan_accepted:
  assumes "commit_plan co sw now file existing = (file', Inr (st, v))"
  obtains g where "existing = Inr (g, v)" "st = stamp (sw_body sw) (next_generation file co g (sw_based sw)) now"
    "file' = (if co then file else Contents (Some st))" "\<not> moved_on (sw_based sw) g"
proof (cases existing)
  case (Inl e)
  then show ?thesis using assms by (cases co) (simp_all add: commit_plan_def Let_def)
next
  case (Inr gv)
  obtain g x where gv: "gv = (g, x)" by fastforce
  have ok: "\<not> moved_on (sw_based sw) g" using assms by (rule contrapos_pn) (simp add: commit_plan_def Let_def Inr gv)
  have "x = v" and st: "st = stamp (sw_body sw) (next_generation file co g (sw_based sw)) now"
    using assms ok by (simp_all add: commit_plan_def Let_def Inr gv)
  moreover have "file' = (if co then file else Contents (Some st))"
    using assms ok unfolding st by (simp add: commit_plan_def Let_def Inr gv)
  ultimately show ?thesis using that [of g] ok Inr gv by simp
qed

lemma plan_supersedes:
  assumes "commit_plan co sw now file (readClusterStateForWrite (Printed (Object v body))) = (file', Inr (st, v'))"
  shows "v' = v" "supersedes st sw body"
proof -
  obtain g where g: "Inr (text_generation body, v) = (Inr (g, v') :: (state_error, rat \<times> string option) res)"
    "st = stamp (sw_body sw) (next_generation file co g (sw_based sw)) now" "\<not> moved_on (sw_based sw) g"
    using plan_accepted [OF assms] unfolding read_text by metis
  then show "v' = v" "supersedes st sw body"
    using next_generation_above(1) by (auto simp: supersedes_def moved_on_def not_less)
qed

lemma plan_unversioned:
  "commit_plan co sw now file (readClusterStateForWrite (Printed NoOutput)) = (file', Inr (st, v)) \<Longrightarrow> v = None"
  "commit_plan co sw now file (readClusterStateForWrite (Printed Garbled)) = (file', Inr (st, v)) \<Longrightarrow> v = None"
  "commit_plan co sw now file (readClusterStateForWrite Unreachable) = (file', Inr (st, v)) \<Longrightarrow> False"
  by (auto simp: readClusterStateForWrite_def parseStateConfigMap_def elim!: plan_accepted)

lemma phase_ok_fresh:
  "phase_ok cm vs p \<Longrightarrow> x \<notin> vs \<Longrightarrow> phase_ok (Some \<lparr>cm_version = x, cm_text = t\<rparr>) (insert x vs) p"
  "phase_ok cm vs p \<Longrightarrow> phase_ok None vs p"
  by (induction cm vs p rule: phase_ok.induct) auto

lemma phase_ok_reply:
  "\<forall>c. cm = Some c \<longrightarrow> cm_version c \<in> vs \<and> cm_version c \<noteq> [] \<Longrightarrow> r \<in> {reply_of cm, Unreachable, Printed Garbled} \<Longrightarrow>
   phase_ok cm vs (Answered co sw r)"
  by (cases cm) (auto simp: reply_of_def)

lemma phase_ok_plan:
  assumes "phase_ok cm vs (Answered co sw r)" "commit_plan co sw now file (readClusterStateForWrite r) = (file', Inr (st, v))"
  shows "phase_ok cm vs (Putting sw st v)"
proof -
  have stamped: "\<exists>g now. st = stamp (sw_body sw) g now" using plan_accepted [OF assms(2)] by metis
  have "\<forall>x. v = Some x \<longrightarrow> x \<in> vs \<and> x \<noteq> [] \<and> (\<forall>c. cm = Some c \<and> cm_version c = x \<longrightarrow> supersedes st sw (cm_text c))"
  proof (cases r)
    case Unreachable
    then show ?thesis using assms(2) plan_unversioned(3) by blast
  next
    case (Printed out)
    show ?thesis
    proof (cases out)
      case (Object v' body)
      note p = plan_supersedes [OF assms(2) [unfolded Printed Object]]
      show ?thesis using assms(1) p by (auto simp: Printed Object)
    next
      case NoOutput
      then show ?thesis using plan_unversioned(1) assms(2) Printed by fastforce
    next
      case Garbled
      then show ?thesis using plan_unversioned(2) assms(2) Printed by fastforce
    qed
  qed
  with stamped show ?thesis by simp
qed

lemma put_supersedes:
  assumes "phase_ok cm vs (Putting sw st v)" "accepts_put (pr_verb (state_request rel st v)) cm"
  shows "commit_ok (map_option cm_text cm, st, sw)"
  using assms
  by (auto simp: accepts_put_def state_request_def truthy_name_def commit_ok_def split: option.splits list.splits)

lemma world_ok_initial: "initial w \<Longrightarrow> world_ok w"
  by (simp add: initial_def world_ok_def)

lemma world_ok_writer:
  assumes "writer_step w w'" "world_ok w"
  shows "world_ok w'"
  using assms(1)
proof cases
  case (reads i co sw r)
  then show ?thesis using assms(2) phase_ok_reply [of "w_cm w" "w_versions w" r co sw] by (auto simp: world_ok_def set_writer_def)
next
  case (decides i co sw r now file' st v)
  have "phase_ok (w_cm w) (w_versions w) (Answered co sw r)" using assms(2) decides by (metis world_ok_def)
  from phase_ok_plan [OF this decides(3)] show ?thesis using assms(2) decides by (auto simp: world_ok_def set_writer_def)
next
  case (commits i sw st v rel x)
  have "phase_ok (w_cm w) (w_versions w) (Putting sw st v)" using assms(2) commits by (metis world_ok_def)
  note put_supersedes [OF this commits(3)]
  then show ?thesis using assms(2) commits by (auto simp: world_ok_def set_writer_def intro: phase_ok_fresh(1))
qed (use assms(2) in \<open>auto simp: world_ok_def set_writer_def\<close>)

lemma world_ok_outside:
  assumes "outside_step w w'" "world_ok w"
  shows "world_ok w'"
  using assms(1)
  by cases (use assms(2) in \<open>auto simp: world_ok_def set_writer_def intro: phase_ok_fresh\<close>)

lemma reachable_ok: "reachable w \<Longrightarrow> world_ok w"
  by (induction rule: reachable.induct) (blast intro: world_ok_initial world_ok_writer world_ok_outside)+

lemma stamp_state: "isAdapterState (JObj body) \<Longrightarrow> isAdapterState (stamp body g now)"
  by (simp add: stamp_def isAdapterState_def)

text \<open>Without interference the ConfigMap is the last commit, if there was one.\<close>

definition chained :: "world \<Rightarrow> bool" where
  "chained w \<longleftrightarrow>
     (\<forall>cs c. w_commits w = cs @ [c] \<longrightarrow> map_option cm_text (w_cm w) = Some (Text (Some (fst (snd c))))) \<and>
     (\<forall>cs c d ds. w_commits w = cs @ c # d # ds \<longrightarrow> fst d = Some (Text (Some (fst (snd c)))))"

lemma undisturbed_reachable: "undisturbed w \<Longrightarrow> reachable w"
  by (induction rule: undisturbed.induct) (auto intro: reachable.intros)

lemma chained_append:
  assumes "chained w" "w_commits w' = w_commits w @ [(map_option cm_text (w_cm w), st, sw)]"
    "map_option cm_text (w_cm w') = Some (Text (Some st))"
  shows "chained w'"
proof -
  have "fst d = Some (Text (Some (fst (snd c))))" if split: "w_commits w' = cs @ c # d # ds" for cs c d ds
  proof (cases ds rule: rev_cases)
    case Nil
    then have "w_commits w = cs @ [c]" "d = (map_option cm_text (w_cm w), st, sw)"
      using split assms(2) by auto
    then show ?thesis using assms(1) unfolding chained_def by (metis fst_conv)
  next
    case (snoc ds' e)
    then have "w_commits w = cs @ c # d # ds'" using split assms(2) by auto
    then show ?thesis using assms(1) unfolding chained_def by blast
  qed
  then show ?thesis using assms(2,3) by (simp add: chained_def)
qed

lemma undisturbed_chained: "undisturbed w \<Longrightarrow> chained w"
proof (induction rule: undisturbed.induct)
  case (init' w)
  then show ?case by (simp add: initial_def chained_def)
next
  case (by_writer' w w')
  from by_writer'(2) show ?case
  proof cases
    case (commits i sw st v rel x)
    show ?thesis by (rule chained_append [OF by_writer'(3), of w' st sw]) (simp_all add: commits)
  qed (use by_writer'(3) in \<open>simp_all add: chained_def set_writer_def\<close>)
qed


lemma chained_sorted:
  assumes "\<And>cs c d ds. xs = cs @ c # d # ds \<Longrightarrow> f c < (f d :: rat)"
  shows "sorted_wrt (<) (map f xs)"
  using assms
proof (induction xs)
  case (Cons x xs)
  have IH: "sorted_wrt (<) (map f xs)" by (rule Cons.IH) (metis Cons.prems append_Cons)
  show ?case
  proof (cases xs)
    case (Cons y ys)
    have "f x < f y" using Cons.prems [of "[]" x y ys] Cons by simp
    then show ?thesis using IH Cons by (auto intro: less_trans)
  qed simp
qed simp

lemma commit_generations:
  assumes "undisturbed w" "\<forall>(old, st, sw) \<in> set (w_commits w). isAdapterState (JObj (sw_body sw))"
  shows "sorted_wrt (<) (map (\<lambda>(old, st, sw). generationOf st) (w_commits w))"
proof (rule chained_sorted)
  fix cs c d ds
  assume eq: "w_commits w = cs @ c # d # ds"
  obtain o1 s1 r1 o2 s2 r2 where cd: "c = (o1, s1, r1)" "d = (o2, s2, r2)" by (metis prod_cases3)
  have ok: "commit_ok c" "commit_ok d" using reachable_ok [OF undisturbed_reachable [OF assms(1)]] eq
    by (auto simp: world_ok_def)
  have "o2 = Some (Text (Some s1))" using undisturbed_chained [OF assms(1)] eq cd by (fastforce simp: chained_def)
  then have "text_generation (Text (Some s1)) < generationOf s2"
    using ok(2) cd by (auto simp: commit_ok_def supersedes_def)
  moreover have "isAdapterState s1" using ok(1) assms(2) eq cd stamp_state by (auto simp: commit_ok_def)
  ultimately show "(\<lambda>(old, st, sw). generationOf st) c < (\<lambda>(old, st, sw). generationOf st) d"
    by (simp add: cd text_generation_def)
qed


section \<open>Properties\<close>

lemma commit_supersedes:
  "reachable w \<Longrightarrow> (Some t, st, sw) \<in> set (w_commits w) \<Longrightarrow> supersedes st sw t"
  using reachable_ok by (fastforce simp: world_ok_def commit_ok_def)

text \<open>
  C5: no deploy is lost. However many deploys and rollbacks run at once, whatever replies get lost
  and whoever edits or deletes the ConfigMap in between: a commit that replaces a stored state has a
  larger generation than that state, and it never replaces a state newer than the one its operation
  started from.
\<close>

theorem no_lost_update:
  assumes "reachable w" "(Some t, st, sw) \<in> set (w_commits w)"
  shows "text_generation t < generationOf st
    \<and> (finite_number (Some (sw_based sw)) = Some g \<longrightarrow> text_generation t \<le> g)"
  using commit_supersedes [OF assms] by (simp add: supersedes_def)

definition demo_state :: "string \<Rightarrow> rat \<Rightarrow> json" where
  "demo_state b g = JObj [(''buildId'', JStr b), (''previousBuildId'', JNull), (''generation'', JNum g)]"

definition demo_write :: state_write where
  "demo_write = \<lparr>sw_body = [(''buildId'', JStr ''b2''), (''previousBuildId'', JStr ''b1'')], sw_based = JNum 5\<rparr>"

definition demo_world :: world where
  "demo_world = \<lparr>w_cm = Some \<lparr>cm_version = ''7'', cm_text = Text (Some (demo_state ''b1'' 5))\<rparr>, w_versions = {''7''},
     w_writers = (\<lambda>_. \<lparr>wr_file = NoFile, wr_phase = Idle\<rparr>), w_commits = []\<rparr>"

lemma demo_state_ok [simp]: "isAdapterState (demo_state (c # b) g)" "generationOf (demo_state b g) = g"
  by (simp_all add: demo_state_def isAdapterState_def string_and_def digest_map_def generationOf_def)

lemma run_commit:
  assumes w: "undisturbed w" "w_writers w 0 = \<lparr>wr_file = NoFile, wr_phase = Idle\<rparr>" "w_cm w = Some c" "cm_version c \<noteq> []"
    and plan: "commit_plan True sw now NoFile (readClusterStateForWrite (reply_of (w_cm w))) = (NoFile, Inr (st, Some (cm_version c)))"
    and fresh: "x \<notin> w_versions w" "x \<noteq> []"
  shows "\<exists>w'. undisturbed w' \<and> w_commits w' = w_commits w @ [(Some (cm_text c), st, sw)] \<and>
    w_writers w' 0 = \<lparr>wr_file = NoFile, wr_phase = Idle\<rparr> \<and> w_cm w' = Some \<lparr>cm_version = x, cm_text = Text (Some st)\<rparr> \<and>
    w_versions w' = insert x (w_versions w)"
proof -
  let ?u = "\<lambda>p. set_writer 0 \<lparr>wr_file = NoFile, wr_phase = p\<rparr> w" and ?r = "reply_of (w_cm w)"
  note step = undisturbed.by_writer'
  have u1: "undisturbed (?u (Asked True sw))"
    using step [OF w(1) writer_step.begins [of w 0 True sw]] w(2) by simp
  have u2: "undisturbed (?u (Answered True sw ?r))"
    using step [OF u1 writer_step.reads [of _ 0 True sw ?r]] by (simp add: set_writer_def)
  have u3: "undisturbed (?u (Putting sw st (Some (cm_version c))))"
    using step [OF u2 writer_step.decides [of _ 0 True sw ?r now NoFile st]] plan by (simp add: set_writer_def)
  have "accepts_put (pr_verb (state_request [] st (Some (cm_version c)))) (w_cm w)"
    using w(3,4) by (cases "cm_version c") (simp_all add: accepts_put_def state_request_def truthy_name_def)
  then show ?thesis
    using step [OF u3 writer_step.commits [of _ 0 sw st "Some (cm_version c)" "[]" x]] fresh w(3)
    by (fastforce simp: set_writer_def)
qed

lemma demo_first:
  "\<exists>w. undisturbed w \<and> w_commits w = [(Some (Text (Some (demo_state ''b1'' 5))), stamp (sw_body demo_write) 6 ''now'', demo_write)] \<and>
    w_writers w 0 = \<lparr>wr_file = NoFile, wr_phase = Idle\<rparr> \<and>
    w_cm w = Some \<lparr>cm_version = ''8'', cm_text = Text (Some (stamp (sw_body demo_write) 6 ''now''))\<rparr> \<and> w_versions w = {''8'', ''7''}"
proof -
  have u: "undisturbed demo_world" by (rule undisturbed.init') (simp add: initial_def demo_world_def)
  let ?c = "\<lparr>cm_version = ''7'', cm_text = Text (Some (demo_state ''b1'' 5))\<rparr> :: configmap"
  have "commit_plan True demo_write ''now'' NoFile (readClusterStateForWrite (reply_of (w_cm demo_world))) =
      (NoFile, Inr (stamp (sw_body demo_write) 6 ''now'', Some (cm_version ?c)))"
    by (simp add: commit_plan_def reply_of_def demo_world_def readClusterStateForWrite_def parseStateConfigMap_def
        next_generation_def moved_on_def demo_write_def Let_def)
  from run_commit [OF u _ _ _ this, of "''8''"] show ?thesis by (simp add: demo_world_def)
qed

definition demo_write2 :: state_write where
  "demo_write2 = \<lparr>sw_body = [(''buildId'', JStr ''b3''), (''previousBuildId'', JStr ''b2'')], sw_based = JNum 6\<rparr>"

lemma demo_bodies: "isAdapterState (JObj (sw_body demo_write))" "isAdapterState (JObj (sw_body demo_write2))"
  by (simp_all add: demo_write_def demo_write2_def isAdapterState_def string_and_def digest_map_def)

lemma demo_second:
  "\<exists>w. undisturbed w \<and> w_commits w =
     [(Some (Text (Some (demo_state ''b1'' 5))), stamp (sw_body demo_write) 6 ''now'', demo_write),
      (Some (Text (Some (stamp (sw_body demo_write) 6 ''now''))), stamp (sw_body demo_write2) 7 ''then'', demo_write2)]"
proof -
  let ?s6 = "stamp (sw_body demo_write) 6 ''now''"
  obtain w where w: "undisturbed w" "w_commits w = [(Some (Text (Some (demo_state ''b1'' 5))), ?s6, demo_write)]"
    "w_writers w 0 = \<lparr>wr_file = NoFile, wr_phase = Idle\<rparr>" "w_cm w = Some \<lparr>cm_version = ''8'', cm_text = Text (Some ?s6)\<rparr>"
    "w_versions w = {''8'', ''7''}"
    using demo_first by blast
  have "commit_plan True demo_write2 ''then'' NoFile (readClusterStateForWrite (reply_of (w_cm w))) =
      (NoFile, Inr (stamp (sw_body demo_write2) 7 ''then'', Some ''8''))"
    by (simp add: w(4) commit_plan_def reply_of_def read_text text_generation_def stamp_state demo_bodies
        next_generation_def moved_on_def demo_write2_def Let_def)
  then show ?thesis using run_commit [OF w(1,3,4), of demo_write2 "''then''" _ "''9''"] w(2,5) by auto
qed

theorem no_lost_update_witness:
  "\<exists>w t st. reachable w \<and> (Some t, st, demo_write2) \<in> set (w_commits w) \<and> text_generation t < generationOf st \<and> text_generation t \<le> 6"
proof -
  obtain w where "undisturbed w" and cs: "w_commits w =
     [(Some (Text (Some (demo_state ''b1'' 5))), stamp (sw_body demo_write) 6 ''now'', demo_write),
      (Some (Text (Some (stamp (sw_body demo_write) 6 ''now''))), stamp (sw_body demo_write2) 7 ''then'', demo_write2)]"
    using demo_second by blast
  then have "reachable w" by (simp only: undisturbed_reachable)
  then obtain t st where w: "reachable w" "(Some t, st, demo_write2) \<in> set (w_commits w)"
    unfolding cs by (metis list.set_intros(1) list.set_intros(2))
  show ?thesis using no_lost_update [OF w, of 6] w by (auto simp: demo_write2_def)
qed

text \<open>
  when nobody else touches the ConfigMap, the generations of the committed states increase
  strictly, in the order of the commits, under any interleaving of the writers.
\<close>

theorem commit_order_is_generation_order:
  assumes "undisturbed w" "\<forall>(old, st, sw) \<in> set (w_commits w). isAdapterState (JObj (sw_body sw))"
  shows "sorted_wrt (<) (map (\<lambda>(old, st, sw). generationOf st) (w_commits w))"
  by (rule commit_generations [OF assms])

theorem commit_order_is_generation_order_witness:
  "\<exists>w. undisturbed w \<and> length (w_commits w) = 2 \<and> sorted_wrt (<) (map (\<lambda>(old, st, sw). generationOf st) (w_commits w))"
proof -
  obtain w where u: "undisturbed w" and cs: "w_commits w =
     [(Some (Text (Some (demo_state ''b1'' 5))), stamp (sw_body demo_write) 6 ''now'', demo_write),
      (Some (Text (Some (stamp (sw_body demo_write) 6 ''now''))), stamp (sw_body demo_write2) 7 ''then'', demo_write2)]"
    using demo_second by blast
  then have w: "undisturbed w" "length (w_commits w) = 2"
    "\<forall>(old, st, sw) \<in> set (w_commits w). isAdapterState (JObj (sw_body sw))"
    by (simp_all add: demo_bodies)
  show ?thesis using commit_order_is_generation_order [OF w(1,3)] w(1,2) by blast
qed

lemma namespace_ok: "resolveK8sNamespace ns = Inr n \<Longrightarrow> in_namespace ns r = r"
  by (simp add: in_namespace_def)

text \<open>
  an unknown state is never taken for a first deploy. The state is reported absent exactly when
  \<open>kubectl\<close> proved the ConfigMap absent and, unless only the cluster is read, there is no local file;
  every unreadable, garbled or malformed source is an error instead.
\<close>

theorem absent_only_if_proven_absent:
  assumes "rel \<noteq> []" "resolveK8sNamespace ns = Inr n"
  shows "readState (Some rel) False clusterOnly ns file reply = Inr None \<longleftrightarrow>
    reply = Printed NoOutput \<and> (\<not> clusterOnly \<longrightarrow> file = NoFile)"
proof -
  have rel: "truthy_name (Some rel) = Some rel" using assms(1) by (cases rel) (simp_all add: truthy_name_def)
  have c: "readClusterState reply = Inr (None, v) \<longleftrightarrow> reply = Printed NoOutput \<and> v = None" for v
    by (auto simp: readClusterState_def parseStateConfigMap_def split: kubectl_reply.splits kubectl_stdout.splits
        stored_text.splits option.splits)
  have l: "readLocalState file = Inr None \<longleftrightarrow> file = NoFile"
    by (auto simp: readLocalState_def split: local_file.splits option.splits)
  show ?thesis
    using c l unfolding readState_def rel namespace_ok [OF assms(2)]
    by (auto simp: res_bind_Inr split: option.splits)
qed

theorem absent_only_if_proven_absent_witness:
  "readState (Some ''app'') False False None NoFile Unreachable \<noteq> Inr None
   \<and> readState (Some ''app'') False False None NoFile (Printed NoOutput) = Inr None"
proof -
  have ns: "resolveK8sNamespace None = Inr ''default''"
    by (simp add: resolveK8sNamespace_def K8S_NAMESPACE_def assertSafeNamespace_def string_and_def require_def
        NAMESPACE_RE_def alnum_def ldh_def lower_def dec_digit_def Let_def)
  show ?thesis using absent_only_if_proven_absent [OF _ ns, of "''app''" False NoFile] by simp
qed


lemma newer_local_wins:
  assumes "rel \<noteq> []" "resolveK8sNamespace ns = Inr n" "isAdapterState s" "isAdapterState c" "generationOf c < generationOf s"
  shows "readState (Some rel) False False ns (Contents (Some s)) (Printed (Object v (Text (Some c)))) = Inr (Some s)"
  using assms(1,3-) unfolding readState_def namespace_ok [OF assms(2)]
  by (cases rel) (simp_all add: truthy_name_def readLocalState_def readClusterState_def parseStateConfigMap_def
      res_bind_def chooseNewerState_def Let_def)

lemma failed_plan:
  assumes "commit_plan False sw now file existing = (file', r)"
  shows "existing = Inr (cg, v) \<Longrightarrow> moved_on (sw_based sw) cg \<Longrightarrow> file' = file"
    and "(\<And>cg v. existing = Inr (cg, v) \<Longrightarrow> \<not> moved_on (sw_based sw) cg) \<Longrightarrow>
      \<exists>cg. file' = Contents (Some (stamp (sw_body sw) (next_generation file False cg (sw_based sw)) now))"
  using assms by (auto simp: commit_plan_def Let_def split: sum.splits if_splits)

text \<open>
  a failed write can be repeated safely. When a deploy that started from generation \<open>g\<close> could not
  write the ConfigMap, either it stopped because a newer state had been committed, and then the
  local file is untouched and nothing was sent; or the local file holds the new state, and the next
  read, finding a ConfigMap that is still no newer than \<open>g\<close>, returns that local state.
\<close>

theorem failed_write_is_recoverable:
  assumes "rel \<noteq> []" "resolveK8sNamespace ns = Inr n" "isAdapterState (JObj (sw_body sw))"
    and based: "finite_number (Some (sw_based sw)) = Some g"
    and failed: "writeState sw (Some rel) ns False now file reply ack afterwards = (file', put, Inl e)"
    and c: "isAdapterState c" "generationOf c \<le> g"
  shows "(file' = file \<and> put = None \<and> (\<exists>cg v. readClusterStateForWrite reply = Inr (cg, v) \<and> g < cg))
    \<or> (\<exists>gen. file' = Contents (Some (stamp (sw_body sw) gen now)) \<and>
         readState (Some rel) False False ns file' (Printed (Object v (Text (Some c)))) = Inr (Some (stamp (sw_body sw) gen now)))"
proof -
  let ?ex = "readClusterStateForWrite reply"
  obtain f r where plan: "commit_plan False sw now file ?ex = (f, r)" by fastforce
  have rel: "truthy_name (Some rel) = Some rel" using assms(1) by (cases rel) (simp_all add: truthy_name_def)
  have f: "file' = f" using failed plan assms(2) unfolding writeState_def rel by (auto split: sum.splits)
  show ?thesis
  proof (cases "\<exists>cg v. ?ex = Inr (cg, v) \<and> moved_on (sw_based sw) cg")
    case True
    then obtain cg v where m: "?ex = Inr (cg, v)" "moved_on (sw_based sw) cg" by blast
    have "put = None" using failed assms(2) m unfolding writeState_def rel by (simp add: commit_plan_def Let_def)
    then show ?thesis using failed_plan(1) [OF plan m] m based f by (auto simp: moved_on_def)
  next
    case False
    then obtain cg where cg: "f = Contents (Some (stamp (sw_body sw) (next_generation file False cg (sw_based sw)) now))"
      using failed_plan(2) [OF plan] by blast
    let ?gen = "next_generation file False cg (sw_based sw)"
    have "generationOf c < ?gen" using next_generation_above(2) [OF based] c(2) by (rule le_less_trans [rotated])
    then have "readState (Some rel) False False ns f (Printed (Object v (Text (Some c)))) = Inr (Some (stamp (sw_body sw) ?gen now))"
      unfolding cg by (intro newer_local_wins [OF assms(1,2) stamp_state [OF assms(3)] c(1)]) simp
    then show ?thesis using cg f by blast
  qed
qed

theorem failed_write_is_recoverable_witness:
  "\<exists>gen. fst (writeState demo_write (Some ''app'') (Some (JStr ''ns'')) False ''now'' NoFile Unreachable False Unreachable) =
      Contents (Some (stamp (sw_body demo_write) gen ''now''))"
proof -
  have ns: "resolveK8sNamespace (Some (JStr ''ns'')) = Inr ''ns''"
    by (simp add: resolveK8sNamespace_def assertSafeNamespace_def string_and_def require_def
        NAMESPACE_RE_def alnum_def ldh_def lower_def dec_digit_def Let_def res_bind_def)
  obtain f put where w: "writeState demo_write (Some ''app'') (Some (JStr ''ns'')) False ''now'' NoFile Unreachable False Unreachable =
      (f, put, Inl (ClusterStateWriteError False))"
    using ns by (simp add: writeState_def truthy_name_def commit_plan_def readClusterStateForWrite_def Let_def)
  have based: "finite_number (Some (sw_based demo_write)) = Some 5" by (simp add: demo_write_def)
  have "\<not> (\<exists>cg v. readClusterStateForWrite Unreachable = Inr (cg, v) \<and> 5 < cg)" by (simp add: readClusterStateForWrite_def)
  then show ?thesis
    using failed_write_is_recoverable [OF _ ns demo_bodies(1) based w, of "demo_state ''b1'' 5" None] w
    by (simp only: demo_state_ok fst_conv) blast
qed

end
