(* ===== verification/RespWire.thy ===== *)
theory RespWire
  imports Decimal
begin

text \<open>
  The wire format of \<^verbatim>\<open>src/pool-server/valkey-cache/resp-client.ts\<close>: the command encoder, the frame
  scanner that measures a reply without copying it, and the parser. A buffer is its list of bytes, a
  byte is a \<open>char\<close>. Numbers in headers are read exactly, which agrees with JavaScript while they are
  below \<open>2\<^sup>5\<^sup>3\<close>.
\<close>

section \<open>Lines and lengths\<close>

definition CR :: char where "CR = CHR 0x0D"
definition LF :: char where "LF = CHR 0x0A"

definition CRLF :: string where
  "CRLF = [CR, LF]"

definition DEFAULT_MAX_REPLY_BYTES :: nat where "DEFAULT_MAX_REPLY_BYTES = 64 * 1024 * 1024"
definition MAX_HEADER_LINE_BYTES :: nat where "MAX_HEADER_LINE_BYTES = 8 * 1024"
definition MAX_ARRAY_ELEMENTS :: nat where "MAX_ARRAY_ELEMENTS = 1000000"
definition MAX_BUFFERED_FACTOR :: nat where "MAX_BUFFERED_FACTOR = 4"
definition MAX_FRAME_DEPTH :: nat where "MAX_FRAME_DEPTH = 32"

text \<open>\<open>buf.indexOf(CRLF, offset)\<close>, \<open>None\<close> being \<open>-1\<close>.\<close>

fun find_crlf :: "string \<Rightarrow> nat option" where
  "find_crlf (c # d # s) = (if c = CR \<and> d = LF then Some 0 else map_option Suc (find_crlf (d # s)))"
| "find_crlf _ = None"

definition line_end :: "string \<Rightarrow> nat \<Rightarrow> nat option" where
  "line_end buf offset = map_option ((+) offset) (find_crlf (drop offset buf))"

definition slice :: "string \<Rightarrow> nat \<Rightarrow> nat \<Rightarrow> string" where
  "slice buf a b = take (b - a) (drop a buf)"

text \<open>\<open>DECIMAL_INTEGER\<close> and its value; \<open>-00\<close> is zero.\<close>

definition decimal :: "string \<Rightarrow> int option" where
  "decimal line =
     (case line of
        [] \<Rightarrow> None
      | c # ds \<Rightarrow>
          if c = CHR ''-'' then if ds \<noteq> [] \<and> list_all dec_digit ds then Some (- int (dec_value ds)) else None
          else if list_all dec_digit line then Some (int (dec_value line)) else None)"

definition parseRespLength :: "string \<Rightarrow> int option" where
  "parseRespLength line = (case decimal line of Some n \<Rightarrow> if n \<ge> - 1 then Some n else None | None \<Rightarrow> None)"

section \<open>The frame scanner\<close>

datatype resp_error =
    NestedTooDeep
  | LineTooLong
  | InlineTooLarge
  | BadBulkLength
  | FrameTooLarge
  | BadArrayCount
  | TooManyElements
  | UnknownType
  | UnsolicitedBytes
  | BufferTooLarge
  | ScannerParserDisagree
  | ExtraBytes
  | ServerError string
  | ConnectionLost
  | CommandTimedOut
  | ClientClosed
  | NotConnected
  | BreakerOpen
  | InvalidUrl
  | WrongShape
  | TransactionDiscarded

datatype scan = End nat | Need nat

function (sequential) scanFrameEnd :: "string \<Rightarrow> nat \<Rightarrow> nat \<Rightarrow> nat \<Rightarrow> (resp_error, scan) res"
  and scanElements :: "string \<Rightarrow> nat \<Rightarrow> nat \<Rightarrow> nat \<Rightarrow> nat \<Rightarrow> (resp_error, scan) res" where
  "scanFrameEnd buf offset limit depth =
     (if depth > MAX_FRAME_DEPTH then Inl NestedTooDeep
      else if offset \<ge> length buf then Inr (Need (offset + 1))
      else
        (case line_end buf offset of
           None \<Rightarrow>
             if length buf - offset > MAX_HEADER_LINE_BYTES then Inl LineTooLong else Inr (Need (length buf + 1))
         | Some lineEnd \<Rightarrow>
             if lineEnd - offset > MAX_HEADER_LINE_BYTES \<and> length buf - offset > MAX_HEADER_LINE_BYTES then Inl LineTooLong
             else
               let type = buf ! offset; after = lineEnd + 2
               in if type \<in> {CHR ''+'', CHR ''-'', CHR '':''} then
                    if after > limit then Inl InlineTooLarge else Inr (End after)
                  else if type = CHR ''$'' then
                    (case parseRespLength (slice buf (offset + 1) lineEnd) of
                       None \<Rightarrow> Inl BadBulkLength
                     | Some len \<Rightarrow>
                         if len = - 1 then Inr (End after)
                         else let e = after + nat len + 2
                              in if e > limit then Inl FrameTooLarge
                                 else Inr (if length buf \<ge> e then End e else Need e))
                  else if type = CHR ''*'' then
                    (case parseRespLength (slice buf (offset + 1) lineEnd) of
                       None \<Rightarrow> Inl BadArrayCount
                     | Some count \<Rightarrow>
                         if count = - 1 then Inr (End after)
                         else if count > int MAX_ARRAY_ELEMENTS then Inl TooManyElements
                         else
                           (case scanElements buf after limit (depth + 1) (nat count) of
                              Inl e \<Rightarrow> Inl e
                            | Inr (Need n) \<Rightarrow> Inr (Need n)
                            | Inr (End cursor) \<Rightarrow> if cursor > limit then Inl FrameTooLarge else Inr (End cursor)))
                  else Inl UnknownType))"
| "scanElements buf cursor limit depth 0 = Inr (End cursor)"
| "scanElements buf cursor limit depth (Suc n) =
     (case scanFrameEnd buf cursor limit depth of
        Inl e \<Rightarrow> Inl e
      | Inr (Need k) \<Rightarrow> Inr (Need k)
      | Inr (End e) \<Rightarrow> scanElements buf e limit depth n)"
  by pat_completeness auto
termination
  by (relation "inv_image (less_than <*lex*> less_than)
        (\<lambda>x. case x of Inl (_, _, _, d) \<Rightarrow> (2 * (MAX_FRAME_DEPTH + 2 - d), 0)
                     | Inr (_, _, _, d, n) \<Rightarrow> (2 * (MAX_FRAME_DEPTH + 2 - d) + 1, n))")
     (auto simp: MAX_FRAME_DEPTH_def)

declare scanFrameEnd.simps [simp del]

section \<open>The parser\<close>

text \<open>
  A simple string, error or integer is kept as the line it was read from. \<open>Malformed\<close> stands for a
  header the scanner rejects: the parser is only called on scanned frames, and what \<open>Number\<close> makes
  of other lines is not modelled.
\<close>

datatype reply = Simple string | Failure string | Integer string | Bulk string | Array "reply list" | Null

datatype parsed = Incomplete | Malformed | Parsed reply nat

datatype parsed_list = IncompleteL | MalformedL | ParsedL "reply list" nat

function (sequential) parseReply :: "string \<Rightarrow> nat \<Rightarrow> parsed"
  and parseElements :: "string \<Rightarrow> nat \<Rightarrow> nat \<Rightarrow> parsed_list" where
  "parseReply buf offset =
     (if offset \<ge> length buf then Incomplete
      else
        (case line_end buf offset of
           None \<Rightarrow> Incomplete
         | Some lineEnd \<Rightarrow>
             let line = slice buf (offset + 1) lineEnd; after = lineEnd + 2; type = buf ! offset
             in if type = CHR ''+'' then Parsed (Simple line) after
                else if type = CHR ''-'' then Parsed (Failure line) after
                else if type = CHR '':'' then Parsed (Integer line) after
                else if type = CHR ''$'' then
                  (case decimal line of
                     None \<Rightarrow> Malformed
                   | Some len \<Rightarrow>
                       if len < 0 then Parsed Null after
                       else let e = after + nat len
                            in if e + 2 > length buf then Incomplete else Parsed (Bulk (slice buf after e)) (e + 2))
                else if type = CHR ''*'' then
                  (case decimal line of
                     None \<Rightarrow> Malformed
                   | Some count \<Rightarrow>
                       if count < 0 then Parsed Null after
                       else if count > int MAX_ARRAY_ELEMENTS then Malformed
                       else (case parseElements buf after (nat count) of
                               ParsedL items cursor \<Rightarrow> Parsed (Array items) cursor
                             | IncompleteL \<Rightarrow> Incomplete
                             | MalformedL \<Rightarrow> Malformed))
                else Incomplete))"
| "parseElements buf cursor 0 = ParsedL [] cursor"
| "parseElements buf cursor (Suc n) =
     (case parseReply buf cursor of
        Incomplete \<Rightarrow> IncompleteL
      | Malformed \<Rightarrow> MalformedL
      | Parsed v next \<Rightarrow>
          (case parseElements buf next n of
             ParsedL items cursor' \<Rightarrow> ParsedL (v # items) cursor'
           | IncompleteL \<Rightarrow> IncompleteL
           | MalformedL \<Rightarrow> MalformedL))"
  by pat_completeness auto


lemma find_crlf_bound: "find_crlf s = Some i \<Longrightarrow> i + 2 \<le> length s"
  by (induction s arbitrary: i rule: find_crlf.induct) (auto split: if_splits)

lemma line_end_bound: "line_end buf offset = Some l \<Longrightarrow> offset \<le> l \<and> l + 2 \<le> length buf"
  using find_crlf_bound [of "drop offset buf"] by (fastforce simp: line_end_def)

text \<open>Every frame advances the cursor; this is what ends the parser's recursion.\<close>

lemma parse_advances_dom:
  "parseReply_parseElements_dom (Inl (buf, offset)) \<Longrightarrow> parseReply buf offset = Parsed v e \<Longrightarrow> offset < e"
  "parseReply_parseElements_dom (Inr (buf, cursor, n)) \<Longrightarrow> parseElements buf cursor n = ParsedL vs e' \<Longrightarrow> cursor \<le> e'"
proof (induction buf offset and buf cursor n arbitrary: v e and vs e' rule: parseReply_parseElements.pinduct)
  case (1 buf offset)
  from 1(3) obtain l where l: "line_end buf offset = Some l" "\<not> length buf \<le> offset"
    unfolding parseReply.psimps [OF 1(1)] by (auto split: if_splits option.splits)
  note b = line_end_bound [OF l(1)]
  show ?case
    using 1(3) b 1(2) [OF l(2,1) refl refl refl] l unfolding parseReply.psimps [OF 1(1)]
    by (auto simp: Let_def split: if_splits option.splits parsed_list.splits) force+
next
  case (2 buf cursor)
  then show ?case by (simp add: parseElements.psimps)
next
  case (3 buf cursor n)
  from 3(4) show ?case
    unfolding parseElements.psimps(2) [OF 3(1)] using 3(2,3)
    by (auto split: parsed.splits parsed_list.splits) (meson less_imp_le order_trans)
qed

termination parseReply
  by (relation "inv_image (less_than <*lex*> less_than)
        (\<lambda>x. case x of Inl (b, i) \<Rightarrow> (length b - i, 0) | Inr (b, i, n) \<Rightarrow> (length b - i, n + 1))")
     (auto dest!: line_end_bound parse_advances_dom)

declare parseReply.simps [simp del]


section \<open>Commands\<close>

text \<open>An argument is a buffer (or a string's bytes) or an integer.\<close>

datatype arg = Bytes string | Num int

fun arg_body :: "arg \<Rightarrow> string" where
  "arg_body (Bytes b) = b"
| "arg_body (Num n) = (if n < 0 then CHR ''-'' # nat_dec (nat (- n)) else nat_dec (nat n))"

definition encodeCommand :: "arg list \<Rightarrow> string" where
  "encodeCommand args =
     CHR ''*'' # nat_dec (length args) @ CRLF @
     concat (map (\<lambda>a. let body = arg_body a in CHR ''$'' # nat_dec (length body) @ CRLF @ body @ CRLF) args)"

section \<open>Scanner and parser agree\<close>

lemma parseRespLength_decimal:
  "parseRespLength line = Some n \<Longrightarrow> decimal line = Some n \<and> - 1 \<le> n"
  by (auto simp: parseRespLength_def split: option.splits if_splits)

lemma scan_parse:
  "scanFrameEnd buf offset limit depth = Inr (End e) \<Longrightarrow> \<exists>v. parseReply buf offset = Parsed v e"
  "scanElements buf cursor limit depth n = Inr (End e') \<Longrightarrow> \<exists>vs. parseElements buf cursor n = ParsedL vs e'"
proof (induction buf offset limit depth and buf cursor limit depth n arbitrary: e and e'
    rule: scanFrameEnd_scanElements.induct)
  case (1 buf offset limit depth)
  from 1(2) obtain l where l: "\<not> MAX_FRAME_DEPTH < depth" "\<not> length buf \<le> offset" "line_end buf offset = Some l"
    "\<not> (MAX_HEADER_LINE_BYTES < l - offset \<and> MAX_HEADER_LINE_BYTES < length buf - offset)"
    unfolding scanFrameEnd.simps [of buf offset] by (auto split: if_splits option.splits)
  let ?t = "buf ! offset" and ?line = "slice buf (offset + 1) l"
  note scan = 1(2) [unfolded scanFrameEnd.simps [of buf offset]]
  note parse = parseReply.simps [of buf offset]
  consider "?t \<in> {CHR ''+'', CHR ''-'', CHR '':''}" | "?t = CHR ''$''" | "?t = CHR ''*''"
    using scan l by (auto simp: Let_def split: if_splits)
  then show ?case
  proof cases
    case 1
    then show ?thesis using scan l parse by (auto simp: Let_def split: if_splits)
  next
    case 2
    obtain len where len: "parseRespLength ?line = Some len" using scan l 2 by (auto simp: Let_def split: if_splits option.splits)
    then show ?thesis using scan l 2 parse parseRespLength_decimal [OF len] by (auto simp: Let_def split: if_splits)
  next
    case 3
    obtain c where c: "parseRespLength ?line = Some c" using scan l 3 by (auto simp: Let_def split: if_splits option.splits)
    note dc = parseRespLength_decimal [OF c]
    show ?thesis
    proof (cases "c = - 1")
      case True
      then show ?thesis using scan l 3 c parse dc by (simp add: Let_def)
    next
      case False
      have cap: "\<not> int MAX_ARRAY_ELEMENTS < c" using scan l 3 c False by (simp add: Let_def split: if_splits)
      have el: "scanElements buf (l + 2) limit (depth + 1) (nat c) = Inr (End e)"
        using scan l 3 c False cap by (auto simp: Let_def split: sum.splits scan.splits if_splits)
      have "\<exists>vs. parseElements buf (l + 2) (nat c) = ParsedL vs e"
        using "1.IH" [OF l refl refl _ _ _ c False cap el] 3 by simp
      then show ?thesis using l 3 False cap dc parse by (auto simp: Let_def)
    qed
  qed
next
  case (2 buf cursor limit depth)
  then show ?case by simp
next
  case (3 buf cursor limit depth n)
  then obtain k where k: "scanFrameEnd buf cursor limit depth = Inr (End k)" "scanElements buf k limit depth n = Inr (End e')"
    by (auto split: sum.splits scan.splits)
  then show ?case using 3(1) [OF k(1)] 3(2) [OF k(1) refl k(2)] by auto
qed

section \<open>What a server sends\<close>

text \<open>The RESP2 encoding of a reply, and the replies the client's limits admit.\<close>

primrec encodeReply :: "reply \<Rightarrow> string" where
  "encodeReply (Simple s) = CHR ''+'' # s @ CRLF"
| "encodeReply (Failure s) = CHR ''-'' # s @ CRLF"
| "encodeReply (Integer s) = CHR '':'' # s @ CRLF"
| "encodeReply (Bulk b) = CHR ''$'' # nat_dec (length b) @ CRLF @ b @ CRLF"
| "encodeReply (Array rs) = CHR ''*'' # nat_dec (length rs) @ CRLF @ concat (map encodeReply rs)"
| "encodeReply Null = ''$-1'' @ CRLF"

fun reply_ok :: "reply \<Rightarrow> nat \<Rightarrow> bool" where
  "reply_ok (Simple s) d \<longleftrightarrow> d \<le> MAX_FRAME_DEPTH \<and> CR \<notin> set s \<and> length s + 2 \<le> MAX_HEADER_LINE_BYTES"
| "reply_ok (Failure s) d \<longleftrightarrow> d \<le> MAX_FRAME_DEPTH \<and> CR \<notin> set s \<and> length s + 2 \<le> MAX_HEADER_LINE_BYTES"
| "reply_ok (Integer s) d \<longleftrightarrow> d \<le> MAX_FRAME_DEPTH \<and> CR \<notin> set s \<and> length s + 2 \<le> MAX_HEADER_LINE_BYTES"
| "reply_ok (Bulk b) d \<longleftrightarrow> d \<le> MAX_FRAME_DEPTH \<and> length b < 10 ^ 15"
| "reply_ok (Array rs) d \<longleftrightarrow> d \<le> MAX_FRAME_DEPTH \<and> length rs \<le> MAX_ARRAY_ELEMENTS \<and> (\<forall>r \<in> set rs. reply_ok r (d + 1))"
| "reply_ok Null d \<longleftrightarrow> d \<le> MAX_FRAME_DEPTH"

lemma find_crlf_line: "CR \<notin> set s \<Longrightarrow> find_crlf (s @ CR # LF # t) = Some (length s)"
proof (induction s)
  case (Cons c s)
  then show ?case by (cases s) (auto simp: CR_def LF_def)
qed simp

lemma find_crlf_none: "CR \<notin> set s \<Longrightarrow> find_crlf s = None" "CR \<notin> set s \<Longrightarrow> find_crlf (s @ [CR]) = None"
proof -
  show "CR \<notin> set s \<Longrightarrow> find_crlf s = None" by (induction s rule: find_crlf.induct) auto
  show "CR \<notin> set s \<Longrightarrow> find_crlf (s @ [CR]) = None"
  proof (induction s)
    case (Cons c s)
    then show ?case by (cases s) auto
  qed simp
qed

lemma decimal_nat_dec: "decimal (nat_dec n) = Some (int n)"
proof -
  obtain c ds where cd: "nat_dec n = c # ds" by (cases "nat_dec n") auto
  have "c \<noteq> CHR ''-''" using nat_dec_digits [of n] cd by (auto simp: dec_digit_def)
  moreover have "list_all dec_digit (nat_dec n)" using nat_dec_digits by (simp add: list_all_iff)
  ultimately show ?thesis using nat_dec_value [of n] cd by (simp add: decimal_def del: dec_value.simps)
qed

lemma length_line_nat_dec: "parseRespLength (nat_dec n) = Some (int n)"
  by (simp add: parseRespLength_def decimal_nat_dec)

lemma nat_dec_no_CR: "CR \<notin> set (nat_dec n)"
  using nat_dec_digits [of n] by (auto simp: dec_digit_def CR_def)


text \<open>A header line inside a buffer, complete or cut short.\<close>

lemma header_line:
  assumes "c \<noteq> CR" "CR \<notin> set s"
  shows "line_end (pre @ c # s @ CRLF @ post) (length pre) = Some (length pre + length s + 1)"
  using find_crlf_line [of "c # s" post] assms by (simp add: line_end_def CRLF_def)

lemma header_slice: "slice (pre @ c # s @ CRLF @ post) (length pre + 1) (length pre + length s + 1) = s"
  by (simp add: slice_def)

lemma header_cut:
  assumes "c \<noteq> CR" "CR \<notin> set s" "strict_prefix p (c # s @ CRLF)"
  shows "line_end (pre @ p) (length pre) = None" "length p < length s + 3"
proof -
  have len: "length p < length s + 3" using prefix_length_less [OF assms(3)] by (simp add: CRLF_def)
  have p: "p = take (length p) (c # s @ CRLF)" using assms(3) by (auto simp: strict_prefix_def prefix_def)
  have "find_crlf p = None"
  proof (cases "length p = length s + 2")
    case True
    then have "p = (c # s) @ [CR]" by (subst p) (simp add: CRLF_def)
    then show ?thesis using assms(1,2) find_crlf_none(2) [of "c # s"] by auto
  next
    case False
    then have "p = take (length p) (c # s)" using len by (subst p) (cases "length p", auto simp: CRLF_def)
    then have "CR \<notin> set p" using assms(1,2) by (metis in_set_takeD set_ConsD)
    then show ?thesis by (rule find_crlf_none(1))
  qed
  then show "line_end (pre @ p) (length pre) = None" by (simp add: line_end_def)
  show "length p < length s + 3" by (rule len)
qed

lemma scan_cut:
  assumes "d \<le> MAX_FRAME_DEPTH" "c \<noteq> CR" "CR \<notin> set s" "length s + 2 \<le> MAX_HEADER_LINE_BYTES" "strict_prefix p (c # s @ CRLF)"
  shows "\<exists>n. scanFrameEnd (pre @ p) (length pre) limit d = Inr (Need n) \<and> length pre + length p < n \<and> n \<le> length pre + length s + 3"
  using assms header_cut(1) [OF assms(2,3,5), of pre] header_cut(2) [OF assms(2,3,5)] scanFrameEnd.simps [of "pre @ p" "length pre" limit d] by (cases p) auto

lemma scan_header:
  fixes pre s post :: string and c :: char and d :: nat
  assumes "d \<le> MAX_FRAME_DEPTH" "c \<noteq> CR" "CR \<notin> set s" "length s + 2 \<le> MAX_HEADER_LINE_BYTES"
  defines "buf \<equiv> pre @ c # s @ CRLF @ post" and "after \<equiv> length pre + length s + 3"
  shows "c \<in> {CHR ''+'', CHR ''-'', CHR '':''} \<Longrightarrow> after \<le> limit \<Longrightarrow>
      scanFrameEnd buf (length pre) limit d = Inr (End after)"
    and "c = CHR ''$'' \<Longrightarrow> parseRespLength s = Some (- 1) \<Longrightarrow> scanFrameEnd buf (length pre) limit d = Inr (End after)"
    and "c = CHR ''$'' \<Longrightarrow> parseRespLength s = Some (int n) \<Longrightarrow> after + n + 2 \<le> limit \<Longrightarrow>
      scanFrameEnd buf (length pre) limit d =
        Inr (if length post \<ge> n + 2 then End (after + n + 2) else Need (after + n + 2))"
    and "c = CHR ''*'' \<Longrightarrow> parseRespLength s = Some (int n) \<Longrightarrow> n \<le> MAX_ARRAY_ELEMENTS \<Longrightarrow>
      scanFrameEnd buf (length pre) limit d =
        (case scanElements buf after limit (d + 1) n of
           Inl e \<Rightarrow> Inl e | Inr (Need k) \<Rightarrow> Inr (Need k) | Inr (End k) \<Rightarrow> if k > limit then Inl FrameTooLarge else Inr (End k))"
proof -
  have l: "line_end buf (length pre) = Some (length pre + length s + 1)" "buf ! length pre = c"
    "slice buf (length pre + 1) (length pre + length s + 1) = s" "length buf = after + length post"
    using header_line [OF assms(2,3)] header_slice by (simp_all add: buf_def after_def CRLF_def nth_append)
  note scan = scanFrameEnd.simps [of buf "length pre" limit d]
  have ok: "\<not> MAX_FRAME_DEPTH < d" "\<not> length buf \<le> length pre"
    "\<not> (MAX_HEADER_LINE_BYTES < length pre + length s + 1 - length pre \<and> MAX_HEADER_LINE_BYTES < length buf - length pre)"
    using assms(1,4) l(4) by (simp_all add: after_def)
  show "c \<in> {CHR ''+'', CHR ''-'', CHR '':''} \<Longrightarrow> after \<le> limit \<Longrightarrow> scanFrameEnd buf (length pre) limit d = Inr (End after)"
    unfolding scan l(1-3) Let_def option.case using ok by (auto simp: after_def)
  show "c = CHR ''$'' \<Longrightarrow> parseRespLength s = Some (- 1) \<Longrightarrow> scanFrameEnd buf (length pre) limit d = Inr (End after)"
    unfolding scan l(1-3) Let_def option.case using ok by (auto simp: after_def)
  show "c = CHR ''$'' \<Longrightarrow> parseRespLength s = Some (int n) \<Longrightarrow> after + n + 2 \<le> limit \<Longrightarrow>
      scanFrameEnd buf (length pre) limit d =
        Inr (if length post \<ge> n + 2 then End (after + n + 2) else Need (after + n + 2))"
    unfolding scan l(1-3) Let_def option.case using ok l(4) by (auto simp: after_def)
  show "c = CHR ''*'' \<Longrightarrow> parseRespLength s = Some (int n) \<Longrightarrow> n \<le> MAX_ARRAY_ELEMENTS \<Longrightarrow>
      scanFrameEnd buf (length pre) limit d =
        (case scanElements buf after limit (d + 1) n of
           Inl e \<Rightarrow> Inl e | Inr (Need k) \<Rightarrow> Inr (Need k) | Inr (End k) \<Rightarrow> if k > limit then Inl FrameTooLarge else Inr (End k))"
    unfolding scan l(1-3) Let_def option.case using ok by (auto simp: after_def numeral_3_eq_3)
qed


definition scans :: "reply \<Rightarrow> nat \<Rightarrow> bool" where
  "scans r d \<longleftrightarrow>
     (\<forall>pre post limit. length pre + length (encodeReply r) \<le> limit \<longrightarrow>
        scanFrameEnd (pre @ encodeReply r @ post) (length pre) limit d = Inr (End (length pre + length (encodeReply r)))) \<and>
     (\<forall>pre p limit. strict_prefix p (encodeReply r) \<longrightarrow> length pre + length (encodeReply r) \<le> limit \<longrightarrow>
        (\<exists>n. scanFrameEnd (pre @ p) (length pre) limit d = Inr (Need n) \<and> length pre + length p < n \<and>
             n \<le> length pre + length (encodeReply r)))"

lemma scans_full:
  "scans r d \<Longrightarrow> length pre + length (encodeReply r) \<le> limit \<Longrightarrow>
   scanFrameEnd (pre @ encodeReply r @ post) (length pre) limit d = Inr (End (length pre + length (encodeReply r)))"
  by (simp add: scans_def)

lemma scans_cut:
  "scans r d \<Longrightarrow> strict_prefix p (encodeReply r) \<Longrightarrow> length pre + length (encodeReply r) \<le> limit \<Longrightarrow>
   \<exists>n. scanFrameEnd (pre @ p) (length pre) limit d = Inr (Need n) \<and> length pre + length p < n \<and> n \<le> length pre + length (encodeReply r)"
  by (simp add: scans_def)

lemma scansI:
  assumes "length (encodeReply r) = n"
    and "\<And>pre post limit. length pre + n \<le> limit \<Longrightarrow> scanFrameEnd (pre @ encodeReply r @ post) (length pre) limit d = Inr (End (length pre + n))"
    and "\<And>pre p limit. strict_prefix p (encodeReply r) \<Longrightarrow> length pre + n \<le> limit \<Longrightarrow>
      \<exists>k. scanFrameEnd (pre @ p) (length pre) limit d = Inr (Need k) \<and> length pre + length p < k \<and> k \<le> length pre + n"
  shows "scans r d"
  unfolding scans_def assms(1) using assms(2,3) by blast

lemma prefix_append_cases:
  assumes "strict_prefix p (u @ v)"
  shows "strict_prefix p u \<or> (\<exists>q. p = u @ q \<and> strict_prefix q v)"
proof -
  have "prefix p u \<or> (\<exists>q. p = u @ q \<and> prefix q v)" using assms by (auto simp: strict_prefix_def prefix_append)
  then show ?thesis using assms by (cases "p = u") (auto simp: strict_prefix_def)
qed

lemma scan_elements:
  assumes "\<forall>r \<in> set rs. scans r d" "length pre + length (concat (map encodeReply rs)) \<le> limit"
  shows "scanElements (pre @ concat (map encodeReply rs) @ post) (length pre) limit d (length rs) =
    Inr (End (length pre + length (concat (map encodeReply rs))))"
  using assms
proof (induction rs arbitrary: pre)
  case (Cons r rs)
  have s: "scanFrameEnd (pre @ encodeReply r @ concat (map encodeReply rs) @ post) (length pre) limit d =
      Inr (End (length pre + length (encodeReply r)))"
    using Cons.prems scans_full [of r d pre limit "concat (map encodeReply rs) @ post"] by simp
  show ?case using Cons.IH [of "pre @ encodeReply r"] Cons.prems s by simp
qed simp

lemma scan_elements_cut:
  assumes "\<forall>r \<in> set rs. scans r d" "length pre + length (concat (map encodeReply rs)) \<le> limit"
    "strict_prefix p (concat (map encodeReply rs))"
  shows "\<exists>n. scanElements (pre @ p) (length pre) limit d (length rs) = Inr (Need n) \<and> length pre + length p < n \<and>
    n \<le> length pre + length (concat (map encodeReply rs))"
  using assms
proof (induction rs arbitrary: pre p)
  case (Cons r rs)
  from Cons.prems(3) consider "strict_prefix p (encodeReply r)"
    | q where "p = encodeReply r @ q" "strict_prefix q (concat (map encodeReply rs))"
    using prefix_append_cases [of p "encodeReply r"] by auto
  then show ?case
  proof cases
    case 1
    then show ?thesis using scans_cut [of r d p pre limit] Cons.prems by fastforce
  next
    case (2 q)
    have s: "scanFrameEnd (pre @ encodeReply r @ q) (length pre) limit d = Inr (End (length pre + length (encodeReply r)))"
      using Cons.prems scans_full [of r d pre limit q] by simp
    show ?thesis using Cons.IH [of "pre @ encodeReply r" q] Cons.prems s 2 by (simp add: add.assoc)
  qed
qed simp


lemma scans_inline:
  assumes "d \<le> MAX_FRAME_DEPTH" "c \<in> {CHR ''+'', CHR ''-'', CHR '':''}" "CR \<notin> set s" "length s + 2 \<le> MAX_HEADER_LINE_BYTES"
    "encodeReply r = c # s @ CRLF"
  shows "scans r d"
proof -
  have c: "c \<noteq> CR" using assms(2) by (auto simp: CR_def)
  have len: "length (encodeReply r) = length s + 3" using assms(5) by (simp add: CRLF_def)
  have "scanFrameEnd (pre @ c # s @ CRLF @ post) (length pre) limit d = Inr (End (length pre + length s + 3))"
    if "length pre + length s + 3 \<le> limit" for pre post limit
    using scan_header(1) [OF assms(1) c assms(3,4,2), of pre limit post] that by (simp add: add.assoc)
  then show ?thesis
    using scan_cut [OF assms(1) c assms(3,4)] unfolding scans_def len unfolding assms(5) by (auto simp: add.assoc)
qed

lemma length_bulk_header: "length b < 10 ^ 15 \<Longrightarrow> length (nat_dec (length b)) + 2 \<le> MAX_HEADER_LINE_BYTES"
  using length_nat_dec [of "length b" 15] by (simp add: MAX_HEADER_LINE_BYTES_def)

lemma length_array_header: "length rs \<le> MAX_ARRAY_ELEMENTS \<Longrightarrow> length (nat_dec (length rs)) + 2 \<le> MAX_HEADER_LINE_BYTES"
  using length_nat_dec [of "length rs" 7] by (simp add: MAX_HEADER_LINE_BYTES_def MAX_ARRAY_ELEMENTS_def)

lemma scans_bulk:
  assumes "d \<le> MAX_FRAME_DEPTH" "length b < 10 ^ 15"
  shows "scans (Bulk b) d"
proof -
  let ?s = "nat_dec (length b)" and ?h = "\<lambda>pre. length pre + length (nat_dec (length b)) + 3"
  have c: "CHR ''$'' \<noteq> CR" by (simp add: CR_def)
  note hd = scan_header(3) [OF assms(1) c nat_dec_no_CR length_bulk_header [OF assms(2)] refl length_line_nat_dec, simplified]
  have enc: "encodeReply (Bulk b) = (CHR ''$'' # ?s @ CRLF) @ b @ CRLF" by simp
  have len: "length (encodeReply (Bulk b)) = length ?s + 3 + length b + 2" by (simp add: CRLF_def)
  have full: "scanFrameEnd (pre @ encodeReply (Bulk b) @ post) (length pre) limit d = Inr (End (?h pre + length b + 2))"
    if "?h pre + length b + 2 \<le> limit" for pre post limit
    using hd [of pre limit "b @ CRLF @ post"] that by (simp add: CRLF_def)
  have cut: "\<exists>n. scanFrameEnd (pre @ p) (length pre) limit d = Inr (Need n) \<and> length pre + length p < n \<and> n \<le> ?h pre + length b + 2"
    if p: "strict_prefix p (encodeReply (Bulk b))" and lim: "?h pre + length b + 2 \<le> limit" for pre p limit
    using p unfolding enc
  proof (rule disjE [OF prefix_append_cases])
    assume "strict_prefix p (CHR ''$'' # ?s @ CRLF)"
    then show ?thesis
      using scan_cut [OF assms(1) c nat_dec_no_CR length_bulk_header [OF assms(2)], of p pre limit] by fastforce
  next
    assume "\<exists>q. p = (CHR ''$'' # ?s @ CRLF) @ q \<and> strict_prefix q (b @ CRLF)"
    then obtain q where q: "p = (CHR ''$'' # ?s @ CRLF) @ q" "strict_prefix q (b @ CRLF)" by blast
    have "length q < length b + 2" using prefix_length_less [OF q(2)] by (simp add: CRLF_def)
    then show ?thesis using hd [of pre limit q] lim q(1) by (simp add: CRLF_def)
  qed
  show ?thesis by (rule scansI [OF len [unfolded add.assoc]]) (use full cut in \<open>unfold add.assoc, blast\<close>)+
qed

lemma scans_array:
  assumes "d \<le> MAX_FRAME_DEPTH" "length rs \<le> MAX_ARRAY_ELEMENTS" "\<forall>r \<in> set rs. scans r (d + 1)"
  shows "scans (Array rs) d"
proof -
  let ?s = "nat_dec (length rs)" and ?h = "\<lambda>pre. length pre + length (nat_dec (length rs)) + 3"
    and ?body = "concat (map encodeReply rs)"
  have c: "CHR ''*'' \<noteq> CR" by (simp add: CR_def)
  note hd = scan_header(4) [OF assms(1) c nat_dec_no_CR length_array_header [OF assms(2)] refl length_line_nat_dec assms(2)]
  have enc: "encodeReply (Array rs) = (CHR ''*'' # ?s @ CRLF) @ ?body" by simp
  have len: "length (encodeReply (Array rs)) = length ?s + 3 + length ?body" by (simp add: CRLF_def)
  have hpre: "length (pre @ CHR ''*'' # ?s @ CRLF) = ?h pre" for pre :: string by (simp add: CRLF_def)
  have full: "scanFrameEnd (pre @ encodeReply (Array rs) @ post) (length pre) limit d = Inr (End (?h pre + length ?body))"
    if "?h pre + length ?body \<le> limit" for pre post limit
    using hd [of pre "?body @ post" limit] scan_elements [OF assms(3), of "pre @ CHR ''*'' # ?s @ CRLF" limit post] that
    unfolding hpre by simp
  have cut: "\<exists>n. scanFrameEnd (pre @ p) (length pre) limit d = Inr (Need n) \<and> length pre + length p < n \<and> n \<le> ?h pre + length ?body"
    if p: "strict_prefix p (encodeReply (Array rs))" and lim: "?h pre + length ?body \<le> limit" for pre p limit
    using p unfolding enc
  proof (rule disjE [OF prefix_append_cases])
    assume "strict_prefix p (CHR ''*'' # ?s @ CRLF)"
    then show ?thesis
      using scan_cut [OF assms(1) c nat_dec_no_CR length_array_header [OF assms(2)], of p pre limit] by fastforce
  next
    assume "\<exists>q. p = (CHR ''*'' # ?s @ CRLF) @ q \<and> strict_prefix q ?body"
    then obtain q where q: "p = (CHR ''*'' # ?s @ CRLF) @ q" "strict_prefix q ?body" by blast
    obtain n where "scanElements (pre @ p) (?h pre) limit (d + 1) (length rs) = Inr (Need n)"
      "?h pre + length q < n" "n \<le> ?h pre + length ?body"
      using scan_elements_cut [OF assms(3) _ q(2), of "pre @ CHR ''*'' # ?s @ CRLF" limit] lim unfolding hpre q(1) by auto
    then show ?thesis using hd [of pre q limit] q(1) by (simp add: CRLF_def)
  qed
  show ?thesis using full cut unfolding scans_def len by (simp add: add.assoc)
qed

lemma scans_null:
  assumes "d \<le> MAX_FRAME_DEPTH"
  shows "scans Null d"
proof -
  have c: "CHR ''$'' \<noteq> CR" "CR \<notin> set ''-1''" "length ''-1'' + 2 \<le> MAX_HEADER_LINE_BYTES"
    by (simp_all add: CR_def MAX_HEADER_LINE_BYTES_def)
  have neg: "parseRespLength ''-1'' = Some (- 1)"
    by (simp add: parseRespLength_def decimal_def dec_digit_def)
  have enc: "encodeReply Null = CHR ''$'' # ''-1'' @ CRLF" by simp
  have "scanFrameEnd (pre @ CHR ''$'' # ''-1'' @ CRLF @ post) (length pre) limit d = Inr (End (length pre + 5))" for pre post limit
    using scan_header(2) [OF assms c refl neg, of pre post limit] by simp
  moreover have "length (encodeReply Null) = 5" by (simp add: CRLF_def)
  moreover have "\<exists>n. scanFrameEnd (pre @ p) (length pre) limit d = Inr (Need n) \<and> length pre + length p < n \<and> n \<le> length pre + 5"
    if "strict_prefix p (encodeReply Null)" for pre p limit
    using scan_cut [OF assms c, of p pre limit] that unfolding enc by (simp add: add.commute)
  ultimately show ?thesis unfolding scans_def by simp
qed

lemma reply_scans: "reply_ok r d \<Longrightarrow> scans r d"
proof (induction r arbitrary: d)
  case (Array rs)
  then show ?case by (intro scans_array) auto
qed (auto intro: scans_inline [where c = "CHR ''+''"] scans_inline [where c = "CHR ''-''"]
    scans_inline [where c = "CHR '':''"] scans_bulk scans_null)


lemma parse_header:
  fixes pre s post :: string and c :: char
  assumes "c \<noteq> CR" "CR \<notin> set s"
  defines "buf \<equiv> pre @ c # s @ CRLF @ post" and "after \<equiv> length pre + length s + 3"
  shows "c = CHR ''+'' \<Longrightarrow> parseReply buf (length pre) = Parsed (Simple s) after"
    and "c = CHR ''-'' \<Longrightarrow> parseReply buf (length pre) = Parsed (Failure s) after"
    and "c = CHR '':'' \<Longrightarrow> parseReply buf (length pre) = Parsed (Integer s) after"
    and "c = CHR ''$'' \<Longrightarrow> decimal s = Some (- 1) \<Longrightarrow> parseReply buf (length pre) = Parsed Null after"
    and "c = CHR ''$'' \<Longrightarrow> decimal s = Some (int n) \<Longrightarrow> n + 2 \<le> length post \<Longrightarrow>
      parseReply buf (length pre) = Parsed (Bulk (take n post)) (after + n + 2)"
    and "c = CHR ''*'' \<Longrightarrow> decimal s = Some (int n) \<Longrightarrow> n \<le> MAX_ARRAY_ELEMENTS \<Longrightarrow>
      parseReply buf (length pre) =
        (case parseElements buf after n of
           ParsedL items k \<Rightarrow> Parsed (Array items) k | IncompleteL \<Rightarrow> Incomplete | MalformedL \<Rightarrow> Malformed)"
proof -
  have l: "line_end buf (length pre) = Some (length pre + length s + 1)" "buf ! length pre = c"
    "slice buf (length pre + 1) (length pre + length s + 1) = s" "length buf = after + length post"
    using header_line [OF assms(1,2)] header_slice by (simp_all add: buf_def after_def CRLF_def nth_append)
  have ok: "\<not> length buf \<le> length pre" "length pre + length s + 1 + 2 = after" by (simp_all add: l(4) after_def)
  have body: "slice buf after (after + n) = take n post" by (simp add: slice_def buf_def after_def CRLF_def numeral_3_eq_3)
  note parse = parseReply.simps [of buf "length pre"]
  show "c = CHR ''+'' \<Longrightarrow> parseReply buf (length pre) = Parsed (Simple s) after"
    "c = CHR ''-'' \<Longrightarrow> parseReply buf (length pre) = Parsed (Failure s) after"
    "c = CHR '':'' \<Longrightarrow> parseReply buf (length pre) = Parsed (Integer s) after"
    "c = CHR ''$'' \<Longrightarrow> decimal s = Some (- 1) \<Longrightarrow> parseReply buf (length pre) = Parsed Null after"
    unfolding parse l(1-3) Let_def option.case ok(2) using ok(1) by simp_all
  show "c = CHR ''$'' \<Longrightarrow> decimal s = Some (int n) \<Longrightarrow> n + 2 \<le> length post \<Longrightarrow>
      parseReply buf (length pre) = Parsed (Bulk (take n post)) (after + n + 2)"
    unfolding parse l(1-3) Let_def option.case ok(2) using ok(1) body l(4) by simp
  show "c = CHR ''*'' \<Longrightarrow> decimal s = Some (int n) \<Longrightarrow> n \<le> MAX_ARRAY_ELEMENTS \<Longrightarrow>
      parseReply buf (length pre) =
        (case parseElements buf after n of
           ParsedL items k \<Rightarrow> Parsed (Array items) k | IncompleteL \<Rightarrow> Incomplete | MalformedL \<Rightarrow> Malformed)"
    unfolding parse l(1-3) Let_def option.case ok(2) using ok(1) by simp
qed

lemma parse_elements:
  assumes "\<And>r pre post. r \<in> set rs \<Longrightarrow> parseReply (pre @ encodeReply r @ post) (length pre) = Parsed r (length pre + length (encodeReply r))"
  shows "parseElements (pre @ concat (map encodeReply rs) @ post) (length pre) (length rs) =
    ParsedL rs (length pre + length (concat (map encodeReply rs)))"
  using assms
proof (induction rs arbitrary: pre)
  case (Cons r rs)
  have "parseReply (pre @ encodeReply r @ concat (map encodeReply rs) @ post) (length pre) = Parsed r (length pre + length (encodeReply r))"
    by (rule Cons.prems) simp
  then show ?case using Cons.IH [of "pre @ encodeReply r"] Cons.prems by simp
qed simp

lemma reply_parses:
  "reply_ok r d \<Longrightarrow> parseReply (pre @ encodeReply r @ post) (length pre) = Parsed r (length pre + length (encodeReply r))"
proof (induction r arbitrary: d pre post)
  case (Simple s)
  then show ?case using parse_header(1) [of "CHR ''+''" s pre post] by (simp add: CR_def CRLF_def)
next
  case (Failure s)
  then show ?case using parse_header(2) [of "CHR ''-''" s pre post] by (simp add: CR_def CRLF_def)
next
  case (Integer s)
  then show ?case using parse_header(3) [of "CHR '':''" s pre post] by (simp add: CR_def CRLF_def)
next
  case (Bulk b)
  have "CHR ''$'' \<noteq> CR" by (simp add: CR_def)
  from parse_header(5) [OF this nat_dec_no_CR refl decimal_nat_dec [of "length b"], of "b @ CRLF @ post" pre]
  show ?case by (simp add: CRLF_def)
next
  case (Array rs)
  have c: "CHR ''*'' \<noteq> CR" by (simp add: CR_def)
  let ?h = "pre @ CHR ''*'' # nat_dec (length rs) @ CRLF"
  have "parseElements (?h @ concat (map encodeReply rs) @ post) (length ?h) (length rs) =
      ParsedL rs (length ?h + length (concat (map encodeReply rs)))"
    by (rule parse_elements) (use Array in auto)
  then show ?case
    using parse_header(6) [OF c nat_dec_no_CR refl decimal_nat_dec [of "length rs"], of pre "concat (map encodeReply rs) @ post"] Array.prems
    by (simp add: CRLF_def numeral_3_eq_3 add.assoc)
next
  case Null
  have "decimal ''-1'' = Some (- 1)" by (simp add: decimal_def dec_digit_def)
  then show ?case using parse_header(4) [of "CHR ''$''" "''-1''" pre post] by (simp add: CR_def CRLF_def)
qed


lemma encodeCommand_reply: "encodeCommand args = encodeReply (Array (map (\<lambda>a. Bulk (arg_body a)) args))"
  by (simp add: encodeCommand_def Let_def comp_def)

end
