(* ===== verification/RespClient.thy ===== *)
theory RespClient
  imports RespWire
begin

text \<open>
  The connection of \<^verbatim>\<open>src/pool-server/valkey-cache/resp-client.ts\<close>: the inbound buffer, the queue of
  commands in flight, the circuit breaker and the generation that tells a live connection from a
  superseded one. A command is its number; \<open>settled\<close> records how each promise was settled, in order.
  Sockets, timers and promises are represented by the events they deliver.
\<close>

section \<open>State\<close>

record config =
  maxReplyBytes :: nat
  circuitBreakerMs :: int

definition maxBufferedBytes :: "config \<Rightarrow> nat" where
  "maxBufferedBytes cfg = maxReplyBytes cfg * MAX_BUFFERED_FACTOR"

record client =
  socket :: bool
  connecting :: bool
  inboundChunks :: "string list"
  inboundBytes :: nat
  neededBytes :: nat
  queue :: "nat list"
  ended :: bool
  generation :: nat
  circuitOpenUntil :: int
  settled :: "(nat \<times> (resp_error, reply) res) list"
  issued :: "nat list"

definition new_client :: client where
  "new_client = \<lparr>socket = False, connecting = False, inboundChunks = [], inboundBytes = 0, neededBytes = 0, queue = [],
     ended = False, generation = 0, circuitOpenUntil = 0, settled = [], issued = []\<rparr>"

section \<open>Inbound bytes\<close>

definition failAll :: "config \<Rightarrow> int \<Rightarrow> resp_error \<Rightarrow> bool \<Rightarrow> nat option \<Rightarrow> client \<Rightarrow> client" where
  "failAll cfg now err fromConnectFailure gen c =
     (if gen \<noteq> None \<and> gen \<noteq> Some (generation c) then c
      else c\<lparr>generation := generation c + 1, socket := False, connecting := False,
             inboundChunks := [], inboundBytes := 0, neededBytes := 0,
             circuitOpenUntil := (if circuitBreakerMs cfg > 0 \<and> (fromConnectFailure \<or> queue c \<noteq> [])
                                  then now + circuitBreakerMs cfg else circuitOpenUntil c),
             settled := settled c @ map (\<lambda>i. (i, Inl err)) (queue c), queue := []\<rparr>)"

definition flattenInbound :: "client \<Rightarrow> string \<times> client" where
  "flattenInbound c =
     (case inboundChunks c of
        [b] \<Rightarrow> (b, c)
      | bs \<Rightarrow> (concat bs, c\<lparr>inboundChunks := [concat bs]\<rparr>))"

definition consumeInbound :: "nat \<Rightarrow> client \<Rightarrow> client" where
  "consumeInbound consumed c =
     (let rest = drop consumed (hd (inboundChunks c))
      in c\<lparr>inboundChunks := (if rest \<noteq> [] then [rest] else []), inboundBytes := length rest, neededBytes := 0\<rparr>)"

definition annotateRespError :: "string \<Rightarrow> resp_error" where
  "annotateRespError message =
     (if prefix ''MOVED '' message \<or> prefix ''ASK '' message
      then ServerError (message @ '' - cluster redirection is not supported by this client (see the log for details)'')
      else ServerError message)"

definition settlement :: "reply \<Rightarrow> (resp_error, reply) res" where
  "settlement v = (case v of Failure message \<Rightarrow> Inl (annotateRespError message) | _ \<Rightarrow> Inr v)"

definition shiftQueue :: "reply \<Rightarrow> client \<Rightarrow> client" where
  "shiftQueue v c = c\<lparr>queue := tl (queue c), settled := settled c @ [(hd (queue c), settlement v)]\<rparr>"

lemma shift_consume_queue [simp]: "queue (shiftQueue v (consumeInbound n c)) = tl (queue c)"
  by (simp add: shiftQueue_def consumeInbound_def Let_def)

lemma flatten_fields [simp]:
  "queue (snd (flattenInbound c)) = queue c" "inboundBytes (snd (flattenInbound c)) = inboundBytes c"
  "generation (snd (flattenInbound c)) = generation c" "settled (snd (flattenInbound c)) = settled c"
  "issued (snd (flattenInbound c)) = issued c" "socket (snd (flattenInbound c)) = socket c"
  "connecting (snd (flattenInbound c)) = connecting c"
  by (simp_all add: flattenInbound_def split: list.splits)

function drainInbound :: "config \<Rightarrow> int \<Rightarrow> nat \<Rightarrow> client \<Rightarrow> client" where
  "drainInbound cfg now gen c =
     (if queue c = [] then
        if inboundBytes c > 0 then failAll cfg now ExtraBytes False (Some gen) c else c
      else if inboundBytes c < neededBytes c then c
      else
        let (buf, c1) = flattenInbound c
        in case scanFrameEnd buf 0 (maxReplyBytes cfg) 0 of
             Inl e \<Rightarrow> failAll cfg now e False (Some gen) c1
           | Inr (Need n) \<Rightarrow> c1\<lparr>neededBytes := n\<rparr>
           | Inr (End e) \<Rightarrow>
               (case parseReply buf 0 of
                  Parsed v n \<Rightarrow>
                    if n \<noteq> e then failAll cfg now ScannerParserDisagree False (Some gen) c1
                    else drainInbound cfg now gen (shiftQueue v (consumeInbound n c1))
                | _ \<Rightarrow> failAll cfg now ScannerParserDisagree False (Some gen) c1))"
  by pat_completeness auto
termination
proof (relation "measure (\<lambda>(_, _, _, c). length (queue c))")
  fix cfg now gen c x buf c1 y scan e v n
  assume "queue c \<noteq> []" "x = flattenInbound c" "(buf, c1) = x"
  then have "queue c1 = queue c" by (metis flatten_fields(1) snd_conv)
  then show "((cfg, now, gen, shiftQueue v (consumeInbound n c1)), cfg, now, gen, c) \<in> measure (\<lambda>(_, _, _, c). length (queue c))"
    using \<open>queue c \<noteq> []\<close> by simp
qed simp

declare drainInbound.simps [simp del]

definition onData :: "config \<Rightarrow> int \<Rightarrow> string \<Rightarrow> nat \<Rightarrow> client \<Rightarrow> client" where
  "onData cfg now chunk gen c =
     (if gen \<noteq> generation c then c
      else if queue c = [] then failAll cfg now UnsolicitedBytes False (Some gen) c
      else
        let c1 = c\<lparr>inboundChunks := inboundChunks c @ [chunk], inboundBytes := inboundBytes c + length chunk\<rparr>
        in if inboundBytes c1 > maxBufferedBytes cfg then failAll cfg now BufferTooLarge False (Some gen) c1
           else drainInbound cfg now gen c1)"

section \<open>Connecting and sending\<close>

datatype gate = Rejected resp_error | AwaitConnect | Ready | StartConnect nat

definition ensureConnected :: "int \<Rightarrow> client \<Rightarrow> gate \<times> client" where
  "ensureConnected now c =
     (if ended c then (Rejected ClientClosed, c)
      else if connecting c then (AwaitConnect, c)
      else if socket c then (Ready, c)
      else if now < circuitOpenUntil c then (Rejected BreakerOpen, c)
      else (StartConnect (generation c + 1), c\<lparr>generation := generation c + 1, connecting := True\<rparr>))"

text \<open>The socket is exposed once it is connected; AUTH is then written on it.\<close>

definition exposeSocket :: "client \<Rightarrow> client" where
  "exposeSocket c = c\<lparr>socket := True\<rparr>"

definition connectSucceeded :: "client \<Rightarrow> client" where
  "connectSucceeded c = c\<lparr>connecting := False, circuitOpenUntil := 0\<rparr>"

definition write_command :: "nat \<Rightarrow> client \<Rightarrow> (resp_error, client) res" where
  "write_command i c =
     (if \<not> socket c then Inl NotConnected else Inr (c\<lparr>queue := queue c @ [i], issued := issued c @ [i]\<rparr>))"

definition quit :: "config \<Rightarrow> int \<Rightarrow> client \<Rightarrow> client" where
  "quit cfg now c = failAll cfg now ClientClosed False None (c\<lparr>ended := True\<rparr>)"

definition auth_command :: "string option \<Rightarrow> string option \<Rightarrow> string option \<Rightarrow> arg list option" where
  "auth_command optPassword urlUsername urlPassword =
     (let password = (case optPassword of Some p \<Rightarrow> Some p | None \<Rightarrow> urlPassword)
      in case urlUsername of
           Some (u # us) \<Rightarrow> Some [Bytes ''AUTH'', Bytes (u # us), Bytes (case password of Some p \<Rightarrow> p | None \<Rightarrow> [])]
         | _ \<Rightarrow> (case password of Some (p # ps) \<Rightarrow> Some [Bytes ''AUTH'', Bytes (p # ps)] | _ \<Rightarrow> None))"

section \<open>Replies of the commands\<close>

definition get_result :: "reply \<Rightarrow> (resp_error, string option) res" where
  "get_result r = (case r of Null \<Rightarrow> Inr None | Bulk b \<Rightarrow> Inr (Some b) | _ \<Rightarrow> Inl WrongShape)"

fun hmget_elements :: "reply list \<Rightarrow> (resp_error, string option list) res" where
  "hmget_elements [] = Inr []"
| "hmget_elements (r # rs) = res_bind (get_result r) (\<lambda>v. res_bind (hmget_elements rs) (\<lambda>vs. Inr (v # vs)))"

definition hmget_result :: "reply \<Rightarrow> (resp_error, string option list) res" where
  "hmget_result r = (case r of Array rs \<Rightarrow> hmget_elements rs | _ \<Rightarrow> Inl WrongShape)"

fun bulk_bodies :: "reply list \<Rightarrow> string list option" where
  "bulk_bodies [] = Some []"
| "bulk_bodies (Bulk b # rs) = map_option ((#) b) (bulk_bodies rs)"
| "bulk_bodies (_ # rs) = None"

fun pair_up :: "string list \<Rightarrow> (string, string) jsmap \<Rightarrow> (string, string) jsmap" where
  "pair_up (k # v # bs) m = pair_up bs (jsmap_set k v m)"
| "pair_up _ m = m"

definition hgetall_result :: "reply \<Rightarrow> (resp_error, (string, string) jsmap) res" where
  "hgetall_result r =
     (case r of
        Array rs \<Rightarrow>
          (case bulk_bodies rs of
             None \<Rightarrow> Inl WrongShape
           | Some bs \<Rightarrow> if length bs mod 2 \<noteq> 0 then Inl WrongShape else Inr (pair_up bs []))
      | _ \<Rightarrow> Inl WrongShape)"

definition exec_result :: "reply \<Rightarrow> (resp_error, reply list) res" where
  "exec_result r = (case r of Null \<Rightarrow> Inl TransactionDiscarded | Array rs \<Rightarrow> Inr rs | _ \<Rightarrow> Inl WrongShape)"

section \<open>The connection URL\<close>

text \<open>What \<open>new URL(url)\<close> returns, \<open>None\<close> when it throws; \<open>decode\<close> is \<open>decodeURIComponent\<close>.\<close>

record parsed_url =
  protocol :: string
  hostname :: string
  port :: string
  username :: string
  password :: string
  pathname :: string

record valkey_target =
  vt_host :: string
  vt_port :: nat
  vt_tls :: bool
  vt_username :: "string option"
  vt_password :: "string option"
  vt_db_index :: bool

definition unbracket :: "string \<Rightarrow> string" where
  "unbracket h =
     (let h1 = (case h of c # cs \<Rightarrow> if c = CHR ''['' then cs else h | [] \<Rightarrow> [])
      in if h1 \<noteq> [] \<and> last h1 = CHR '']'' then butlast h1 else h1)"

definition userinfo :: "(string \<Rightarrow> string option) \<Rightarrow> string \<Rightarrow> string option" where
  "userinfo decode raw = (if raw = [] then None else Some (case decode raw of Some s \<Rightarrow> s | None \<Rightarrow> raw))"

definition parseValkeyUrl :: "(string \<Rightarrow> string option) \<Rightarrow> parsed_url option \<Rightarrow> (resp_error, valkey_target) res" where
  "parseValkeyUrl decode url =
     (case url of
        None \<Rightarrow> Inl InvalidUrl
      | Some u \<Rightarrow>
          if protocol u \<noteq> ''redis:'' \<and> protocol u \<noteq> ''rediss:'' then Inl InvalidUrl
          else
            let host = unbracket (hostname u);
                p = (if port u = [] then Some 6379 else map_option nat (decimal (port u)))
            in if host = [] then Inl InvalidUrl
               else
                 (case p of
                    None \<Rightarrow> Inl InvalidUrl
                  | Some n \<Rightarrow>
                      if n < 1 \<or> n > 65535 then Inl InvalidUrl
                      else Inr \<lparr>vt_host = host, vt_port = n, vt_tls = (protocol u = ''rediss:''),
                                vt_username = userinfo decode (username u), vt_password = userinfo decode (password u),
                                vt_db_index = (pathname u \<noteq> [] \<and> pathname u \<noteq> ''/'')\<rparr>))"


section \<open>What every connection keeps\<close>

definition client_ok :: "config \<Rightarrow> client \<Rightarrow> bool" where
  "client_ok cfg c \<longleftrightarrow>
     inboundBytes c = length (concat (inboundChunks c)) \<and> inboundBytes c \<le> maxBufferedBytes cfg \<and>
     (queue c = [] \<longrightarrow> inboundBytes c = 0) \<and> (queue c \<noteq> [] \<longrightarrow> socket c) \<and>
     map fst (settled c) @ queue c = issued c \<and> (\<forall>(i, r) \<in> set (settled c). r \<noteq> Inl ScannerParserDisagree)"

text \<open>
  An attempt that is under way goes on after a failure or \<open>quit\<close> ended the wait for it: it may still
  expose its socket, and complete, in any later state.
\<close>

inductive client_step :: "config \<Rightarrow> client \<Rightarrow> client \<Rightarrow> bool" for cfg where
  data: "client_step cfg c (onData cfg now chunk gen c)"
| gates: "client_step cfg c (snd (ensureConnected now c))"
| exposes: "client_step cfg c (exposeSocket c)"
| connected: "client_step cfg c (connectSucceeded c)"
| writes: "write_command i c = Inr c' \<Longrightarrow> client_step cfg c c'"
| fails: "err \<in> {ConnectionLost, CommandTimedOut, ServerError m, InvalidUrl} \<Longrightarrow> client_step cfg c (failAll cfg now err fromConnect (Some gen) c)"
| quits: "client_step cfg c (quit cfg now c)"

inductive client_reachable :: "config \<Rightarrow> client \<Rightarrow> bool" for cfg where
  start: "client_reachable cfg new_client"
| step: "client_reachable cfg c \<Longrightarrow> client_step cfg c c' \<Longrightarrow> client_reachable cfg c'"

lemma flatten_concat: "fst (flattenInbound c) = concat (inboundChunks c)"
  "concat (inboundChunks (snd (flattenInbound c))) = concat (inboundChunks c)"
  "inboundChunks (snd (flattenInbound c)) = [concat (inboundChunks c)]"
  by (simp_all add: flattenInbound_def split: list.splits)

lemma fail_ok:
  "map fst (settled c) @ queue c = issued c \<Longrightarrow> \<forall>(i, r) \<in> set (settled c). r \<noteq> Inl ScannerParserDisagree \<Longrightarrow>
   e \<noteq> ScannerParserDisagree \<Longrightarrow> client_ok cfg c \<or> gen = None \<or> gen = Some (generation c) \<Longrightarrow> client_ok cfg (failAll cfg now e b gen c)"
  by (auto simp: failAll_def client_ok_def comp_def)

lemma scan_errors:
  "scanFrameEnd buf offset limit depth = Inl e \<Longrightarrow> e \<noteq> ScannerParserDisagree"
  "scanElements buf cursor limit depth n = Inl e' \<Longrightarrow> e' \<noteq> ScannerParserDisagree"
proof (induction buf offset limit depth and buf cursor limit depth n arbitrary: e and e'
    rule: scanFrameEnd_scanElements.induct)
  case (1 buf offset limit depth)
  show ?case
    using 1 unfolding scanFrameEnd.simps [of buf offset]
    by (auto simp: Let_def split: if_splits option.splits sum.splits scan.splits)
next
  case (3 buf cursor limit depth n)
  then show ?case by (auto split: sum.splits scan.splits)
qed simp

text \<open>One round of the loop, as the three ways it can go on.\<close>

lemma drain_cases:
  assumes "queue c \<noteq> []" "\<not> inboundBytes c < neededBytes c"
  defines "buf \<equiv> concat (inboundChunks c)" and "c1 \<equiv> snd (flattenInbound c)"
  shows "scanFrameEnd buf 0 (maxReplyBytes cfg) 0 = Inl e \<Longrightarrow> drainInbound cfg now gen c = failAll cfg now e False (Some gen) c1"
    and "scanFrameEnd buf 0 (maxReplyBytes cfg) 0 = Inr (Need n) \<Longrightarrow> drainInbound cfg now gen c = c1\<lparr>neededBytes := n\<rparr>"
    and "scanFrameEnd buf 0 (maxReplyBytes cfg) 0 = Inr (End k) \<Longrightarrow> parseReply buf 0 = Parsed v k \<Longrightarrow>
      drainInbound cfg now gen c = drainInbound cfg now gen (shiftQueue v (consumeInbound k c1))"
proof -
  have f: "flattenInbound c = (buf, c1)" using flatten_concat(1) by (metis buf_def c1_def prod.collapse)
  show "scanFrameEnd buf 0 (maxReplyBytes cfg) 0 = Inl e \<Longrightarrow> drainInbound cfg now gen c = failAll cfg now e False (Some gen) c1"
    "scanFrameEnd buf 0 (maxReplyBytes cfg) 0 = Inr (Need n) \<Longrightarrow> drainInbound cfg now gen c = c1\<lparr>neededBytes := n\<rparr>"
    "scanFrameEnd buf 0 (maxReplyBytes cfg) 0 = Inr (End k) \<Longrightarrow> parseReply buf 0 = Parsed v k \<Longrightarrow>
      drainInbound cfg now gen c = drainInbound cfg now gen (shiftQueue v (consumeInbound k c1))"
    by (subst drainInbound.simps, simp add: assms(1,2) f)+
qed

lemma settlement_errors: "settlement v \<noteq> Inl ScannerParserDisagree"
  by (auto simp: settlement_def annotateRespError_def split: reply.splits)

definition drainable :: "config \<Rightarrow> client \<Rightarrow> bool" where
  "drainable cfg c \<longleftrightarrow>
     inboundBytes c = length (concat (inboundChunks c)) \<and> inboundBytes c \<le> maxBufferedBytes cfg \<and>
     (queue c \<noteq> [] \<longrightarrow> socket c) \<and>
     map fst (settled c) @ queue c = issued c \<and> (\<forall>(i, r) \<in> set (settled c). r \<noteq> Inl ScannerParserDisagree)"

lemma drainable_next:
  assumes "drainable cfg c" "queue c \<noteq> []"
  shows "drainable cfg (shiftQueue v (consumeInbound k (snd (flattenInbound c))))"
proof -
  let ?B = "concat (inboundChunks c)"
  have "length (drop k ?B) \<le> length ?B" by simp
  then show ?thesis
    using assms settlement_errors [of v]
    by (auto simp: drainable_def shiftQueue_def consumeInbound_def flatten_concat Let_def)
qed

lemma drain_ok:
  "drainable cfg c \<Longrightarrow> generation c = gen \<Longrightarrow> client_ok cfg (drainInbound cfg now gen c)"
proof (induction cfg now gen c rule: drainInbound.induct)
  case (1 cfg now gen c)
  note d = "1.prems"(1) [unfolded drainable_def]
  let ?buf = "concat (inboundChunks c)" and ?c1 = "snd (flattenInbound c)"
  have f: "flattenInbound c = (?buf, ?c1)" using flatten_concat(1) by (metis prod.collapse)
  show ?case
  proof (cases "queue c = []")
    case True
    have "client_ok cfg (failAll cfg now ExtraBytes False (Some gen) c)"
      by (rule fail_ok) (use d "1.prems"(2) in simp_all)
    moreover have "client_ok cfg c" if "inboundBytes c = 0" using d True that by (simp add: client_ok_def)
    ultimately show ?thesis using True by (subst drainInbound.simps) simp
  next
    case q: False
    show ?thesis
    proof (cases "inboundBytes c < neededBytes c")
      case True
      then show ?thesis using d q by (subst drainInbound.simps) (auto simp: client_ok_def)
    next
      case n: False
      show ?thesis
      proof (cases "scanFrameEnd ?buf 0 (maxReplyBytes cfg) 0")
        case (Inl e)
        have "client_ok cfg (failAll cfg now e False (Some gen) ?c1)"
          by (rule fail_ok) (use d "1.prems"(2) scan_errors(1) [OF Inl] in simp_all)
        then show ?thesis unfolding drain_cases(1) [OF q n Inl] .
      next
        case (Inr sc)
        show ?thesis
        proof (cases sc)
          case (Need k)
          then show ?thesis using d q drain_cases(2) [OF q n, of cfg k] Inr
            by (simp add: client_ok_def flatten_concat)
        next
          case (End k)
          obtain v where v: "parseReply ?buf 0 = Parsed v k" using scan_parse(1) Inr End by blast
          have "client_ok cfg (drainInbound cfg now gen (shiftQueue v (consumeInbound k ?c1)))"
            by (rule "1.IH" [OF q n _ _ _ End v]) (use f Inr drainable_next [OF "1.prems"(1) q] "1.prems"(2) in
                \<open>simp_all add: shiftQueue_def consumeInbound_def Let_def\<close>)
          then show ?thesis unfolding drain_cases(3) [OF q n Inr [unfolded End] v] .
        qed
      qed
    qed
  qed
qed

lemma client_ok_step: "client_step cfg c c' \<Longrightarrow> client_ok cfg c \<Longrightarrow> client_ok cfg c'"
proof (induction rule: client_step.induct)
  case (data c now chunk gen)
  let ?c1 = "c\<lparr>inboundChunks := inboundChunks c @ [chunk], inboundBytes := inboundBytes c + length chunk\<rparr>"
  have d: "drainable cfg ?c1" if "inboundBytes c + length chunk \<le> maxBufferedBytes cfg" "queue c \<noteq> []"
    using data that by (auto simp: client_ok_def drainable_def)
  have u: "client_ok cfg (failAll cfg now UnsolicitedBytes False (Some gen) c)"
    by (rule fail_ok) (use data in \<open>auto simp: client_ok_def\<close>)
  have b: "client_ok cfg (failAll cfg now BufferTooLarge False (Some gen) ?c1)" if "gen = generation c"
    by (rule fail_ok) (use data that in \<open>simp_all add: client_ok_def\<close>)
  show ?case using data u b drain_ok [OF d, of gen now] by (auto simp: onData_def Let_def not_less)
next
  case (fails err m c now b gen)
  then show ?case by (intro fail_ok) (auto simp: client_ok_def)
next
  case (quits c now)
  then show ?case unfolding quit_def by (intro fail_ok) (auto simp: client_ok_def)
qed (auto simp: client_ok_def ensureConnected_def exposeSocket_def connectSucceeded_def write_command_def split: if_splits)

lemma reachable_client_ok: "client_reachable cfg c \<Longrightarrow> client_ok cfg c"
proof (induction rule: client_reachable.induct)
  case start
  show ?case by (simp add: client_ok_def new_client_def)
qed (rule client_ok_step)


section \<open>Pipelined replies\<close>

text \<open>The client has received \<open>B\<close>, the beginning of the replies \<open>rs\<close> to its queue \<open>ids\<close>; \<open>R\<close> is to come.\<close>

definition awaiting :: "config \<Rightarrow> nat \<Rightarrow> client \<Rightarrow> string \<Rightarrow> nat list \<Rightarrow> reply list \<Rightarrow> string \<Rightarrow> bool" where
  "awaiting cfg gen c B ids rs R \<longleftrightarrow>
     concat (inboundChunks c) = B \<and> inboundBytes c = length B \<and> queue c = ids \<and> length ids = length rs \<and>
     B @ R = concat (map encodeReply rs) \<and> generation c = gen \<and>
     (\<forall>r \<in> set rs. reply_ok r 0 \<and> length (encodeReply r) \<le> maxReplyBytes cfg) \<and>
     (\<forall>r rs'. rs = r # rs' \<longrightarrow> neededBytes c \<le> length (encodeReply r))"

definition partial_frame :: "string \<Rightarrow> reply list \<Rightarrow> bool" where
  "partial_frame B rs \<longleftrightarrow> (case rs of [] \<Rightarrow> B = [] | r # _ \<Rightarrow> strict_prefix B (encodeReply r))"

lemma drain_awaiting:
  assumes "awaiting cfg gen c B ids rs R"
  shows "\<exists>k B'. let c' = drainInbound cfg now gen c in
    settled c' = settled c @ zip (take k ids) (map settlement (take k rs)) \<and>
    awaiting cfg gen c' B' (drop k ids) (drop k rs) R \<and> partial_frame B' (drop k rs)"
  using assms
proof (induction rs arbitrary: c B ids)
  case Nil
  then have "drainInbound cfg now gen c = c" by (subst drainInbound.simps) (auto simp: awaiting_def)
  then show ?case using Nil by (auto simp: awaiting_def partial_frame_def intro!: exI [of _ 0])
next
  case (Cons r rs)
  note aw = Cons.prems [unfolded awaiting_def]
  obtain i ids' where ids: "ids = i # ids'" using aw by (cases ids) auto
  have q: "queue c \<noteq> []" using aw ids by simp
  have pre: "prefix B (encodeReply r @ concat (map encodeReply rs))" using aw by (metis concat.simps(2) list.simps(9) prefix_def)
  have sc: "scans r 0" and lim: "length (encodeReply r) \<le> maxReplyBytes cfg" using aw reply_scans by auto
  let ?c1 = "snd (flattenInbound c)"
  show ?case
  proof (cases "strict_prefix B (encodeReply r)")
    case cut: True
    have "\<exists>B'. let c' = drainInbound cfg now gen c in settled c' = settled c \<and> awaiting cfg gen c' B ids (r # rs) R"
    proof (cases "inboundBytes c < neededBytes c")
      case True
      then have "drainInbound cfg now gen c = c" using q by (subst drainInbound.simps) simp
      then show ?thesis using Cons.prems by simp
    next
      case False
      obtain n where n: "scanFrameEnd B 0 (maxReplyBytes cfg) 0 = Inr (Need n)" "n \<le> length (encodeReply r)"
        using scans_cut [OF sc cut, of "[]" "maxReplyBytes cfg"] lim by auto
      have "drainInbound cfg now gen c = ?c1\<lparr>neededBytes := n\<rparr>" using drain_cases(2) [OF q False] n(1) aw by metis
      then show ?thesis using Cons.prems n(2) by (simp add: awaiting_def flatten_concat)
    qed
    then show ?thesis using cut by (auto simp: partial_frame_def Let_def intro!: exI [of _ 0])
  next
    case False
    then obtain T where T: "B = encodeReply r @ T" using pre by (auto simp: prefix_append strict_prefix_def)
    have len: "length (encodeReply r) \<le> inboundBytes c" using aw T by simp
    then have n: "\<not> inboundBytes c < neededBytes c" using aw by fastforce
    let ?k = "length (encodeReply r)" and ?c2 = "shiftQueue r (consumeInbound (length (encodeReply r)) ?c1)"
    have scan: "scanFrameEnd (concat (inboundChunks c)) 0 (maxReplyBytes cfg) 0 = Inr (End ?k)"
      using scans_full [OF sc, of "[]" "maxReplyBytes cfg" T] lim T aw by simp
    have parse: "parseReply (concat (inboundChunks c)) 0 = Parsed r ?k"
      using reply_parses [of r 0 "[]" T] T aw by simp
    have step: "drainInbound cfg now gen c = drainInbound cfg now gen ?c2" by (rule drain_cases(3) [OF q n scan parse])
    have set2: "settled ?c2 = settled c @ [(i, settlement r)]" using aw ids by (simp add: shiftQueue_def consumeInbound_def Let_def)
    have "awaiting cfg gen ?c2 T ids' rs R"
      using aw T ids by (auto simp: awaiting_def shiftQueue_def consumeInbound_def Let_def flatten_concat)
    from Cons.IH [OF this] obtain k B' where IH: "let c' = drainInbound cfg now gen ?c2 in
      settled c' = settled ?c2 @ zip (take k ids') (map settlement (take k rs)) \<and>
      awaiting cfg gen c' B' (drop k ids') (drop k rs) R \<and> partial_frame B' (drop k rs)" by blast
    show ?thesis
      by (rule exI [of _ "Suc k"], rule exI [of _ B']) (use IH in \<open>simp add: step set2 ids Let_def\<close>)
  qed
qed

lemma feed_awaiting:
  assumes "awaiting cfg gen c B ids rs (concat chunks)" "partial_frame B rs" "[] \<notin> set chunks"
    "length (concat (map encodeReply rs)) \<le> maxBufferedBytes cfg"
  shows "let c' = foldl (\<lambda>c chunk. onData cfg now chunk gen c) c chunks in
    settled c' = settled c @ zip ids (map settlement rs) \<and> queue c' = [] \<and> inboundBytes c' = 0 \<and> generation c' = gen"
  using assms
proof (induction chunks arbitrary: c B ids rs)
  case Nil
  have "rs = []"
  proof (cases rs)
    case (Cons r rs')
    then show ?thesis using Nil prefix_length_less [of B "encodeReply r"] by (auto simp: awaiting_def partial_frame_def)
  qed
  then show ?case using Nil by (simp add: awaiting_def)
next
  case (Cons chunk chunks)
  note aw = Cons.prems(1) [unfolded awaiting_def]
  have ne: "rs \<noteq> []" using aw Cons.prems(3) by auto
  have len: "length B + length chunk \<le> length (concat (map encodeReply rs))"
    using aw by (metis concat.simps(2) length_append le_add1 add.assoc)
  let ?c1 = "c\<lparr>inboundChunks := inboundChunks c @ [chunk], inboundBytes := inboundBytes c + length chunk\<rparr>"
  have od: "onData cfg now chunk gen c = drainInbound cfg now gen ?c1"
    using aw ne len Cons.prems(4) by (auto simp: onData_def Let_def)
  have "awaiting cfg gen ?c1 (B @ chunk) ids rs (concat chunks)" using aw by (simp add: awaiting_def)
  from drain_awaiting [OF this, of now] obtain k B' where k: "settled (onData cfg now chunk gen c) = settled c @ zip (take k ids) (map settlement (take k rs))"
    "awaiting cfg gen (onData cfg now chunk gen c) B' (drop k ids) (drop k rs) (concat chunks)" "partial_frame B' (drop k rs)"
    unfolding od by (auto simp: Let_def)
  have "length (concat (map encodeReply (drop k rs))) \<le> length (concat (map encodeReply rs))"
    by (metis append_take_drop_id concat_append length_append le_add2 map_append)
  then have IH: "let c' = foldl (\<lambda>c chunk. onData cfg now chunk gen c) (onData cfg now chunk gen c) chunks in
    settled c' = settled (onData cfg now chunk gen c) @ zip (drop k ids) (map settlement (drop k rs)) \<and> queue c' = [] \<and>
    inboundBytes c' = 0 \<and> generation c' = gen"
    using Cons.IH [OF k(2,3)] Cons.prems(3,4) by simp
  have "zip (take k ids) (map settlement (take k rs)) @ zip (drop k ids) (map settlement (drop k rs)) = zip ids (map settlement rs)"
    by (simp only: take_map [symmetric] drop_map [symmetric] take_zip [symmetric] drop_zip [symmetric] append_take_drop_id)
  then show ?case using IH k(1) by (simp add: Let_def)
qed


section \<open>Properties\<close>

text \<open>
  C31: whatever the server, the network and the timers do, every command written on a connection is
  settled at most once and in the order of writing, and none is lost: the settled commands followed
  by the queue are the issued ones. Bytes are only ever kept while a command waits for them and
  never more than four times the frame limit, and the branch for a scanner and a parser that
  disagree is never taken.
\<close>

theorem replies_never_desynchronise:
  assumes "client_reachable cfg c"
  shows "map fst (settled c) @ queue c = issued c
    \<and> inboundBytes c \<le> 4 * maxReplyBytes cfg \<and> (queue c = [] \<longrightarrow> inboundBytes c = 0)
    \<and> list_all (\<lambda>(i, r). r \<noteq> Inl ScannerParserDisagree) (settled c)"
  using reachable_client_ok [OF assms]
  by (auto simp: client_ok_def maxBufferedBytes_def MAX_BUFFERED_FACTOR_def list_all_iff mult.commute)

lemma demo_connected:
  assumes "socket c" "generation c = g" "client_reachable cfg c"
  shows "client_reachable cfg (c\<lparr>queue := queue c @ [i], issued := issued c @ [i]\<rparr>)"
  using client_reachable.step [OF assms(3) client_step.writes [of i c]] assms(1) by (simp add: write_command_def)

lemma demo_client:
  "client_reachable \<lparr>maxReplyBytes = 64, circuitBreakerMs = 0\<rparr>
     \<lparr>socket = True, connecting = True, inboundChunks = [], inboundBytes = 0, neededBytes = 0, queue = [0, 1],
      ended = False, generation = 1, circuitOpenUntil = 0, settled = [], issued = [0, 1]\<rparr>"
proof -
  let ?cfg = "\<lparr>maxReplyBytes = 64, circuitBreakerMs = 0\<rparr>"
  note step = client_reachable.step
  have "client_reachable ?cfg (new_client\<lparr>generation := 1, connecting := True\<rparr>)"
    using step [OF client_reachable.start client_step.gates [of ?cfg new_client 0]]
    by (simp add: ensureConnected_def new_client_def)
  then have "client_reachable ?cfg (new_client\<lparr>generation := 1, connecting := True, socket := True\<rparr>)"
    using step [OF _ client_step.exposes [of ?cfg "new_client\<lparr>generation := 1, connecting := True\<rparr>"]]
    by (simp add: exposeSocket_def)
  from demo_connected [OF _ refl this, of 0] have "client_reachable ?cfg
      (new_client\<lparr>generation := 1, connecting := True, socket := True, queue := [0], issued := [0]\<rparr>)"
    by (simp add: new_client_def)
  from demo_connected [OF _ refl this, of 1] show ?thesis by (simp add: new_client_def)
qed

theorem replies_never_desynchronise_witness:
  "\<exists>c. client_reachable \<lparr>maxReplyBytes = 64, circuitBreakerMs = 0\<rparr> c \<and> issued c = [0, 1] \<and> map fst (settled c) @ queue c = [0, 1]"
  using demo_client replies_never_desynchronise [OF demo_client] by fastforce

text \<open>
  C30: the network may cut the byte stream anywhere. When the server answers the commands in flight with one
  reply each, the client settles them with exactly these replies, in order, for every division of the
  stream into nonempty chunks, and is left with an empty queue and no bytes. The limits: every header
  line, length and nesting depth as \<open>reply_ok\<close> asks (a header line stays below the bound, since exactly
  at the bound the verdict depends on the cut, \<open>header_bound_depends_on_chunking\<close>), every reply at most
  \<open>maxReplyBytes\<close> and all together at most \<open>maxBufferedBytes\<close> long; null is answered as a null bulk
  string, not as a null array.
\<close>

theorem replies_independent_of_chunking:
  assumes "generation c = gen" "queue c = ids" "length ids = length rs" "inboundChunks c = []" "inboundBytes c = 0" "neededBytes c = 0"
    and "\<forall>r \<in> set rs. reply_ok r 0 \<and> length (encodeReply r) \<le> maxReplyBytes cfg"
    and "length (concat (map encodeReply rs)) \<le> maxBufferedBytes cfg"
    and "concat chunks = concat (map encodeReply rs)" "[] \<notin> set chunks"
  shows "let c' = foldl (\<lambda>c chunk. onData cfg now chunk gen c) c chunks in
    settled c' = settled c @ zip ids (map settlement rs) \<and> queue c' = [] \<and> inboundBytes c' = 0 \<and> generation c' = gen"
proof -
  have "awaiting cfg gen c [] ids rs (concat chunks)" using assms by (simp add: awaiting_def)
  moreover have "partial_frame [] rs" by (cases rs; cases "hd rs") (auto simp: partial_frame_def strict_prefix_def CRLF_def)
  ultimately show ?thesis using feed_awaiting [OF _ _ assms(10,8)] by blast
qed

definition demo_replies :: "reply list" where
  "demo_replies = [Bulk ''hi'', Integer ''3'']"

definition demo_cfg :: config where
  "demo_cfg = \<lparr>maxReplyBytes = 64, circuitBreakerMs = 0\<rparr>"

theorem replies_independent_of_chunking_witness:
  "\<exists>c'. settled c' = [(0, Inr (Bulk ''hi'')), (1, Inr (Integer ''3''))] \<and> queue c' = []
    \<and> c' = foldl (\<lambda>c chunk. onData demo_cfg 0 chunk 0 c) (new_client\<lparr>queue := [0, 1]\<rparr>)
        [[CHR ''$'', CHR ''2'', CR], [LF, CHR ''h''], [CHR ''i'', CR, LF, CHR '':''], [CHR ''3'', CR, LF]]"
proof -
  let ?chunks = "[[CHR ''$'', CHR ''2'', CR], [LF, CHR ''h''], [CHR ''i'', CR, LF, CHR '':''], [CHR ''3'', CR, LF]]"
  have enc: "map encodeReply demo_replies = [''$2'' @ CRLF @ ''hi'' @ CRLF, '':3'' @ CRLF]"
    by (simp add: demo_replies_def nat_dec.simps char_of_def bit_0)
  have ok: "\<forall>r \<in> set demo_replies. reply_ok r 0 \<and> length (encodeReply r) \<le> maxReplyBytes demo_cfg"
    by (simp add: demo_replies_def demo_cfg_def nat_dec.simps CRLF_def CR_def MAX_HEADER_LINE_BYTES_def)
  have "let c' = foldl (\<lambda>c chunk. onData demo_cfg 0 chunk 0 c) (new_client\<lparr>queue := [0, 1]\<rparr>) ?chunks in
      settled c' = settled (new_client\<lparr>queue := [0, 1]\<rparr>) @ zip [0, 1] (map settlement demo_replies) \<and> queue c' = [] \<and>
      inboundBytes c' = 0 \<and> generation c' = 0"
    by (rule replies_independent_of_chunking [OF _ _ _ _ _ _ ok])
       (simp_all add: enc new_client_def demo_replies_def demo_cfg_def maxBufferedBytes_def MAX_BUFFERED_FACTOR_def CRLF_def
         nat_dec.simps char_of_def bit_0)
  then show ?thesis by (simp add: Let_def demo_replies_def settlement_def new_client_def)
qed

text \<open>
  a command arrives as it was meant. Reading the bytes of an encoded command as the server does
  gives back exactly its arguments, for arguments of any content (line breaks and binary data
  included), and nothing is left over.
\<close>

theorem command_roundtrip:
  assumes "length args \<le> MAX_ARRAY_ELEMENTS" "\<forall>a \<in> set args. length (arg_body a) < 10 ^ 15"
  shows "parseReply (encodeCommand args @ rest) 0 =
    Parsed (Array (map (\<lambda>a. Bulk (arg_body a)) args)) (length (encodeCommand args))"
  using reply_parses [of "Array (map (\<lambda>a. Bulk (arg_body a)) args)" 0 "[]" rest] assms
  by (simp add: encodeCommand_reply MAX_FRAME_DEPTH_def)

theorem command_roundtrip_witness:
  "parseReply (encodeCommand [Bytes ''SET'', Bytes [CR, LF], Num 7]) 0 = Parsed (Array [Bulk ''SET'', Bulk [CR, LF], Bulk ''7'']) 28"
  using command_roundtrip [of "[Bytes ''SET'', Bytes [CR, LF], Num 7]" "[]"]
  by (simp add: MAX_ARRAY_ELEMENTS_def encodeCommand_def nat_dec.simps CRLF_def char_of_def bit_0)

text \<open>
  The bound on a header line is not independent of the chunking: a line whose CRLF starts exactly at
  the bound is accepted when it arrives whole and rejected when it is cut between the CR and the LF.
\<close>

theorem header_bound_depends_on_chunking:
  assumes "CR \<notin> set s" "length s + 1 = MAX_HEADER_LINE_BYTES" "MAX_HEADER_LINE_BYTES + 2 \<le> limit"
  shows "scanFrameEnd (CHR ''+'' # s @ CRLF) 0 limit 0 = Inr (End (MAX_HEADER_LINE_BYTES + 2))"
    and "scanFrameEnd (CHR ''+'' # s @ [CR]) 0 limit 0 = Inl LineTooLong"
proof -
  have c: "CHR ''+'' \<noteq> CR" by (simp add: CR_def)
  have "line_end (CHR ''+'' # s @ CRLF) 0 = Some (length s + 1)" using header_line [OF c assms(1), of "[]" "[]"] by simp
  then show "scanFrameEnd (CHR ''+'' # s @ CRLF) 0 limit 0 = Inr (End (MAX_HEADER_LINE_BYTES + 2))"
    using assms(2,3) by (subst scanFrameEnd.simps) (simp add: MAX_FRAME_DEPTH_def Let_def)
  have "strict_prefix (CHR ''+'' # s @ [CR]) (CHR ''+'' # s @ CRLF)" by (simp add: CRLF_def strict_prefix_def)
  from header_cut(1) [OF c assms(1) this, of "[]"] have "line_end (CHR ''+'' # s @ [CR]) 0 = None" by simp
  then show "scanFrameEnd (CHR ''+'' # s @ [CR]) 0 limit 0 = Inl LineTooLong"
    using assms(2) by (subst scanFrameEnd.simps) (simp add: MAX_FRAME_DEPTH_def)
qed

end
