(* ===== verification/SelectorSwitch.thy ===== *)
theory SelectorSwitch
  imports Validators
begin

text \<open>
  \<^verbatim>\<open>src/cutover/service-selector.ts\<close>: switching one Service's selector, in one compare-and-swap or,
  for a Service with a GKE network endpoint group, through an overlap in which both builds' pods are
  selected. The Service and its annotations are state; every \<open>kubectl\<close> call has a fate chosen by the
  environment, and the health API and the clock are observations.
\<close>

section \<open>Selectors\<close>

type_synonym labels = "(string, string) jsmap"

definition VERSION :: string where "VERSION = ''app.kubernetes.io/version''"
definition COMPONENT :: string where "COMPONENT = ''app.kubernetes.io/component''"
definition WARMUP_MS :: int where "WARMUP_MS = 300000"
definition STABLE_MS :: int where "STABLE_MS = 30000"

text \<open>The source's \<open>equal\<close>; the JSON-patch \<open>test\<close> compares objects the same way.\<close>

definition equal_selector :: "labels \<Rightarrow> labels \<Rightarrow> bool" where
  "equal_selector a b = (length a = length b \<and> list_all (\<lambda>(k, v). map_of b k = Some v) a)"

definition LABEL_VALUE_RE :: rexp where
  "LABEL_VALUE_RE = ropt (Seq (Cls alnum_any) (ropt (Seq (Rep 0 61 (Cls (one_of ''_.-'' alnum_any))) (Cls alnum_any))))"

text \<open>\<open>labelSelector\<close> throws unless every entry is valid; its text is only passed on to \<open>kubectl\<close>.\<close>

definition labelSelector :: "labels \<Rightarrow> string option" where
  "labelSelector sel =
     (if sel = [] \<or> \<not> list_all (\<lambda>(k, v). assertSafeAnnotationName (Some (JStr k)) = Inr () \<and> matches LABEL_VALUE_RE v) sel
      then None else Some (js_join '','' (map (\<lambda>(k, v). k @ ''='' @ v) sel)))"

section \<open>The compare-and-swap\<close>

text \<open>What the recovery annotation holds: the two selectors and the temporary label.\<close>

type_synonym recovery_note = "labels \<times> labels \<times> string"

record service =
  selector :: labels
  recovery :: "recovery_note option"

datatype extra_ops = NoExtra | AddRecovery recovery_note | ClearRecovery recovery_note

text \<open>
  A call reaches the server and is answered, never reaches it, or reaches it and its answer is lost.
  A third party may have replaced the Service just before.
\<close>

datatype verdict = Answered | Refused | AnswerLost

record fate =
  meddling :: "service option"
  verdict :: verdict

definition meddle :: "fate \<Rightarrow> service \<Rightarrow> service" where
  "meddle f svc = (case meddling f of Some s \<Rightarrow> s | None \<Rightarrow> svc)"

definition apply_patch :: "labels \<Rightarrow> labels \<Rightarrow> extra_ops \<Rightarrow> service \<Rightarrow> service option" where
  "apply_patch from next extra svc =
     (if equal_selector (selector svc) from \<and> (case extra of ClearRecovery r \<Rightarrow> recovery svc = Some r | _ \<Rightarrow> True)
      then Some \<lparr>selector = next,
                 recovery = (case extra of NoExtra \<Rightarrow> recovery svc | AddRecovery r \<Rightarrow> Some r | ClearRecovery _ \<Rightarrow> None)\<rparr>
      else None)"

text \<open>Whether \<open>kubectl\<close> exits with zero, and the Service afterwards.\<close>

definition replace_selector :: "fate \<Rightarrow> labels \<Rightarrow> labels \<Rightarrow> extra_ops \<Rightarrow> service \<Rightarrow> bool \<times> service" where
  "replace_selector f from next extra svc0 =
     (let svc = meddle f svc0
      in case verdict f of
           Refused \<Rightarrow> (False, svc)
         | Answered \<Rightarrow> (case apply_patch from next extra svc of Some s \<Rightarrow> (True, s) | None \<Rightarrow> (False, svc))
         | AnswerLost \<Rightarrow> (False, case apply_patch from next extra svc of Some s \<Rightarrow> s | None \<Rightarrow> svc))"

section \<open>The warm-up\<close>

record pod =
  pod_name :: string
  pod_uid :: string
  pod_ip :: string
  pod_deleting :: bool
  pod_conditions :: "(string \<times> string) list"

definition ready :: "pod \<Rightarrow> bool" where
  "ready p = (\<not> pod_deleting p \<and> list_ex (\<lambda>(t, s). t = ''Ready'' \<and> s = ''True'') (pod_conditions p))"

text \<open>\<open>list\<close>: \<open>None\<close> when \<open>kubectl\<close> fails or the set is too large.\<close>

definition list_pods :: "pod list option \<Rightarrow> pod list option" where
  "list_pods answer = (case answer of Some ps \<Rightarrow> if length ps > 1000 then None else Some ps | None \<Rightarrow> None)"

text \<open>The pods to label: outgoing and incoming ones, one per uid, the later entry winning.\<close>

definition by_uid :: "pod list \<Rightarrow> pod list" where
  "by_uid ps = map snd (foldl (\<lambda>m p. jsmap_set (pod_uid p) p m) [] ps)"

text \<open>Label the pods in turn; a pod is recorded before its call. The flag says whether all calls succeeded.\<close>

fun label_pods :: "(string \<Rightarrow> nat) \<Rightarrow> (pod \<Rightarrow> bool) \<Rightarrow> pod list \<Rightarrow> pod list \<times> bool" where
  "label_pods isIP succeeds [] = ([], True)"
| "label_pods isIP succeeds (p # ps) =
     (if assertSafeKubernetesObjectName (Some (JStr (pod_name p))) ''cutover pod name'' \<noteq> Inr () \<or> pod_uid p = [] \<or> isIP (pod_ip p) = 0
      then ([], False)
      else if \<not> succeeds p then ([p], False)
      else let (ls, ok) = label_pods isIP succeeds ps in (p # ls, ok))"

text \<open>
  One round of the loop: the clock at its head, the pods found, the addresses each backend reports
  healthy (\<open>None\<close> where a call throws), and the clock readings after that.
\<close>

record observation =
  ob_head :: int
  ob_live :: "pod list option"
  ob_healthy :: "string list option list"
  ob_since :: int
  ob_now :: int

definition all_live :: "pod list \<Rightarrow> pod list \<Rightarrow> bool" where
  "all_live incoming live = list_all (\<lambda>p. list_ex (\<lambda>l. pod_uid l = pod_uid p \<and> pod_ip l = pod_ip p) live) incoming"

definition all_healthy :: "pod list \<Rightarrow> string list option list \<Rightarrow> bool option" where
  "all_healthy incoming answers =
     (if list_ex (\<lambda>a. a = None) answers then None
      else Some (list_all (\<lambda>a. list_all (\<lambda>p. pod_ip p \<in> set (the a)) incoming) answers))"

datatype warm_result = Stable | WarmFailed | TimedOut | Unfinished

fun warm_up :: "int \<Rightarrow> pod list \<Rightarrow> int option \<Rightarrow> observation list \<Rightarrow> warm_result" where
  "warm_up deadline incoming healthySince [] = Unfinished"
| "warm_up deadline incoming healthySince (ob # obs) =
     (if ob_head ob \<ge> deadline then TimedOut
      else
        (case list_pods (ob_live ob) of
           None \<Rightarrow> WarmFailed
         | Some pods \<Rightarrow>
             if \<not> all_live incoming (filter ready pods) then WarmFailed
             else
               (case all_healthy incoming (ob_healthy ob) of
                  None \<Rightarrow> WarmFailed
                | Some healthy \<Rightarrow>
                    let since = (if healthy then Some (case healthySince of Some t \<Rightarrow> t | None \<Rightarrow> ob_since ob) else None)
                    in case since of
                         Some t \<Rightarrow> if ob_now ob - t \<ge> STABLE_MS then Stable else warm_up deadline incoming since obs
                       | None \<Rightarrow> warm_up deadline incoming since obs)))"

section \<open>Switching one Service\<close>

text \<open>
  The annotations that matter, absent or empty (\<open>None\<close>) or a text with its parse; the network endpoint
  group of port 3000 in the status.
\<close>

record switch_args =
  sa_namespace :: string
  sa_service :: string
  sa_original :: labels
  sa_next :: labels
  sa_neg :: "raw_json option"
  sa_status :: "raw_json option"
  sa_project :: "string option"

record switch_env =
  se_isIP :: "string \<Rightarrow> nat"
  se_key :: string
  se_discovered :: "string list option"
  se_incoming :: "pod list option"
  se_outgoing :: "pod list option"
  se_label :: "pod \<Rightarrow> bool"
  se_stage :: fate
  se_start :: int
  se_rounds :: "observation list"
  se_finish :: fate
  se_readback :: fate
  se_restore :: fate

definition ingress_only :: "raw_json option \<Rightarrow> bool" where
  "ingress_only neg = (case neg of Some (Some (JObj [(k, v)])) \<Rightarrow> k = ''ingress'' \<and> v = JBool True | _ \<Rightarrow> False)"

definition plain_service :: "switch_args \<Rightarrow> bool" where
  "plain_service a = (sa_status a = None \<and> (sa_neg a = None \<or> ingress_only (sa_neg a)))"

definition overlap_selector :: "labels \<Rightarrow> string \<Rightarrow> labels" where
  "overlap_selector original key = jsmap_delete COMPONENT (jsmap_delete VERSION (jsmap_set key ''1'' original))"

definition neg_name :: "raw_json option \<Rightarrow> string option" where
  "neg_name status =
     (case status of
        Some (Some s) \<Rightarrow>
          (case jget s ''network_endpoint_groups'' of
             Some g \<Rightarrow> (case jget g ''3000'' of
                          Some (JStr n) \<Rightarrow> if assertSafeGcpResourceName (Some (JStr n)) ''Service NEG name'' = Inr () then Some n else None
                        | _ \<Rightarrow> None)
           | None \<Rightarrow> None)
      | _ \<Rightarrow> None)"

text \<open>The pods labelled before the overlap, and the incoming ones when everything up to it succeeded.\<close>

definition prepare_switch :: "switch_args \<Rightarrow> switch_env \<Rightarrow> pod list \<times> pod list option" where
  "prepare_switch a e =
     (if (case sa_project a of None \<Rightarrow> True | Some p \<Rightarrow> p = [] \<or> assertSafeProjectId p \<noteq> Inr ()) \<or> neg_name (sa_status a) = None
      then ([], None)
      else
        (case se_discovered e of
           None \<Rightarrow> ([], None)
         | Some refs \<Rightarrow>
             if refs = [] then ([], None)
             else
               (case list_pods (se_incoming e) of
                  None \<Rightarrow> ([], None)
                | Some ins \<Rightarrow>
                    let incoming = filter ready ins
                    in if incoming = [] then ([], None)
                       else
                         (case list_pods (se_outgoing e) of
                            None \<Rightarrow> ([], None)
                          | Some outs \<Rightarrow>
                              (case label_pods (se_isIP e) (se_label e) (by_uid (filter ready outs @ incoming)) of
                                 (ls, ok) \<Rightarrow> (ls, if ok then Some incoming else None))))))"

datatype switch_result = Switched | SwitchFailed | Threw

record switch_outcome =
  so_result :: switch_result
  so_service :: service
  so_labelled :: "pod list"
  so_cleaned :: bool

text \<open>After a failure with the overlap attempted: read back, and restore what is ours.\<close>

definition recover_switch :: "switch_args \<Rightarrow> switch_env \<Rightarrow> labels \<Rightarrow> recovery_note \<Rightarrow> service \<Rightarrow> bool \<times> service" where
  "recover_switch a e overlap note svc0 =
     (let svc = meddle (se_readback e) svc0
      in if verdict (se_readback e) \<noteq> Answered then (False, svc)
         else let current = selector svc
              in if equal_selector current (sa_original a) then (True, svc)
                 else if equal_selector current overlap \<or> equal_selector current (sa_next a) then
                   replace_selector (se_restore e) current (sa_original a)
                     (if equal_selector current overlap then ClearRecovery note else NoExtra) svc
                 else (False, svc))"

definition gke_switch :: "switch_args \<Rightarrow> switch_env \<Rightarrow> service \<Rightarrow> switch_outcome" where
  "gke_switch a e svc =
     (let overlap = overlap_selector (sa_original a) (se_key e);
          note = (sa_original a, sa_next a, se_key e);
          (labelled, prepared) = prepare_switch a e
      in case prepared of
           None \<Rightarrow> \<lparr>so_result = SwitchFailed, so_service = svc, so_labelled = labelled, so_cleaned = True\<rparr>
         | Some incoming \<Rightarrow>
             let (staged, svc1) = replace_selector (se_stage e) (sa_original a) overlap (AddRecovery note) svc;
                 warm = (if staged then warm_up (se_start e + WARMUP_MS) incoming None (se_rounds e) else WarmFailed);
                 (finished, svc2) = (if warm = Stable then replace_selector (se_finish e) overlap (sa_next a) (ClearRecovery note) svc1
                                     else (False, svc1))
             in if finished then \<lparr>so_result = Switched, so_service = svc2, so_labelled = labelled, so_cleaned = True\<rparr>
                else let (clean, svc3) = recover_switch a e overlap note svc2
                     in \<lparr>so_result = SwitchFailed, so_service = svc3, so_labelled = labelled, so_cleaned = clean\<rparr>)"

definition replaceServiceSelector :: "switch_args \<Rightarrow> switch_env \<Rightarrow> service \<Rightarrow> switch_outcome" where
  "replaceServiceSelector a e svc =
     (if assertSafeNamespace (Some (JStr (sa_namespace a))) \<noteq> Inr () \<or> assertSafeServiceName (Some (JStr (sa_service a))) \<noteq> Inr ()
         \<or> labelSelector (sa_original a) = None \<or> labelSelector (sa_next a) = None
      then \<lparr>so_result = Threw, so_service = svc, so_labelled = [], so_cleaned = True\<rparr>
      else if plain_service a then
        let (ok, svc') = replace_selector (se_finish e) (sa_original a) (sa_next a) NoExtra svc
        in \<lparr>so_result = (if ok then Switched else SwitchFailed), so_service = svc', so_labelled = [], so_cleaned = True\<rparr>
      else gke_switch a e svc)"


section \<open>What a switch guarantees\<close>

lemma equal_selector_refl: "jsmap_wf a \<Longrightarrow> equal_selector a a"
  by (auto simp: equal_selector_def list_all_iff)

lemma equal_selector_map: "jsmap_wf a \<Longrightarrow> jsmap_wf b \<Longrightarrow> equal_selector a b \<longleftrightarrow> map_of a = map_of b"
proof
  assume wf: "jsmap_wf a" "jsmap_wf b" and eq: "equal_selector a b"
  have "map_of b k = Some v" if "map_of a k = Some v" for k v
    using eq map_of_SomeD [OF that] by (auto simp: equal_selector_def list_all_iff)
  then have sub: "map_of a \<subseteq>\<^sub>m map_of b" by (auto simp: map_le_def)
  have "card (dom (map_of a)) = card (dom (map_of b))"
    using wf eq by (simp add: dom_map_of_conv_image_fst card_image distinct_map equal_selector_def distinct_card flip: set_map)
  then have "dom (map_of a) = dom (map_of b)" using sub by (metis card_subset_eq finite_dom_map_of map_le_implies_dom_le)
  then show "map_of a = map_of b" using sub by (metis map_le_antisym map_le_def)
next
  assume wf: "jsmap_wf a" "jsmap_wf b" and eq: "map_of a = map_of b"
  have "set (map fst a) = set (map fst b)" using eq by (metis dom_map_of_conv_image_fst set_map)
  then have "length a = length b" using wf by (metis distinct_card length_map)
  moreover have "list_all (\<lambda>(k, v). map_of b k = Some v) a" using wf(1) eq by (auto simp: list_all_iff simp flip: eq)
  ultimately show "equal_selector a b" by (simp add: equal_selector_def)
qed

lemma overlap_wf: "jsmap_wf s \<Longrightarrow> jsmap_wf (overlap_selector s k)"
  by (simp add: overlap_selector_def)

lemma overlap_keys:
  "k \<noteq> VERSION \<Longrightarrow> k \<noteq> COMPONENT \<Longrightarrow> map_of (overlap_selector s k) k = Some ''1''"
  by (simp add: overlap_selector_def)

lemma replace_untouched:
  assumes "meddling f = None" "\<not> equal_selector (selector svc) from"
  shows "replace_selector f from next extra svc = (False, svc)"
  using assms by (simp add: replace_selector_def meddle_def apply_patch_def split: verdict.splits)

lemma replace_cases:
  assumes "meddling f = None" "replace_selector f from next extra svc = (ok, svc')"
  shows "svc' = svc \<and> \<not> ok \<or> selector svc' = next \<and> equal_selector (selector svc) from"
  using assms by (auto simp: replace_selector_def meddle_def apply_patch_def split: verdict.splits if_splits option.splits)

lemma replace_succeeded: "replace_selector f from next extra svc = (True, svc') \<Longrightarrow> selector svc' = next"
  by (auto simp: replace_selector_def apply_patch_def Let_def split: verdict.splits option.splits if_splits)

text \<open>The fates of a run nobody else interferes with, and a key no selector uses.\<close>

definition alone :: "switch_env \<Rightarrow> bool" where
  "alone e = list_all (\<lambda>f. meddling f = None) [se_stage e, se_finish e, se_readback e, se_restore e]"

definition fresh_key :: "switch_args \<Rightarrow> switch_env \<Rightarrow> bool" where
  "fresh_key a e = (se_key e \<noteq> VERSION \<and> se_key e \<noteq> COMPONENT \<and>
     map_of (sa_original a) (se_key e) = None \<and> map_of (sa_next a) (se_key e) = None)"

lemma overlap_differs:
  assumes "fresh_key a e" "jsmap_wf (sa_original a)" "jsmap_wf (sa_next a)"
  defines "ov \<equiv> overlap_selector (sa_original a) (se_key e)"
  shows "\<not> equal_selector ov (sa_original a)" "\<not> equal_selector ov (sa_next a)"
proof -
  have "map_of ov (se_key e) = Some ''1''" using assms(1) overlap_keys by (simp add: ov_def fresh_key_def)
  then have "map_of ov \<noteq> map_of (sa_original a)" "map_of ov \<noteq> map_of (sa_next a)"
    using assms(1) by (auto simp: fresh_key_def)
  then show "\<not> equal_selector ov (sa_original a)" "\<not> equal_selector ov (sa_next a)"
    using equal_selector_map overlap_wf assms(2,3) by (simp_all add: ov_def)
qed

lemma recover_clean:
  assumes "meddling (se_readback e) = None" "meddling (se_restore e) = None" "jsmap_wf (sa_original a)"
    "recover_switch a e ov note svc = (True, svc')"
  shows "equal_selector (selector svc') (sa_original a)"
  using assms(4) replace_cases [OF assms(2)] equal_selector_refl [OF assms(3)] assms(1)
  by (fastforce simp: recover_switch_def meddle_def Let_def split: if_splits)

lemma recover_foreign:
  assumes "svc = meddle (se_readback e) svc0" "\<not> equal_selector (selector svc) (sa_original a)" "\<not> equal_selector (selector svc) ov"
    "\<not> equal_selector (selector svc) (sa_next a)"
  shows "recover_switch a e ov note svc0 = (False, svc)"
  using assms by (simp add: recover_switch_def Let_def)

lemma gke_failed_clean:
  assumes "alone e" "jsmap_wf (sa_original a)" "equal_selector (selector svc) (sa_original a)"
    "so_result (gke_switch a e svc) \<noteq> Switched" "so_cleaned (gke_switch a e svc)"
  shows "equal_selector (selector (so_service (gke_switch a e svc))) (sa_original a)"
  using assms recover_clean [of e a] unfolding gke_switch_def alone_def
  by (auto simp: Let_def split: prod.splits option.splits if_splits)

lemma gke_switched:
  assumes "so_result (gke_switch a e svc) = Switched"
  shows "selector (so_service (gke_switch a e svc)) = sa_next a \<and>
    (\<exists>incoming. snd (prepare_switch a e) = Some incoming \<and>
       warm_up (se_start e + WARMUP_MS) incoming None (se_rounds e) = Stable)"
  using assms unfolding gke_switch_def
  by (auto simp: Let_def split: prod.splits option.splits if_splits dest: replace_succeeded)

text \<open>A stable warm-up has seen an unbroken stretch of healthy rounds of the required length.\<close>

definition round_healthy :: "pod list \<Rightarrow> observation \<Rightarrow> bool" where
  "round_healthy incoming ob = (case list_pods (ob_live ob) of
     None \<Rightarrow> False
   | Some pods \<Rightarrow> all_live incoming (filter ready pods) \<and> all_healthy incoming (ob_healthy ob) = Some True)"

lemma warm_up_stretch:
  "warm_up deadline incoming since obs = Stable \<Longrightarrow>
   \<exists>pre mid post. obs = pre @ mid @ post \<and> mid \<noteq> [] \<and> list_all (round_healthy incoming) mid \<and>
     ((\<exists>t. since = Some t \<and> pre = [] \<and> ob_now (last mid) - t \<ge> STABLE_MS) \<or> ob_now (last mid) - ob_since (hd mid) \<ge> STABLE_MS)"
proof (induction obs arbitrary: since)
  case (Cons ob obs)
  obtain pods h where ps: "list_pods (ob_live ob) = Some pods" "all_live incoming (filter ready pods)"
    "all_healthy incoming (ob_healthy ob) = Some h"
    using Cons.prems by (auto split: if_splits option.splits)
  show ?case
  proof (cases h)
    case True
    let ?t = "case since of Some t \<Rightarrow> t | None \<Rightarrow> ob_since ob"
    have rh: "round_healthy incoming ob" using ps True by (simp add: round_healthy_def)
    show ?thesis
    proof (cases "ob_now ob - ?t \<ge> STABLE_MS")
      case True
      then show ?thesis using rh
        by (intro exI [of _ "[]"] exI [of _ "[ob]"] exI [of _ obs]) (auto split: option.splits)
    next
      case False
      then have "warm_up deadline incoming (Some ?t) obs = Stable" using Cons.prems ps \<open>h\<close> by (simp add: Let_def split: if_splits)
      from Cons.IH [OF this] obtain pre mid post where m: "obs = pre @ mid @ post" "mid \<noteq> []" "list_all (round_healthy incoming) mid"
        "(pre = [] \<and> ob_now (last mid) - ?t \<ge> STABLE_MS) \<or> ob_now (last mid) - ob_since (hd mid) \<ge> STABLE_MS" by auto
      from m(4) show ?thesis
      proof
        assume now: "pre = [] \<and> ob_now (last mid) - ?t \<ge> STABLE_MS"
        show ?thesis using m(1-3) now rh
          by (intro exI [of _ "[]"] exI [of _ "ob # mid"] exI [of _ post]) (auto split: option.splits)
      next
        assume "ob_now (last mid) - ob_since (hd mid) \<ge> STABLE_MS"
        then show ?thesis using m(1-3) by (intro exI [of _ "ob # pre"] exI [of _ mid] exI [of _ post]) auto
      qed
    qed
  next
    case False
    then have "warm_up deadline incoming None obs = Stable" using Cons.prems ps by (simp add: Let_def split: if_splits)
    from Cons.IH [OF this] show ?thesis by (metis append_Cons option.distinct(1))
  qed
qed simp

lemma warm_up_clock:
  assumes "\<And>i. i < length obs \<Longrightarrow> ob_head (obs ! i) \<ge> start + 5000 * int i" "deadline \<le> start + 5000 * int n" "n < length obs"
  shows "warm_up deadline incoming since obs \<noteq> Unfinished"
  using assms
proof (induction obs arbitrary: since start n)
  case (Cons ob obs)
  show ?case
  proof (cases "ob_head ob \<ge> deadline")
    case False
    then obtain m where m: "n = Suc m" using Cons.prems(1) [of 0] Cons.prems(2) by (cases n) auto
    have "warm_up deadline incoming s obs \<noteq> Unfinished" for s
    proof (rule Cons.IH)
      show "ob_head (obs ! i) \<ge> (start + 5000) + 5000 * int i" if "i < length obs" for i
        using Cons.prems(1) [of "Suc i"] that by simp
    qed (use Cons.prems m in auto)
    then show ?thesis by (auto simp: Let_def split: option.splits)
  qed simp
qed simp

section \<open>Properties\<close>

text \<open>
  C29: a warmed cutover never removes the ground under live traffic. When nobody else edits the
  Service, and whatever fails or times out: a successful switch leaves exactly the new selector, and
  only after an unbroken stretch of at least thirty seconds in which every incoming pod was ready
  and healthy behind every backend; a failed one that removes the temporary pod labels has put the
  original selector back, so the labels are never removed while the Service selects by them.
\<close>

theorem warmed_switch_is_safe:
  assumes "alone e" "jsmap_wf (sa_original a)" "equal_selector (selector svc) (sa_original a)"
  shows "(so_result (gke_switch a e svc) = Switched \<longrightarrow>
      selector (so_service (gke_switch a e svc)) = sa_next a
      \<and> (\<exists>incoming pre mid post. incoming \<noteq> [] \<and> se_rounds e = pre @ mid @ post \<and> mid \<noteq> []
           \<and> list_all (round_healthy incoming) mid \<and> ob_now (last mid) - ob_since (hd mid) \<ge> STABLE_MS))
    \<and> (so_result (gke_switch a e svc) \<noteq> Switched \<and> so_cleaned (gke_switch a e svc) \<longrightarrow>
      equal_selector (selector (so_service (gke_switch a e svc))) (sa_original a))"
proof -
  have ne: "incoming \<noteq> []" if "snd (prepare_switch a e) = Some incoming" for incoming
    using that by (auto simp: prepare_switch_def Let_def split: if_splits option.splits prod.splits)
  have "\<exists>incoming pre mid post. incoming \<noteq> [] \<and> se_rounds e = pre @ mid @ post \<and> mid \<noteq> []
      \<and> list_all (round_healthy incoming) mid \<and> ob_now (last mid) - ob_since (hd mid) \<ge> STABLE_MS"
    if sw: "so_result (gke_switch a e svc) = Switched"
  proof -
    obtain incoming where i: "snd (prepare_switch a e) = Some incoming" "warm_up (se_start e + WARMUP_MS) incoming None (se_rounds e) = Stable"
      using gke_switched [OF sw] by blast
    show ?thesis using warm_up_stretch [OF i(2)] ne [OF i(1)] by auto
  qed
  then show ?thesis using gke_switched gke_failed_clean [OF assms] by blast
qed

text \<open>A run that succeeds: one pod on each side, healthy for thirty seconds.\<close>

definition demo_pod :: "string \<Rightarrow> pod" where
  "demo_pod u = \<lparr>pod_name = ''p'', pod_uid = u, pod_ip = ''10.0.0.1'', pod_deleting = False, pod_conditions = [(''Ready'', ''True'')]\<rparr>"

definition demo_round :: "int \<Rightarrow> observation" where
  "demo_round t = \<lparr>ob_head = t, ob_live = Some [demo_pod ''u2''], ob_healthy = [Some [''10.0.0.1'']], ob_since = t, ob_now = t\<rparr>"

definition demo_args :: switch_args where
  "demo_args = \<lparr>sa_namespace = ''default'', sa_service = ''app-ssr'', sa_original = [(VERSION, ''a'')], sa_next = [(VERSION, ''b'')],
     sa_neg = None, sa_status = Some (Some (JObj [(''network_endpoint_groups'', JObj [(''3000'', JStr ''n1'')])])),
     sa_project = Some ''abcdef''\<rparr>"

definition answered :: fate where "answered = \<lparr>meddling = None, verdict = Answered\<rparr>"

definition demo_env :: switch_env where
  "demo_env = \<lparr>se_isIP = (\<lambda>_. 4), se_key = ''warm'', se_discovered = Some [''backend''], se_incoming = Some [demo_pod ''u2''],
     se_outgoing = Some [demo_pod ''u1''], se_label = (\<lambda>_. True), se_stage = answered, se_start = 0,
     se_rounds = [demo_round 0, demo_round 31000], se_finish = answered, se_readback = answered, se_restore = answered\<rparr>"

lemma demo_prepared: "prepare_switch demo_args demo_env = ([demo_pod ''u1'', demo_pod ''u2''], Some [demo_pod ''u2''])"
  by (simp add: prepare_switch_def demo_args_def demo_env_def neg_name_def assertSafeProjectId_def PROJECT_ID_RE_def
      assertSafeGcpResourceName_def GCP_RESOURCE_NAME_RE_def string_and_def list_pods_def ready_def demo_pod_def by_uid_def
      assertSafeKubernetesObjectName_def dns_subdomain_def NAMESPACE_RE_def alnum_def ldh_def lower_def dec_digit_def Let_def)

lemma demo_switched:
  "so_result (gke_switch demo_args demo_env \<lparr>selector = [(VERSION, ''a'')], recovery = None\<rparr>) = Switched"
  using demo_prepared
  by (simp add: gke_switch_def Let_def replace_selector_def apply_patch_def meddle_def answered_def demo_env_def demo_args_def
      equal_selector_def overlap_selector_def jsmap_delete_def demo_round_def demo_pod_def list_pods_def all_live_def ready_def
      all_healthy_def STABLE_MS_def WARMUP_MS_def VERSION_def COMPONENT_def)

theorem warmed_switch_is_safe_witness:
  "selector (so_service (gke_switch demo_args demo_env \<lparr>selector = [(VERSION, ''a'')], recovery = None\<rparr>)) = [(VERSION, ''b'')]"
proof -
  have "alone demo_env" "jsmap_wf (sa_original demo_args)" "equal_selector (selector \<lparr>selector = [(VERSION, ''a'')], recovery = None\<rparr>) (sa_original demo_args)"
    by (simp_all add: alone_def demo_env_def answered_def demo_args_def equal_selector_def)
  from warmed_switch_is_safe [OF this] demo_switched show ?thesis by (simp add: demo_args_def)
qed

text \<open>
  the warm-up ends. Rounds are five seconds apart, so sixty-one of them are enough for the loop to
  reach its verdict, whatever they observe.
\<close>

theorem warm_up_ends:
  assumes "\<And>i. i < length obs \<Longrightarrow> ob_head (obs ! i) \<ge> start + 5000 * int i" "length obs > 60"
  shows "warm_up (start + WARMUP_MS) incoming None obs \<in> {Stable, WarmFailed, TimedOut}"
  using warm_up_clock [of obs start "start + WARMUP_MS" 60 incoming None] assms
  by (cases "warm_up (start + WARMUP_MS) incoming None obs") (auto simp: WARMUP_MS_def)

theorem warm_up_ends_witness:
  "warm_up (0 + WARMUP_MS) [demo_pod ''u9''] None (map (\<lambda>i. demo_round (5000 * int i)) [0..<61]) \<in> {Stable, WarmFailed, TimedOut}"
  by (rule warm_up_ends) (simp_all add: demo_round_def del: upt_Suc)

lemma equal_selector_trans: "equal_selector s t \<Longrightarrow> equal_selector t u \<Longrightarrow> equal_selector s u"
  by (fastforce simp: equal_selector_def list_all_iff dest: map_of_SomeD)

lemma replace_foreign:
  "meddling f = Some s \<Longrightarrow> \<not> equal_selector (selector s) from \<Longrightarrow> replace_selector f from next extra svc = (False, s)"
  by (simp add: replace_selector_def meddle_def apply_patch_def split: verdict.splits)

text \<open>What of the environment each part of a switch looks at.\<close>

lemma prepare_fates [simp]:
  "prepare_switch a (e\<lparr>se_stage := f\<rparr>) = prepare_switch a e" "prepare_switch a (e\<lparr>se_finish := f\<rparr>) = prepare_switch a e"
  "prepare_switch a (e\<lparr>se_readback := f\<rparr>) = prepare_switch a e" "prepare_switch a (e\<lparr>se_restore := f\<rparr>) = prepare_switch a e"
  by (simp_all add: prepare_switch_def Let_def cong: option.case_cong if_cong prod.case_cong)

lemma recover_fates [simp]:
  "recover_switch a (e\<lparr>se_stage := f\<rparr>) = recover_switch a e" "recover_switch a (e\<lparr>se_finish := f\<rparr>) = recover_switch a e"
  by (simp_all add: recover_switch_def fun_eq_iff Let_def cong: if_cong)

lemma recover_restore_foreign:
  assumes "meddling f = Some s" "\<not> equal_selector (selector s) (sa_next a)" "\<not> equal_selector (selector s) ov"
  shows "snd (recover_switch a (e\<lparr>se_restore := f\<rparr>) ov note svc) \<in> {s, snd (recover_switch a e ov note svc)}"
proof -
  have "replace_selector f cur to ex v = (False, s)" if "equal_selector cur ov \<or> equal_selector cur (sa_next a)" for cur to ex v
    using that assms equal_selector_trans by (intro replace_foreign) blast+
  then show ?thesis by (simp add: recover_switch_def Let_def)
qed

text \<open>
  nobody else's selector is overwritten. If during a warmed switch someone sets a selector that is
  none of the three this switch works with, just before any of its calls, then either that call is
  never made and the run is as if nothing had happened, or the other party's Service is what is left.
\<close>

theorem foreign_selector_survives:
  assumes "alone e" "meddling f = Some s"
    and foreign: "\<not> equal_selector (selector s) (sa_original a)" "\<not> equal_selector (selector s) (sa_next a)"
      "\<not> equal_selector (selector s) (overlap_selector (sa_original a) (se_key e))"
    and "e' \<in> {e\<lparr>se_stage := f\<rparr>, e\<lparr>se_finish := f\<rparr>, e\<lparr>se_readback := f\<rparr>, e\<lparr>se_restore := f\<rparr>}"
  shows "so_service (gke_switch a e' svc) \<in> {s, so_service (gke_switch a e svc)}"
proof -
  let ?ov = "overlap_selector (sa_original a) (se_key e)" and ?n = "(sa_original a, sa_next a, se_key e)"
  have rb: "recover_switch a e ?ov ?n s = (False, s)"
    using foreign assms(1) by (intro recover_foreign) (simp_all add: alone_def meddle_def)
  have rb': "recover_switch a (e\<lparr>se_readback := f\<rparr>) ?ov ?n v = (False, s)" for v
    using foreign assms(2) by (intro recover_foreign) (simp_all add: meddle_def)
  note rr = recover_restore_foreign [OF assms(2) foreign(2,3), of e ?n]
  note rf = replace_foreign [OF assms(2)]
  from assms(6) consider "e' = e\<lparr>se_stage := f\<rparr>" | "e' = e\<lparr>se_finish := f\<rparr>" | "e' = e\<lparr>se_readback := f\<rparr>" | "e' = e\<lparr>se_restore := f\<rparr>"
    by blast
  then show ?thesis
  proof cases
    case 1
    then show ?thesis using rb rf [OF foreign(1)]
      by (auto simp: gke_switch_def Let_def split: prod.splits option.splits)
  next
    case 2
    then show ?thesis using rb rf [OF foreign(3)]
      by (auto simp: gke_switch_def Let_def split: prod.splits option.splits if_splits)
  next
    case 3
    then show ?thesis using rb' by (auto simp: gke_switch_def Let_def split: prod.splits option.splits if_splits)
  next
    case 4
    then show ?thesis using rr by (auto simp: gke_switch_def Let_def split: prod.splits option.splits if_splits) (metis snd_conv)+
  qed
qed


definition demo_edit :: service where
  "demo_edit = \<lparr>selector = [(VERSION, ''z'')], recovery = None\<rparr>"

theorem foreign_selector_survives_witness:
  "so_service (gke_switch demo_args (demo_env\<lparr>se_finish := \<lparr>meddling = Some demo_edit, verdict = Answered\<rparr>\<rparr>)
     \<lparr>selector = [(VERSION, ''a'')], recovery = None\<rparr>)
   \<in> {demo_edit, so_service (gke_switch demo_args demo_env \<lparr>selector = [(VERSION, ''a'')], recovery = None\<rparr>)}"
  by (rule foreign_selector_survives [where f = "\<lparr>meddling = Some demo_edit, verdict = Answered\<rparr>"])
     (simp_all add: alone_def demo_env_def answered_def demo_args_def demo_edit_def equal_selector_def overlap_selector_def
       jsmap_delete_def VERSION_def COMPONENT_def)

end
