(* ===== verification/Traffic.thy ===== *)
theory Traffic
  imports SelectorSwitch
begin

text \<open>
  \<^verbatim>\<open>src/cutover/traffic.ts\<close>: moving every Service of a release to a build, and back. The cluster is a
  map from Service names to Services; the loops take the operation that switches one Service as an
  argument, and the locale below states what they rely on of it. An abort restores the Services
  already switched, then the edge and the autoscaling bounds.
\<close>

section \<open>Switching a list of Services\<close>

type_synonym annotations = "raw_json option \<times> raw_json option"

record cluster_service =
  cs_service :: service
  cs_annotations :: annotations

type_synonym cluster = "string \<Rightarrow> cluster_service option"

type_synonym 'e switcher = "string \<Rightarrow> labels \<Rightarrow> labels \<Rightarrow> annotations \<Rightarrow> 'e \<Rightarrow> service \<Rightarrow> switch_outcome"

text \<open>A Service to switch: its name, the selector expected, the selector wanted.\<close>

record target =
  tg_name :: string
  tg_from :: labels
  tg_to :: labels
  tg_annotations :: annotations

definition switch_in :: "'e switcher \<Rightarrow> target \<Rightarrow> 'e \<Rightarrow> cluster \<Rightarrow> switch_result \<times> bool \<times> cluster" where
  "switch_in sw t e cl =
     (case cl (tg_name t) of
        None \<Rightarrow> (SwitchFailed, True, cl)
      | Some cs \<Rightarrow>
          let out = sw (tg_name t) (tg_from t) (tg_to t) (tg_annotations t) e (cs_service cs)
          in (so_result out, so_cleaned out, cl(tg_name t \<mapsto> cs\<lparr>cs_service := so_service out\<rparr>)))"

record switching =
  sw_cluster :: cluster
  sw_done :: "target list"
  sw_failed :: "(target \<times> bool) list"

text \<open>
  One pass over the targets; a failure is recorded with whether the Service was left as it was. An
  exception leaves the loop at once (\<open>Inl\<close>, with what was done).
\<close>

fun run_switches :: "'e switcher \<Rightarrow> 'e list \<Rightarrow> target list \<Rightarrow> switching \<Rightarrow> (switching, switching) res" where
  "run_switches sw es [] st = Inr st"
| "run_switches sw [] (t # ts) st = Inl st"
| "run_switches sw (e # es) (t # ts) st =
     (case switch_in sw t e (sw_cluster st) of
        (Threw, _, cl) \<Rightarrow> Inl (st\<lparr>sw_cluster := cl\<rparr>)
      | (Switched, _, cl) \<Rightarrow> run_switches sw es ts (st\<lparr>sw_cluster := cl, sw_done := sw_done st @ [t]\<rparr>)
      | (SwitchFailed, clean, cl) \<Rightarrow> run_switches sw es ts (st\<lparr>sw_cluster := cl, sw_failed := sw_failed st @ [(t, clean)]\<rparr>))"

definition undo :: "target \<Rightarrow> target" where
  "undo t = t\<lparr>tg_from := tg_to t, tg_to := tg_from t\<rparr>"

text \<open>The cutover looks the selector it last wrote up by Service name.\<close>

definition undo_in :: "target list \<Rightarrow> target \<Rightarrow> target" where
  "undo_in done t = t\<lparr>tg_from := tg_to (last (filter (\<lambda>u. tg_name u = tg_name t) done)), tg_to := tg_from t\<rparr>"

section \<open>Cutover\<close>

record cutover =
  co_release :: string
  co_namespace :: string
  co_build :: string
  co_project :: "string option"
  co_expected :: "string option"
  co_pools :: "string list"
  co_origin :: bool
  co_default :: string

definition service_name :: "string \<Rightarrow> string \<Rightarrow> string" where
  "service_name release pool = sanitizeK8sName (release @ ''-'' @ pool) []"

definition serviceDestinations :: "cutover \<Rightarrow> (string \<times> string) list" where
  "serviceDestinations c = map (\<lambda>p. (p, p)) (co_pools c) @ (if co_origin c then [(''origin'', co_default c)] else [])"

definition nextSelector :: "string \<Rightarrow> string \<Rightarrow> labels \<Rightarrow> labels" where
  "nextSelector targetPool build original = jsmap_set VERSION build (jsmap_set COMPONENT targetPool original)"

text \<open>The Services read before anything changes, and those that could not be read or have moved.\<close>

definition unexpected :: "string option \<Rightarrow> labels \<Rightarrow> bool" where
  "unexpected expected sel =
     (case expected of
        Some (b # bs) \<Rightarrow> map_of sel VERSION \<noteq> Some (sanitizeK8sName (b # bs) [])
      | _ \<Rightarrow> False)"

definition snapshot_step ::
    "cutover \<Rightarrow> (string \<Rightarrow> bool) \<Rightarrow> cluster \<Rightarrow> (string, cluster_service) jsmap \<times> string list \<Rightarrow> string \<times> string \<Rightarrow>
     (string, cluster_service) jsmap \<times> string list" where
  "snapshot_step c readable cl = (\<lambda>(originals, failures) (servicePool, _).
     let name = service_name (co_release c) servicePool
     in case (if readable name then cl name else None) of
          None \<Rightarrow> (originals, failures @ [name])
        | Some cs \<Rightarrow> (jsmap_set name cs originals,
                      failures @ (if unexpected (co_expected c) (selector (cs_service cs)) then [name] else [])))"

definition snapshot :: "cutover \<Rightarrow> (string \<Rightarrow> bool) \<Rightarrow> cluster \<Rightarrow> (string, cluster_service) jsmap \<times> string list" where
  "snapshot c readable cl = foldl (snapshot_step c readable cl) ([], []) (serviceDestinations c)"

definition cutover_target :: "string \<Rightarrow> string \<Rightarrow> (string, cluster_service) jsmap \<Rightarrow> string \<times> string \<Rightarrow> target option" where
  "cutover_target release build originals = (\<lambda>(servicePool, targetPool).
     let name = service_name release servicePool
     in map_option (\<lambda>cs. \<lparr>tg_name = name, tg_from = selector (cs_service cs),
                          tg_to = nextSelector targetPool build (selector (cs_service cs)),
                          tg_annotations = cs_annotations cs\<rparr>) (map_of originals name))"

datatype repair = RestoreEdge | RestoreWarmedHpas

datatype traffic_result =
    TrafficSwitched
  | TrafficAborted "string list" "(target \<times> bool) list" "(target \<times> bool) list" "repair list"
  | TrafficThrew

definition abort_cutover ::
    "'e switcher \<Rightarrow> 'e list \<Rightarrow> string list \<Rightarrow> switching \<Rightarrow> traffic_result \<times> cluster" where
  "abort_cutover sw es unread st =
     (case run_switches sw es (map (undo_in (sw_done st)) (sw_done st)) \<lparr>sw_cluster = sw_cluster st, sw_done = [], sw_failed = []\<rparr> of
        Inl st' \<Rightarrow> (TrafficThrew, sw_cluster st')
      | Inr st' \<Rightarrow> (TrafficAborted unread (sw_failed st) (sw_failed st') [RestoreEdge, RestoreWarmedHpas], sw_cluster st'))"

definition switch_traffic ::
    "'e switcher \<Rightarrow> cutover \<Rightarrow> (string \<Rightarrow> bool) \<Rightarrow> 'e list \<Rightarrow> 'e list \<Rightarrow> cluster \<Rightarrow> traffic_result \<times> cluster" where
  "switch_traffic sw c readable es es' cl =
     (let (originals, unread) = snapshot c readable cl;
          start = \<lparr>sw_cluster = cl, sw_done = [], sw_failed = []\<rparr>
      in if unread \<noteq> [] then abort_cutover sw es' unread start
         else
           (case run_switches sw es (List.map_filter (cutover_target (co_release c) (co_build c) originals) (serviceDestinations c)) start of
              Inl st \<Rightarrow> (TrafficThrew, sw_cluster st)
            | Inr st \<Rightarrow> if sw_failed st = [] then (TrafficSwitched, sw_cluster st) else abort_cutover sw es' [] st))"

text \<open>With \<open>replaceServiceSelector\<close> as the operation.\<close>

definition service_switcher :: "string \<Rightarrow> string option \<Rightarrow> switch_env switcher" where
  "service_switcher namespace project name original next ann e svc =
     replaceServiceSelector \<lparr>sa_namespace = namespace, sa_service = name, sa_original = original, sa_next = next,
       sa_neg = fst ann, sa_status = snd ann, sa_project = project\<rparr> e svc"

definition switchTrafficToNewBuild ::
    "cutover \<Rightarrow> (string \<Rightarrow> bool) \<Rightarrow> switch_env list \<Rightarrow> switch_env list \<Rightarrow> cluster \<Rightarrow> traffic_result \<times> cluster" where
  "switchTrafficToNewBuild c = switch_traffic (service_switcher (co_namespace c) (co_project c)) c"

section \<open>Rollback\<close>

record revert_plan =
  rp_destinations :: "(string \<times> string) list"
  rp_originals :: "(string, cluster_service) jsmap"

text \<open>Whether the origin Service exists is looked up; \<open>None\<close> when the lookup fails.\<close>

definition revert_destinations :: "string list \<Rightarrow> string list \<Rightarrow> bool \<Rightarrow> string option \<Rightarrow> (string \<times> string) list" where
  "revert_destinations poolNames currentPoolNames hasOrigin defaultPool =
     map (\<lambda>p. (p, p)) poolNames @
     map (\<lambda>p. (p, hd poolNames)) (filter (\<lambda>p. p \<notin> set poolNames) currentPoolNames) @
     (if hasOrigin then [(''origin'', case defaultPool of Some d \<Rightarrow> d | None \<Rightarrow> hd poolNames)] else [])"

fun snapshot_originals ::
    "string \<Rightarrow> (string \<Rightarrow> bool) \<Rightarrow> cluster \<Rightarrow> (string \<times> string) list \<Rightarrow> (string, cluster_service) jsmap \<Rightarrow>
     (string, cluster_service) jsmap option" where
  "snapshot_originals release readable cl [] m = Some m"
| "snapshot_originals release readable cl ((pool, _) # ds) m =
     (let name = service_name release pool
      in if name \<in> set (jsmap_keys m) then snapshot_originals release readable cl ds m
         else (case (if readable name then cl name else None) of
                 None \<Rightarrow> None
               | Some cs \<Rightarrow> snapshot_originals release readable cl ds (jsmap_set name cs m)))"

definition snapshotRevertSelectors ::
    "string \<Rightarrow> string list \<Rightarrow> string list \<Rightarrow> bool option \<Rightarrow> string option \<Rightarrow> (string \<Rightarrow> bool) \<Rightarrow> cluster \<Rightarrow> revert_plan option" where
  "snapshotRevertSelectors release poolNames currentPoolNames originLookup defaultPool readable cl =
     (case originLookup of
        None \<Rightarrow> None
      | Some hasOrigin \<Rightarrow>
          let ds = revert_destinations poolNames currentPoolNames hasOrigin defaultPool
          in map_option (\<lambda>m. \<lparr>rp_destinations = ds, rp_originals = m\<rparr>) (snapshot_originals release readable cl ds []))"

datatype flip_result =
    Flipped
  | FlipAborted "(target \<times> bool) list" "(target \<times> bool) list" bool
  | FlipThrew

definition flip_selectors ::
    "'e switcher \<Rightarrow> string \<Rightarrow> string \<Rightarrow> revert_plan \<Rightarrow> bool \<Rightarrow> 'e list \<Rightarrow> 'e list \<Rightarrow> cluster \<Rightarrow> flip_result \<times> cluster" where
  "flip_selectors sw release safePreviousBuild plan edgeRestored es es' cl =
     (case run_switches sw es (List.map_filter (cutover_target release safePreviousBuild (rp_originals plan)) (rp_destinations plan))
             \<lparr>sw_cluster = cl, sw_done = [], sw_failed = []\<rparr> of
        Inl st \<Rightarrow> (FlipThrew, sw_cluster st)
      | Inr st \<Rightarrow>
          if sw_failed st = [] then (Flipped, sw_cluster st)
          else
            (case run_switches sw es' (map undo (sw_done st)) \<lparr>sw_cluster = sw_cluster st, sw_done = [], sw_failed = []\<rparr> of
               Inl st' \<Rightarrow> (FlipThrew, sw_cluster st')
             | Inr st' \<Rightarrow> (FlipAborted (sw_failed st) (sw_failed st') edgeRestored, sw_cluster st')))"

definition flipSelectorsToPreviousBuild ::
    "string \<Rightarrow> string \<Rightarrow> string option \<Rightarrow> string \<Rightarrow> revert_plan \<Rightarrow> bool \<Rightarrow> switch_env list \<Rightarrow> switch_env list \<Rightarrow> cluster \<Rightarrow>
     flip_result \<times> cluster" where
  "flipSelectorsToPreviousBuild release namespace project safePreviousBuild plan edgeRestored =
     flip_selectors (service_switcher namespace project) release safePreviousBuild plan edgeRestored"


section \<open>What the loops rely on\<close>

text \<open>
  A switch that succeeds leaves the selector it was asked for; one that fails and says it left things
  in order has left the selector it expected. The second law is for runs of the environment in which
  no answer is lost and nobody else edits the Service.
\<close>

locale selector_switch =
  fixes sw :: "'e switcher" and sound :: "'e \<Rightarrow> bool"
  assumes switched: "so_result (sw n f t ann e s) = Switched \<Longrightarrow> selector (so_service (sw n f t ann e s)) = t"
    and left: "sound e \<Longrightarrow> jsmap_wf f \<Longrightarrow> equal_selector (selector s) f \<Longrightarrow> so_result (sw n f t ann e s) = SwitchFailed \<Longrightarrow>
      so_cleaned (sw n f t ann e s) \<Longrightarrow> equal_selector (selector (so_service (sw n f t ann e s))) f"
begin

definition expected_in :: "cluster \<Rightarrow> target \<Rightarrow> bool" where
  "expected_in cl t \<longleftrightarrow> jsmap_wf (tg_from t) \<and>
     (\<exists>cs. cl (tg_name t) = Some cs \<and> equal_selector (selector (cs_service cs)) (tg_from t))"

definition after_run :: "target list \<Rightarrow> cluster \<Rightarrow> target list \<Rightarrow> (target \<times> bool) list \<Rightarrow> cluster \<Rightarrow> bool" where
  "after_run ts cl ds fs cl' \<longleftrightarrow>
     set ds \<union> fst ` set fs = set ts \<and> distinct (map tg_name ds) \<and>
     (\<forall>t \<in> set ds. \<exists>cs. cl' (tg_name t) = Some cs \<and> selector (cs_service cs) = tg_to t) \<and>
     (\<forall>(t, clean) \<in> set fs. clean \<longrightarrow> (\<exists>cs. cl' (tg_name t) = Some cs \<and> equal_selector (selector (cs_service cs)) (tg_from t))) \<and>
     (\<forall>n. n \<notin> tg_name ` set ts \<longrightarrow> cl' n = cl n)"

lemma switch_in_frame: "switch_in sw t e cl = (r, b, cl') \<Longrightarrow> n \<noteq> tg_name t \<Longrightarrow> cl' n = cl n"
  by (auto simp: switch_in_def Let_def split: option.splits)

lemma switch_in_done:
  "switch_in sw t e cl = (Switched, b, cl') \<Longrightarrow> \<exists>cs. cl' (tg_name t) = Some cs \<and> selector (cs_service cs) = tg_to t"
  by (auto simp: switch_in_def Let_def dest: switched split: option.splits)

lemma switch_in_left:
  "switch_in sw t e cl = (SwitchFailed, True, cl') \<Longrightarrow> sound e \<Longrightarrow> expected_in cl t \<Longrightarrow>
   \<exists>cs. cl' (tg_name t) = Some cs \<and> equal_selector (selector (cs_service cs)) (tg_from t)"
  by (auto simp: switch_in_def expected_in_def Let_def dest: left split: option.splits)

lemma after_run_cons:
  assumes "after_run ts cl1 ds fs cl'" "tg_name t \<notin> tg_name ` set ts" "\<And>n. n \<noteq> tg_name t \<Longrightarrow> cl1 n = cl n"
  shows "\<exists>cs. cl1 (tg_name t) = Some cs \<and> selector (cs_service cs) = tg_to t \<Longrightarrow> after_run (t # ts) cl (t # ds) fs cl'"
    and "(b \<Longrightarrow> \<exists>cs. cl1 (tg_name t) = Some cs \<and> equal_selector (selector (cs_service cs)) (tg_from t)) \<Longrightarrow>
      after_run (t # ts) cl ds ((t, b) # fs) cl'"
proof -
  have ds: "set ds \<subseteq> set ts" "cl' (tg_name t) = cl1 (tg_name t)" using assms(1,2) by (auto simp: after_run_def)
  have "tg_name t \<notin> tg_name ` set ds" using ds(1) assms(2) by blast
  then show "\<exists>cs. cl1 (tg_name t) = Some cs \<and> selector (cs_service cs) = tg_to t \<Longrightarrow> after_run (t # ts) cl (t # ds) fs cl'"
    using assms ds(2) by (auto simp: after_run_def)
  show "(b \<Longrightarrow> \<exists>cs. cl1 (tg_name t) = Some cs \<and> equal_selector (selector (cs_service cs)) (tg_from t)) \<Longrightarrow>
      after_run (t # ts) cl ds ((t, b) # fs) cl'"
    using assms ds(2) by (auto simp: after_run_def)
qed

lemma run_after:
  assumes "run_switches sw es ts st = Inr st'" "distinct (map tg_name ts)" "list_all sound es"
    "\<forall>t \<in> set ts. expected_in (sw_cluster st) t"
  shows "\<exists>ds fs. sw_done st' = sw_done st @ ds \<and> sw_failed st' = sw_failed st @ fs \<and>
    after_run ts (sw_cluster st) ds fs (sw_cluster st')"
  using assms
proof (induction ts arbitrary: es st)
  case Nil
  then show ?case by (auto simp: after_run_def)
next
  case (Cons t ts)
  obtain e es' where es: "es = e # es'" using Cons.prems(1) by (cases es) auto
  obtain r b cl where sw: "switch_in sw t e (sw_cluster st) = (r, b, cl)" by (cases "switch_in sw t e (sw_cluster st)")
  note frame = switch_in_frame [OF sw]
  have t: "tg_name t \<notin> tg_name ` set ts" "distinct (map tg_name ts)" "list_all sound es'" "sound e" using Cons.prems(2,3) es by auto
  have ex: "\<forall>u \<in> set ts. expected_in cl u"
  proof
    fix u
    assume u: "u \<in> set ts"
    then have "cl (tg_name u) = sw_cluster st (tg_name u)" using t(1) by (intro frame) (metis imageI)
    then show "expected_in cl u" using Cons.prems(4) u by (simp add: expected_in_def)
  qed
  show ?case
  proof (cases r)
    case Switched
    then obtain ds fs where d: "sw_done st' = (sw_done st @ [t]) @ ds" "sw_failed st' = sw_failed st @ fs" "after_run ts cl ds fs (sw_cluster st')"
      using Cons.IH [of es' "st\<lparr>sw_cluster := cl, sw_done := sw_done st @ [t]\<rparr>"] Cons.prems(1) t(2,3) ex sw es by auto
    have "after_run (t # ts) (sw_cluster st) (t # ds) fs (sw_cluster st')"
      by (rule after_run_cons(1) [OF d(3) t(1) frame]) (use switch_in_done sw Switched in auto)
    then show ?thesis using d by auto
  next
    case SwitchFailed
    then obtain ds fs where d: "sw_done st' = sw_done st @ ds" "sw_failed st' = (sw_failed st @ [(t, b)]) @ fs" "after_run ts cl ds fs (sw_cluster st')"
      using Cons.IH [of es' "st\<lparr>sw_cluster := cl, sw_failed := sw_failed st @ [(t, b)]\<rparr>"] Cons.prems(1) t(2,3) ex sw es by auto
    have "after_run (t # ts) (sw_cluster st) ds ((t, b) # fs) (sw_cluster st')"
      by (rule after_run_cons(2) [OF d(3) t(1) frame]) (use switch_in_left [of t e] sw SwitchFailed t(4) Cons.prems(4) in auto)
    then show ?thesis using d by auto
  next
    case Threw
    then show ?thesis using Cons.prems(1) sw es by simp
  qed
qed

text \<open>An abort puts back what the first pass did.\<close>

lemma undo_in_distinct: "distinct (map tg_name ds) \<Longrightarrow> t \<in> set ds \<Longrightarrow> undo_in ds t = undo t"
proof -
  assume ds: "distinct (map tg_name ds)" "t \<in> set ds"
  have "\<forall>u \<in> set (filter (\<lambda>u. tg_name u = tg_name t) ds). u = t" using ds by (auto dest: map_of_eq_Some_iff simp: distinct_map inj_on_def)
  moreover have "filter (\<lambda>u. tg_name u = tg_name t) ds \<noteq> []" using ds(2) by (auto simp: filter_empty_conv)
  ultimately have "last (filter (\<lambda>u. tg_name u = tg_name t) ds) = t" using last_in_set by blast
  then show ?thesis by (simp add: undo_in_def undo_def)
qed

lemma undo_after:
  assumes fwd: "after_run ts cl ds fs cl1" and names: "distinct (map tg_name ts)" and es: "list_all sound es"
    and exp: "\<forall>t \<in> set ts. expected_in cl t \<and> jsmap_wf (tg_to t)"
    and run: "run_switches sw es (map undo ds) \<lparr>sw_cluster = cl1, sw_done = [], sw_failed = []\<rparr> = Inr st'"
    and n: "\<forall>(t, clean) \<in> set fs. tg_name t = n \<longrightarrow> clean" "n \<notin> tg_name ` fst ` set (sw_failed st')"
  shows "sw_cluster st' n = cl n \<or>
    (\<exists>t \<in> set ts. tg_name t = n \<and> (\<exists>cs'. sw_cluster st' n = Some cs' \<and> equal_selector (selector (cs_service cs')) (tg_from t)))"
proof -
  have sub: "set ds \<subseteq> set ts" and dd: "distinct (map tg_name ds)" using fwd by (auto simp: after_run_def)
  have un: "map tg_name (map undo ds) = map tg_name ds" by (simp add: undo_def)
  have "expected_in cl1 (undo u)" if u: "u \<in> set ds" for u
  proof -
    obtain cs where "cl1 (tg_name u) = Some cs" "selector (cs_service cs) = tg_to u" using fwd u by (auto simp: after_run_def)
    moreover have "jsmap_wf (tg_to u)" using exp sub u by auto
    ultimately show ?thesis using equal_selector_refl [of "tg_to u"] by (simp add: expected_in_def undo_def)
  qed
  then have "\<forall>t \<in> set (map undo ds). expected_in cl1 t" by simp
  moreover have "distinct (map tg_name (map undo ds))" by (simp only: un dd)
  ultimately obtain ds' fs' where bk: "sw_failed st' = fs'" "after_run (map undo ds) cl1 ds' fs' (sw_cluster st')"
    using run_after [OF run _ es] by auto
  show ?thesis
  proof (cases "n \<in> tg_name ` set ts")
    case False
    moreover have "n \<notin> tg_name ` set (map undo ds)" using False sub by (auto simp: undo_def)
    ultimately show ?thesis using fwd bk(2) by (simp add: after_run_def)
  next
    case True
    then obtain t where t: "t \<in> set ts" "n = tg_name t" by blast
    have wf: "jsmap_wf (tg_from t)" using exp t by (auto simp: expected_in_def)
    show ?thesis
    proof (cases "t \<in> set ds")
      case True
      have name: "tg_name (undo t) = n" and to: "tg_to (undo t) = tg_from t" using t(2) by (simp_all add: undo_def)
      have all: "set ds' \<union> fst ` set fs' = set (map undo ds)"
        and put: "\<forall>u \<in> set ds'. \<exists>cs. sw_cluster st' (tg_name u) = Some cs \<and> selector (cs_service cs) = tg_to u"
        using bk(2) by (simp_all add: after_run_def)
      have "undo t \<notin> fst ` set fs'" using n(2) name unfolding bk(1) by blast
      moreover have "undo t \<in> set (map undo ds)" using True by simp
      ultimately have "undo t \<in> set ds'" using all by blast
      then obtain cs' where "sw_cluster st' n = Some cs'" "selector (cs_service cs') = tg_from t"
        using put name to by metis
      then show ?thesis using equal_selector_refl [OF wf] t by auto
    next
      case False
      then obtain b where b: "(t, b) \<in> set fs" using fwd t by (auto simp: after_run_def)
      then have "b" using n(1) t(2) by auto
      then obtain cs' where cs': "cl1 n = Some cs'" "equal_selector (selector (cs_service cs')) (tg_from t)"
        using fwd b t(2) by (fastforce simp: after_run_def)
      have "n \<notin> tg_name ` set ds" using False names t sub by (auto simp: distinct_map inj_on_def)
      moreover have "tg_name ` set (map undo ds) = tg_name ` set ds" using un by (metis set_map)
      ultimately have "n \<notin> tg_name ` set (map undo ds)" by simp
      then have "sw_cluster st' n = cl1 n" using bk(2) unfolding after_run_def by blast
      then show ?thesis using cs' t by auto
    qed
  qed
qed

end

section \<open>The snapshot\<close>

lemma map_filter_all: "(\<And>x. x \<in> set xs \<Longrightarrow> f x = Some (g x)) \<Longrightarrow> List.map_filter f xs = map g xs"
  by (induction xs) (simp_all add: List.map_filter_def)

lemma snapshot_fold:
  assumes "foldl (snapshot_step c readable cl) (m, fl) ds = (m', [])" "\<forall>n cs. map_of m n = Some cs \<longrightarrow> cl n = Some cs"
  shows "(\<forall>n cs. map_of m' n = Some cs \<longrightarrow> cl n = Some cs) \<and>
    (\<forall>(p, t) \<in> set ds. map_of m' (service_name (co_release c) p) \<noteq> None) \<and> dom (map_of m) \<subseteq> dom (map_of m') \<and> fl = []"
  using assms
proof (induction ds arbitrary: m fl)
  case (Cons d ds)
  obtain p t where d: "d = (p, t)" by fastforce
  let ?n = "service_name (co_release c) p"
  show ?case
  proof (cases "if readable ?n then cl ?n else None")
    case None
    then show ?thesis using Cons.IH [of m "fl @ [?n]"] Cons.prems d by (auto simp: snapshot_step_def Let_def)
  next
    case (Some cs)
    let ?fl = "fl @ (if unexpected (co_expected c) (selector (cs_service cs)) then [?n] else [])"
    have run: "foldl (snapshot_step c readable cl) (jsmap_set ?n cs m, ?fl) ds = (m', [])"
      using Cons.prems(1) Some d by (simp add: snapshot_step_def Let_def)
    have inv: "\<forall>n cs'. map_of (jsmap_set ?n cs m) n = Some cs' \<longrightarrow> cl n = Some cs'"
      using Cons.prems(2) Some by (auto split: if_splits)
    show ?thesis using Cons.IH [OF run inv] d by (auto simp: dom_def split: if_splits)
  qed
qed simp

lemma snapshot_complete:
  assumes "snapshot c readable cl = (m, [])" "(p, t) \<in> set (serviceDestinations c)"
  shows "\<exists>cs. map_of m (service_name (co_release c) p) = Some cs \<and> cl (service_name (co_release c) p) = Some cs"
  using snapshot_fold [OF assms(1) [unfolded snapshot_def]] assms(2) by fastforce

definition target_of :: "cutover \<Rightarrow> cluster \<Rightarrow> string \<times> string \<Rightarrow> target" where
  "target_of c cl = (\<lambda>(p, t). let cs = the (cl (service_name (co_release c) p)) in
     \<lparr>tg_name = service_name (co_release c) p, tg_from = selector (cs_service cs),
      tg_to = nextSelector t (co_build c) (selector (cs_service cs)), tg_annotations = cs_annotations cs\<rparr>)"

lemma snapshot_targets:
  assumes "snapshot c readable cl = (m, [])"
  shows "List.map_filter (cutover_target (co_release c) (co_build c) m) (serviceDestinations c) = map (target_of c cl) (serviceDestinations c)"
proof (rule map_filter_all)
  fix d
  assume d: "d \<in> set (serviceDestinations c)"
  obtain p t where pt: "d = (p, t)" by fastforce
  show "cutover_target (co_release c) (co_build c) m d = Some (target_of c cl d)"
    using snapshot_complete [OF assms d [unfolded pt]] by (auto simp: pt cutover_target_def target_of_def Let_def)
qed

text \<open>A selector is a JSON object: no key twice.\<close>

definition selectors_wf :: "cluster \<Rightarrow> bool" where
  "selectors_wf cl \<longleftrightarrow> (\<forall>n cs. cl n = Some cs \<longrightarrow> jsmap_wf (selector (cs_service cs)))"

context selector_switch
begin

lemma targets_expected:
  assumes "snapshot c readable cl = (m, [])" "selectors_wf cl"
  shows "\<forall>t \<in> set (map (target_of c cl) (serviceDestinations c)). expected_in cl t \<and> jsmap_wf (tg_to t)"
proof
  fix u
  assume "u \<in> set (map (target_of c cl) (serviceDestinations c))"
  then obtain p t where pt: "(p, t) \<in> set (serviceDestinations c)" "u = target_of c cl (p, t)" by auto
  obtain cs where cs: "cl (service_name (co_release c) p) = Some cs" using snapshot_complete [OF assms(1) pt(1)] by blast
  have "jsmap_wf (selector (cs_service cs))" using assms(2) cs by (simp add: selectors_wf_def)
  then show "expected_in cl u \<and> jsmap_wf (tg_to u)"
    using cs equal_selector_refl by (simp add: pt(2) target_of_def expected_in_def nextSelector_def Let_def)
qed

lemma target_names: "map tg_name (map (target_of c cl) ds) = map (\<lambda>(p, t). service_name (co_release c) p) ds"
  by (auto simp: target_of_def Let_def)

lemma traffic_switched:
  assumes "distinct (map (\<lambda>(p, t). service_name (co_release c) p) (serviceDestinations c))" "list_all sound es" "selectors_wf cl"
    and run: "switch_traffic sw c readable es es' cl = (TrafficSwitched, cl')"
    and d: "(p, t) \<in> set (serviceDestinations c)"
  shows "\<exists>cs cs'. cl (service_name (co_release c) p) = Some cs \<and> cl' (service_name (co_release c) p) = Some cs' \<and>
    selector (cs_service cs') = nextSelector t (co_build c) (selector (cs_service cs))"
proof -
  let ?ts = "map (target_of c cl) (serviceDestinations c)" and ?st = "\<lparr>sw_cluster = cl, sw_done = [], sw_failed = []\<rparr>"
  obtain m unread where sn: "snapshot c readable cl = (m, unread)" by fastforce
  have un: "unread = []" using run sn by (auto simp: switch_traffic_def abort_cutover_def Let_def split: sum.splits if_splits)
  note sn = sn [unfolded un]
  obtain st where st: "run_switches sw es ?ts ?st = Inr st" "sw_failed st = []" "cl' = sw_cluster st"
    using run by (auto simp: switch_traffic_def abort_cutover_def sn snapshot_targets [OF sn] split: sum.splits if_splits)
  obtain ds where ds: "after_run ?ts cl ds [] cl'"
    using run_after [OF st(1) _ assms(2)] targets_expected [OF sn assms(3)] assms(1) st(2,3) unfolding target_names by auto
  obtain cs where cs: "cl (service_name (co_release c) p) = Some cs" using snapshot_complete [OF sn d] by blast
  have "target_of c cl (p, t) \<in> set ds" using ds d by (auto simp: after_run_def)
  then show ?thesis using ds cs by (fastforce simp: after_run_def target_of_def Let_def)
qed

lemma traffic_aborted:
  assumes "distinct (map (\<lambda>(p, t). service_name (co_release c) p) (serviceDestinations c))" "list_all sound es" "list_all sound es'"
    "selectors_wf cl"
    and run: "switch_traffic sw c readable es es' cl = (TrafficAborted unread failed unreverted repairs, cl')"
    and n: "\<forall>(t, clean) \<in> set failed. tg_name t = n \<longrightarrow> clean" "n \<notin> tg_name ` fst ` set unreverted"
  shows "cl' n = cl n \<or> (\<exists>cs cs'. cl n = Some cs \<and> cl' n = Some cs' \<and> equal_selector (selector (cs_service cs')) (selector (cs_service cs)))"
proof -
  let ?ts = "map (target_of c cl) (serviceDestinations c)" and ?st = "\<lparr>sw_cluster = cl, sw_done = [], sw_failed = []\<rparr>"
  obtain m bad where sn: "snapshot c readable cl = (m, bad)" by fastforce
  show ?thesis
  proof (cases "bad = []")
    case False
    then show ?thesis using run by (simp add: switch_traffic_def abort_cutover_def sn)
  next
    case True
    note sn = sn [unfolded True]
    obtain st st' where st: "run_switches sw es ?ts ?st = Inr st" "sw_failed st = failed"
      "run_switches sw es' (map (undo_in (sw_done st)) (sw_done st)) \<lparr>sw_cluster = sw_cluster st, sw_done = [], sw_failed = []\<rparr> = Inr st'"
      "sw_failed st' = unreverted" "cl' = sw_cluster st'"
      using run by (auto simp: switch_traffic_def abort_cutover_def sn snapshot_targets [OF sn] split: sum.splits if_splits)
    note exp = targets_expected [OF sn assms(4)]
    obtain ds where ds: "sw_done st = ds" "after_run ?ts cl ds failed (sw_cluster st)"
      using run_after [OF st(1) _ assms(2)] exp assms(1) st(2) unfolding target_names by auto
    have dd: "distinct (map tg_name ds)" using ds(2) by (simp add: after_run_def)
    have eq: "map (undo_in ds) ds = map undo ds" by (rule map_cong [OF refl]) (rule undo_in_distinct [OF dd])
    note run' = st(3) [unfolded ds(1) eq]
    have "cl' n = cl n \<or> (\<exists>t \<in> set ?ts. tg_name t = n \<and> (\<exists>cs'. cl' n = Some cs' \<and> equal_selector (selector (cs_service cs')) (tg_from t)))"
      unfolding st(5) by (rule undo_after [OF ds(2) _ assms(3) exp run' n(1)]) (simp_all only: assms(1) n(2) st(4) target_names not_False_eq_True)
    moreover have "\<exists>cs. cl (tg_name u) = Some cs \<and> tg_from u = selector (cs_service cs)" if "u \<in> set ?ts" for u
      using that snapshot_complete [OF sn] by (fastforce simp: target_of_def Let_def)
    ultimately show ?thesis by metis
  qed
qed

end

definition sound_env :: "switch_env \<Rightarrow> bool" where
  "sound_env e = (alone e \<and> verdict (se_finish e) \<noteq> AnswerLost)"

lemma replace_failed_plain:
  assumes "meddling f = None" "verdict f \<noteq> AnswerLost" "replace_selector f from next extra svc = (False, svc')"
  shows "svc' = svc"
  using assms by (auto simp: replace_selector_def meddle_def split: verdict.splits option.splits)

lemma service_switcher_failed:
  assumes "sound_env e" "jsmap_wf f" "equal_selector (selector s) f"
    "so_result (service_switcher namespace project n f t ann e s) = SwitchFailed"
    "so_cleaned (service_switcher namespace project n f t ann e s)"
  shows "equal_selector (selector (so_service (service_switcher namespace project n f t ann e s))) f"
proof -
  let ?a = "\<lparr>sa_namespace = namespace, sa_service = n, sa_original = f, sa_next = t, sa_neg = fst ann, sa_status = snd ann, sa_project = project\<rparr>"
  have e: "alone e" "meddling (se_finish e) = None" "verdict (se_finish e) \<noteq> AnswerLost"
    using assms(1) by (simp_all add: sound_env_def alone_def)
  obtain ok svc' where r: "replace_selector (se_finish e) f t NoExtra s = (ok, svc')" by fastforce
  show ?thesis
  proof (cases "plain_service ?a")
    case True
    then have "\<not> ok" "so_service (service_switcher namespace project n f t ann e s) = svc'"
      using assms(4) r by (auto simp: service_switcher_def replaceServiceSelector_def split: if_splits)
    moreover from this(1) have "svc' = s" using replace_failed_plain [OF e(2,3)] r by simp
    ultimately show ?thesis using assms(3) by simp
  next
    case False
    then have "service_switcher namespace project n f t ann e s = gke_switch ?a e s"
      using assms(4) by (auto simp: service_switcher_def replaceServiceSelector_def split: if_splits)
    then show ?thesis using gke_failed_clean [OF e(1), of ?a s] assms(2-5) by simp
  qed
qed

interpretation rs: selector_switch "service_switcher namespace project" sound_env for namespace project
proof
  fix n f t ann e s
  let ?out = "service_switcher namespace project n f t ann e s"
  show "selector (so_service ?out) = t" if "so_result ?out = Switched"
    using that gke_switched replace_succeeded
    by (fastforce simp: service_switcher_def replaceServiceSelector_def Let_def split: prod.splits if_splits)
qed (rule service_switcher_failed)

section \<open>Properties\<close>

text \<open>The Service a destination stands for, and whether a cluster has it as the build wants it or as it was.\<close>

definition on_build :: "cutover \<Rightarrow> cluster \<Rightarrow> cluster \<Rightarrow> string \<times> string \<Rightarrow> bool" where
  "on_build c cl cl' = (\<lambda>(p, t).
     case (cl (service_name (co_release c) p), cl' (service_name (co_release c) p)) of
       (Some cs, Some cs') \<Rightarrow> selector (cs_service cs') = nextSelector t (co_build c) (selector (cs_service cs))
     | _ \<Rightarrow> False)"

definition as_before :: "cluster \<Rightarrow> cluster \<Rightarrow> string \<Rightarrow> bool" where
  "as_before cl cl' n =
     (cl' n = cl n \<or>
      (case (cl n, cl' n) of
         (Some cs, Some cs') \<Rightarrow> equal_selector (selector (cs_service cs')) (selector (cs_service cs))
       | _ \<Rightarrow> False))"

text \<open>
  C17: traffic moves to the new build on every Service or on none, provided the Services have distinct
  names, no answer to a final patch is lost and nobody else edits them: a cutover that completes
  leaves every Service selecting the new build; one that aborts leaves every Service selecting what
  it selected before, except those whose restoration it reports as failed and those on which a
  warmed switch reported that it could not clean up. Nothing is said of a run that throws.
\<close>

theorem traffic_moves_together:
  assumes "distinct (map (\<lambda>(p, t). service_name (co_release c) p) (serviceDestinations c))"
    and "list_all sound_env es" "list_all sound_env es'" "selectors_wf cl"
  shows "case switchTrafficToNewBuild c readable es es' cl of
      (TrafficSwitched, cl') \<Rightarrow> list_all (on_build c cl cl') (serviceDestinations c)
    | (TrafficAborted unread failed unreverted repairs, cl') \<Rightarrow>
        (\<forall>n. as_before cl cl' n \<or> (\<exists>t. tg_name t = n \<and> ((t, False) \<in> set failed \<or> t \<in> fst ` set unreverted)))
    | (TrafficThrew, cl') \<Rightarrow> True"
proof -
  obtain r cl' where r: "switchTrafficToNewBuild c readable es es' cl = (r, cl')" by fastforce
  show ?thesis
  proof (cases r)
    case TrafficSwitched
    note run = r [unfolded TrafficSwitched switchTrafficToNewBuild_def]
    have "on_build c cl cl' d" if d: "d \<in> set (serviceDestinations c)" for d
    proof -
      obtain p t where pt: "d = (p, t)" by fastforce
      show ?thesis using rs.traffic_switched [OF assms(1,2,4) run d [unfolded pt]] by (auto simp: pt on_build_def)
    qed
    then show ?thesis by (simp add: r TrafficSwitched list_all_iff)
  next
    case (TrafficAborted unread failed unreverted repairs)
    note run = r [unfolded TrafficAborted switchTrafficToNewBuild_def]
    have "as_before cl cl' n \<or> (\<exists>t. tg_name t = n \<and> ((t, False) \<in> set failed \<or> t \<in> fst ` set unreverted))" for n
    proof (cases "\<exists>t. tg_name t = n \<and> ((t, False) \<in> set failed \<or> t \<in> fst ` set unreverted)")
      case False
      have "clean" if "(t, clean) \<in> set failed" "tg_name t = n" for t clean using False that by (cases clean) auto
      then have quiet: "\<forall>(t, clean) \<in> set failed. tg_name t = n \<longrightarrow> clean" "n \<notin> tg_name ` fst ` set unreverted" using False by blast+
      show ?thesis using rs.traffic_aborted [OF assms run quiet] by (auto simp: as_before_def)
    qed blast
    then show ?thesis by (simp add: r TrafficAborted)
  qed (simp add: r)
qed

text \<open>One Service without an endpoint group, switched from build \<open>a\<close> to build \<open>b\<close>.\<close>

definition demo_cutover :: cutover where
  "demo_cutover = \<lparr>co_release = ''r'', co_namespace = ''d'', co_build = ''b'', co_project = None, co_expected = Some ''a'',
     co_pools = [''p''], co_origin = False, co_default = ''p''\<rparr>"

definition demo_cluster :: cluster where
  "demo_cluster = [''r-p'' \<mapsto> \<lparr>cs_service = \<lparr>selector = [(VERSION, ''a''), (COMPONENT, ''p'')], recovery = None\<rparr>, cs_annotations = (None, None)\<rparr>]"

lemma demo_traffic: "fst (switchTrafficToNewBuild demo_cutover (\<lambda>_. True) [demo_env] [] demo_cluster) = TrafficSwitched"
  by code_simp

theorem traffic_moves_together_witness:
  "case switchTrafficToNewBuild demo_cutover (\<lambda>_. True) [demo_env] [] demo_cluster of
     (TrafficSwitched, cl') \<Rightarrow> list_all (on_build demo_cutover demo_cluster cl') (serviceDestinations demo_cutover)
   | _ \<Rightarrow> False"
proof -
  have "distinct (map (\<lambda>(p, t). service_name (co_release demo_cutover) p) (serviceDestinations demo_cutover))"
    "list_all sound_env [demo_env]" "list_all sound_env []" "selectors_wf demo_cluster"
    by (simp_all add: demo_cutover_def serviceDestinations_def sound_env_def alone_def demo_env_def answered_def selectors_wf_def
        demo_cluster_def VERSION_def COMPONENT_def)
  from traffic_moves_together [OF this, of "\<lambda>_. True"] demo_traffic show ?thesis by (auto split: prod.splits)
qed

text \<open>
  Without the assumption on answers it fails: a patch of a plain Service that reaches the server but
  whose answer is lost counts as failed, is not in the list of Services to restore, and leaves the
  Service on the new build although the cutover reports an abort with nothing left to repair.
\<close>

lemma lost_answer_strands_service:
  "case switchTrafficToNewBuild demo_cutover (\<lambda>_. True) [demo_env\<lparr>se_finish := \<lparr>meddling = None, verdict = AnswerLost\<rparr>\<rparr>] [] demo_cluster of
     (TrafficAborted unread failed unreverted repairs, cl') \<Rightarrow>
       unread = [] \<and> list_all snd failed \<and> unreverted = [] \<and> list_all (on_build demo_cutover demo_cluster cl') (serviceDestinations demo_cutover)
   | _ \<Rightarrow> False"
  by code_simp

end
