(* ===== verification/DispatchProof.thy ===== *)
theory DispatchProof
  imports Decimal "HOL-Library.Char_ord" "HOL-Library.List_Lexorder"
begin

text \<open>
  The dispatch trust protocol of \<^verbatim>\<open>src/routing-common.ts\<close> and \<^verbatim>\<open>src/pool-server/server.ts\<close>: the routing
  tier signs what it decided about a request, and a pool acts on the decision only if the signature
  covers the very request it received. A string is its code units and a buffer its bytes, so a latin1
  conversion is the identity. HMAC-SHA-256, SHA-256, \<open>decodeURIComponent\<close>, the UTF-8 decoder, the
  regular-expression engine and the pattern analyser \<open>redos-detector\<close> are parameters.
\<close>

section \<open>Header names\<close>

definition INTERNAL_DISPATCH_HEADERS :: "string list" where
  "INTERNAL_DISPATCH_HEADERS =
     [''x-output-id'', ''x-matched-pathname'', ''x-route-matches'', ''x-upstream-pool'', ''x-nextjs-ppr'',
      ''x-resolved-headers'', ''x-mw-response-status'', ''x-mw-evaluated'', ''x-invoke-path'', ''x-invoke-query'',
      ''x-external-rewrite-url'', ''x-adapter-k8s-execution-deadline'', ''x-mw-request-headers'']"

definition UNTRUSTED_NEXT_REQUEST_HEADERS :: "string list" where
  "UNTRUSTED_NEXT_REQUEST_HEADERS =
     [''x-middleware-rewrite'', ''x-middleware-redirect'', ''x-middleware-set-cookie'', ''x-middleware-skip'',
      ''x-middleware-override-headers'', ''x-middleware-next'', ''x-now-route-matches'', ''x-matched-path'',
      ''x-nextjs-data'', ''next-resume'', ''x-next-resume-state-length'']"

definition INTERNAL_SECRET_HEADER :: string where "INTERNAL_SECRET_HEADER = ''x-internal-secret''"
definition INTERNAL_DISPATCH_PROOF_HEADER :: string where "INTERNAL_DISPATCH_PROOF_HEADER = ''x-internal-dispatch-proof''"

definition PROOF_COVERED_CONTEXT_HEADERS :: "string list" where
  "PROOF_COVERED_CONTEXT_HEADERS = [''x-forwarded-proto'', ''x-forwarded-host'']"

definition PROOF_EXCLUDED_MATCHER_HEADERS :: "string list" where
  "PROOF_EXCLUDED_MATCHER_HEADERS =
     INTERNAL_DISPATCH_HEADERS @ UNTRUSTED_NEXT_REQUEST_HEADERS @
     [INTERNAL_SECRET_HEADER, INTERNAL_DISPATCH_PROOF_HEADER, ''host'', ''traceparent'', ''tracestate'']"

definition NODE_SINGLETON_REQUEST_HEADERS :: "string list" where
  "NODE_SINGLETON_REQUEST_HEADERS =
     [''age'', ''authorization'', ''content-length'', ''content-type'', ''etag'', ''expires'', ''from'', ''host'',
      ''if-modified-since'', ''if-unmodified-since'', ''last-modified'', ''location'', ''max-forwards'',
      ''proxy-authorization'', ''referer'', ''retry-after'', ''server'', ''user-agent'']"

text \<open>\<open>[...new Set(xs)]\<close>, and JavaScript truthiness of an optional string.\<close>

definition js_set :: "'a list \<Rightarrow> 'a list" where
  "js_set xs = rev (remdups (rev xs))"

definition truthy :: "string option \<Rightarrow> string option" where
  "truthy v = (case v of Some (c # s) \<Rightarrow> Some (c # s) | _ \<Rightarrow> None)"

section \<open>Middleware matchers\<close>

datatype condition_type = HeaderCond | CookieCond | QueryCond | HostCond

record route_condition =
  rc_type :: condition_type
  rc_key :: "string option"
  rc_value :: "string option"

record middleware_matcher =
  mm_regexp :: string
  mm_has :: "route_condition list"
  mm_missing :: "route_condition list"

record url =
  url_pathname :: string
  url_hostname :: string
  url_params :: "(string \<times> string) list"

text \<open>\<open>Headers\<close>: values by lower-case name.\<close>

type_synonym web_headers = "string \<Rightarrow> string option"

definition condition_names :: "route_condition \<Rightarrow> string list" where
  "condition_names cond =
     (case rc_type cond of
        CookieCond \<Rightarrow> [''cookie'']
      | HeaderCond \<Rightarrow> (case truthy (rc_key cond) of Some k \<Rightarrow> [js_lower k] | None \<Rightarrow> [])
      | _ \<Rightarrow> [])"

definition matcherProofHeaderNames :: "middleware_matcher list \<Rightarrow> string list" where
  "matcherProofHeaderNames matchers =
     sort (filter (\<lambda>n. n \<notin> set PROOF_EXCLUDED_MATCHER_HEADERS)
       (js_set (concat (map (\<lambda>m. concat (map condition_names (mm_has m @ mm_missing m))) matchers))))"

record rsc_config =
  rsc_header :: string
  rsc_suffix :: string
  rsc_prefetchSegmentHeader :: "string option"
  rsc_prefetchSegmentDirSuffix :: "string option"
  rsc_prefetchSegmentSuffix :: "string option"

definition rscProofHeaderNames :: "rsc_config option \<Rightarrow> string list" where
  "rscProofHeaderNames rsc =
     (case rsc of
        None \<Rightarrow> []
      | Some r \<Rightarrow>
          sort (js_set (filter (\<lambda>n. n \<notin> set PROOF_EXCLUDED_MATCHER_HEADERS)
            (map js_lower (List.map_filter truthy [Some (rsc_header r), rsc_prefetchSegmentHeader r])))))"

definition buildProofHeaderNames :: "middleware_matcher list \<Rightarrow> rsc_config option \<Rightarrow> string list" where
  "buildProofHeaderNames matchers rsc = sort (js_set (matcherProofHeaderNames matchers @ rscProofHeaderNames rsc))"

definition proofCoveredHeaderNames :: "string list option \<Rightarrow> string list" where
  "proofCoveredHeaderNames buildHeaderNames =
     sort (js_set (INTERNAL_DISPATCH_HEADERS @ PROOF_COVERED_CONTEXT_HEADERS @
       (case buildHeaderNames of Some ns \<Rightarrow> ns | None \<Rightarrow> [])))"

section \<open>The transcript\<close>

text \<open>A header of a Node request: a string or an array of strings.\<close>

datatype node_value = Single string | Multi "string list"

definition coalesceWireHeaderBytes :: "string \<Rightarrow> string list \<Rightarrow> string option" where
  "coalesceWireHeaderBytes name values =
     (case values of
        [] \<Rightarrow> None
      | [first] \<Rightarrow> Some first
      | first # _ \<Rightarrow>
          let lname = js_lower name
          in if lname \<in> set NODE_SINGLETON_REQUEST_HEADERS then Some first
             else Some (js_join (if lname = ''cookie'' then ''; '' else '', '') values))"

definition wireHeaderBytes :: "string \<Rightarrow> node_value option \<Rightarrow> string option" where
  "wireHeaderBytes name value =
     (case value of
        None \<Rightarrow> None
      | Some (Single v) \<Rightarrow> Some v
      | Some (Multi vs) \<Rightarrow> coalesceWireHeaderBytes name vs)"

definition encodeNodeOutgoingDispatchHeader :: "string \<Rightarrow> string" where
  "encodeNodeOutgoingDispatchHeader value = utf8 value"

definition encodeNodeOutgoingDispatchHeaders :: "(string, node_value) jsmap \<Rightarrow> (string, node_value) jsmap" where
  "encodeNodeOutgoingDispatchHeaders headers =
     map (\<lambda>(name, v). (name,
       if name \<in> set INTERNAL_DISPATCH_HEADERS
       then (case v of Single s \<Rightarrow> Single (encodeNodeOutgoingDispatchHeader s)
                     | Multi ss \<Rightarrow> Multi (map encodeNodeOutgoingDispatchHeader ss))
       else v)) headers"

text \<open>A field value: octets, or a text standing for its UTF-8 encoding.\<close>

datatype proof_value = Octets string | Text string

primrec value_bytes :: "proof_value \<Rightarrow> string" where
  "value_bytes (Octets b) = b"
| "value_bytes (Text s) = utf8 s"

record proof_inputs =
  pi_method :: string
  pi_target :: "proof_value option"
  pi_authority :: "proof_value option"
  pi_headers :: "string \<Rightarrow> proof_value option"
  pi_names :: "string list option"
  pi_issuedAtMs :: nat
  pi_bodyDigest :: "string option"

definition updateProofField :: "string option \<Rightarrow> string" where
  "updateProofField value =
     (case value of
        None \<Rightarrow> [CHR ''-'', CHR 0x0A]
      | Some bytes \<Rightarrow> CHR ''+'' # nat_dec (length bytes) @ CHR 0x0A # bytes)"

definition ascii_lower :: "char \<Rightarrow> char" where
  "ascii_lower c = (let n = (of_char c :: nat) in if 65 \<le> n \<and> n \<le> 90 then char_of (n + 32) else c)"

definition asciiLowerBytes :: "proof_value option \<Rightarrow> string option" where
  "asciiLowerBytes value = map_option (\<lambda>v. map ascii_lower (value_bytes v)) value"

text \<open>\<open>toUpperCase\<close> of a method, which is an ASCII token.\<close>

definition method_upper :: "string \<Rightarrow> string" where
  "method_upper s = map (\<lambda>c. let n = (of_char c :: nat) in if 97 \<le> n \<and> n \<le> 122 then char_of (n - 32) else c) s"

definition DISPATCH_PROOF_PREFIX :: string where "DISPATCH_PROOF_PREFIX = ''v3''"
definition ABSENT_BODY_DIGEST :: string where "ABSENT_BODY_DIGEST = ''-''"

definition proof_fields :: "proof_inputs \<Rightarrow> string option list" where
  "proof_fields i =
     (let names = proofCoveredHeaderNames (pi_names i)
      in [Some (utf8 (method_upper (pi_method i))), map_option value_bytes (pi_target i), asciiLowerBytes (pi_authority i),
          Some (nat_dec (pi_issuedAtMs i)), pi_bodyDigest i, Some (nat_dec (length names))]
         @ concat (map (\<lambda>n. [Some (utf8 n), map_option value_bytes (pi_headers i n)]) names))"

definition transcript :: "proof_inputs \<Rightarrow> string" where
  "transcript i = ''adapter-k8s-dispatch-v3'' @ CHR 0x0A # concat (map updateProofField (proof_fields i))"

definition computeDispatchProof :: "(string \<Rightarrow> string \<Rightarrow> string) \<Rightarrow> string \<Rightarrow> proof_inputs \<Rightarrow> string" where
  "computeDispatchProof hmac secret i =
     js_join ''.'' [DISPATCH_PROOF_PREFIX, nat_dec (pi_issuedAtMs i),
       (case pi_bodyDigest i of Some d \<Rightarrow> to_hex d | None \<Rightarrow> ABSENT_BODY_DIGEST),
       to_hex (hmac secret (transcript i))]"

section \<open>Verification\<close>

record node_request =
  nr_method :: "string option"
  nr_target :: "string option"
  nr_headers :: "(string, node_value) jsmap"
  nr_names :: "string list option"

definition MAC_RE :: rexp where "MAC_RE = Rep 64 64 (Cls hex_lower)"
definition ISSUED_AT_RE :: rexp where "ISSUED_AT_RE = Rep 1 15 (Cls dec_digit)"

definition parseDispatchProof :: "string \<Rightarrow> (nat \<times> string option) option" where
  "parseDispatchProof credential =
     (case js_split (CHR ''.'') credential of
        [pre, issuedAt, digest, mac] \<Rightarrow>
          if pre \<noteq> DISPATCH_PROOF_PREFIX \<or> \<not> matches ISSUED_AT_RE issuedAt \<or> \<not> matches MAC_RE mac
             \<or> digest \<noteq> ABSENT_BODY_DIGEST \<and> \<not> matches MAC_RE digest
          then None
          else Some (dec_value issuedAt, if digest = ABSENT_BODY_DIGEST then None else Some (from_hex digest))
      | _ \<Rightarrow> None)"

definition method_of :: "node_request \<Rightarrow> string" where
  "method_of r = (case nr_method r of Some m \<Rightarrow> m | None \<Rightarrow> ''GET'')"

definition dispatchProofInputsFromRequest :: "node_request \<Rightarrow> nat \<Rightarrow> string option \<Rightarrow> proof_inputs" where
  "dispatchProofInputsFromRequest r issuedAt digest =
     \<lparr>pi_method = method_of r,
      pi_target = Some (Octets (case nr_target r of Some t \<Rightarrow> t | None \<Rightarrow> ''/'')),
      pi_authority = map_option Octets (wireHeaderBytes ''host'' (map_of (nr_headers r) ''host'')),
      pi_headers = (\<lambda>name. if name \<in> set (proofCoveredHeaderNames (nr_names r))
                           then map_option Octets (wireHeaderBytes name (map_of (nr_headers r) name)) else None),
      pi_names = nr_names r, pi_issuedAtMs = issuedAt, pi_bodyDigest = digest\<rparr>"

definition timingSafeStringEqual :: "string \<Rightarrow> string \<Rightarrow> bool" where
  "timingSafeStringEqual a b = (let ab = utf8 a; bb = utf8 b in length ab = length bb \<and> ab = bb)"

datatype rejection = RejMalformed | RejMismatch | RejStale | RejPremature | RejBodyUnexpected

datatype proof_verdict = Trusted "string option" | Untrusted rejection

definition verifyDispatchProof ::
    "(string \<Rightarrow> string \<Rightarrow> string) \<Rightarrow> int \<Rightarrow> string \<Rightarrow> node_request \<Rightarrow> string \<Rightarrow> int \<Rightarrow> proof_verdict" where
  "verifyDispatchProof hmac maxAge secret r presented now =
     (case parseDispatchProof presented of
        None \<Rightarrow> Untrusted RejMalformed
      | Some (issuedAt, digest) \<Rightarrow>
          if \<not> timingSafeStringEqual presented (computeDispatchProof hmac secret (dispatchProofInputsFromRequest r issuedAt digest))
          then Untrusted RejMismatch
          else if digest \<noteq> None \<and> method_upper (method_of r) \<in> {''GET'', ''HEAD''} then Untrusted RejBodyUnexpected
          else let age = now - int issuedAt
               in if age > maxAge then Untrusted RejStale
                  else if age < - maxAge then Untrusted RejPremature
                  else Trusted digest)"

definition DISPATCH_PROOF_MAX_AGE_MS :: "int option \<Rightarrow> int option \<Rightarrow> int" where
  "DISPATCH_PROOF_MAX_AGE_MS maxAgeEnv handlerEnv =
     max 1000 (case maxAgeEnv of Some a \<Rightarrow> a | None \<Rightarrow> max 120000 (2 * (case handlerEnv of Some h \<Rightarrow> h | None \<Rightarrow> 60000)))"

definition dispatchProofBodyMatches :: "(string \<Rightarrow> string) \<Rightarrow> string option \<Rightarrow> string option \<Rightarrow> bool" where
  "dispatchProofBodyMatches sha256 declared body =
     (case declared of
        None \<Rightarrow> True
      | Some d \<Rightarrow> let actual = sha256 (case body of Some b \<Rightarrow> b | None \<Rightarrow> []) in length d = length actual \<and> d = actual)"

section \<open>The pool's trust boundary\<close>

text \<open>The request a pool received: its headers, and the digest parked for the body check.\<close>

record pool_request =
  pq_method :: "string option"
  pq_url :: "string option"
  pq_headers :: "(string, node_value) jsmap"
  pq_digest :: "string option"

record trust_options =
  to_secret :: "string option"
  to_trust :: bool
  to_names :: "string list option"

definition delete_headers :: "string list \<Rightarrow> (string, node_value) jsmap \<Rightarrow> (string, node_value) jsmap" where
  "delete_headers names headers = foldl (\<lambda>m n. jsmap_delete n m) headers names"

definition decode_value :: "(string \<Rightarrow> string option) \<Rightarrow> node_value \<Rightarrow> node_value option" where
  "decode_value udec v =
     (case v of Single s \<Rightarrow> map_option Single (udec s) | Multi ss \<Rightarrow> map_option Multi (those (map udec ss)))"

text \<open>Decodes in place; an invalid value ends the loop with what was decoded so far.\<close>

fun decodeAuthenticatedDispatchHeaders ::
    "(string \<Rightarrow> string option) \<Rightarrow> string list \<Rightarrow> (string, node_value) jsmap \<Rightarrow> bool \<times> (string, node_value) jsmap" where
  "decodeAuthenticatedDispatchHeaders udec [] headers = (True, headers)"
| "decodeAuthenticatedDispatchHeaders udec (name # names) headers =
     (case map_of headers name of
        None \<Rightarrow> decodeAuthenticatedDispatchHeaders udec names headers
      | Some v \<Rightarrow>
          (case decode_value udec v of
             None \<Rightarrow> (False, headers)
           | Some v' \<Rightarrow> decodeAuthenticatedDispatchHeaders udec names (jsmap_set name v' headers)))"

definition PUBLIC_MIDDLEWARE_REQUEST_HEADERS :: "string list" where
  "PUBLIC_MIDDLEWARE_REQUEST_HEADERS = [''x-middleware-prefetch'']"

definition private_middleware :: "string \<Rightarrow> bool" where
  "private_middleware h = (prefix ''x-middleware-'' h \<and> h \<notin> set PUBLIC_MIDDLEWARE_REQUEST_HEADERS)"

datatype report = Refused rejection | InvalidUtf8 | BodyMismatch

definition node_view :: "trust_options \<Rightarrow> pool_request \<Rightarrow> node_request" where
  "node_view opts rq = \<lparr>nr_method = pq_method rq, nr_target = pq_url rq, nr_headers = pq_headers rq, nr_names = to_names opts\<rparr>"

definition establish_trust ::
    "(string \<Rightarrow> string \<Rightarrow> string) \<Rightarrow> int \<Rightarrow> (string \<Rightarrow> string option) \<Rightarrow> trust_options \<Rightarrow> int \<Rightarrow> pool_request \<Rightarrow>
     bool \<times> pool_request \<times> report option" where
  "establish_trust hmac maxAge udec opts now rq0 =
     (let rq = rq0\<lparr>pq_digest := None\<rparr>
      in case truthy (to_secret opts) of
           None \<Rightarrow> (to_trust opts, rq, None)
         | Some secret \<Rightarrow>
             (case map_of (pq_headers rq) INTERNAL_DISPATCH_PROOF_HEADER of
                Some (Single presented) \<Rightarrow>
                  (case verifyDispatchProof hmac maxAge secret (node_view opts rq) presented now of
                     Trusted digest \<Rightarrow>
                       (case decodeAuthenticatedDispatchHeaders udec INTERNAL_DISPATCH_HEADERS (pq_headers rq) of
                          (True, headers) \<Rightarrow> (True, rq\<lparr>pq_headers := headers, pq_digest := digest\<rparr>, None)
                        | (False, headers) \<Rightarrow> (False, rq\<lparr>pq_headers := headers\<rparr>, Some InvalidUtf8))
                   | Untrusted reason \<Rightarrow> (False, rq, Some (Refused reason)))
              | _ \<Rightarrow> (False, rq, None)))"

definition applyIncomingRequestTrustBoundary ::
    "(string \<Rightarrow> string \<Rightarrow> string) \<Rightarrow> int \<Rightarrow> (string \<Rightarrow> string option) \<Rightarrow> trust_options \<Rightarrow> int \<Rightarrow> pool_request \<Rightarrow>
     bool \<times> pool_request \<times> report option" where
  "applyIncomingRequestTrustBoundary hmac maxAge udec opts now rq0 =
     (let (trusted, rq, report) = establish_trust hmac maxAge udec opts now rq0;
          headers = delete_headers UNTRUSTED_NEXT_REQUEST_HEADERS
                      (delete_headers [INTERNAL_SECRET_HEADER, INTERNAL_DISPATCH_PROOF_HEADER] (pq_headers rq));
          headers = (if trusted then headers else delete_headers INTERNAL_DISPATCH_HEADERS headers);
          headers = delete_headers (filter private_middleware (jsmap_keys headers)) headers
      in (trusted, rq\<lparr>pq_headers := headers\<rparr>, report))"

definition enforceDispatchBodyBinding ::
    "(string \<Rightarrow> string) \<Rightarrow> pool_request \<Rightarrow> string option \<Rightarrow> bool \<times> pool_request \<times> report option" where
  "enforceDispatchBodyBinding sha256 rq body =
     (case pq_digest rq of
        None \<Rightarrow> (True, rq, None)
      | Some declared \<Rightarrow>
          let rq' = rq\<lparr>pq_digest := None\<rparr>
          in if dispatchProofBodyMatches sha256 (Some declared) body then (True, rq', None)
             else (False, rq'\<lparr>pq_headers := delete_headers INTERNAL_DISPATCH_HEADERS (pq_headers rq')\<rparr>, Some BodyMismatch))"

section \<open>The transcript is unambiguous\<close>

lemma LF_no_digit: "CHR 0x0A \<notin> set (nat_dec n)"
  by (rule nat_dec_no) (simp add: dec_digit_def)

lemma field_inj: "updateProofField v @ r = updateProofField v' @ r' \<longleftrightarrow> v = v' \<and> r = r'"
proof (cases v)
  case (Some b)
  show ?thesis
  proof (cases v')
    case None
    then show ?thesis using Some by (simp add: updateProofField_def)
  next
    case (Some b')
    have "nat_dec (length b) @ CHR 0x0A # b @ r = nat_dec (length b') @ CHR 0x0A # b' @ r' \<longleftrightarrow>
        length b = length b' \<and> b @ r = b' @ r'"
      by (simp add: first_sep_eq LF_no_digit)
    then show ?thesis using Some \<open>v = Some b\<close> by (auto simp: updateProofField_def)
  qed
qed (cases v', auto simp: updateProofField_def)

lemma fields_inj:
  "length fs = length gs \<Longrightarrow> concat (map updateProofField fs) @ r = concat (map updateProofField gs) @ r' \<longleftrightarrow> fs = gs \<and> r = r'"
  by (induction fs gs rule: list_induct2) (auto simp: field_inj)

lemma covered_values_inj:
  assumes "length ns = length ms"
    "concat (map (\<lambda>n. [Some (utf8 n), f n]) ns) = concat (map (\<lambda>n. [Some (utf8 n), g n]) ms)"
  shows "ns = ms \<and> (\<forall>n \<in> set ns. f n = g n)"
  using assms by (induction ns ms rule: list_induct2) auto

text \<open>What a proof binds.\<close>

definition same_inputs :: "proof_inputs \<Rightarrow> proof_inputs \<Rightarrow> bool" where
  "same_inputs i j \<longleftrightarrow>
     method_upper (pi_method i) = method_upper (pi_method j) \<and>
     map_option value_bytes (pi_target i) = map_option value_bytes (pi_target j) \<and>
     asciiLowerBytes (pi_authority i) = asciiLowerBytes (pi_authority j) \<and>
     proofCoveredHeaderNames (pi_names i) = proofCoveredHeaderNames (pi_names j) \<and>
     (\<forall>n \<in> set (proofCoveredHeaderNames (pi_names i)).
        map_option value_bytes (pi_headers i n) = map_option value_bytes (pi_headers j n)) \<and>
     pi_issuedAtMs i = pi_issuedAtMs j \<and> pi_bodyDigest i = pi_bodyDigest j"

lemma proof_fields_inj:
  assumes "concat (map updateProofField (proof_fields i)) = concat (map updateProofField (proof_fields j))"
  shows "same_inputs i j"
proof -
  define ni nj where "ni = proofCoveredHeaderNames (pi_names i)" and "nj = proofCoveredHeaderNames (pi_names j)"
  define ri where "ri = concat (map (\<lambda>n. [Some (utf8 n), map_option value_bytes (pi_headers i n)]) ni)"
  define rj where "rj = concat (map (\<lambda>n. [Some (utf8 n), map_option value_bytes (pi_headers j n)]) nj)"
  note split = proof_fields_def [of i, unfolded Let_def, folded ni_def ri_def] proof_fields_def [of j, unfolded Let_def, folded nj_def rj_def]
  have front: "method_upper (pi_method i) = method_upper (pi_method j)"
    "map_option value_bytes (pi_target i) = map_option value_bytes (pi_target j)"
    "asciiLowerBytes (pi_authority i) = asciiLowerBytes (pi_authority j)" "pi_issuedAtMs i = pi_issuedAtMs j"
    "pi_bodyDigest i = pi_bodyDigest j" "length ni = length nj"
    and rest: "concat (map updateProofField ri) = concat (map updateProofField rj)"
    using assms unfolding split by (simp_all add: field_inj ri_def rj_def)
  have "length ri = length rj" using front(6) by (simp add: ri_def rj_def length_concat comp_def sum_list_triv)
  then have "ri = rj" using fields_inj [of ri rj "[]" "[]"] rest by simp
  then have "ni = nj \<and> (\<forall>n \<in> set ni. map_option value_bytes (pi_headers i n) = map_option value_bytes (pi_headers j n))"
    unfolding ri_def rj_def by (rule covered_values_inj [OF front(6)])
  then show ?thesis using front by (simp add: same_inputs_def ni_def nj_def)
qed

lemma same_inputs_fields: "same_inputs i j \<Longrightarrow> proof_fields i = proof_fields j"
  by (simp add: same_inputs_def proof_fields_def Let_def cong: map_cong)

lemma transcript_inj: "transcript i = transcript j \<longleftrightarrow> same_inputs i j"
  by (auto simp: transcript_def dest: proof_fields_inj same_inputs_fields)

section \<open>Credentials\<close>

lemma dot_no_hex: "CHR ''.'' \<notin> set (to_hex s)" "CHR ''.'' \<notin> set (nat_dec n)"
proof -
  have "\<not> hex_lower (CHR ''.'')" by (simp add: hex_lower_def dec_digit_def)
  then show "CHR ''.'' \<notin> set (to_hex s)" using to_hex_chars by blast
  show "CHR ''.'' \<notin> set (nat_dec n)" by (rule nat_dec_no) (simp add: dec_digit_def)
qed

lemma split_join_dots:
  "ps \<noteq> [] \<Longrightarrow> \<forall>p \<in> set ps. c \<notin> set p \<Longrightarrow> js_split c (js_join [c] ps) = ps"
proof (induction ps)
  case (Cons p ps)
  have sp: "js_split c (p @ c # s) = p # js_split c s" if "c \<notin> set p" for p s
    using that by (induction p) auto
  show ?case
  proof (cases "ps = []")
    case True
    then show ?thesis using Cons.prems js_split_no_sep by simp
  next
    case False
    then show ?thesis using Cons sp by (simp add: js_join_Cons)
  qed
qed simp

lemma parse_computed:
  assumes "length (hmac secret (transcript i)) = 32" "pi_issuedAtMs i < 10 ^ 15" "\<forall>d. pi_bodyDigest i = Some d \<longrightarrow> length d = 32"
  shows "parseDispatchProof (computeDispatchProof hmac secret i) = Some (pi_issuedAtMs i, pi_bodyDigest i)"
proof -
  let ?d = "case pi_bodyDigest i of Some d \<Rightarrow> to_hex d | None \<Rightarrow> ABSENT_BODY_DIGEST"
  have parts: "js_split (CHR ''.'') (computeDispatchProof hmac secret i) =
      [DISPATCH_PROOF_PREFIX, nat_dec (pi_issuedAtMs i), ?d, to_hex (hmac secret (transcript i))]"
    unfolding computeDispatchProof_def
    by (rule split_join_dots) (auto simp: dot_no_hex DISPATCH_PROOF_PREFIX_def ABSENT_BODY_DIGEST_def split: option.splits)
  have mac: "matches MAC_RE (to_hex b)" if "length b = 32" for b
    using that to_hex_chars by (simp add: MAC_RE_def matches_Rep_Cls)
  have at: "matches ISSUED_AT_RE (nat_dec (pi_issuedAtMs i))"
    using length_nat_dec [OF assms(2)] nat_dec_digits nat_dec_ne [of "pi_issuedAtMs i"]
    by (simp add: ISSUED_AT_RE_def matches_Rep_Cls Suc_le_eq)
  have "to_hex d \<noteq> ABSENT_BODY_DIGEST" if "length d = 32" for d
  proof
    assume "to_hex d = ABSENT_BODY_DIGEST"
    then have "length (to_hex d) = 1" by (simp add: ABSENT_BODY_DIGEST_def del: length_to_hex)
    then show False using that by simp
  qed
  then show ?thesis
    unfolding parseDispatchProof_def parts using mac assms at nat_dec_value
    by (auto simp del: dec_value.simps split: option.splits)
qed

lemma compute_eq:
  assumes "pi_issuedAtMs i = pi_issuedAtMs j" "pi_bodyDigest i = pi_bodyDigest j"
  shows "computeDispatchProof hmac secret i = computeDispatchProof hmac secret j \<longleftrightarrow>
    hmac secret (transcript i) = hmac secret (transcript j)"
  using assms by (simp add: computeDispatchProof_def)

lemma safe_equal [simp]: "timingSafeStringEqual a b \<longleftrightarrow> a = b"
  by (auto simp: timingSafeStringEqual_def Let_def)

lemma inputs_fields [simp]:
  "pi_issuedAtMs (dispatchProofInputsFromRequest r t d) = t" "pi_bodyDigest (dispatchProofInputsFromRequest r t d) = d"
  by (simp_all add: dispatchProofInputsFromRequest_def)

lemma verify_trusted:
  "verifyDispatchProof hmac maxAge secret r p now = Trusted d \<longleftrightarrow>
   (\<exists>t. parseDispatchProof p = Some (t, d) \<and> p = computeDispatchProof hmac secret (dispatchProofInputsFromRequest r t d) \<and>
      (d = None \<or> method_upper (method_of r) \<notin> {''GET'', ''HEAD''}) \<and> \<bar>now - int t\<bar> \<le> maxAge)"
  by (auto simp: verifyDispatchProof_def Let_def split: option.splits prod.splits if_splits)

lemma delete_headers_lookup: "map_of (delete_headers ns hs) n = (if n \<in> set ns then None else map_of hs n)"
  by (induction ns arbitrary: hs) (simp_all add: delete_headers_def)

lemma decoded_keys:
  "map_of (snd (decodeAuthenticatedDispatchHeaders udec ns hs)) n = None \<longleftrightarrow> map_of hs n = None"
  by (induction udec ns hs rule: decodeAuthenticatedDispatchHeaders.induct) (auto split: option.splits)

section \<open>Properties of the protocol\<close>

text \<open>The signed inputs are those a pool reads off a request.\<close>

definition signed_for :: "proof_inputs \<Rightarrow> node_request \<Rightarrow> bool" where
  "signed_for i r = same_inputs i (dispatchProofInputsFromRequest r (pi_issuedAtMs i) (pi_bodyDigest i))"

lemma verify_computed:
  assumes "\<And>m. length (hmac secret m) = 32" and "pi_issuedAtMs i < 10 ^ 15"
    and "\<And>d. pi_bodyDigest i = Some d \<Longrightarrow> length d = 32"
    and collision: "\<And>j. j = dispatchProofInputsFromRequest r (pi_issuedAtMs i) (pi_bodyDigest i) \<Longrightarrow>
      hmac secret (transcript i) = hmac secret (transcript j) \<Longrightarrow> transcript i = transcript j"
  shows "verifyDispatchProof hmac maxAge secret r (computeDispatchProof hmac secret i) now = Trusted d \<longleftrightarrow>
    signed_for i r \<and> d = pi_bodyDigest i \<and> (d = None \<or> method_upper (method_of r) \<notin> {''GET'', ''HEAD''}) \<and>
    \<bar>now - int (pi_issuedAtMs i)\<bar> \<le> maxAge"
proof -
  let ?j = "dispatchProofInputsFromRequest r (pi_issuedAtMs i) (pi_bodyDigest i)"
  have "computeDispatchProof hmac secret i = computeDispatchProof hmac secret ?j \<longleftrightarrow> transcript i = transcript ?j"
    using compute_eq [of i ?j hmac secret] collision by auto
  also have "\<dots> \<longleftrightarrow> signed_for i r" by (simp add: transcript_inj signed_for_def)
  finally show ?thesis
    unfolding verify_trusted using parse_computed [of hmac secret i] assms(1-3) by auto
qed

text \<open>
  C8: a dispatch proof authorises exactly the request it was minted for. Let the MAC have 32 bytes and
  not collide on the two transcripts in question. Then a pool trusts a credential minted for inputs
  \<open>i\<close> if and only if the request has the signed method, target, authority and covered headers, octet
  for octet and with absence distinct from emptiness, the proof is within its age bound, and a body
  digest is declared only for a method that can have a body; and it reports the signed digest.
\<close>

theorem dispatch_proof_exact:
  assumes "\<And>m. length (hmac secret m) = 32" and "pi_issuedAtMs i < 10 ^ 15"
    and "\<And>d. pi_bodyDigest i = Some d \<Longrightarrow> length d = 32"
    and collision: "\<And>j. j = dispatchProofInputsFromRequest r (pi_issuedAtMs i) (pi_bodyDigest i) \<Longrightarrow>
      hmac secret (transcript i) = hmac secret (transcript j) \<Longrightarrow> transcript i = transcript j"
  shows "verifyDispatchProof hmac maxAge secret r (computeDispatchProof hmac secret i) now = Trusted d \<longleftrightarrow>
    signed_for i r \<and> d = pi_bodyDigest i \<and> (d = None \<or> method_upper (method_of r) \<notin> {''GET'', ''HEAD''}) \<and>
    \<bar>now - int (pi_issuedAtMs i)\<bar> \<le> maxAge"
  using assms by (rule verify_computed)

text \<open>A signed request, and a stand-in for the MAC of which it is the only signed message.\<close>

definition signed_get :: proof_inputs where
  "signed_get = \<lparr>pi_method = ''get'', pi_target = Some (Text ''/a''), pi_authority = Some (Text ''HOST''),
     pi_headers = [''x-mw-evaluated'' \<mapsto> Text ''ran''], pi_names = Some [''cookie''], pi_issuedAtMs = 1000, pi_bodyDigest = None\<rparr>"

definition demo_mac :: "string \<Rightarrow> string \<Rightarrow> string" where
  "demo_mac k m = replicate 32 (if m = transcript signed_get then CHR ''A'' else CHR ''B'')"

definition get_headers :: "(string, node_value) jsmap" where
  "get_headers = [(''host'', Single ''host''), (''x-mw-evaluated'', Single ''ran'')]"

definition get_request :: "(string, node_value) jsmap \<Rightarrow> node_request" where
  "get_request extra = \<lparr>nr_method = None, nr_target = Some ''/a'', nr_headers = get_headers @ extra, nr_names = Some [''cookie'']\<rparr>"

lemma covered_set [simp]:
  "set (proofCoveredHeaderNames ns) =
     set INTERNAL_DISPATCH_HEADERS \<union> set PROOF_COVERED_CONTEXT_HEADERS \<union> set (case ns of Some n \<Rightarrow> n | None \<Rightarrow> [])"
  by (cases ns) (auto simp: proofCoveredHeaderNames_def js_set_def)

lemma demo_signed:
  "signed_for signed_get (get_request [])" "signed_for signed_get (get_request [(INTERNAL_DISPATCH_PROOF_HEADER, v)])"
  "\<not> signed_for signed_get (get_request [(''cookie'', Single [])])"
  by (simp_all add: signed_for_def same_inputs_def signed_get_def get_request_def get_headers_def dispatchProofInputsFromRequest_def
      method_of_def method_upper_def asciiLowerBytes_def ascii_lower_def wireHeaderBytes_def utf8_def utf8_char_def
      INTERNAL_DISPATCH_HEADERS_def PROOF_COVERED_CONTEXT_HEADERS_def INTERNAL_DISPATCH_PROOF_HEADER_def char_of_def bit_0)

lemma demo_mac:
  "length (demo_mac k m) = 32" "demo_mac k (transcript signed_get) = demo_mac k m \<longleftrightarrow> transcript signed_get = m"
  by (auto simp: demo_mac_def)

theorem dispatch_proof_exact_witness:
  "verifyDispatchProof demo_mac 120000 ''k'' (get_request []) (computeDispatchProof demo_mac ''k'' signed_get) 5000 = Trusted None \<and>
   verifyDispatchProof demo_mac 120000 ''k'' (get_request [(''cookie'', Single [])]) (computeDispatchProof demo_mac ''k'' signed_get) 5000 \<noteq> Trusted None"
  using dispatch_proof_exact [of demo_mac "''k''" signed_get "get_request []" 120000 5000 None]
    dispatch_proof_exact [of demo_mac "''k''" signed_get "get_request [(''cookie'', Single [])]" 120000 5000 None] demo_signed
  by (simp add: demo_mac) (simp add: signed_get_def)

text \<open>What leaves the boundary with a dispatch header was trusted, and trust needs a verified proof.\<close>

lemma boundary_trusted:
  assumes "applyIncomingRequestTrustBoundary hmac maxAge udec opts now rq = (t, rq', rep)"
    "n \<in> set INTERNAL_DISPATCH_HEADERS" "map_of (pq_headers rq') n \<noteq> None"
  shows "t"
  using assms by (auto simp: applyIncomingRequestTrustBoundary_def Let_def delete_headers_lookup split: prod.splits if_splits)

lemma trust_needs_proof:
  assumes "establish_trust hmac maxAge udec opts now rq = (True, rq', rep)" "truthy (to_secret opts) = Some k"
  shows "\<exists>p. map_of (pq_headers rq) INTERNAL_DISPATCH_PROOF_HEADER = Some (Single p) \<and>
    verifyDispatchProof hmac maxAge k (node_view opts rq) p now = Trusted (pq_digest rq')"
  using assms
  by (auto simp: establish_trust_def Let_def node_view_def split: option.splits node_value.splits proof_verdict.splits prod.splits bool.splits)

lemma boundary_digest:
  "applyIncomingRequestTrustBoundary hmac maxAge udec opts now rq = (t, rq', rep) \<Longrightarrow>
   \<exists>rq1. establish_trust hmac maxAge udec opts now rq = (t, rq1, rep) \<and> pq_digest rq' = pq_digest rq1"
  by (auto simp: applyIncomingRequestTrustBoundary_def Let_def split: prod.splits)

lemma binding_kept:
  assumes "enforceDispatchBodyBinding sha256 rq body = (ok, rq', rep)" "n \<in> set INTERNAL_DISPATCH_HEADERS" "map_of (pq_headers rq') n \<noteq> None"
  shows "map_of (pq_headers rq) n \<noteq> None \<and> pq_digest rq \<in> {None, Some (sha256 (case body of Some b \<Rightarrow> b | None \<Rightarrow> []))}"
  using assms
  by (auto simp: enforceDispatchBodyBinding_def dispatchProofBodyMatches_def Let_def delete_headers_lookup split: option.splits if_splits)

text \<open>
  C11: only the routing tier can speak the dispatch protocol. Suppose a secret is configured and MACs cannot
  be forged: a tag in the presented credential belongs to a transcript some holder of the secret
  signed. If a dispatch header is still on a request once its body has been read, then its method,
  target, authority and every covered header are those of a transcript that was signed, recently. The
  body is bound only if the signer bound it: the transcript carries the digest of the very body
  received, or no digest at all, and a credential without a digest, which is what the edge signs, can be
  presented again with any body as long as it is fresh.
\<close>

theorem only_signed_dispatch_survives:
  assumes secret: "to_secret opts = Some k" "k \<noteq> []"
    and unforged: "\<And>p m. map_of (pq_headers rq) INTERNAL_DISPATCH_PROOF_HEADER = Some (Single p) \<Longrightarrow>
      last (js_split (CHR ''.'') p) = to_hex (hmac k m) \<Longrightarrow> \<exists>i \<in> signed. transcript i = m"
    and run: "applyIncomingRequestTrustBoundary hmac maxAge udec opts now rq = (t, rq1, rep)"
      "enforceDispatchBodyBinding sha256 rq1 body = (ok, rq2, rep')"
    and n: "n \<in> set INTERNAL_DISPATCH_HEADERS" "map_of (pq_headers rq2) n \<noteq> None"
  shows "\<exists>i \<in> signed. signed_for i (node_view opts rq) \<and> \<bar>now - int (pi_issuedAtMs i)\<bar> \<le> maxAge \<and>
    pi_bodyDigest i \<in> {None, Some (sha256 (case body of Some b \<Rightarrow> b | None \<Rightarrow> []))}"
proof -
  note kept = binding_kept [OF run(2) n]
  have t: t using boundary_trusted [OF run(1) n(1)] kept by blast
  obtain rq' where et: "establish_trust hmac maxAge udec opts now rq = (True, rq', rep)" and dg: "pq_digest rq1 = pq_digest rq'"
    using boundary_digest [OF run(1)] t by auto
  have ts: "truthy (to_secret opts) = Some k" using secret by (simp add: truthy_def split: list.splits)
  obtain p where p: "map_of (pq_headers rq) INTERNAL_DISPATCH_PROOF_HEADER = Some (Single p)"
    "verifyDispatchProof hmac maxAge k (node_view opts rq) p now = Trusted (pq_digest rq1)"
    using trust_needs_proof [OF et ts] unfolding dg by blast
  then obtain u where u: "p = computeDispatchProof hmac k (dispatchProofInputsFromRequest (node_view opts rq) u (pq_digest rq1))"
    "\<bar>now - int u\<bar> \<le> maxAge" unfolding verify_trusted by blast
  let ?j = "dispatchProofInputsFromRequest (node_view opts rq) u (pq_digest rq1)"
  have "last (js_split (CHR ''.'') p) = to_hex (hmac k (transcript ?j))"
    unfolding u(1) computeDispatchProof_def
    by (subst split_join_dots) (auto simp: dot_no_hex DISPATCH_PROOF_PREFIX_def ABSENT_BODY_DIGEST_def split: option.splits)
  from unforged [OF p(1) this] obtain i where i: "i \<in> signed" "same_inputs i ?j" by (auto simp: transcript_inj)
  have e: "pi_issuedAtMs i = u" "pi_bodyDigest i = pq_digest rq1" using i(2) by (simp_all add: same_inputs_def)
  have "signed_for i (node_view opts rq)" using i(2) by (simp only: signed_for_def e)
  then show ?thesis using i(1) u(2) kept e by metis
qed

definition demo_options :: trust_options where
  "demo_options = \<lparr>to_secret = Some ''k'', to_trust = False, to_names = Some [''cookie'']\<rparr>"

definition demo_request :: pool_request where
  "demo_request = \<lparr>pq_method = None, pq_url = Some ''/a'',
     pq_headers = get_headers @ [(INTERNAL_DISPATCH_PROOF_HEADER, Single (computeDispatchProof demo_mac ''k'' signed_get))], pq_digest = None\<rparr>"

lemma demo_verified:
  "verifyDispatchProof demo_mac 120000 ''k'' (node_view demo_options demo_request) (computeDispatchProof demo_mac ''k'' signed_get) 5000 = Trusted None"
proof -
  have "node_view demo_options demo_request =
      get_request [(INTERNAL_DISPATCH_PROOF_HEADER, Single (computeDispatchProof demo_mac ''k'' signed_get))]"
    by (simp add: node_view_def demo_options_def demo_request_def get_request_def)
  then show ?thesis
    using verify_computed [of demo_mac "''k''" signed_get "node_view demo_options demo_request" 120000 5000 None] demo_signed(2)
    by (simp add: demo_mac) (simp add: signed_get_def)
qed

lemma jsmap_set_same: "map_of m k = Some v \<Longrightarrow> jsmap_set k v m = m"
  by (induction m) auto

lemma decode_Some: "decodeAuthenticatedDispatchHeaders Some ns hs = (True, hs)"
proof -
  have "decode_value Some v = Some v" for v
  proof (cases v)
    case (Multi ss)
    then show ?thesis by (induction ss arbitrary: v) (auto simp: decode_value_def)
  qed (simp add: decode_value_def)
  then show ?thesis by (induction ns) (auto simp: jsmap_set_same split: option.splits)
qed

lemma delete_headers_filter: "delete_headers ns hs = filter (\<lambda>(k, _). k \<notin> set ns) hs"
  by (induction ns arbitrary: hs) (auto simp: delete_headers_def jsmap_delete_def intro!: filter_cong)

lemma demo_boundary:
  "applyIncomingRequestTrustBoundary demo_mac 120000 Some demo_options 5000 demo_request = (True, demo_request\<lparr>pq_headers := get_headers\<rparr>, None)"
proof -
  let ?p = "computeDispatchProof demo_mac ''k'' signed_get"
  have rq: "pq_headers demo_request = get_headers @ [(INTERNAL_DISPATCH_PROOF_HEADER, Single ?p)]" "demo_request\<lparr>pq_digest := None\<rparr> = demo_request"
    by (simp_all add: demo_request_def)
  have lookup: "map_of (get_headers @ [(INTERNAL_DISPATCH_PROOF_HEADER, Single ?p)]) INTERNAL_DISPATCH_PROOF_HEADER = Some (Single ?p)"
    by (simp add: get_headers_def INTERNAL_DISPATCH_PROOF_HEADER_def)
  have trust: "establish_trust demo_mac 120000 Some demo_options 5000 demo_request = (True, demo_request, None)"
    using demo_verified lookup
    by (simp add: establish_trust_def rq decode_Some truthy_def demo_options_def) (simp add: demo_request_def)
  have "delete_headers [INTERNAL_SECRET_HEADER, INTERNAL_DISPATCH_PROOF_HEADER] (get_headers @ [(INTERNAL_DISPATCH_PROOF_HEADER, Single ?p)]) = get_headers"
    by (simp add: delete_headers_filter get_headers_def INTERNAL_SECRET_HEADER_def INTERNAL_DISPATCH_PROOF_HEADER_def)
  moreover have "delete_headers UNTRUSTED_NEXT_REQUEST_HEADERS get_headers = get_headers"
    by (simp add: delete_headers_filter get_headers_def UNTRUSTED_NEXT_REQUEST_HEADERS_def)
  moreover have "filter private_middleware (jsmap_keys get_headers) = []" by (simp add: get_headers_def private_middleware_def)
  ultimately show ?thesis by (simp add: applyIncomingRequestTrustBoundary_def trust rq(1)) (simp add: delete_headers_def)
qed

theorem only_signed_dispatch_survives_witness: "signed_for signed_get (node_view demo_options demo_request)"
proof -
  have tag: "m = transcript signed_get" if "last (js_split (CHR ''.'') (computeDispatchProof demo_mac ''k'' signed_get)) = to_hex (demo_mac ''k'' m)" for m
  proof -
    have "last (js_split (CHR ''.'') (computeDispatchProof demo_mac ''k'' signed_get)) = to_hex (demo_mac ''k'' (transcript signed_get))"
      unfolding computeDispatchProof_def
      by (subst split_join_dots) (auto simp: dot_no_hex DISPATCH_PROOF_PREFIX_def ABSENT_BODY_DIGEST_def split: option.splits)
    then show ?thesis using that demo_mac(2) to_hex_inj by metis
  qed
  have h: "map_of (pq_headers demo_request) INTERNAL_DISPATCH_PROOF_HEADER = Some (Single (computeDispatchProof demo_mac ''k'' signed_get))"
    by (simp add: demo_request_def get_headers_def INTERNAL_DISPATCH_PROOF_HEADER_def)
  have "\<exists>i \<in> {signed_get}. signed_for i (node_view demo_options demo_request) \<and> \<bar>5000 - int (pi_issuedAtMs i)\<bar> \<le> 120000 \<and>
      pi_bodyDigest i \<in> {None, Some ((\<lambda>_. ''d'') (case None of Some b \<Rightarrow> b | None \<Rightarrow> []))}"
    by (rule only_signed_dispatch_survives [where n = "''x-mw-evaluated''" and k = "''k''", OF _ _ _ demo_boundary])
      (auto simp: demo_options_def h enforceDispatchBodyBinding_def demo_request_def get_headers_def INTERNAL_DISPATCH_HEADERS_def
         INTERNAL_DISPATCH_PROOF_HEADER_def dest: tag)
  then show ?thesis by simp
qed

end
