(* ===== verification/Middleware.thy ===== *)
theory Middleware
  imports DispatchProof
begin

text \<open>
  The middleware matchers of \<^verbatim>\<open>src/routing-common.ts\<close>: the analysis that refuses patterns which can
  backtrack exponentially, the \<open>has\<close>/\<open>missing\<close> conditions, and the decision whether middleware runs.
  \<open>compile\<close> stands for \<open>new RegExp(source)\<close> followed by \<open>test\<close> (\<open>None\<close> where it throws), \<open>decode\<close> for
  \<open>decodeURIComponent\<close>, \<open>isSafe\<close> for the verdict of \<open>redos-detector\<close> (\<open>None\<close> where it throws). The two
  compilation caches are keyed by the text they compile and hold what compiling it again would give.
\<close>

section \<open>Pattern analysis\<close>

datatype hazard = NestedQuantifier | Alternation

record pattern_group =
  pg_open :: nat
  pg_alternation :: bool
  pg_quantifier :: bool

abbreviation BACKSLASH :: char where "BACKSLASH \<equiv> CHR 0x5C"

definition quantifier_char :: "char \<Rightarrow> bool" where
  "quantifier_char c = (c \<in> {CHR ''+'', CHR ''*'', CHR ''?'', CHR ''{''})"

definition absorb :: "bool \<Rightarrow> bool \<Rightarrow> pattern_group list \<Rightarrow> pattern_group list" where
  "absorb alternation quantifier groups =
     (case groups of
        [] \<Rightarrow> []
      | g # gs \<Rightarrow> g\<lparr>pg_alternation := pg_alternation g \<or> alternation, pg_quantifier := pg_quantifier g \<or> quantifier\<rparr> # gs)"

function scan_groups :: "string \<Rightarrow> nat \<Rightarrow> pattern_group list \<Rightarrow> bool \<Rightarrow> hazard option" where
  "scan_groups [] i groups inClass = None"
| "scan_groups (ch # s) i groups inClass =
     (if ch = BACKSLASH then scan_groups (tl s) (i + 2) groups inClass
      else if inClass then scan_groups s (i + 1) groups (ch \<noteq> CHR '']'')
      else if ch = CHR ''['' then scan_groups s (i + 1) groups True
      else if ch = CHR ''('' then scan_groups s (i + 1) (\<lparr>pg_open = i, pg_alternation = False, pg_quantifier = False\<rparr> # groups) False
      else if ch = CHR ''|'' \<and> groups \<noteq> [] then scan_groups s (i + 1) (absorb True False groups) False
      else if groups \<noteq> [] \<and> quantifier_char ch \<and> \<not> (ch = CHR ''?'' \<and> pg_open (hd groups) + 1 = i)
      then scan_groups s (i + 1) (absorb False True groups) False
      else if ch \<noteq> CHR '')'' \<or> groups = [] then scan_groups s (i + 1) groups False
      else
        let group = hd groups;
            quantified = (s \<noteq> [] \<and> quantifier_char (hd s));
            repeated = (quantified \<and> hd s \<noteq> CHR ''?'')
        in if repeated \<and> pg_quantifier group then Some NestedQuantifier
           else if repeated \<and> pg_alternation group then Some Alternation
           else scan_groups s (i + 1) (absorb (pg_alternation group) (pg_quantifier group \<or> quantified) (tl groups)) False)"
  by pat_completeness simp_all
termination
  by (relation "measure (\<lambda>(s, _). length s)") simp_all

declare scan_groups.simps [simp del]

definition quantifiedGroupHazard :: "string \<Rightarrow> hazard option" where
  "quantifiedGroupHazard value = scan_groups value 0 [] False"

text \<open>\<open>value.replace(/\(\?<[$A-Z_a-z][$\w]*>/g, "(")\<close>.\<close>

definition name_start :: "char \<Rightarrow> bool" where
  "name_start c = (lower c \<or> upper c \<or> c \<in> {CHR ''$'', CHR ''_''})"

definition name_part :: "char \<Rightarrow> bool" where
  "name_part c = (name_start c \<or> dec_digit c)"

definition strip_name :: "string \<Rightarrow> string option" where
  "strip_name s =
     (if prefix ''(?<'' s then
        (case drop 3 s of
           c # r \<Rightarrow> if name_start c then
                       (case dropWhile name_part r of d # r' \<Rightarrow> if d = CHR ''>'' then Some r' else None | [] \<Rightarrow> None)
                     else None
         | [] \<Rightarrow> None)
      else None)"

lemma strip_name_shorter: "strip_name s = Some r \<Longrightarrow> length r < length s"
proof -
  assume r: "strip_name s = Some r"
  then obtain c u where c: "drop 3 s = c # u" by (auto simp: strip_name_def split: if_splits list.splits)
  then obtain d where "dropWhile name_part u = d # r" using r by (auto simp: strip_name_def split: if_splits list.splits)
  then have "length r < length u" using length_dropWhile_le [of name_part u] by simp
  moreover have "length (drop 3 s) = Suc (length u)" using c by simp
  ultimately show ?thesis by simp
qed

function strip_group_names :: "string \<Rightarrow> string" where
  "strip_group_names s =
     (case s of
        [] \<Rightarrow> []
      | c # t \<Rightarrow> (case strip_name s of Some r \<Rightarrow> CHR ''('' # strip_group_names r | None \<Rightarrow> c # strip_group_names t))"
  by pat_completeness auto
termination
  by (relation "measure length") (auto dest: strip_name_shorter)

declare strip_group_names.simps [simp del]

datatype unsafe_reason = TooLong | NestedGroup | AlternatingGroup | NamedBackreference | Ambiguous | Unanalysable

definition unsafeConditionPattern :: "(string \<Rightarrow> bool option) \<Rightarrow> string \<Rightarrow> unsafe_reason option" where
  "unsafeConditionPattern isSafe value =
     (if length value > 4096 then Some TooLong
      else
        (case quantifiedGroupHazard value of
           Some NestedQuantifier \<Rightarrow> Some NestedGroup
         | Some Alternation \<Rightarrow> Some AlternatingGroup
         | None \<Rightarrow>
             if sublist [BACKSLASH, CHR ''k'', CHR ''<''] value then Some NamedBackreference
             else (case isSafe (CHR ''^'' # strip_group_names value @ ''$'') of
                     None \<Rightarrow> Some Unanalysable
                   | Some safe \<Rightarrow> if safe then None else Some Ambiguous)))"

definition conditionRegex ::
    "(string \<Rightarrow> (string \<Rightarrow> bool) option) \<Rightarrow> (string \<Rightarrow> bool option) \<Rightarrow> string \<Rightarrow> (string \<Rightarrow> bool) option" where
  "conditionRegex compile isSafe value =
     (if unsafeConditionPattern isSafe value \<noteq> None then None else compile (CHR ''^'' # value @ ''$''))"

section \<open>Conditions and matchers\<close>

record engine =
  compile :: "string \<Rightarrow> (string \<Rightarrow> bool) option"
  isSafe :: "string \<Rightarrow> bool option"
  decode :: "string \<Rightarrow> string option"

definition unquote :: "string \<Rightarrow> string" where
  "unquote v = (if v \<noteq> [] \<and> hd v = CHR 0x22 \<and> last v = CHR 0x22 then js_slice v 1 (- 1) else v)"

fun cookie_value :: "engine \<Rightarrow> string \<Rightarrow> string list \<Rightarrow> string option" where
  "cookie_value E key [] = None"
| "cookie_value E key (part # parts) =
     (case js_split (CHR ''='') (js_trim part) of
        k # v \<Rightarrow>
          if k = key then
            let value = unquote (js_trim (js_join ''='' v))
            in Some (case decode E value of Some d \<Rightarrow> d | None \<Rightarrow> value)
          else cookie_value E key parts
      | [] \<Rightarrow> cookie_value E key parts)"

definition condition_actual :: "engine \<Rightarrow> route_condition \<Rightarrow> web_headers \<Rightarrow> url \<Rightarrow> string option" where
  "condition_actual E cond headers url =
     (case rc_type cond of
        HeaderCond \<Rightarrow> Option.bind (truthy (rc_key cond)) (\<lambda>k. headers (js_lower k))
      | QueryCond \<Rightarrow>
          Option.bind (truthy (rc_key cond)) (\<lambda>k.
            case map snd (filter (\<lambda>(k', _). k' = k) (url_params url)) of [] \<Rightarrow> None | vs \<Rightarrow> Some (last vs))
      | CookieCond \<Rightarrow>
          (case (truthy (headers ''cookie''), truthy (rc_key cond)) of
             (Some cookie, Some k) \<Rightarrow> cookie_value E k (js_split (CHR '';'') cookie)
           | _ \<Rightarrow> None)
      | HostCond \<Rightarrow> Some (url_hostname url))"

definition conditionPresent :: "engine \<Rightarrow> route_condition \<Rightarrow> web_headers \<Rightarrow> url \<Rightarrow> bool" where
  "conditionPresent E cond headers url =
     (case truthy (condition_actual E cond headers url) of
        None \<Rightarrow> False
      | Some actual \<Rightarrow>
          (case truthy (rc_value cond) of
             None \<Rightarrow> True
           | Some value \<Rightarrow>
               (case conditionRegex (compile E) (isSafe E) value of None \<Rightarrow> value = actual | Some re \<Rightarrow> re actual)))"

definition matcher_paths :: "engine \<Rightarrow> url \<Rightarrow> string list" where
  "matcher_paths E url =
     url_pathname url #
     (case decode E (url_pathname url) of Some d \<Rightarrow> if d \<noteq> url_pathname url then [d] else [] | None \<Rightarrow> [])"

definition source_matches :: "engine \<Rightarrow> middleware_matcher \<Rightarrow> url \<Rightarrow> bool" where
  "source_matches E m url = (case compile E (mm_regexp m) of None \<Rightarrow> True | Some re \<Rightarrow> list_ex re (matcher_paths E url))"

definition matchesMiddleware :: "engine \<Rightarrow> middleware_matcher list \<Rightarrow> url \<Rightarrow> web_headers \<Rightarrow> bool" where
  "matchesMiddleware E matchers url headers =
     (matchers = [] \<or>
      list_ex (\<lambda>m. source_matches E m url
        \<and> list_all (\<lambda>c. conditionPresent E c headers url) (mm_has m)
        \<and> list_all (\<lambda>c. \<not> conditionPresent E c headers url) (mm_missing m)) matchers)"

definition middlewareMayCoverPath :: "engine \<Rightarrow> middleware_matcher list \<Rightarrow> url \<Rightarrow> bool" where
  "middlewareMayCoverPath E matchers url = (matchers = [] \<or> list_ex (\<lambda>m. source_matches E m url) matchers)"

section \<open>Which headers a verdict depends on\<close>

lemma condition_agree:
  assumes "\<forall>n \<in> set (condition_names c). h n = h' n"
  shows "conditionPresent E c h url = conditionPresent E c h' url"
proof -
  have "condition_actual E c h url = condition_actual E c h' url"
    using assms by (cases "rc_type c"; cases "truthy (rc_key c)") (auto simp: condition_actual_def condition_names_def)
  then show ?thesis by (simp add: conditionPresent_def)
qed

lemma matcher_names_covered:
  assumes "m \<in> set ms" "c \<in> set (mm_has m) \<union> set (mm_missing m)" "n \<in> set (condition_names c)"
  shows "n \<in> set (matcherProofHeaderNames ms) \<union> set PROOF_EXCLUDED_MATCHER_HEADERS"
  using assms by (auto simp: matcherProofHeaderNames_def js_set_def)

lemma matches_agree:
  assumes "\<forall>n \<in> set (matcherProofHeaderNames ms) \<union> set PROOF_EXCLUDED_MATCHER_HEADERS. h n = h' n"
  shows "matchesMiddleware E ms url h = matchesMiddleware E ms url h'"
proof -
  have "conditionPresent E c h url = conditionPresent E c h' url" if "m \<in> set ms" "c \<in> set (mm_has m) \<union> set (mm_missing m)" for m c
    using matcher_names_covered [OF that] assms by (intro condition_agree) blast
  then show ?thesis by (auto simp: matchesMiddleware_def list_ex_iff list_all_iff)
qed

lemma matches_may_cover: "matchesMiddleware E ms url h \<Longrightarrow> middlewareMayCoverPath E ms url"
  by (auto simp: matchesMiddleware_def middlewareMayCoverPath_def list_ex_iff)

text \<open>The header values of a request, as its tier materialises them.\<close>

definition request_headers :: "node_request \<Rightarrow> web_headers" where
  "request_headers r n = wireHeaderBytes n (map_of (nr_headers r) n)"

lemma signed_header:
  assumes "signed_for i r" "n \<in> set (proofCoveredHeaderNames (nr_names r))"
  shows "map_option value_bytes (pi_headers i n) = request_headers r n"
proof -
  have "map_option value_bytes (map_option Octets v) = v" for v by (cases v) auto
  moreover have "map_option value_bytes (pi_headers i n) =
      map_option value_bytes (map_option Octets (wireHeaderBytes n (map_of (nr_headers r) n)))"
    using assms by (simp add: signed_for_def same_inputs_def dispatchProofInputsFromRequest_def del: covered_set)
  ultimately show ?thesis by (simp add: request_headers_def)
qed

lemma build_names_covered: "set (matcherProofHeaderNames ms) \<subseteq> set (proofCoveredHeaderNames (Some (buildProofHeaderNames ms rsc)))"
  by (auto simp: buildProofHeaderNames_def js_set_def)

text \<open>
  C12: a middleware verdict cannot be lifted onto a request with other headers. If one proof is valid for
  two requests whose names the same build supplied, then its middleware matchers, source patterns and
  \<open>has\<close>/\<open>missing\<close> conditions included, decide the same for both at the same URL, whatever their other headers
  hold, provided the two agree on the headers of \<open>PROOF_EXCLUDED_MATCHER_HEADERS\<close>. A matcher may read those
  (the trace headers, which the tiers rewrite), and the proof does not bind them.
\<close>

theorem verdict_cannot_be_lifted:
  assumes "signed_for i r" "signed_for i r'"
    and "nr_names r = Some (buildProofHeaderNames ms rsc)" "nr_names r' = Some (buildProofHeaderNames ms rsc)"
    and "\<And>n. n \<in> set PROOF_EXCLUDED_MATCHER_HEADERS \<Longrightarrow> request_headers r n = request_headers r' n"
  shows "matchesMiddleware E ms url (request_headers r) = matchesMiddleware E ms url (request_headers r')"
proof (rule matches_agree, rule ballI)
  fix n
  assume "n \<in> set (matcherProofHeaderNames ms) \<union> set PROOF_EXCLUDED_MATCHER_HEADERS"
  then show "request_headers r n = request_headers r' n"
  proof
    assume "n \<in> set (matcherProofHeaderNames ms)"
    then have "n \<in> set (proofCoveredHeaderNames (nr_names r))" "n \<in> set (proofCoveredHeaderNames (nr_names r'))"
      using build_names_covered assms(3,4) by (metis subsetD)+
    then show ?thesis using signed_header [OF assms(1)] signed_header [OF assms(2)] by metis
  qed (rule assms(5))
qed

definition cookie_matcher :: middleware_matcher where
  "cookie_matcher = \<lparr>mm_regexp = ''^/a$'', mm_has = [], mm_missing = [\<lparr>rc_type = CookieCond, rc_key = Some ''session'', rc_value = None\<rparr>]\<rparr>"

definition demo_engine :: engine where
  "demo_engine = \<lparr>compile = (\<lambda>_. Some (\<lambda>_. True)), isSafe = (\<lambda>_. Some True), decode = Some\<rparr>"

lemma cookie_names: "buildProofHeaderNames [cookie_matcher] None = [''cookie'']"
  by (simp add: buildProofHeaderNames_def matcherProofHeaderNames_def rscProofHeaderNames_def cookie_matcher_def condition_names_def js_set_def
      PROOF_EXCLUDED_MATCHER_HEADERS_def INTERNAL_DISPATCH_HEADERS_def UNTRUSTED_NEXT_REQUEST_HEADERS_def INTERNAL_SECRET_HEADER_def
      INTERNAL_DISPATCH_PROOF_HEADER_def)

theorem verdict_cannot_be_lifted_witness:
  "matchesMiddleware demo_engine [cookie_matcher] \<lparr>url_pathname = ''/a'', url_hostname = ''host'', url_params = []\<rparr> (request_headers (get_request [])) =
   matchesMiddleware demo_engine [cookie_matcher] \<lparr>url_pathname = ''/a'', url_hostname = ''host'', url_params = []\<rparr>
     (request_headers (get_request [(''accept'', Single ''text/html'')]))"
proof (rule verdict_cannot_be_lifted [where i = signed_get and rsc = None])
  show "signed_for signed_get (get_request [(''accept'', Single ''text/html'')])"
    by (simp add: signed_for_def same_inputs_def signed_get_def get_request_def get_headers_def dispatchProofInputsFromRequest_def
        method_of_def method_upper_def asciiLowerBytes_def ascii_lower_def wireHeaderBytes_def utf8_def utf8_char_def
        INTERNAL_DISPATCH_HEADERS_def PROOF_COVERED_CONTEXT_HEADERS_def char_of_def bit_0)
  show "request_headers (get_request []) n = request_headers (get_request [(''accept'', Single ''text/html'')]) n"
    if "n \<in> set PROOF_EXCLUDED_MATCHER_HEADERS" for n
  proof -
    have "n \<noteq> ''accept''" using that
      by (auto simp: PROOF_EXCLUDED_MATCHER_HEADERS_def INTERNAL_DISPATCH_HEADERS_def UNTRUSTED_NEXT_REQUEST_HEADERS_def
          INTERNAL_SECRET_HEADER_def INTERNAL_DISPATCH_PROOF_HEADER_def)
    then show ?thesis by (simp add: request_headers_def get_request_def map_add_def split: option.splits)
  qed
qed (rule demo_signed(1), simp_all add: cookie_names get_request_def)

section \<open>Pattern analysis against syntax trees\<close>

text \<open>
  The regular expressions of the grammar, printed the way an author writes them. A group's prefix is
  what follows its parenthesis (\<open>?:\<close>, \<open>?=\<close>, \<open>?<name>\<close>, or nothing); a class is a list of plain and escaped
  characters; a quantifier is its character or its bounds, and may be made lazy by a question mark after it.
\<close>

datatype class_item = Plain char | Escaped char

datatype atom_kind = IsLiteral char | IsEscape char | IsClass "class_item list"

datatype quantifier = Star_Q | Plus_Q | Optional_Q | Bounds_Q string | Lazy_Q quantifier

datatype pattern =
    Empty
  | Leaf atom_kind
  | Group string pattern
  | Quantified pattern quantifier
  | Then pattern pattern
  | Either pattern pattern

primrec print_item :: "class_item \<Rightarrow> string" where
  "print_item (Plain c) = [c]"
| "print_item (Escaped c) = [BACKSLASH, c]"

primrec print_atom :: "atom_kind \<Rightarrow> string" where
  "print_atom (IsLiteral c) = [c]"
| "print_atom (IsEscape c) = [BACKSLASH, c]"
| "print_atom (IsClass items) = CHR ''['' # concat (map print_item items) @ '']''"

primrec print_quantifier :: "quantifier \<Rightarrow> string" where
  "print_quantifier Star_Q = ''*''"
| "print_quantifier Plus_Q = ''+''"
| "print_quantifier Optional_Q = ''?''"
| "print_quantifier (Bounds_Q b) = CHR ''{'' # b @ ''}''"
| "print_quantifier (Lazy_Q q) = print_quantifier q @ ''?''"

primrec print_pattern :: "pattern \<Rightarrow> string" where
  "print_pattern Empty = []"
| "print_pattern (Leaf a) = print_atom a"
| "print_pattern (Group pre p) = CHR ''('' # pre @ print_pattern p @ '')''"
| "print_pattern (Quantified p q) = print_pattern p @ print_quantifier q"
| "print_pattern (Then p q) = print_pattern p @ print_pattern q"
| "print_pattern (Either p q) = print_pattern p @ CHR ''|'' # print_pattern q"

definition meta :: "char \<Rightarrow> bool" where
  "meta c = (c = BACKSLASH \<or> c \<in> set ''[(|+*?{)'')"

definition group_prefix :: "string \<Rightarrow> bool" where
  "group_prefix s = (s = [] \<or> hd s = CHR ''?'' \<and> list_all (\<lambda>c. \<not> meta c) (tl s))"

primrec item_ok :: "class_item \<Rightarrow> bool" where
  "item_ok (Plain c) = (c \<noteq> BACKSLASH \<and> c \<noteq> CHR '']'')"
| "item_ok (Escaped c) = True"

primrec atom_ok :: "atom_kind \<Rightarrow> bool" where
  "atom_ok (IsLiteral c) = (\<not> meta c)"
| "atom_ok (IsEscape c) = True"
| "atom_ok (IsClass items) = list_all item_ok items"

primrec quantifier_ok :: "quantifier \<Rightarrow> bool" where
  "quantifier_ok Star_Q = True"
| "quantifier_ok Plus_Q = True"
| "quantifier_ok Optional_Q = True"
| "quantifier_ok (Bounds_Q b) = list_all (\<lambda>c. \<not> meta c) b"
| "quantifier_ok (Lazy_Q q) = (quantifier_ok q \<and> (\<forall>r. q \<noteq> Lazy_Q r))"

text \<open>At most one repetition.\<close>

primrec at_most_once :: "quantifier \<Rightarrow> bool" where
  "at_most_once Star_Q = False"
| "at_most_once Plus_Q = False"
| "at_most_once Optional_Q = True"
| "at_most_once (Bounds_Q b) = False"
| "at_most_once (Lazy_Q q) = at_most_once q"

primrec pattern_ok :: "pattern \<Rightarrow> bool" where
  "pattern_ok Empty = True"
| "pattern_ok (Leaf a) = atom_ok a"
| "pattern_ok (Group pre p) = (group_prefix pre \<and> pattern_ok p)"
| "pattern_ok (Quantified p q) =
     (pattern_ok p \<and> (case p of Leaf _ \<Rightarrow> True | Group _ _ \<Rightarrow> True | _ \<Rightarrow> False) \<and> quantifier_ok q)"
| "pattern_ok (Then p q) = (pattern_ok p \<and> pattern_ok q)"
| "pattern_ok (Either p q) = (pattern_ok p \<and> pattern_ok q)"

primrec has_quantifier :: "pattern \<Rightarrow> bool" where
  "has_quantifier Empty = False"
| "has_quantifier (Leaf a) = False"
| "has_quantifier (Group pre p) = has_quantifier p"
| "has_quantifier (Quantified p q) = True"
| "has_quantifier (Then p q) = (has_quantifier p \<or> has_quantifier q)"
| "has_quantifier (Either p q) = (has_quantifier p \<or> has_quantifier q)"

primrec has_alternation :: "pattern \<Rightarrow> bool" where
  "has_alternation Empty = False"
| "has_alternation (Leaf a) = False"
| "has_alternation (Group pre p) = has_alternation p"
| "has_alternation (Quantified p q) = has_alternation p"
| "has_alternation (Then p q) = (has_alternation p \<or> has_alternation q)"
| "has_alternation (Either p q) = True"

text \<open>A repeated group with a quantifier or an alternative somewhere inside; the innermost first, from the left.\<close>

definition orelse :: "'a option \<Rightarrow> 'a option \<Rightarrow> 'a option" where
  "orelse x y = (case x of None \<Rightarrow> y | Some a \<Rightarrow> Some a)"

primrec tree_hazard :: "pattern \<Rightarrow> hazard option" where
  "tree_hazard Empty = None"
| "tree_hazard (Leaf a) = None"
| "tree_hazard (Group pre p) = tree_hazard p"
| "tree_hazard (Quantified p q) =
     orelse (tree_hazard p)
       (case p of
          Group _ b \<Rightarrow>
            if at_most_once q then None
            else if has_quantifier b then Some NestedQuantifier
            else if has_alternation b then Some Alternation else None
        | _ \<Rightarrow> None)"
| "tree_hazard (Then p q) = orelse (tree_hazard p) (tree_hazard q)"
| "tree_hazard (Either p q) = orelse (tree_hazard p) (tree_hazard q)"

lemma absorb_simps [simp]:
  "absorb a b [] = []" "absorb a b gs = [] \<longleftrightarrow> gs = []" "absorb False False gs = gs"
  "absorb a b (absorb c d gs) = absorb (c \<or> a) (d \<or> b) gs" "gs \<noteq> [] \<Longrightarrow> pg_open (hd (absorb a b gs)) = pg_open (hd gs)"
  by (auto simp: absorb_def split: list.splits)

lemma orelse_simps [simp]: "orelse None y = y" "orelse (Some a) y = Some a" "orelse (orelse x y) z = orelse x (orelse y z)"
  by (simp_all add: orelse_def split: option.splits)

lemma meta_simps [simp]: "meta BACKSLASH" "quantifier_char c \<Longrightarrow> meta c" "meta (CHR ''['')" "meta (CHR ''('')" "meta (CHR ''|'')" "meta (CHR '')'')"
  by (auto simp: meta_def quantifier_char_def)

lemma scan_plain_char: "\<not> meta c \<Longrightarrow> scan_groups (c # s) i gs False = scan_groups s (i + 1) gs False"
  by (subst scan_groups.simps) (auto simp: meta_def quantifier_char_def)

lemma scan_plain_text: "list_all (\<lambda>c. \<not> meta c) b \<Longrightarrow> scan_groups (b @ s) i gs False = scan_groups s (i + length b) gs False"
  by (induction b arbitrary: i) (simp_all add: scan_plain_char)

lemma scan_class_items:
  "list_all item_ok items \<Longrightarrow>
   scan_groups (concat (map print_item items) @ CHR '']'' # s) i gs True =
   scan_groups s (i + length (concat (map print_item items)) + 1) gs False"
proof (induction items arbitrary: i)
  case Nil
  then show ?case by (simp add: scan_groups.simps)
next
  case (Cons it items)
  have "scan_groups (print_item it @ t) i gs True = scan_groups t (i + length (print_item it)) gs True" for t
    using Cons.prems by (cases it) (simp_all add: scan_groups.simps)
  then show ?case using Cons.IH [of "i + length (print_item it)"] Cons.prems by (simp add: algebra_simps)
qed

lemma scan_atom: "atom_ok a \<Longrightarrow> scan_groups (print_atom a @ s) i gs False = scan_groups s (i + length (print_atom a)) gs False"
proof (cases a)
  case (IsClass items)
  assume "atom_ok a"
  moreover have "scan_groups (CHR ''['' # t) i gs False = scan_groups t (i + 1) gs True" for t
    by (subst scan_groups.simps) simp
  ultimately show ?thesis using scan_class_items [of items s "i + 1"] IsClass by (simp add: algebra_simps)
next
  case (IsEscape c)
  then show ?thesis by (simp add: scan_groups.simps)
qed (simp add: scan_plain_char)

lemma scan_quantifier_char:
  assumes "quantifier_char c" "gs \<noteq> [] \<Longrightarrow> pg_open (hd gs) + 1 < i"
  shows "scan_groups (c # s) i gs False = scan_groups s (i + 1) (absorb False True gs) False"
proof (cases gs)
  case Nil
  then show ?thesis using assms(1) by (subst scan_groups.simps) (auto simp: quantifier_char_def)
next
  case (Cons g gs')
  then have "\<not> (c = CHR ''?'' \<and> pg_open (hd gs) + 1 = i)" "gs \<noteq> []" using assms(2) by auto
  then show ?thesis using assms(1) by (subst scan_groups.simps) (auto simp: quantifier_char_def)
qed

definition quantified_by :: "string \<Rightarrow> bool" where
  "quantified_by s = (s \<noteq> [] \<and> quantifier_char (hd s))"

lemma scan_quantifier:
  assumes "quantifier_ok q" "gs \<noteq> [] \<Longrightarrow> pg_open (hd gs) + 1 < i"
  shows "scan_groups (print_quantifier q @ s) i gs False =
    scan_groups s (i + length (print_quantifier q)) (absorb False True gs) False"
  using assms
proof (induction q arbitrary: s)
  case (Bounds_Q b)
  have "\<not> meta (CHR ''}'')" by (simp add: meta_def)
  then have "list_all (\<lambda>c. \<not> meta c) (b @ ''}'')" using Bounds_Q by simp
  from scan_plain_text [OF this, of s "i + 1"] show ?case
    using Bounds_Q by (simp add: scan_quantifier_char quantifier_char_def algebra_simps)
next
  case (Lazy_Q q)
  have "gs \<noteq> [] \<Longrightarrow> pg_open (hd (absorb False True gs)) + 1 < i + length (print_quantifier q)"
    using Lazy_Q.prems(2) by simp
  then have "scan_groups (CHR ''?'' # s) (i + length (print_quantifier q)) (absorb False True gs) False
      = scan_groups s (i + length (print_quantifier q) + 1) (absorb False True gs) False"
    using scan_quantifier_char [of "CHR ''?''" "absorb False True gs" "i + length (print_quantifier q)" s]
    by (simp add: quantifier_char_def)
  then show ?case using Lazy_Q by simp
qed (simp_all add: scan_quantifier_char quantifier_char_def)

lemma quantifier_start:
  "quantified_by (print_quantifier q @ s) \<and> (hd (print_quantifier q @ s) = CHR ''?'' \<longleftrightarrow> at_most_once q)"
proof (induction q arbitrary: s)
  case (Lazy_Q q)
  then show ?case using Lazy_Q [of "''?'' @ s"] by simp
qed (simp_all add: quantified_by_def quantifier_char_def)

text \<open>A group, with whatever follows it.\<close>

definition group_verdict :: "pattern \<Rightarrow> string \<Rightarrow> hazard option" where
  "group_verdict b s =
     (if quantified_by s \<and> hd s \<noteq> CHR ''?'' then
        if has_quantifier b then Some NestedQuantifier else if has_alternation b then Some Alternation else None
      else None)"

lemma scan_close:
  assumes "g = \<lparr>pg_open = k, pg_alternation = has_alternation b, pg_quantifier = has_quantifier b\<rparr>"
  shows "scan_groups (CHR '')'' # s) i (g # gs) False =
    orelse (group_verdict b s) (scan_groups s (i + 1) (absorb (has_alternation b) (has_quantifier b \<or> quantified_by s) gs) False)"
  using assms by (subst scan_groups.simps) (auto simp: group_verdict_def quantified_by_def quantifier_char_def)

definition scans_as :: "pattern \<Rightarrow> bool" where
  "scans_as p \<longleftrightarrow> (\<forall>s i gs. \<not> quantified_by s \<longrightarrow> (gs \<noteq> [] \<longrightarrow> pg_open (hd gs) < i) \<longrightarrow>
     scan_groups (print_pattern p @ s) i gs False =
     orelse (tree_hazard p) (scan_groups s (i + length (print_pattern p)) (absorb (has_alternation p) (has_quantifier p) gs) False))"

lemma scan_group:
  assumes "scans_as b" "group_prefix pre"
  shows "scan_groups (print_pattern (Group pre b) @ s) i gs False =
    orelse (tree_hazard b) (orelse (group_verdict b s)
      (scan_groups s (i + length (print_pattern (Group pre b))) (absorb (has_alternation b) (has_quantifier b \<or> quantified_by s) gs) False))"
proof -
  let ?g = "\<lparr>pg_open = i, pg_alternation = False, pg_quantifier = False\<rparr>" and ?j = "i + 1 + length pre"
  have "scan_groups (CHR ''('' # t) i gs False = scan_groups t (i + 1) (?g # gs) False" for t
    by (subst scan_groups.simps) simp
  moreover have "scan_groups (pre @ t) (i + 1) (?g # gs) False = scan_groups t ?j (?g # gs) False" for t
  proof (cases pre)
    case (Cons c r)
    have "scan_groups (CHR ''?'' # r @ t) (i + 1) (?g # gs) False = scan_groups (r @ t) (i + 2) (?g # gs) False"
      by (subst scan_groups.simps) (simp add: quantifier_char_def)
    then show ?thesis using scan_plain_text [of r t "i + 2" "?g # gs"] assms(2) Cons by (simp add: group_prefix_def)
  qed simp
  moreover have "scan_groups (print_pattern b @ CHR '')'' # s) ?j (?g # gs) False =
      orelse (tree_hazard b) (scan_groups (CHR '')'' # s) (?j + length (print_pattern b)) (absorb (has_alternation b) (has_quantifier b) (?g # gs)) False)"
    using assms(1) by (simp add: scans_as_def quantified_by_def quantifier_char_def)
  moreover have "absorb (has_alternation b) (has_quantifier b) (?g # gs) =
      \<lparr>pg_open = i, pg_alternation = has_alternation b, pg_quantifier = has_quantifier b\<rparr> # gs" by (simp add: absorb_def)
  ultimately show ?thesis using scan_close [OF refl, where k = i and b = b and s = s and i = "?j + length (print_pattern b)" and gs = gs] by (simp add: algebra_simps)
qed

lemma print_atom_ne: "print_atom a \<noteq> []"
  by (cases a) auto

lemma scans_quantified:
  assumes "pattern_ok (Quantified p q)" "\<And>pre b. p = Group pre b \<Longrightarrow> scans_as b"
  shows "scans_as (Quantified p q)"
  unfolding scans_as_def
proof (intro allI impI)
  fix s i and gs :: "pattern_group list"
  assume s: "\<not> quantified_by s" and open_lt: "gs \<noteq> [] \<longrightarrow> pg_open (hd gs) < i"
  have q: "quantified_by (print_quantifier q @ s)" "hd (print_quantifier q @ s) = CHR ''?'' \<longleftrightarrow> at_most_once q"
    using quantifier_start by blast+
  let ?k = "i + length (print_pattern p)"
  have ne: "print_pattern p \<noteq> []" using assms(1) print_atom_ne by (cases p) auto
  have sq: "scan_groups (print_quantifier q @ s) ?k (absorb a b gs) False =
      scan_groups s (?k + length (print_quantifier q)) (absorb a True gs) False" for a b
    using scan_quantifier [of q "absorb a b gs" ?k s] assms(1) open_lt ne by (cases "gs = []") (auto simp: Suc_le_eq neq_Nil_conv)
  show "scan_groups (print_pattern (Quantified p q) @ s) i gs False =
      orelse (tree_hazard (Quantified p q)) (scan_groups s (i + length (print_pattern (Quantified p q)))
        (absorb (has_alternation (Quantified p q)) (has_quantifier (Quantified p q)) gs) False)"
  proof (cases p)
    case (Leaf a)
    then show ?thesis using assms(1) sq [of False False] by (simp add: scan_atom algebra_simps)
  next
    case (Group pre b)
    then have "group_prefix pre" "scans_as b" using assms by auto
    from scan_group [OF this(2,1), of "print_quantifier q @ s" i gs] show ?thesis
      using Group sq [of "has_alternation b" True] q by (simp add: group_verdict_def algebra_simps)
  qed (use assms(1) in auto)
qed

lemma scans_either_part: "quantified_by (CHR ''|'' # s) = False" "\<not> quantified_by s \<Longrightarrow> print_pattern p = [] \<Longrightarrow> \<not> quantified_by (print_pattern p @ s)"
  by (simp_all add: quantified_by_def quantifier_char_def)

lemma print_start: "pattern_ok p \<Longrightarrow> \<not> quantified_by s \<Longrightarrow> \<not> quantified_by (print_pattern p @ s)"
proof (induction p arbitrary: s)
  case (Leaf a)
  then show ?case by (cases a) (auto simp: quantified_by_def quantifier_char_def meta_def)
next
  case (Quantified p q)
  then show ?case
  proof (cases p)
    case (Leaf a)
    then show ?thesis using Quantified.prems by (cases a) (auto simp: quantified_by_def quantifier_char_def meta_def)
  qed (auto simp: quantified_by_def quantifier_char_def)
next
  case (Either p q)
  then show ?case by (simp add: scans_either_part)
next
  case (Then p q)
  then show ?case by simp
qed (simp_all add: quantified_by_def quantifier_char_def)

lemma scans_pattern: "pattern_ok p \<Longrightarrow> scans_as p \<and> (\<forall>pre b. p = Group pre b \<longrightarrow> scans_as b)"
proof (induction p)
  case (Leaf a)
  then show ?case by (simp add: scans_as_def scan_atom)
next
  case (Group pre b)
  then show ?case using scan_group [of b pre] by (simp add: scans_as_def group_verdict_def)
next
  case (Quantified p q)
  then show ?case using scans_quantified by simp
next
  case (Then p q)
  then have p: "scans_as p" and q: "scans_as q" by simp_all
  have "scans_as (Then p q)" unfolding scans_as_def
  proof (intro allI impI)
    fix s i and gs :: "pattern_group list"
    assume "\<not> quantified_by s" "gs \<noteq> [] \<longrightarrow> pg_open (hd gs) < i"
    then show "scan_groups (print_pattern (Then p q) @ s) i gs False =
        orelse (tree_hazard (Then p q)) (scan_groups s (i + length (print_pattern (Then p q)))
          (absorb (has_alternation (Then p q)) (has_quantifier (Then p q)) gs) False)"
      using p q print_start [of q s] Then.prems by (auto simp: scans_as_def algebra_simps)
  qed
  then show ?case by simp
next
  case (Either p q)
  then have p: "scans_as p" and q: "scans_as q" by simp_all
  have "scans_as (Either p q)" unfolding scans_as_def
  proof (intro allI impI)
    fix s i and gs :: "pattern_group list"
    assume s: "\<not> quantified_by s" and open_lt: "gs \<noteq> [] \<longrightarrow> pg_open (hd gs) < i"
    have bar: "scan_groups (CHR ''|'' # t) j gs' False = scan_groups t (j + 1) (absorb True False gs') False" for t j gs'
      by (subst scan_groups.simps) (cases gs', auto simp: quantifier_char_def)
    show "scan_groups (print_pattern (Either p q) @ s) i gs False =
        orelse (tree_hazard (Either p q)) (scan_groups s (i + length (print_pattern (Either p q)))
          (absorb (has_alternation (Either p q)) (has_quantifier (Either p q)) gs) False)"
      using p q s open_lt by (auto simp: scans_as_def scans_either_part bar algebra_simps)
  qed
  then show ?case by simp
qed (simp add: scans_as_def)

text \<open>
  C34: the pattern guard sees the tree. On the text of any well-formed regular expression (literals,
  escapes, character classes, groups of every kind, greedy and lazy quantifiers, alternatives, at any nesting) the
  character walk reports exactly what the syntax tree says: the first repeated group, innermost first,
  that contains a quantifier or an alternative, and nothing else.
\<close>

theorem group_hazard_exact:
  assumes "pattern_ok p"
  shows "quantifiedGroupHazard (print_pattern p) = tree_hazard p"
proof -
  have "scan_groups (print_pattern p @ []) 0 [] False = orelse (tree_hazard p) (scan_groups [] (length (print_pattern p)) [] False)"
    using scans_pattern [OF assms] by (simp add: scans_as_def quantified_by_def)
  then show ?thesis by (simp add: quantifiedGroupHazard_def scan_groups.simps(1) orelse_def split: option.splits)
qed

theorem group_hazard_exact_witness:
  "quantifiedGroupHazard ''x((?:a|[|)])??b)+?'' = Some NestedQuantifier"
  using group_hazard_exact [of "Then (Leaf (IsLiteral CHR ''x'')) (Quantified (Group [] (Then
      (Quantified (Group ''?:'' (Either (Leaf (IsLiteral CHR ''a'')) (Leaf (IsClass [Plain CHR ''|'', Plain CHR '')''])))) (Lazy_Q Optional_Q))
      (Leaf (IsLiteral CHR ''b'')))) (Lazy_Q Plus_Q))"]
  by (simp add: meta_def group_prefix_def)

end
