(* ===== verification/Retention.thy ===== *)
theory Retention
  imports Validators
begin

text \<open>
  Keeping the previous build routable for a while, and retiring it: \<^verbatim>\<open>src/retention.ts\<close>,
  \<^verbatim>\<open>src/retention-expiry.ts\<close>, \<^verbatim>\<open>src/cutover/retention-expiry.ts\<close>. \<open>parse\<close> stands for \<open>JSON.parse\<close> of a text
  (\<open>None\<close> where it throws), \<open>hmac\<close> for the hexadecimal HMAC-SHA-256, \<open>origin_ok\<close> for the checks on
  \<open>new URL(origin)\<close>. Times are milliseconds.
\<close>

section \<open>Inventories\<close>

definition RETENTION_MAX_BYTES :: nat where "RETENTION_MAX_BYTES = 800000"

definition INVENTORY_BUILD_RE :: rexp where
  "INVENTORY_BUILD_RE = Seq (Cls (one_of ''_'' alnum_any)) (Rep 0 62 (Cls (one_of ''._-'' alnum_any)))"

definition INVENTORY_POOL_RE :: rexp where
  "INVENTORY_POOL_RE = Seq (Cls alnum) (ropt (Seq (Rep 0 61 (Cls ldh)) (Cls alnum)))"

definition no_query :: "char \<Rightarrow> bool" where
  "no_query c = (c \<noteq> CHR ''?'' \<and> c \<noteq> CHR ''#'')"

definition IMMUTABLE_ASSET_RE :: rexp where
  "IMMUTABLE_ASSET_RE =
     Seq (ropt (Seq (lit ''/'') (Star (Cls no_query)))) (Seq (lit ''/_next/static/immutable/'') (rplus (Cls no_query)))"

definition ACTION_RE :: rexp where "ACTION_RE = Rep 40 64 (Cls lower_hex)"

record build_inventory =
  bi_buildId :: string
  bi_deploymentId :: string
  bi_defaultPool :: string
  bi_pools :: "string list"
  bi_grace :: rat
  bi_timeout :: "rat option"
  bi_assets :: "string list"
  bi_actions :: "string list"

definition jstrings :: "json option \<Rightarrow> string list option" where
  "jstrings v = (case v of Some (JArr xs) \<Rightarrow> all_strings xs | _ \<Rightarrow> None)"

text \<open>
  \<open>validateInventory\<close>, returning the inventory it accepts. A default pool that is not a string cannot
  be one of the pools, which are strings.
\<close>

definition validateInventory :: "json \<Rightarrow> build_inventory option" where
  "validateInventory v =
     (case (jget v ''buildId'', jget v ''deploymentId'', jget v ''defaultPool'', jstrings (jget v ''pools''),
            jget v ''gracePeriodSeconds'', jstrings (jget v ''assets''), jstrings (jget v ''actions'')) of
        (Some (JStr b), Some (JStr d), Some (JStr p), Some pools, Some (JNum g), Some assets, Some actions) \<Rightarrow>
          if matches INVENTORY_BUILD_RE b \<and> length d \<le> 256 \<and> matches INVENTORY_POOL_RE p
             \<and> p \<in> set pools \<and> list_all (matches INVENTORY_POOL_RE) pools
             \<and> is_integer g \<and> 1 \<le> g \<and> g \<le> 3600
             \<and> (case jget v ''responseHeadTimeoutMs'' of
                  None \<Rightarrow> True
                | Some (JNum t) \<Rightarrow> is_safe_integer t \<and> 1 \<le> t \<and> t \<le> 86400000
                | _ \<Rightarrow> False)
             \<and> list_all (\<lambda>a. length a < 2048 \<and> matches IMMUTABLE_ASSET_RE a) assets
             \<and> list_all (matches ACTION_RE) actions
          then Some \<lparr>bi_buildId = b, bi_deploymentId = d, bi_defaultPool = p, bi_pools = pools, bi_grace = g,
                     bi_timeout = finite_number (jget v ''responseHeadTimeoutMs''), bi_assets = assets, bi_actions = actions\<rparr>
          else None
      | _ \<Rightarrow> None)"

record retained_build =
  rb_inventory :: build_inventory
  rb_origin :: string
  rb_expiresAt :: rat

definition retained_of :: "(string \<Rightarrow> bool) \<Rightarrow> json \<Rightarrow> retained_build option" where
  "retained_of origin_ok v =
     (case (validateInventory v, jget v ''origin'', jget v ''expiresAt'') of
        (Some i, Some (JStr origin), Some (JNum e)) \<Rightarrow>
          if origin_ok origin \<and> is_safe_integer e then Some \<lparr>rb_inventory = i, rb_origin = origin, rb_expiresAt = e\<rparr> else None
      | _ \<Rightarrow> None)"

definition retention_message :: "string \<Rightarrow> string" where
  "retention_message payload = ''retention:v1'' @ CHR 0x00 # payload"

definition inventorySignature :: "(string \<Rightarrow> string \<Rightarrow> string) \<Rightarrow> string \<Rightarrow> string \<Rightarrow> string" where
  "inventorySignature hmac payload secret = hmac secret (''retention-inventory:v1'' @ CHR 0x00 # payload)"

definition signRetention :: "(string \<Rightarrow> string \<Rightarrow> string) \<Rightarrow> string \<Rightarrow> string \<Rightarrow> string \<times> string" where
  "signRetention hmac payload secret = (payload, hmac secret (retention_message payload))"

section \<open>The reader\<close>

record reader_options =
  ro_buildId :: string
  ro_secret :: string

definition SIGNATURE_RE :: rexp where "SIGNATURE_RE = Rep 64 64 (Cls lower_hex)"

text \<open>What one refresh caches, given the file's text (\<open>None\<close> when it cannot be read).\<close>

definition read_retention ::
    "(string \<Rightarrow> raw_json) \<Rightarrow> (string \<Rightarrow> string \<Rightarrow> string) \<Rightarrow> (string \<Rightarrow> bool) \<Rightarrow> reader_options \<Rightarrow> string option \<Rightarrow>
     retained_build list" where
  "read_retention parse hmac origin_ok opts file =
     (case file of
        None \<Rightarrow> []
      | Some raw \<Rightarrow>
          if utf8_length raw > RETENTION_MAX_BYTES then []
          else
            (case Option.bind (parse raw) (\<lambda>j. jget j (ro_buildId opts)) of
               None \<Rightarrow> []
             | Some record \<Rightarrow>
                 (case (jget record ''payload'', jget record ''signature'') of
                    (Some (JStr payload), Some (JStr signature)) \<Rightarrow>
                      if \<not> matches SIGNATURE_RE signature \<or> hmac (ro_secret opts) (retention_message payload) \<noteq> signature then []
                      else
                        (case parse payload of
                           Some (JArr [x, y]) \<Rightarrow>
                             (case (retained_of origin_ok x, retained_of origin_ok y) of
                                (Some a, Some b) \<Rightarrow>
                                  let ids = [bi_buildId (rb_inventory a), bi_buildId (rb_inventory b)]
                                  in if length (filter ((=) (ro_buildId opts)) ids) \<noteq> 1 \<or> ids ! 0 = ids ! 1 then [] else [a, b]
                              | _ \<Rightarrow> [])
                         | _ \<Rightarrow> [])
                  | _ \<Rightarrow> [])))"

record reader =
  rd_cached :: "retained_build list"
  rd_refreshAt :: rat
  rd_refreshing :: bool

definition new_reader :: reader where
  "new_reader = \<lparr>rd_cached = [], rd_refreshAt = 0, rd_refreshing = False\<rparr>"

text \<open>A request arrives; a refresh ends; a waiting request is answered.\<close>

definition begin_request :: "rat \<Rightarrow> reader \<Rightarrow> reader" where
  "begin_request now r = (if now \<ge> rd_refreshAt r \<and> \<not> rd_refreshing r then r\<lparr>rd_refreshing := True\<rparr> else r)"

definition end_refresh :: "retained_build list \<Rightarrow> rat \<Rightarrow> reader \<Rightarrow> reader" where
  "end_refresh next now r = r\<lparr>rd_cached := next, rd_refreshAt := now + 250, rd_refreshing := False\<rparr>"

record retained_request =
  rr_method :: string
  rr_pathname :: string
  rr_deploymentId :: "string option"
  rr_dpl :: "string option"
  rr_action :: "string option"

definition given :: "string option \<Rightarrow> bool" where
  "given v = (v \<noteq> None \<and> v \<noteq> Some [])"

definition rr_hint :: "retained_request \<Rightarrow> string option" where
  "rr_hint q = (if given (rr_deploymentId q) then rr_deploymentId q else rr_dpl q)"

definition retained_peer :: "reader_options \<Rightarrow> rat \<Rightarrow> retained_request \<Rightarrow> reader \<Rightarrow> retained_build option" where
  "retained_peer opts now q r =
     (case (List.find (\<lambda>b. bi_buildId (rb_inventory b) = ro_buildId opts) (rd_cached r),
            List.find (\<lambda>b. bi_buildId (rb_inventory b) \<noteq> ro_buildId opts \<and> rb_expiresAt b > now) (rd_cached r)) of
        (Some ownBuild, Some peerBuild) \<Rightarrow>
          let own = rb_inventory ownBuild; peer = rb_inventory peerBuild;
              owns = (\<lambda>i. given (rr_action q) \<and> the (rr_action q) \<in> set (bi_actions i))
          in if rr_hint q = Some (bi_deploymentId own) then None
             else if rr_hint q = Some (bi_deploymentId peer) \<and> rr_method q = ''POST'' \<and> owns peer then Some peerBuild
             else if rr_method q \<in> {''GET'', ''HEAD''} \<and> rr_pathname q \<notin> set (bi_assets own) \<and> rr_pathname q \<in> set (bi_assets peer)
             then Some peerBuild
             else if rr_method q = ''POST'' \<and> given (rr_action q) \<and> \<not> owns own \<and> owns peer then Some peerBuild
             else None
      | _ \<Rightarrow> None)"

section \<open>Expiry markers\<close>

record expiry_marker =
  em_buildId :: string
  em_expiresAt :: rat

definition parseExpiryMarker :: "(string \<Rightarrow> raw_json) \<Rightarrow> string option \<Rightarrow> expiry_marker option" where
  "parseExpiryMarker parse raw =
     (case Option.bind raw parse of
        None \<Rightarrow> None
      | Some j \<Rightarrow>
          (case (jget j ''buildId'', jget j ''expiresAt'') of
             (Some (JStr b), Some (JNum e)) \<Rightarrow>
               if assertSafeBuildIdName b = Inr () \<and> is_safe_integer e \<and> 0 < e
               then Some \<lparr>em_buildId = b, em_expiresAt = e\<rparr> else None
           | _ \<Rightarrow> None))"

record deployment =
  dp_name :: string
  dp_uid :: "string option"
  dp_version :: "string option"
  dp_labels :: "(string, string) jsmap"
  dp_marker :: "string option"
  dp_deleting :: bool
  dp_replicas :: "rat option"

text \<open>
  Arming the marker of every pool of a build, each with the outcome of its \<open>kubectl patch\<close> and, after a
  failure that may be a missing object, of the lookup. The result tells which were armed and whether
  the call returned.
\<close>

datatype arming = Armed | Missing | ArmFailed

fun arm_pools :: "(string \<Rightarrow> arming) \<Rightarrow> bool \<Rightarrow> string \<Rightarrow> string \<Rightarrow> string list \<Rightarrow> string list \<times> bool" where
  "arm_pools outcome allowMissing release buildId [] = ([], True)"
| "arm_pools outcome allowMissing release buildId (pool # pools) =
     (if assertSafePoolName pool \<noteq> Inr () then ([], False)
      else
        let name = sanitizeK8sName (release @ ''-'' @ pool @ ''-'' @ buildId) []
        in case outcome name of
             Armed \<Rightarrow> (case arm_pools outcome allowMissing release buildId pools of (ns, ok) \<Rightarrow> (name # ns, ok))
           | Missing \<Rightarrow> if allowMissing then arm_pools outcome allowMissing release buildId pools else ([], False)
           | ArmFailed \<Rightarrow> ([], False))"

definition setRetentionExpiry ::
    "(string \<Rightarrow> arming) \<Rightarrow> string \<Rightarrow> string \<Rightarrow> string \<Rightarrow> string list \<Rightarrow> rat \<Rightarrow> bool \<Rightarrow> string list \<times> bool" where
  "setRetentionExpiry outcome release namespace buildId pools expiresAt allowMissing =
     (if assertSafeReleaseName release \<noteq> Inr () \<or> assertSafeNamespace (Some (JStr namespace)) \<noteq> Inr ()
         \<or> assertSafeBuildIdName buildId \<noteq> Inr () \<or> \<not> is_safe_integer expiresAt \<or> expiresAt \<le> 0
      then ([], False) else arm_pools outcome allowMissing release buildId pools)"

definition protectRetentionBuild ::
    "(string \<Rightarrow> arming) \<Rightarrow> string \<Rightarrow> string \<Rightarrow> string \<Rightarrow> string list \<Rightarrow> rat \<Rightarrow> string list \<times> bool" where
  "protectRetentionBuild outcome release namespace buildId pools now =
     setRetentionExpiry outcome release namespace buildId pools (now + 3600000) True"

section \<open>Retiring an expired standby\<close>

record standby_plan =
  sp_current :: string
  sp_previous :: string
  sp_currentPools :: "string list"
  sp_previousPools :: "string list"

datatype plan_result = NothingToDo | PlanThrows | Plan standby_plan

text \<open>The committed state, whose build ids are strings (\<open>isAdapterState\<close>).\<close>

definition read_plan :: "(string \<Rightarrow> raw_json) \<Rightarrow> string option \<Rightarrow> plan_result" where
  "read_plan parse stateRaw =
     (case stateRaw of
        None \<Rightarrow> NothingToDo
      | Some text \<Rightarrow>
          (case parse text of
             None \<Rightarrow> PlanThrows
           | Some state \<Rightarrow>
               (case (is_string (jget state ''buildId''), is_string (jget state ''previousBuildId'')) of
                  (Some b, Some p) \<Rightarrow>
                    if p = [] \<or> b = p then NothingToDo
                    else if assertSafeBuildIdName b \<noteq> Inr () \<or> assertSafeBuildIdName p \<noteq> Inr () then PlanThrows
                    else
                      (let pools = (\<lambda>k. Option.bind (jget state ''poolTopologies'') (\<lambda>t. jget t k))
                       in case (pools b, pools p) of
                            (Some (JArr (x # xs)), Some (JArr (y # ys))) \<Rightarrow>
                              (case (all_strings (x # xs), all_strings (y # ys)) of
                                 (Some cs, Some ps) \<Rightarrow>
                                   if list_all (\<lambda>q. assertSafePoolName q = Inr ()) (cs @ ps)
                                   then Plan \<lparr>sp_current = b, sp_previous = p, sp_currentPools = cs, sp_previousPools = ps\<rparr>
                                   else PlanThrows
                               | _ \<Rightarrow> PlanThrows)
                          | _ \<Rightarrow> NothingToDo)
                | (None, Some p) \<Rightarrow> if p = [] then NothingToDo else PlanThrows
                | (_, None) \<Rightarrow> NothingToDo)))"

text \<open>A Service: its name and the version its selector asks for.\<close>

type_synonym live_service = "string \<times> string option"

definition traffic_settled :: "string \<Rightarrow> standby_plan \<Rightarrow> live_service list \<Rightarrow> bool" where
  "traffic_settled release plan services =
     (let active = sanitizeK8sName (sp_current plan) []
      in list_all (\<lambda>pool. map_of services (sanitizeK8sName (release @ ''-'' @ pool) []) = Some (Some active)) (sp_currentPools plan)
         \<and> (case map_of services (sanitizeK8sName (release @ ''-origin'') []) of None \<Rightarrow> True | Some v \<Rightarrow> v = Some active))"

definition eligible :: "(string \<Rightarrow> raw_json) \<Rightarrow> string \<Rightarrow> standby_plan \<Rightarrow> rat \<Rightarrow> deployment \<Rightarrow> bool" where
  "eligible parse release plan now d =
     (case parseExpiryMarker parse (dp_marker d) of
        None \<Rightarrow> False
      | Some marker \<Rightarrow>
          em_buildId marker = sp_previous plan \<and> em_expiresAt marker \<le> now \<and> \<not> dp_deleting d
          \<and> given (dp_version d) \<and> given (dp_uid d)
          \<and> (case dp_replicas d of Some n \<Rightarrow> is_safe_integer n \<and> 0 < n | None \<Rightarrow> False)
          \<and> map_of (dp_labels d) ''app.kubernetes.io/name'' = Some release
          \<and> map_of (dp_labels d) ''app.kubernetes.io/version'' = Some (sanitizeK8sName (em_buildId marker) [])
          \<and> (case map_of (dp_labels d) ''app.kubernetes.io/component'' of
               Some pool \<Rightarrow> pool \<in> set (sp_previousPools plan)
                 \<and> dp_name d = sanitizeK8sName (release @ ''-'' @ pool @ ''-'' @ em_buildId marker) []
             | None \<Rightarrow> False))"

text \<open>
  The cluster, with every resource version the API server has handed out and the Deployments a cleanup
  has scaled to zero; and a cleanup, one phase per call.
\<close>

record kube =
  k_state :: "string option"
  k_deployments :: "deployment list"
  k_services :: "live_service list"
  k_hpas :: "string list"
  k_versions :: "string set"
  k_scaled :: "(deployment \<times> standby_plan) list"

datatype phase =
    Starting
  | ListDeployments string standby_plan
  | ListServices string standby_plan "deployment list"
  | ListHpas string standby_plan "deployment list" "live_service list"
  | Sweep string standby_plan "string list" "deployment list"
  | Confirming string standby_plan "string list" deployment "deployment list"
  | Scaling string standby_plan "string list" deployment "deployment list"
  | Ended

record job =
  j_parse :: "string \<Rightarrow> raw_json"
  j_release :: string
  j_namespace :: string
  j_now :: rat

fun same_object :: "deployment \<Rightarrow> deployment \<Rightarrow> bool" where
  "same_object d e = (dp_name d = dp_name e \<and> dp_uid d = dp_uid e \<and> dp_version d = dp_version e)"

definition scale_to_zero :: "string \<Rightarrow> deployment \<Rightarrow> deployment list \<Rightarrow> deployment list" where
  "scale_to_zero fresh d = map (\<lambda>e. if dp_name e = dp_name d then e\<lparr>dp_replicas := Some 0, dp_version := Some fresh\<rparr> else e)"

inductive cleanup_step :: "job \<Rightarrow> kube \<times> phase \<Rightarrow> kube \<times> phase \<Rightarrow> bool" for J where
  state_read: "cleanup_step J (k, Starting) (k, ListDeployments raw plan)"
    if "assertSafeReleaseName (j_release J) = Inr ()" "assertSafeNamespace (Some (JStr (j_namespace J))) = Inr ()"
       "k_state k = Some raw" "read_plan (j_parse J) (Some raw) = Plan plan"
| nothing: "cleanup_step J (k, Starting) (k, Ended)"
    if "\<forall>plan. read_plan (j_parse J) (k_state k) \<noteq> Plan plan"
| deployments_listed: "cleanup_step J (k, ListDeployments raw plan) (k, ListServices raw plan (k_deployments k))"
| services_listed: "cleanup_step J (k, ListServices raw plan ds) (k, ListHpas raw plan ds (k_services k))"
| hpas_listed: "cleanup_step J (k, ListHpas raw plan ds services) (k, Sweep raw plan (k_hpas k) ds)"
    if "traffic_settled (j_release J) plan services"
| unsettled: "cleanup_step J (k, ListHpas raw plan ds services) (k, Ended)"
    if "\<not> traffic_settled (j_release J) plan services"
| swept: "cleanup_step J (k, Sweep raw plan hpas []) (k, Ended)"
| skipped: "cleanup_step J (k, Sweep raw plan hpas (d # ds)) (k, Sweep raw plan hpas ds)"
    if "\<not> eligible (j_parse J) (j_release J) plan (j_now J) d \<or> dp_name d \<in> set hpas"
| picked: "cleanup_step J (k, Sweep raw plan hpas (d # ds)) (k, Confirming raw plan hpas d ds)"
    if "eligible (j_parse J) (j_release J) plan (j_now J) d" "dp_name d \<notin> set hpas"
| confirmed: "cleanup_step J (k, Confirming raw plan hpas d ds) (k, Scaling raw plan hpas d ds)"
    if "k_state k = Some raw"
| moved: "cleanup_step J (k, Confirming raw plan hpas d ds) (k, Ended)"
    if "k_state k \<noteq> Some raw"
| scaled: "cleanup_step J (k, Scaling raw plan hpas d ds)
      (k\<lparr>k_deployments := scale_to_zero fresh d (k_deployments k), k_versions := insert fresh (k_versions k),
         k_scaled := k_scaled k @ [(e, plan)]\<rparr>, Sweep raw plan hpas ds)"
    if "e \<in> set (k_deployments k)" "same_object d e" "fresh \<notin> k_versions k"
| refused: "cleanup_step J (k, Scaling raw plan hpas d ds) (k, Sweep raw plan hpas ds)"
    if "\<not> (\<exists>e \<in> set (k_deployments k). same_object d e)"
| call_failed: "cleanup_step J (k, p) (k, Ended)"

text \<open>
  Everybody else: promotions, deploys, autoscalers, operators. Whatever they do, an object they change
  gets a resource version no object had before, and names stay unique.
\<close>

definition outside :: "kube \<Rightarrow> kube \<Rightarrow> bool" where
  "outside k k' \<longleftrightarrow>
     k_scaled k' = k_scaled k \<and> distinct (map dp_name (k_deployments k')) \<and>
     (\<forall>d \<in> set (k_deployments k'). d \<in> set (k_deployments k) \<or> (\<exists>v. dp_version d = Some v \<and> v \<notin> k_versions k)) \<and>
     k_versions k \<subseteq> k_versions k' \<and> (\<forall>d \<in> set (k_deployments k'). \<forall>v. dp_version d = Some v \<longrightarrow> v \<in> k_versions k')"

inductive cleaning :: "job \<Rightarrow> kube \<Rightarrow> kube \<times> phase \<Rightarrow> bool" for J k0 where
  start: "cleaning J k0 (k0, Starting)"
| by_cleanup: "cleaning J k0 s'" if "cleaning J k0 s" "cleanup_step J s s'"
| by_others: "cleaning J k0 (k', p)" if "cleaning J k0 (k, p)" "outside k k'"

section \<open>What a cleanup may touch\<close>

fun captured :: "phase \<Rightarrow> deployment list" where
  "captured (ListServices raw plan ds) = ds"
| "captured (ListHpas raw plan ds services) = ds"
| "captured (Sweep raw plan hpas ds) = ds"
| "captured (Confirming raw plan hpas d ds) = d # ds"
| "captured (Scaling raw plan hpas d ds) = d # ds"
| "captured _ = []"

fun plan_of :: "phase \<Rightarrow> (string \<times> standby_plan) option" where
  "plan_of (ListDeployments raw plan) = Some (raw, plan)"
| "plan_of (ListServices raw plan ds) = Some (raw, plan)"
| "plan_of (ListHpas raw plan ds services) = Some (raw, plan)"
| "plan_of (Sweep raw plan hpas ds) = Some (raw, plan)"
| "plan_of (Confirming raw plan hpas d ds) = Some (raw, plan)"
| "plan_of (Scaling raw plan hpas d ds) = Some (raw, plan)"
| "plan_of _ = None"

fun picked_of :: "phase \<Rightarrow> deployment option" where
  "picked_of (Confirming raw plan hpas d ds) = Some d"
| "picked_of (Scaling raw plan hpas d ds) = Some d"
| "picked_of _ = None"

definition snapshot_ok :: "kube \<Rightarrow> deployment \<Rightarrow> bool" where
  "snapshot_ok k c \<longleftrightarrow> (\<forall>v. dp_version c = Some v \<longrightarrow> v \<in> k_versions k \<and>
     (\<forall>e \<in> set (k_deployments k). dp_name e = dp_name c \<and> dp_version e = Some v \<longrightarrow> e = c))"

definition kube_ok :: "kube \<Rightarrow> bool" where
  "kube_ok k \<longleftrightarrow> distinct (map dp_name (k_deployments k)) \<and>
     (\<forall>d \<in> set (k_deployments k). \<forall>v. dp_version d = Some v \<longrightarrow> v \<in> k_versions k)"

definition planned :: "job \<Rightarrow> standby_plan \<Rightarrow> bool" where
  "planned J plan \<longleftrightarrow> (\<exists>raw. read_plan (j_parse J) (Some raw) = Plan plan)"

definition cleaning_ok :: "job \<Rightarrow> kube \<times> phase \<Rightarrow> bool" where
  "cleaning_ok J = (\<lambda>(k, p).
     kube_ok k \<and> (\<forall>c \<in> set (captured p). snapshot_ok k c) \<and>
     (\<forall>raw plan. plan_of p = Some (raw, plan) \<longrightarrow> planned J plan) \<and>
     (\<forall>d raw plan. picked_of p = Some d \<longrightarrow> plan_of p = Some (raw, plan) \<longrightarrow> eligible (j_parse J) (j_release J) plan (j_now J) d) \<and>
     (\<forall>(d, plan) \<in> set (k_scaled k). planned J plan \<and> eligible (j_parse J) (j_release J) plan (j_now J) d))"

lemma snapshot_self: "kube_ok k \<Longrightarrow> d \<in> set (k_deployments k) \<Longrightarrow> snapshot_ok k d"
  by (auto simp: kube_ok_def snapshot_ok_def distinct_map inj_on_def)

lemma snapshot_outside: "outside k k' \<Longrightarrow> snapshot_ok k c \<Longrightarrow> snapshot_ok k' c"
  by (fastforce simp: outside_def snapshot_ok_def)

lemma eligible_version: "eligible parse release plan now d \<Longrightarrow> \<exists>v. dp_version d = Some v"
  by (auto simp: eligible_def given_def split: option.splits)

lemma snapshot_scaled:
  assumes "snapshot_ok k c" "fresh \<notin> k_versions k" "distinct (map dp_name (k_deployments k))"
  shows "snapshot_ok (k\<lparr>k_deployments := scale_to_zero fresh d (k_deployments k), k_versions := insert fresh (k_versions k), k_scaled := x\<rparr>) c"
  using assms by (fastforce simp: snapshot_ok_def scale_to_zero_def split: if_splits)

lemma names_scaled: "map dp_name (scale_to_zero fresh d ds) = map dp_name ds"
  by (induction ds) (auto simp: scale_to_zero_def)

lemma versions_scaled: "e \<in> set (scale_to_zero fresh d ds) \<Longrightarrow> e \<in> set ds \<or> dp_version e = Some fresh"
  by (auto simp: scale_to_zero_def)

lemma kube_scaled:
  assumes "kube_ok k"
  shows "kube_ok (k\<lparr>k_deployments := scale_to_zero fresh d (k_deployments k), k_versions := insert fresh (k_versions k), k_scaled := x\<rparr>)"
  using assms versions_scaled by (fastforce simp: kube_ok_def names_scaled)

lemma cleanup_step_ok: "cleanup_step J s s' \<Longrightarrow> cleaning_ok J s \<Longrightarrow> cleaning_ok J s'"
proof (induction rule: cleanup_step.induct)
  case (deployments_listed k raw plan)
  then show ?case using snapshot_self by (auto simp: cleaning_ok_def)
next
  case (scaled e k d fresh raw plan hpas ds)
  have ok: "kube_ok k" "snapshot_ok k d" "eligible (j_parse J) (j_release J) plan (j_now J) d" "planned J plan"
    using scaled.prems by (auto simp: cleaning_ok_def)
  obtain v where "dp_version d = Some v" using eligible_version [OF ok(3)] by blast
  then have "e = d" using ok(2) scaled.hyps(1,2) by (auto simp: snapshot_ok_def)
  moreover have "\<forall>c \<in> set ds. snapshot_ok k c" using scaled.prems by (simp add: cleaning_ok_def)
  ultimately show ?case
    using scaled.prems ok kube_scaled [OF ok(1)] snapshot_scaled [OF _ scaled.hyps(3)] ok(1)
    by (auto simp: cleaning_ok_def kube_ok_def)
next
  case (state_read k raw plan)
  then show ?case by (auto simp: cleaning_ok_def planned_def)
qed (auto simp: cleaning_ok_def)

lemma cleaning_invariant:
  assumes "cleaning J k0 s" "kube_ok k0" "k_scaled k0 = []"
  shows "cleaning_ok J s"
  using assms(1)
proof (induction rule: cleaning.induct)
  case start
  then show ?case using assms by (simp add: cleaning_ok_def)
next
  case (by_cleanup s s')
  then show ?case using cleanup_step_ok by blast
next
  case (by_others k p k')
  then show ?case using snapshot_outside by (auto simp: cleaning_ok_def kube_ok_def outside_def)
qed

lemma read_plan_distinct:
  assumes "read_plan parse file = Plan plan"
  shows "sp_previous plan \<noteq> sp_current plan"
proof -
  obtain raw state where parsed: "file = Some raw" "parse raw = Some state"
    using assms by (auto simp: read_plan_def split: option.splits)
  obtain b p where ids: "is_string (jget state ''buildId'') = Some b" "is_string (jget state ''previousBuildId'') = Some p"
    using assms parsed by (cases "is_string (jget state ''buildId'')"; cases "is_string (jget state ''previousBuildId'')")
      (auto simp: read_plan_def split: if_splits)
  have distinct: "b \<noteq> p" using assms parsed ids by (auto simp: read_plan_def)
  then have "sp_current plan = b \<and> sp_previous plan = p"
    using assms parsed ids
    by (simp add: read_plan_def Let_def split: if_splits option.splits json.splits list.splits) auto
  then show ?thesis using distinct by simp
qed


lemma eligible_marker:
  assumes "eligible parse release plan now d"
  shows "\<exists>m pool. parseExpiryMarker parse (dp_marker d) = Some m \<and> em_buildId m = sp_previous plan
    \<and> em_expiresAt m \<le> now \<and> \<not> dp_deleting d \<and> pool \<in> set (sp_previousPools plan)
    \<and> dp_name d = sanitizeK8sName (release @ ''-'' @ pool @ ''-'' @ sp_previous plan) []"
  using assms by (auto simp: eligible_def split: option.splits)

text \<open>
  C27: However promotions, deploys and other clients interleave with a cleanup, every Deployment it scales
  to zero is, in the very state the API server patches, a pool of the standby build of the plan it read, never of
  the build that plan calls current, is not being deleted, and carries a marker for that build which has
  expired: renewing the marker, at any moment before the patch, keeps the Deployment running.
\<close>

theorem expired_standby_only:
  assumes "cleaning J k0 (k, p)" "kube_ok k0" "k_scaled k0 = []" "(d, plan) \<in> set (k_scaled k)"
  shows "(\<exists>m pool. parseExpiryMarker (j_parse J) (dp_marker d) = Some m \<and> em_buildId m = sp_previous plan
      \<and> em_expiresAt m \<le> j_now J \<and> \<not> dp_deleting d \<and> pool \<in> set (sp_previousPools plan)
      \<and> dp_name d = sanitizeK8sName (j_release J @ ''-'' @ pool @ ''-'' @ sp_previous plan) [])
    \<and> sp_previous plan \<noteq> sp_current plan"
proof -
  have "planned J plan \<and> eligible (j_parse J) (j_release J) plan (j_now J) d"
    using cleaning_invariant [OF assms(1-3)] assms(4) by (auto simp: cleaning_ok_def)
  then show ?thesis using eligible_marker read_plan_distinct by (auto simp: planned_def)
qed

text \<open>A run: build \<open>b2\<close> is live, the marker of \<open>b1\<close> expired at 5 and it is now 10.\<close>

definition demo_parse :: "string \<Rightarrow> raw_json" where
  "demo_parse t =
     (if t = ''S'' then Some (JObj [(''buildId'', JStr ''b2''), (''previousBuildId'', JStr ''b1''),
        (''poolTopologies'', JObj [(''b2'', JArr [JStr ''web'']), (''b1'', JArr [JStr ''web''])])])
      else if t = ''M'' then Some (JObj [(''buildId'', JStr ''b1''), (''expiresAt'', JNum 5)]) else None)"

definition demo_deployment :: deployment where
  "demo_deployment = \<lparr>dp_name = ''r-web-b1'', dp_uid = Some ''u'', dp_version = Some ''1'',
     dp_labels = [(''app.kubernetes.io/name'', ''r''), (''app.kubernetes.io/version'', ''b1''), (''app.kubernetes.io/component'', ''web'')],
     dp_marker = Some ''M'', dp_deleting = False, dp_replicas = Some 2\<rparr>"

definition demo_job :: job where "demo_job = \<lparr>j_parse = demo_parse, j_release = ''r'', j_namespace = ''n'', j_now = 10\<rparr>"

definition demo_kube :: kube where
  "demo_kube = \<lparr>k_state = Some ''S'', k_deployments = [demo_deployment], k_services = [(''r-web'', Some ''b2'')], k_hpas = [],
     k_versions = {''1''}, k_scaled = []\<rparr>"

definition demo_plan :: standby_plan where
  "demo_plan = \<lparr>sp_current = ''b2'', sp_previous = ''b1'', sp_currentPools = [''web''], sp_previousPools = [''web'']\<rparr>"

definition demo_final :: kube where
  "demo_final = demo_kube\<lparr>k_deployments := scale_to_zero ''2'' demo_deployment [demo_deployment], k_versions := {''2'', ''1''},
     k_scaled := [(demo_deployment, demo_plan)]\<rparr>"

lemma demo_names: "assertSafeReleaseName ''r'' = Inr ()" "assertSafeNamespace (Some (JStr ''n'')) = Inr ()" by code_simp+

lemma demo_reads: "read_plan demo_parse (Some ''S'') = Plan demo_plan" by code_simp

lemma demo_settled: "traffic_settled ''r'' demo_plan [(''r-web'', Some ''b2'')]" by code_simp

lemma demo_eligible: "eligible demo_parse ''r'' demo_plan 10 demo_deployment" by code_simp

lemma demo_run: "cleaning demo_job demo_kube (demo_final, Sweep ''S'' demo_plan [] [])"
proof -
  have "cleaning demo_job demo_kube (demo_kube, Starting)" by (rule start)
  then have "cleaning demo_job demo_kube (demo_kube, ListDeployments ''S'' demo_plan)"
    by (rule by_cleanup) (simp add: state_read demo_kube_def demo_job_def demo_names demo_reads)
  then have "cleaning demo_job demo_kube (demo_kube, ListServices ''S'' demo_plan (k_deployments demo_kube))"
    by (rule by_cleanup) (rule deployments_listed)
  then have "cleaning demo_job demo_kube (demo_kube, ListHpas ''S'' demo_plan (k_deployments demo_kube) (k_services demo_kube))"
    by (rule by_cleanup) (rule services_listed)
  then have "cleaning demo_job demo_kube (demo_kube, Sweep ''S'' demo_plan (k_hpas demo_kube) (k_deployments demo_kube))"
    by (rule by_cleanup) (rule hpas_listed, simp add: demo_kube_def demo_job_def demo_settled)
  then have "cleaning demo_job demo_kube (demo_kube, Sweep ''S'' demo_plan [] [demo_deployment])"
    by (simp add: demo_kube_def)
  then have "cleaning demo_job demo_kube (demo_kube, Confirming ''S'' demo_plan [] demo_deployment [])"
    by (rule by_cleanup) (rule picked, simp_all add: demo_job_def demo_eligible)
  then have "cleaning demo_job demo_kube (demo_kube, Scaling ''S'' demo_plan [] demo_deployment [])"
    by (rule by_cleanup) (rule confirmed, simp add: demo_kube_def)
  moreover have "cleanup_step demo_job (demo_kube, Scaling ''S'' demo_plan [] demo_deployment [])
      (demo_final, Sweep ''S'' demo_plan [] [])"
    using scaled [of demo_deployment demo_kube demo_deployment "''2''" demo_job "''S''" demo_plan "[]" "[]"]
    by (simp add: demo_kube_def demo_final_def)
  ultimately show ?thesis by (rule by_cleanup)
qed

theorem expired_standby_only_witness:
  "sp_previous demo_plan \<noteq> sp_current demo_plan \<and> (demo_deployment, demo_plan) \<in> set (k_scaled demo_final)"
  using expired_standby_only [OF demo_run, of demo_deployment demo_plan]
  by (simp add: kube_ok_def demo_kube_def demo_final_def demo_deployment_def)

section \<open>Whom the reader trusts\<close>

text \<open>The life of a reader: requests arrive, refreshes end with what the file then holds.\<close>

inductive reading :: "(string option \<Rightarrow> retained_build list) \<Rightarrow> reader \<Rightarrow> bool" for refresh where
  fresh_reader: "reading refresh new_reader"
| request_arrives: "reading refresh (begin_request now r)" if "reading refresh r"
| refresh_ends: "reading refresh (end_refresh (refresh file) now r)" if "reading refresh r" "rd_refreshing r"

lemma reading_cached: "reading refresh r \<Longrightarrow> \<exists>file. rd_cached r = [] \<or> rd_cached r = refresh file"
  by (induction rule: reading.induct) (auto simp: new_reader_def begin_request_def end_refresh_def)

definition authenticated ::
    "(string \<Rightarrow> raw_json) \<Rightarrow> (string \<Rightarrow> string \<Rightarrow> string) \<Rightarrow> (string \<Rightarrow> bool) \<Rightarrow> reader_options \<Rightarrow> string \<Rightarrow> retained_build list \<Rightarrow> bool" where
  "authenticated parse hmac origin_ok opts payload bs \<longleftrightarrow>
     (\<exists>raw j record x y a b. parse raw = Some j \<and> jget j (ro_buildId opts) = Some record
        \<and> jget record ''payload'' = Some (JStr payload)
        \<and> jget record ''signature'' = Some (JStr (snd (signRetention hmac payload (ro_secret opts))))
        \<and> parse payload = Some (JArr [x, y]) \<and> retained_of origin_ok x = Some a \<and> retained_of origin_ok y = Some b \<and> bs = [a, b])"

lemma read_retention_authenticated:
  assumes "read_retention parse hmac origin_ok opts file \<noteq> []"
  shows "\<exists>payload. authenticated parse hmac origin_ok opts payload (read_retention parse hmac origin_ok opts file)"
proof -
  obtain raw where raw: "file = Some raw" "\<not> utf8_length raw > RETENTION_MAX_BYTES"
    using assms by (auto simp: read_retention_def split: option.splits if_splits)
  obtain j entry where j: "parse raw = Some j" "jget j (ro_buildId opts) = Some entry"
    using assms raw by (auto simp: read_retention_def bind_eq_Some_conv split: option.splits)
  obtain payload signature where r: "jget entry ''payload'' = Some (JStr payload)" "jget entry ''signature'' = Some (JStr signature)"
    using assms raw j by (simp add: read_retention_def split: option.splits json.splits)
  have sig: "matches SIGNATURE_RE signature" "hmac (ro_secret opts) (retention_message payload) = signature"
    using assms raw j r by (simp_all add: read_retention_def split: if_splits)
  obtain x y where xy: "parse payload = Some (JArr [x, y])"
    using assms raw j r sig by (simp add: read_retention_def split: option.splits json.splits list.splits)
  obtain a b where ab: "retained_of origin_ok x = Some a" "retained_of origin_ok y = Some b"
    using assms raw j r sig xy by (simp add: read_retention_def split: option.splits)
  have "read_retention parse hmac origin_ok opts file = [a, b]"
    using assms raw j r sig xy ab by (simp add: read_retention_def Let_def split: if_splits)
  then show ?thesis using j r sig xy ab by (simp add: authenticated_def signRetention_def) blast
qed

lemma find_some: "List.find P xs = Some x \<Longrightarrow> x \<in> set xs \<and> P x"
  by (auto simp: find_Some_iff)

lemma retained_peer_cases:
  assumes "retained_peer opts now q r = Some b"
  shows "b \<in> set (rd_cached r)" "bi_buildId (rb_inventory b) \<noteq> ro_buildId opts" "now < rb_expiresAt b"
    "rr_method q \<in> {''GET'', ''HEAD''} \<and> rr_pathname q \<in> set (bi_assets (rb_inventory b))
     \<or> rr_method q = ''POST'' \<and> (\<exists>a. rr_action q = Some a \<and> a \<in> set (bi_actions (rb_inventory b)))"
proof -
  obtain own where own: "List.find (\<lambda>b. bi_buildId (rb_inventory b) = ro_buildId opts) (rd_cached r) = Some own"
    using assms by (auto simp: retained_peer_def split: option.splits)
  moreover obtain peer where peer:
      "List.find (\<lambda>b. bi_buildId (rb_inventory b) \<noteq> ro_buildId opts \<and> rb_expiresAt b > now) (rd_cached r) = Some peer"
    using assms own by (auto simp: retained_peer_def split: option.splits)
  ultimately have "b = peer" and kind: "rr_method q \<in> {''GET'', ''HEAD''} \<and> rr_pathname q \<in> set (bi_assets (rb_inventory b))
     \<or> rr_method q = ''POST'' \<and> (\<exists>a. rr_action q = Some a \<and> a \<in> set (bi_actions (rb_inventory b)))"
    using assms by (auto simp: retained_peer_def Let_def given_def split: if_splits)
  then show "b \<in> set (rd_cached r)" "bi_buildId (rb_inventory b) \<noteq> ro_buildId opts" "now < rb_expiresAt b"
    using find_some [OF peer] by auto
  show "rr_method q \<in> {''GET'', ''HEAD''} \<and> rr_pathname q \<in> set (bi_assets (rb_inventory b))
     \<or> rr_method q = ''POST'' \<and> (\<exists>a. rr_action q = Some a \<and> a \<in> set (bi_actions (rb_inventory b)))"
    by (rule kind)
qed

text \<open>
  C28: Whatever the routing file holds and however requests and refreshes interleave, a request is forwarded
  to a retained peer only if the peer is one of two builds whose list carries the valid signature of the
  reader's secret, is another build than the reader's own, has not expired, and owns the asset of a
  \<open>GET\<close>/\<open>HEAD\<close> or the server action of a \<open>POST\<close>.
\<close>

theorem retained_peer_authenticated:
  assumes "reading (read_retention parse hmac origin_ok opts) r" "retained_peer opts now q r = Some b"
  shows "\<exists>payload bs. authenticated parse hmac origin_ok opts payload bs \<and> b \<in> set bs
    \<and> bi_buildId (rb_inventory b) \<noteq> ro_buildId opts \<and> now < rb_expiresAt b
    \<and> (rr_method q \<in> {''GET'', ''HEAD''} \<and> rr_pathname q \<in> set (bi_assets (rb_inventory b))
       \<or> rr_method q = ''POST'' \<and> (\<exists>a. rr_action q = Some a \<and> a \<in> set (bi_actions (rb_inventory b))))"
  using reading_cached [OF assms(1)] read_retention_authenticated retained_peer_cases [OF assms(2)]
  by (metis list.set(1) empty_iff)


text \<open>A routing file for build \<open>b2\<close> that retains \<open>b1\<close>, with a MAC that is 64 times the secret's first letter.\<close>

definition demo_build :: "string \<Rightarrow> json" where
  "demo_build b = JObj [(''buildId'', JStr b), (''deploymentId'', JStr b), (''defaultPool'', JStr ''web''), (''pools'', JArr [JStr ''web'']),
     (''gracePeriodSeconds'', JNum 30), (''assets'', JArr [JStr (''/_next/static/immutable/'' @ b)]), (''actions'', JArr []),
     (''origin'', JStr ''http://o''), (''expiresAt'', JNum 100)]"

definition demo_file :: "string \<Rightarrow> raw_json" where
  "demo_file t =
     (if t = ''F'' then Some (JObj [(''b2'', JObj [(''payload'', JStr ''P''), (''signature'', JStr (replicate 64 (CHR ''a'')))])])
      else if t = ''P'' then Some (JArr [demo_build ''b2'', demo_build ''b1'']) else None)"

definition demo_hmac :: "string \<Rightarrow> string \<Rightarrow> string" where "demo_hmac k m = replicate 64 (hd k)"

definition demo_options :: reader_options where "demo_options = \<lparr>ro_buildId = ''b2'', ro_secret = ''a''\<rparr>"

definition demo_request :: retained_request where
  "demo_request = \<lparr>rr_method = ''GET'', rr_pathname = ''/_next/static/immutable/b1'', rr_deploymentId = None, rr_dpl = None, rr_action = None\<rparr>"

definition demo_reader :: reader where
  "demo_reader = end_refresh (read_retention demo_file demo_hmac (\<lambda>_. True) demo_options (Some ''F'')) 7 (begin_request 3 new_reader)"

lemma demo_reading: "reading (read_retention demo_file demo_hmac (\<lambda>_. True) demo_options) demo_reader"
  unfolding demo_reader_def
proof (rule refresh_ends)
  show "reading (read_retention demo_file demo_hmac (\<lambda>_. True) demo_options) (begin_request 3 new_reader)"
    by (intro request_arrives fresh_reader)
  show "rd_refreshing (begin_request 3 new_reader)" by (simp add: begin_request_def new_reader_def)
qed

definition demo_retained :: "string \<Rightarrow> retained_build" where
  "demo_retained b = \<lparr>rb_inventory = \<lparr>bi_buildId = b, bi_deploymentId = b, bi_defaultPool = ''web'', bi_pools = [''web''], bi_grace = 30,
     bi_timeout = None, bi_assets = [''/_next/static/immutable/'' @ b], bi_actions = []\<rparr>, rb_origin = ''http://o'', rb_expiresAt = 100\<rparr>"

lemma demo_retained_of:
  "retained_of (\<lambda>_. True) (demo_build ''b1'') = Some (demo_retained ''b1'')"
  "retained_of (\<lambda>_. True) (demo_build ''b2'') = Some (demo_retained ''b2'')"
  by code_simp+

lemma demo_signature: "matches SIGNATURE_RE (demo_hmac ''a'' m)"
  unfolding demo_hmac_def by code_simp

lemma demo_cached: "rd_cached demo_reader = [demo_retained ''b2'', demo_retained ''b1'']"
  using demo_signature
  by (simp add: demo_reader_def end_refresh_def read_retention_def demo_file_def demo_options_def demo_hmac_def demo_retained_of
      RETENTION_MAX_BYTES_def utf8_length_def Let_def demo_retained_def)

lemma demo_served: "retained_peer demo_options 9 demo_request demo_reader = Some (demo_retained ''b1'')"
  by (simp add: retained_peer_def demo_cached demo_options_def demo_request_def demo_retained_def rr_hint_def given_def Let_def)

theorem retained_peer_authenticated_witness:
  "\<exists>b payload bs. retained_peer demo_options 9 demo_request demo_reader = Some b
    \<and> authenticated demo_file demo_hmac (\<lambda>_. True) demo_options payload bs \<and> b \<in> set bs \<and> bi_buildId (rb_inventory b) = ''b1''"
proof -
  have "bi_buildId (rb_inventory (demo_retained ''b1'')) = ''b1''" by (simp add: demo_retained_def)
  then show ?thesis using retained_peer_authenticated [OF demo_reading demo_served] demo_served by blast
qed

end
