(* ===== verification/PlanTypes.thy ===== *)
theory PlanTypes
  imports Validators
begin

text \<open>
  The composition plan a build hands to the command line: \<^verbatim>\<open>src/composition-plan/types.ts\<close>. A union
  is a datatype with one constructor per \<open>kind\<close>, an interface a record; a member whose type has one
  value is left out here and put back by the \<open>_value\<close> functions, which give the JavaScript object a
  plan is.
\<close>

section \<open>JavaScript values\<close>

text \<open>
  An object has its own properties and the prototype that an assignment to \<open>__proto__\<close> gave it:
  \<open>None\<close> is \<open>Object.prototype\<close>, \<open>Some KNull\<close> no prototype at all.
\<close>

datatype kjson =
    KNull
  | KBool bool
  | KNum rat
  | KStr string
  | KArr "kjson list"
  | KObj "(string \<times> kjson) list" "kjson option"

abbreviation ko :: "(string \<times> kjson) list \<Rightarrow> kjson" where
  "ko fs \<equiv> KObj fs None"

definition kmember :: "string \<Rightarrow> kjson option \<Rightarrow> (string \<times> kjson) list" where
  "kmember k v = (case v of None \<Rightarrow> [] | Some j \<Rightarrow> [(k, j)])"

lemma map_of_kmember [simp]: "map_of (kmember k v) x = (if x = k then v else None)"
  by (auto simp: kmember_def split: option.splits)

lemma kmember_simps [simp]: "kmember k None = []" "kmember k (Some j) = [(k, j)]"
  by (simp_all add: kmember_def)

section \<open>Target\<close>

datatype gcp_location = Region string | Zone string

fun gcp_location_value :: "gcp_location \<Rightarrow> kjson" where
  "gcp_location_value (Region n) = ko [(''kind'', KStr ''region''), (''name'', KStr n)]"
| "gcp_location_value (Zone n) = ko [(''kind'', KStr ''zone''), (''name'', KStr n)]"

datatype cluster_identity =
    GkeResource string string gcp_location "string option"
  | KubernetesNamespaceUid string
  | Unverified

fun cluster_identity_value :: "cluster_identity \<Rightarrow> kjson" where
  "cluster_identity_value (GkeResource project cluster location uid) =
     ko ([(''kind'', KStr ''gke-resource''), (''projectId'', KStr project), (''clusterName'', KStr cluster),
          (''location'', gcp_location_value location)] @ kmember ''expectedKubeSystemUid'' (map_option KStr uid))"
| "cluster_identity_value (KubernetesNamespaceUid uid) =
     ko [(''kind'', KStr ''kubernetes-namespace-uid''), (''namespace'', KStr ''kube-system''), (''uid'', KStr uid)]"
| "cluster_identity_value Unverified = ko [(''kind'', KStr ''unverified''), (''requireExplicitConfirmation'', KBool True)]"

datatype cluster_access =
    KubeconfigContext string
  | KubeconfigCurrentContext
  | GkeGetCredentials string string gcp_location

fun cluster_access_value :: "cluster_access \<Rightarrow> kjson" where
  "cluster_access_value (KubeconfigContext context) = ko [(''kind'', KStr ''kubeconfig-context''), (''context'', KStr context)]"
| "cluster_access_value KubeconfigCurrentContext =
     ko [(''kind'', KStr ''kubeconfig-current-context''), (''requireExplicitConfirmation'', KBool True)]"
| "cluster_access_value (GkeGetCredentials project cluster location) =
     ko [(''kind'', KStr ''gke-get-credentials''), (''projectId'', KStr project), (''clusterName'', KStr cluster),
         (''location'', gcp_location_value location)]"

datatype registry_authentication = AmbientCredentials | GcloudDockerHelper string

fun registry_authentication_value :: "registry_authentication \<Rightarrow> kjson" where
  "registry_authentication_value AmbientCredentials = ko [(''kind'', KStr ''ambient-credentials'')]"
| "registry_authentication_value (GcloudDockerHelper host) =
     ko [(''kind'', KStr ''gcloud-docker-helper''), (''registryHost'', KStr host)]"

datatype registry_digest_lookup = OciDistribution | GcpArtifactRegistry string

fun registry_digest_lookup_value :: "registry_digest_lookup \<Rightarrow> kjson" where
  "registry_digest_lookup_value OciDistribution = ko [(''kind'', KStr ''oci-distribution'')]"
| "registry_digest_lookup_value (GcpArtifactRegistry project) =
     ko [(''kind'', KStr ''gcp-artifact-registry''), (''projectId'', KStr project)]"

record registry_plan =
  rg_repository :: string
  rg_authentication :: registry_authentication
  rg_digestLookup :: registry_digest_lookup

definition registry_plan_value :: "registry_plan \<Rightarrow> kjson" where
  "registry_plan_value r =
     ko [(''repository'', KStr (rg_repository r)), (''authentication'', registry_authentication_value (rg_authentication r)),
         (''digestLookup'', registry_digest_lookup_value (rg_digestLookup r))]"

section \<open>Network, cache and CDN\<close>

datatype network_cidr_source =
    NotRequired
  | Static "string list"
  | KubernetesNodePodCidrs
  | KubernetesNodeAddresses
  | GkePodRange string string gcp_location
  | GkeNodeSubnet string string gcp_location

definition gke_source_value :: "string \<Rightarrow> string \<Rightarrow> string \<Rightarrow> gcp_location \<Rightarrow> kjson" where
  "gke_source_value kind project cluster location =
     ko [(''kind'', KStr kind), (''projectId'', KStr project), (''clusterName'', KStr cluster),
         (''location'', gcp_location_value location)]"

fun network_cidr_source_value :: "network_cidr_source \<Rightarrow> kjson" where
  "network_cidr_source_value NotRequired = ko [(''kind'', KStr ''not-required'')]"
| "network_cidr_source_value (Static cidrs) = ko [(''kind'', KStr ''static''), (''cidrs'', KArr (map KStr cidrs))]"
| "network_cidr_source_value KubernetesNodePodCidrs = ko [(''kind'', KStr ''kubernetes-node-pod-cidrs'')]"
| "network_cidr_source_value KubernetesNodeAddresses =
     ko [(''kind'', KStr ''kubernetes-node-addresses''), (''addressTypes'', KArr [KStr ''InternalIP''])]"
| "network_cidr_source_value (GkePodRange project cluster location) = gke_source_value ''gke-pod-range'' project cluster location"
| "network_cidr_source_value (GkeNodeSubnet project cluster location) = gke_source_value ''gke-node-subnet'' project cluster location"

record network_plan =
  nw_podCidrs :: network_cidr_source
  nw_nodeCidrs :: network_cidr_source

definition network_plan_value :: "network_plan \<Rightarrow> kjson" where
  "network_plan_value n =
     ko [(''podCidrs'', network_cidr_source_value (nw_podCidrs n)), (''nodeCidrs'', network_cidr_source_value (nw_nodeCidrs n)),
         (''missingSourcePolicy'', KStr ''fail'')]"

record memorystore =
  ms_projectId :: string
  ms_region :: string
  ms_name :: string
  ms_network :: string
  ms_sizeGb :: rat
  ms_tier :: string
  ms_security :: string

datatype cache_provisioning = NoCache | ExternalCache | GcpMemorystore memorystore

fun cache_provisioning_value :: "cache_provisioning \<Rightarrow> kjson" where
  "cache_provisioning_value NoCache = ko [(''kind'', KStr ''none'')]"
| "cache_provisioning_value ExternalCache = ko [(''kind'', KStr ''external''), (''lifecycle'', KStr ''operator-managed'')]"
| "cache_provisioning_value (GcpMemorystore m) =
     ko [(''kind'', KStr ''gcp-memorystore''), (''projectId'', KStr (ms_projectId m)), (''region'', KStr (ms_region m)),
         (''name'', KStr (ms_name m)), (''network'', KStr (ms_network m)), (''sizeGb'', KNum (ms_sizeGb m)), (''tier'', KStr (ms_tier m)),
         (''security'', ko [(''kind'', KStr (ms_security m))])]"

datatype cdn_invalidation = NoCdn | ExternalCdn | GcpCloudCdn string string

fun cdn_invalidation_value :: "cdn_invalidation \<Rightarrow> kjson" where
  "cdn_invalidation_value NoCdn = ko [(''kind'', KStr ''none'')]"
| "cdn_invalidation_value ExternalCdn = ko [(''kind'', KStr ''external''), (''lifecycle'', KStr ''operator-managed'')]"
| "cdn_invalidation_value (GcpCloudCdn project address) =
     ko [(''kind'', KStr ''gcp-cloud-cdn''), (''projectId'', KStr project), (''addressName'', KStr address),
         (''invalidation'', KStr ''recorded-cache-tag-or-full-path''), (''failurePolicy'', KStr ''warn'')]"

section \<open>Routing\<close>

record kubernetes_object_ref =
  ref_apiVersion :: string
  ref_resource :: string
  ref_name :: string
  ref_namespace :: "string option"

definition kubernetes_object_ref_value :: "kubernetes_object_ref \<Rightarrow> kjson" where
  "kubernetes_object_ref_value r =
     ko ([(''apiVersion'', KStr (ref_apiVersion r)), (''resource'', KStr (ref_resource r)), (''name'', KStr (ref_name r))]
         @ kmember ''namespace'' (map_option KStr (ref_namespace r)))"

record kubernetes_service_ref =
  svc_name :: string
  svc_namespace :: string
  svc_port :: rat

definition kubernetes_service_ref_value :: "kubernetes_service_ref \<Rightarrow> kjson" where
  "kubernetes_service_ref_value s =
     ko [(''name'', KStr (svc_name s)), (''namespace'', KStr (svc_namespace s)), (''port'', KNum (svc_port s))]"

datatype condition_location = AtObject | AtParents "string option" "rat option" | AtAncestors string

fun condition_location_value :: "condition_location \<Rightarrow> kjson" where
  "condition_location_value AtObject = ko [(''kind'', KStr ''object'')]"
| "condition_location_value (AtParents controller count) =
     ko ((''kind'', KStr ''parents'') # kmember ''controllerName'' (map_option KStr controller) @ kmember ''minimumCount'' (map_option KNum count))"
| "condition_location_value (AtAncestors controller) = ko [(''kind'', KStr ''ancestors''), (''controllerName'', KStr controller)]"

record kubernetes_condition =
  kc_object :: kubernetes_object_ref
  kc_conditionsAt :: condition_location
  kc_type :: string
  kc_timeoutSeconds :: rat

definition kubernetes_condition_value :: "kubernetes_condition \<Rightarrow> kjson" where
  "kubernetes_condition_value c =
     ko [(''kind'', KStr ''kubernetes-condition''), (''object'', kubernetes_object_ref_value (kc_object c)),
         (''conditionsAt'', condition_location_value (kc_conditionsAt c)),
         (''condition'', ko [(''type'', KStr (kc_type c)), (''status'', KStr ''True''),
                             (''observedGeneration'', KStr ''must-equal-metadata-generation'')]),
         (''timeoutSeconds'', KNum (kc_timeoutSeconds c))]"

datatype routing_readiness =
    KubernetesCondition kubernetes_condition
  | KubernetesJobComplete kubernetes_object_ref rat
  | KubernetesDeploymentAvailable kubernetes_object_ref rat
  | KubernetesServiceEndpoints kubernetes_service_ref rat
  | GcpTrafficExtensionReady string string string

definition object_readiness_value :: "string \<Rightarrow> kubernetes_object_ref \<Rightarrow> rat \<Rightarrow> kjson" where
  "object_readiness_value kind r timeout =
     ko [(''kind'', KStr kind), (''object'', kubernetes_object_ref_value r), (''timeoutSeconds'', KNum timeout)]"

fun routing_readiness_value :: "routing_readiness \<Rightarrow> kjson" where
  "routing_readiness_value (KubernetesCondition c) = kubernetes_condition_value c"
| "routing_readiness_value (KubernetesJobComplete r t) = object_readiness_value ''kubernetes-job-complete'' r t"
| "routing_readiness_value (KubernetesDeploymentAvailable r t) = object_readiness_value ''kubernetes-deployment-available'' r t"
| "routing_readiness_value (KubernetesServiceEndpoints s n) =
     ko [(''kind'', KStr ''kubernetes-service-endpoints''), (''service'', kubernetes_service_ref_value s), (''minimumReady'', KNum n)]"
| "routing_readiness_value (GcpTrafficExtensionReady project extension address) =
     ko [(''kind'', KStr ''gcp-traffic-extension''), (''projectId'', KStr project), (''extensionName'', KStr extension),
         (''addressName'', KStr address), (''requireEveryForwardingRule'', KBool True)]"

datatype routing_registration = NoRegistration | GcpTrafficExtensionV1 string string string

fun routing_registration_value :: "routing_registration \<Rightarrow> kjson" where
  "routing_registration_value NoRegistration = ko [(''kind'', KStr ''none'')]"
| "routing_registration_value (GcpTrafficExtensionV1 project extension address) =
     ko [(''kind'', KStr ''gcp-traffic-extension-v1''), (''projectId'', KStr project), (''extensionName'', KStr extension),
         (''addressName'', KStr address)]"

datatype dataplane =
    PortableHttpOrigin kubernetes_service_ref string "routing_readiness list"
  | ExternalExtProc string "routing_readiness list"
  | AdapterOwnedEnvoyProxy kubernetes_service_ref "routing_readiness list"

fun dataplane_value :: "dataplane \<Rightarrow> kjson" where
  "dataplane_value (PortableHttpOrigin service pool readiness) =
     ko [(''kind'', KStr ''portable-http-origin''), (''service'', kubernetes_service_ref_value service), (''targetPool'', KStr pool),
         (''readiness'', KArr (map routing_readiness_value readiness))]"
| "dataplane_value (ExternalExtProc transport readiness) =
     ko [(''kind'', KStr ''external-ext-proc''), (''transport'', KStr transport), (''readiness'', KArr (map routing_readiness_value readiness))]"
| "dataplane_value (AdapterOwnedEnvoyProxy service readiness) =
     ko [(''kind'', KStr ''adapter-owned-envoy-proxy''), (''service'', kubernetes_service_ref_value service),
         (''readiness'', KArr (map routing_readiness_value readiness))]"

fun dataplane_readiness :: "dataplane \<Rightarrow> routing_readiness list" where
  "dataplane_readiness (PortableHttpOrigin s p readiness) = readiness"
| "dataplane_readiness (ExternalExtProc t readiness) = readiness"
| "dataplane_readiness (AdapterOwnedEnvoyProxy s readiness) = readiness"

record routing_plan =
  rt_protocol :: string
  rt_failurePolicy :: string
  rt_registration :: "routing_registration option"
  rt_dataplane :: dataplane

definition routing_plan_value :: "routing_plan \<Rightarrow> kjson" where
  "routing_plan_value r =
     ko ([(''protocol'', KStr (rt_protocol r)), (''failurePolicy'', KStr (rt_failurePolicy r))]
         @ kmember ''registration'' (map_option routing_registration_value (rt_registration r))
         @ [(''dataplane'', dataplane_value (rt_dataplane r))])"


section \<open>Cleanup\<close>

record kubernetes_owned_object =
  own_ref :: kubernetes_object_ref
  own_lifecycle :: string
  own_releaseLabel :: string
  own_helmRelease :: "(string \<times> string) option"

definition kubernetes_owned_object_value :: "kubernetes_owned_object \<Rightarrow> kjson" where
  "kubernetes_owned_object_value w =
     ko [(''ref'', kubernetes_object_ref_value (own_ref w)), (''lifecycle'', KStr (own_lifecycle w)),
         (''ownership'',
            ko ((''releaseLabel'', ko [(''key'', KStr ''adapter-k8s.dev/release''), (''value'', KStr (own_releaseLabel w))])
                # kmember ''helmRelease'' (map_option (\<lambda>(n, ns). ko [(''name'', KStr n), (''namespace'', KStr ns)]) (own_helmRelease w))))]"

datatype external_cleanup =
    CleanStorageBucket string string
  | CleanServiceAccount string string
  | CleanMemorystore string string string
  | CleanTrafficExtension string string
  | CleanBackendService string string
  | CleanHealthCheck string string
  | CleanGlobalAddress string string
  | CleanCustomIamRole string string

definition project_value :: "string \<Rightarrow> string \<Rightarrow> (string \<times> kjson) list \<Rightarrow> kjson" where
  "project_value kind project members = ko ((''kind'', KStr kind) # (''projectId'', KStr project) # members)"

fun external_cleanup_value :: "external_cleanup \<Rightarrow> kjson" where
  "external_cleanup_value (CleanStorageBucket p b) = project_value ''gcp-storage-bucket'' p [(''bucket'', KStr b)]"
| "external_cleanup_value (CleanServiceAccount p e) = project_value ''gcp-service-account'' p [(''email'', KStr e)]"
| "external_cleanup_value (CleanMemorystore p r n) = project_value ''gcp-memorystore'' p [(''region'', KStr r), (''name'', KStr n)]"
| "external_cleanup_value (CleanTrafficExtension p n) =
     project_value ''gcp-traffic-extension'' p [(''name'', KStr n), (''location'', KStr ''global'')]"
| "external_cleanup_value (CleanBackendService p n) =
     project_value ''gcp-backend-service'' p [(''name'', KStr n), (''scope'', KStr ''global'')]"
| "external_cleanup_value (CleanHealthCheck p n) = project_value ''gcp-health-check'' p [(''name'', KStr n), (''scope'', KStr ''global'')]"
| "external_cleanup_value (CleanGlobalAddress p n) = project_value ''gcp-global-address'' p [(''name'', KStr n)]"
| "external_cleanup_value (CleanCustomIamRole p r) = project_value ''gcp-custom-iam-role'' p [(''roleId'', KStr r)]"

datatype retained_external =
    RetainedGkeCluster string string gcp_location
  | RetainedArtifactRegistry string string string
  | RetainedCertificateManager string string

fun retained_external_value :: "retained_external \<Rightarrow> kjson" where
  "retained_external_value (RetainedGkeCluster p c l) =
     project_value ''gke-cluster'' p [(''clusterName'', KStr c), (''location'', gcp_location_value l)]"
| "retained_external_value (RetainedArtifactRegistry p r n) =
     project_value ''gcp-artifact-registry'' p [(''region'', KStr r), (''repository'', KStr n)]"
| "retained_external_value (RetainedCertificateManager p r) = project_value ''gcp-certificate-manager'' p [(''releasePrefix'', KStr r)]"

record cleanup_plan =
  cl_contributedObjects :: "kubernetes_owned_object list"
  cl_external :: "external_cleanup list"
  cl_retained :: "retained_external list"

definition cleanup_plan_value :: "cleanup_plan \<Rightarrow> kjson" where
  "cleanup_plan_value c =
     ko [(''kubernetes'', ko [(''strategy'', KStr ''adapter-release-v1''),
            (''contributedObjects'', KArr (map kubernetes_owned_object_value (cl_contributedObjects c)))]),
         (''external'', KArr (map external_cleanup_value (cl_external c))),
         (''retained'', KArr (map retained_external_value (cl_retained c)))]"

section \<open>Diagnostics and logs\<close>

datatype diagnostic_source =
    DiagnoseCondition kubernetes_condition string
  | DiagnoseGatewayAddress kubernetes_object_ref
  | DiagnoseAuth string
  | DiagnoseGlobalAddress string string
  | DiagnoseStorageBucket string string
  | DiagnoseArtifactRegistry string string string
  | DiagnoseBackendHealth string string
  | DiagnoseTrafficExtension string string string
  | DiagnoseBackendServiceShape string string
  | DiagnoseHealthCheckShape string string string
  | DiagnoseCertificate string string

fun diagnostic_source_value :: "diagnostic_source \<Rightarrow> kjson" where
  "diagnostic_source_value (DiagnoseCondition c label) =
     ko [(''kind'', KStr ''kubernetes-condition''), (''check'', kubernetes_condition_value c), (''label'', KStr label)]"
| "diagnostic_source_value (DiagnoseGatewayAddress r) =
     ko [(''kind'', KStr ''kubernetes-gateway-address''), (''gateway'', kubernetes_object_ref_value r)]"
| "diagnostic_source_value (DiagnoseAuth p) = project_value ''gcp-auth'' p []"
| "diagnostic_source_value (DiagnoseGlobalAddress p n) = project_value ''gcp-global-address'' p [(''name'', KStr n)]"
| "diagnostic_source_value (DiagnoseStorageBucket p b) = project_value ''gcp-storage-bucket'' p [(''bucket'', KStr b)]"
| "diagnostic_source_value (DiagnoseArtifactRegistry p r n) =
     project_value ''gcp-artifact-registry'' p [(''region'', KStr r), (''repository'', KStr n)]"
| "diagnostic_source_value (DiagnoseBackendHealth p r) = project_value ''gcp-backend-health'' p [(''releasePrefix'', KStr r)]"
| "diagnostic_source_value (DiagnoseTrafficExtension p e a) =
     project_value ''gcp-traffic-extension'' p [(''extensionName'', KStr e), (''addressName'', KStr a)]"
| "diagnostic_source_value (DiagnoseBackendServiceShape p n) =
     project_value ''gcp-backend-service-shape'' p
       [(''name'', KStr n), (''loadBalancingScheme'', KStr ''EXTERNAL_MANAGED''), (''requireBackend'', KBool True)]"
| "diagnostic_source_value (DiagnoseHealthCheckShape p n t) =
     project_value ''gcp-health-check-shape'' p [(''name'', KStr n), (''expectedType'', KStr t)]"
| "diagnostic_source_value (DiagnoseCertificate p n) = project_value ''gcp-certificate'' p [(''name'', KStr n)]"

record log_source =
  lg_namespace :: string
  lg_releaseName :: string

definition log_source_value :: "log_source \<Rightarrow> kjson" where
  "log_source_value l =
     ko [(''kind'', KStr ''kubernetes-pods''), (''namespace'', KStr (lg_namespace l)),
         (''selector'', ko [(''releaseName'', KStr (lg_releaseName l))]), (''containers'', KStr ''all'')]"

section \<open>Telemetry\<close>

datatype telemetry_activation =
    AppInstrumentationHook
  | OtelOperator kubernetes_object_ref
  | ExternalPrecondition string
  | Managed

fun telemetry_activation_value :: "telemetry_activation \<Rightarrow> kjson" where
  "telemetry_activation_value AppInstrumentationHook = ko [(''kind'', KStr ''app-instrumentation-hook'')]"
| "telemetry_activation_value (OtelOperator r) =
     ko [(''kind'', KStr ''otel-operator''), (''instrumentation'', kubernetes_object_ref_value r)]"
| "telemetry_activation_value (ExternalPrecondition d) = ko [(''kind'', KStr ''external-precondition''), (''description'', KStr d)]"
| "telemetry_activation_value Managed = ko [(''kind'', KStr ''managed'')]"

datatype telemetry_signal = SpanSignal string | MetricSignal string string "string option" | LogSignal string

fun telemetry_signal_value :: "telemetry_signal \<Rightarrow> kjson" where
  "telemetry_signal_value (SpanSignal n) = ko [(''kind'', KStr ''span''), (''name'', KStr n)]"
| "telemetry_signal_value (MetricSignal n i u) =
     ko ([(''kind'', KStr ''metric''), (''name'', KStr n), (''instrument'', KStr i)] @ kmember ''unit'' (map_option KStr u))"
| "telemetry_signal_value (LogSignal n) = ko [(''kind'', KStr ''log''), (''name'', KStr n)]"

datatype telemetry_workload =
    AdapterPool string
  | AdapterRoutingService
  | KubernetesObject kubernetes_object_ref
  | ManagedService string

fun telemetry_workload_value :: "telemetry_workload \<Rightarrow> kjson" where
  "telemetry_workload_value (AdapterPool p) = ko [(''kind'', KStr ''adapter-pool''), (''pool'', KStr p)]"
| "telemetry_workload_value AdapterRoutingService = ko [(''kind'', KStr ''adapter-routing-service'')]"
| "telemetry_workload_value (KubernetesObject r) = ko [(''kind'', KStr ''kubernetes-object''), (''object'', kubernetes_object_ref_value r)]"
| "telemetry_workload_value (ManagedService n) = ko [(''kind'', KStr ''managed-service''), (''name'', KStr n)]"

definition strings_value :: "string list \<Rightarrow> kjson" where
  "strings_value ss = KArr (map KStr ss)"

definition string_map_value :: "(string \<times> string) list \<Rightarrow> kjson" where
  "string_map_value m = ko (map (\<lambda>(k, v). (k, KStr v)) m)"

record telemetry_source =
  te_id :: string
  te_producerKind :: string
  te_producerName :: string
  te_owner :: string
  te_activation :: telemetry_activation
  te_protocols :: "string list"
  te_propagation :: "string list"
  te_signals :: "telemetry_signal list"
  te_workloads :: "telemetry_workload list"
  te_attributes :: "(string \<times> string) list"

definition telemetry_source_value :: "telemetry_source \<Rightarrow> kjson" where
  "telemetry_source_value t =
     ko [(''id'', KStr (te_id t)),
         (''producer'', ko [(''kind'', KStr (te_producerKind t)), (''name'', KStr (te_producerName t))]),
         (''owner'', KStr (te_owner t)), (''activation'', telemetry_activation_value (te_activation t)),
         (''protocols'', strings_value (te_protocols t)), (''propagation'', strings_value (te_propagation t)),
         (''signals'', KArr (map telemetry_signal_value (te_signals t))), (''workloads'', KArr (map telemetry_workload_value (te_workloads t))),
         (''attributes'', string_map_value (te_attributes t))]"

section \<open>The plan\<close>

record kubernetes_api_requirement =
  rq_apiVersion :: string
  rq_resource :: string
  rq_optional :: bool

definition kubernetes_api_requirement_value :: "kubernetes_api_requirement \<Rightarrow> kjson" where
  "kubernetes_api_requirement_value r =
     ko [(''apiVersion'', KStr (rq_apiVersion r)), (''resource'', KStr (rq_resource r)), (''optional'', KBool (rq_optional r))]"

record kubernetes_manifest =
  mf_apiVersion :: string
  mf_kind :: string
  mf_resource :: string
  mf_name :: string
  mf_namespace :: "string option"
  mf_labels :: "(string \<times> string) list option"
  mf_annotations :: "(string \<times> string) list option"
  mf_body :: "kjson option"

definition kubernetes_manifest_value :: "kubernetes_manifest \<Rightarrow> kjson" where
  "kubernetes_manifest_value m =
     ko ([(''apiVersion'', KStr (mf_apiVersion m)), (''kind'', KStr (mf_kind m)), (''resource'', KStr (mf_resource m)),
          (''metadata'', ko ((''name'', KStr (mf_name m)) # kmember ''namespace'' (map_option KStr (mf_namespace m))
             @ kmember ''labels'' (map_option string_map_value (mf_labels m))
             @ kmember ''annotations'' (map_option string_map_value (mf_annotations m))))]
         @ kmember ''body'' (mf_body m))"

record plan_metadata =
  pm_releaseName :: string
  pm_namespace :: string
  pm_buildId :: string

record plan_target =
  pt_fingerprint :: string
  pt_identity :: cluster_identity
  pt_access :: cluster_access
  pt_registry :: registry_plan

record plan_operations =
  op_objects :: "kubernetes_manifest list"
  op_readiness :: "routing_readiness list"
  op_network :: network_plan
  op_cache :: cache_provisioning
  op_cdn :: cdn_invalidation
  op_routing :: routing_plan
  op_cleanup :: cleanup_plan
  op_diagnostics :: "diagnostic_source list"
  op_logs :: "log_source list"
  op_telemetry :: "telemetry_source list option"

record composition_plan =
  cp_metadata :: plan_metadata
  cp_target :: plan_target
  cp_minimumVersion :: string
  cp_apiResources :: "kubernetes_api_requirement list"
  cp_operations :: plan_operations

definition COMPOSITION_PLAN_API_VERSION :: string where
  "COMPOSITION_PLAN_API_VERSION = ''adapter-k8s.nextjs.org/v1alpha1''"
definition COMPOSITION_PLAN_KIND :: string where "COMPOSITION_PLAN_KIND = ''CompositionPlan''"
definition MINIMUM_KUBERNETES_VERSION :: string where "MINIMUM_KUBERNETES_VERSION = ''1.33.0''"

definition metadata_value :: "plan_metadata \<Rightarrow> kjson" where
  "metadata_value m =
     ko [(''releaseName'', KStr (pm_releaseName m)), (''namespace'', KStr (pm_namespace m)), (''buildId'', KStr (pm_buildId m))]"

definition target_value :: "plan_target \<Rightarrow> kjson" where
  "target_value t =
     ko [(''fingerprint'', KStr (pt_fingerprint t)), (''identity'', cluster_identity_value (pt_identity t)),
         (''access'', cluster_access_value (pt_access t)), (''registry'', registry_plan_value (pt_registry t))]"

definition requirements_value :: "string \<Rightarrow> kubernetes_api_requirement list \<Rightarrow> kjson" where
  "requirements_value version rs =
     ko [(''kubernetes'', ko [(''minimumVersion'', KStr version), (''resources'', KArr (map kubernetes_api_requirement_value rs))])]"

definition operations_value :: "plan_operations \<Rightarrow> kjson" where
  "operations_value p =
     ko ([(''resources'', ko [(''objects'', KArr (map kubernetes_manifest_value (op_objects p))),
             (''readiness'', KArr (map routing_readiness_value (op_readiness p)))]),
          (''network'', network_plan_value (op_network p)), (''cache'', cache_provisioning_value (op_cache p)),
          (''cdn'', cdn_invalidation_value (op_cdn p)), (''routing'', routing_plan_value (op_routing p)),
          (''cleanup'', cleanup_plan_value (op_cleanup p)), (''diagnostics'', KArr (map diagnostic_source_value (op_diagnostics p))),
          (''logs'', KArr (map log_source_value (op_logs p)))]
         @ kmember ''telemetry'' (map_option (\<lambda>ts. KArr (map telemetry_source_value ts)) (op_telemetry p)))"

definition plan_value :: "composition_plan \<Rightarrow> kjson" where
  "plan_value p =
     ko [(''apiVersion'', KStr COMPOSITION_PLAN_API_VERSION), (''kind'', KStr COMPOSITION_PLAN_KIND),
         (''metadata'', metadata_value (cp_metadata p)), (''target'', target_value (cp_target p)),
         (''requirements'', requirements_value (cp_minimumVersion p) (cp_apiResources p)),
         (''operations'', operations_value (cp_operations p))]"

end
