(* ===== verification/PlanSchema.thy ===== *)
theory PlanSchema
  imports PlanTypes
begin

text \<open>
  The reading primitives of \<^verbatim>\<open>src/composition-plan/parse.ts\<close> and what they promise. A reader gets the
  value of a member (\<open>None\<close> when it is \<open>undefined\<close>) and the path for the error it may throw; messages
  are left out. Every reader of the plan is strict: what it returns, seen as an object again, is the
  value it read, up to the order of keys.
\<close>

section \<open>Primitives\<close>

datatype plan_error = PlanError string

type_synonym 'a plan_reader = "json option \<Rightarrow> string \<Rightarrow> (plan_error, 'a) res"

definition object_at :: "(string \<times> json) list plan_reader" where
  "object_at v path = (case v of Some (JObj fs) \<Rightarrow> Inr fs | _ \<Rightarrow> Inl (PlanError path))"

definition exactKeys :: "(string \<times> json) list \<Rightarrow> string list \<Rightarrow> string \<Rightarrow> (plan_error, unit) res" where
  "exactKeys fs allowed path = (if list_all (\<lambda>(k, _). k \<in> set allowed) fs then Inr () else Inl (PlanError path))"

definition string_at :: "string plan_reader" where
  "string_at v path = (case v of Some (JStr s) \<Rightarrow> if s = [] then Inl (PlanError path) else Inr s | _ \<Rightarrow> Inl (PlanError path))"

definition safe_text :: "nat \<Rightarrow> string \<Rightarrow> bool" where
  "safe_text maxLength s = (length s \<le> maxLength \<and> \<not> list_ex control_char s \<and> \<not> (\<exists>t. s = CHR ''-'' # t))"

lemma safe_text_code [code]:
  "safe_text maxLength s = (length s \<le> maxLength \<and> \<not> list_ex control_char s \<and> (case s of [] \<Rightarrow> True | c # _ \<Rightarrow> c \<noteq> CHR ''-''))"
  by (auto simp: safe_text_def split: list.splits)

definition safeText :: "nat \<Rightarrow> string plan_reader" where
  "safeText maxLength v path =
     res_bind (string_at v path) (\<lambda>parsed. if safe_text maxLength parsed then Inr parsed else Inl (PlanError path))"

definition literal_at :: "json \<Rightarrow> unit plan_reader" where
  "literal_at expected v path = (if v = Some expected then Inr () else Inl (PlanError path))"

definition oneOf :: "string list \<Rightarrow> string plan_reader" where
  "oneOf expected v path =
     (case v of Some (JStr s) \<Rightarrow> if s \<in> set expected then Inr s else Inl (PlanError path) | _ \<Rightarrow> Inl (PlanError path))"

definition integer_at :: "rat \<Rightarrow> rat \<Rightarrow> rat plan_reader" where
  "integer_at minimum maximum v path =
     (case v of
        Some (JNum q) \<Rightarrow> if is_integer q \<and> minimum \<le> q \<and> q \<le> maximum then Inr q else Inl (PlanError path)
      | _ \<Rightarrow> Inl (PlanError path))"

definition at_index :: "string \<Rightarrow> nat \<Rightarrow> string" where
  "at_index path i = path @ ''['' @ nat_dec i @ '']''"

fun read_entries :: "'a plan_reader \<Rightarrow> string \<Rightarrow> nat \<Rightarrow> json list \<Rightarrow> (plan_error, 'a list) res" where
  "read_entries parse path i [] = Inr []"
| "read_entries parse path i (v # vs) =
     res_bind (parse (Some v) (at_index path i)) (\<lambda>x. res_bind (read_entries parse path (Suc i) vs) (\<lambda>xs. Inr (x # xs)))"

definition array_at :: "nat \<Rightarrow> 'a plan_reader \<Rightarrow> 'a list plan_reader" where
  "array_at maximum parse v path =
     (case v of
        Some (JArr vs) \<Rightarrow> if length vs > maximum then Inl (PlanError path) else read_entries parse path 0 vs
      | _ \<Rightarrow> Inl (PlanError path))"

definition validated :: "(string \<Rightarrow> bool) \<Rightarrow> string plan_reader" where
  "validated check v path = res_bind (string_at v path) (\<lambda>parsed. if check parsed then Inr parsed else Inl (PlanError path))"

definition optional_at :: "'a plan_reader \<Rightarrow> 'a option plan_reader" where
  "optional_at parse v path = (case v of None \<Rightarrow> Inr None | Some j \<Rightarrow> res_bind (parse (Some j) path) (\<lambda>x. Inr (Some x)))"

definition fail_if :: "bool \<Rightarrow> string \<Rightarrow> (plan_error, unit) res" where
  "fail_if b path = (if b then Inl (PlanError path) else Inr ())"

lemma object_at_Inr [res_simps]: "object_at v path = Inr fs \<longleftrightarrow> v = Some (JObj fs)"
  by (auto simp: object_at_def split: option.splits json.splits)

lemma string_at_Inr [res_simps]: "string_at v path = Inr s \<longleftrightarrow> v = Some (JStr s) \<and> s \<noteq> []"
  by (auto simp: string_at_def split: option.splits json.splits)

lemma safeText_Inr [res_simps]: "safeText n v path = Inr s \<longleftrightarrow> v = Some (JStr s) \<and> s \<noteq> [] \<and> safe_text n s"
  by (auto simp: safeText_def res_simps)

lemma literal_at_Inr [res_simps]: "literal_at e v path = Inr u \<longleftrightarrow> v = Some e"
  by (auto simp: literal_at_def)

definition among :: "string list \<Rightarrow> string \<Rightarrow> bool" where "among es s = (s \<in> set es)"

lemma oneOf_Inr [res_simps]: "oneOf es v path = Inr s \<longleftrightarrow> v = Some (JStr s) \<and> among es s"
  by (auto simp: oneOf_def among_def split: option.splits json.splits)

lemma integer_at_Inr [res_simps]:
  "integer_at a b v path = Inr q \<longleftrightarrow> v = Some (JNum q) \<and> is_integer q \<and> a \<le> q \<and> q \<le> b"
  by (auto simp: integer_at_def split: option.splits json.splits)

lemma validated_Inr [res_simps]: "validated check v path = Inr s \<longleftrightarrow> v = Some (JStr s) \<and> s \<noteq> [] \<and> check s"
  by (auto simp: validated_def res_simps)

lemma fail_if_Inr [res_simps]: "fail_if b path = Inr u \<longleftrightarrow> \<not> b"
  by (auto simp: fail_if_def)

lemma array_at_Inr [res_simps]:
  "array_at n parse v path = Inr xs \<longleftrightarrow> (\<exists>vs. v = Some (JArr vs) \<and> length vs \<le> n \<and> read_entries parse path 0 vs = Inr xs)"
  by (auto simp: array_at_def split: option.splits json.splits)

lemma read_entries_length: "read_entries parse path i vs = Inr xs \<Longrightarrow> length xs = length vs"
  by (induction vs arbitrary: i xs) (auto simp: res_simps)

lemma optional_at_Inr [res_simps]:
  "optional_at parse v path = Inr x \<longleftrightarrow> v = None \<and> x = None \<or> (\<exists>y. v \<noteq> None \<and> parse v path = Inr y \<and> x = Some y)"
  by (cases v) (auto simp: optional_at_def res_simps)

section \<open>Equality up to the order of keys\<close>

text \<open>The value of a parsed text: \<open>JSON.parse\<close> makes every key an own property.\<close>

fun kj :: "json \<Rightarrow> kjson" where
  "kj JNull = KNull"
| "kj (JBool b) = KBool b"
| "kj (JNum q) = KNum q"
| "kj JHuge = KNull"
| "kj (JStr s) = KStr s"
| "kj (JArr vs) = KArr (map kj vs)"
| "kj (JObj fs) = KObj (map (\<lambda>(k, v). (k, kj v)) fs) None"

fun plain_object :: "kjson option \<Rightarrow> bool" where
  "plain_object None = True"
| "plain_object (Some KNull) = True"
| "plain_object _ = False"

inductive same :: "kjson \<Rightarrow> kjson \<Rightarrow> bool" where
  same_null: "same KNull KNull"
| same_bool: "same (KBool b) (KBool b)"
| same_num: "same (KNum q) (KNum q)"
| same_str: "same (KStr s) (KStr s)"
| same_arr: "list_all2 same xs ys \<Longrightarrow> same (KArr xs) (KArr ys)"
| same_obj: "distinct (map fst fs) \<Longrightarrow> distinct (map fst gs) \<Longrightarrow> set (map fst fs) = set (map fst gs) \<Longrightarrow>
    plain_object p \<Longrightarrow> plain_object q \<Longrightarrow>
    (\<And>k x y. map_of fs k = Some x \<Longrightarrow> map_of gs k = Some y \<Longrightarrow> same x y) \<Longrightarrow> same (KObj fs p) (KObj gs q)"
monos list_all2_mono

text \<open>
  What \<open>JSON.parse\<close> returns has distinct keys. Two members are read leniently: a key \<open>__proto__\<close>, and
  a \<open>body\<close> that JavaScript takes for false.
\<close>

fun falsy :: "json \<Rightarrow> bool" where
  "falsy JNull = True"
| "falsy (JBool b) = (\<not> b)"
| "falsy (JNum q) = (q = 0)"
| "falsy (JStr s) = (s = [])"
| "falsy _ = False"

fun clean :: "json \<Rightarrow> bool" where
  "clean (JArr vs) = list_all clean vs"
| "clean (JObj fs) = (distinct (map fst fs) \<and>
     list_all (\<lambda>(k, v). k \<noteq> ''__proto__'' \<and> (k = ''body'' \<longrightarrow> \<not> falsy v) \<and> clean v) fs)"
| "clean _ = True"

definition reads_as :: "json option \<Rightarrow> kjson option \<Rightarrow> bool" where
  "reads_as v w = (case v of None \<Rightarrow> w = None | Some j \<Rightarrow> clean j \<longrightarrow> (\<exists>e. w = Some e \<and> same (kj j) e))"

lemma reads_as_simps [simp]:
  "reads_as None w \<longleftrightarrow> w = None" "reads_as (Some (JStr s)) (Some (KStr t)) \<longleftrightarrow> s = t" "reads_as (Some (JNum q)) (Some (KNum r)) \<longleftrightarrow> q = r"
  "reads_as (Some (JBool b)) (Some (KBool c)) \<longleftrightarrow> b = c"
  by (auto simp: reads_as_def intro: same.intros elim: same.cases)

lemma clean_member: "clean (JObj fs) \<Longrightarrow> map_of fs k = Some v \<Longrightarrow> clean v"
  by (auto simp: list_all_iff dest!: map_of_SomeD)

lemma map_of_kj: "map_of (map (\<lambda>(k, v). (k, kj v)) fs) k = map_option kj (map_of fs k)"
  by (induction fs) auto

lemma reads_as_object:
  assumes "exactKeys fs ks path = Inr ()" "\<forall>k \<in> set ks. reads_as (map_of fs k) (map_of gs k)"
    "set (map fst gs) \<subseteq> set ks" "distinct (map fst gs)"
  shows "reads_as (Some (JObj fs)) (Some (ko gs))"
proof -
  have keys: "fst ` set fs \<subseteq> set ks" using assms(1) by (auto simp: exactKeys_def list_all_iff split: if_splits)
  have "same (kj (JObj fs)) (ko gs)" if c: "clean (JObj fs)"
  proof -
    have member: "\<exists>e. map_of gs k = Some e \<and> same (kj v) e" if "map_of fs k = Some v" for k v
    proof -
      have "reads_as (Some v) (map_of gs k)" using assms(2) that keys
        by (metis (no_types, lifting) domI dom_map_of_conv_image_fst subsetD)
      then show ?thesis using clean_member [OF c that] by (auto simp: reads_as_def)
    qed
    have absent: "map_of gs k = None" if "map_of fs k = None" for k
    proof (cases "k \<in> set ks")
      case True
      then have "reads_as (map_of fs k) (map_of gs k)" using assms(2) by blast
      then show ?thesis using that by simp
    qed (use assms(3) in \<open>auto simp: map_of_eq_None_iff\<close>)
    have "map_of gs k = None \<longleftrightarrow> map_of fs k = None" for k using member absent by (metis not_None_eq)
    then have "set (map fst fs) = set (map fst gs)" by (auto simp: map_of_eq_None_iff)
    moreover have "same x y" if "map_of (map (\<lambda>(k, v). (k, kj v)) fs) k = Some x" "map_of gs k = Some y" for k x y
      using that member by (fastforce simp: map_of_kj)
    ultimately show ?thesis using c assms(4) by (auto intro!: same_obj simp: comp_def split_beta)
  qed
  then show ?thesis by (simp add: reads_as_def)
qed

lemma reads_as_members:
  assumes "exactKeys fs ks path = Inr ()" "list_all (\<lambda>k. reads_as (map_of fs k) (map_of gs k)) ks"
    "list_all (\<lambda>(k, _). list_ex ((=) k) ks) gs" "distinct (map fst gs)"
  shows "reads_as (Some (JObj fs)) (Some (ko gs))"
  using assms by (intro reads_as_object [of fs ks path]) (auto simp: list_all_iff list_ex_iff)

section \<open>Strict readers\<close>

locale strict_reader =
  fixes parse :: "'a plan_reader" and val :: "'a \<Rightarrow> kjson"
  assumes strict: "parse v path = Inr x \<Longrightarrow> reads_as v (Some (val x))"
begin

lemma entries_strict:
  "read_entries parse path i vs = Inr xs \<Longrightarrow> list_all clean vs \<Longrightarrow> list_all2 same (map kj vs) (map val xs)"
proof (induction vs arbitrary: i xs)
  case (Cons v vs)
  then obtain x ys where *: "parse (Some v) (at_index path i) = Inr x" "read_entries parse path (Suc i) vs = Inr ys" "xs = x # ys"
    by (auto simp: res_simps)
  then have "same (kj v) (val x)" using strict [OF *(1)] Cons.prems(2) by (simp add: reads_as_def)
  then show ?case using Cons.IH [OF *(2)] Cons.prems(2) * by simp
qed simp

lemma array_strict: "array_at n parse v path = Inr xs \<Longrightarrow> reads_as v (Some (KArr (map val xs)))"
proof -
  assume "array_at n parse v path = Inr xs"
  then obtain vs where v: "v = Some (JArr vs)" and xs: "read_entries parse path 0 vs = Inr xs" by (auto simp: res_simps)
  have "same (kj (JArr vs)) (KArr (map val xs))" if "clean (JArr vs)"
    unfolding kj.simps by (rule same_arr) (use entries_strict [OF xs] that in simp)
  then show ?thesis by (simp add: reads_as_def v)
qed

lemma optional_strict: "optional_at parse v path = Inr x \<Longrightarrow> reads_as v (map_option val x)"
  using strict by (auto simp: res_simps)

end

interpretation text_reader: strict_reader "safeText n" KStr for n
  by unfold_locales (auto simp: res_simps)

interpretation validated_reader: strict_reader "validated check" KStr for check
  by unfold_locales (auto simp: res_simps)

interpretation choice_reader: strict_reader "oneOf es" KStr for es
  by unfold_locales (auto simp: res_simps)

interpretation integer_reader: strict_reader "integer_at a b" KNum for a b
  by unfold_locales (auto simp: res_simps)

end
