(* ===== verification/PlanReaders.thy ===== *)
theory PlanReaders
  imports PlanSchema
begin

text \<open>
  The readers of the target, network, cache, CDN and routing parts of a plan
  (\<^verbatim>\<open>src/composition-plan/parse.ts\<close>), each with its proof of strictness.
\<close>

definition dot :: "string \<Rightarrow> string \<Rightarrow> string" where
  "dot path key = path @ ''.'' @ key"

definition member_at :: "'a plan_reader \<Rightarrow> (string \<times> json) list \<Rightarrow> string \<Rightarrow> string \<Rightarrow> (plan_error, 'a) res" where
  "member_at parse fs path key = parse (map_of fs key) (dot path key)"

definition is_project :: "string \<Rightarrow> bool" where "is_project s = (assertSafeProjectId s = Inr ())"
definition is_region :: "string \<Rightarrow> bool" where "is_region s = (assertSafeRegion s = Inr ())"
definition is_registry :: "string \<Rightarrow> bool" where "is_registry s = (assertSafeImageRegistry s = Inr ())"
definition is_gcp_name :: "string \<Rightarrow> bool" where "is_gcp_name s = (assertSafeGcpResourceName (Some (JStr s)) [] = Inr ())"
definition is_release :: "string \<Rightarrow> bool" where "is_release s = (assertSafeReleaseName s = Inr ())"
definition is_namespace :: "string \<Rightarrow> bool" where "is_namespace s = (assertSafeNamespace (Some (JStr s)) = Inr ())"
definition is_service :: "string \<Rightarrow> bool" where "is_service s = (assertSafeServiceName (Some (JStr s)) = Inr ())"
definition is_object_name :: "string \<Rightarrow> bool" where
  "is_object_name s = (assertSafeKubernetesObjectName (Some (JStr s)) [] = Inr ())"
definition is_pool :: "string \<Rightarrow> bool" where "is_pool s = (assertSafePoolName s = Inr ())"
definition is_bucket :: "string \<Rightarrow> bool" where "is_bucket s = (assertSafeBucketName s = Inr ())"
definition is_build_id :: "string \<Rightarrow> bool" where "is_build_id s = (assertSafeBuildIdName s = Inr ())"

lemma reads_as_single:
  "exactKeys fs [k] path = Inr () \<Longrightarrow> reads_as (map_of fs k) (Some x) \<Longrightarrow> reads_as (Some (JObj fs)) (Some (ko [(k, x)]))"
  by (erule reads_as_members) auto

lemmas reader_simps = res_simps member_at_def

section \<open>Target\<close>

definition parseGcpLocation :: "gcp_location plan_reader" where
  "parseGcpLocation v path =
     res_bind (object_at v path) (\<lambda>parsed.
     res_bind (exactKeys parsed [''kind'', ''name''] path) (\<lambda>_.
     res_bind (member_at (oneOf [''region'', ''zone'']) parsed path ''kind'') (\<lambda>kind.
     res_bind (member_at (validated is_region) parsed path ''name'') (\<lambda>name.
     Inr (if kind = ''region'' then Region name else Zone name)))))"

interpretation location_reader: strict_reader parseGcpLocation gcp_location_value
  by unfold_locales (auto simp: parseGcpLocation_def reader_simps among_def; erule reads_as_members; auto)

definition parseClusterIdentity :: "cluster_identity plan_reader" where
  "parseClusterIdentity v path =
     res_bind (object_at v path) (\<lambda>parsed.
     res_bind (member_at string_at parsed path ''kind'') (\<lambda>kind.
     (if kind = ''gke-resource'' then
       res_bind (exactKeys parsed [''kind'', ''projectId'', ''clusterName'', ''location'', ''expectedKubeSystemUid''] path) (\<lambda>_.
       res_bind (member_at (optional_at (safeText 253)) parsed path ''expectedKubeSystemUid'') (\<lambda>uid.
       res_bind (member_at (validated is_project) parsed path ''projectId'') (\<lambda>projectId.
       res_bind (member_at (safeText 63) parsed path ''clusterName'') (\<lambda>clusterName.
       res_bind (member_at parseGcpLocation parsed path ''location'') (\<lambda>location.
       Inr (GkeResource projectId clusterName location uid))))))
     else if kind = ''kubernetes-namespace-uid'' then
       res_bind (exactKeys parsed [''kind'', ''namespace'', ''uid''] path) (\<lambda>_.
       res_bind (member_at (literal_at (JStr ''kube-system'')) parsed path ''namespace'') (\<lambda>_.
       res_bind (member_at (safeText 128) parsed path ''uid'') (\<lambda>uid.
       Inr (KubernetesNamespaceUid uid))))
     else if kind = ''unverified'' then
       res_bind (exactKeys parsed [''kind'', ''requireExplicitConfirmation''] path) (\<lambda>_.
       res_bind (member_at (literal_at (JBool True)) parsed path ''requireExplicitConfirmation'') (\<lambda>_.
       Inr (Unverified)))
     else
       Inl (PlanError (dot path ''kind'')))))"

interpretation identity_reader: strict_reader parseClusterIdentity cluster_identity_value
  by unfold_locales (auto simp: parseClusterIdentity_def reader_simps split: if_splits; erule reads_as_members; auto intro: location_reader.strict)

definition parseClusterAccess :: "cluster_access plan_reader" where
  "parseClusterAccess v path =
     res_bind (object_at v path) (\<lambda>parsed.
     res_bind (member_at string_at parsed path ''kind'') (\<lambda>kind.
     (if kind = ''kubeconfig-context'' then
       res_bind (exactKeys parsed [''kind'', ''context''] path) (\<lambda>_.
       res_bind (member_at (safeText 253) parsed path ''context'') (\<lambda>context.
       Inr (KubeconfigContext context)))
     else if kind = ''kubeconfig-current-context'' then
       res_bind (exactKeys parsed [''kind'', ''requireExplicitConfirmation''] path) (\<lambda>_.
       res_bind (member_at (literal_at (JBool True)) parsed path ''requireExplicitConfirmation'') (\<lambda>_.
       Inr (KubeconfigCurrentContext)))
     else if kind = ''gke-get-credentials'' then
       res_bind (exactKeys parsed [''kind'', ''projectId'', ''clusterName'', ''location''] path) (\<lambda>_.
       res_bind (member_at (validated is_project) parsed path ''projectId'') (\<lambda>projectId.
       res_bind (member_at (safeText 63) parsed path ''clusterName'') (\<lambda>clusterName.
       res_bind (member_at parseGcpLocation parsed path ''location'') (\<lambda>location.
       Inr (GkeGetCredentials projectId clusterName location)))))
     else
       Inl (PlanError (dot path ''kind'')))))"

interpretation access_reader: strict_reader parseClusterAccess cluster_access_value
  by unfold_locales (auto simp: parseClusterAccess_def reader_simps split: if_splits; erule reads_as_members; auto intro: location_reader.strict)

definition parseRegistryAuthentication :: "registry_authentication plan_reader" where
  "parseRegistryAuthentication v path =
     res_bind (object_at v path) (\<lambda>parsed.
     res_bind (member_at string_at parsed path ''kind'') (\<lambda>kind.
     (if kind = ''ambient-credentials'' then
       res_bind (exactKeys parsed [''kind''] path) (\<lambda>_.
       Inr (AmbientCredentials))
     else if kind = ''gcloud-docker-helper'' then
       res_bind (exactKeys parsed [''kind'', ''registryHost''] path) (\<lambda>_.
       res_bind (member_at (safeText 253) parsed path ''registryHost'') (\<lambda>host.
       Inr (GcloudDockerHelper host)))
     else
       Inl (PlanError (dot path ''kind'')))))"

interpretation authentication_reader: strict_reader parseRegistryAuthentication registry_authentication_value
  by unfold_locales (auto simp: parseRegistryAuthentication_def reader_simps split: if_splits; erule reads_as_members; auto)

definition parseRegistryDigestLookup :: "registry_digest_lookup plan_reader" where
  "parseRegistryDigestLookup v path =
     res_bind (object_at v path) (\<lambda>parsed.
     res_bind (member_at string_at parsed path ''kind'') (\<lambda>kind.
     (if kind = ''oci-distribution'' then
       res_bind (exactKeys parsed [''kind''] path) (\<lambda>_.
       Inr (OciDistribution))
     else if kind = ''gcp-artifact-registry'' then
       res_bind (exactKeys parsed [''kind'', ''projectId''] path) (\<lambda>_.
       res_bind (member_at (validated is_project) parsed path ''projectId'') (\<lambda>projectId.
       Inr (GcpArtifactRegistry projectId)))
     else
       Inl (PlanError (dot path ''kind'')))))"

interpretation lookup_reader: strict_reader parseRegistryDigestLookup registry_digest_lookup_value
  by unfold_locales (auto simp: parseRegistryDigestLookup_def reader_simps split: if_splits; erule reads_as_members; auto)

definition parseRegistry :: "registry_plan plan_reader" where
  "parseRegistry v path =
     res_bind (object_at v path) (\<lambda>parsed.
     res_bind (exactKeys parsed [''repository'', ''authentication'', ''digestLookup''] path) (\<lambda>_.
     res_bind (member_at (validated is_registry) parsed path ''repository'') (\<lambda>repository.
     res_bind (member_at parseRegistryAuthentication parsed path ''authentication'') (\<lambda>authentication.
     res_bind (member_at parseRegistryDigestLookup parsed path ''digestLookup'') (\<lambda>digestLookup.
     Inr (\<lparr>rg_repository = repository, rg_authentication = authentication, rg_digestLookup = digestLookup\<rparr>))))))"

interpretation registry_reader: strict_reader parseRegistry registry_plan_value
  by unfold_locales (auto simp: parseRegistry_def reader_simps registry_plan_value_def split: if_splits; erule reads_as_members; auto intro: authentication_reader.strict lookup_reader.strict)

section \<open>Network, cache and CDN\<close>

text \<open>\<open>isIP\<close> is Node's \<open>net.isIP\<close>.\<close>

definition is_cidr :: "(string \<Rightarrow> nat) \<Rightarrow> string \<Rightarrow> bool" where
  "is_cidr isIP s = (assertSafeCidr isIP (Some (JStr s)) = Inr ())"

definition parseNetworkSource :: "(string \<Rightarrow> nat) \<Rightarrow> network_cidr_source plan_reader" where
  "parseNetworkSource isIP v path =
     res_bind (object_at v path) (\<lambda>parsed.
     res_bind (member_at string_at parsed path ''kind'') (\<lambda>kind.
     (if kind = ''not-required'' \<or> kind = ''kubernetes-node-pod-cidrs'' then
       res_bind (exactKeys parsed [''kind''] path) (\<lambda>_.
       Inr (if kind = ''not-required'' then NotRequired else KubernetesNodePodCidrs))
     else if kind = ''static'' then
       res_bind (exactKeys parsed [''kind'', ''cidrs''] path) (\<lambda>_.
       res_bind (member_at (array_at 256 (validated (is_cidr isIP))) parsed path ''cidrs'') (\<lambda>cidrs.
       res_bind (fail_if (cidrs = []) (dot path ''cidrs'')) (\<lambda>_.
       res_bind (fail_if (\<not> distinct cidrs) (dot path ''cidrs'')) (\<lambda>_.
       Inr (Static cidrs)))))
     else if kind = ''kubernetes-node-addresses'' then
       res_bind (exactKeys parsed [''kind'', ''addressTypes''] path) (\<lambda>_.
       res_bind (fail_if (case map_of parsed ''addressTypes'' of Some (JArr [_]) \<Rightarrow> False | _ \<Rightarrow> True) (dot path ''addressTypes'')) (\<lambda>_.
       res_bind (member_at (array_at 1 (literal_at (JStr ''InternalIP''))) parsed path ''addressTypes'') (\<lambda>_.
       Inr (KubernetesNodeAddresses))))
     else if kind = ''gke-pod-range'' \<or> kind = ''gke-node-subnet'' then
       res_bind (exactKeys parsed [''kind'', ''projectId'', ''clusterName'', ''location''] path) (\<lambda>_.
       res_bind (member_at (validated is_project) parsed path ''projectId'') (\<lambda>projectId.
       res_bind (member_at (safeText 63) parsed path ''clusterName'') (\<lambda>clusterName.
       res_bind (member_at parseGcpLocation parsed path ''location'') (\<lambda>location.
       Inr (if kind = ''gke-pod-range'' then GkePodRange projectId clusterName location else GkeNodeSubnet projectId clusterName location)))))
     else
       Inl (PlanError (dot path ''kind'')))))"

interpretation literal_reader: strict_reader "literal_at (JStr s)" "\<lambda>_. KStr s" for s
  by unfold_locales (auto simp: res_simps)

lemma one_literal:
  "array_at n (literal_at (JStr s)) (Some (JArr [j])) path = Inr us \<Longrightarrow> reads_as (Some (JArr [j])) (Some (KArr [KStr s]))"
  using literal_reader.array_strict [of n s "Some (JArr [j])" path us] by (auto simp: res_simps)

interpretation network_source_reader: strict_reader "parseNetworkSource isIP" network_cidr_source_value for isIP
proof unfold_locales
  fix v path x
  assume ok: "parseNetworkSource isIP v path = Inr x"
  then obtain parsed kind where v: "v = Some (JObj parsed)" "map_of parsed ''kind'' = Some (JStr kind)"
    by (auto simp: parseNetworkSource_def reader_simps)
  consider "kind = ''not-required''" | "kind = ''kubernetes-node-pod-cidrs''" | "kind = ''static''" | "kind = ''kubernetes-node-addresses''"
    | "kind \<in> {''gke-pod-range'', ''gke-node-subnet''}"
    using ok v by (auto simp: parseNetworkSource_def member_at_def object_at_def string_at_def split: if_splits)
  then show "reads_as v (Some (network_cidr_source_value x))"
  proof cases
    case 1
    then show ?thesis using ok v
      by - (auto simp: parseNetworkSource_def reader_simps; erule reads_as_members; auto)
  next
    case 2
    then show ?thesis using ok v
      by - (auto simp: parseNetworkSource_def reader_simps; erule reads_as_members; auto)
  next
    case 3
    then show ?thesis using ok v
      by - (auto simp: parseNetworkSource_def reader_simps simp del: array_at_Inr; erule reads_as_members;
          auto intro: validated_reader.array_strict)
  next
    case 4
    then obtain j where "map_of parsed ''addressTypes'' = Some (JArr [j])" using ok v
      by - (auto simp: parseNetworkSource_def reader_simps split: option.splits json.splits list.splits)
    then show ?thesis using ok v 4
      by - (auto simp: parseNetworkSource_def reader_simps simp del: array_at_Inr; erule reads_as_members; auto intro: one_literal)
  next
    case 5
    then show ?thesis using ok v
      by - (auto simp: parseNetworkSource_def reader_simps gke_source_value_def; erule reads_as_members; auto intro: location_reader.strict)
  qed
qed

definition parseNetwork :: "(string \<Rightarrow> nat) \<Rightarrow> network_plan plan_reader" where
  "parseNetwork isIP v path =
     res_bind (object_at v path) (\<lambda>parsed.
     res_bind (exactKeys parsed [''podCidrs'', ''nodeCidrs'', ''missingSourcePolicy''] path) (\<lambda>_.
     res_bind (member_at (parseNetworkSource isIP) parsed path ''podCidrs'') (\<lambda>podCidrs.
     res_bind (member_at (parseNetworkSource isIP) parsed path ''nodeCidrs'') (\<lambda>nodeCidrs.
     res_bind (member_at (literal_at (JStr ''fail'')) parsed path ''missingSourcePolicy'') (\<lambda>_.
     Inr (\<lparr>nw_podCidrs = podCidrs, nw_nodeCidrs = nodeCidrs\<rparr>))))))"

interpretation network_reader: strict_reader "parseNetwork isIP" network_plan_value for isIP
  by unfold_locales (auto simp: parseNetwork_def reader_simps network_plan_value_def intro!: reads_as_object network_source_reader.strict)

definition parseCache :: "cache_provisioning plan_reader" where
  "parseCache v path =
     res_bind (object_at v path) (\<lambda>parsed.
     res_bind (member_at string_at parsed path ''kind'') (\<lambda>kind.
     (if kind = ''none'' then
       res_bind (exactKeys parsed [''kind''] path) (\<lambda>_.
       Inr (NoCache))
     else if kind = ''external'' then
       res_bind (exactKeys parsed [''kind'', ''lifecycle''] path) (\<lambda>_.
       res_bind (member_at (literal_at (JStr ''operator-managed'')) parsed path ''lifecycle'') (\<lambda>_.
       Inr (ExternalCache)))
     else if kind = ''gcp-memorystore'' then
       res_bind (exactKeys parsed [''kind'', ''projectId'', ''region'', ''name'', ''network'', ''sizeGb'', ''tier'', ''security''] path) (\<lambda>_.
       res_bind (member_at object_at parsed path ''security'') (\<lambda>security.
       res_bind (exactKeys security [''kind''] (dot path ''security'')) (\<lambda>_.
       res_bind (member_at (validated is_project) parsed path ''projectId'') (\<lambda>projectId.
       res_bind (member_at (validated is_region) parsed path ''region'') (\<lambda>region.
       res_bind (member_at (safeText 63) parsed path ''name'') (\<lambda>name.
       res_bind (member_at (safeText 253) parsed path ''network'') (\<lambda>network.
       res_bind (member_at (integer_at 1 300) parsed path ''sizeGb'') (\<lambda>sizeGb.
       res_bind (member_at (oneOf [''BASIC'', ''STANDARD_HA'']) parsed path ''tier'') (\<lambda>tier.
       res_bind (member_at (oneOf [''auth-tls-required'', ''legacy-plaintext-explicit-opt-out'']) security (dot path ''security'') ''kind'') (\<lambda>securityKind.
       Inr (GcpMemorystore \<lparr>ms_projectId = projectId, ms_region = region, ms_name = name, ms_network = network, ms_sizeGb = sizeGb, ms_tier = tier, ms_security = securityKind\<rparr>)))))))))))
     else
       Inl (PlanError (dot path ''kind'')))))"

interpretation cache_reader: strict_reader parseCache cache_provisioning_value
  by unfold_locales (auto simp: parseCache_def reader_simps split: if_splits; erule reads_as_members; auto intro: reads_as_single)

definition parseCdn :: "cdn_invalidation plan_reader" where
  "parseCdn v path =
     res_bind (object_at v path) (\<lambda>parsed.
     res_bind (member_at string_at parsed path ''kind'') (\<lambda>kind.
     (if kind = ''none'' then
       res_bind (exactKeys parsed [''kind''] path) (\<lambda>_.
       Inr (NoCdn))
     else if kind = ''external'' then
       res_bind (exactKeys parsed [''kind'', ''lifecycle''] path) (\<lambda>_.
       res_bind (member_at (literal_at (JStr ''operator-managed'')) parsed path ''lifecycle'') (\<lambda>_.
       Inr (ExternalCdn)))
     else if kind = ''gcp-cloud-cdn'' then
       res_bind (exactKeys parsed [''kind'', ''projectId'', ''addressName'', ''invalidation'', ''failurePolicy''] path) (\<lambda>_.
       res_bind (member_at (validated is_project) parsed path ''projectId'') (\<lambda>projectId.
       res_bind (member_at (validated is_gcp_name) parsed path ''addressName'') (\<lambda>addressName.
       res_bind (member_at (literal_at (JStr ''recorded-cache-tag-or-full-path'')) parsed path ''invalidation'') (\<lambda>_.
       res_bind (member_at (literal_at (JStr ''warn'')) parsed path ''failurePolicy'') (\<lambda>_.
       Inr (GcpCloudCdn projectId addressName))))))
     else
       Inl (PlanError (dot path ''kind'')))))"

interpretation cdn_reader: strict_reader parseCdn cdn_invalidation_value
  by unfold_locales (auto simp: parseCdn_def reader_simps split: if_splits; erule reads_as_members; auto)

section \<open>Routing\<close>

definition KUBERNETES_VERSION_RE :: rexp where
  "KUBERNETES_VERSION_RE = Seq (lit ''v'') (Seq (Cls dec_digit) (Star (Cls alnum)))"

definition RESOURCE_RE :: rexp where
  "RESOURCE_RE = Seq (Cls lower) (Rep 0 62 (Cls ldh))"

definition assertSafeApiVersion :: "string \<Rightarrow> bool" where
  "assertSafeApiVersion apiVersion =
     (let parts = js_split (CHR ''/'') apiVersion
      in (case parts of [_] \<Rightarrow> True | [grp, _] \<Rightarrow> is_object_name grp | _ \<Rightarrow> False)
         \<and> matches KUBERNETES_VERSION_RE (last parts))"

definition resource_at :: "string plan_reader" where
  "resource_at v path =
     res_bind (string_at v path) (\<lambda>resource. if matches RESOURCE_RE resource then Inr resource else Inl (PlanError path))"

lemma resource_at_Inr [res_simps]: "resource_at v path = Inr s \<longleftrightarrow> v = Some (JStr s) \<and> s \<noteq> [] \<and> matches RESOURCE_RE s"
  by (auto simp: resource_at_def res_simps)

definition ref_name_ok :: "string \<Rightarrow> string \<Rightarrow> string \<Rightarrow> bool" where
  "ref_name_ok apiVersion resource name =
     (if apiVersion = ''v1'' \<and> resource = ''services'' then is_service name
      else if apiVersion = ''v1'' \<and> resource = ''namespaces'' then is_namespace name else is_object_name name)"

definition parseKubernetesObjectRef :: "kubernetes_object_ref plan_reader" where
  "parseKubernetesObjectRef v path =
     res_bind (object_at v path) (\<lambda>parsed.
     res_bind (exactKeys parsed [''apiVersion'', ''resource'', ''name'', ''namespace''] path) (\<lambda>_.
     res_bind (member_at (validated assertSafeApiVersion) parsed path ''apiVersion'') (\<lambda>apiVersion.
     res_bind (member_at resource_at parsed path ''resource'') (\<lambda>resource.
     res_bind (member_at (validated (ref_name_ok apiVersion resource)) parsed path ''name'') (\<lambda>name.
     res_bind (member_at (optional_at (validated is_namespace)) parsed path ''namespace'') (\<lambda>namespace.
     Inr (\<lparr>ref_apiVersion = apiVersion, ref_resource = resource, ref_name = name, ref_namespace = namespace\<rparr>)))))))"

interpretation ref_reader: strict_reader parseKubernetesObjectRef kubernetes_object_ref_value
  by unfold_locales (auto simp: parseKubernetesObjectRef_def reader_simps resource_at_Inr kubernetes_object_ref_value_def split: if_splits; erule reads_as_members; auto)

definition parseKubernetesServiceRef :: "kubernetes_service_ref plan_reader" where
  "parseKubernetesServiceRef v path =
     res_bind (object_at v path) (\<lambda>parsed.
     res_bind (exactKeys parsed [''name'', ''namespace'', ''port''] path) (\<lambda>_.
     res_bind (member_at (validated is_service) parsed path ''name'') (\<lambda>name.
     res_bind (member_at (validated is_namespace) parsed path ''namespace'') (\<lambda>namespace.
     res_bind (member_at (integer_at 1 65535) parsed path ''port'') (\<lambda>port.
     Inr (\<lparr>svc_name = name, svc_namespace = namespace, svc_port = port\<rparr>))))))"

interpretation service_reader: strict_reader parseKubernetesServiceRef kubernetes_service_ref_value
  by unfold_locales (auto simp: parseKubernetesServiceRef_def reader_simps kubernetes_service_ref_value_def split: if_splits; erule reads_as_members; auto)

definition parseConditionLocation :: "condition_location plan_reader" where
  "parseConditionLocation v path =
     res_bind (object_at v path) (\<lambda>parsed.
     res_bind (member_at string_at parsed path ''kind'') (\<lambda>kind.
     (if kind = ''object'' then
       res_bind (exactKeys parsed [''kind''] path) (\<lambda>_.
       Inr (AtObject))
     else if kind = ''parents'' then
       res_bind (exactKeys parsed [''kind'', ''controllerName'', ''minimumCount''] path) (\<lambda>_.
       res_bind (member_at (optional_at (safeText 253)) parsed path ''controllerName'') (\<lambda>controllerName.
       res_bind (member_at (optional_at (integer_at 1 64)) parsed path ''minimumCount'') (\<lambda>minimumCount.
       Inr (AtParents controllerName minimumCount))))
     else if kind = ''ancestors'' then
       res_bind (exactKeys parsed [''kind'', ''controllerName''] path) (\<lambda>_.
       res_bind (member_at (safeText 253) parsed path ''controllerName'') (\<lambda>controllerName.
       Inr (AtAncestors controllerName)))
     else
       Inl (PlanError (dot path ''kind'')))))"

interpretation condition_location_reader: strict_reader parseConditionLocation condition_location_value
  by unfold_locales (auto simp: parseConditionLocation_def reader_simps split: if_splits; erule reads_as_members; auto)

definition parseKubernetesCondition :: "kubernetes_condition plan_reader" where
  "parseKubernetesCondition v path =
     res_bind (object_at v path) (\<lambda>parsed.
     res_bind (exactKeys parsed [''kind'', ''object'', ''conditionsAt'', ''condition'', ''timeoutSeconds''] path) (\<lambda>_.
     res_bind (member_at object_at parsed path ''condition'') (\<lambda>condition.
     res_bind (exactKeys condition [''type'', ''status'', ''observedGeneration''] (dot path ''condition'')) (\<lambda>_.
     res_bind (member_at parseKubernetesObjectRef parsed path ''object'') (\<lambda>object.
     res_bind (member_at parseConditionLocation parsed path ''conditionsAt'') (\<lambda>conditionsAt.
     res_bind (member_at (safeText 63) condition (dot path ''condition'') ''type'') (\<lambda>type.
     res_bind (member_at (literal_at (JStr ''True'')) condition (dot path ''condition'') ''status'') (\<lambda>_.
     res_bind (member_at (literal_at (JStr ''must-equal-metadata-generation'')) condition (dot path ''condition'') ''observedGeneration'') (\<lambda>_.
     res_bind (member_at (integer_at 1 3600) parsed path ''timeoutSeconds'') (\<lambda>timeoutSeconds.
     Inr (\<lparr>kc_object = object, kc_conditionsAt = conditionsAt, kc_type = type, kc_timeoutSeconds = timeoutSeconds\<rparr>)))))))))))"

lemma condition_agrees:
  "exactKeys c [''type'', ''status'', ''observedGeneration''] p = Inr () \<Longrightarrow> map_of c ''type'' = Some (JStr t) \<Longrightarrow>
   map_of c ''status'' = Some (JStr ''True'') \<Longrightarrow> map_of c ''observedGeneration'' = Some (JStr ''must-equal-metadata-generation'') \<Longrightarrow>
   reads_as (Some (JObj c)) (Some (ko [(''type'', KStr t), (''status'', KStr ''True''), (''observedGeneration'', KStr ''must-equal-metadata-generation'')]))"
  by (erule reads_as_members) auto

lemma condition_strict:
  assumes "parseKubernetesCondition v path = Inr x" "v = Some (JObj fs)" "map_of fs ''kind'' = Some (JStr ''kubernetes-condition'')"
  shows "reads_as v (Some (kubernetes_condition_value x))"
  using assms
  by - (auto simp: parseKubernetesCondition_def reader_simps kubernetes_condition_value_def;
      erule reads_as_members [of fs "[''kind'', ''object'', ''conditionsAt'', ''condition'', ''timeoutSeconds'']"];
      auto intro: ref_reader.strict condition_location_reader.strict condition_agrees)

definition parseRoutingReadiness :: "routing_readiness plan_reader" where
  "parseRoutingReadiness v path =
     res_bind (object_at v path) (\<lambda>parsed.
     res_bind (member_at string_at parsed path ''kind'') (\<lambda>kind.
     (if kind = ''kubernetes-condition'' then
       res_bind (parseKubernetesCondition v path) (\<lambda>c.
       Inr (KubernetesCondition c))
     else if kind = ''kubernetes-job-complete'' \<or> kind = ''kubernetes-deployment-available'' then
       res_bind (exactKeys parsed [''kind'', ''object'', ''timeoutSeconds''] path) (\<lambda>_.
       res_bind (member_at parseKubernetesObjectRef parsed path ''object'') (\<lambda>object.
       res_bind (member_at (integer_at 1 3600) parsed path ''timeoutSeconds'') (\<lambda>timeoutSeconds.
       Inr (if kind = ''kubernetes-job-complete'' then KubernetesJobComplete object timeoutSeconds else KubernetesDeploymentAvailable object timeoutSeconds))))
     else if kind = ''kubernetes-service-endpoints'' then
       res_bind (exactKeys parsed [''kind'', ''service'', ''minimumReady''] path) (\<lambda>_.
       res_bind (member_at parseKubernetesServiceRef parsed path ''service'') (\<lambda>service.
       res_bind (member_at (integer_at 1 10000) parsed path ''minimumReady'') (\<lambda>minimumReady.
       Inr (KubernetesServiceEndpoints service minimumReady))))
     else if kind = ''gcp-traffic-extension'' then
       res_bind (exactKeys parsed [''kind'', ''projectId'', ''extensionName'', ''addressName'', ''requireEveryForwardingRule''] path) (\<lambda>_.
       res_bind (member_at (validated is_project) parsed path ''projectId'') (\<lambda>projectId.
       res_bind (member_at (validated is_gcp_name) parsed path ''extensionName'') (\<lambda>extensionName.
       res_bind (member_at (validated is_gcp_name) parsed path ''addressName'') (\<lambda>addressName.
       res_bind (member_at (literal_at (JBool True)) parsed path ''requireEveryForwardingRule'') (\<lambda>_.
       Inr (GcpTrafficExtensionReady projectId extensionName addressName))))))
     else
       Inl (PlanError (dot path ''kind'')))))"

lemma readiness_kinds:
  assumes "parseRoutingReadiness (Some (JObj parsed)) path = Inr x" "map_of parsed ''kind'' = Some (JStr kind)"
  shows "kind = ''kubernetes-condition'' \<or> kind = ''kubernetes-job-complete'' \<or> kind = ''kubernetes-deployment-available''
    \<or> kind = ''kubernetes-service-endpoints'' \<or> kind = ''gcp-traffic-extension''"
  using assms by (simp add: parseRoutingReadiness_def member_at_def object_at_def string_at_def split: if_splits; fast)

interpretation readiness_reader: strict_reader parseRoutingReadiness routing_readiness_value
proof unfold_locales
  fix v path x
  assume ok: "parseRoutingReadiness v path = Inr x"
  obtain parsed kind where v: "v = Some (JObj parsed)" "map_of parsed ''kind'' = Some (JStr kind)"
    using ok by (simp only: parseRoutingReadiness_def res_bind_Inr object_at_Inr member_at_def string_at_Inr) blast
  consider "kind = ''kubernetes-condition''" | "kind = ''kubernetes-job-complete''" | "kind = ''kubernetes-deployment-available''"
    | "kind = ''kubernetes-service-endpoints''" | "kind = ''gcp-traffic-extension''"
    using readiness_kinds [OF ok [unfolded v(1)] v(2)] by (elim disjE)
  then show "reads_as v (Some (routing_readiness_value x))"
  proof cases
    case 1
    then obtain c where "parseKubernetesCondition v path = Inr c" "x = KubernetesCondition c"
      using ok v by (auto simp: parseRoutingReadiness_def reader_simps)
    then show ?thesis using condition_strict v 1 by auto
  next
    case 2
    then show ?thesis using ok v
      by - (auto simp: parseRoutingReadiness_def reader_simps object_readiness_value_def; erule reads_as_members; auto intro: ref_reader.strict)
  next
    case 3
    then show ?thesis using ok v
      by - (auto simp: parseRoutingReadiness_def reader_simps object_readiness_value_def; erule reads_as_members; auto intro: ref_reader.strict)
  next
    case 4
    then show ?thesis using ok v
      by - (auto simp: parseRoutingReadiness_def reader_simps object_readiness_value_def; erule reads_as_members; auto intro: service_reader.strict)
  next
    case 5
    then show ?thesis using ok v
      by - (auto simp: parseRoutingReadiness_def reader_simps object_readiness_value_def; erule reads_as_members; auto)
  qed
qed

definition parseRoutingRegistration :: "routing_registration plan_reader" where
  "parseRoutingRegistration v path =
     res_bind (object_at v path) (\<lambda>parsed.
     res_bind (member_at string_at parsed path ''kind'') (\<lambda>kind.
     (if kind = ''none'' then
       res_bind (exactKeys parsed [''kind''] path) (\<lambda>_.
       Inr (NoRegistration))
     else if kind = ''gcp-traffic-extension-v1'' then
       res_bind (exactKeys parsed [''kind'', ''projectId'', ''extensionName'', ''addressName''] path) (\<lambda>_.
       res_bind (member_at (validated is_project) parsed path ''projectId'') (\<lambda>projectId.
       res_bind (member_at (validated is_gcp_name) parsed path ''extensionName'') (\<lambda>extensionName.
       res_bind (member_at (validated is_gcp_name) parsed path ''addressName'') (\<lambda>addressName.
       Inr (GcpTrafficExtensionV1 projectId extensionName addressName)))))
     else
       Inl (PlanError (dot path ''kind'')))))"

interpretation registration_reader: strict_reader parseRoutingRegistration routing_registration_value
  by unfold_locales (auto simp: parseRoutingRegistration_def reader_simps split: if_splits; erule reads_as_members; auto)

end
