(* ===== verification/PlanParse.thy ===== *)
theory PlanParse
  imports PlanReaders
begin

text \<open>
  The readers of the routing, cleanup, diagnostic, log, telemetry and manifest parts of a plan
  (\<^verbatim>\<open>src/composition-plan/parse.ts\<close>), each with its proof of strictness.
\<close>

section \<open>Routing\<close>

definition parsePortableOrigin :: "(string \<times> json) list \<Rightarrow> string \<Rightarrow> (plan_error, dataplane) res" where
  "parsePortableOrigin dataplane path =
     res_bind (member_at parseKubernetesServiceRef dataplane path ''service'') (\<lambda>service.
     res_bind (member_at (validated is_pool) dataplane path ''targetPool'') (\<lambda>targetPool.
     res_bind (member_at (array_at 64 parseRoutingReadiness) dataplane path ''readiness'') (\<lambda>readiness.
     Inr (PortableHttpOrigin service targetPool readiness))))"

definition parseExtProcDataplane :: "string \<Rightarrow> (string \<times> json) list \<Rightarrow> string \<Rightarrow> (plan_error, dataplane) res" where
  "parseExtProcDataplane kind dataplane path =
     (if kind = ''external-ext-proc'' then
       res_bind (exactKeys dataplane [''kind'', ''transport'', ''readiness''] path) (\<lambda>_.
       res_bind (member_at (oneOf [''tls'', ''h2c'']) dataplane path ''transport'') (\<lambda>transport.
       res_bind (member_at (array_at 64 parseRoutingReadiness) dataplane path ''readiness'') (\<lambda>readiness.
       Inr (ExternalExtProc transport readiness))))
     else if kind = ''adapter-owned-envoy-proxy'' then
       res_bind (exactKeys dataplane [''kind'', ''service'', ''readiness''] path) (\<lambda>_.
       res_bind (member_at parseKubernetesServiceRef dataplane path ''service'') (\<lambda>service.
       res_bind (member_at (array_at 64 parseRoutingReadiness) dataplane path ''readiness'') (\<lambda>readiness.
       Inr (AdapterOwnedEnvoyProxy service readiness))))
     else
       Inl (PlanError (dot path ''kind'')))"

text \<open>The members of the portable origin are read after the failure policy, as in the object literal.\<close>

definition parseRouting :: "routing_plan plan_reader" where
  "parseRouting v path =
     res_bind (object_at v path) (\<lambda>parsed.
     res_bind (exactKeys parsed [''protocol'', ''failurePolicy'', ''registration'', ''dataplane''] path) (\<lambda>_.
     res_bind (member_at (oneOf [''pool-local-v1'', ''envoy-ext-proc-v3'']) parsed path ''protocol'') (\<lambda>protocol.
     res_bind (member_at object_at parsed path ''dataplane'') (\<lambda>dataplane.
     res_bind (member_at string_at dataplane (dot path ''dataplane'') ''kind'') (\<lambda>kind.
     res_bind (member_at (optional_at parseRoutingRegistration) parsed path ''registration'') (\<lambda>registration.
     (if protocol = ''pool-local-v1'' then
       res_bind (fail_if (registration \<noteq> None \<and> registration \<noteq> Some NoRegistration) (dot path ''registration'')) (\<lambda>_.
       res_bind (fail_if (kind \<noteq> ''portable-http-origin'') (dot (dot path ''dataplane'') ''kind'')) (\<lambda>_.
       res_bind (exactKeys dataplane [''kind'', ''service'', ''targetPool'', ''readiness''] (dot path ''dataplane'')) (\<lambda>_.
       res_bind (member_at (literal_at (JStr ''closed'')) parsed path ''failurePolicy'') (\<lambda>_.
       res_bind (parsePortableOrigin dataplane (dot path ''dataplane'')) (\<lambda>plane.
       Inr (\<lparr>rt_protocol = protocol, rt_failurePolicy = ''closed'', rt_registration = registration, rt_dataplane = plane\<rparr>))))))
     else
       res_bind (parseExtProcDataplane kind dataplane (dot path ''dataplane'')) (\<lambda>plane.
       res_bind (fail_if ((case registration of Some (GcpTrafficExtensionV1 _ _ _) \<Rightarrow> True | _ \<Rightarrow> False) \<and> (case plane of ExternalExtProc t _ \<Rightarrow> t \<noteq> ''tls'' | _ \<Rightarrow> True)) (dot path ''registration'')) (\<lambda>_.
       res_bind (member_at (oneOf [''open'', ''closed'']) parsed path ''failurePolicy'') (\<lambda>failurePolicy.
       Inr (\<lparr>rt_protocol = protocol, rt_failurePolicy = failurePolicy, rt_registration = registration, rt_dataplane = plane\<rparr>)))))))))))"

lemma portable_origin_strict:
  assumes "exactKeys d [''kind'', ''service'', ''targetPool'', ''readiness''] p = Inr ()" "parsePortableOrigin d path = Inr x" "map_of d ''kind'' = Some (JStr ''portable-http-origin'')"
  shows "reads_as (Some (JObj d)) (Some (dataplane_value x))"
  using assms
  by - (auto simp: parsePortableOrigin_def reader_simps simp del: array_at_Inr; erule reads_as_members;
      auto intro: service_reader.strict readiness_reader.array_strict)

lemma ext_proc_strict:
  assumes "parseExtProcDataplane kind d path = Inr x" "map_of d ''kind'' = Some (JStr kind)"
  shows "reads_as (Some (JObj d)) (Some (dataplane_value x))"
  using assms
  by - (auto simp: parseExtProcDataplane_def reader_simps simp del: array_at_Inr split: if_splits; erule reads_as_members;
      auto intro: service_reader.strict readiness_reader.array_strict)

lemma routing_parts:
  assumes ok: "parseRouting v path = Inr x"
  obtains parsed d kind where "v = Some (JObj parsed)"
    "exactKeys parsed [''protocol'', ''failurePolicy'', ''registration'', ''dataplane''] path = Inr ()"
    "map_of parsed ''protocol'' = Some (JStr (rt_protocol x))" "map_of parsed ''failurePolicy'' = Some (JStr (rt_failurePolicy x))"
    "map_of parsed ''dataplane'' = Some (JObj d)" "map_of d ''kind'' = Some (JStr kind)"
    "optional_at parseRoutingRegistration (map_of parsed ''registration'') (dot path ''registration'') = Inr (rt_registration x)"
    "kind = ''portable-http-origin'' \<and> exactKeys d [''kind'', ''service'', ''targetPool'', ''readiness''] (dot path ''dataplane'') = Inr ()
       \<and> parsePortableOrigin d (dot path ''dataplane'') = Inr (rt_dataplane x)
     \<or> parseExtProcDataplane kind d (dot path ''dataplane'') = Inr (rt_dataplane x)"
proof -
  obtain parsed protocol d kind registration where
    v: "v = Some (JObj parsed)" "exactKeys parsed [''protocol'', ''failurePolicy'', ''registration'', ''dataplane''] path = Inr ()"
      "map_of parsed ''protocol'' = Some (JStr protocol)" "map_of parsed ''dataplane'' = Some (JObj d)" "map_of d ''kind'' = Some (JStr kind)"
      "optional_at parseRoutingRegistration (map_of parsed ''registration'') (dot path ''registration'') = Inr registration"
    using ok by (simp only: parseRouting_def res_bind_Inr object_at_Inr member_at_def string_at_Inr oneOf_Inr old.unit.exhaust) auto
  show thesis
  proof (cases "protocol = ''pool-local-v1''")
    case True
    then obtain plane where "exactKeys d [''kind'', ''service'', ''targetPool'', ''readiness''] (dot path ''dataplane'') = Inr ()"
      "parsePortableOrigin d (dot path ''dataplane'') = Inr plane" "kind = ''portable-http-origin''"
      "map_of parsed ''failurePolicy'' = Some (JStr ''closed'')"
      "x = \<lparr>rt_protocol = protocol, rt_failurePolicy = ''closed'', rt_registration = registration, rt_dataplane = plane\<rparr>"
      using ok v by (auto simp: parseRouting_def reader_simps)
    then show thesis using that v by simp
  next
    case False
    then obtain plane policy where "parseExtProcDataplane kind d (dot path ''dataplane'') = Inr plane"
      "map_of parsed ''failurePolicy'' = Some (JStr policy)"
      "x = \<lparr>rt_protocol = protocol, rt_failurePolicy = policy, rt_registration = registration, rt_dataplane = plane\<rparr>"
      using ok v by (auto simp: parseRouting_def reader_simps)
    then show thesis using that v by simp
  qed
qed

interpretation routing_reader: strict_reader parseRouting routing_plan_value
proof unfold_locales
  fix v path x
  assume "parseRouting v path = Inr x"
  then obtain parsed d kind where
    v: "v = Some (JObj parsed)" "exactKeys parsed [''protocol'', ''failurePolicy'', ''registration'', ''dataplane''] path = Inr ()"
      "map_of parsed ''protocol'' = Some (JStr (rt_protocol x))" "map_of parsed ''failurePolicy'' = Some (JStr (rt_failurePolicy x))"
      "map_of parsed ''dataplane'' = Some (JObj d)" "map_of d ''kind'' = Some (JStr kind)"
    and reg: "optional_at parseRoutingRegistration (map_of parsed ''registration'') (dot path ''registration'') = Inr (rt_registration x)"
    and plane: "kind = ''portable-http-origin'' \<and> exactKeys d [''kind'', ''service'', ''targetPool'', ''readiness''] (dot path ''dataplane'') = Inr ()
       \<and> parsePortableOrigin d (dot path ''dataplane'') = Inr (rt_dataplane x)
     \<or> parseExtProcDataplane kind d (dot path ''dataplane'') = Inr (rt_dataplane x)"
    by (rule routing_parts)
  have "reads_as (Some (JObj d)) (Some (dataplane_value (rt_dataplane x)))" using plane portable_origin_strict ext_proc_strict v(6) by blast
  then show "reads_as v (Some (routing_plan_value x))"
    using v registration_reader.optional_strict [OF reg]
    by (cases "rt_registration x") (auto simp: routing_plan_value_def intro!: reads_as_members [OF v(2)])
qed

section \<open>Cleanup\<close>

definition parseHelmRelease :: "(string \<times> json) list option \<Rightarrow> string \<Rightarrow> (plan_error, (string \<times> string) option) res" where
  "parseHelmRelease helm path =
     (case helm of None \<Rightarrow> Inr None | Some h \<Rightarrow> res_bind (member_at (validated is_release) h path ''name'') (\<lambda>name. res_bind (member_at (validated is_namespace) h path ''namespace'') (\<lambda>namespace. Inr (Some (name, namespace)))))"

definition parseKubernetesOwnedObject :: "kubernetes_owned_object plan_reader" where
  "parseKubernetesOwnedObject v path =
     res_bind (object_at v path) (\<lambda>parsed.
     res_bind (exactKeys parsed [''ref'', ''lifecycle'', ''ownership''] path) (\<lambda>_.
     res_bind (member_at object_at parsed path ''ownership'') (\<lambda>ownership.
     res_bind (exactKeys ownership [''releaseLabel'', ''helmRelease''] (dot path ''ownership'')) (\<lambda>_.
     res_bind (member_at object_at ownership (dot path ''ownership'') ''releaseLabel'') (\<lambda>releaseLabel.
     res_bind (exactKeys releaseLabel [''key'', ''value''] (dot (dot path ''ownership'') ''releaseLabel'')) (\<lambda>_.
     res_bind (member_at (optional_at object_at) ownership (dot path ''ownership'') ''helmRelease'') (\<lambda>helm.
     res_bind ((case helm of None \<Rightarrow> Inr () | Some h \<Rightarrow> exactKeys h [''name'', ''namespace''] (dot (dot path ''ownership'') ''helmRelease''))) (\<lambda>_.
     res_bind (member_at parseKubernetesObjectRef parsed path ''ref'') (\<lambda>ref.
     res_bind (member_at (oneOf [''helm'', ''retain-with-build'', ''retain-with-pool'']) parsed path ''lifecycle'') (\<lambda>lifecycle.
     res_bind (member_at (literal_at (JStr ''adapter-k8s.dev/release'')) releaseLabel (dot (dot path ''ownership'') ''releaseLabel'') ''key'') (\<lambda>_.
     res_bind (member_at (validated is_release) releaseLabel (dot (dot path ''ownership'') ''releaseLabel'') ''value'') (\<lambda>release.
     res_bind (parseHelmRelease helm (dot (dot path ''ownership'') ''helmRelease'')) (\<lambda>helmRelease.
     Inr (\<lparr>own_ref = ref, own_lifecycle = lifecycle, own_releaseLabel = release, own_helmRelease = helmRelease\<rparr>))))))))))))))"

lemma pair_agrees:
  "exactKeys fs [k, l] p = Inr () \<Longrightarrow> reads_as (map_of fs k) (Some x) \<Longrightarrow> reads_as (map_of fs l) (Some y) \<Longrightarrow> k \<noteq> l \<Longrightarrow>
   reads_as (Some (JObj fs)) (Some (ko [(k, x), (l, y)]))"
  by (erule reads_as_members) auto

lemma helm_release_agrees:
  "optional_at object_at v path = Inr helm \<Longrightarrow> parseHelmRelease helm p = Inr r \<Longrightarrow>
   (case helm of None \<Rightarrow> Inr () | Some h \<Rightarrow> exactKeys h [''name'', ''namespace''] q) = Inr () \<Longrightarrow>
   reads_as v (map_option (\<lambda>(n, ns). ko [(''name'', KStr n), (''namespace'', KStr ns)]) r)"
  by (auto simp: res_simps parseHelmRelease_def member_at_def split: option.splits intro!: pair_agrees)

lemma ownership_agrees:
  assumes "exactKeys fs [''releaseLabel'', ''helmRelease''] p = Inr ()" "reads_as (map_of fs ''releaseLabel'') (Some x)" "reads_as (map_of fs ''helmRelease'') y"
  shows "reads_as (Some (JObj fs)) (Some (ko ((''releaseLabel'', x) # kmember ''helmRelease'' y)))"
  using assms by (cases y) (auto intro!: reads_as_members [OF assms(1)])

interpretation owned_reader: strict_reader parseKubernetesOwnedObject kubernetes_owned_object_value
proof unfold_locales
  fix v path x
  assume "parseKubernetesOwnedObject v path = Inr x"
  then obtain parsed ownership label helm where
    v: "v = Some (JObj parsed)" "exactKeys parsed [''ref'', ''lifecycle'', ''ownership''] path = Inr ()"
      "map_of parsed ''ownership'' = Some (JObj ownership)" "exactKeys ownership [''releaseLabel'', ''helmRelease''] (dot path ''ownership'') = Inr ()"
      "map_of ownership ''releaseLabel'' = Some (JObj label)" "exactKeys label [''key'', ''value''] (dot (dot path ''ownership'') ''releaseLabel'') = Inr ()"
      "optional_at object_at (map_of ownership ''helmRelease'') (dot (dot path ''ownership'') ''helmRelease'') = Inr helm"
      "(case helm of None \<Rightarrow> Inr () | Some h \<Rightarrow> exactKeys h [''name'', ''namespace''] (dot (dot path ''ownership'') ''helmRelease'')) = Inr ()"
    and refd: "parseKubernetesObjectRef (map_of parsed ''ref'') (dot path ''ref'') = Inr (own_ref x)"
    and life: "map_of parsed ''lifecycle'' = Some (JStr (own_lifecycle x))"
    and key: "map_of label ''key'' = Some (JStr ''adapter-k8s.dev/release'')" "map_of label ''value'' = Some (JStr (own_releaseLabel x))"
    and helm: "parseHelmRelease helm (dot (dot path ''ownership'') ''helmRelease'') = Inr (own_helmRelease x)"
    by (auto simp: parseKubernetesOwnedObject_def reader_simps simp del: optional_at_Inr)
  have "reads_as (Some (JObj label)) (Some (ko [(''key'', KStr ''adapter-k8s.dev/release''), (''value'', KStr (own_releaseLabel x))]))"
    using key by (intro pair_agrees [OF v(6)]) auto
  then have "reads_as (map_of ownership ''releaseLabel'') (Some (ko [(''key'', KStr ''adapter-k8s.dev/release''), (''value'', KStr (own_releaseLabel x))]))"
    by (simp add: v(5))
  note own = ownership_agrees [OF v(4) this helm_release_agrees [OF v(7) helm v(8)]]
  show "reads_as v (Some (kubernetes_owned_object_value x))"
    unfolding v(1) kubernetes_owned_object_value_def
    by (rule reads_as_members [OF v(2)]) (use own v(3) ref_reader.strict [OF refd] life in auto)
qed

definition SERVICE_ACCOUNT_EMAIL_RE :: rexp where
  "SERVICE_ACCOUNT_EMAIL_RE =
     Seq (Cls lower) (Seq (Rep 0 62 (Cls ldh)) (Seq (lit ''@'') (Seq (Cls lower) (Seq (Rep 4 28 (Cls ldh)) (Seq (Cls alnum)
       (lit ''.iam.gserviceaccount.com''))))))"

definition parseExternalCleanup :: "external_cleanup plan_reader" where
  "parseExternalCleanup v path =
     res_bind (object_at v path) (\<lambda>parsed.
     res_bind (member_at string_at parsed path ''kind'') (\<lambda>kind.
     (if kind = ''gcp-storage-bucket'' then
       res_bind (exactKeys parsed [''kind'', ''projectId'', ''bucket''] path) (\<lambda>_.
       res_bind (member_at (validated is_project) parsed path ''projectId'') (\<lambda>projectId.
       res_bind (member_at (validated is_bucket) parsed path ''bucket'') (\<lambda>bucket.
       Inr (CleanStorageBucket projectId bucket))))
     else if kind = ''gcp-service-account'' then
       res_bind (exactKeys parsed [''kind'', ''projectId'', ''email''] path) (\<lambda>_.
       res_bind (member_at (validated (matches SERVICE_ACCOUNT_EMAIL_RE)) parsed path ''email'') (\<lambda>email.
       res_bind (member_at (validated is_project) parsed path ''projectId'') (\<lambda>projectId.
       Inr (CleanServiceAccount projectId email))))
     else if kind = ''gcp-memorystore'' then
       res_bind (exactKeys parsed [''kind'', ''projectId'', ''region'', ''name''] path) (\<lambda>_.
       res_bind (member_at (validated is_project) parsed path ''projectId'') (\<lambda>projectId.
       res_bind (member_at (validated is_region) parsed path ''region'') (\<lambda>region.
       res_bind (member_at (safeText 63) parsed path ''name'') (\<lambda>name.
       Inr (CleanMemorystore projectId region name)))))
     else if kind = ''gcp-traffic-extension'' then
       res_bind (exactKeys parsed [''kind'', ''projectId'', ''name'', ''location''] path) (\<lambda>_.
       res_bind (member_at (validated is_project) parsed path ''projectId'') (\<lambda>projectId.
       res_bind (member_at (safeText 63) parsed path ''name'') (\<lambda>name.
       res_bind (member_at (literal_at (JStr ''global'')) parsed path ''location'') (\<lambda>_.
       Inr (CleanTrafficExtension projectId name)))))
     else if kind = ''gcp-backend-service'' then
       res_bind (exactKeys parsed [''kind'', ''projectId'', ''name'', ''scope''] path) (\<lambda>_.
       res_bind (member_at (validated is_project) parsed path ''projectId'') (\<lambda>projectId.
       res_bind (member_at (safeText 63) parsed path ''name'') (\<lambda>name.
       res_bind (member_at (literal_at (JStr ''global'')) parsed path ''scope'') (\<lambda>_.
       Inr (CleanBackendService projectId name)))))
     else if kind = ''gcp-health-check'' then
       res_bind (exactKeys parsed [''kind'', ''projectId'', ''name'', ''scope''] path) (\<lambda>_.
       res_bind (member_at (validated is_project) parsed path ''projectId'') (\<lambda>projectId.
       res_bind (member_at (safeText 63) parsed path ''name'') (\<lambda>name.
       res_bind (member_at (literal_at (JStr ''global'')) parsed path ''scope'') (\<lambda>_.
       Inr (CleanHealthCheck projectId name)))))
     else if kind = ''gcp-global-address'' then
       res_bind (exactKeys parsed [''kind'', ''projectId'', ''name''] path) (\<lambda>_.
       res_bind (member_at (validated is_project) parsed path ''projectId'') (\<lambda>projectId.
       res_bind (member_at (validated is_gcp_name) parsed path ''name'') (\<lambda>name.
       Inr (CleanGlobalAddress projectId name))))
     else if kind = ''gcp-custom-iam-role'' then
       res_bind (exactKeys parsed [''kind'', ''projectId'', ''roleId''] path) (\<lambda>_.
       res_bind (member_at (validated is_project) parsed path ''projectId'') (\<lambda>projectId.
       res_bind (member_at (safeText 64) parsed path ''roleId'') (\<lambda>roleId.
       Inr (CleanCustomIamRole projectId roleId))))
     else
       Inl (PlanError (dot path ''kind'')))))"

interpretation external_cleanup_reader: strict_reader parseExternalCleanup external_cleanup_value
  by unfold_locales (auto simp: parseExternalCleanup_def reader_simps project_value_def split: if_splits; erule reads_as_members; auto)

definition parseRetainedExternal :: "retained_external plan_reader" where
  "parseRetainedExternal v path =
     res_bind (object_at v path) (\<lambda>parsed.
     res_bind (member_at string_at parsed path ''kind'') (\<lambda>kind.
     (if kind = ''gke-cluster'' then
       res_bind (exactKeys parsed [''kind'', ''projectId'', ''clusterName'', ''location''] path) (\<lambda>_.
       res_bind (member_at (validated is_project) parsed path ''projectId'') (\<lambda>projectId.
       res_bind (member_at (safeText 63) parsed path ''clusterName'') (\<lambda>clusterName.
       res_bind (member_at parseGcpLocation parsed path ''location'') (\<lambda>location.
       Inr (RetainedGkeCluster projectId clusterName location)))))
     else if kind = ''gcp-artifact-registry'' then
       res_bind (exactKeys parsed [''kind'', ''projectId'', ''region'', ''repository''] path) (\<lambda>_.
       res_bind (member_at (validated is_project) parsed path ''projectId'') (\<lambda>projectId.
       res_bind (member_at (validated is_region) parsed path ''region'') (\<lambda>region.
       res_bind (member_at (safeText 63) parsed path ''repository'') (\<lambda>repository.
       Inr (RetainedArtifactRegistry projectId region repository)))))
     else if kind = ''gcp-certificate-manager'' then
       res_bind (exactKeys parsed [''kind'', ''projectId'', ''releasePrefix''] path) (\<lambda>_.
       res_bind (member_at (validated is_project) parsed path ''projectId'') (\<lambda>projectId.
       res_bind (member_at (validated is_release) parsed path ''releasePrefix'') (\<lambda>releasePrefix.
       Inr (RetainedCertificateManager projectId releasePrefix))))
     else
       Inl (PlanError (dot path ''kind'')))))"

interpretation retained_reader: strict_reader parseRetainedExternal retained_external_value
  by unfold_locales (auto simp: parseRetainedExternal_def reader_simps project_value_def split: if_splits; erule reads_as_members; auto intro: location_reader.strict)

definition parseCleanup :: "cleanup_plan plan_reader" where
  "parseCleanup v path =
     res_bind (object_at v path) (\<lambda>parsed.
     res_bind (exactKeys parsed [''kubernetes'', ''external'', ''retained''] path) (\<lambda>_.
     res_bind (member_at object_at parsed path ''kubernetes'') (\<lambda>kubernetes.
     res_bind (exactKeys kubernetes [''strategy'', ''contributedObjects''] (dot path ''kubernetes'')) (\<lambda>_.
     res_bind (member_at (literal_at (JStr ''adapter-release-v1'')) kubernetes (dot path ''kubernetes'') ''strategy'') (\<lambda>_.
     res_bind (member_at (array_at 256 parseKubernetesOwnedObject) kubernetes (dot path ''kubernetes'') ''contributedObjects'') (\<lambda>contributed.
     res_bind (member_at (array_at 256 parseExternalCleanup) parsed path ''external'') (\<lambda>external.
     res_bind (member_at (array_at 256 parseRetainedExternal) parsed path ''retained'') (\<lambda>retained.
     Inr (\<lparr>cl_contributedObjects = contributed, cl_external = external, cl_retained = retained\<rparr>)))))))))"

interpretation cleanup_reader: strict_reader parseCleanup cleanup_plan_value
  by unfold_locales (auto simp: parseCleanup_def reader_simps cleanup_plan_value_def simp del: array_at_Inr;
      erule reads_as_members [where ks = "[''kubernetes'', ''external'', ''retained'']"];
      auto intro!: pair_agrees owned_reader.array_strict external_cleanup_reader.array_strict retained_reader.array_strict)

section \<open>Diagnostics and logs\<close>

fun condition_only :: "routing_readiness \<Rightarrow> string \<Rightarrow> (plan_error, kubernetes_condition) res" where
  "condition_only (KubernetesCondition c) path = Inr c"
| "condition_only _ path = Inl (PlanError path)"

lemma condition_only_Inr [res_simps]: "condition_only r path = Inr c \<longleftrightarrow> r = KubernetesCondition c"
  by (cases r) auto

definition parseDiagnostic :: "diagnostic_source plan_reader" where
  "parseDiagnostic v path =
     res_bind (object_at v path) (\<lambda>parsed.
     res_bind (member_at string_at parsed path ''kind'') (\<lambda>kind.
     (if kind = ''kubernetes-condition'' then
       res_bind (exactKeys parsed [''kind'', ''check'', ''label''] path) (\<lambda>_.
       res_bind (member_at parseRoutingReadiness parsed path ''check'') (\<lambda>check.
       res_bind (condition_only check (dot (dot path ''check'') ''kind'')) (\<lambda>c.
       res_bind (member_at (safeText 120) parsed path ''label'') (\<lambda>label.
       Inr (DiagnoseCondition c label)))))
     else if kind = ''kubernetes-gateway-address'' then
       res_bind (exactKeys parsed [''kind'', ''gateway''] path) (\<lambda>_.
       res_bind (member_at parseKubernetesObjectRef parsed path ''gateway'') (\<lambda>gateway.
       Inr (DiagnoseGatewayAddress gateway)))
     else if kind = ''gcp-auth'' then
       res_bind (exactKeys parsed [''kind'', ''projectId''] path) (\<lambda>_.
       res_bind (member_at (validated is_project) parsed path ''projectId'') (\<lambda>projectId.
       Inr (DiagnoseAuth projectId)))
     else if kind = ''gcp-global-address'' then
       res_bind (exactKeys parsed [''kind'', ''projectId'', ''name''] path) (\<lambda>_.
       res_bind (member_at (validated is_project) parsed path ''projectId'') (\<lambda>projectId.
       res_bind (member_at (validated is_gcp_name) parsed path ''name'') (\<lambda>name.
       Inr (DiagnoseGlobalAddress projectId name))))
     else if kind = ''gcp-storage-bucket'' then
       res_bind (exactKeys parsed [''kind'', ''projectId'', ''bucket''] path) (\<lambda>_.
       res_bind (member_at (validated is_project) parsed path ''projectId'') (\<lambda>projectId.
       res_bind (member_at (validated is_bucket) parsed path ''bucket'') (\<lambda>bucket.
       Inr (DiagnoseStorageBucket projectId bucket))))
     else if kind = ''gcp-artifact-registry'' then
       res_bind (exactKeys parsed [''kind'', ''projectId'', ''region'', ''repository''] path) (\<lambda>_.
       res_bind (member_at (validated is_project) parsed path ''projectId'') (\<lambda>projectId.
       res_bind (member_at (validated is_region) parsed path ''region'') (\<lambda>region.
       res_bind (member_at (safeText 63) parsed path ''repository'') (\<lambda>repository.
       Inr (DiagnoseArtifactRegistry projectId region repository)))))
     else if kind = ''gcp-backend-health'' then
       res_bind (exactKeys parsed [''kind'', ''projectId'', ''releasePrefix''] path) (\<lambda>_.
       res_bind (member_at (validated is_project) parsed path ''projectId'') (\<lambda>projectId.
       res_bind (member_at (validated is_release) parsed path ''releasePrefix'') (\<lambda>releasePrefix.
       Inr (DiagnoseBackendHealth projectId releasePrefix))))
     else if kind = ''gcp-traffic-extension'' then
       res_bind (exactKeys parsed [''kind'', ''projectId'', ''extensionName'', ''addressName''] path) (\<lambda>_.
       res_bind (member_at (validated is_project) parsed path ''projectId'') (\<lambda>projectId.
       res_bind (member_at (validated is_gcp_name) parsed path ''extensionName'') (\<lambda>extensionName.
       res_bind (member_at (validated is_gcp_name) parsed path ''addressName'') (\<lambda>addressName.
       Inr (DiagnoseTrafficExtension projectId extensionName addressName)))))
     else if kind = ''gcp-backend-service-shape'' then
       res_bind (exactKeys parsed [''kind'', ''projectId'', ''name'', ''loadBalancingScheme'', ''requireBackend''] path) (\<lambda>_.
       res_bind (member_at (validated is_project) parsed path ''projectId'') (\<lambda>projectId.
       res_bind (member_at (safeText 63) parsed path ''name'') (\<lambda>name.
       res_bind (member_at (literal_at (JStr ''EXTERNAL_MANAGED'')) parsed path ''loadBalancingScheme'') (\<lambda>_.
       res_bind (member_at (literal_at (JBool True)) parsed path ''requireBackend'') (\<lambda>_.
       Inr (DiagnoseBackendServiceShape projectId name))))))
     else if kind = ''gcp-health-check-shape'' then
       res_bind (exactKeys parsed [''kind'', ''projectId'', ''name'', ''expectedType''] path) (\<lambda>_.
       res_bind (member_at (validated is_project) parsed path ''projectId'') (\<lambda>projectId.
       res_bind (member_at (safeText 63) parsed path ''name'') (\<lambda>name.
       res_bind (member_at (oneOf [''TCP'', ''HTTP'']) parsed path ''expectedType'') (\<lambda>expectedType.
       Inr (DiagnoseHealthCheckShape projectId name expectedType)))))
     else if kind = ''gcp-certificate'' then
       res_bind (exactKeys parsed [''kind'', ''projectId'', ''name''] path) (\<lambda>_.
       res_bind (member_at (validated is_project) parsed path ''projectId'') (\<lambda>projectId.
       res_bind (member_at (safeText 63) parsed path ''name'') (\<lambda>name.
       Inr (DiagnoseCertificate projectId name))))
     else
       Inl (PlanError (dot path ''kind'')))))"

lemma condition_check_agrees:
  "parseRoutingReadiness v path = Inr (KubernetesCondition c) \<Longrightarrow> reads_as v (Some (kubernetes_condition_value c))"
  using readiness_reader.strict by fastforce

interpretation diagnostic_reader: strict_reader parseDiagnostic diagnostic_source_value
  by unfold_locales (auto simp: parseDiagnostic_def reader_simps condition_only_Inr project_value_def split: if_splits; erule reads_as_members;
      auto intro: ref_reader.strict condition_check_agrees)

definition parseLog :: "log_source plan_reader" where
  "parseLog v path =
     res_bind (object_at v path) (\<lambda>parsed.
     res_bind (member_at string_at parsed path ''kind'') (\<lambda>kind.
     res_bind (fail_if (kind \<noteq> ''kubernetes-pods'') (dot path ''kind'')) (\<lambda>_.
     res_bind (exactKeys parsed [''kind'', ''namespace'', ''selector'', ''containers''] path) (\<lambda>_.
     res_bind (member_at object_at parsed path ''selector'') (\<lambda>selector.
     res_bind (exactKeys selector [''releaseName''] (dot path ''selector'')) (\<lambda>_.
     res_bind (member_at (validated is_namespace) parsed path ''namespace'') (\<lambda>namespace.
     res_bind (member_at (validated is_release) selector (dot path ''selector'') ''releaseName'') (\<lambda>releaseName.
     res_bind (member_at (literal_at (JStr ''all'')) parsed path ''containers'') (\<lambda>_.
     Inr (\<lparr>lg_namespace = namespace, lg_releaseName = releaseName\<rparr>))))))))))"

interpretation log_reader: strict_reader parseLog log_source_value
  by unfold_locales (auto simp: parseLog_def reader_simps log_source_value_def;
      erule reads_as_members [where ks = "[''kind'', ''namespace'', ''selector'', ''containers'']"]; auto intro!: reads_as_single)

section \<open>Telemetry\<close>

definition TELEMETRY_ID_RE :: rexp where
  "TELEMETRY_ID_RE = Seq (Cls lower) (Seq (Star (Cls alnum)) (Star (Seq (cls ''.-'') (rplus (Cls alnum)))))"
definition OTEL_METRIC_NAME_RE :: rexp where
  "OTEL_METRIC_NAME_RE = Seq (Cls (\<lambda>c. lower c \<or> upper c)) (Rep 0 254 (Cls (one_of ''_.-'' alnum_any)))"
definition OTEL_ATTRIBUTE_KEY_RE :: rexp where
  "OTEL_ATTRIBUTE_KEY_RE = Seq (Cls lower) (Rep 0 254 (Cls (one_of ''_.-'' alnum)))"

definition telemetryId :: "string plan_reader" where
  "telemetryId v path =
     res_bind (safeText 127 v path) (\<lambda>parsed. if matches TELEMETRY_ID_RE parsed then Inr parsed else Inl (PlanError path))"

lemma telemetryId_Inr [res_simps]:
  "telemetryId v path = Inr s \<longleftrightarrow> v = Some (JStr s) \<and> s \<noteq> [] \<and> safe_text 127 s \<and> matches TELEMETRY_ID_RE s"
  by (auto simp: telemetryId_def res_simps)

definition parseTelemetryActivation :: "telemetry_activation plan_reader" where
  "parseTelemetryActivation v path =
     res_bind (object_at v path) (\<lambda>parsed.
     res_bind (member_at string_at parsed path ''kind'') (\<lambda>kind.
     (if kind = ''app-instrumentation-hook'' then
       res_bind (exactKeys parsed [''kind''] path) (\<lambda>_.
       Inr (AppInstrumentationHook))
     else if kind = ''managed'' then
       res_bind (exactKeys parsed [''kind''] path) (\<lambda>_.
       Inr (Managed))
     else if kind = ''otel-operator'' then
       res_bind (exactKeys parsed [''kind'', ''instrumentation''] path) (\<lambda>_.
       res_bind (member_at parseKubernetesObjectRef parsed path ''instrumentation'') (\<lambda>instrumentation.
       Inr (OtelOperator instrumentation)))
     else if kind = ''external-precondition'' then
       res_bind (exactKeys parsed [''kind'', ''description''] path) (\<lambda>_.
       res_bind (member_at (safeText 512) parsed path ''description'') (\<lambda>description.
       Inr (ExternalPrecondition description)))
     else
       Inl (PlanError (dot path ''kind'')))))"

interpretation activation_reader: strict_reader parseTelemetryActivation telemetry_activation_value
  by unfold_locales (auto simp: parseTelemetryActivation_def reader_simps split: if_splits; erule reads_as_members; auto intro: ref_reader.strict)

definition parseTelemetrySignal :: "telemetry_signal plan_reader" where
  "parseTelemetrySignal v path =
     res_bind (object_at v path) (\<lambda>parsed.
     res_bind (member_at (oneOf [''span'', ''metric'', ''log'']) parsed path ''kind'') (\<lambda>kind.
     (if kind = ''metric'' then
       res_bind (exactKeys parsed [''kind'', ''name'', ''instrument'', ''unit''] path) (\<lambda>_.
       res_bind (member_at (safeText 255) parsed path ''name'') (\<lambda>name.
       res_bind (fail_if (\<not> matches OTEL_METRIC_NAME_RE name) (dot path ''name'')) (\<lambda>_.
       res_bind (member_at (optional_at (safeText 63)) parsed path ''unit'') (\<lambda>unit.
       res_bind (member_at (oneOf [''counter'', ''histogram'', ''gauge'', ''up-down-counter'']) parsed path ''instrument'') (\<lambda>instrument.
       Inr (MetricSignal name instrument unit))))))
     else
       res_bind (exactKeys parsed [''kind'', ''name''] path) (\<lambda>_.
       res_bind (member_at (safeText 255) parsed path ''name'') (\<lambda>name.
       Inr (if kind = ''span'' then SpanSignal name else LogSignal name))))))"

lemma three_kinds: "among [a, b, c] s \<longleftrightarrow> s = a \<or> s = b \<or> s = c"
  by (simp add: among_def)

interpretation signal_reader: strict_reader parseTelemetrySignal telemetry_signal_value
  by unfold_locales (auto simp: parseTelemetrySignal_def reader_simps three_kinds; erule reads_as_members; auto)

definition parseTelemetryWorkload :: "telemetry_workload plan_reader" where
  "parseTelemetryWorkload v path =
     res_bind (object_at v path) (\<lambda>parsed.
     res_bind (member_at string_at parsed path ''kind'') (\<lambda>kind.
     (if kind = ''adapter-pool'' then
       res_bind (exactKeys parsed [''kind'', ''pool''] path) (\<lambda>_.
       res_bind (member_at (validated is_pool) parsed path ''pool'') (\<lambda>pool.
       Inr (AdapterPool pool)))
     else if kind = ''adapter-routing-service'' then
       res_bind (exactKeys parsed [''kind''] path) (\<lambda>_.
       Inr (AdapterRoutingService))
     else if kind = ''kubernetes-object'' then
       res_bind (exactKeys parsed [''kind'', ''object''] path) (\<lambda>_.
       res_bind (member_at parseKubernetesObjectRef parsed path ''object'') (\<lambda>object.
       Inr (KubernetesObject object)))
     else if kind = ''managed-service'' then
       res_bind (exactKeys parsed [''kind'', ''name''] path) (\<lambda>_.
       res_bind (member_at telemetryId parsed path ''name'') (\<lambda>name.
       Inr (ManagedService name)))
     else
       Inl (PlanError (dot path ''kind'')))))"

interpretation workload_reader: strict_reader parseTelemetryWorkload telemetry_workload_value
  by unfold_locales (auto simp: parseTelemetryWorkload_def reader_simps telemetryId_Inr split: if_splits; erule reads_as_members; auto intro: ref_reader.strict)

end
