(* ===== verification/Plan.thy ===== *)
theory Plan
  imports PlanParse Decimal
begin

text \<open>
  Telemetry sources, manifests, Kubernetes versions and the whole plan: the last part of
  \<^verbatim>\<open>src/composition-plan/parse.ts\<close>, and \<^verbatim>\<open>src/composition-plan/routing-invariants.ts\<close>.
\<close>

section \<open>Telemetry sources\<close>

lemma same_refl: "clean j \<Longrightarrow> same (kj j) (kj j)"
proof (induction j)
  case (JArr vs)
  then have "list_all2 same (map kj vs) (map kj vs)" by (auto simp: list_all2_conv_all_nth list_all_length)
  then show ?case by (simp only: kj.simps same_arr)
next
  case (JObj fs)
  have "same x x" if "map_of (map (\<lambda>(k, v). (k, kj v)) fs) k = Some x" for k x
  proof -
    obtain v where v: "map_of fs k = Some v" "x = kj v" using \<open>map_of _ k = Some x\<close> by (auto simp: map_of_kj)
    then have "(k, v) \<in> set fs" "clean v" using JObj.prems clean_member by (auto dest: map_of_SomeD)
    then show ?thesis using JObj.IH [of "(k, v)" v] v by (auto simp: snds.simps)
  qed
  then show ?case using JObj.prems by (auto intro!: same_obj simp: comp_def split_beta)
qed (auto intro: same.intros)

lemma reads_as_exact: "kj j = e \<Longrightarrow> reads_as (Some j) (Some e)"
  using same_refl by (auto simp: reads_as_def)

fun attribute_entries :: "string \<Rightarrow> (string \<times> json) list \<Rightarrow> (plan_error, (string \<times> string) list) res" where
  "attribute_entries path [] = Inr []"
| "attribute_entries path ((key, entry) # fs) =
     (if \<not> matches OTEL_ATTRIBUTE_KEY_RE key then Inl (PlanError (dot path key))
      else res_bind (safeText 256 (Some entry) (dot path key)) (\<lambda>s. res_bind (attribute_entries path fs) (\<lambda>m. Inr ((key, s) # m))))"

definition parseTelemetryAttributes :: "(string \<times> string) list plan_reader" where
  "parseTelemetryAttributes v path =
     res_bind (object_at v path) (\<lambda>parsed.
       if length parsed > 32 then Inl (PlanError path) else attribute_entries path parsed)"

lemma attribute_entries_exact:
  "attribute_entries path fs = Inr m \<Longrightarrow> map (\<lambda>(k, v). (k, kj v)) fs = map (\<lambda>(k, s). (k, KStr s)) m"
  by (induction fs arbitrary: m rule: attribute_entries.induct) (auto simp: res_simps split: if_splits)

interpretation attributes_reader: strict_reader parseTelemetryAttributes string_map_value
  by unfold_locales (auto simp: parseTelemetryAttributes_def res_simps string_map_value_def attribute_entries_exact
      intro!: reads_as_exact split: if_splits)

definition assertUniqueTelemetryEntries :: "'a list \<Rightarrow> string \<Rightarrow> (plan_error, unit) res" where
  "assertUniqueTelemetryEntries entries path = fail_if (first_dup [] entries \<noteq> None) path"

lemma unique_entries_Inr [res_simps]: "assertUniqueTelemetryEntries es path = Inr u \<longleftrightarrow> distinct es"
  by (simp add: assertUniqueTelemetryEntries_def res_simps first_dup_None)

fun signal_key :: "telemetry_signal \<Rightarrow> string" where
  "signal_key (SpanSignal n) = ''span:'' @ n"
| "signal_key (MetricSignal n i u) = ''metric:'' @ n"
| "signal_key (LogSignal n) = ''log:'' @ n"

text \<open>\<open>JSON.stringify\<close> of two workloads reads_as exactly when they are equal: the reader fixes the order of keys.\<close>

definition parseTelemetrySource :: "telemetry_source plan_reader" where
  "parseTelemetrySource v path =
     res_bind (object_at v path) (\<lambda>parsed.
     res_bind (exactKeys parsed [''id'', ''producer'', ''owner'', ''activation'', ''protocols'', ''propagation'', ''signals'', ''workloads'', ''attributes''] path) (\<lambda>_.
     res_bind (member_at object_at parsed path ''producer'') (\<lambda>producer.
     res_bind (exactKeys producer [''kind'', ''name''] (dot path ''producer'')) (\<lambda>_.
     res_bind (member_at (array_at 8 (oneOf [''otel-api'', ''otlp'', ''prometheus'', ''cloud-managed''])) parsed path ''protocols'') (\<lambda>protocols.
     res_bind (member_at (array_at 8 (oneOf [''tracecontext'', ''tracestate'', ''baggage-pass-through''])) parsed path ''propagation'') (\<lambda>propagation.
     res_bind (member_at (array_at 128 parseTelemetrySignal) parsed path ''signals'') (\<lambda>signals.
     res_bind (member_at (array_at 128 parseTelemetryWorkload) parsed path ''workloads'') (\<lambda>workloads.
     res_bind (fail_if (signals = [] \<and> propagation = []) path) (\<lambda>_.
     res_bind (fail_if (signals \<noteq> [] \<and> protocols = []) (dot path ''protocols'')) (\<lambda>_.
     res_bind (fail_if (workloads = []) (dot path ''workloads'')) (\<lambda>_.
     res_bind (assertUniqueTelemetryEntries protocols (dot path ''protocols'')) (\<lambda>_.
     res_bind (assertUniqueTelemetryEntries propagation (dot path ''propagation'')) (\<lambda>_.
     res_bind (assertUniqueTelemetryEntries (map signal_key signals) (dot path ''signals'')) (\<lambda>_.
     res_bind (assertUniqueTelemetryEntries workloads (dot path ''workloads'')) (\<lambda>_.
     res_bind (member_at telemetryId parsed path ''id'') (\<lambda>id.
     res_bind (member_at (oneOf [''adapter-runtime'', ''data-plane'', ''ingress-controller'', ''managed-provider'']) producer (dot path ''producer'') ''kind'') (\<lambda>producerKind.
     res_bind (member_at telemetryId producer (dot path ''producer'') ''name'') (\<lambda>producerName.
     res_bind (member_at (oneOf [''adapter'', ''application'', ''operator'', ''cloud-provider'']) parsed path ''owner'') (\<lambda>owner.
     res_bind (member_at parseTelemetryActivation parsed path ''activation'') (\<lambda>activation.
     res_bind (member_at parseTelemetryAttributes parsed path ''attributes'') (\<lambda>attributes.
     Inr (\<lparr>te_id = id, te_producerKind = producerKind, te_producerName = producerName, te_owner = owner, te_activation = activation, te_protocols = protocols, te_propagation = propagation, te_signals = signals, te_workloads = workloads, te_attributes = attributes\<rparr>))))))))))))))))))))))"

interpretation telemetry_reader: strict_reader parseTelemetrySource telemetry_source_value
  by unfold_locales (auto simp: parseTelemetrySource_def reader_simps telemetryId_Inr unique_entries_Inr telemetry_source_value_def strings_value_def
      simp del: array_at_Inr fail_if_Inr;
      erule reads_as_members [where ks = "[''id'', ''producer'', ''owner'', ''activation'', ''protocols'', ''propagation'', ''signals'', ''workloads'', ''attributes'']"];
      auto intro!: pair_agrees choice_reader.array_strict signal_reader.array_strict workload_reader.array_strict activation_reader.strict
        attributes_reader.strict)

section \<open>Manifests\<close>

definition boolean_at :: "bool plan_reader" where
  "boolean_at v path = (case v of Some (JBool b) \<Rightarrow> Inr b | _ \<Rightarrow> Inl (PlanError path))"

lemma boolean_at_Inr [res_simps]: "boolean_at v path = Inr b \<longleftrightarrow> v = Some (JBool b)"
  by (auto simp: boolean_at_def split: option.splits json.splits)

definition parseKubernetesRequirement :: "kubernetes_api_requirement plan_reader" where
  "parseKubernetesRequirement v path =
     res_bind (object_at v path) (\<lambda>parsed.
     res_bind (exactKeys parsed [''apiVersion'', ''resource'', ''optional''] path) (\<lambda>_.
     res_bind (member_at (validated assertSafeApiVersion) parsed path ''apiVersion'') (\<lambda>apiVersion.
     res_bind (member_at resource_at parsed path ''resource'') (\<lambda>resource.
     res_bind (member_at boolean_at parsed path ''optional'') (\<lambda>optional.
     Inr (\<lparr>rq_apiVersion = apiVersion, rq_resource = resource, rq_optional = optional\<rparr>))))))"

interpretation requirement_reader: strict_reader parseKubernetesRequirement kubernetes_api_requirement_value
  by unfold_locales (auto simp: parseKubernetesRequirement_def reader_simps resource_at_Inr boolean_at_Inr kubernetes_api_requirement_value_def;
      erule reads_as_members; auto)

text \<open>
  \<open>result[key] = value\<close>: assigning to \<open>__proto__\<close> replaces the prototype by an object, an array or \<open>null\<close>
  and does nothing for other values.
\<close>

fun kube_assign :: "string \<Rightarrow> kjson \<Rightarrow> (string \<times> kjson) list \<times> kjson option \<Rightarrow> (string \<times> kjson) list \<times> kjson option" where
  "kube_assign k x (own, proto) =
     (if k \<noteq> ''__proto__'' then (jsmap_set k x own, proto)
      else (own, case x of KNull \<Rightarrow> Some x | KArr _ \<Rightarrow> Some x | KObj _ _ \<Rightarrow> Some x | _ \<Rightarrow> proto))"

function parseKubernetesJson :: "json \<Rightarrow> string \<Rightarrow> nat \<Rightarrow> (plan_error, kjson) res"
  and kube_entries :: "json list \<Rightarrow> string \<Rightarrow> nat \<Rightarrow> nat \<Rightarrow> (plan_error, kjson list) res"
  and kube_members :: "(string \<times> json) list \<Rightarrow> string \<Rightarrow> nat \<Rightarrow> (string \<times> kjson) list \<times> kjson option \<Rightarrow> (plan_error, kjson) res" where
  "parseKubernetesJson v path depth =
     (if depth > 64 then Inl (PlanError path)
      else case v of
        JNull \<Rightarrow> Inr KNull
      | JStr s \<Rightarrow> Inr (KStr s)
      | JBool b \<Rightarrow> Inr (KBool b)
      | JNum q \<Rightarrow> Inr (KNum q)
      | JHuge \<Rightarrow> Inl (PlanError path)
      | JArr vs \<Rightarrow> if length vs > 1024 then Inl (PlanError path)
                  else res_bind (kube_entries vs path 0 (depth + 1)) (\<lambda>xs. Inr (KArr xs))
      | JObj fs \<Rightarrow> kube_members fs path (depth + 1) ([], None))"
| "kube_entries [] path i depth = Inr []"
| "kube_entries (v # vs) path i depth =
     res_bind (parseKubernetesJson v (at_index path i) depth) (\<lambda>x. res_bind (kube_entries vs path (Suc i) depth) (\<lambda>xs. Inr (x # xs)))"
| "kube_members [] path depth (own, proto) = Inr (KObj own proto)"
| "kube_members ((k, v) # fs) path depth acc =
     res_bind (parseKubernetesJson v (dot path k) depth) (\<lambda>x. kube_members fs path depth (kube_assign k x acc))"
  by pat_completeness auto
termination
  by (relation "measure (\<lambda>a. case a of
        Inl (v, _) \<Rightarrow> 2 * size v + 1
      | Inr (Inl (vs, _)) \<Rightarrow> 2 * size_list size vs
      | Inr (Inr (fs, _)) \<Rightarrow> 2 * size_list (size_prod (\<lambda>_. 0) size) fs)") auto

declare parseKubernetesJson.simps [simp del]

lemma kube_json_exact:
  "parseKubernetesJson v path depth = Inr x \<Longrightarrow> clean v \<Longrightarrow> x = kj v"
  "kube_entries vs path i depth = Inr xs \<Longrightarrow> list_all clean vs \<Longrightarrow> xs = map kj vs"
  "kube_members fs path depth acc = Inr y \<Longrightarrow> clean (JObj fs) \<Longrightarrow> set (map fst fs) \<inter> set (map fst (fst acc)) = {} \<Longrightarrow>
     y = KObj (fst acc @ map (\<lambda>(k, v). (k, kj v)) fs) (snd acc)"
proof (induction v path depth and vs path i depth and fs path depth acc arbitrary: x and xs and y
    rule: parseKubernetesJson_kube_entries_kube_members.induct)
  case (1 v path depth)
  then show ?case
    by (cases v) (auto simp: parseKubernetesJson.simps [of _ path depth] res_simps split: if_splits)
next
  case (5 k v fs path depth acc)
  obtain own proto where acc: "acc = (own, proto)" by (cases acc)
  obtain z where z: "parseKubernetesJson v (dot path k) depth = Inr z" "kube_members fs path depth (kube_assign k z acc) = Inr y"
    using 5 by (auto simp: res_simps)
  have k: "k \<noteq> ''__proto__''" "k \<notin> set (map fst own)" using 5 acc by auto
  have "jsmap_set k z own = own @ [(k, z)]" using k(2) by (rule jsmap_set_fresh)
  then have step: "kube_assign k z acc = (own @ [(k, z)], proto)" using k(1) by (simp add: acc)
  have "clean (JObj fs)" "set (map fst fs) \<inter> set (map fst (own @ [(k, z)])) = {}" using 5(4,5) acc by auto
  then have "y = KObj ((own @ [(k, z)]) @ map (\<lambda>(k, v). (k, kj v)) fs) proto"
    using 5(2) [of z y] z unfolding step by simp
  moreover have "z = kj v" using 5(1) [OF z(1)] 5(4) by simp
  ultimately show ?case by (simp add: acc)
qed (auto simp: res_simps)

definition label_value :: rexp where
  "label_value = Seq (Cls alnum_any) (ropt (Seq (Star (Cls (one_of ''-_.'' alnum_any))) (Cls alnum_any)))"

definition metadata_value_ok :: "string \<Rightarrow> string \<Rightarrow> bool" where
  "metadata_value_ok kind entry =
     (if kind = ''labels'' then length entry \<le> 63 \<and> (entry = [] \<or> matches label_value entry)
      else length entry \<le> 4096 \<and> \<not> list_ex control_char entry)"

fun metadata_entries :: "string \<Rightarrow> string \<Rightarrow> (string \<times> json) list \<Rightarrow> (plan_error, (string \<times> string) list) res" where
  "metadata_entries kind path [] = Inr []"
| "metadata_entries kind path ((key, entry) # fs) =
     (if assertSafeAnnotationName (Some (JStr key)) \<noteq> Inr () then Inl (PlanError (dot path key))
      else case entry of
        JStr s \<Rightarrow> if metadata_value_ok kind s then res_bind (metadata_entries kind path fs) (\<lambda>m. Inr ((key, s) # m))
                  else Inl (PlanError (dot path key))
      | _ \<Rightarrow> Inl (PlanError (dot path key)))"

definition parseKubernetesMetadataMap :: "string \<Rightarrow> (string \<times> string) list plan_reader" where
  "parseKubernetesMetadataMap kind v path = res_bind (object_at v path) (\<lambda>parsed. metadata_entries kind path parsed)"

lemma metadata_entries_exact:
  "metadata_entries kind path fs = Inr m \<Longrightarrow> map (\<lambda>(k, v). (k, kj v)) fs = map (\<lambda>(k, s). (k, KStr s)) m"
  by (induction kind path fs arbitrary: m rule: metadata_entries.induct) (auto simp: res_simps split: if_splits json.splits)

interpretation metadata_reader: strict_reader "parseKubernetesMetadataMap kind" string_map_value for kind
  by unfold_locales (auto simp: parseKubernetesMetadataMap_def res_simps string_map_value_def metadata_entries_exact intro!: reads_as_exact)

fun ktruthy :: "kjson \<Rightarrow> bool" where
  "ktruthy KNull = False"
| "ktruthy (KBool b) = b"
| "ktruthy (KNum q) = (q \<noteq> 0)"
| "ktruthy (KStr s) = (s \<noteq> [])"
| "ktruthy _ = True"

text \<open>
  \<open>key in body\<close> along the prototype chain, for keys neither \<open>Object.prototype\<close> nor \<open>Array.prototype\<close>
  has; on a primitive the operator throws.
\<close>

fun key_in :: "string \<Rightarrow> kjson \<Rightarrow> bool option" where
  "key_in key (KObj own proto) =
     (if map_of own key \<noteq> None then Some True
      else case proto of None \<Rightarrow> Some False | Some p \<Rightarrow> (case p of KObj _ _ \<Rightarrow> key_in key p | _ \<Rightarrow> Some False))"
| "key_in key (KArr _) = Some False"
| "key_in key _ = None"

definition body_refused :: "kjson \<Rightarrow> bool" where
  "body_refused body =
     (ktruthy body \<and> list_ex (\<lambda>key. key_in key body \<noteq> Some False) [''apiVersion'', ''kind'', ''metadata'', ''status''])"

definition body_at :: "kjson option plan_reader" where
  "body_at v path =
     res_bind (optional_at (\<lambda>v path. case v of Some j \<Rightarrow> parseKubernetesJson j path 0 | None \<Rightarrow> Inl (PlanError path)) v path) (\<lambda>body.
     case body of
       None \<Rightarrow> Inr None
     | Some b \<Rightarrow> if body_refused b then Inl (PlanError path) else Inr (if ktruthy b then Some b else None))"

definition KIND_RE :: rexp where "KIND_RE = Seq (Cls upper) (Star (Cls alnum_any))"

definition manifest_name_ok :: "string \<Rightarrow> string \<Rightarrow> string \<Rightarrow> bool" where
  "manifest_name_ok apiVersion kind name =
     (if apiVersion = ''v1'' \<and> kind = ''Service'' then is_service name
      else if apiVersion = ''v1'' \<and> kind = ''Namespace'' then is_namespace name else is_object_name name)"

definition parseKubernetesManifest :: "kubernetes_manifest plan_reader" where
  "parseKubernetesManifest v path =
     res_bind (object_at v path) (\<lambda>parsed.
     res_bind (exactKeys parsed [''apiVersion'', ''kind'', ''resource'', ''metadata'', ''body''] path) (\<lambda>_.
     res_bind (member_at (validated assertSafeApiVersion) parsed path ''apiVersion'') (\<lambda>apiVersion.
     res_bind (member_at (safeText 63) parsed path ''kind'') (\<lambda>kind.
     res_bind (fail_if (\<not> matches KIND_RE kind) (dot path ''kind'')) (\<lambda>_.
     res_bind (fail_if (kind = ''Secret'') (dot path ''kind'')) (\<lambda>_.
     res_bind (member_at resource_at parsed path ''resource'') (\<lambda>resource.
     res_bind (member_at object_at parsed path ''metadata'') (\<lambda>metadata.
     res_bind (exactKeys metadata [''name'', ''namespace'', ''labels'', ''annotations''] (dot path ''metadata'')) (\<lambda>_.
     res_bind (member_at (validated (manifest_name_ok apiVersion kind)) metadata (dot path ''metadata'') ''name'') (\<lambda>name.
     res_bind (member_at (optional_at (validated is_namespace)) metadata (dot path ''metadata'') ''namespace'') (\<lambda>namespace.
     res_bind (member_at (optional_at (parseKubernetesMetadataMap ''labels'')) metadata (dot path ''metadata'') ''labels'') (\<lambda>labels.
     res_bind (member_at (optional_at (parseKubernetesMetadataMap ''annotations'')) metadata (dot path ''metadata'') ''annotations'') (\<lambda>annotations.
     res_bind (member_at body_at parsed path ''body'') (\<lambda>body.
     Inr (\<lparr>mf_apiVersion = apiVersion, mf_kind = kind, mf_resource = resource, mf_name = name, mf_namespace = namespace, mf_labels = labels, mf_annotations = annotations, mf_body = body\<rparr>)))))))))))))))"

lemma falsy_kj: "ktruthy (kj j) \<longleftrightarrow> \<not> falsy j \<and> j \<noteq> JHuge"
  by (cases j) auto

lemma body_at_agrees:
  assumes "body_at v path = Inr b" "\<And>j. v = Some j \<Longrightarrow> \<not> falsy j"
  shows "reads_as v b"
proof (cases v)
  case (Some j)
  have "kj j = x \<and> b = Some (kj j)" if "parseKubernetesJson j path 0 = Inr x" "clean j" for x
  proof -
    have x: "x = kj j" using kube_json_exact(1) that by blast
    have "j \<noteq> JHuge" using that(1) by (auto simp: parseKubernetesJson.simps)
    then have "ktruthy x" using x assms(2) [OF Some] by (simp add: falsy_kj)
    then show ?thesis using assms(1) that x by (auto simp: body_at_def Some res_simps optional_at_def split: if_splits)
  qed
  moreover obtain x where "parseKubernetesJson j path 0 = Inr x" using assms(1) by (auto simp: body_at_def Some res_simps optional_at_def)
  ultimately show ?thesis using same_refl by (auto simp: reads_as_def Some)
qed (use assms in \<open>auto simp: body_at_def optional_at_def\<close>)

lemma members4_agree:
  assumes "exactKeys fs [a, b, c, d] p = Inr ()" "distinct [a, b, c, d]"
    "reads_as (map_of fs a) (Some w)" "reads_as (map_of fs b) x" "reads_as (map_of fs c) y" "reads_as (map_of fs d) z"
  shows "reads_as (Some (JObj fs)) (Some (ko ((a, w) # kmember b x @ kmember c y @ kmember d z)))"
  by (cases x; cases y; cases z; rule reads_as_members [OF assms(1)]; use assms(2-) in auto)

lemma clean_body: "clean (JObj fs) \<Longrightarrow> map_of fs ''body'' = Some j \<Longrightarrow> \<not> falsy j"
  by (auto simp: list_all_iff dest!: map_of_SomeD)

interpretation manifest_reader: strict_reader parseKubernetesManifest kubernetes_manifest_value
proof unfold_locales
  fix v path x
  assume "parseKubernetesManifest v path = Inr x"
  then obtain fs metadata where
    v: "v = Some (JObj fs)" "exactKeys fs [''apiVersion'', ''kind'', ''resource'', ''metadata'', ''body''] path = Inr ()"
      "map_of fs ''metadata'' = Some (JObj metadata)" "exactKeys metadata [''name'', ''namespace'', ''labels'', ''annotations''] (dot path ''metadata'') = Inr ()"
    and plain: "map_of fs ''apiVersion'' = Some (JStr (mf_apiVersion x))" "map_of fs ''kind'' = Some (JStr (mf_kind x))"
      "map_of fs ''resource'' = Some (JStr (mf_resource x))" "map_of metadata ''name'' = Some (JStr (mf_name x))"
    and opt: "optional_at (validated is_namespace) (map_of metadata ''namespace'') (dot (dot path ''metadata'') ''namespace'') = Inr (mf_namespace x)"
      "optional_at (parseKubernetesMetadataMap ''labels'') (map_of metadata ''labels'') (dot (dot path ''metadata'') ''labels'') = Inr (mf_labels x)"
      "optional_at (parseKubernetesMetadataMap ''annotations'') (map_of metadata ''annotations'') (dot (dot path ''metadata'') ''annotations'') = Inr (mf_annotations x)"
    and body: "body_at (map_of fs ''body'') (dot path ''body'') = Inr (mf_body x)"
    by (auto simp: parseKubernetesManifest_def reader_simps resource_at_Inr simp del: optional_at_Inr)
  have meta: "reads_as (Some (JObj metadata)) (Some (ko ((''name'', KStr (mf_name x)) # kmember ''namespace'' (map_option KStr (mf_namespace x))
      @ kmember ''labels'' (map_option string_map_value (mf_labels x)) @ kmember ''annotations'' (map_option string_map_value (mf_annotations x)))))"
    by (rule members4_agree [OF v(4)])
      (use plain opt validated_reader.optional_strict metadata_reader.optional_strict in auto)
  show "reads_as v (Some (kubernetes_manifest_value x))"
  proof (cases "clean (JObj fs)")
    case True
    have "reads_as (map_of fs ''body'') (mf_body x)" using body_at_agrees [OF body] clean_body [OF True] by blast
    then show ?thesis unfolding v(1) kubernetes_manifest_value_def
      by (intro reads_as_members [OF v(2)]) (use meta v(3) plain in \<open>auto simp: kmember_def split: option.splits\<close>)
  qed (simp add: reads_as_def v(1) del: clean.simps)
qed

section \<open>Kubernetes versions\<close>

definition digits_of :: "string \<Rightarrow> (nat \<times> string) option" where
  "digits_of s = (if takeWhile dec_digit s = [] then None else Some (dec_value (takeWhile dec_digit s), dropWhile dec_digit s))"

definition after_dot :: "string \<Rightarrow> string option" where
  "after_dot s = (case s of c # t \<Rightarrow> if c = CHR ''.'' then Some t else None | [] \<Rightarrow> None)"

definition version_suffix :: "string \<Rightarrow> bool" where
  "version_suffix s = (case s of [] \<Rightarrow> True | c # t \<Rightarrow> (c = CHR ''-'' \<or> c = CHR ''+'') \<and> CHR 0x0A \<notin> set t \<and> CHR 0x0D \<notin> set t)"

definition parseVersion :: "string \<Rightarrow> (nat \<times> nat \<times> nat) option" where
  "parseVersion version =
     Option.bind (digits_of (case version of c # t \<Rightarrow> if c = CHR ''v'' then t else version | [] \<Rightarrow> [])) (\<lambda>(major, r).
     Option.bind (Option.bind (after_dot r) digits_of) (\<lambda>(minor, r).
     Option.bind (Option.bind (after_dot r) digits_of) (\<lambda>(patch, r).
     if version_suffix r then Some (major, minor, patch) else None)))"

fun compareVersion :: "nat \<times> nat \<times> nat \<Rightarrow> nat \<times> nat \<times> nat \<Rightarrow> int" where
  "compareVersion (a1, a2, a3) (b1, b2, b3) =
     (if a1 \<noteq> b1 then int a1 - int b1 else if a2 \<noteq> b2 then int a2 - int b2 else int a3 - int b3)"

definition older_version :: "string \<Rightarrow> string \<Rightarrow> bool" where
  "older_version a b =
     (case (parseVersion a, parseVersion b) of (Some x, Some y) \<Rightarrow> compareVersion x y < 0 | _ \<Rightarrow> True)"

text \<open>A version that cannot be parsed throws too.\<close>

definition assertKubernetesMinimumVersion :: "string \<Rightarrow> (plan_error, unit) res" where
  "assertKubernetesMinimumVersion version =
     fail_if (older_version version MINIMUM_KUBERNETES_VERSION) ''$.requirements.kubernetes.minimumVersion''"

definition assertKubernetesServerVersion :: "string \<Rightarrow> string \<Rightarrow> (plan_error, unit) res" where
  "assertKubernetesServerVersion actual required =
     res_bind (assertKubernetesMinimumVersion required) (\<lambda>_. fail_if (older_version actual required) ''Kubernetes server version'')"

section \<open>Cross-checks\<close>

fun readiness_namespaces :: "routing_readiness \<Rightarrow> string list" where
  "readiness_namespaces (KubernetesServiceEndpoints s _) = [svc_namespace s]"
| "readiness_namespaces (GcpTrafficExtensionReady _ _ _) = []"
| "readiness_namespaces (KubernetesCondition c) = (case ref_namespace (kc_object c) of None \<Rightarrow> [] | Some n \<Rightarrow> [n])"
| "readiness_namespaces (KubernetesJobComplete r _) = (case ref_namespace r of None \<Rightarrow> [] | Some n \<Rightarrow> [n])"
| "readiness_namespaces (KubernetesDeploymentAvailable r _) = (case ref_namespace r of None \<Rightarrow> [] | Some n \<Rightarrow> [n])"

fun diagnostic_namespaces :: "diagnostic_source \<Rightarrow> string list" where
  "diagnostic_namespaces (DiagnoseCondition c _) = readiness_namespaces (KubernetesCondition c)"
| "diagnostic_namespaces _ = []"

definition somes :: "'a option list \<Rightarrow> 'a list" where
  "somes xs = concat (map (\<lambda>x. case x of None \<Rightarrow> [] | Some y \<Rightarrow> [y]) xs)"

definition release_scoped :: "plan_operations \<Rightarrow> (string \<times> string list) list" where
  "release_scoped p =
     [(''$.operations.logs'', map lg_namespace (op_logs p)),
      (''$.operations.cleanup.kubernetes.contributedObjects'', somes (map (ref_namespace \<circ> own_ref) (cl_contributedObjects (op_cleanup p)))),
      (''$.operations.resources.objects'', somes (map mf_namespace (op_objects p))),
      (''$.operations.resources.readiness'', concat (map readiness_namespaces (op_readiness p))),
      (''$.operations.routing.dataplane.readiness'', concat (map readiness_namespaces (dataplane_readiness (rt_dataplane (op_routing p))))),
      (''$.operations.diagnostics'', concat (map diagnostic_namespaces (op_diagnostics p)))]"

fun routing_service :: "dataplane \<Rightarrow> kubernetes_service_ref option" where
  "routing_service (PortableHttpOrigin s _ _) = Some s"
| "routing_service (AdapterOwnedEnvoyProxy s _) = Some s"
| "routing_service (ExternalExtProc _ _) = None"

text \<open>Reading a property, along the prototype chain.\<close>

fun kget :: "kjson \<Rightarrow> string \<Rightarrow> kjson option" where
  "kget (KObj own proto) key =
     (case map_of own key of Some x \<Rightarrow> Some x | None \<Rightarrow> (case proto of None \<Rightarrow> None | Some p \<Rightarrow> kget p key))"
| "kget _ key = None"

definition is_kobject :: "kjson \<Rightarrow> bool" where
  "is_kobject x = (case x of KObj _ _ \<Rightarrow> True | _ \<Rightarrow> False)"

definition named_address :: "string \<Rightarrow> kjson \<Rightarrow> bool" where
  "named_address name a =
     (is_kobject a \<and> kget a ''type'' = Some (KStr ''NamedAddress'') \<and> kget a ''value'' = Some (KStr name))"

definition address_matches :: "string \<Rightarrow> kubernetes_manifest \<Rightarrow> nat" where
  "address_matches name m =
     (if mf_kind m \<noteq> ''Gateway'' then 0
      else case Option.bind (mf_body m) (\<lambda>b. kget b ''spec'') of
        Some spec \<Rightarrow>
          if \<not> is_kobject spec then 0
          else (case kget spec ''addresses'' of Some (KArr addresses) \<Rightarrow> length (filter (named_address name) addresses) | _ \<Rightarrow> 0)
      | None \<Rightarrow> 0)"

definition assertGcpTrafficExtensionTopology ::
    "cluster_identity \<Rightarrow> routing_plan \<Rightarrow> kubernetes_manifest list \<Rightarrow> string \<Rightarrow> (plan_error, unit) res" where
  "assertGcpTrafficExtensionTopology identity routing objects subject =
     (case rt_registration routing of
        Some (GcpTrafficExtensionV1 projectId extensionName addressName) \<Rightarrow>
          res_bind (fail_if (GcpTrafficExtensionReady projectId extensionName addressName \<notin> set (dataplane_readiness (rt_dataplane routing))) subject) (\<lambda>_.
          res_bind (fail_if (case identity of GkeResource p _ _ _ \<Rightarrow> p \<noteq> projectId | _ \<Rightarrow> False) subject) (\<lambda>_.
          fail_if (sum_list (map (address_matches addressName) objects) \<noteq> 1) subject))
      | _ \<Rightarrow> Inr ())"

section \<open>The plan\<close>

definition PLAN_DIGEST_RE :: rexp where "PLAN_DIGEST_RE = Seq (lit ''sha256:'') (Rep 64 64 (Cls lower_hex))"

definition parseOperations :: "(string \<Rightarrow> nat) \<Rightarrow> (string \<times> json) list \<Rightarrow> (string \<times> json) list \<Rightarrow> string \<Rightarrow> (plan_error, plan_operations) res" where
  "parseOperations isIP operations resources path =
     res_bind (member_at (array_at 256 parseKubernetesManifest) resources (dot path ''resources'') ''objects'') (\<lambda>objects.
     res_bind (member_at (array_at 256 parseRoutingReadiness) resources (dot path ''resources'') ''readiness'') (\<lambda>readiness.
     res_bind (member_at (parseNetwork isIP) operations path ''network'') (\<lambda>network.
     res_bind (member_at parseCache operations path ''cache'') (\<lambda>cache.
     res_bind (member_at parseCdn operations path ''cdn'') (\<lambda>cdn.
     res_bind (member_at parseRouting operations path ''routing'') (\<lambda>routing.
     res_bind (member_at parseCleanup operations path ''cleanup'') (\<lambda>cleanup.
     res_bind (member_at (array_at 256 parseDiagnostic) operations path ''diagnostics'') (\<lambda>diagnostics.
     res_bind (member_at (array_at 256 parseLog) operations path ''logs'') (\<lambda>logs.
     res_bind (member_at (optional_at (array_at 256 parseTelemetrySource)) operations path ''telemetry'') (\<lambda>telemetry.
     Inr (\<lparr>op_objects = objects, op_readiness = readiness, op_network = network, op_cache = cache, op_cdn = cdn, op_routing = routing, op_cleanup = cleanup, op_diagnostics = diagnostics, op_logs = logs, op_telemetry = telemetry\<rparr>)))))))))))"

definition parseTarget :: "(string \<times> json) list \<Rightarrow> string \<Rightarrow> string \<Rightarrow> (plan_error, plan_target) res" where
  "parseTarget target fingerprint path =
     res_bind (member_at parseClusterIdentity target path ''identity'') (\<lambda>identity.
     res_bind (member_at parseClusterAccess target path ''access'') (\<lambda>access.
     res_bind (member_at parseRegistry target path ''registry'') (\<lambda>registry.
     Inr (\<lparr>pt_fingerprint = fingerprint, pt_identity = identity, pt_access = access, pt_registry = registry\<rparr>))))"

definition parseMetadata :: "(string \<times> json) list \<Rightarrow> string \<Rightarrow> (plan_error, plan_metadata) res" where
  "parseMetadata metadata path =
     res_bind (member_at (validated is_release) metadata path ''releaseName'') (\<lambda>releaseName.
     res_bind (member_at (validated is_namespace) metadata path ''namespace'') (\<lambda>namespace.
     res_bind (member_at (validated is_build_id) metadata path ''buildId'') (\<lambda>buildId.
     Inr (\<lparr>pm_releaseName = releaseName, pm_namespace = namespace, pm_buildId = buildId\<rparr>))))"

text \<open>The checks on the finished plan, in the order of the source.\<close>

definition check_plan :: "composition_plan \<Rightarrow> (plan_error, unit) res" where
  "check_plan plan =
     (let ops = cp_operations plan in
     (let namespace = pm_namespace (cp_metadata plan) in
     (let releaseName = pm_releaseName (cp_metadata plan) in
     res_bind (assertUniqueTelemetryEntries (map te_id (case op_telemetry ops of None \<Rightarrow> [] | Some ts \<Rightarrow> ts)) ''$.operations.telemetry'') (\<lambda>_.
     res_bind (res_all (\<lambda>(path, candidate). fail_if (list_ex (\<lambda>entry. entry \<noteq> namespace) candidate) path) (release_scoped ops)) (\<lambda>_.
     res_bind (fail_if (case routing_service (rt_dataplane (op_routing ops)) of Some s \<Rightarrow> svc_namespace s \<noteq> namespace | None \<Rightarrow> False) ''$.operations.routing.dataplane.service.namespace'') (\<lambda>_.
     res_bind (fail_if (list_ex (\<lambda>source. lg_releaseName source \<noteq> releaseName) (op_logs ops)) ''$.operations.logs'') (\<lambda>_.
     res_bind (fail_if (list_ex (\<lambda>w. own_releaseLabel w \<noteq> releaseName) (cl_contributedObjects (op_cleanup ops))) ''$.operations.cleanup.kubernetes.contributedObjects'') (\<lambda>_.
     assertGcpTrafficExtensionTopology (pt_identity (cp_target plan)) (op_routing ops) (op_objects ops) ''$.operations.routing''))))))))"

definition parseCompositionPlan :: "(string \<Rightarrow> nat) \<Rightarrow> json \<Rightarrow> (plan_error, composition_plan) res" where
  "parseCompositionPlan isIP v =
     res_bind (object_at (Some v) ''$'') (\<lambda>parsed.
     res_bind (exactKeys parsed [''apiVersion'', ''kind'', ''metadata'', ''target'', ''requirements'', ''operations''] ''$'') (\<lambda>_.
     res_bind (member_at object_at parsed ''$'' ''metadata'') (\<lambda>metadata.
     res_bind (exactKeys metadata [''releaseName'', ''namespace'', ''buildId''] ''$.metadata'') (\<lambda>_.
     res_bind (member_at object_at parsed ''$'' ''target'') (\<lambda>target.
     res_bind (exactKeys target [''fingerprint'', ''identity'', ''access'', ''registry''] ''$.target'') (\<lambda>_.
     res_bind (member_at (validated (matches PLAN_DIGEST_RE)) target ''$.target'' ''fingerprint'') (\<lambda>fingerprint.
     res_bind (member_at object_at parsed ''$'' ''requirements'') (\<lambda>requirements.
     res_bind (exactKeys requirements [''kubernetes''] ''$.requirements'') (\<lambda>_.
     res_bind (member_at object_at requirements ''$.requirements'' ''kubernetes'') (\<lambda>kubernetes.
     res_bind (exactKeys kubernetes [''minimumVersion'', ''resources''] ''$.requirements.kubernetes'') (\<lambda>_.
     res_bind (member_at string_at kubernetes ''$.requirements.kubernetes'' ''minimumVersion'') (\<lambda>minimumVersion.
     res_bind (assertKubernetesMinimumVersion minimumVersion) (\<lambda>_.
     res_bind (member_at object_at parsed ''$'' ''operations'') (\<lambda>operations.
     res_bind (exactKeys operations [''resources'', ''network'', ''cache'', ''cdn'', ''routing'', ''cleanup'', ''diagnostics'', ''logs'', ''telemetry''] ''$.operations'') (\<lambda>_.
     res_bind (member_at object_at operations ''$.operations'' ''resources'') (\<lambda>resources.
     res_bind (exactKeys resources [''objects'', ''readiness''] ''$.operations.resources'') (\<lambda>_.
     res_bind (parseMetadata metadata ''$.metadata'') (\<lambda>meta.
     res_bind (member_at (literal_at (JStr COMPOSITION_PLAN_API_VERSION)) parsed ''$'' ''apiVersion'') (\<lambda>_.
     res_bind (member_at (literal_at (JStr COMPOSITION_PLAN_KIND)) parsed ''$'' ''kind'') (\<lambda>_.
     res_bind (parseTarget target fingerprint ''$.target'') (\<lambda>tgt.
     res_bind (member_at (array_at 256 parseKubernetesRequirement) kubernetes ''$.requirements.kubernetes'' ''resources'') (\<lambda>apis.
     res_bind (parseOperations isIP operations resources ''$.operations'') (\<lambda>ops.
     (let plan = \<lparr>cp_metadata = meta, cp_target = tgt, cp_minimumVersion = minimumVersion, cp_apiResources = apis, cp_operations = ops\<rparr> in
     res_bind (check_plan plan) (\<lambda>_.
     Inr (plan))))))))))))))))))))))))))"

section \<open>Strictness of the plan\<close>

lemma metadata_strict:
  assumes "exactKeys fs [''releaseName'', ''namespace'', ''buildId''] q = Inr ()" "parseMetadata fs path = Inr x"
  shows "reads_as (Some (JObj fs)) (Some (metadata_value x))"
  using assms(2) by - (auto simp: parseMetadata_def reader_simps metadata_value_def intro!: reads_as_members [OF assms(1)])

lemma target_strict:
  assumes "exactKeys fs [''fingerprint'', ''identity'', ''access'', ''registry''] q = Inr ()" "map_of fs ''fingerprint'' = Some (JStr f)"
    "parseTarget fs f path = Inr x"
  shows "reads_as (Some (JObj fs)) (Some (target_value x))"
  using assms(2,3)
  by - (auto simp: parseTarget_def reader_simps target_value_def
      intro!: reads_as_members [OF assms(1)] identity_reader.strict access_reader.strict registry_reader.strict)

lemma requirements_strict:
  assumes "exactKeys fs [''kubernetes''] q = Inr ()" "map_of fs ''kubernetes'' = Some (JObj k)"
    "exactKeys k [''minimumVersion'', ''resources''] q' = Inr ()" "map_of k ''minimumVersion'' = Some (JStr version)"
    "array_at n parseKubernetesRequirement (map_of k ''resources'') path = Inr rs"
  shows "reads_as (Some (JObj fs)) (Some (requirements_value version rs))"
  unfolding requirements_value_def
  by (rule reads_as_single [OF assms(1)]) (use assms(2,4) pair_agrees [OF assms(3)] requirement_reader.array_strict [OF assms(5)] in auto)

lemma telemetry_agrees:
  "optional_at (array_at n parseTelemetrySource) v path = Inr x \<Longrightarrow> reads_as v (map_option (\<lambda>ts. KArr (map telemetry_source_value ts)) x)"
  using telemetry_reader.array_strict by (auto simp: optional_at_Inr simp del: array_at_Inr)

lemma operations_strict:
  assumes keys: "exactKeys fs [''resources'', ''network'', ''cache'', ''cdn'', ''routing'', ''cleanup'', ''diagnostics'', ''logs'', ''telemetry''] q = Inr ()"
    and res: "map_of fs ''resources'' = Some (JObj rs)" "exactKeys rs [''objects'', ''readiness''] q' = Inr ()"
    and ok: "parseOperations isIP fs rs path = Inr x"
  shows "reads_as (Some (JObj fs)) (Some (operations_value x))"
proof -
  have objects: "array_at 256 parseKubernetesManifest (map_of rs ''objects'') (dot (dot path ''resources'') ''objects'') = Inr (op_objects x)"
    "array_at 256 parseRoutingReadiness (map_of rs ''readiness'') (dot (dot path ''resources'') ''readiness'') = Inr (op_readiness x)"
    and plain: "parseNetwork isIP (map_of fs ''network'') (dot path ''network'') = Inr (op_network x)"
    "parseCache (map_of fs ''cache'') (dot path ''cache'') = Inr (op_cache x)"
    "parseCdn (map_of fs ''cdn'') (dot path ''cdn'') = Inr (op_cdn x)"
    "parseRouting (map_of fs ''routing'') (dot path ''routing'') = Inr (op_routing x)"
    "parseCleanup (map_of fs ''cleanup'') (dot path ''cleanup'') = Inr (op_cleanup x)"
    and arrays: "array_at 256 parseDiagnostic (map_of fs ''diagnostics'') (dot path ''diagnostics'') = Inr (op_diagnostics x)"
    "array_at 256 parseLog (map_of fs ''logs'') (dot path ''logs'') = Inr (op_logs x)"
    "optional_at (array_at 256 parseTelemetrySource) (map_of fs ''telemetry'') (dot path ''telemetry'') = Inr (op_telemetry x)"
    using ok by (auto simp: parseOperations_def res_bind_Inr member_at_def)
  note facts = pair_agrees [OF res(2) manifest_reader.array_strict [OF objects(1)] readiness_reader.array_strict [OF objects(2)]]
    network_reader.strict [OF plain(1)] cache_reader.strict [OF plain(2)] cdn_reader.strict [OF plain(3)] routing_reader.strict [OF plain(4)]
    cleanup_reader.strict [OF plain(5)] diagnostic_reader.array_strict [OF arrays(1)] log_reader.array_strict [OF arrays(2)] telemetry_agrees [OF arrays(3)]
  show ?thesis unfolding operations_value_def
    by (cases "op_telemetry x"; rule reads_as_members [OF keys]; use facts res(1) in simp)
qed

lemma plan_strict:
  assumes ok: "parseCompositionPlan isIP v = Inr p"
  shows "reads_as (Some v) (Some (plan_value p))"
proof -
  obtain fs metadata target requirements kubernetes operations resources where
    v: "v = JObj fs" and keys: "exactKeys fs [''apiVersion'', ''kind'', ''metadata'', ''target'', ''requirements'', ''operations''] ''$'' = Inr ()"
    and literals: "map_of fs ''apiVersion'' = Some (JStr COMPOSITION_PLAN_API_VERSION)" "map_of fs ''kind'' = Some (JStr COMPOSITION_PLAN_KIND)"
    and members: "map_of fs ''metadata'' = Some (JObj metadata)" "map_of fs ''target'' = Some (JObj target)"
      "map_of fs ''requirements'' = Some (JObj requirements)" "map_of fs ''operations'' = Some (JObj operations)"
    and meta: "exactKeys metadata [''releaseName'', ''namespace'', ''buildId''] ''$.metadata'' = Inr ()" "parseMetadata metadata ''$.metadata'' = Inr (cp_metadata p)"
    and target: "exactKeys target [''fingerprint'', ''identity'', ''access'', ''registry''] ''$.target'' = Inr ()"
      "\<exists>f. map_of target ''fingerprint'' = Some (JStr f) \<and> parseTarget target f ''$.target'' = Inr (cp_target p)"
    and req: "exactKeys requirements [''kubernetes''] ''$.requirements'' = Inr ()" "map_of requirements ''kubernetes'' = Some (JObj kubernetes)"
      "exactKeys kubernetes [''minimumVersion'', ''resources''] ''$.requirements.kubernetes'' = Inr ()"
      "map_of kubernetes ''minimumVersion'' = Some (JStr (cp_minimumVersion p))"
      "array_at 256 parseKubernetesRequirement (map_of kubernetes ''resources'') (dot ''$.requirements.kubernetes'' ''resources'') = Inr (cp_apiResources p)"
    and ops: "exactKeys operations [''resources'', ''network'', ''cache'', ''cdn'', ''routing'', ''cleanup'', ''diagnostics'', ''logs'', ''telemetry''] ''$.operations'' = Inr ()"
      "map_of operations ''resources'' = Some (JObj resources)" "exactKeys resources [''objects'', ''readiness''] ''$.operations.resources'' = Inr ()"
      "parseOperations isIP operations resources ''$.operations'' = Inr (cp_operations p)"
    using ok by (auto simp: parseCompositionPlan_def Let_def reader_simps simp del: array_at_Inr)
  obtain f where f: "map_of target ''fingerprint'' = Some (JStr f)" "parseTarget target f ''$.target'' = Inr (cp_target p)" using target(2) by blast
  note facts = metadata_strict [OF meta] target_strict [OF target(1) f] requirements_strict [OF req] operations_strict [OF ops]
  show ?thesis unfolding v plan_value_def
    by (rule reads_as_members [OF keys]; use facts members literals in simp)
qed

end
