(* ===== verification/PlanDigest.thy ===== *)
theory PlanDigest
  imports Plan "HOL-Library.Multiset" "HOL-Library.Char_ord" "HOL-Library.List_Lexorder"
begin

text \<open>
  The fingerprint of a plan: \<^verbatim>\<open>src/composition-plan/fingerprint.ts\<close>. \<open>num\<close> is the text \<open>JSON.stringify\<close>
  gives a finite number, \<open>sha\<close> the hexadecimal SHA-256.
\<close>

section \<open>Canonical text\<close>

function canonicalize :: "(rat \<Rightarrow> string) \<Rightarrow> kjson \<Rightarrow> string option" where
  "canonicalize num KNull = Some ''null''"
| "canonicalize num (KStr s) = Some (json_string s)"
| "canonicalize num (KBool b) = Some (if b then ''true'' else ''false'')"
| "canonicalize num (KNum q) = Some (num q)"
| "canonicalize num (KArr xs) =
     map_option (\<lambda>cs. ''['' @ js_join '','' cs @ '']'') (those (map (canonicalize num) xs))"
| "canonicalize num (KObj fs proto) =
     (if \<not> plain_object proto then None
      else map_option (\<lambda>cs. ''{'' @ js_join '','' cs @ ''}'')
             (those (map (\<lambda>(k, x). map_option (\<lambda>c. json_string k @ '':'' @ c) (canonicalize num x)) (sort_key fst fs))))"
  by pat_completeness auto
termination
proof (relation "measure (size \<circ> snd)")
  fix num :: "rat \<Rightarrow> string" and fs :: "(string \<times> kjson) list" and proto z k x
  assume "z \<in> set (sort_key fst fs)" "(k, x) = z"
  then have "(k, x) \<in> set fs" by simp
  then have "size x < size_list (size_prod (\<lambda>_. 0) size) fs + 1"
    by (induction fs) (auto simp: less_Suc_eq_le)
  then show "((num, x), num, KObj fs proto) \<in> measure (size \<circ> snd)" by simp
qed (auto simp: less_Suc_eq_le size_list_estimation')

definition canonicalCompositionPlanJson :: "(rat \<Rightarrow> string) \<Rightarrow> composition_plan \<Rightarrow> string option" where
  "canonicalCompositionPlanJson num plan = canonicalize num (plan_value plan)"

definition fingerprintCompositionPlan :: "(rat \<Rightarrow> string) \<Rightarrow> (string \<Rightarrow> string) \<Rightarrow> composition_plan \<Rightarrow> string option" where
  "fingerprintCompositionPlan num sha plan = map_option (\<lambda>s. ''sha256:'' @ sha s) (canonicalCompositionPlanJson num plan)"

definition parseAndFingerprintCompositionPlan ::
    "(string \<Rightarrow> nat) \<Rightarrow> (rat \<Rightarrow> string) \<Rightarrow> (string \<Rightarrow> string) \<Rightarrow> json \<Rightarrow> (plan_error, composition_plan \<times> string) res" where
  "parseAndFingerprintCompositionPlan isIP num sha v =
     res_bind (parseCompositionPlan isIP v) (\<lambda>plan.
       case fingerprintCompositionPlan num sha plan of None \<Rightarrow> Inl (PlanError ''$'') | Some digest \<Rightarrow> Inr (plan, digest))"

definition parseAndVerifyCompositionPlan ::
    "(string \<Rightarrow> nat) \<Rightarrow> (rat \<Rightarrow> string) \<Rightarrow> (string \<Rightarrow> string) \<Rightarrow> json \<Rightarrow> string \<Rightarrow> (plan_error, composition_plan) res" where
  "parseAndVerifyCompositionPlan isIP num sha v expectedDigest =
     (if \<not> matches PLAN_DIGEST_RE expectedDigest then Inl (PlanError ''expected digest'')
      else res_bind (parseAndFingerprintCompositionPlan isIP num sha v) (\<lambda>(plan, digest).
        if digest \<noteq> expectedDigest then Inl (PlanError ''digest mismatch'') else Inr plan))"

section \<open>Key order does not matter\<close>

lemma keys_sort_key: "map fst (sort_key fst hs) = sort (map fst hs)"
  by (rule properties_for_sort [symmetric]) (auto simp: mset_map)

lemma sorted_entries:
  assumes "distinct (map fst fs)" "distinct (map fst gs)" "set (map fst fs) = set (map fst gs)"
  shows "map fst (sort_key fst fs) = map fst (sort_key fst gs)"
  unfolding keys_sort_key using assms by (metis sorted_list_of_set_sort_remdups distinct_remdups_id)

lemma map_of_sorted: "distinct (map fst fs) \<Longrightarrow> (k, x) \<in> set (sort_key fst fs) \<longleftrightarrow> map_of fs k = Some x"
  by simp

lemma sorted_related:
  assumes d: "distinct (map fst fs)" "distinct (map fst gs)" "set (map fst fs) = set (map fst gs)"
    and rel: "\<And>k x y. map_of fs k = Some x \<Longrightarrow> map_of gs k = Some y \<Longrightarrow> R x y"
  shows "list_all2 (\<lambda>(k, x) (l, y). k = l \<and> R x y) (sort_key fst fs) (sort_key fst gs)"
proof -
  let ?f = "sort_key fst fs" and ?g = "sort_key fst gs"
  have len: "length ?f = length ?g" using sorted_entries [OF d] by (metis length_map)
  have "fst (?f ! i) = fst (?g ! i) \<and> R (snd (?f ! i)) (snd (?g ! i))" if "i < length ?f" for i
  proof -
    have k: "fst (?f ! i) = fst (?g ! i)" using sorted_entries [OF d] that len by (metis nth_map)
    have "?f ! i \<in> set ?f" "?g ! i \<in> set ?g" using that len by (metis nth_mem)+
    then have "map_of fs (fst (?f ! i)) = Some (snd (?f ! i))" "map_of gs (fst (?g ! i)) = Some (snd (?g ! i))" using d by simp_all
    then show ?thesis using rel k by metis
  qed
  then show ?thesis using len by (auto simp: list_all2_conv_all_nth split_beta)
qed

lemma same_canonical: "same x y \<Longrightarrow> canonicalize num x = canonicalize num y"
proof (induction rule: same.induct)
  case (same_arr xs ys)
  then have "map (canonicalize num) xs = map (canonicalize num) ys" by (auto simp: list_all2_conv_all_nth intro: nth_equalityI)
  then show ?case by (simp only: canonicalize.simps)
next
  case (same_obj fs gs p q)
  have "list_all2 (\<lambda>(k, x) (l, y). k = l \<and> canonicalize num x = canonicalize num y) (sort_key fst fs) (sort_key fst gs)"
    by (rule sorted_related) (use same_obj in auto)
  then have "map (\<lambda>(k, x). map_option (\<lambda>c. json_string k @ '':'' @ c) (canonicalize num x)) (sort_key fst fs)
    = map (\<lambda>(k, x). map_option (\<lambda>c. json_string k @ '':'' @ c) (canonicalize num x)) (sort_key fst gs)"
    by (auto simp: list_all2_conv_all_nth split_beta intro!: nth_equalityI)
  then show ?case using same_obj(4,5) by (simp only: canonicalize.simps simp_thms if_False)
qed simp_all


section \<open>The text determines the value\<close>

text \<open>
  Distinct finite numbers have distinct texts, made of digits, signs, the decimal point and the
  exponent letter.
\<close>

definition number_char :: "char \<Rightarrow> bool" where
  "number_char c = (dec_digit c \<or> c \<in> set ''+-.e'')"

definition number_text :: "(rat \<Rightarrow> string) \<Rightarrow> bool" where
  "number_text num \<longleftrightarrow> inj num \<and> (\<forall>q. num q \<noteq> [] \<and> list_all number_char (num q))"

definition ends_value :: "string \<Rightarrow> bool" where
  "ends_value r = (case r of [] \<Rightarrow> True | c # _ \<Rightarrow> c \<in> set '',]}'')"

lemma number_split:
  assumes num: "list_all number_char x" "list_all number_char y" and r: "ends_value r" "ends_value r'" and eq: "x @ r = y @ r'"
  shows "x = y \<and> r = r'"
proof -
  have stop: "takeWhile number_char r = []" if "ends_value r" for r
    using that by (cases r) (auto simp: ends_value_def number_char_def dec_digit_def)
  have "takeWhile number_char (x @ r) = x" "takeWhile number_char (y @ r') = y"
    using num stop [OF r(1)] stop [OF r(2)] by (auto simp: list_all_iff takeWhile_append2)
  then show ?thesis using eq by auto
qed

lemma json_string_split: "json_string s @ r = json_string t @ r' \<Longrightarrow> s = t \<and> r = r'"
  using json_text_ends [of s r] json_text_ends [of t r'] by (auto simp: json_string_def DQ_def simp del: read_quoted.simps)

text \<open>The closing part of an array or object, after its first entry.\<close>

fun tail_text :: "string \<Rightarrow> string list \<Rightarrow> string" where
  "tail_text close [] = close"
| "tail_text close (c # cs) = '','' @ c @ tail_text close cs"

lemma join_close: "js_join '','' cs @ close = (case cs of [] \<Rightarrow> close | c # cs' \<Rightarrow> c @ tail_text close cs')"
proof -
  have "js_join '','' (c # cs') @ close = c @ tail_text close cs'" for c cs'
    by (induction cs' arbitrary: c) auto
  then show ?thesis by (cases cs) auto
qed

lemma ends_tail: "ends_value (tail_text '']'' cs @ r)" "ends_value (tail_text ''}'' cs @ r)"
  by (cases cs; simp add: ends_value_def)+

fun distinct_keys :: "kjson \<Rightarrow> bool" where
  "distinct_keys (KArr xs) = list_all distinct_keys xs"
| "distinct_keys (KObj fs proto) = (distinct (map fst fs) \<and> list_all (\<lambda>(_, x). distinct_keys x) fs)"
| "distinct_keys _ = True"

fun starts :: "kjson \<Rightarrow> char \<Rightarrow> bool" where
  "starts KNull c = (c = CHR ''n'')"
| "starts (KBool b) c = (c = (if b then CHR ''t'' else CHR ''f''))"
| "starts (KNum q) c = number_char c"
| "starts (KStr s) c = (c = CHR 0x22)"
| "starts (KArr xs) c = (c = CHR ''['')"
| "starts (KObj fs p) c = (c = CHR ''{'')"

lemma canonical_starts: "number_text num \<Longrightarrow> canonicalize num x = Some s \<Longrightarrow> s \<noteq> [] \<and> starts x (hd s)"
proof (cases x)
  case (KNum q)
  moreover assume "number_text num" "canonicalize num x = Some s"
  ultimately show ?thesis by (cases s) (auto simp: number_text_def, metis list.pred_inject(2))
qed (auto simp: json_string_def DQ_def split: if_splits)

definition reads_back :: "('a \<Rightarrow> string option) \<Rightarrow> ('a \<Rightarrow> 'a \<Rightarrow> bool) \<Rightarrow> 'a \<Rightarrow> 'a \<Rightarrow> bool" where
  "reads_back f R a b \<longleftrightarrow> (\<forall>s t r r'. f a = Some s \<longrightarrow> f b = Some t \<longrightarrow> s @ r = t @ r' \<longrightarrow> ends_value r \<longrightarrow> ends_value r' \<longrightarrow>
     R a b \<and> r = r')"

lemma tail_decode:
  assumes close: "close \<noteq> []" "hd close \<noteq> CHR '',''" "\<And>cs r. ends_value (tail_text close cs @ r)"
    and step: "\<forall>a \<in> set xs. \<forall>b \<in> set ys. reads_back f R a b"
    and texts: "those (map f xs) = Some cs" "those (map f ys) = Some ds" "tail_text close cs @ r = tail_text close ds @ r'"
  shows "list_all2 R xs ys \<and> r = r'"
  using step texts
proof (induction xs arbitrary: ys cs ds)
  case Nil
  then have "cs = []" by simp
  then have "ds = []" using Nil.prems(4) close by (cases ds; cases close) auto
  then have "ys = []" using Nil.prems(3) by (cases ys) (auto split: option.splits)
  then show ?case using Nil \<open>cs = []\<close> \<open>ds = []\<close> by simp
next
  case (Cons x xs)
  obtain c cs' where c: "f x = Some c" "those (map f xs) = Some cs'" "cs = c # cs'"
    using Cons.prems(2) by (auto split: option.splits)
  have "ds \<noteq> []" using Cons.prems(4) close c by (cases close) auto
  then obtain y ys' where y: "ys = y # ys'" using Cons.prems(3) by (cases ys) auto
  obtain d ds' where d: "f y = Some d" "those (map f ys') = Some ds'" "ds = d # ds'"
    using Cons.prems(3) y by (auto split: option.splits)
  have "c @ (tail_text close cs' @ r) = d @ (tail_text close ds' @ r')" using Cons.prems(4) c d by simp
  then have eq: "R x y" "tail_text close cs' @ r = tail_text close ds' @ r'"
    using Cons.prems(1) c(1) d(1) y close(3) unfolding reads_back_def by (meson list.set_intros(1))+
  have "list_all2 R xs ys' \<and> r = r'"
    by (rule Cons.IH [OF _ c(2) d(2) eq(2)]) (use Cons.prems(1) y in simp)
  then show ?case using eq y by simp
qed

lemma join_decode:
  assumes close: "close \<noteq> []" "hd close \<noteq> CHR '',''" "\<And>cs r. ends_value (tail_text close cs @ r)"
    and first: "\<And>a s. f a = Some s \<Longrightarrow> s \<noteq> [] \<and> hd s \<noteq> hd close"
    and step: "\<forall>a \<in> set xs. \<forall>b \<in> set ys. reads_back f R a b"
    and texts: "those (map f xs) = Some cs" "those (map f ys) = Some ds" "js_join '','' cs @ close @ r = js_join '','' ds @ close @ r'"
  shows "list_all2 R xs ys \<and> r = r'"
proof -
  have whole: "(js_join '','' cs @ close) @ r = (js_join '','' ds @ close) @ r'" using texts(3) by simp
  have nonempty: "c \<noteq> [] \<and> hd c \<noteq> hd close" if "those (map f zs) = Some (c # cs')" for zs c cs'
    using that first by (cases zs) (auto split: option.splits)
  show ?thesis
  proof (cases cs)
    case Nil
    have "ds = []"
    proof (cases ds)
      case (Cons d ds')
      then show ?thesis using whole Nil nonempty [of ys d ds'] texts(2) close(1) unfolding join_close
        by (cases d; cases close) auto
    qed
    moreover have "xs = []" "ys = []" using Nil \<open>ds = []\<close> texts(1,2) by (cases xs; cases ys; auto split: option.splits)+
    ultimately show ?thesis using whole Nil by simp
  next
    case (Cons c cs')
    have "ds \<noteq> []"
    proof
      assume "ds = []"
      then show False using whole Cons nonempty [of xs c cs'] texts(1) close(1) unfolding join_close
        by (cases c; cases close) auto
    qed
    then obtain d ds' where "ds = d # ds'" by (cases ds) auto
    then have "tail_text close cs @ r = tail_text close ds @ r'" using whole Cons by (simp only: join_close list.case tail_text.simps append.assoc)
    then show ?thesis using tail_decode [OF close] step texts(1,2) by blast
  qed
qed


abbreviation entry_text :: "(rat \<Rightarrow> string) \<Rightarrow> string \<times> kjson \<Rightarrow> string option" where
  "entry_text num \<equiv> \<lambda>(k, x). map_option (\<lambda>c. json_string k @ '':'' @ c) (canonicalize num x)"

lemma entry_reads_back:
  assumes "reads_back (canonicalize num) same x y"
  shows "reads_back (entry_text num) (\<lambda>(k, x) (l, y). k = l \<and> same x y) (k, x) (l, y)"
  unfolding reads_back_def
proof (intro allI impI)
  fix s t r r'
  assume "entry_text num (k, x) = Some s" "entry_text num (l, y) = Some t" and eq: "s @ r = t @ r'" and ends: "ends_value r" "ends_value r'"
  then obtain c d where c: "canonicalize num x = Some c" "s = json_string k @ '':'' @ c" and d: "canonicalize num y = Some d" "t = json_string l @ '':'' @ d"
    by auto
  have "json_string k @ '':'' @ c @ r = json_string l @ '':'' @ d @ r'" using eq c d by simp
  from json_string_split [OF this] have "k = l" "c @ r = d @ r'" by auto
  then show "(case (k, x) of (k, x) \<Rightarrow> \<lambda>(l, y). k = l \<and> same x y) (l, y) \<and> r = r'"
    using assms c(1) d(1) ends unfolding reads_back_def by blast
qed

lemma same_from_sorted:
  assumes d: "distinct (map fst fs)" "distinct (map fst gs)" and p: "plain_object p" "plain_object q"
    and rel: "list_all2 (\<lambda>(k, x) (l, y). k = l \<and> same x y) (sort_key fst fs) (sort_key fst gs)"
  shows "same (KObj fs p) (KObj gs q)"
proof (rule same_obj [OF d _ p])
  have "map fst (sort_key fst fs) = map fst (sort_key fst gs)"
    using rel by (auto simp: list_all2_conv_all_nth split_beta intro!: nth_equalityI)
  then show "set (map fst fs) = set (map fst gs)" by (metis keys_sort_key set_sort)
  fix k x y
  assume k: "map_of fs k = Some x" "map_of gs k = Some y"
  then have "(k, x) \<in> set (sort_key fst fs)" using d by simp
  then obtain i where i: "i < length (sort_key fst fs)" "sort_key fst fs ! i = (k, x)" by (metis in_set_conv_nth)
  obtain l y' where y: "sort_key fst gs ! i = (l, y')" by (cases "sort_key fst gs ! i")
  have "i < length (sort_key fst gs)" using i(1) list_all2_lengthD [OF rel] by metis
  then have "(l, y') \<in> set (sort_key fst gs)" using y by (metis nth_mem)
  moreover have "k = l \<and> same x y'" using list_all2_nthD [OF rel i(1)] i(2) y by simp
  ultimately have y': "(k, y') \<in> set (sort_key fst gs)" "same x y'" by auto
  then have "y' = y" using k d by simp
  then show "same x y" using y' by simp
qed

lemma same_start:
  assumes "number_text num" "canonicalize num x = Some s" "canonicalize num y = Some t" "s @ r = t @ r'"
  shows "\<exists>c. starts x c \<and> starts y c"
  using canonical_starts [OF assms(1,2)] canonical_starts [OF assms(1,3)] assms(4) by (cases s; cases t) auto

lemma starts_cases:
  "starts KNull c \<Longrightarrow> starts y c \<Longrightarrow> y = KNull" "starts (KBool b) c \<Longrightarrow> starts y c \<Longrightarrow> y = KBool b"
  "starts (KNum q) c \<Longrightarrow> starts y c \<Longrightarrow> \<exists>u. y = KNum u" "starts (KStr v) c \<Longrightarrow> starts y c \<Longrightarrow> \<exists>u. y = KStr u"
  "starts (KArr xs) c \<Longrightarrow> starts y c \<Longrightarrow> \<exists>ys. y = KArr ys" "starts (KObj fs p) c \<Longrightarrow> starts y c \<Longrightarrow> \<exists>gs q. y = KObj gs q"
  by (cases y; auto simp: number_char_def dec_digit_def split: if_splits)+

lemma not_closing: "starts x c \<Longrightarrow> c \<noteq> CHR '']''"
  by (cases x) (auto simp: number_char_def dec_digit_def split: if_splits)

lemma canonical_reads_back:
  assumes num: "number_text num"
  shows "distinct_keys x \<Longrightarrow> distinct_keys y \<Longrightarrow> reads_back (canonicalize num) same x y"
proof (induction x arbitrary: y)
  case (KArr xs)
  show ?case unfolding reads_back_def
  proof (intro allI impI)
    fix s t r r'
    assume st: "canonicalize num (KArr xs) = Some s" "canonicalize num y = Some t" "s @ r = t @ r'"
    then obtain ys where y: "y = KArr ys" using same_start [OF num st(1-3)] starts_cases(5) by metis
    then obtain cs ds where cs: "those (map (canonicalize num) xs) = Some cs" "those (map (canonicalize num) ys) = Some ds"
      "js_join '','' cs @ '']'' @ r = js_join '','' ds @ '']'' @ r'" using st by auto
    have step: "\<forall>a \<in> set xs. \<forall>b \<in> set ys. reads_back (canonicalize num) same a b" using KArr y by (simp add: list_all_iff)
    have first: "s \<noteq> [] \<and> hd s \<noteq> hd '']''" if "canonicalize num a = Some s" for a s
      using canonical_starts [OF num that] not_closing by auto
    have "list_all2 same xs ys \<and> r = r'"
      by (rule join_decode [OF _ _ ends_tail(1) first step cs]) simp_all
    then show "same (KArr xs) y \<and> r = r'" using y same_arr by blast
  qed
next
  case (KObj fs p)
  show ?case unfolding reads_back_def
  proof (intro allI impI)
    fix s t r r'
    assume st: "canonicalize num (KObj fs p) = Some s" "canonicalize num y = Some t" "s @ r = t @ r'"
    then obtain gs q where y: "y = KObj gs q" using same_start [OF num st(1-3)] starts_cases(6) by metis
    then obtain cs ds where cs: "those (map (entry_text num) (sort_key fst fs)) = Some cs" "those (map (entry_text num) (sort_key fst gs)) = Some ds"
      "js_join '','' cs @ ''}'' @ r = js_join '','' ds @ ''}'' @ r'" and plain: "plain_object p" "plain_object q"
      using st by (auto split: if_splits)
    have "\<forall>a \<in> set (sort_key fst fs). \<forall>b \<in> set (sort_key fst gs). reads_back (entry_text num) (\<lambda>(k, x) (l, y). k = l \<and> same x y) a b"
    proof (intro ballI)
      fix a b assume ab: "a \<in> set (sort_key fst fs)" "b \<in> set (sort_key fst gs)"
      then have "reads_back (canonicalize num) same (snd a) (snd b)"
        using KObj.IH(1) [of a "snd a" "snd b"] KObj.prems y by (auto simp: list_all_iff snds.simps split_beta)
      then show "reads_back (entry_text num) (\<lambda>(k, x) (l, y). k = l \<and> same x y) a b"
        using entry_reads_back [of num "snd a" "snd b" "fst a" "fst b"] by (simp only: prod.collapse)
    qed
    then have "list_all2 (\<lambda>(k, x) (l, y). k = l \<and> same x y) (sort_key fst fs) (sort_key fst gs) \<and> r = r'"
      by (intro join_decode [OF _ _ ends_tail(2) _ _ cs]) (auto simp: json_string_def DQ_def)
    then show "same (KObj fs p) y \<and> r = r'" using same_from_sorted KObj.prems plain y by auto
  qed
next
  case (KNum q)
  show ?case unfolding reads_back_def
  proof (intro allI impI)
    fix s t r r'
    assume st: "canonicalize num (KNum q) = Some s" "canonicalize num y = Some t" "s @ r = t @ r'" "ends_value r" "ends_value r'"
    then obtain u where y: "y = KNum u" using same_start [OF num st(1-3)] starts_cases(3) by metis
    have "num q = num u \<and> r = r'" using st y num by (intro number_split) (auto simp: number_text_def)
    then have "q = u \<and> r = r'" using num by (auto simp: number_text_def dest: injD)
    then show "same (KNum q) y \<and> r = r'" using y same_num by simp
  qed
next
  case (KStr v)
  show ?case unfolding reads_back_def
  proof (intro allI impI)
    fix s t r r'
    assume st: "canonicalize num (KStr v) = Some s" "canonicalize num y = Some t" "s @ r = t @ r'"
    then obtain u where y: "y = KStr u" using same_start [OF num st(1-3)] starts_cases(4) by metis
    have "json_string v @ r = json_string u @ r'" using st y by simp
    from json_string_split [OF this] show "same (KStr v) y \<and> r = r'" using y same_str by simp
  qed
next
  case KNull
  show ?case unfolding reads_back_def
  proof (intro allI impI)
    fix s t r r'
    assume st: "canonicalize num KNull = Some s" "canonicalize num y = Some t" "s @ r = t @ r'"
    then have y: "y = KNull" using same_start [OF num st(1-3)] starts_cases(1) by metis
    then show "same KNull y \<and> r = r'" using st same_null by simp
  qed
next
  case (KBool b)
  show ?case unfolding reads_back_def
  proof (intro allI impI)
    fix s t r r'
    assume st: "canonicalize num (KBool b) = Some s" "canonicalize num y = Some t" "s @ r = t @ r'"
    then have y: "y = (KBool b)" using same_start [OF num st(1-3)] starts_cases(2) by metis
    then show "same (KBool b) y \<and> r = r'" using st same_bool by simp
  qed
qed


section \<open>What a fingerprint vouches for\<close>

lemma same_distinct: "same x y \<Longrightarrow> distinct_keys x \<and> distinct_keys y"
proof (induction rule: same.induct)
  case (same_arr xs ys)
  then show ?case by (simp add: list_all2_conv_all_nth list_all_length)
next
  case (same_obj fs gs p q)
  have "distinct_keys x \<and> (\<exists>y. map_of gs k = Some y)" if "(k, x) \<in> set fs" for k x
  proof -
    have k: "map_of fs k = Some x" using that same_obj(1) by simp
    then obtain y where "map_of gs k = Some y" using same_obj(3) by (metis domD domI dom_map_of_conv_image_fst set_map)
    then show ?thesis using same_obj(7) k by blast
  qed
  moreover have "distinct_keys y" if "(k, y) \<in> set gs" for k y
  proof -
    have k: "map_of gs k = Some y" using that same_obj(2) by simp
    then obtain x where "map_of fs k = Some x" using same_obj(3) by (metis domD domI dom_map_of_conv_image_fst set_map)
    then show ?thesis using same_obj(7) k by blast
  qed
  ultimately show ?case using same_obj(1,2) by (auto simp: list_all_iff)
qed simp_all

lemma those_total: "(\<And>x. x \<in> set xs \<Longrightarrow> \<exists>y. f x = Some y) \<Longrightarrow> \<exists>ys. those (map f xs) = Some ys"
proof (induction xs)
  case (Cons x xs)
  then obtain y ys where "f x = Some y" "those (map f xs) = Some ys" by (meson list.set_intros)
  then show ?case by simp
qed simp

lemma canonical_parsed: "\<exists>s. canonicalize num (kj j) = Some s"
proof (induction j)
  case (JArr vs)
  then show ?case using those_total [of "map kj vs" "canonicalize num"] by fastforce
next
  case (JObj fs)
  have "\<exists>y. entry_text num e = Some y" if "e \<in> set (sort_key fst (map (\<lambda>(k, v). (k, kj v)) fs))" for e
  proof -
    have "e \<in> (\<lambda>(k, v). (k, kj v)) ` set fs" using that by simp
    then obtain k v where e: "e = (k, kj v)" "(k, v) \<in> set fs" by auto
    then obtain s where "canonicalize num (kj v) = Some s" using JObj [of "(k, v)" v] by (auto simp: snds.simps)
    then show ?thesis using e by simp
  qed
  then show ?case using those_total [of "sort_key fst (map (\<lambda>(k, v). (k, kj v)) fs)" "entry_text num"] by fastforce
qed simp_all

lemma plan_same: "parseCompositionPlan isIP v = Inr p \<Longrightarrow> clean v \<Longrightarrow> same (kj v) (plan_value p)"
  using plan_strict by (fastforce simp: reads_as_def)

text \<open>
  C6: Nothing hides outside the typed plan: whenever the strict parser accepts a document that has no
  \<open>__proto__\<close> key and no empty manifest body, the canonical text of the typed plan, which is what is
  fingerprinted and executed, is the canonical text of the whole document.
\<close>

theorem fingerprint_covers_document:
  assumes "parseCompositionPlan isIP v = Inr plan" "clean v"
  shows "canonicalCompositionPlanJson num plan = canonicalize num (kj v) \<and> canonicalCompositionPlanJson num plan \<noteq> None"
  using same_canonical [OF plan_same [OF assms]] canonical_parsed [of num v] by (auto simp: canonicalCompositionPlanJson_def)

text \<open>
  A document that passes \<open>parseAndVerifyCompositionPlan\<close> with the digest of another document is that
  document up to the order of its keys, unless the two canonical texts collide under SHA-256.
\<close>

theorem verified_plan_is_fingerprinted_plan:
  assumes "number_text num" "clean v" "clean w"
    "parseAndFingerprintCompositionPlan isIP num sha v = Inr (plan, digest)"
    "parseAndVerifyCompositionPlan isIP num sha w digest = Inr plan'"
    "\<forall>s t. canonicalize num (kj v) = Some s \<longrightarrow> canonicalize num (kj w) = Some t \<longrightarrow> sha s = sha t \<longrightarrow> s = t"
  shows "same (kj v) (kj w)"
proof -
  have v: "parseCompositionPlan isIP v = Inr plan" "fingerprintCompositionPlan num sha plan = Some digest"
    using assms(4) by (auto simp: parseAndFingerprintCompositionPlan_def res_simps split: option.splits)
  have w: "parseCompositionPlan isIP w = Inr plan'" "fingerprintCompositionPlan num sha plan' = Some digest"
    using assms(5) by (auto simp: parseAndVerifyCompositionPlan_def parseAndFingerprintCompositionPlan_def res_simps split: option.splits if_splits)
  obtain s t where s: "canonicalize num (kj v) = Some s" and t: "canonicalize num (kj w) = Some t" using canonical_parsed by blast
  have "sha s = sha t"
    using v(2) w(2) s t same_canonical [OF plan_same [OF v(1) assms(2)], of num] same_canonical [OF plan_same [OF w(1) assms(3)], of num]
    by (auto simp: fingerprintCompositionPlan_def canonicalCompositionPlanJson_def)
  then have "s = t" using assms(6) s t by blast
  moreover have "distinct_keys (kj v)" "distinct_keys (kj w)"
    using same_distinct [OF plan_same [OF v(1) assms(2)]] same_distinct [OF plan_same [OF w(1) assms(3)]] by auto
  ultimately show ?thesis
    using canonical_reads_back [OF assms(1), unfolded reads_back_def, rule_format, of "kj v" "kj w" s t "[]" "[]"] s t
    by (simp add: ends_value_def)
qed

section \<open>An example\<close>

definition demo_service :: json where
  "demo_service = JObj [(''name'', JStr ''r-origin''), (''namespace'', JStr ''n''), (''port'', JNum 80)]"

definition demo_members :: "(string \<times> json) list" where
  "demo_members =
     [(''apiVersion'', JStr ''adapter-k8s.nextjs.org/v1alpha1''), (''kind'', JStr ''CompositionPlan''),
      (''metadata'', JObj [(''releaseName'', JStr ''r''), (''namespace'', JStr ''n''), (''buildId'', JStr ''b1'')]),
      (''target'', JObj [(''fingerprint'', JStr (''sha256:'' @ replicate 64 (CHR ''0''))),
         (''identity'', JObj [(''kind'', JStr ''unverified''), (''requireExplicitConfirmation'', JBool True)]),
         (''access'', JObj [(''kind'', JStr ''kubeconfig-context''), (''context'', JStr ''c'')]),
         (''registry'', JObj [(''repository'', JStr ''reg''), (''authentication'', JObj [(''kind'', JStr ''ambient-credentials'')]),
            (''digestLookup'', JObj [(''kind'', JStr ''oci-distribution'')])])]),
      (''requirements'', JObj [(''kubernetes'', JObj [(''minimumVersion'', JStr ''1.33.0''), (''resources'', JArr [])])]),
      (''operations'', JObj [(''resources'', JObj [(''objects'', JArr []), (''readiness'', JArr [])]),
         (''network'', JObj [(''podCidrs'', JObj [(''kind'', JStr ''not-required'')]), (''nodeCidrs'', JObj [(''kind'', JStr ''not-required'')]),
            (''missingSourcePolicy'', JStr ''fail'')]),
         (''cache'', JObj [(''kind'', JStr ''none'')]), (''cdn'', JObj [(''kind'', JStr ''none'')]),
         (''routing'', JObj [(''protocol'', JStr ''pool-local-v1''), (''failurePolicy'', JStr ''closed''),
            (''dataplane'', JObj [(''kind'', JStr ''portable-http-origin''), (''service'', demo_service), (''targetPool'', JStr ''web''),
               (''readiness'', JArr [])])]),
         (''cleanup'', JObj [(''kubernetes'', JObj [(''strategy'', JStr ''adapter-release-v1''), (''contributedObjects'', JArr [])]),
            (''external'', JArr []), (''retained'', JArr [])]),
         (''diagnostics'', JArr []), (''logs'', JArr [JObj [(''kind'', JStr ''kubernetes-pods''), (''namespace'', JStr ''n''),
            (''selector'', JObj [(''releaseName'', JStr ''r'')]), (''containers'', JStr ''all'')]])])]"

lemma demo_accepted:
  "case parseCompositionPlan (\<lambda>_. 0) (JObj demo_members) of Inr _ \<Rightarrow> True | Inl _ \<Rightarrow> False"
  "case parseCompositionPlan (\<lambda>_. 0) (JObj (rev demo_members)) of Inr _ \<Rightarrow> True | Inl _ \<Rightarrow> False"
  "clean (JObj demo_members)" "clean (JObj (rev demo_members))"
  by code_simp+

definition demo_num :: "rat \<Rightarrow> string" where
  "demo_num q = (case quotient_of q of (n, d) \<Rightarrow>
     (if n < 0 then ''-'' else ''+'') @ nat_dec (nat \<bar>n\<bar>) @ ''e'' @ nat_dec (nat d))"

lemma demo_number_text: "number_text demo_num"
proof -
  have "inj demo_num"
  proof (rule injI)
    fix p q assume eq: "demo_num p = demo_num q"
    obtain a b c d where ab: "quotient_of p = (a, b)" and cd: "quotient_of q = (c, d)" by (meson surj_pair)
    have pos: "b > 0" "d > 0" using quotient_of_denom_pos ab cd by blast+
    have "CHR ''e'' \<notin> set (nat_dec n)" for n using nat_dec_digits [of n] by (auto simp: list_all_iff dec_digit_def)
    moreover have sign: "(a < 0) = (c < 0)" using eq ab cd by (auto simp: demo_num_def split: if_splits)
    ultimately have "nat_dec (nat \<bar>a\<bar>) = nat_dec (nat \<bar>c\<bar>)" "nat_dec (nat b) = nat_dec (nat d)"
      using eq ab cd first_sep_eq [of "CHR ''e''" "nat_dec (nat \<bar>a\<bar>)" "nat_dec (nat \<bar>c\<bar>)"] by (auto simp: demo_num_def split: if_splits)
    then have "nat \<bar>a\<bar> = nat \<bar>c\<bar>" "nat b = nat d" by (metis nat_dec_value)+
    then have "a = c" "b = d" using sign pos by auto
    then show "p = q" using ab cd by (metis quotient_of_div)
  qed
  moreover have "list_all number_char (nat_dec n)" for n using nat_dec_digits [of n] by (auto simp: list_all_iff number_char_def)
  ultimately show ?thesis by (auto simp: number_text_def demo_num_def number_char_def split: prod.splits)
qed

lemma same_rev:
  assumes "clean (JObj fs)"
  shows "same (kj (JObj fs)) (kj (JObj (rev fs)))"
proof -
  let ?g = "map (\<lambda>(k, v). (k, kj v)) fs"
  have d: "distinct (map fst ?g)" using assms by (simp add: comp_def split_beta)
  have "same x y" if x: "map_of ?g k = Some x" and y: "map_of (rev ?g) k = Some y" for k x y
  proof -
    have "(k, y) \<in> set ?g" using map_of_SomeD [OF y] by simp
    then have "map_of ?g k = Some y" using d by (rule map_of_is_SomeI [rotated])
    then have "x = y" using x by simp
    moreover obtain v where "map_of fs k = Some v" "x = kj v" using x by (auto simp: map_of_kj)
    ultimately show ?thesis using same_refl clean_member [OF assms] by metis
  qed
  then have "same (KObj ?g None) (KObj (rev ?g) None)"
    by (intro same_obj) (use d in \<open>auto simp: rev_map [symmetric]\<close>)
  then show ?thesis by (simp add: rev_map)
qed

definition demo_sha :: "string \<Rightarrow> string" where "demo_sha s = replicate 64 (CHR ''0'')"

lemma demo_plan_parsed:
  assumes "vs = demo_members \<or> vs = rev demo_members"
  obtains p where "parseCompositionPlan (\<lambda>_. 0) (JObj vs) = Inr p" "clean (JObj vs)"
    "fingerprintCompositionPlan demo_num demo_sha p = Some (''sha256:'' @ replicate 64 (CHR ''0''))"
proof -
  obtain p where p: "parseCompositionPlan (\<lambda>_. 0) (JObj vs) = Inr p" "clean (JObj vs)"
    using assms demo_accepted by (auto split: sum.splits simp del: clean.simps)
  have "canonicalize demo_num (plan_value p) \<noteq> None"
    using same_canonical [OF plan_same [OF p], of demo_num] canonical_parsed [of demo_num "JObj vs"] by (metis option.distinct(1))
  then show ?thesis using that [OF p]
    by (auto simp: fingerprintCompositionPlan_def canonicalCompositionPlanJson_def demo_sha_def)
qed

theorem fingerprint_covers_document_witness:
  "\<exists>p. parseCompositionPlan (\<lambda>_. 0) (JObj demo_members) = Inr p
     \<and> canonicalCompositionPlanJson demo_num p = canonicalize demo_num (kj (JObj demo_members))"
proof -
  obtain p where "parseCompositionPlan (\<lambda>_. 0) (JObj demo_members) = Inr p" "clean (JObj demo_members)" using demo_plan_parsed by blast
  then show ?thesis using fingerprint_covers_document by blast
qed

lemma demo_digest: "matches PLAN_DIGEST_RE (''sha256:'' @ replicate 64 (CHR ''0''))"
  by code_simp

theorem verified_plan_is_fingerprinted_plan_witness:
  "same (kj (JObj demo_members)) (kj (JObj (rev demo_members)))"
proof -
  let ?d = "''sha256:'' @ replicate 64 (CHR ''0'')"
  obtain p where p: "parseCompositionPlan (\<lambda>_. 0) (JObj demo_members) = Inr p" "clean (JObj demo_members)"
    "fingerprintCompositionPlan demo_num demo_sha p = Some ?d" using demo_plan_parsed by blast
  obtain p' where p': "parseCompositionPlan (\<lambda>_. 0) (JObj (rev demo_members)) = Inr p'" "clean (JObj (rev demo_members))"
    "fingerprintCompositionPlan demo_num demo_sha p' = Some ?d" using demo_plan_parsed by blast
  have v: "parseAndFingerprintCompositionPlan (\<lambda>_. 0) demo_num demo_sha (JObj demo_members) = Inr (p, ?d)"
    using p by (simp add: parseAndFingerprintCompositionPlan_def)
  have w: "parseAndVerifyCompositionPlan (\<lambda>_. 0) demo_num demo_sha (JObj (rev demo_members)) ?d = Inr p'"
    using p' demo_digest by (simp add: parseAndFingerprintCompositionPlan_def parseAndVerifyCompositionPlan_def)
  have "canonicalize demo_num (kj (JObj demo_members)) = canonicalize demo_num (kj (JObj (rev demo_members)))"
    by (rule same_canonical) (rule same_rev [OF p(2)])
  then show ?thesis by (intro verified_plan_is_fingerprinted_plan [OF demo_number_text p(2) p'(2) v w]) auto
qed

end
