(* ===== verification/PlanSafety.thy ===== *)
theory PlanSafety
  imports PlanDigest
begin

text \<open>
  What an accepted composition plan may hand to \<open>kubectl\<close>, \<open>gcloud\<close> and \<open>helm\<close>. The command line builds
  argument vectors from these strings, so none may be empty, look like an option, or hold a control
  character. Region and zone names and the build id, which \<open>assertSafeRegion\<close> and \<open>assertSafeBuildId\<close> let
  begin with a hyphen, are kept apart: of them only the other two hold. Left out are the words a member
  may choose from a fixed list, digests and versions, address ranges, the telemetry sources, and the
  labels, annotations and bodies of manifests, which travel as data.
\<close>

definition arg_safe :: "string \<Rightarrow> bool" where
  "arg_safe s \<longleftrightarrow> s \<noteq> [] \<and> hd s \<noteq> CHR ''-'' \<and> (\<forall>c \<in> set s. \<not> control_char c)"

definition place_safe :: "string \<Rightarrow> bool" where
  "place_safe s \<longleftrightarrow> s \<noteq> [] \<and> (\<forall>c \<in> set s. \<not> control_char c)"

section \<open>Accepted strings\<close>

lemma plain_not_control: "plain_char c \<Longrightarrow> \<not> control_char c"
  by (auto simp: plain_char_def one_of_def alnum_any_def lower_def upper_def dec_digit_def control_char_def Let_def)

lemma alnum_not_hyphen: "lower c \<or> upper c \<or> dec_digit c \<or> alnum c \<Longrightarrow> c \<noteq> CHR ''-''"
  by (auto simp: alnum_def lower_def upper_def dec_digit_def Let_def)

lemma matches_arg_safe:
  assumes "plain_re r" "firsts r \<subseteq> {c. lower c \<or> upper c \<or> dec_digit c \<or> alnum c}" "matches r s" "s \<noteq> []"
  shows "arg_safe s"
proof -
  have "hd s \<in> firsts r" using lang_firsts assms(3,4) by (simp add: matches_lang)
  then show ?thesis
    using assms plain_matches [OF assms(1,3)] plain_not_control alnum_not_hyphen by (auto simp: arg_safe_def)
qed

lemma text_arg_safe: "s \<noteq> [] \<Longrightarrow> safe_text n s \<Longrightarrow> arg_safe s"
  by (cases s) (auto simp: safe_text_def arg_safe_def list_ex_iff)

lemma split_first:
  assumes "js_split sep s = p # ps" "p \<noteq> []"
  shows "s \<noteq> [] \<and> hd s = hd p"
proof -
  have "s = js_join [sep] (p # ps)" using assms(1) js_join_split [of sep s] by simp
  then show ?thesis using assms(2) by (cases ps; cases p) auto
qed

lemma subdomain_arg_safe:
  assumes "dns_subdomain s"
  shows "arg_safe s"
proof -
  obtain p ps where p: "js_split (CHR ''.'') s = p # ps" by (cases "js_split (CHR ''.'') s") auto
  have m: "matches NAMESPACE_RE p" using assms p by (simp add: dns_subdomain_def)
  then have ne: "p \<noteq> []" using lang_min_len [of p NAMESPACE_RE] by (auto simp: matches_lang NAMESPACE_RE_def)
  have "hd p \<in> firsts NAMESPACE_RE" using lang_firsts m ne by (simp add: matches_lang)
  then have "alnum (hd s)" using split_first [OF p ne] by (auto simp: NAMESPACE_RE_def)
  then show ?thesis using split_first [OF p ne] plain_subdomain [OF assms] plain_not_control alnum_not_hyphen
    by (auto simp: arg_safe_def)
qed

lemma safe_firsts:
  "firsts PROJECT_ID_RE \<subseteq> {c. lower c \<or> upper c \<or> dec_digit c \<or> alnum c}"
  "firsts GCP_RESOURCE_NAME_RE \<subseteq> {c. lower c \<or> upper c \<or> dec_digit c \<or> alnum c}"
  "firsts RELEASE_NAME_RE \<subseteq> {c. lower c \<or> upper c \<or> dec_digit c \<or> alnum c}"
  "firsts NAMESPACE_RE \<subseteq> {c. lower c \<or> upper c \<or> dec_digit c \<or> alnum c}"
  "firsts DNS_1035_LABEL_RE \<subseteq> {c. lower c \<or> upper c \<or> dec_digit c \<or> alnum c}"
  "firsts POOL_NAME_RE \<subseteq> {c. lower c \<or> upper c \<or> dec_digit c \<or> alnum c}"
  "firsts BUCKET_RE \<subseteq> {c. lower c \<or> upper c \<or> dec_digit c \<or> alnum c}"
  "firsts IMAGE_REGISTRY_RE \<subseteq> {c. lower c \<or> upper c \<or> dec_digit c \<or> alnum c}"
  by (auto simp: PROJECT_ID_RE_def GCP_RESOURCE_NAME_RE_def RELEASE_NAME_RE_def NAMESPACE_RE_def DNS_1035_LABEL_RE_def POOL_NAME_RE_def BUCKET_RE_def IMAGE_REGISTRY_RE_def path_segment_def)

lemmas pattern_arg_safe =
  matches_arg_safe [OF plain_patterns(2) safe_firsts(1)]
  matches_arg_safe [OF plain_patterns(3) safe_firsts(2)]
  matches_arg_safe [OF plain_patterns(1) safe_firsts(3)]
  matches_arg_safe [OF plain_patterns(5) safe_firsts(4)]
  matches_arg_safe [OF plain_patterns(6) safe_firsts(5)]
  matches_arg_safe [OF plain_patterns(7) safe_firsts(6)]
  matches_arg_safe [OF plain_compound_patterns(5) safe_firsts(7)]
  matches_arg_safe [OF plain_compound_patterns(2) safe_firsts(8)]

lemma name_arg_safe:
  "is_project s \<Longrightarrow> s \<noteq> [] \<Longrightarrow> arg_safe s"
  "is_gcp_name s \<Longrightarrow> s \<noteq> [] \<Longrightarrow> arg_safe s"
  "is_release s \<Longrightarrow> s \<noteq> [] \<Longrightarrow> arg_safe s"
  "is_namespace s \<Longrightarrow> s \<noteq> [] \<Longrightarrow> arg_safe s"
  "is_service s \<Longrightarrow> s \<noteq> [] \<Longrightarrow> arg_safe s"
  "is_pool s \<Longrightarrow> s \<noteq> [] \<Longrightarrow> arg_safe s"
  "is_bucket s \<Longrightarrow> s \<noteq> [] \<Longrightarrow> arg_safe s"
  "is_registry s \<Longrightarrow> s \<noteq> [] \<Longrightarrow> arg_safe s"
  using pattern_arg_safe [of s] by (simp_all add: is_project_def assertSafeProjectId_def is_gcp_name_def assertSafeGcpResourceName_def is_release_def assertSafeReleaseName_def is_namespace_def assertSafeNamespace_def is_service_def assertSafeServiceName_def is_pool_def assertSafePoolName_def is_bucket_def assertSafeBucketName_def is_registry_def assertSafeImageRegistry_def string_and_def)

lemma object_name_arg_safe: "is_object_name s \<Longrightarrow> arg_safe s"
  using subdomain_arg_safe by (auto simp: is_object_name_def assertSafeKubernetesObjectName_def string_and_def)

lemma version_arg_safe:
  assumes "matches KUBERNETES_VERSION_RE s" "s \<noteq> []"
  shows "arg_safe s"
proof -
  have v: "lower (CHR ''v'')" by (simp add: lower_def)
  show ?thesis
    by (rule matches_arg_safe [OF _ _ assms]) (use v in \<open>auto simp: KUBERNETES_VERSION_RE_def plain_lit plain_classes\<close>)
qed

lemma resource_arg_safe: "matches RESOURCE_RE s \<Longrightarrow> s \<noteq> [] \<Longrightarrow> arg_safe s"
  by (rule matches_arg_safe) (auto simp: RESOURCE_RE_def plain_classes)

lemma kind_arg_safe: "matches KIND_RE s \<Longrightarrow> s \<noteq> [] \<Longrightarrow> arg_safe s"
  by (rule matches_arg_safe) (auto simp: KIND_RE_def plain_classes)

lemma api_version_arg_safe:
  assumes "assertSafeApiVersion s" "s \<noteq> []"
  shows "arg_safe s"
proof -
  consider p where "js_split (CHR ''/'') s = [p]" | g p where "js_split (CHR ''/'') s = [g, p]"
    using assms by (auto simp: assertSafeApiVersion_def Let_def split: list.splits)
  then show ?thesis
  proof cases
    case 1
    then have "s = p" using js_join_split [of "CHR ''/''" s] by simp
    then show ?thesis using 1 assms version_arg_safe by (simp add: assertSafeApiVersion_def)
  next
    case 2
    then have s: "s = g @ ''/'' @ p" using js_join_split [of "CHR ''/''" s] by simp
    have g: "arg_safe g" using 2 assms object_name_arg_safe by (simp add: assertSafeApiVersion_def)
    have m: "matches KUBERNETES_VERSION_RE p" using 2 assms by (simp add: assertSafeApiVersion_def)
    then have "p \<noteq> []" using lang_min_len [of p KUBERNETES_VERSION_RE] by (auto simp: matches_lang KUBERNETES_VERSION_RE_def)
    then have "arg_safe p" using version_arg_safe m by blast
    then show ?thesis using g s by (auto simp: arg_safe_def control_char_def)
  qed
qed


lemma region_place_safe: "is_region s \<Longrightarrow> s \<noteq> [] \<Longrightarrow> place_safe s"
  using plain_matches [OF plain_patterns(4)] plain_not_control
  by (auto simp: is_region_def assertSafeRegion_def place_safe_def)

lemma build_id_place_safe: "is_build_id s \<Longrightarrow> s \<noteq> [] \<Longrightarrow> place_safe s"
  using plain_matches [OF plain_compound_patterns(4)] plain_not_control
  by (auto simp: is_build_id_def assertSafeBuildIdName_def place_safe_def)

lemmas arg_safe_intros = name_arg_safe object_name_arg_safe resource_arg_safe kind_arg_safe api_version_arg_safe text_arg_safe

section \<open>The arguments of a plan\<close>

fun identity_args :: "cluster_identity \<Rightarrow> string list" where
  "identity_args (GkeResource p c l u) = p # c # (case u of None \<Rightarrow> [] | Some x \<Rightarrow> [x])"
| "identity_args (KubernetesNamespaceUid u) = [u]"
| "identity_args Unverified = []"

fun access_args :: "cluster_access \<Rightarrow> string list" where
  "access_args (KubeconfigContext c) = [c]"
| "access_args KubeconfigCurrentContext = []"
| "access_args (GkeGetCredentials p c l) = [p, c]"

fun authentication_args :: "registry_authentication \<Rightarrow> string list" where
  "authentication_args AmbientCredentials = []"
| "authentication_args (GcloudDockerHelper h) = [h]"

fun lookup_args :: "registry_digest_lookup \<Rightarrow> string list" where
  "lookup_args OciDistribution = []"
| "lookup_args (GcpArtifactRegistry p) = [p]"

definition registry_args :: "registry_plan \<Rightarrow> string list" where
  "registry_args r = rg_repository r # authentication_args (rg_authentication r) @ lookup_args (rg_digestLookup r)"

fun source_args :: "network_cidr_source \<Rightarrow> string list" where
  "source_args (GkePodRange p c l) = [p, c]"
| "source_args (GkeNodeSubnet p c l) = [p, c]"
| "source_args _ = []"

definition network_args :: "network_plan \<Rightarrow> string list" where
  "network_args n = source_args (nw_podCidrs n) @ source_args (nw_nodeCidrs n)"

fun cache_args :: "cache_provisioning \<Rightarrow> string list" where
  "cache_args (GcpMemorystore m) = [ms_projectId m, ms_name m, ms_network m]"
| "cache_args _ = []"

fun cdn_args :: "cdn_invalidation \<Rightarrow> string list" where
  "cdn_args (GcpCloudCdn p a) = [p, a]"
| "cdn_args _ = []"

definition ref_args :: "kubernetes_object_ref \<Rightarrow> string list" where
  "ref_args r = [ref_apiVersion r, ref_resource r, ref_name r] @ (case ref_namespace r of None \<Rightarrow> [] | Some n \<Rightarrow> [n])"

definition service_args :: "kubernetes_service_ref \<Rightarrow> string list" where
  "service_args s = [svc_name s, svc_namespace s]"

fun controller_args :: "condition_location \<Rightarrow> string list" where
  "controller_args AtObject = []"
| "controller_args (AtParents controller n) = (case controller of None \<Rightarrow> [] | Some c \<Rightarrow> [c])"
| "controller_args (AtAncestors controller) = [controller]"

definition condition_args :: "kubernetes_condition \<Rightarrow> string list" where
  "condition_args c = kc_type c # controller_args (kc_conditionsAt c) @ ref_args (kc_object c)"

fun readiness_args :: "routing_readiness \<Rightarrow> string list" where
  "readiness_args (KubernetesCondition c) = condition_args c"
| "readiness_args (KubernetesJobComplete r t) = ref_args r"
| "readiness_args (KubernetesDeploymentAvailable r t) = ref_args r"
| "readiness_args (KubernetesServiceEndpoints s n) = service_args s"
| "readiness_args (GcpTrafficExtensionReady p e a) = [p, e, a]"

fun registration_args :: "routing_registration \<Rightarrow> string list" where
  "registration_args NoRegistration = []"
| "registration_args (GcpTrafficExtensionV1 p e a) = [p, e, a]"

fun dataplane_args :: "dataplane \<Rightarrow> string list" where
  "dataplane_args (PortableHttpOrigin s p rs) = p # service_args s @ concat (map readiness_args rs)"
| "dataplane_args (ExternalExtProc t rs) = concat (map readiness_args rs)"
| "dataplane_args (AdapterOwnedEnvoyProxy s rs) = service_args s @ concat (map readiness_args rs)"

definition routing_args :: "routing_plan \<Rightarrow> string list" where
  "routing_args r = (case rt_registration r of None \<Rightarrow> [] | Some g \<Rightarrow> registration_args g) @ dataplane_args (rt_dataplane r)"

definition owned_args :: "kubernetes_owned_object \<Rightarrow> string list" where
  "owned_args w = own_releaseLabel w # ref_args (own_ref w) @ (case own_helmRelease w of None \<Rightarrow> [] | Some (n, ns) \<Rightarrow> [n, ns])"

fun cleanup_op_args :: "external_cleanup \<Rightarrow> string list" where
  "cleanup_op_args (CleanStorageBucket p b) = [p, b]"
| "cleanup_op_args (CleanServiceAccount p e) = [p, e]"
| "cleanup_op_args (CleanMemorystore p r n) = [p, n]"
| "cleanup_op_args (CleanTrafficExtension p n) = [p, n]"
| "cleanup_op_args (CleanBackendService p n) = [p, n]"
| "cleanup_op_args (CleanHealthCheck p n) = [p, n]"
| "cleanup_op_args (CleanGlobalAddress p n) = [p, n]"
| "cleanup_op_args (CleanCustomIamRole p r) = [p, r]"

fun retained_args :: "retained_external \<Rightarrow> string list" where
  "retained_args (RetainedGkeCluster p c l) = [p, c]"
| "retained_args (RetainedArtifactRegistry p r n) = [p, n]"
| "retained_args (RetainedCertificateManager p r) = [p, r]"

definition cleanup_args :: "cleanup_plan \<Rightarrow> string list" where
  "cleanup_args c =
     concat (map owned_args (cl_contributedObjects c)) @ concat (map cleanup_op_args (cl_external c)) @ concat (map retained_args (cl_retained c))"

fun diagnostic_args :: "diagnostic_source \<Rightarrow> string list" where
  "diagnostic_args (DiagnoseCondition c l) = l # condition_args c"
| "diagnostic_args (DiagnoseGatewayAddress r) = ref_args r"
| "diagnostic_args (DiagnoseAuth p) = [p]"
| "diagnostic_args (DiagnoseGlobalAddress p n) = [p, n]"
| "diagnostic_args (DiagnoseStorageBucket p b) = [p, b]"
| "diagnostic_args (DiagnoseArtifactRegistry p r n) = [p, n]"
| "diagnostic_args (DiagnoseBackendHealth p r) = [p, r]"
| "diagnostic_args (DiagnoseTrafficExtension p e a) = [p, e, a]"
| "diagnostic_args (DiagnoseBackendServiceShape p n) = [p, n]"
| "diagnostic_args (DiagnoseHealthCheckShape p n t) = [p, n]"
| "diagnostic_args (DiagnoseCertificate p n) = [p, n]"

definition log_args :: "log_source \<Rightarrow> string list" where
  "log_args l = [lg_namespace l, lg_releaseName l]"

definition manifest_args :: "kubernetes_manifest \<Rightarrow> string list" where
  "manifest_args m = [mf_apiVersion m, mf_kind m, mf_resource m, mf_name m] @ (case mf_namespace m of None \<Rightarrow> [] | Some n \<Rightarrow> [n])"

definition requirement_args :: "kubernetes_api_requirement \<Rightarrow> string list" where
  "requirement_args r = [rq_apiVersion r, rq_resource r]"

text \<open>The names of places, and the build id.\<close>

fun location_place :: "gcp_location \<Rightarrow> string" where
  "location_place (Region n) = n"
| "location_place (Zone n) = n"

fun identity_places :: "cluster_identity \<Rightarrow> string list" where
  "identity_places (GkeResource p c l u) = [location_place l]"
| "identity_places _ = []"

fun access_places :: "cluster_access \<Rightarrow> string list" where
  "access_places (GkeGetCredentials p c l) = [location_place l]"
| "access_places _ = []"

fun source_places :: "network_cidr_source \<Rightarrow> string list" where
  "source_places (GkePodRange p c l) = [location_place l]"
| "source_places (GkeNodeSubnet p c l) = [location_place l]"
| "source_places _ = []"

definition network_places :: "network_plan \<Rightarrow> string list" where
  "network_places n = source_places (nw_podCidrs n) @ source_places (nw_nodeCidrs n)"

fun cache_places :: "cache_provisioning \<Rightarrow> string list" where
  "cache_places (GcpMemorystore m) = [ms_region m]"
| "cache_places _ = []"

fun cleanup_op_places :: "external_cleanup \<Rightarrow> string list" where
  "cleanup_op_places (CleanMemorystore p r n) = [r]"
| "cleanup_op_places _ = []"

fun retained_places :: "retained_external \<Rightarrow> string list" where
  "retained_places (RetainedGkeCluster p c l) = [location_place l]"
| "retained_places (RetainedArtifactRegistry p r n) = [r]"
| "retained_places _ = []"

definition cleanup_places :: "cleanup_plan \<Rightarrow> string list" where
  "cleanup_places c = concat (map cleanup_op_places (cl_external c)) @ concat (map retained_places (cl_retained c))"

fun diagnostic_places :: "diagnostic_source \<Rightarrow> string list" where
  "diagnostic_places (DiagnoseArtifactRegistry p r n) = [r]"
| "diagnostic_places _ = []"

section \<open>Readers that return safe arguments\<close>

locale safe_reader =
  fixes parse :: "'a plan_reader" and args :: "'a \<Rightarrow> string list" and ok :: "string \<Rightarrow> bool"
  assumes safe: "parse v path = Inr x \<Longrightarrow> list_all ok (args x)"
begin

lemma entries_safe: "read_entries parse path i vs = Inr xs \<Longrightarrow> list_all ok (concat (map args xs))"
  by (induction vs arbitrary: i xs) (auto simp: res_simps safe)

lemma array_safe: "array_at n parse v path = Inr xs \<Longrightarrow> list_all ok (concat (map args xs))"
  using entries_safe by (auto simp: res_simps)

lemma optional_safe: "optional_at parse v path = Inr (Some x) \<Longrightarrow> list_all ok (args x)"
  using safe by (auto simp: res_simps)

end

interpretation safe_identity: safe_reader parseClusterIdentity identity_args arg_safe
  by unfold_locales (auto simp: parseClusterIdentity_def reader_simps arg_safe_intros split: if_splits)

interpretation safe_access: safe_reader parseClusterAccess access_args arg_safe
  by unfold_locales (auto simp: parseClusterAccess_def reader_simps arg_safe_intros split: if_splits)

interpretation safe_authentication: safe_reader parseRegistryAuthentication authentication_args arg_safe
  by unfold_locales (auto simp: parseRegistryAuthentication_def reader_simps arg_safe_intros split: if_splits)

interpretation safe_lookup: safe_reader parseRegistryDigestLookup lookup_args arg_safe
  by unfold_locales (auto simp: parseRegistryDigestLookup_def reader_simps arg_safe_intros split: if_splits)

interpretation safe_registry: safe_reader parseRegistry registry_args arg_safe
  by unfold_locales (auto simp: parseRegistry_def reader_simps registry_args_def arg_safe_intros dest: safe_authentication.safe safe_lookup.safe)

interpretation safe_source: safe_reader "parseNetworkSource isIP" source_args arg_safe for isIP
proof unfold_locales
  fix v path x
  assume ok: "parseNetworkSource isIP v path = Inr x"
  obtain parsed kind where v: "v = Some (JObj parsed)" "map_of parsed ''kind'' = Some (JStr kind)"
    using ok by (simp only: parseNetworkSource_def res_bind_Inr object_at_Inr member_at_def string_at_Inr) blast
  consider "kind = ''gke-pod-range''" | "kind = ''gke-node-subnet''" | "kind \<noteq> ''gke-pod-range''" "kind \<noteq> ''gke-node-subnet''" by blast
  then show "list_all arg_safe (source_args x)"
  proof cases
    case 1
    then show ?thesis using ok v by (auto simp: parseNetworkSource_def reader_simps arg_safe_intros)
  next
    case 2
    then show ?thesis using ok v by (auto simp: parseNetworkSource_def reader_simps arg_safe_intros)
  next
    case 3
    then have "source_args x = []" using ok v unfolding parseNetworkSource_def
      by (simp add: member_at_def object_at_def string_at_def split: if_splits) (clarsimp simp: res_bind_Inr split: if_splits)+
    then show ?thesis by simp
  qed
qed

interpretation safe_network: safe_reader "parseNetwork isIP" network_args arg_safe for isIP
  by unfold_locales (auto simp: parseNetwork_def reader_simps network_args_def dest: safe_source.safe)

interpretation safe_cache: safe_reader parseCache cache_args arg_safe
  by unfold_locales (auto simp: parseCache_def reader_simps arg_safe_intros split: if_splits)

interpretation safe_cdn: safe_reader parseCdn cdn_args arg_safe
  by unfold_locales (auto simp: parseCdn_def reader_simps arg_safe_intros split: if_splits)

lemma ref_name_arg_safe: "ref_name_ok a r s \<Longrightarrow> s \<noteq> [] \<Longrightarrow> arg_safe s"
  using arg_safe_intros by (auto simp: ref_name_ok_def split: if_splits)

lemma manifest_name_arg_safe: "manifest_name_ok a k s \<Longrightarrow> s \<noteq> [] \<Longrightarrow> arg_safe s"
  using arg_safe_intros by (auto simp: manifest_name_ok_def split: if_splits)

interpretation safe_ref: safe_reader parseKubernetesObjectRef ref_args arg_safe
  by unfold_locales (auto simp: parseKubernetesObjectRef_def reader_simps resource_at_Inr ref_args_def arg_safe_intros intro: ref_name_arg_safe)

interpretation safe_service: safe_reader parseKubernetesServiceRef service_args arg_safe
  by unfold_locales (auto simp: parseKubernetesServiceRef_def reader_simps service_args_def arg_safe_intros)

interpretation safe_controller: safe_reader parseConditionLocation controller_args arg_safe
  by unfold_locales (auto simp: parseConditionLocation_def reader_simps arg_safe_intros split: if_splits)

interpretation safe_condition: safe_reader parseKubernetesCondition condition_args arg_safe
  by unfold_locales (auto simp: parseKubernetesCondition_def reader_simps condition_args_def arg_safe_intros dest: safe_ref.safe safe_controller.safe)

interpretation safe_readiness: safe_reader parseRoutingReadiness readiness_args arg_safe
proof unfold_locales
  fix v path x
  assume ok: "parseRoutingReadiness v path = Inr x"
  obtain parsed kind where v: "v = Some (JObj parsed)" "map_of parsed ''kind'' = Some (JStr kind)"
    using ok by (simp only: parseRoutingReadiness_def res_bind_Inr object_at_Inr member_at_def string_at_Inr) blast
  consider "kind = ''kubernetes-condition''" | "kind = ''kubernetes-job-complete''" | "kind = ''kubernetes-deployment-available''"
    | "kind = ''kubernetes-service-endpoints''" | "kind = ''gcp-traffic-extension''"
    using readiness_kinds [OF ok [unfolded v(1)] v(2)] by (elim disjE)
  then show "list_all arg_safe (readiness_args x)"
    using ok v by cases (auto simp: parseRoutingReadiness_def reader_simps arg_safe_intros
        dest: safe_ref.safe safe_service.safe safe_condition.safe)
qed

interpretation safe_registration: safe_reader parseRoutingRegistration registration_args arg_safe
  by unfold_locales (auto simp: parseRoutingRegistration_def reader_simps arg_safe_intros split: if_splits)


lemma dataplane_safe:
  "parsePortableOrigin d path = Inr x \<Longrightarrow> list_all arg_safe (dataplane_args x)"
  "parseExtProcDataplane kind d path = Inr x \<Longrightarrow> list_all arg_safe (dataplane_args x)"
  by (auto simp: parsePortableOrigin_def parseExtProcDataplane_def reader_simps arg_safe_intros simp del: array_at_Inr
      dest!: safe_readiness.array_safe safe_service.safe split: if_splits)

interpretation safe_routing: safe_reader parseRouting routing_args arg_safe
proof unfold_locales
  fix v path x
  assume ok: "parseRouting v path = Inr x"
  obtain parsed d kind where
    reg: "optional_at parseRoutingRegistration (map_of parsed ''registration'') (dot path ''registration'') = Inr (rt_registration x)"
    and plane: "kind = ''portable-http-origin'' \<and> exactKeys d [''kind'', ''service'', ''targetPool'', ''readiness''] (dot path ''dataplane'') = Inr ()
       \<and> parsePortableOrigin d (dot path ''dataplane'') = Inr (rt_dataplane x)
     \<or> parseExtProcDataplane kind d (dot path ''dataplane'') = Inr (rt_dataplane x)"
    using ok by (rule routing_parts)
  have "list_all arg_safe (dataplane_args (rt_dataplane x))" using plane dataplane_safe by blast
  moreover have "list_all arg_safe (registration_args g)" if "rt_registration x = Some g" for g
    using safe_registration.optional_safe reg that by metis
  ultimately show "list_all arg_safe (routing_args x)" by (simp add: routing_args_def split: option.splits)
qed

lemma email_arg_safe:
  assumes "matches SERVICE_ACCOUNT_EMAIL_RE s" "s \<noteq> []"
  shows "arg_safe s"
proof (rule matches_arg_safe [OF _ _ assms])
  have "\<forall>c \<in> set ''.iam.gserviceaccount.com''. plain_char c"
    by (simp add: plain_char_def one_of_def alnum_any_def lower_def)
  moreover have "plain_char (CHR ''@'')" using plain_literals(1) by simp
  ultimately show "plain_re SERVICE_ACCOUNT_EMAIL_RE" unfolding SERVICE_ACCOUNT_EMAIL_RE_def plain_re_simps plain_lit
    using plain_classes by simp
qed (auto simp: SERVICE_ACCOUNT_EMAIL_RE_def)

interpretation safe_owned: safe_reader parseKubernetesOwnedObject owned_args arg_safe
  by unfold_locales (auto simp: parseKubernetesOwnedObject_def parseHelmRelease_def reader_simps owned_args_def arg_safe_intros
      simp del: optional_at_Inr dest: safe_ref.safe split: option.splits)

interpretation safe_cleanup_op: safe_reader parseExternalCleanup cleanup_op_args arg_safe
  by unfold_locales (auto simp: parseExternalCleanup_def reader_simps arg_safe_intros email_arg_safe split: if_splits)

interpretation safe_retained: safe_reader parseRetainedExternal retained_args arg_safe
  by unfold_locales (auto simp: parseRetainedExternal_def reader_simps arg_safe_intros split: if_splits)

interpretation safe_cleanup: safe_reader parseCleanup cleanup_args arg_safe
  by unfold_locales (auto simp: parseCleanup_def reader_simps cleanup_args_def simp del: array_at_Inr
      dest: safe_owned.array_safe safe_cleanup_op.array_safe safe_retained.array_safe)

interpretation safe_diagnostic: safe_reader parseDiagnostic diagnostic_args arg_safe
  by unfold_locales (auto simp: parseDiagnostic_def reader_simps condition_only_Inr arg_safe_intros dest: safe_ref.safe safe_readiness.safe
      split: if_splits)

interpretation safe_log: safe_reader parseLog log_args arg_safe
  by unfold_locales (auto simp: parseLog_def reader_simps log_args_def arg_safe_intros)

interpretation safe_manifest: safe_reader parseKubernetesManifest manifest_args arg_safe
  by unfold_locales (auto simp: parseKubernetesManifest_def reader_simps resource_at_Inr manifest_args_def arg_safe_intros
      intro: manifest_name_arg_safe)

interpretation safe_requirement: safe_reader parseKubernetesRequirement requirement_args arg_safe
  by unfold_locales (auto simp: parseKubernetesRequirement_def reader_simps resource_at_Inr requirement_args_def arg_safe_intros)

lemma location_safe: "parseGcpLocation v path = Inr l \<Longrightarrow> place_safe (location_place l)"
  by (auto simp: parseGcpLocation_def reader_simps region_place_safe)

interpretation place_identity: safe_reader parseClusterIdentity identity_places place_safe
  by unfold_locales (auto simp: parseClusterIdentity_def reader_simps location_safe split: if_splits)

interpretation place_access: safe_reader parseClusterAccess access_places place_safe
  by unfold_locales (auto simp: parseClusterAccess_def reader_simps location_safe split: if_splits)

interpretation place_source: safe_reader "parseNetworkSource isIP" source_places place_safe for isIP
proof unfold_locales
  fix v path x
  assume ok: "parseNetworkSource isIP v path = Inr x"
  obtain parsed kind where v: "v = Some (JObj parsed)" "map_of parsed ''kind'' = Some (JStr kind)"
    using ok by (simp only: parseNetworkSource_def res_bind_Inr object_at_Inr member_at_def string_at_Inr) blast
  consider "kind = ''gke-pod-range''" | "kind = ''gke-node-subnet''" | "kind \<noteq> ''gke-pod-range''" "kind \<noteq> ''gke-node-subnet''" by blast
  then show "list_all place_safe (source_places x)"
  proof cases
    case 1
    then show ?thesis using ok v by (auto simp: parseNetworkSource_def reader_simps location_safe)
  next
    case 2
    then show ?thesis using ok v by (auto simp: parseNetworkSource_def reader_simps location_safe)
  next
    case 3
    then have "source_places x = []" using ok v unfolding parseNetworkSource_def
      by (simp add: member_at_def object_at_def string_at_def split: if_splits) (clarsimp simp: res_bind_Inr split: if_splits)+
    then show ?thesis by simp
  qed
qed

interpretation place_network: safe_reader "parseNetwork isIP" network_places place_safe for isIP
  by unfold_locales (auto simp: parseNetwork_def reader_simps network_places_def dest: place_source.safe)

interpretation place_cache: safe_reader parseCache cache_places place_safe
  by unfold_locales (auto simp: parseCache_def reader_simps region_place_safe split: if_splits)

interpretation place_cleanup_op: safe_reader parseExternalCleanup cleanup_op_places place_safe
  by unfold_locales (auto simp: parseExternalCleanup_def reader_simps region_place_safe split: if_splits)

interpretation place_retained: safe_reader parseRetainedExternal retained_places place_safe
  by unfold_locales (auto simp: parseRetainedExternal_def reader_simps location_safe region_place_safe split: if_splits)

interpretation place_cleanup: safe_reader parseCleanup cleanup_places place_safe
  by unfold_locales (auto simp: parseCleanup_def reader_simps cleanup_places_def simp del: array_at_Inr
      dest: place_cleanup_op.array_safe place_retained.array_safe)

interpretation place_diagnostic: safe_reader parseDiagnostic diagnostic_places place_safe
  by unfold_locales (auto simp: parseDiagnostic_def reader_simps condition_only_Inr region_place_safe split: if_splits)

definition metadata_args :: "plan_metadata \<Rightarrow> string list" where
  "metadata_args m = [pm_releaseName m, pm_namespace m]"

definition target_args :: "plan_target \<Rightarrow> string list" where
  "target_args t = identity_args (pt_identity t) @ access_args (pt_access t) @ registry_args (pt_registry t)"

definition operation_args :: "plan_operations \<Rightarrow> string list" where
  "operation_args ops = network_args (op_network ops) @ cache_args (op_cache ops) @ cdn_args (op_cdn ops)
     @ routing_args (op_routing ops) @ cleanup_args (op_cleanup ops) @ concat (map manifest_args (op_objects ops))
     @ concat (map readiness_args (op_readiness ops)) @ concat (map diagnostic_args (op_diagnostics ops)) @ concat (map log_args (op_logs ops))"

definition plan_args :: "composition_plan \<Rightarrow> string list" where
  "plan_args p =
     metadata_args (cp_metadata p) @ target_args (cp_target p) @ concat (map requirement_args (cp_apiResources p)) @ operation_args (cp_operations p)"

definition plan_places :: "composition_plan \<Rightarrow> string list" where
  "plan_places p =
     pm_buildId (cp_metadata p) # identity_places (pt_identity (cp_target p)) @ access_places (pt_access (cp_target p))
     @ network_places (op_network (cp_operations p)) @ cache_places (op_cache (cp_operations p))
     @ cleanup_places (op_cleanup (cp_operations p)) @ concat (map diagnostic_places (op_diagnostics (cp_operations p)))"

lemma metadata_safe: "parseMetadata fs path = Inr m \<Longrightarrow> list_all arg_safe (metadata_args m)"
  by (auto simp: parseMetadata_def reader_simps metadata_args_def arg_safe_intros)

lemma target_safe: "parseTarget fs f path = Inr t \<Longrightarrow> list_all arg_safe (target_args t)"
  by (auto simp: parseTarget_def res_bind_Inr member_at_def target_args_def dest!: safe_identity.safe safe_access.safe safe_registry.safe)

lemma operations_safe: "parseOperations isIP fs rs path = Inr ops \<Longrightarrow> list_all arg_safe (operation_args ops)"
  by (auto simp: parseOperations_def res_bind_Inr member_at_def operation_args_def dest!: safe_network.safe safe_cache.safe safe_cdn.safe
      safe_routing.safe safe_cleanup.safe safe_manifest.array_safe safe_readiness.array_safe safe_diagnostic.array_safe safe_log.array_safe)

lemma operation_places:
  assumes "parseOperations isIP fs rs path = Inr ops"
  shows "list_all place_safe (network_places (op_network ops) @ cache_places (op_cache ops) @ cleanup_places (op_cleanup ops)
    @ concat (map diagnostic_places (op_diagnostics ops)))"
  using assms by (auto simp: parseOperations_def res_bind_Inr member_at_def dest!: place_network.safe place_cache.safe
      place_cleanup.safe place_diagnostic.array_safe)

lemma metadata_places: "parseMetadata fs path = Inr m \<Longrightarrow> place_safe (pm_buildId m)"
  by (auto simp: parseMetadata_def reader_simps build_id_place_safe)

lemma target_places:
  "parseTarget fs f path = Inr t \<Longrightarrow> list_all place_safe (identity_places (pt_identity t) @ access_places (pt_access t))"
  by (auto simp: parseTarget_def res_bind_Inr member_at_def dest!: place_identity.safe place_access.safe)

lemma plan_parts:
  assumes "parseCompositionPlan isIP v = Inr plan"
  obtains fs gs d ks hs rs path where "parseMetadata fs path = Inr (cp_metadata plan)" "parseTarget gs d ''$.target'' = Inr (cp_target plan)"
    "array_at 256 parseKubernetesRequirement (map_of ks ''resources'') (dot ''$.requirements.kubernetes'' ''resources'') = Inr (cp_apiResources plan)"
    "parseOperations isIP hs rs ''$.operations'' = Inr (cp_operations plan)"
  using assms by (auto simp: parseCompositionPlan_def Let_def res_bind_Inr member_at_def)

text \<open>
  C7: No accepted plan can smuggle an option into a command line. Of an accepted plan, every release,
  namespace, project, cluster, cluster uid, kubeconfig context, registry host and repository, API version,
  kind, resource, object, Service, pool, condition type, controller, label, extension, address, network,
  instance, bucket, service account, IAM role, certificate and release prefix (\<open>plan_args\<close>) is non-empty,
  does not begin with a hyphen and has no control character. The build id and the names of regions and
  zones (\<open>plan_places\<close>) are non-empty and have no control character either, but they may begin with a
  hyphen: \<open>zone_may_look_like_option\<close> below is an instance.
\<close>

theorem plan_arguments_are_not_options:
  assumes "parseCompositionPlan isIP v = Inr plan"
  shows "(\<forall>s \<in> set (plan_args plan). s \<noteq> [] \<and> hd s \<noteq> CHR ''-'' \<and> (\<forall>c \<in> set s. \<not> control_char c)) \<and>
         (\<forall>s \<in> set (plan_places plan). s \<noteq> [] \<and> (\<forall>c \<in> set s. \<not> control_char c))"
proof -
  obtain fs gs d ks hs rs path where
    m: "parseMetadata fs path = Inr (cp_metadata plan)" and t: "parseTarget gs d ''$.target'' = Inr (cp_target plan)" and
    q: "array_at 256 parseKubernetesRequirement (map_of ks ''resources'') (dot ''$.requirements.kubernetes'' ''resources'') = Inr (cp_apiResources plan)" and
    o: "parseOperations isIP hs rs ''$.operations'' = Inr (cp_operations plan)"
    using assms by (rule plan_parts)
  have "list_all arg_safe (plan_args plan)"
    using metadata_safe [OF m] target_safe [OF t] safe_requirement.array_safe [OF q] operations_safe [OF o] by (simp add: plan_args_def)
  moreover have "list_all place_safe (plan_places plan)"
    using metadata_places [OF m] target_places [OF t] operation_places [OF o] by (simp add: plan_places_def)
  ultimately show ?thesis by (auto simp: list_all_iff arg_safe_def place_safe_def)
qed

theorem plan_arguments_are_not_options_witness:
  "\<exists>p. parseCompositionPlan (\<lambda>_. 0) (JObj demo_members) = Inr p \<and> hd (pm_releaseName (cp_metadata p)) \<noteq> CHR ''-'' \<and>
     pm_buildId (cp_metadata p) \<noteq> []"
proof -
  obtain p where p: "parseCompositionPlan (\<lambda>_. 0) (JObj demo_members) = Inr p" using demo_plan_parsed by blast
  then show ?thesis using plan_arguments_are_not_options [OF p] by (auto simp: plan_args_def plan_places_def metadata_args_def)
qed

text \<open>A zone or region may look like an option, and it is passed as an argument of its own.\<close>

lemma zone_may_look_like_option:
  "parseGcpLocation (Some (JObj [(''kind'', JStr ''zone''), (''name'', JStr ''--quiet'')])) ''$'' = Inr (Zone ''--quiet'')"
  by code_simp

text \<open>A key \<open>__proto__\<close> of a manifest body vanishes from the plan, and so does a body that is \<open>null\<close>.\<close>

lemma proto_key_vanishes:
  "parseKubernetesJson (JObj [(''__proto__'', JStr ''x''), (''spec'', JNull)]) ''$'' 0 = Inr (KObj [(''spec'', KNull)] None)"
  by code_simp

lemma null_body_vanishes: "body_at (Some JNull) ''$'' = Inr None"
  by code_simp

end
