(* ===== verification/Exec.thy ===== *)
theory Exec
  imports Json
begin

text \<open>
  Programs that work by running commands: \<^verbatim>\<open>src/cli/exec.ts\<close> and the modules built on it. What a
  command answers is decided outside the program, by the cluster and by everyone else who uses it, so
  the answers are a parameter, the \<open>world\<close>: a function of the commands run so far and the command run
  now. A program is a function from the world and the commands run so far to a result or a thrown
  error, together with the longer list of commands. Warnings and progress messages are left out.

  The second half is a small Hoare logic. \<open>io_ok w G P m Q E\<close> says that from every history satisfying
  \<open>P\<close> the program \<open>m\<close> runs only commands that \<open>G\<close> allows at the point where they are run, and ends
  with \<open>Q\<close> when it returns and \<open>E\<close> when it throws.
\<close>

named_theorems io_rules \<open>the rules of the Hoare logic for programs that run commands\<close>

section \<open>Commands and programs\<close>

type_synonym command = "string list"

type_synonym history = "command list"

record exec_result =
  exitCode :: int
  stdout :: string
  stderr :: string

text \<open>\<open>None\<close> is a rejected promise: the command could not be started.\<close>

type_synonym world = "history \<Rightarrow> command \<Rightarrow> exec_result option"

datatype thrown =
    SpawnError
  | TypeError
  | Thrown string
  | CutoverExitError int

type_synonym 'a io = "world \<Rightarrow> history \<Rightarrow> (thrown + 'a) \<times> history"

definition io_return :: "'a \<Rightarrow> 'a io" where
  "io_return x w h = (Inr x, h)"

definition io_throw :: "thrown \<Rightarrow> 'a io" where
  "io_throw e w h = (Inl e, h)"

definition io_lift :: "thrown + 'a \<Rightarrow> 'a io" where
  "io_lift r w h = (r, h)"

definition io_bind :: "'a io \<Rightarrow> ('a \<Rightarrow> 'b io) \<Rightarrow> 'b io" where
  "io_bind m f w h = (case m w h of (Inl e, h') \<Rightarrow> (Inl e, h') | (Inr x, h') \<Rightarrow> f x w h')"

definition io_then :: "'a io \<Rightarrow> 'b io \<Rightarrow> 'b io" where
  "io_then m n = io_bind m (\<lambda>_. n)"

text \<open>\<open>try { ... } catch (e) { ... }\<close>.\<close>

definition io_catch :: "'a io \<Rightarrow> (thrown \<Rightarrow> 'a io) \<Rightarrow> 'a io" where
  "io_catch m f w h = (case m w h of (Inl e, h') \<Rightarrow> f e w h' | (Inr x, h') \<Rightarrow> (Inr x, h'))"

text \<open>\<open>for (const x of xs) ...\<close>, with and without variables the body updates.\<close>

primrec io_fold :: "('s \<Rightarrow> 'a \<Rightarrow> 's io) \<Rightarrow> 's \<Rightarrow> 'a list \<Rightarrow> 's io" where
  "io_fold f s [] = io_return s"
| "io_fold f s (x # xs) = io_bind (f s x) (\<lambda>s'. io_fold f s' xs)"

primrec io_each :: "('a \<Rightarrow> unit io) \<Rightarrow> 'a list \<Rightarrow> unit io" where
  "io_each f [] = io_return ()"
| "io_each f (x # xs) = io_bind (f x) (\<lambda>_. io_each f xs)"

text \<open>\<open>execCapture\<close>, and \<open>execOrThrow\<close>, which turns a non-zero exit code into an error.\<close>

definition execCapture :: "command \<Rightarrow> exec_result io" where
  "execCapture c w h = (case w h c of None \<Rightarrow> (Inl SpawnError, h @ [c]) | Some r \<Rightarrow> (Inr r, h @ [c]))"

definition execOrThrow :: "command \<Rightarrow> exec_result io" where
  "execOrThrow c = io_bind (execCapture c)
     (\<lambda>r. if exitCode r \<noteq> 0 then io_throw (Thrown ''Command failed'') else io_return r)"

text \<open>
  A pause is kept in the history as a command of its own, and a pause cannot fail.
\<close>

definition io_sleep :: "nat \<Rightarrow> unit io" where
  "io_sleep ms w h = (Inr (), h @ [[''sleep'', nat_dec ms]])"

definition int_dec :: "int \<Rightarrow> string" where
  "int_dec n = (if n < 0 then ''-'' @ nat_dec (nat (- n)) else nat_dec (nat n))"

lemmas io_defs = io_return_def io_throw_def io_lift_def io_bind_def io_then_def io_catch_def execCapture_def execOrThrow_def

section \<open>JavaScript values that came from \<open>JSON.parse\<close>\<close>

text \<open>\<open>x?.key\<close>, and \<open>x.key\<close>, which throws on \<open>undefined\<close> and \<open>null\<close>.\<close>

definition oget :: "json option \<Rightarrow> string \<Rightarrow> json option" where
  "oget v k = Option.bind v (\<lambda>j. jget j k)"

fun js_prop :: "json option \<Rightarrow> string \<Rightarrow> thrown + json option" where
  "js_prop None k = Inl TypeError"
| "js_prop (Some JNull) k = Inl TypeError"
| "js_prop (Some j) k = Inr (jget j k)"

fun js_falsy :: "json option \<Rightarrow> bool" where
  "js_falsy None = True"
| "js_falsy (Some JNull) = True"
| "js_falsy (Some (JBool b)) = (\<not> b)"
| "js_falsy (Some (JNum q)) = (q = 0)"
| "js_falsy (Some (JStr s)) = (s = [])"
| "js_falsy (Some _) = False"

lemma is_string_Some: "is_string v = Some s \<longleftrightarrow> v = Some (JStr s)"
  by (cases "v" rule: is_string.cases) auto

text \<open>\<open>x ?? d\<close>.\<close>

fun js_default :: "json option \<Rightarrow> json \<Rightarrow> json" where
  "js_default None d = d"
| "js_default (Some JNull) d = d"
| "js_default (Some j) d = j"

text \<open>\<open>xs.find(p)\<close> where \<open>p\<close> may throw, and \<open>v?.find(p)\<close>, which throws when \<open>v\<close> has no such method.\<close>

fun js_find :: "(json \<Rightarrow> thrown + bool) \<Rightarrow> json list \<Rightarrow> thrown + json option" where
  "js_find p [] = Inr None"
| "js_find p (x # xs) = res_bind (p x) (\<lambda>b. if b then Inr (Some x) else js_find p xs)"

fun js_ofind :: "(json \<Rightarrow> thrown + bool) \<Rightarrow> json option \<Rightarrow> thrown + json option" where
  "js_ofind p None = Inr None"
| "js_ofind p (Some JNull) = Inr None"
| "js_ofind p (Some (JArr xs)) = js_find p xs"
| "js_ofind p (Some _) = Inl TypeError"

text \<open>\<open>entry.name === k\<close>.\<close>

definition named :: "string \<Rightarrow> json \<Rightarrow> thrown + bool" where
  "named k entry = res_bind (js_prop (Some entry) ''name'') (\<lambda>v. Inr (v = Some (JStr k)))"

text \<open>\<open>objectRecord\<close> of the modules that read cluster objects: an object that is not an array.\<close>

definition objectRecord :: "json option \<Rightarrow> json option" where
  "objectRecord v = (case v of Some (JObj ms) \<Rightarrow> Some (JObj ms) | _ \<Rightarrow> None)"

text \<open>\<open>x?.key === s\<close>.\<close>

abbreviation field_is :: "json option \<Rightarrow> string \<Rightarrow> string \<Rightarrow> bool" where
  "field_is v k s \<equiv> oget v k = Some (JStr s)"

section \<open>Reasoning about runs\<close>

text \<open>\<open>steps G h h'\<close>: the history grew from \<open>h\<close> to \<open>h'\<close> by commands that \<open>G\<close> allowed when they were run.\<close>

inductive steps :: "(history \<Rightarrow> command \<Rightarrow> bool) \<Rightarrow> history \<Rightarrow> history \<Rightarrow> bool" for G where
  steps_none: "steps G h h"
| steps_more: "steps G h h' \<Longrightarrow> G h' c \<Longrightarrow> steps G h (h' @ [c])"

lemma steps_trans: "steps G h' h'' \<Longrightarrow> steps G h h' \<Longrightarrow> steps G h h''"
  by (induction rule: steps.induct) (auto intro: steps_more)

lemma steps_mono: "steps G h h' \<Longrightarrow> (\<And>a c. G a c \<Longrightarrow> H a c) \<Longrightarrow> steps H h h'"
  by (induction rule: steps.induct) (auto intro: steps.intros)

lemma steps_extend: "steps G h h' \<Longrightarrow> \<exists>cs. h' = h @ cs"
  by (induction rule: steps.induct) auto

lemma steps_command:
  assumes "steps G h h'" "h' = h @ as @ c # bs"
  shows "G (h @ as) c"
  using assms
proof (induction arbitrary: as c bs rule: steps.induct)
  case (steps_more h h' d)
  show ?case
  proof (cases bs rule: rev_cases)
    case Nil
    then show ?thesis using steps_more.hyps(2) steps_more.prems by (metis append1_eq_conv append_assoc)
  next
    case (snoc bs' x)
    then have "h' = h @ as @ c # bs'" using steps_more.prems by (metis append1_eq_conv append_Cons append_assoc)
    then show ?thesis by (rule steps_more.IH)
  qed
qed simp

definition io_ok ::
    "world \<Rightarrow> (history \<Rightarrow> command \<Rightarrow> bool) \<Rightarrow> (history \<Rightarrow> bool) \<Rightarrow> 'a io \<Rightarrow> ('a \<Rightarrow> history \<Rightarrow> bool) \<Rightarrow> (thrown \<Rightarrow> history \<Rightarrow> bool) \<Rightarrow> bool" where
  "io_ok w G P m Q E \<longleftrightarrow>
     (\<forall>h r h'. P h \<longrightarrow> m w h = (r, h') \<longrightarrow> steps G h h' \<and> (case r of Inl e \<Rightarrow> E e h' | Inr x \<Rightarrow> Q x h'))"

lemma ok_return [io_rules]: "(\<And>h. P h \<Longrightarrow> Q x h) \<Longrightarrow> io_ok w G P (io_return x) Q E"
  by (simp add: io_ok_def io_return_def steps_none)

lemma ok_throw [io_rules]: "(\<And>h. P h \<Longrightarrow> E e h) \<Longrightarrow> io_ok w G P (io_throw e) Q E"
  by (simp add: io_ok_def io_throw_def steps_none)

lemma ok_lift:
  "(\<And>h x. P h \<Longrightarrow> r = Inr x \<Longrightarrow> Q x h) \<Longrightarrow> (\<And>h e. P h \<Longrightarrow> r = Inl e \<Longrightarrow> E e h) \<Longrightarrow> io_ok w G P (io_lift r) Q E"
  by (auto simp: io_ok_def io_lift_def steps_none split: sum.splits)

lemma ok_bind:
  assumes "io_ok w G P m Q E" "\<And>x. io_ok w G (Q x) (f x) R E"
  shows "io_ok w G P (io_bind m f) R E"
  unfolding io_ok_def
proof (intro allI impI)
  fix h r h' assume P: "P h" and run: "io_bind m f w h = (r, h')"
  obtain r1 h1 where m: "m w h = (r1, h1)" by fastforce
  have one: "steps G h h1" "case r1 of Inl e \<Rightarrow> E e h1 | Inr x \<Rightarrow> Q x h1"
    using assms(1) P m unfolding io_ok_def by blast+
  show "steps G h h' \<and> (case r of Inl e \<Rightarrow> E e h' | Inr x \<Rightarrow> R x h')"
  proof (cases r1)
    case (Inl e)
    then show ?thesis using run m one by (auto simp: io_bind_def)
  next
    case (Inr x)
    then have "f x w h1 = (r, h')" "Q x h1" using run m one by (simp_all add: io_bind_def)
    then have "steps G h1 h' \<and> (case r of Inl e \<Rightarrow> E e h' | Inr x \<Rightarrow> R x h')"
      using assms(2) [of x] unfolding io_ok_def by blast
    then show ?thesis using one(1) steps_trans by blast
  qed
qed

lemma ok_then: "io_ok w G P m (\<lambda>_. Q) E \<Longrightarrow> io_ok w G Q n R E \<Longrightarrow> io_ok w G P (io_then m n) R E"
  unfolding io_then_def by (rule ok_bind)

lemma ok_catch:
  assumes "io_ok w G P m Q F" "\<And>e. io_ok w G (F e) (f e) Q E"
  shows "io_ok w G P (io_catch m f) Q E"
  unfolding io_ok_def
proof (intro allI impI)
  fix h r h' assume P: "P h" and run: "io_catch m f w h = (r, h')"
  obtain r1 h1 where m: "m w h = (r1, h1)" by fastforce
  have one: "steps G h h1" "case r1 of Inl e \<Rightarrow> F e h1 | Inr x \<Rightarrow> Q x h1"
    using assms(1) P m unfolding io_ok_def by blast+
  show "steps G h h' \<and> (case r of Inl e \<Rightarrow> E e h' | Inr x \<Rightarrow> Q x h')"
  proof (cases r1)
    case (Inr x)
    then show ?thesis using run m one by (auto simp: io_catch_def)
  next
    case (Inl e)
    then have "f e w h1 = (r, h')" "F e h1" using run m one by (simp_all add: io_catch_def)
    then have "steps G h1 h' \<and> (case r of Inl e \<Rightarrow> E e h' | Inr x \<Rightarrow> Q x h')"
      using assms(2) [of e] unfolding io_ok_def by blast
    then show ?thesis using one(1) steps_trans by blast
  qed
qed

lemma ok_capture:
  assumes "\<And>h. P h \<Longrightarrow> G h c"
    and "\<And>h r. P h \<Longrightarrow> w h c = Some r \<Longrightarrow> Q r (h @ [c])"
    and "\<And>h. P h \<Longrightarrow> w h c = None \<Longrightarrow> E SpawnError (h @ [c])"
  shows "io_ok w G P (execCapture c) Q E"
  using assms by (auto simp: io_ok_def execCapture_def intro: steps.intros split: option.splits)

lemma ok_sleep: "(\<And>h. P h \<Longrightarrow> G h [''sleep'', nat_dec ms]) \<Longrightarrow> (\<And>h. P h \<Longrightarrow> Q () (h @ [[''sleep'', nat_dec ms]])) \<Longrightarrow> io_ok w G P (io_sleep ms) Q E"
  by (auto simp: io_ok_def io_sleep_def intro: steps.intros)

lemma ok_conseq:
  assumes "io_ok w G P m Q E" "\<And>h. P' h \<Longrightarrow> P h" "\<And>x h. Q x h \<Longrightarrow> Q' x h" "\<And>e h. E e h \<Longrightarrow> E' e h"
  shows "io_ok w G P' m Q' E'"
  using assms unfolding io_ok_def by (fastforce split: sum.splits)

lemma ok_pre: "io_ok w G P m Q E \<Longrightarrow> (\<And>h. P' h \<Longrightarrow> P h) \<Longrightarrow> io_ok w G P' m Q E"
  unfolding io_ok_def by blast

lemma ok_pure: "(b \<Longrightarrow> io_ok w G P m Q E) \<Longrightarrow> io_ok w G (\<lambda>h. b \<and> P h) m Q E"
  unfolding io_ok_def by blast

lemma ok_allow: "io_ok w G P m Q E \<Longrightarrow> (\<And>h c. G h c \<Longrightarrow> H h c) \<Longrightarrow> io_ok w H P m Q E"
  unfolding io_ok_def using steps_mono by blast

text \<open>A fact that later commands cannot undo may be assumed throughout.\<close>

lemma steps_frame:
  assumes "steps G h h'" "K h" "\<And>h c. K h \<Longrightarrow> K (h @ [c])"
  shows "steps (\<lambda>h c. K h \<and> G h c) h h' \<and> K h'"
  using assms by (induction rule: steps.induct) (auto intro: steps.intros)

lemma ok_frame:
  assumes "io_ok w G P m Q E" "\<And>h c. K h \<Longrightarrow> K (h @ [c])"
  shows "io_ok w (\<lambda>h c. K h \<and> G h c) (\<lambda>h. K h \<and> P h) m (\<lambda>x h. K h \<and> Q x h) (\<lambda>e h. K h \<and> E e h)"
  using assms steps_frame [of G _ _ K] unfolding io_ok_def by (fastforce split: sum.splits)

lemma ok_each:
  assumes "\<And>x. x \<in> set xs \<Longrightarrow> io_ok w G I (f x) (\<lambda>_. I) E"
  shows "io_ok w G I (io_each f xs) (\<lambda>_. I) E"
  using assms by (induction xs) (auto intro!: ok_return intro: ok_bind)

lemma ok_fold:
  assumes "\<And>s x. x \<in> set xs \<Longrightarrow> io_ok w G (I s) (f s x) I E"
  shows "io_ok w G (I s) (io_fold f s xs) I E"
  using assms by (induction xs arbitrary: s) (auto intro!: ok_return intro: ok_bind)

lemma ok_if [io_rules]:
  "(b \<Longrightarrow> io_ok w G P m Q E) \<Longrightarrow> (\<not> b \<Longrightarrow> io_ok w G P n Q E) \<Longrightarrow> io_ok w G P (if b then m else n) Q E"
  by simp

text \<open>What a run that satisfies its rule looks like from outside: every command it ran was allowed.\<close>

lemma ok_run:
  assumes "io_ok w G P m Q E" "P h" "m w h = (r, h @ as @ c # bs)"
  shows "G (h @ as) c"
  using assms steps_command unfolding io_ok_def by blast

text \<open>\<open>answered w h c r\<close>: some earlier run of \<open>c\<close> was answered by \<open>r\<close>.\<close>

definition answered :: "world \<Rightarrow> history \<Rightarrow> command \<Rightarrow> exec_result \<Rightarrow> bool" where
  "answered w h c r \<longleftrightarrow> (\<exists>as bs. h = as @ c # bs \<and> w as c = Some r)"

lemma answered_now [simp, intro]: "w h c = Some r \<Longrightarrow> answered w (h @ [c]) c r"
  unfolding answered_def by blast

lemma answered_later [simp, intro]: "answered w h c r \<Longrightarrow> answered w (h @ cs) c r"
  unfolding answered_def by fastforce

text \<open>A loop whose invariant mentions the elements already handled.\<close>

lemma ok_fold_prefix:
  assumes "\<And>ys x zs s. xs = ys @ x # zs \<Longrightarrow> io_ok w G (I ys s) (f s x) (I (ys @ [x])) E"
  shows "io_ok w G (I [] s) (io_fold f s xs) (I xs) E"
proof -
  have "io_ok w G (I ys s) (io_fold f s zs) (I xs) E" if "xs = ys @ zs" for ys zs s
    using that
  proof (induction zs arbitrary: ys s)
    case Nil
    then show ?case by (auto intro: ok_return)
  next
    case (Cons z zs)
    from Cons.prems have "io_ok w G (I ys s) (f s z) (I (ys @ [z])) E" by (rule assms)
    moreover have "io_ok w G (I (ys @ [z]) s') (io_fold f s' zs) (I xs) E" for s'
      using Cons.IH [of "ys @ [z]" s'] Cons.prems by simp
    ultimately show ?case by (auto intro: ok_bind)
  qed
  from this [of "[]" xs s] show ?thesis by simp
qed

text \<open>A rule for a program, as a fact about one run of it.\<close>

lemma ok_remember:
  assumes "io_ok w G P m Q E" "P h"
  shows "io_ok w G (\<lambda>h'. h' = h) m (\<lambda>x h'. m w h = (Inr x, h') \<and> Q x h') E"
  using assms unfolding io_ok_def by (fastforce split: sum.splits)

lemma ok_start: "(\<And>h. P h \<Longrightarrow> io_ok w G (\<lambda>h'. h' = h) m Q E) \<Longrightarrow> io_ok w G P m Q E"
  unfolding io_ok_def by blast

text \<open>All commands of a list were answered with exit code 0, run one after the other.\<close>

fun all_succeed :: "world \<Rightarrow> history \<Rightarrow> command list \<Rightarrow> bool" where
  "all_succeed w h [] = True"
| "all_succeed w h (c # cs) = ((\<exists>r. w h c = Some r \<and> exitCode r = 0) \<and> all_succeed w (h @ [c]) cs)"

lemma all_succeed_append [simp]:
  "all_succeed w h (as @ bs) \<longleftrightarrow> all_succeed w h as \<and> all_succeed w (h @ as) bs"
  by (induction as arbitrary: h) auto

text \<open>A fact about earlier answers stays true; the sweeps below carry one along.\<close>

definition lasting :: "(history \<Rightarrow> bool) \<Rightarrow> bool" where
  "lasting K \<longleftrightarrow> (\<forall>h c. K h \<longrightarrow> K (h @ [c]))"

lemma lasting_answered [simp]: "lasting (\<lambda>h. answered w h c r)" "lasting K \<Longrightarrow> lasting (\<lambda>h. K h \<and> answered w h c r)" "lasting (\<lambda>_. True)"
  by (auto simp: lasting_def)

lemma ok_ask:
  assumes "\<And>h. K h \<Longrightarrow> G h c" "lasting K"
  shows "io_ok w G K (execCapture c) (\<lambda>r h. K h \<and> answered w h c r) (\<lambda>_. K)"
  using assms by (intro ok_capture) (auto simp: lasting_def)

lemma ok_run_it:
  assumes "\<And>h. K h \<Longrightarrow> G h c" "lasting K"
  shows "io_ok w G K (io_bind (execCapture c) (\<lambda>_. io_return ())) (\<lambda>_. K) (\<lambda>_. K)"
  using assms by (intro ok_bind [OF ok_ask]) (auto intro: ok_return)

lemma ok_ask_any: "(\<And>h. G h c) \<Longrightarrow> io_ok w G (\<lambda>_. True) (execCapture c) (\<lambda>r h. answered w h c r) (\<lambda>_ _. True)"
  by (intro ok_capture) auto

text \<open>A program that needs nothing and whose commands are all allowed.\<close>

abbreviation io_only :: "world \<Rightarrow> (history \<Rightarrow> command \<Rightarrow> bool) \<Rightarrow> 'a io \<Rightarrow> bool" where
  "io_only w G m \<equiv> io_ok w G (\<lambda>_. True) m (\<lambda>_ _. True) (\<lambda>_ _. True)"

lemma only_bind: "io_only w G m \<Longrightarrow> (\<And>x. io_only w G (f x)) \<Longrightarrow> io_only w G (io_bind m f)"
  by (rule ok_bind)

lemma only_then: "io_only w G m \<Longrightarrow> io_only w G n \<Longrightarrow> io_only w G (io_then m n)"
  by (rule ok_then)

lemma only_catch: "io_only w G m \<Longrightarrow> (\<And>e. io_only w G (f e)) \<Longrightarrow> io_only w G (io_catch m f)"
  by (rule ok_catch)

lemma only_each: "(\<And>x. x \<in> set xs \<Longrightarrow> io_only w G (f x)) \<Longrightarrow> io_only w G (io_each f xs)"
  by (rule ok_each)

lemma only_fold: "(\<And>s x. x \<in> set xs \<Longrightarrow> io_only w G (f s x)) \<Longrightarrow> io_only w G (io_fold f s xs)"
  by (rule ok_fold)

lemma only_basic [simp]: "io_only w G (io_return x)" "io_only w G (io_throw e)" "io_only w G (io_lift r)"
  by (auto intro!: ok_return ok_throw ok_lift)

text \<open>The \<open>i\<close>-th command of a run that starts with no history.\<close>

lemma run_at:
  assumes "i < length (snd (m w []))" "snd (m w []) ! i = c"
  shows "m w [] = (fst (m w []), [] @ take i (snd (m w [])) @ c # drop (Suc i) (snd (m w [])))"
  using assms id_take_nth_drop [of i "snd (m w [])"] by (metis append_Nil prod.collapse)

end
