(* ===== verification/StablePools.thy ===== *)
theory StablePools
  imports Exec Validators "HOL-Library.Multiset"
begin

text \<open>
  \<^verbatim>\<open>src/cli/stable-pool-resources.ts\<close>: the stable Service, PodDisruptionBudget and GKE policies of a pool
  that left the release. A deploy that removes a pool takes its objects out of the Helm release; a
  later deploy deletes them, once neither build in play has the pool. \<open>parse\<close> is \<open>JSON.parse\<close> of a
  text, \<open>None\<close> where it throws.
\<close>

section \<open>Identity of a stable object\<close>

datatype stable_kind = KService | KPdb | KHcp | KBcp

fun typeForKind :: "stable_kind \<Rightarrow> string" where
  "typeForKind KService = ''service''"
| "typeForKind KPdb = ''poddisruptionbudget''"
| "typeForKind KHcp = ''healthcheckpolicy''"
| "typeForKind KBcp = ''gcpbackendpolicy''"

record stable_resource =
  sr_kind :: stable_kind
  sr_name :: string
  sr_pool :: string
  sr_version :: string
  sr_object :: json

definition ADAPTER_RELEASE_LABEL :: string where
  "ADAPTER_RELEASE_LABEL = ''adapter-k8s.dev/release''"

definition RETAINED_STABLE_POOL_LABEL :: string where
  "RETAINED_STABLE_POOL_LABEL = ''adapter-k8s.dev/retained-stable-pool''"

definition KEEP_ANNOTATION :: string where
  "KEEP_ANNOTATION = ''helm.sh/resource-policy''"

definition KEEP_VALUE :: string where
  "KEEP_VALUE = ''keep''"

abbreviation name_label :: string where "name_label \<equiv> ''app.kubernetes.io/name''"
abbreviation component_label :: string where "component_label \<equiv> ''app.kubernetes.io/component''"
abbreviation version_label :: string where "version_label \<equiv> ''app.kubernetes.io/version''"

text \<open>A validator that throws, as a thrown error.\<close>

definition checked :: "(invalid, 'a) res \<Rightarrow> thrown + 'a" where
  "checked r = (case r of Inl (Invalid s) \<Rightarrow> Inl (Thrown s) | Inr x \<Rightarrow> Inr x)"

definition expectedName :: "string \<Rightarrow> string \<Rightarrow> stable_kind \<Rightarrow> thrown + string" where
  "expectedName releaseName pool kind =
     res_bind (checked (stablePoolResourceNames releaseName pool)) (\<lambda>names. Inr (case kind of
         KService \<Rightarrow> sp_service names | KPdb \<Rightarrow> sp_pdb names | KBcp \<Rightarrow> sp_bcp names | KHcp \<Rightarrow> sp_hcp names))"

definition ensure :: "string \<Rightarrow> bool \<Rightarrow> thrown + unit" where
  "ensure msg b = (if b then Inr () else Inl (Thrown msg))"

text \<open>The specification of the object has to point at the pool.\<close>

definition stable_spec_ok :: "string \<Rightarrow> string \<Rightarrow> stable_kind \<Rightarrow> json option \<Rightarrow> thrown + unit" where
  "stable_spec_ok releaseName pool kind spec =
     (case kind of
        KService \<Rightarrow>
          (let selector = objectRecord (oget spec ''selector'')
           in ensure ''does not select pool'' (field_is selector name_label releaseName \<and> field_is selector component_label pool))
      | KPdb \<Rightarrow>
          (let selector = objectRecord (oget (objectRecord (oget spec ''selector'')) ''matchLabels'')
           in ensure ''does not select pool'' (field_is selector name_label releaseName \<and> field_is selector component_label pool))
      | _ \<Rightarrow>
          (let targetRef = objectRecord (oget spec ''targetRef'')
           in if \<not> field_is targetRef ''kind'' ''Service'' then Inl (Thrown ''does not target'')
              else res_bind (checked (stablePoolResourceNames releaseName pool)) (\<lambda>names.
                     ensure ''does not target'' (field_is targetRef ''name'' (sp_service names)))))"

definition validateStableResource ::
    "json option \<Rightarrow> stable_kind \<Rightarrow> string \<Rightarrow> string \<Rightarrow> string \<Rightarrow> bool \<Rightarrow> thrown + stable_resource" where
  "validateStableResource v kind releaseName pool namespace requireRetainedLabel =
     res_bind (checked (assertSafeReleaseName releaseName)) (\<lambda>_.
     res_bind (checked (assertSafePoolName pool)) (\<lambda>_.
     let object = objectRecord v;
         metadata = objectRecord (oget object ''metadata'');
         labels = objectRecord (oget metadata ''labels'');
         annotations = objectRecord (oget metadata ''annotations'')
     in res_bind (expectedName releaseName pool kind) (\<lambda>wantedName.
     let resourceVersion = is_string (oget metadata ''resourceVersion'')
     in res_bind (ensure ''identity mismatch'' (field_is metadata ''name'' wantedName \<and> resourceVersion \<notin> {None, Some []})) (\<lambda>_.
     res_bind (ensure ''foreign Helm ownership''
         (field_is annotations ''meta.helm.sh/release-name'' releaseName \<and> field_is annotations ''meta.helm.sh/release-namespace'' namespace)) (\<lambda>_.
     let retainedMarker = field_is labels RETAINED_STABLE_POOL_LABEL releaseName;
         legacyRetained = field_is labels ADAPTER_RELEASE_LABEL releaseName \<and> field_is annotations KEEP_ANNOTATION KEEP_VALUE
     in res_bind (ensure ''not retained'' (\<not> (requireRetainedLabel \<and> \<not> retainedMarker \<and> \<not> legacyRetained))) (\<lambda>_.
     let labeledRelease = oget labels name_label; labeledPool = oget labels component_label
     in res_bind (ensure ''inconsistent labels''
         (kind = KHcp \<and> labeledRelease = None \<and> labeledPool = None \<or>
          labeledRelease = Some (JStr releaseName) \<and> labeledPool = Some (JStr pool))) (\<lambda>_.
     res_bind (stable_spec_ok releaseName pool kind (objectRecord (oget object ''spec''))) (\<lambda>_.
     Inr \<lparr>sr_kind = kind, sr_name = wantedName, sr_pool = pool, sr_version = the resourceVersion, sr_object = the object\<rparr>))))))))"

section \<open>Retaining the objects of a removed pool\<close>

definition readExact :: "(string \<Rightarrow> raw_json) \<Rightarrow> stable_kind \<Rightarrow> string \<Rightarrow> string \<Rightarrow> json option io" where
  "readExact parse kind name namespace =
     io_bind (execCapture [''kubectl'', ''get'', typeForKind kind, name, ''-n'', namespace, ''--ignore-not-found'', ''-o'', ''json'']) (\<lambda>result.
       if exitCode result \<noteq> 0 then io_throw (Thrown ''could not read'')
       else if js_trim (stdout result) = [] then io_return None
       else (case parse (stdout result) of None \<Rightarrow> io_throw (Thrown ''could not parse'') | Some v \<Rightarrow> io_return (Some v)))"

definition GKE_HCP_CRD :: string where
  "GKE_HCP_CRD = ''healthcheckpolicies.networking.gke.io''"

definition hasHealthCheckPolicyCrd :: "bool io" where
  "hasHealthCheckPolicyCrd =
     io_bind (execCapture [''kubectl'', ''get'', ''crd'', GKE_HCP_CRD, ''--ignore-not-found'', ''-o'', ''name'']) (\<lambda>result.
       if exitCode result \<noteq> 0 then io_throw (Thrown ''could not determine'') else io_return (js_trim (stdout result) \<noteq> []))"

text \<open>The merge patch that takes an object out of the Helm release, as the text handed to \<^verbatim>\<open>kubectl\<close>.\<close>

definition json_field :: "string \<Rightarrow> string \<Rightarrow> string" where
  "json_field k v = json_string k @ '':'' @ v"

definition json_braces :: "string list \<Rightarrow> string" where
  "json_braces ms = ''{'' @ js_join '','' ms @ ''}''"

definition retain_patch :: "string \<Rightarrow> string \<Rightarrow> string \<Rightarrow> string" where
  "retain_patch releaseName pool resourceVersion =
     json_braces [json_field ''metadata'' (json_braces
       [json_field ''resourceVersion'' (json_string resourceVersion),
        json_field ''labels'' (json_braces
          [json_field name_label (json_string releaseName),
           json_field component_label (json_string pool),
           json_field ADAPTER_RELEASE_LABEL (json_string releaseName),
           json_field RETAINED_STABLE_POOL_LABEL (json_string releaseName)]),
        json_field ''annotations'' (json_braces [json_field KEEP_ANNOTATION (json_string KEEP_VALUE)])])]"

definition retain_candidates :: "stable_pool_names \<Rightarrow> bool \<Rightarrow> (stable_kind \<times> string \<times> bool) list" where
  "retain_candidates names healthCheckPolicyCrd =
     [(KService, sp_service names, True), (KPdb, sp_pdb names, False)]
     @ (if healthCheckPolicyCrd then [(KHcp, sp_hcp names, False), (KBcp, sp_bcp names, False)] else [])"

definition retainRemovedPoolResources ::
    "(string \<Rightarrow> raw_json) \<Rightarrow> string \<Rightarrow> string \<Rightarrow> json option \<Rightarrow> bool \<Rightarrow> stable_kind list io" where
  "retainRemovedPoolResources parse releaseName pool namespaceOption healthCheckPolicyCrd =
     io_bind (io_lift (checked (resolveK8sNamespace namespaceOption))) (\<lambda>namespace.
     io_bind (io_lift (checked (stablePoolResourceNames releaseName pool))) (\<lambda>names.
     io_fold (\<lambda>retained (kind, name, required).
       io_bind (readExact parse kind name namespace) (\<lambda>found.
         case found of
           None \<Rightarrow> if required then io_throw (Thrown ''required stable Service is missing'') else io_return retained
         | Some v \<Rightarrow>
             io_bind (io_lift (validateStableResource (Some v) kind releaseName pool namespace False)) (\<lambda>resource.
             io_bind (execCapture [''kubectl'', ''patch'', typeForKind (sr_kind resource), sr_name resource, ''-n'', namespace,
                        ''--type=merge'', ''-p'', retain_patch releaseName pool (sr_version resource)]) (\<lambda>patch.
               if exitCode patch \<noteq> 0 then io_throw (Thrown ''could not retain'')
               else io_return (retained @ [sr_kind resource])))))
       [] (retain_candidates names healthCheckPolicyCrd)))"

section \<open>Deleting retained objects of pools no build has\<close>

datatype cleanup_failure =
    CouldNotList stable_kind
  | CouldNotParse stable_kind
  | NoItems stable_kind
  | ForeignMarker stable_kind
  | MissingPool stable_kind
  | NotValid thrown
  | Duplicate stable_kind string
  | CouldNotDelete stable_kind string

definition list_retained :: "string \<Rightarrow> string \<Rightarrow> stable_kind \<Rightarrow> command" where
  "list_retained releaseName namespace kind =
     [''kubectl'', ''get'', typeForKind kind, ''-n'', namespace, ''-l'',
      name_label @ ''='' @ releaseName @ '','' @ ADAPTER_RELEASE_LABEL @ ''='' @ releaseName, ''-o'', ''json'']"

type_synonym found = "stable_resource list \<times> cleanup_failure list"

text \<open>One listed object: ignored, refused with a failure, or a candidate for deletion.\<close>

definition classify_retained ::
    "string \<Rightarrow> string \<Rightarrow> string list \<Rightarrow> stable_kind \<Rightarrow> found \<Rightarrow> json \<Rightarrow> found" where
  "classify_retained releaseName namespace keepPools kind acc item =
     (let (resources, failures) = acc;
          metadata = objectRecord (oget (objectRecord (Some item)) ''metadata'');
          labels = objectRecord (oget metadata ''labels'');
          annotations = objectRecord (oget metadata ''annotations'');
          marker = oget labels RETAINED_STABLE_POOL_LABEL
      in if marker \<noteq> None \<and> marker \<noteq> Some (JStr releaseName) then (resources, failures @ [ForeignMarker kind])
         else if marker \<noteq> Some (JStr releaseName) \<and> \<not> field_is annotations KEEP_ANNOTATION KEEP_VALUE then acc
         else case is_string (oget (objectRecord labels) component_label) of
             None \<Rightarrow> (resources, failures @ [MissingPool kind])
           | Some pool \<Rightarrow>
               if pool = ''routing-service'' then (resources, failures @ [MissingPool kind])
               else (case validateStableResource (Some item) kind releaseName pool namespace True of
                   Inl e \<Rightarrow> (resources, failures @ [NotValid e])
                 | Inr resource \<Rightarrow> if pool \<in> set keepPools then acc else (resources @ [resource], failures)))"

definition retained_of_listing ::
    "(string \<Rightarrow> raw_json) \<Rightarrow> string \<Rightarrow> string \<Rightarrow> string list \<Rightarrow> stable_kind \<Rightarrow> exec_result \<Rightarrow> found \<Rightarrow> found" where
  "retained_of_listing parse releaseName namespace keepPools kind l acc =
     (let (resources, failures) = acc
      in if exitCode l \<noteq> 0 then (resources, failures @ [CouldNotList kind])
         else case parse (stdout l) of
             None \<Rightarrow> (resources, failures @ [CouldNotParse kind])
           | Some JNull \<Rightarrow> (resources, failures @ [CouldNotParse kind])
           | Some j \<Rightarrow>
               (case jget j ''items'' of
                  Some (JArr items) \<Rightarrow> foldl (classify_retained releaseName namespace keepPools kind) acc items
                | _ \<Rightarrow> (resources, failures @ [NoItems kind])))"

text \<open>Objects grouped by pool, in the order in which the pools were first seen; a second one of a kind is a failure.\<close>

type_synonym by_pool = "(string, stable_resource list) jsmap \<times> cleanup_failure list"

definition add_to_pool :: "by_pool \<Rightarrow> stable_resource \<Rightarrow> by_pool" where
  "add_to_pool acc resource =
     (let (byPool, failures) = acc;
          bucket = (case map_of byPool (sr_pool resource) of None \<Rightarrow> [] | Some b \<Rightarrow> b)
      in if list_ex (\<lambda>e. sr_kind e = sr_kind resource) bucket
         then (byPool, failures @ [Duplicate (sr_kind resource) (sr_pool resource)])
         else (jsmap_set (sr_pool resource) (bucket @ [resource]) byPool, failures))"

fun deletion_order :: "stable_kind \<Rightarrow> nat" where
  "deletion_order KBcp = 0"
| "deletion_order KHcp = 0"
| "deletion_order KPdb = 1"
| "deletion_order KService = 2"

definition delete_retained :: "string \<Rightarrow> stable_resource \<Rightarrow> command" where
  "delete_retained namespace resource =
     [''kubectl'', ''delete'', typeForKind (sr_kind resource), sr_name resource, ''-n'', namespace, ''--ignore-not-found'']"

record cleanup_result =
  cr_deleted :: "(stable_kind \<times> string) list"
  cr_failures :: "cleanup_failure list"

text \<open>The loop over one pool keeps the flag \<open>companionFailed\<close>.\<close>

definition delete_one :: "string \<Rightarrow> cleanup_result \<times> bool \<Rightarrow> stable_resource \<Rightarrow> (cleanup_result \<times> bool) io" where
  "delete_one namespace acc resource =
     (let (res, companionFailed) = acc
      in if sr_kind resource = KService \<and> companionFailed then io_return acc
         else io_bind (execCapture (delete_retained namespace resource)) (\<lambda>result.
           if exitCode result \<noteq> 0
           then io_return (res\<lparr>cr_failures := cr_failures res @ [CouldNotDelete (sr_kind resource) (sr_name resource)]\<rparr>,
                           companionFailed \<or> sr_kind resource \<noteq> KService)
           else io_return (res\<lparr>cr_deleted := cr_deleted res @ [(sr_kind resource, sr_name resource)]\<rparr>, companionFailed)))"

definition delete_pool :: "string \<Rightarrow> cleanup_result \<Rightarrow> string \<times> stable_resource list \<Rightarrow> cleanup_result io" where
  "delete_pool namespace res entry =
     io_bind (io_fold (delete_one namespace) (res, False) (sort_key (\<lambda>r. deletion_order (sr_kind r)) (snd entry)))
       (\<lambda>(res', _). io_return res')"

definition retained_kinds :: "bool \<Rightarrow> stable_kind list" where
  "retained_kinds healthCheckPolicyCrd = [KService, KPdb] @ (if healthCheckPolicyCrd then [KHcp, KBcp] else [])"

definition find_retained ::
    "(string \<Rightarrow> raw_json) \<Rightarrow> string \<Rightarrow> string \<Rightarrow> string list \<Rightarrow> bool \<Rightarrow> found io" where
  "find_retained parse releaseName namespace keepPools healthCheckPolicyCrd =
     io_fold (\<lambda>acc kind. io_bind (execCapture (list_retained releaseName namespace kind))
                (\<lambda>l. io_return (retained_of_listing parse releaseName namespace keepPools kind l acc)))
       ([], []) (retained_kinds healthCheckPolicyCrd)"

definition cleanupRetainedStablePoolResources ::
    "(string \<Rightarrow> raw_json) \<Rightarrow> string \<Rightarrow> string list \<Rightarrow> json option \<Rightarrow> bool \<Rightarrow> cleanup_result io" where
  "cleanupRetainedStablePoolResources parse releaseName keepPools namespaceOption healthCheckPolicyCrd =
     io_then (io_lift (checked (assertSafeReleaseName releaseName)))
    (io_bind (io_lift (checked (resolveK8sNamespace namespaceOption))) (\<lambda>namespace.
     io_then (io_lift (checked (res_all assertSafePoolName keepPools)))
    (io_bind (find_retained parse releaseName namespace keepPools healthCheckPolicyCrd) (\<lambda>(resources, failures).
     if failures \<noteq> [] then io_return \<lparr>cr_deleted = [], cr_failures = failures\<rparr>
     else case foldl add_to_pool ([], []) resources of (byPool, duplicates) \<Rightarrow>
       if duplicates \<noteq> [] then io_return \<lparr>cr_deleted = [], cr_failures = duplicates\<rparr>
       else io_fold (delete_pool namespace) \<lparr>cr_deleted = [], cr_failures = []\<rparr> byPool))))"

section \<open>What the cleanup may delete\<close>

text \<open>Every candidate was in the listing of its kind and passed the identity check for a pool no build has.\<close>

definition retained_candidate ::
    "(string \<Rightarrow> raw_json) \<Rightarrow> string \<Rightarrow> string \<Rightarrow> string list \<Rightarrow> world \<Rightarrow> history \<Rightarrow> stable_resource \<Rightarrow> bool" where
  "retained_candidate parse releaseName namespace keepPools w h resource \<longleftrightarrow>
     sr_pool resource \<notin> set keepPools \<and>
     (\<exists>l j items item. answered w h (list_retained releaseName namespace (sr_kind resource)) l \<and> exitCode l = 0
        \<and> parse (stdout l) = Some j \<and> jget j ''items'' = Some (JArr items) \<and> item \<in> set items
        \<and> validateStableResource (Some item) (sr_kind resource) releaseName (sr_pool resource) namespace True = Inr resource)"

lemma candidate_later: "retained_candidate parse rel ns keep w h r \<Longrightarrow> retained_candidate parse rel ns keep w (h @ cs) r"
  unfolding retained_candidate_def by blast

lemma validate_identity:
  assumes "validateStableResource v kind rel pool ns b = Inr r"
  shows "sr_kind r = kind" "sr_pool r = pool" "expectedName rel pool kind = Inr (sr_name r)"
  using assms by (auto simp: validateStableResource_def res_simps Let_def)

lemma classify_sound:
  assumes "\<forall>r \<in> set (fst acc). ok r"
    and "\<And>pool r. pool \<notin> set keep \<Longrightarrow> validateStableResource (Some item) kind rel pool ns True = Inr r \<Longrightarrow> ok r"
  shows "\<forall>r \<in> set (fst (classify_retained rel ns keep kind acc item)). ok r"
  using assms
  by (auto simp: classify_retained_def Let_def split: prod.splits option.splits sum.splits)

lemma listing_sound:
  assumes "\<forall>r \<in> set (fst acc). ok r"
    and "\<And>j items item pool r. exitCode l = 0 \<Longrightarrow> parse (stdout l) = Some j \<Longrightarrow> jget j ''items'' = Some (JArr items) \<Longrightarrow> item \<in> set items
       \<Longrightarrow> pool \<notin> set keep \<Longrightarrow> validateStableResource (Some item) kind rel pool ns True = Inr r \<Longrightarrow> ok r"
  shows "\<forall>r \<in> set (fst (retained_of_listing parse rel ns keep kind l acc)). ok r"
proof -
  have fold: "\<forall>r \<in> set (fst (foldl (classify_retained rel ns keep kind) acc items)). ok r"
    if "exitCode l = 0" "parse (stdout l) = Some j" "jget j ''items'' = Some (JArr items)" for j items
  proof -
    have "\<forall>r \<in> set (fst (foldl (classify_retained rel ns keep kind) a xs)). ok r"
      if "set xs \<subseteq> set items" "\<forall>r \<in> set (fst a). ok r" for xs a
      using that
    proof (induction xs arbitrary: a)
      case (Cons x xs)
      have "\<forall>r \<in> set (fst (classify_retained rel ns keep kind a x)). ok r"
        using Cons.prems classify_sound assms(2) [OF \<open>exitCode l = 0\<close> \<open>parse (stdout l) = Some j\<close> \<open>jget j ''items'' = Some (JArr items)\<close>]
        by (metis list.set_intros(1) subsetD)
      then show ?case using Cons by simp
    qed simp
    then show ?thesis using assms(1) by blast
  qed
  show ?thesis
    using assms(1) fold
    by (auto simp: retained_of_listing_def Let_def split: prod.splits option.splits json.splits)
qed

lemma find_retained_ok:
  "io_ok w (\<lambda>_ c. \<exists>kind. c = list_retained rel ns kind) (\<lambda>_. True) (find_retained parse rel ns keep crd)
     (\<lambda>acc h. \<forall>r \<in> set (fst acc). retained_candidate parse rel ns keep w h r) (\<lambda>_ _. True)"
proof -
  have one: "io_ok w (\<lambda>_ c. \<exists>kind. c = list_retained rel ns kind)
       (\<lambda>h. \<forall>r \<in> set (fst acc). retained_candidate parse rel ns keep w h r)
       (io_bind (execCapture (list_retained rel ns kind)) (\<lambda>l. io_return (retained_of_listing parse rel ns keep kind l acc)))
       (\<lambda>acc h. \<forall>r \<in> set (fst acc). retained_candidate parse rel ns keep w h r) (\<lambda>_ _. True)" for acc kind
  proof (rule ok_bind, rule ok_capture)
    fix h l
    assume acc: "\<forall>r \<in> set (fst acc). retained_candidate parse rel ns keep w h r" and l: "w h (list_retained rel ns kind) = Some l"
    show "\<forall>r \<in> set (fst (retained_of_listing parse rel ns keep kind l acc)).
        retained_candidate parse rel ns keep w (h @ [list_retained rel ns kind]) r"
    proof (rule listing_sound)
      show "\<forall>r \<in> set (fst acc). retained_candidate parse rel ns keep w (h @ [list_retained rel ns kind]) r"
        using acc candidate_later by blast
      fix j items item pool r
      assume "exitCode l = 0" "parse (stdout l) = Some j" "jget j ''items'' = Some (JArr items)" "item \<in> set items" "pool \<notin> set keep"
        and v: "validateStableResource (Some item) kind rel pool ns True = Inr r"
      then show "retained_candidate parse rel ns keep w (h @ [list_retained rel ns kind]) r"
        using validate_identity [OF v] answered_now [of w, OF l] unfolding retained_candidate_def by blast
    qed
  qed (auto intro: ok_return)
  show ?thesis
    unfolding find_retained_def
    by (rule ok_pre [OF ok_fold [where I = "\<lambda>acc h. \<forall>r \<in> set (fst acc). retained_candidate parse rel ns keep w h r", OF one]]) simp
qed

text \<open>Without duplicates the groups are exactly the candidates of each pool, with at most one of a kind.\<close>

definition grouped :: "stable_resource list \<Rightarrow> (string, stable_resource list) jsmap \<Rightarrow> bool" where
  "grouped rs m \<longleftrightarrow> jsmap_wf m \<and>
     (\<forall>p. case map_of m p of
        None \<Rightarrow> \<forall>r \<in> set rs. sr_pool r \<noteq> p
      | Some b \<Rightarrow> set b = {r \<in> set rs. sr_pool r = p} \<and> distinct (map sr_kind b))"

lemma add_to_pool_failures: "snd (add_to_pool acc r) = [] \<Longrightarrow> snd acc = []"
  by (auto simp: add_to_pool_def Let_def split: prod.splits if_splits)

lemma grouped_add:
  assumes "grouped rs m" "add_to_pool (m, []) r = (m', [])"
  shows "grouped (rs @ [r]) m'"
proof -
  define b where "b = (case map_of m (sr_pool r) of None \<Rightarrow> [] | Some b \<Rightarrow> b)"
  have m': "m' = jsmap_set (sr_pool r) (b @ [r]) m" and new: "\<forall>e \<in> set b. sr_kind e \<noteq> sr_kind r"
    using assms(2) by (auto simp: add_to_pool_def b_def Let_def list_ex_iff split: if_splits)
  have b: "set b = {x \<in> set rs. sr_pool x = sr_pool r}" "distinct (map sr_kind b)"
    using assms(1) unfolding grouped_def b_def by (auto split: option.splits dest!: spec [of _ "sr_pool r"])
  show ?thesis
    unfolding grouped_def m'
  proof (intro conjI allI)
    show "jsmap_wf (jsmap_set (sr_pool r) (b @ [r]) m)" using assms(1) by (simp add: grouped_def)
    fix p
    have "case map_of m p of None \<Rightarrow> \<forall>r \<in> set rs. sr_pool r \<noteq> p | Some b \<Rightarrow> set b = {r \<in> set rs. sr_pool r = p} \<and> distinct (map sr_kind b)"
      using assms(1) unfolding grouped_def by blast
    then show "case map_of (jsmap_set (sr_pool r) (b @ [r]) m) p of None \<Rightarrow> \<forall>r \<in> set (rs @ [r]). sr_pool r \<noteq> p
        | Some b \<Rightarrow> set b = {x \<in> set (rs @ [r]). sr_pool x = p} \<and> distinct (map sr_kind b)"
      using b new by (cases "p = sr_pool r") (auto split: option.splits)
  qed
qed

lemma grouped_all: "foldl add_to_pool ([], []) rs = (m, []) \<Longrightarrow> grouped rs m"
proof (induction rs arbitrary: m rule: rev_induct)
  case Nil
  then show ?case by (simp add: grouped_def)
next
  case (snoc r rs)
  obtain m0 f where before: "foldl add_to_pool ([], []) rs = (m0, f)" by fastforce
  with snoc.prems have "snd (add_to_pool (m0, f) r) = []" by simp
  then have f: "f = []" using add_to_pool_failures [of "(m0, f)" r] by simp
  with snoc.IH before have "grouped rs m0" by blast
  moreover have "add_to_pool (m0, []) r = (m, [])" using snoc.prems before f by simp
  ultimately show ?case by (rule grouped_add)
qed

text \<open>In deletion order the Service of a group comes last, after all its companions.\<close>

lemma service_last:
  assumes "distinct (map sr_kind b)" "sort_key (\<lambda>r. deletion_order (sr_kind r)) b = ys @ s # zs" "sr_kind s = KService"
  shows "zs = []" "set ys = {r \<in> set b. sr_kind r \<noteq> KService}"
proof -
  let ?o = "sort_key (\<lambda>r. deletion_order (sr_kind r)) b"
  have le: "deletion_order k \<le> 2" for k by (cases k) auto
  have two: "k = KService" if "2 \<le> deletion_order k" for k using that by (cases k) auto
  have "distinct (map sr_kind ?o)"
    using assms(1) mset_sort [of "\<lambda>r. deletion_order (sr_kind r)" b] by (metis mset_eq_imp_distinct_iff mset_map)
  then have "sr_kind s \<notin> sr_kind ` set ys" "sr_kind s \<notin> sr_kind ` set zs" using assms(2) by auto
  moreover have "sorted (map (\<lambda>r. deletion_order (sr_kind r)) ?o)" by simp
  then have "\<forall>z \<in> set zs. deletion_order (sr_kind s) \<le> deletion_order (sr_kind z)" unfolding assms(2) by (auto simp: sorted_append)
  ultimately show "zs = []" using assms(3) two by (cases zs) fastforce+
  moreover have "set b = set (ys @ s # zs)" using assms(2) by (metis set_sort)
  ultimately show "set ys = {r \<in> set b. sr_kind r \<noteq> KService}"
    using assms(3) \<open>sr_kind s \<notin> sr_kind ` set ys\<close> by (auto simp: image_iff)
qed

text \<open>
  The deletions the cleanup may run: an object of the candidates, and a Service only when the commands
  right before it deleted every companion of its pool, all of them with success.
\<close>

definition deletion_allowed :: "string \<Rightarrow> stable_resource list \<Rightarrow> world \<Rightarrow> history \<Rightarrow> command \<Rightarrow> bool" where
  "deletion_allowed ns rs w h c \<longleftrightarrow>
     (\<exists>r \<in> set rs. c = delete_retained ns r \<and>
        (sr_kind r = KService \<longrightarrow>
          (\<exists>before cs. h = before @ map (delete_retained ns) cs
             \<and> set cs = {x \<in> set rs. sr_pool x = sr_pool r \<and> sr_kind x \<noteq> KService}
             \<and> all_succeed w before (map (delete_retained ns) cs))))"

lemma delete_pool_ok:
  assumes "grouped rs m" "(p, b) \<in> set m"
  shows "io_ok w (deletion_allowed ns rs w) (\<lambda>_. True) (delete_pool ns res (p, b)) (\<lambda>_ _. True) (\<lambda>_ _. True)"
proof (rule ok_start)
  fix h :: history
  have "map_of m p = Some b" using assms unfolding grouped_def by simp
  then have b: "set b = {r \<in> set rs. sr_pool r = p}" "distinct (map sr_kind b)"
    using assms(1) unfolding grouped_def by (auto dest!: spec [of _ p])
  let ?xs = "sort_key (\<lambda>r. deletion_order (sr_kind r)) b"
  define I where "I = (\<lambda>ys (s :: cleanup_result \<times> bool) h'. (\<forall>y \<in> set ys. sr_kind y \<noteq> KService) \<longrightarrow>
      h' = h @ map (delete_retained ns) ys \<and> (\<not> snd s \<longrightarrow> all_succeed w h (map (delete_retained ns) ys)))"
  have "io_ok w (deletion_allowed ns rs w) (I [] (res, False)) (io_fold (delete_one ns) (res, False) ?xs) (I ?xs) (\<lambda>_ _. True)"
  proof (rule ok_fold_prefix)
    fix ys x zs s
    assume xs: "?xs = ys @ x # zs"
    then have "x \<in> set b" by (metis in_set_conv_decomp set_sort)
    then have x: "x \<in> set rs" "sr_pool x = p" using b by auto
    have allowed: "deletion_allowed ns rs w h' (delete_retained ns x)" if "I ys s h'" "\<not> (sr_kind x = KService \<and> snd s)" for h'
    proof (cases "sr_kind x = KService")
      case True
      then have "set ys = {r \<in> set b. sr_kind r \<noteq> KService}" using service_last(2) [OF b(2) xs] by simp
      moreover from this have "h' = h @ map (delete_retained ns) ys" "all_succeed w h (map (delete_retained ns) ys)"
        using that True unfolding I_def by auto
      ultimately show ?thesis unfolding deletion_allowed_def using x b(1) by (intro bexI [of _ x] conjI impI exI [of _ h] exI [of _ ys]) auto
    next
      case False
      then show ?thesis unfolding deletion_allowed_def using x by blast
    qed
    show "io_ok w (deletion_allowed ns rs w) (I ys s) (delete_one ns s x) (I (ys @ [x])) (\<lambda>_ _. True)"
    proof (cases "sr_kind x = KService \<and> snd s")
      case True
      then show ?thesis by (auto simp: delete_one_def I_def split: prod.splits intro!: ok_return)
    next
      case False
      have "io_ok w (deletion_allowed ns rs w) (I ys s)
         (io_bind (execCapture (delete_retained ns x)) (\<lambda>result.
            if exitCode result \<noteq> 0
            then io_return (fst s\<lparr>cr_failures := cr_failures (fst s) @ [CouldNotDelete (sr_kind x) (sr_name x)]\<rparr>, snd s \<or> sr_kind x \<noteq> KService)
            else io_return (fst s\<lparr>cr_deleted := cr_deleted (fst s) @ [(sr_kind x, sr_name x)]\<rparr>, snd s)))
         (I (ys @ [x])) (\<lambda>_ _. True)"
        by (rule ok_bind [where Q = "\<lambda>r h'. \<exists>h0. I ys s h0 \<and> h' = h0 @ [delete_retained ns x] \<and> w h0 (delete_retained ns x) = Some r"])
          (auto intro!: ok_capture ok_if ok_return allowed [OF _ False] simp: I_def)
      moreover have "delete_one ns s x = (io_bind (execCapture (delete_retained ns x)) (\<lambda>result.
            if exitCode result \<noteq> 0
            then io_return (fst s\<lparr>cr_failures := cr_failures (fst s) @ [CouldNotDelete (sr_kind x) (sr_name x)]\<rparr>, snd s \<or> sr_kind x \<noteq> KService)
            else io_return (fst s\<lparr>cr_deleted := cr_deleted (fst s) @ [(sr_kind x, sr_name x)]\<rparr>, snd s)))"
        using False by (cases s) (auto simp: delete_one_def Let_def cong: if_cong)
      ultimately show ?thesis by simp
    qed
  qed
  then show "io_ok w (deletion_allowed ns rs w) (\<lambda>h'. h' = h) (delete_pool ns res (p, b)) (\<lambda>_ _. True) (\<lambda>_ _. True)"
    unfolding delete_pool_def
    by (intro ok_bind [where Q = "\<lambda>_ _. True"]) (auto intro!: ok_return elim!: ok_conseq split: prod.splits simp: I_def)
qed

definition cleanup_allowed ::
    "(string \<Rightarrow> raw_json) \<Rightarrow> string \<Rightarrow> string list \<Rightarrow> json option \<Rightarrow> bool \<Rightarrow> world \<Rightarrow> history \<Rightarrow> history \<Rightarrow> command \<Rightarrow> bool" where
  "cleanup_allowed parse rel keep nsOpt crd w h0 h c \<longleftrightarrow>
     (\<exists>ns kind. c = list_retained rel ns kind) \<or>
     (\<exists>ns rs h1. resolveK8sNamespace nsOpt = Inr ns \<and> find_retained parse rel ns keep crd w h0 = (Inr (rs, []), h1)
        \<and> (\<forall>r \<in> set rs. retained_candidate parse rel ns keep w h r) \<and> deletion_allowed ns rs w h c)"

lemma cleanup_ok:
  "io_ok w (cleanup_allowed parse rel keep nsOpt crd w h0) (\<lambda>h. h = h0)
     (cleanupRetainedStablePoolResources parse rel keep nsOpt crd) (\<lambda>_ _. True) (\<lambda>_ _. True)"
proof -
  let ?G = "cleanup_allowed parse rel keep nsOpt crd w h0"
  have pools: "io_ok w ?G (\<lambda>h. \<forall>r \<in> set rs. retained_candidate parse rel ns keep w h r)
      (io_fold (delete_pool ns) s m) (\<lambda>_ _. True) (\<lambda>_ _. True)"
    if "resolveK8sNamespace nsOpt = Inr ns" "find_retained parse rel ns keep crd w h0 = (Inr (rs, []), h1)" "grouped rs m" for ns rs h1 m s
  proof -
    have "io_ok w (deletion_allowed ns rs w) (\<lambda>_. True) (io_fold (delete_pool ns) s m) (\<lambda>_ _. True) (\<lambda>_ _. True)"
      using delete_pool_ok [OF that(3)] ok_fold [where I = "\<lambda>_ _. True" and xs = m and f = "delete_pool ns"] by (metis surj_pair)
    from ok_frame [OF this, of "\<lambda>h. \<forall>r \<in> set rs. retained_candidate parse rel ns keep w h r"]
    have "io_ok w (\<lambda>h c. (\<forall>r \<in> set rs. retained_candidate parse rel ns keep w h r) \<and> deletion_allowed ns rs w h c)
       (\<lambda>h. \<forall>r \<in> set rs. retained_candidate parse rel ns keep w h r) (io_fold (delete_pool ns) s m) (\<lambda>_ _. True) (\<lambda>_ _. True)"
      by (rule ok_conseq) (auto intro: candidate_later)
    then show ?thesis
      by (rule ok_allow) (use that in \<open>auto simp: cleanup_allowed_def\<close>)
  qed
  have find: "io_ok w ?G (\<lambda>h. h = h0) (find_retained parse rel ns keep crd)
      (\<lambda>acc h. find_retained parse rel ns keep crd w h0 = (Inr acc, h) \<and> (\<forall>r \<in> set (fst acc). retained_candidate parse rel ns keep w h r))
      (\<lambda>_ _. True)" for ns
    by (rule ok_allow [OF ok_remember [OF find_retained_ok TrueI]]) (auto simp: cleanup_allowed_def)
  have rest: "io_ok w ?G (\<lambda>h. find_retained parse rel ns keep crd w h0 = (Inr acc, h) \<and> (\<forall>r \<in> set (fst acc). retained_candidate parse rel ns keep w h r))
      (case acc of (rs, fs) \<Rightarrow> if fs \<noteq> [] then io_return \<lparr>cr_deleted = [], cr_failures = fs\<rparr>
         else case foldl add_to_pool ([], []) rs of (m, ds) \<Rightarrow>
           if ds \<noteq> [] then io_return \<lparr>cr_deleted = [], cr_failures = ds\<rparr>
           else io_fold (delete_pool ns) \<lparr>cr_deleted = [], cr_failures = []\<rparr> m) (\<lambda>_ _. True) (\<lambda>_ _. True)"
    if ns: "resolveK8sNamespace nsOpt = Inr ns" for ns acc
  proof (rule ok_start)
    fix h1 assume run: "find_retained parse rel ns keep crd w h0 = (Inr acc, h1) \<and> (\<forall>r \<in> set (fst acc). retained_candidate parse rel ns keep w h1 r)"
    obtain rs fs where acc: "acc = (rs, fs)" by fastforce
    obtain m ds where m: "foldl add_to_pool ([], []) rs = (m, ds)" by fastforce
    have "io_ok w ?G (\<lambda>h. h = h1) (io_fold (delete_pool ns) s m) (\<lambda>_ _. True) (\<lambda>_ _. True)" if "fs = []" "ds = []" for s
      using ok_pre [OF pools [OF ns _ grouped_all]] run that acc m by auto
    then show "io_ok w ?G (\<lambda>h. h = h1) (case acc of (rs, fs) \<Rightarrow> if fs \<noteq> [] then io_return \<lparr>cr_deleted = [], cr_failures = fs\<rparr>
         else case foldl add_to_pool ([], []) rs of (m, ds) \<Rightarrow>
           if ds \<noteq> [] then io_return \<lparr>cr_deleted = [], cr_failures = ds\<rparr>
           else io_fold (delete_pool ns) \<lparr>cr_deleted = [], cr_failures = []\<rparr> m) (\<lambda>_ _. True) (\<lambda>_ _. True)"
      using acc m by (auto intro!: ok_return)
  qed
  show ?thesis
    unfolding cleanupRetainedStablePoolResources_def
  proof (rule ok_then [where Q = "\<lambda>h. h = h0"])
    show "io_ok w ?G (\<lambda>h. h = h0) (io_lift (checked (assertSafeReleaseName rel))) (\<lambda>_ h. h = h0) (\<lambda>_ _. True)"
      by (rule ok_lift) auto
    show "io_ok w ?G (\<lambda>h. h = h0) (io_bind (io_lift (checked (resolveK8sNamespace nsOpt))) (\<lambda>ns.
       io_then (io_lift (checked (res_all assertSafePoolName keep)))
        (io_bind (find_retained parse rel ns keep crd) (\<lambda>(rs, fs). if fs \<noteq> [] then io_return \<lparr>cr_deleted = [], cr_failures = fs\<rparr>
         else case foldl add_to_pool ([], []) rs of (m, ds) \<Rightarrow>
           if ds \<noteq> [] then io_return \<lparr>cr_deleted = [], cr_failures = ds\<rparr>
           else io_fold (delete_pool ns) \<lparr>cr_deleted = [], cr_failures = []\<rparr> m)))) (\<lambda>_ _. True) (\<lambda>_ _. True)"
    proof (rule ok_bind [where Q = "\<lambda>ns h. resolveK8sNamespace nsOpt = Inr ns \<and> h = h0"])
      fix ns
      show "io_ok w ?G (\<lambda>h. resolveK8sNamespace nsOpt = Inr ns \<and> h = h0)
       (io_then (io_lift (checked (res_all assertSafePoolName keep)))
        (io_bind (find_retained parse rel ns keep crd) (\<lambda>(rs, fs). if fs \<noteq> [] then io_return \<lparr>cr_deleted = [], cr_failures = fs\<rparr>
         else case foldl add_to_pool ([], []) rs of (m, ds) \<Rightarrow>
           if ds \<noteq> [] then io_return \<lparr>cr_deleted = [], cr_failures = ds\<rparr>
           else io_fold (delete_pool ns) \<lparr>cr_deleted = [], cr_failures = []\<rparr> m))) (\<lambda>_ _. True) (\<lambda>_ _. True)"
        by (rule ok_pure, rule ok_then [where Q = "\<lambda>h. h = h0"], rule ok_lift) (auto intro: ok_bind [OF find rest])
    qed (auto intro!: ok_lift simp: checked_def split: sum.splits invalid.splits)
  qed
qed

text \<open>
  C20: A deploy deletes a retained stable object only if its listing named it, its name, labels, Helm
  annotations, retention marker and selector or target all prove that it belongs to a pool of this
  release, no build in play has that pool, and nothing in any of the listings was suspicious. The
  Service of a pool goes last: the commands right before its deletion deleted every other retained
  object of the pool, and each of them succeeded.
\<close>

theorem retained_cleanup_is_conservative:
  assumes "cleanupRetainedStablePoolResources parse rel keep nsOpt crd w h = (r, h @ as @ c # bs)" "c ! 1 = ''delete''"
  shows "\<exists>ns rs h1 x. resolveK8sNamespace nsOpt = Inr ns
    \<and> find_retained parse rel ns keep crd w h = (Inr (rs, []), h1)
    \<and> x \<in> set rs \<and> c = delete_retained ns x \<and> retained_candidate parse rel ns keep w (h @ as) x
    \<and> (sr_kind x = KService \<longrightarrow> (\<exists>before cs. h @ as = before @ map (delete_retained ns) cs
        \<and> set cs = {y \<in> set rs. sr_pool y = sr_pool x \<and> sr_kind y \<noteq> KService}
        \<and> all_succeed w before (map (delete_retained ns) cs)))"
proof -
  have "cleanup_allowed parse rel keep nsOpt crd w h (h @ as) c"
    using ok_run [OF cleanup_ok refl assms(1)] .
  moreover have "\<not> (\<exists>ns kind. c = list_retained rel ns kind)" using assms(2) by (auto simp: list_retained_def)
  ultimately show ?thesis unfolding cleanup_allowed_def deletion_allowed_def by blast
qed

section \<open>A run\<close>

definition demo_object :: "string \<Rightarrow> (string \<times> json) list \<Rightarrow> json" where
  "demo_object name spec = JObj
     [(''metadata'', JObj [(''name'', JStr name), (''resourceVersion'', JStr ''7''),
        (''labels'', JObj [(name_label, JStr ''shop''), (component_label, JStr ''api''),
            (RETAINED_STABLE_POOL_LABEL, JStr ''shop''), (ADAPTER_RELEASE_LABEL, JStr ''shop'')]),
        (''annotations'', JObj [(''meta.helm.sh/release-name'', JStr ''shop''), (''meta.helm.sh/release-namespace'', JStr ''web'')])]),
      (''spec'', JObj spec)]"

definition demo_selector :: json where
  "demo_selector = JObj [(name_label, JStr ''shop''), (component_label, JStr ''api'')]"

definition demo_parse :: "string \<Rightarrow> raw_json" where
  "demo_parse s = (if s = ''S'' then Some (JObj [(''items'', JArr [demo_object ''shop-api'' [(''selector'', demo_selector)]])])
     else if s = ''P'' then Some (JObj [(''items'', JArr [demo_object ''shop-api-pdb'' [(''selector'', JObj [(''matchLabels'', demo_selector)])]])])
     else None)"

definition demo_world :: world where
  "demo_world h c = Some \<lparr>exitCode = 0, stdout = (if c ! 1 = ''delete'' then [] else if c ! 2 = ''service'' then ''S'' else ''P''), stderr = []\<rparr>"

lemma demo_cleanup:
  "cleanupRetainedStablePoolResources demo_parse ''shop'' [''web''] (Some (JStr ''web'')) False demo_world [] =
     (Inr \<lparr>cr_deleted = [(KPdb, ''shop-api-pdb''), (KService, ''shop-api'')], cr_failures = []\<rparr>,
      [list_retained ''shop'' ''web'' KService, list_retained ''shop'' ''web'' KPdb,
       [''kubectl'', ''delete'', ''poddisruptionbudget'', ''shop-api-pdb'', ''-n'', ''web'', ''--ignore-not-found''],
       [''kubectl'', ''delete'', ''service'', ''shop-api'', ''-n'', ''web'', ''--ignore-not-found'']])"
  by code_simp

theorem retained_cleanup_is_conservative_witness:
  "\<exists>x. sr_kind x = KService \<and> [''kubectl'', ''delete'', ''service'', ''shop-api'', ''-n'', ''web'', ''--ignore-not-found''] = delete_retained ''web'' x
     \<and> sr_pool x \<notin> {''web''}"
proof -
  define c where "c = [''kubectl'', ''delete'', ''service'', ''shop-api'', ''-n'', ''web'', ''--ignore-not-found'']"
  define ns where "ns = Some (JStr ''web'')"
  obtain r as where run: "cleanupRetainedStablePoolResources demo_parse ''shop'' [''web''] ns False demo_world [] = (r, [] @ as @ c # [])"
    using demo_cleanup unfolding c_def ns_def by (metis append_Cons append_Nil)
  have web: "resolveK8sNamespace ns = Inr ''web''" unfolding ns_def by code_simp
  have "c ! 1 = ''delete''" by (simp add: c_def)
  from retained_cleanup_is_conservative [OF run this] obtain x where x: "c = delete_retained ''web'' x" "sr_pool x \<notin> set [''web'']"
    unfolding web retained_candidate_def by blast
  then have "typeForKind (sr_kind x) = ''service''" by (simp add: delete_retained_def c_def)
  then have "sr_kind x = KService" by (cases "sr_kind x") simp_all
  with x show ?thesis unfolding c_def by auto
qed

end
