(* ===== verification/Gc.thy ===== *)
theory Gc
  imports StablePools Names Decimal
begin

text \<open>
  \<^verbatim>\<open>src/cutover/gc.ts\<close>: parking the previous build, deleting what neither build in play needs, and the
  capacity a rollback brings its target back with. The commands run \<^verbatim>\<open>kubectl\<close>; what it answers is the
  world of theory \<open>Exec\<close>. \<open>sha\<close> is the SHA-256 hex digest, \<open>parse\<close> is \<open>JSON.parse\<close> of a text, and
  \<open>text\<close> is the text JavaScript makes of a value that is not a string where one is expected.
\<close>

section \<open>Names\<close>

definition routingServiceDeploymentName :: "string \<Rightarrow> string" where
  "routingServiceDeploymentName releaseName = sanitizeK8sName (releaseName @ ''-routing-service'') []"

definition routeExtJobName :: "(string \<Rightarrow> string) \<Rightarrow> string \<Rightarrow> string \<Rightarrow> string" where
  "routeExtJobName sha releaseName buildId = releaseName @ ''-route-ext-'' @ js_slice (sha buildId) 0 12"

definition compositionPlanConfigMapName :: "string \<Rightarrow> string \<Rightarrow> string" where
  "compositionPlanConfigMapName releaseName buildId = compositionPlanResourceName releaseName buildId"

definition emitMetadataConfigMapName :: "(string \<Rightarrow> string) \<Rightarrow> string \<Rightarrow> string \<Rightarrow> string" where
  "emitMetadataConfigMapName sha releaseName buildId =
     sanitizeK8sName (releaseName @ ''-emit-meta-'' @ buildId) (''-'' @ js_slice (sha buildId) 0 8)"

definition internalSecretName :: "(string \<Rightarrow> string) \<Rightarrow> string \<Rightarrow> string \<Rightarrow> string" where
  "internalSecretName sha releaseName buildId =
     sanitizeK8sName (releaseName @ ''-ihs-'' @ buildId) (''-'' @ js_slice (sha buildId) 0 8)"

definition retentionName :: "(string \<Rightarrow> string) \<Rightarrow> string \<Rightarrow> string option \<Rightarrow> thrown + string" where
  "retentionName sha release buildId =
     res_bind (checked (assertSafeReleaseName release)) (\<lambda>_.
     res_bind (case buildId of None \<Rightarrow> Inr () | Some b \<Rightarrow> checked (assertSafeBuildIdName b)) (\<lambda>_.
     Inr (js_slice release 0 27 @ ''-retention-''
          @ js_slice (sha (release @ CHR 0x00 # (case buildId of None \<Rightarrow> ''index'' | Some b \<Rightarrow> ''build'' @ CHR 0x00 # b))) 0 12)))"

section \<open>Commands\<close>

definition names_jsonpath :: string where
  "names_jsonpath = ''jsonpath={range .items[*]}{.metadata.name}{'' @ [CHR 0x22, CHR 0x5C] @ ''n'' @ [CHR 0x22] @ ''}{end}''"

definition list_names :: "string \<Rightarrow> string \<Rightarrow> string \<Rightarrow> string \<Rightarrow> command" where
  "list_names kind namespace releaseName component =
     [''kubectl'', ''get'', kind, ''-n'', namespace, ''-l'',
      name_label @ ''='' @ releaseName @ '','' @ component_label @ ''='' @ component, ''-o'', names_jsonpath]"

definition list_deployments :: "string \<Rightarrow> string \<Rightarrow> command" where
  "list_deployments namespace releaseName =
     [''kubectl'', ''get'', ''deployments'', ''-n'', namespace, ''-l'', name_label @ ''='' @ releaseName, ''-o'', ''json'']"

definition list_inventories :: "string \<Rightarrow> string \<Rightarrow> command" where
  "list_inventories namespace releaseName =
     [''kubectl'', ''get'', ''configmaps'', ''-n'', namespace, ''-l'',
      name_label @ ''='' @ releaseName @ '','' @ component_label @ ''=retained-build-inventory'', ''-o'', ''json'']"

definition delete_cmd :: "string \<Rightarrow> string \<Rightarrow> string \<Rightarrow> command" where
  "delete_cmd kind namespace name = [''kubectl'', ''delete'', kind, name, ''-n'', namespace]"

definition delete_present_cmd :: "string \<Rightarrow> string \<Rightarrow> string \<Rightarrow> command" where
  "delete_present_cmd kind namespace name = [''kubectl'', ''delete'', kind, name, ''-n'', namespace, ''--ignore-not-found'']"

definition scale_cmd :: "string \<Rightarrow> string \<Rightarrow> int \<Rightarrow> command" where
  "scale_cmd namespace name replicas =
     [''kubectl'', ''scale'', ''deployment/'' @ name, ''-n'', namespace,
      ''--replicas='' @ int_dec replicas]"

section \<open>Companions of a versioned Deployment\<close>

datatype companion_kind = CompanionService | CompanionHealthCheckPolicy

fun companion_type :: "companion_kind \<Rightarrow> string" where
  "companion_type CompanionService = ''service''"
| "companion_type CompanionHealthCheckPolicy = ''healthcheckpolicy''"

record companion =
  co_kind :: companion_kind
  co_name :: string
  co_namespace :: string
  co_release :: string
  co_pool :: string
  co_build :: string
  co_service :: string

definition get_companion :: "companion \<Rightarrow> command" where
  "get_companion o1 = [''kubectl'', ''get'', companion_type (co_kind o1), co_name o1, ''-n'', co_namespace o1, ''--ignore-not-found'', ''-o'', ''json'']"

definition companion_identity :: "companion \<Rightarrow> json option \<Rightarrow> bool" where
  "companion_identity o1 object =
     (let metadata = objectRecord (oget object ''metadata'');
          labels = objectRecord (oget metadata ''labels'');
          spec = objectRecord (oget object ''spec'');
          version = sanitizeK8sName (co_build o1) [];
          commonIdentityMatches = field_is metadata ''name'' (co_name o1)
            \<and> field_is labels ADAPTER_RELEASE_LABEL (co_release o1)
            \<and> field_is labels name_label (co_release o1)
            \<and> field_is labels component_label (co_pool o1)
            \<and> field_is labels version_label version;
          kindIdentityMatches = (case co_kind o1 of
              CompanionService \<Rightarrow>
                (let selector = objectRecord (oget spec ''selector'')
                 in field_is selector name_label (co_release o1) \<and> field_is selector component_label (co_pool o1)
                    \<and> field_is selector version_label version)
            | CompanionHealthCheckPolicy \<Rightarrow>
                (let targetRef = objectRecord (oget spec ''targetRef'')
                 in field_is targetRef ''group'' [] \<and> field_is targetRef ''kind'' ''Service''
                    \<and> field_is targetRef ''name'' (co_service o1)))
      in commonIdentityMatches \<and> kindIdentityMatches)"

definition deleteOwnedVersionedCompanion :: "(string \<Rightarrow> raw_json) \<Rightarrow> companion \<Rightarrow> unit io" where
  "deleteOwnedVersionedCompanion parse o1 =
     io_bind (io_catch (io_bind (execCapture (get_companion o1)) (\<lambda>r. io_return (Some r))) (\<lambda>_. io_return None)) (\<lambda>read.
       case read of
         None \<Rightarrow> io_return ()
       | Some r \<Rightarrow>
           if exitCode r \<noteq> 0 then io_return ()
           else if js_trim (stdout r) = [] then io_return ()
           else if \<not> companion_identity o1 (objectRecord (parse (stdout r))) then io_return ()
           else io_catch (io_bind (execCapture (delete_present_cmd (companion_type (co_kind o1)) (co_namespace o1) (co_name o1)))
                                  (\<lambda>_. io_return ())) (\<lambda>_. io_return ()))"

section \<open>Parking the previous build\<close>

definition truthy_build :: "string option \<Rightarrow> string option" where
  "truthy_build b = (case b of Some (c # cs) \<Rightarrow> Some (c # cs) | _ \<Rightarrow> None)"

definition scaleDownPreviousBuild ::
    "string \<Rightarrow> string \<Rightarrow> string \<Rightarrow> string option \<Rightarrow> string list \<Rightarrow> int option \<Rightarrow> unit io" where
  "scaleDownPreviousBuild releaseName namespace buildId previousBuildId previousPools replicasOption =
     (let replicas = (case replicasOption of None \<Rightarrow> 0 | Some n \<Rightarrow> n)
      in case truthy_build previousBuildId of
           None \<Rightarrow> io_return ()
         | Some previous \<Rightarrow>
             if previous = buildId then io_return ()
             else io_each (\<lambda>poolName.
               let names = poolResourceNames releaseName poolName previous
               in io_bind (execCapture (delete_present_cmd ''hpa'' namespace (hpa names))) (\<lambda>hpaDelete.
                    if exitCode hpaDelete \<noteq> 0 then io_return ()
                    else io_bind (execCapture (scale_cmd namespace (deployment names) replicas)) (\<lambda>_. io_return ())))
               previousPools)"

record pool_deploy =
  pd_pool :: string
  pd_name :: string
  pd_hpa :: string

definition scaleDownCurrentBuild :: "string \<Rightarrow> pool_deploy list \<Rightarrow> int option \<Rightarrow> unit io" where
  "scaleDownCurrentBuild namespace currentDeploys replicasOption =
     io_each (\<lambda>d. io_bind (execOrThrow (delete_present_cmd ''hpa'' namespace (pd_hpa d))) (\<lambda>_.
                  io_bind (execOrThrow (scale_cmd namespace (pd_name d) (case replicasOption of None \<Rightarrow> 0 | Some n \<Rightarrow> n))) (\<lambda>_.
                  io_return ()))) currentDeploys"

section \<open>Superseded objects\<close>

record gc_opts =
  gc_releaseName :: string
  gc_namespace :: string
  gc_buildId :: string
  gc_previousBuildId :: "string option"
  gc_pools :: "string list"
  gc_previousPools :: "string list"
  gc_hasPortableOrigin :: bool
  gc_hasHealthCheckPolicy :: bool

definition currentDeployNames :: "gc_opts \<Rightarrow> string list" where
  "currentDeployNames opts = map (\<lambda>p. sanitizeK8sName (gc_releaseName opts @ ''-'' @ p @ ''-'' @ gc_buildId opts) []) (gc_pools opts)"

definition previousDeployNames :: "gc_opts \<Rightarrow> string list" where
  "previousDeployNames opts =
     (case truthy_build (gc_previousBuildId opts) of
        None \<Rightarrow> []
      | Some previous \<Rightarrow> map (\<lambda>p. sanitizeK8sName (gc_releaseName opts @ ''-'' @ p @ ''-'' @ previous) []) (gc_previousPools opts))"

definition env_value :: "json option \<Rightarrow> string \<Rightarrow> thrown + json option" where
  "env_value poolContainer envName =
     res_bind (js_ofind (named envName) (oget poolContainer ''env'')) (\<lambda>entry. Inr (oget entry ''value''))"

text \<open>What the loop makes of one listed Deployment: kept, or deleted with its pool and build id.\<close>

datatype gc_verdict = KeepDeployment | DeleteDeployment (dd_name: string) (dd_pool: string) (dd_build: string)

definition owned_verdict ::
    "string \<Rightarrow> json \<Rightarrow> json option \<Rightarrow> json option \<Rightarrow> json option \<Rightarrow> json option \<Rightarrow> gc_verdict" where
  "owned_verdict releaseName labels name rawBuildId poolName templateRelease =
     (case (is_string rawBuildId, is_string poolName, is_string name) of
        (Some raw, Some pool, Some n) \<Rightarrow>
          let owned = (jget labels ADAPTER_RELEASE_LABEL = Some (JStr releaseName)
                \<and> jget labels name_label = Some (JStr releaseName)
                \<and> raw \<noteq> [] \<and> pool \<noteq> []
                \<and> templateRelease = Some (JStr releaseName)
                \<and> jget labels component_label = Some (JStr pool)
                \<and> jget labels version_label = Some (JStr (sanitizeK8sName raw [])))
          in if owned \<and> deployment (poolResourceNames releaseName pool raw) = n
             then DeleteDeployment n pool raw else KeepDeployment
      | _ \<Rightarrow> KeepDeployment)"

definition classify_deployment :: "gc_opts \<Rightarrow> json \<Rightarrow> thrown + gc_verdict" where
  "classify_deployment opts deploy =
     res_bind (js_prop (Some deploy) ''metadata'') (\<lambda>metadata.
     let name = oget metadata ''name''; releaseName = gc_releaseName opts
     in if js_falsy name \<or> name = Some (JStr (routingServiceDeploymentName releaseName)) then Inr KeepDeployment
        else if name \<in> set (map (Some \<circ> JStr) (currentDeployNames opts)) then Inr KeepDeployment
        else if name \<in> set (map (Some \<circ> JStr) (previousDeployNames opts)) then Inr KeepDeployment
        else if truthy_build (gc_previousBuildId opts) = None then Inr KeepDeployment
        else
          let labels = js_default (oget metadata ''labels'') (JObj [])
          in res_bind (js_ofind (named ''pool-server'')
               (oget (oget (oget (oget (Some deploy) ''spec'') ''template'') ''spec'') ''containers'')) (\<lambda>poolContainer.
             res_bind (env_value poolContainer ''NEXT_BUILD_ID'') (\<lambda>rawBuildId.
             res_bind (env_value poolContainer ''POOL_NAME'') (\<lambda>poolName.
             res_bind (env_value poolContainer ''RELEASE_NAME'') (\<lambda>templateRelease.
             Inr (owned_verdict releaseName labels name rawBuildId poolName templateRelease))))))"

definition collect_deployment :: "(string \<Rightarrow> raw_json) \<Rightarrow> gc_opts \<Rightarrow> json \<Rightarrow> unit io" where
  "collect_deployment parse opts deploy =
     io_bind (io_lift (classify_deployment opts deploy)) (\<lambda>verdict.
       case verdict of
         KeepDeployment \<Rightarrow> io_return ()
       | DeleteDeployment name poolName rawBuildId \<Rightarrow>
           let companion = (\<lambda>kind cname. \<lparr>co_kind = kind, co_name = cname, co_namespace = gc_namespace opts, co_release = gc_releaseName opts,
                 co_pool = poolName, co_build = rawBuildId, co_service = name\<rparr>)
           in io_bind (execCapture (delete_cmd ''deployment'' (gc_namespace opts) name)) (\<lambda>_.
              io_bind (deleteOwnedVersionedCompanion parse (companion CompanionService name)) (\<lambda>_.
              if gc_hasHealthCheckPolicy opts
              then deleteOwnedVersionedCompanion parse
                     (companion CompanionHealthCheckPolicy (hcp (poolResourceNames (gc_releaseName opts) poolName rawBuildId)))
              else io_return ())))"

definition listed_deployments :: "(string \<Rightarrow> raw_json) \<Rightarrow> exec_result \<Rightarrow> json list" where
  "listed_deployments parse r =
     (case parse (stdout r) of
        None \<Rightarrow> []
      | Some j \<Rightarrow> (case jget j ''items'' of Some (JArr items) \<Rightarrow> items | _ \<Rightarrow> []))"

definition collect_deployments :: "(string \<Rightarrow> raw_json) \<Rightarrow> gc_opts \<Rightarrow> unit io" where
  "collect_deployments parse opts =
     io_bind (execCapture (list_deployments (gc_namespace opts) (gc_releaseName opts))) (\<lambda>allDeploys.
       if exitCode allDeploys = 0 \<and> js_trim (stdout allDeploys) \<noteq> []
       then io_each (collect_deployment parse opts) (listed_deployments parse allDeploys) else io_return ())"

text \<open>A sweep: list names by label, delete every one that is not kept.\<close>

definition sweep :: "command \<Rightarrow> (string \<Rightarrow> bool) \<Rightarrow> (string \<Rightarrow> command) \<Rightarrow> unit io" where
  "sweep listing kept deletion =
     io_bind (execCapture listing) (\<lambda>l.
       if exitCode l = 0
       then io_each (\<lambda>name. if name = [] \<or> kept name then io_return ()
                            else io_bind (execCapture (deletion name)) (\<lambda>_. io_return ()))
              (js_split (CHR 0x0A) (js_trim (stdout l)))
       else io_return ())"

definition sweep_jobs :: "(string \<Rightarrow> string) \<Rightarrow> gc_opts \<Rightarrow> unit io" where
  "sweep_jobs sha opts =
     sweep (list_names ''jobs'' (gc_namespace opts) (gc_releaseName opts) ''route-ext-job'')
       (\<lambda>name. name = routeExtJobName sha (gc_releaseName opts) (gc_buildId opts))
       (delete_cmd ''job'' (gc_namespace opts))"

definition ROUTING_MANIFEST_SNAPSHOT_COMPONENT :: string where
  "ROUTING_MANIFEST_SNAPSHOT_COMPONENT = ''routing-manifest-snapshot''"

definition COMPOSITION_PLAN_COMPONENT :: string where
  "COMPOSITION_PLAN_COMPONENT = ''composition-plan''"

definition EMIT_METADATA_COMPONENT :: string where
  "EMIT_METADATA_COMPONENT = ''emit-metadata''"

definition INTERNAL_SECRET_COMPONENT :: string where
  "INTERNAL_SECRET_COMPONENT = ''internal-secret''"

text \<open>A ConfigMap sweep keeps the names of the two builds in play.\<close>

definition sweep_configmaps :: "gc_opts \<Rightarrow> string \<Rightarrow> (string \<Rightarrow> string) \<Rightarrow> string \<Rightarrow> unit io" where
  "sweep_configmaps opts component name_for previous =
     sweep (list_names ''configmaps'' (gc_namespace opts) (gc_releaseName opts) component)
       (\<lambda>name. name \<in> {name_for (gc_buildId opts), name_for previous})
       (delete_cmd ''configmap'' (gc_namespace opts))"

text \<open>One retention inventory; an error stops the loop, which is inside a \<open>try\<close>.\<close>

definition collect_inventory ::
    "(string \<Rightarrow> string) \<Rightarrow> (string \<Rightarrow> raw_json) \<Rightarrow> (json \<Rightarrow> string) \<Rightarrow> gc_opts \<Rightarrow> string \<Rightarrow> json \<Rightarrow> unit io" where
  "collect_inventory sha parse text opts previous object =
     io_bind (io_lift (js_prop (Some object) ''data'')) (\<lambda>data.
       let source = js_default (oget data ''inventory.json'') (JStr ''null'');
           as_text = (\<lambda>v. case v of JStr s \<Rightarrow> s | _ \<Rightarrow> text v)
       in case parse (as_text source) of
            None \<Rightarrow> io_throw (Thrown ''SyntaxError'')
          | Some parsed \<Rightarrow>
              (case jget parsed ''buildId'' of
                 None \<Rightarrow> io_return ()
               | Some b \<Rightarrow>
                   if js_falsy (Some b) \<or> b = JStr (gc_buildId opts) \<or> b = JStr previous then io_return ()
                   else io_bind (io_lift (js_prop (Some object) ''metadata'')) (\<lambda>metadata.
                        io_bind (io_lift (retentionName sha (gc_releaseName opts) (Some (as_text b)))) (\<lambda>wanted.
                        if field_is metadata ''name'' wanted \<and> field_is (oget metadata ''labels'') name_label (gc_releaseName opts)
                        then io_bind (execCapture (delete_cmd ''configmap'' (gc_namespace opts) wanted)) (\<lambda>_. io_return ())
                        else io_return ()))))"

definition sweep_inventories ::
    "(string \<Rightarrow> string) \<Rightarrow> (string \<Rightarrow> raw_json) \<Rightarrow> (json \<Rightarrow> string) \<Rightarrow> gc_opts \<Rightarrow> string \<Rightarrow> unit io" where
  "sweep_inventories sha parse text opts previous =
     io_bind (execCapture (list_inventories (gc_namespace opts) (gc_releaseName opts))) (\<lambda>l.
       if exitCode l = 0 \<and> js_trim (stdout l) \<noteq> []
       then io_catch (io_each (collect_inventory sha parse text opts previous) (listed_deployments parse l)) (\<lambda>_. io_return ())
       else io_return ())"

section \<open>Dispatch Secrets\<close>

fun res_collect :: "('a \<Rightarrow> thrown + 'b list) \<Rightarrow> 'a list \<Rightarrow> thrown + 'b list" where
  "res_collect f [] = Inr []"
| "res_collect f (x # xs) = res_bind (f x) (\<lambda>ys. res_bind (res_collect f xs) (\<lambda>zs. Inr (ys @ zs)))"

text \<open>\<open>(v ?? []).flatMap(f)\<close>.\<close>

definition flat_map_over :: "json option \<Rightarrow> (json \<Rightarrow> thrown + 'b list) \<Rightarrow> thrown + 'b list" where
  "flat_map_over v f = (case js_default v (JArr []) of JArr xs \<Rightarrow> res_collect f xs | _ \<Rightarrow> Inl TypeError)"

definition secret_refs_of_container :: "json \<Rightarrow> thrown + string list" where
  "secret_refs_of_container c =
     res_bind (js_prop (Some c) ''env'') (\<lambda>env.
       flat_map_over env (\<lambda>e. res_bind (js_prop (Some e) ''valueFrom'') (\<lambda>v.
         Inr (case oget (oget v ''secretKeyRef'') ''name'' of Some (JStr s) \<Rightarrow> (if s = [] then [] else [s]) | _ \<Rightarrow> []))))"

definition secret_refs_of_deployment :: "json \<Rightarrow> thrown + string list" where
  "secret_refs_of_deployment d =
     res_bind (js_prop (Some d) ''spec'') (\<lambda>spec.
       flat_map_over (oget (oget (oget spec ''template'') ''spec'') ''containers'') secret_refs_of_container)"

definition referenced_secrets ::
    "(string \<Rightarrow> string) \<Rightarrow> (string \<Rightarrow> raw_json) \<Rightarrow> gc_opts \<Rightarrow> exec_result \<Rightarrow> string list option" where
  "referenced_secrets sha parse opts r =
     (if exitCode r = 0 \<and> js_trim (stdout r) \<noteq> [] then
        (case parse (stdout r) of
           None \<Rightarrow> None
         | Some parsed \<Rightarrow>
             (case res_bind (js_prop (Some parsed) ''items'') (\<lambda>items. flat_map_over items secret_refs_of_deployment) of
                Inl _ \<Rightarrow> None
              | Inr refs \<Rightarrow> Some (refs @ [internalSecretName sha (gc_releaseName opts) (gc_buildId opts)] @
                  (case truthy_build (gc_previousBuildId opts) of
                     None \<Rightarrow> [] | Some previous \<Rightarrow> [internalSecretName sha (gc_releaseName opts) previous]))))
      else None)"

definition sweep_secrets :: "(string \<Rightarrow> string) \<Rightarrow> (string \<Rightarrow> raw_json) \<Rightarrow> gc_opts \<Rightarrow> unit io" where
  "sweep_secrets sha parse opts =
     io_bind (execCapture (list_deployments (gc_namespace opts) (gc_releaseName opts))) (\<lambda>deploySpecs.
       case referenced_secrets sha parse opts deploySpecs of
         None \<Rightarrow> io_return ()
       | Some referenced \<Rightarrow>
           sweep (list_names ''secrets'' (gc_namespace opts) (gc_releaseName opts) INTERNAL_SECRET_COMPONENT)
             (\<lambda>name. name \<in> set referenced) (delete_cmd ''secret'' (gc_namespace opts)))"

section \<open>The whole collection\<close>

definition gcSupersededResources ::
    "(string \<Rightarrow> string) \<Rightarrow> (string \<Rightarrow> raw_json) \<Rightarrow> (json \<Rightarrow> string) \<Rightarrow> gc_opts \<Rightarrow> unit io" where
  "gcSupersededResources sha parse text opts =
     (let releaseName = gc_releaseName opts
      in io_then (collect_deployments parse opts)
        (io_then (io_catch (io_bind (cleanupRetainedStablePoolResources parse releaseName (gc_pools opts @ gc_previousPools opts)
                     (Some (JStr (gc_namespace opts))) (gc_hasHealthCheckPolicy opts)) (\<lambda>_. io_return ())) (\<lambda>_. io_return ()))
        (io_then (sweep_jobs sha opts)
        (io_then (case truthy_build (gc_previousBuildId opts) of
             None \<Rightarrow> io_return ()
           | Some previous \<Rightarrow>
               io_then (sweep_inventories sha parse text opts previous)
              (io_then (sweep_configmaps opts ROUTING_MANIFEST_SNAPSHOT_COMPONENT (routingManifestSnapshotName sha releaseName) previous)
              (io_then (if gc_hasPortableOrigin opts
                        then sweep_configmaps opts COMPOSITION_PLAN_COMPONENT (compositionPlanConfigMapName releaseName) previous
                        else io_return ())
                       (sweep_configmaps opts EMIT_METADATA_COMPONENT (emitMetadataConfigMapName sha releaseName) previous))))
          (sweep_secrets sha parse opts)))))"

section \<open>Capacity of a rollback\<close>

definition ROLLBACK_MIN_REPLICAS :: int where
  "ROLLBACK_MIN_REPLICAS = 2"

record live_capacity =
  specReplicas :: "int option"
  readyReplicas :: "int option"
  hpaDesired :: "int option"
  hpaMax :: "int option"

record scaling =
  sc_min :: int
  sc_max :: int
  sc_targetCPU :: int

record capacity_plan =
  cp_replicas :: int
  cp_min :: int
  cp_max :: int

definition or_zero :: "int option \<Rightarrow> int" where
  "or_zero v = (case v of None \<Rightarrow> 0 | Some n \<Rightarrow> n)"

definition planRollbackCapacity :: "live_capacity \<Rightarrow> scaling \<Rightarrow> capacity_plan" where
  "planRollbackCapacity observed s =
     (let live = max (max (or_zero (specReplicas observed)) (or_zero (readyReplicas observed))) (or_zero (hpaDesired observed));
          replicas = max (max ROLLBACK_MIN_REPLICAS (sc_min s)) live
      in \<lparr>cp_replicas = replicas, cp_min = replicas, cp_max = max (max (sc_max s) (or_zero (hpaMax observed))) replicas\<rparr>)"

text \<open>
  \<open>parseInt(text, 10)\<close>: white space, a sign and the longest run of digits; \<open>None\<close> is \<open>NaN\<close>. Exact for
  numbers below \<open>2 ^ 53\<close>, which replica counts, 32-bit integers of the Kubernetes API, are.
\<close>

definition digits_value :: "string \<Rightarrow> nat" where
  "digits_value ds = foldl (\<lambda>n c. 10 * n + (of_char c - 48)) 0 ds"

definition js_parse_int :: "string \<Rightarrow> int option" where
  "js_parse_int s =
     (let t = dropWhile js_space s;
          (neg, u) = (case t of c # r \<Rightarrow> if c = CHR ''-'' then (True, r) else if c = CHR ''+'' then (False, r) else (False, t) | [] \<Rightarrow> (False, t));
          ds = takeWhile dec_digit u
      in if ds = [] then None else Some (if neg then - int (digits_value ds) else int (digits_value ds)))"

text \<open>The answer \<^verbatim>\<open>name|a|b\<close> of one read; without a name the object does not exist.\<close>

definition read_counts :: "exec_result \<Rightarrow> int option \<times> int option" where
  "read_counts r =
     (let parts = js_split (CHR ''|'') (js_trim (stdout r));
          part = (\<lambda>i. if i < length parts then parts ! i else [])
      in if part 0 = [] then (None, None) else (js_parse_int (part 1), js_parse_int (part 2)))"

definition capacity_get :: "string \<Rightarrow> string \<Rightarrow> string \<Rightarrow> string \<Rightarrow> command" where
  "capacity_get kind name namespace path =
     [''kubectl'', ''get'', kind, name, ''-n'', namespace, ''--ignore-not-found'', ''-o'', path]"

definition readLiveCapacity :: "string \<Rightarrow> string \<Rightarrow> string \<Rightarrow> string \<Rightarrow> (live_capacity \<times> string list) io" where
  "readLiveCapacity releaseName pool currentBuildId namespace =
     (let names = poolResourceNames releaseName pool currentBuildId
      in io_bind (execCapture (capacity_get ''deployment'' (deployment names) namespace
             ''jsonpath={.metadata.name}|{.spec.replicas}|{.status.readyReplicas}'')) (\<lambda>dep.
         io_bind (execCapture (capacity_get ''hpa'' (hpa names) namespace
             ''jsonpath={.metadata.name}|{.status.desiredReplicas}|{.spec.maxReplicas}'')) (\<lambda>hpaRes.
         let (spec, ready) = (if exitCode dep \<noteq> 0 then (None, None) else read_counts dep);
             (desired, top) = (if exitCode hpaRes \<noteq> 0 then (None, None) else read_counts hpaRes)
         in io_return (\<lparr>specReplicas = spec, readyReplicas = ready, hpaDesired = desired, hpaMax = top\<rparr>,
              (if exitCode dep \<noteq> 0 then [''deployment '' @ deployment names] else [])
              @ (if exitCode hpaRes \<noteq> 0 then [''hpa '' @ hpa names] else [])))))"

section \<open>What the collection may delete\<close>

definition lines_of :: "exec_result \<Rightarrow> string list" where
  "lines_of l = js_split (CHR 0x0A) (js_trim (stdout l))"

lemma sweep_ok:
  assumes "lasting K" "\<And>h. K h \<Longrightarrow> G h listing"
    and "\<And>h l name. K h \<Longrightarrow> answered w h listing l \<Longrightarrow> name \<in> set (lines_of l) \<Longrightarrow> \<not> kept name \<Longrightarrow> G h (deletion name)"
  shows "io_ok w G K (sweep listing kept deletion) (\<lambda>_. K) (\<lambda>_. K)"
proof -
  have one: "io_ok w G (\<lambda>h. K h \<and> answered w h listing l)
      (if name = [] \<or> kept name then io_return () else io_bind (execCapture (deletion name)) (\<lambda>_. io_return ()))
      (\<lambda>_ h. K h \<and> answered w h listing l) (\<lambda>_. K)" if "name \<in> set (lines_of l)" for l name
  proof (rule ok_if)
    assume "\<not> (name = [] \<or> kept name)"
    then have "io_ok w G (\<lambda>h. K h \<and> answered w h listing l) (io_bind (execCapture (deletion name)) (\<lambda>_. io_return ()))
        (\<lambda>_ h. K h \<and> answered w h listing l) (\<lambda>_ h. K h \<and> answered w h listing l)"
      using assms that by (intro ok_run_it) auto
    then show "io_ok w G (\<lambda>h. K h \<and> answered w h listing l) (io_bind (execCapture (deletion name)) (\<lambda>_. io_return ()))
        (\<lambda>_ h. K h \<and> answered w h listing l) (\<lambda>_. K)" by (rule ok_conseq) auto
  qed (auto intro: ok_return)
  have "io_ok w G (\<lambda>h. K h \<and> answered w h listing l)
      (io_each (\<lambda>name. if name = [] \<or> kept name then io_return () else io_bind (execCapture (deletion name)) (\<lambda>_. io_return ())) (lines_of l))
      (\<lambda>_. K) (\<lambda>_. K)" for l
    by (rule ok_conseq [OF ok_each [OF one]]) auto
  then show ?thesis
    unfolding sweep_def lines_of_def
    by (intro ok_bind [OF ok_ask [of K G listing w, OF assms(2,1)]] ok_if) (auto intro: ok_return)
qed

text \<open>A Deployment the collection may delete, by the list it read.\<close>

definition deletable :: "(string \<Rightarrow> raw_json) \<Rightarrow> gc_opts \<Rightarrow> world \<Rightarrow> string \<Rightarrow> string \<Rightarrow> string \<Rightarrow> history \<Rightarrow> bool" where
  "deletable parse opts w name pool build h \<longleftrightarrow>
     (\<exists>r item. answered w h (list_deployments (gc_namespace opts) (gc_releaseName opts)) r
        \<and> item \<in> set (listed_deployments parse r)
        \<and> classify_deployment opts item = Inr (DeleteDeployment name pool build))"

definition companion_of :: "gc_opts \<Rightarrow> string \<Rightarrow> string \<Rightarrow> string \<Rightarrow> companion_kind \<Rightarrow> companion" where
  "companion_of opts name pool build kind =
     \<lparr>co_kind = kind,
      co_name = (case kind of CompanionService \<Rightarrow> name | CompanionHealthCheckPolicy \<Rightarrow> hcp (poolResourceNames (gc_releaseName opts) pool build)),
      co_namespace = gc_namespace opts, co_release = gc_releaseName opts, co_pool = pool, co_build = build, co_service = name\<rparr>"

text \<open>The six reasons for a deletion.\<close>

definition del_deployment :: "(string \<Rightarrow> raw_json) \<Rightarrow> gc_opts \<Rightarrow> world \<Rightarrow> history \<Rightarrow> command \<Rightarrow> bool" where
  "del_deployment parse opts w h c \<longleftrightarrow>
     (\<exists>name pool build. c = delete_cmd ''deployment'' (gc_namespace opts) name \<and> deletable parse opts w name pool build h)"

definition del_companion :: "(string \<Rightarrow> raw_json) \<Rightarrow> gc_opts \<Rightarrow> world \<Rightarrow> history \<Rightarrow> command \<Rightarrow> bool" where
  "del_companion parse opts w h c \<longleftrightarrow>
     (\<exists>name pool build kind r. let o1 = companion_of opts name pool build kind
        in c = delete_present_cmd (companion_type kind) (gc_namespace opts) (co_name o1) \<and> deletable parse opts w name pool build h
           \<and> answered w h (get_companion o1) r \<and> companion_identity o1 (objectRecord (parse (stdout r))))"

definition del_retained :: "(string \<Rightarrow> raw_json) \<Rightarrow> gc_opts \<Rightarrow> world \<Rightarrow> history \<Rightarrow> command \<Rightarrow> bool" where
  "del_retained parse opts w h c \<longleftrightarrow>
     (\<exists>h0. cleanup_allowed parse (gc_releaseName opts) (gc_pools opts @ gc_previousPools opts)
        (Some (JStr (gc_namespace opts))) (gc_hasHealthCheckPolicy opts) w h0 h c)"

definition del_job :: "(string \<Rightarrow> string) \<Rightarrow> gc_opts \<Rightarrow> command \<Rightarrow> bool" where
  "del_job sha opts c \<longleftrightarrow>
     (\<exists>name. c = delete_cmd ''job'' (gc_namespace opts) name \<and> name \<noteq> routeExtJobName sha (gc_releaseName opts) (gc_buildId opts))"

text \<open>The name of the ConfigMap of a build, by the component label it is listed under.\<close>

definition configmap_names :: "(string \<Rightarrow> string) \<Rightarrow> gc_opts \<Rightarrow> (string \<times> (string \<Rightarrow> string)) list" where
  "configmap_names sha opts =
     [(ROUTING_MANIFEST_SNAPSHOT_COMPONENT, routingManifestSnapshotName sha (gc_releaseName opts)),
      (COMPOSITION_PLAN_COMPONENT, compositionPlanConfigMapName (gc_releaseName opts)),
      (EMIT_METADATA_COMPONENT, emitMetadataConfigMapName sha (gc_releaseName opts))]"

definition del_configmap :: "(string \<Rightarrow> string) \<Rightarrow> gc_opts \<Rightarrow> world \<Rightarrow> history \<Rightarrow> command \<Rightarrow> bool" where
  "del_configmap sha opts w h c \<longleftrightarrow>
     (\<exists>name previous. c = delete_cmd ''configmap'' (gc_namespace opts) name \<and> truthy_build (gc_previousBuildId opts) = Some previous \<and>
       ((\<exists>component name_for l. (component, name_for) \<in> set (configmap_names sha opts)
           \<and> answered w h (list_names ''configmaps'' (gc_namespace opts) (gc_releaseName opts) component) l
           \<and> name \<in> set (lines_of l) \<and> name \<noteq> name_for (gc_buildId opts) \<and> name \<noteq> name_for previous)
        \<or> (\<exists>b. b \<notin> {JStr (gc_buildId opts), JStr previous}
           \<and> (\<exists>t. retentionName sha (gc_releaseName opts) (Some t) = Inr name \<and> (\<forall>s. b = JStr s \<longrightarrow> t = s)))))"

definition del_secret :: "(string \<Rightarrow> string) \<Rightarrow> (string \<Rightarrow> raw_json) \<Rightarrow> gc_opts \<Rightarrow> world \<Rightarrow> history \<Rightarrow> command \<Rightarrow> bool" where
  "del_secret sha parse opts w h c \<longleftrightarrow>
     (\<exists>name r refs. c = delete_cmd ''secret'' (gc_namespace opts) name
        \<and> answered w h (list_deployments (gc_namespace opts) (gc_releaseName opts)) r
        \<and> referenced_secrets sha parse opts r = Some refs \<and> name \<notin> set refs)"

definition gc_allowed :: "(string \<Rightarrow> string) \<Rightarrow> (string \<Rightarrow> raw_json) \<Rightarrow> gc_opts \<Rightarrow> world \<Rightarrow> history \<Rightarrow> command \<Rightarrow> bool" where
  "gc_allowed sha parse opts w h c \<longleftrightarrow>
     c ! 1 = ''get'' \<or> del_deployment parse opts w h c \<or> del_companion parse opts w h c \<or> del_retained parse opts w h c
     \<or> del_job sha opts c \<or> del_configmap sha opts w h c \<or> del_secret sha parse opts w h c"

lemma reads_allowed [simp]:
  "gc_allowed sha parse opts w h (get_companion o1)"
  "gc_allowed sha parse opts w h (list_deployments ns rel)"
  "gc_allowed sha parse opts w h (list_inventories ns rel)"
  "gc_allowed sha parse opts w h (list_names kind ns rel part)"
  by (simp_all add: gc_allowed_def get_companion_def list_deployments_def list_inventories_def list_names_def)

lemma companion_ok:
  assumes "lasting K" "\<And>h. K h \<Longrightarrow> deletable parse opts w name pool build h"
  shows "io_ok w (gc_allowed sha parse opts w) K (deleteOwnedVersionedCompanion parse (companion_of opts name pool build kind)) (\<lambda>_. K) (\<lambda>_. K)"
proof -
  let ?o = "companion_of opts name pool build kind" and ?G = "gc_allowed sha parse opts w"
  have read: "io_ok w ?G K (io_catch (io_bind (execCapture (get_companion ?o)) (\<lambda>r. io_return (Some r))) (\<lambda>_. io_return None))
      (\<lambda>x h. K h \<and> (\<forall>r. x = Some r \<longrightarrow> answered w h (get_companion ?o) r)) (\<lambda>_. K)"
    by (rule ok_catch [where F = "\<lambda>_. K"], rule ok_bind [OF ok_ask]) (auto intro!: ok_return assms)
  have del: "io_ok w ?G (\<lambda>h. K h \<and> answered w h (get_companion ?o) r)
      (io_catch (io_bind (execCapture (delete_present_cmd (companion_type kind) (gc_namespace opts) (co_name ?o))) (\<lambda>_. io_return ())) (\<lambda>_. io_return ()))
      (\<lambda>_. K) (\<lambda>_. K)" if "companion_identity ?o (objectRecord (parse (stdout r)))" for r
  proof (rule ok_conseq [OF ok_catch [OF ok_run_it]])
    fix h assume "K h \<and> answered w h (get_companion ?o) r"
    then show "?G h (delete_present_cmd (companion_type kind) (gc_namespace opts) (co_name ?o))"
      using that assms(2) unfolding gc_allowed_def del_companion_def Let_def by blast
  qed (use assms(1) in \<open>auto intro!: ok_return\<close>)
  have kind: "co_kind ?o = kind" "co_namespace ?o = gc_namespace opts" by (simp_all add: companion_of_def)
  show ?thesis
    unfolding deleteOwnedVersionedCompanion_def kind
  proof (rule ok_bind [OF read], goal_cases)
    case (1 x)
    show ?case
    proof (cases x)
      case None
      then show ?thesis by (auto intro!: ok_return)
    next
      case (Some r)
      have "io_ok w ?G (\<lambda>h. K h \<and> answered w h (get_companion ?o) r)
         (if exitCode r \<noteq> 0 then io_return () else if js_trim (stdout r) = [] then io_return ()
          else if \<not> companion_identity ?o (objectRecord (parse (stdout r))) then io_return ()
          else io_catch (io_bind (execCapture (delete_present_cmd (companion_type kind) (gc_namespace opts) (co_name ?o))) (\<lambda>_. io_return ()))
                 (\<lambda>_. io_return ())) (\<lambda>_. K) (\<lambda>_. K)"
        using del by (intro ok_if) (auto intro: ok_return)
      then show ?thesis using Some by simp
    qed
  qed
qed

lemma deletable_lasting [simp]: "lasting (deletable parse opts w name pool build)"
  unfolding lasting_def deletable_def by blast

lemma collect_deployment_ok:
  assumes "item \<in> set (listed_deployments parse r)"
  shows "io_ok w (gc_allowed sha parse opts w) (\<lambda>h. answered w h (list_deployments (gc_namespace opts) (gc_releaseName opts)) r)
     (collect_deployment parse opts item)
     (\<lambda>_ h. answered w h (list_deployments (gc_namespace opts) (gc_releaseName opts)) r) (\<lambda>_ _. True)"
proof -
  let ?K = "\<lambda>h. answered w h (list_deployments (gc_namespace opts) (gc_releaseName opts)) r" and ?G = "gc_allowed sha parse opts w"
  have del: "io_ok w ?G ?K
      (io_bind (execCapture (delete_cmd ''deployment'' (gc_namespace opts) name)) (\<lambda>_.
       io_bind (deleteOwnedVersionedCompanion parse (companion_of opts name pool build CompanionService)) (\<lambda>_.
       if gc_hasHealthCheckPolicy opts then deleteOwnedVersionedCompanion parse (companion_of opts name pool build CompanionHealthCheckPolicy)
       else io_return ()))) (\<lambda>_. ?K) (\<lambda>_. ?K)"
    if "classify_deployment opts item = Inr (DeleteDeployment name pool build)" for name pool build
  proof -
    have d: "deletable parse opts w name pool build h" if "?K h" for h
      unfolding deletable_def using that assms \<open>classify_deployment opts item = _\<close> by blast
    have "?G h (delete_cmd ''deployment'' (gc_namespace opts) name)" if "?K h" for h
      unfolding gc_allowed_def del_deployment_def using d [OF that] by blast
    then have "io_ok w ?G ?K (execCapture (delete_cmd ''deployment'' (gc_namespace opts) name)) (\<lambda>_. ?K) (\<lambda>_. ?K)"
      by (intro ok_conseq [OF ok_ask [of ?K]]) auto
    then show ?thesis
      by (rule ok_bind) (intro ok_bind [OF companion_ok [of ?K]] ok_if companion_ok ok_return; simp add: d)
  qed
  show ?thesis
    unfolding collect_deployment_def
  proof (rule ok_bind [where Q = "\<lambda>v h. classify_deployment opts item = Inr v \<and> ?K h"])
    fix v
    show "io_ok w ?G (\<lambda>h. classify_deployment opts item = Inr v \<and> ?K h)
       (case v of KeepDeployment \<Rightarrow> io_return ()
        | DeleteDeployment name poolName rawBuildId \<Rightarrow>
            let companion = (\<lambda>kind cname. \<lparr>co_kind = kind, co_name = cname, co_namespace = gc_namespace opts, co_release = gc_releaseName opts,
                 co_pool = poolName, co_build = rawBuildId, co_service = name\<rparr>)
            in io_bind (execCapture (delete_cmd ''deployment'' (gc_namespace opts) name)) (\<lambda>_.
               io_bind (deleteOwnedVersionedCompanion parse (companion CompanionService name)) (\<lambda>_.
               if gc_hasHealthCheckPolicy opts
               then deleteOwnedVersionedCompanion parse
                      (companion CompanionHealthCheckPolicy (hcp (poolResourceNames (gc_releaseName opts) poolName rawBuildId)))
               else io_return ()))) (\<lambda>_. ?K) (\<lambda>_ _. True)"
    proof (rule ok_pure, goal_cases)
      case 1
      then show ?case
        using del by (cases v) (auto simp: companion_of_def Let_def intro: ok_return elim: ok_conseq)
    qed
  qed (auto intro: ok_lift)
qed

lemma collect_deployments_ok:
  "io_ok w (gc_allowed sha parse opts w) (\<lambda>_. True) (collect_deployments parse opts) (\<lambda>_ _. True) (\<lambda>_ _. True)"
  unfolding collect_deployments_def
proof (rule ok_bind [OF ok_ask_any])
  fix r
  show "io_ok w (gc_allowed sha parse opts w) (\<lambda>h. answered w h (list_deployments (gc_namespace opts) (gc_releaseName opts)) r)
     (if exitCode r = 0 \<and> js_trim (stdout r) \<noteq> [] then io_each (collect_deployment parse opts) (listed_deployments parse r) else io_return ())
     (\<lambda>_ _. True) (\<lambda>_ _. True)"
    by (intro ok_if ok_conseq [OF ok_each [OF collect_deployment_ok]]) (auto intro: ok_return)
qed auto

lemma sweep_configmaps_ok:
  assumes "truthy_build (gc_previousBuildId opts) = Some previous" "(part, name_for) \<in> set (configmap_names sha opts)"
  shows "io_ok w (gc_allowed sha parse opts w) (\<lambda>_. True) (sweep_configmaps opts part name_for previous) (\<lambda>_ _. True) (\<lambda>_ _. True)"
  unfolding sweep_configmaps_def
proof (rule sweep_ok)
  fix h l name
  assume "answered w h (list_names ''configmaps'' (gc_namespace opts) (gc_releaseName opts) part) l" "name \<in> set (lines_of l)"
    "name \<notin> {name_for (gc_buildId opts), name_for previous}"
  then have "del_configmap sha opts w h (delete_cmd ''configmap'' (gc_namespace opts) name)"
    unfolding del_configmap_def using assms by blast
  then show "gc_allowed sha parse opts w h (delete_cmd ''configmap'' (gc_namespace opts) name)" by (simp add: gc_allowed_def)
qed auto

lemma sweep_jobs_ok:
  "io_ok w (gc_allowed sha parse opts w) (\<lambda>_. True) (sweep_jobs sha opts) (\<lambda>_ _. True) (\<lambda>_ _. True)"
  unfolding sweep_jobs_def by (rule sweep_ok) (auto simp: gc_allowed_def del_job_def list_names_def)

lemma sweep_secrets_ok:
  "io_ok w (gc_allowed sha parse opts w) (\<lambda>_. True) (sweep_secrets sha parse opts) (\<lambda>_ _. True) (\<lambda>_ _. True)"
  unfolding sweep_secrets_def
proof (rule ok_bind [OF ok_ask_any])
  let ?list = "list_deployments (gc_namespace opts) (gc_releaseName opts)"
  fix r
  show "io_ok w (gc_allowed sha parse opts w) (\<lambda>h. answered w h ?list r)
     (case referenced_secrets sha parse opts r of None \<Rightarrow> io_return ()
      | Some referenced \<Rightarrow> sweep (list_names ''secrets'' (gc_namespace opts) (gc_releaseName opts) INTERNAL_SECRET_COMPONENT)
          (\<lambda>name. name \<in> set referenced) (delete_cmd ''secret'' (gc_namespace opts))) (\<lambda>_ _. True) (\<lambda>_ _. True)"
  proof (cases "referenced_secrets sha parse opts r")
    case (Some refs)
    have "gc_allowed sha parse opts w h (delete_cmd ''secret'' (gc_namespace opts) name)"
      if "answered w h ?list r" "name \<notin> set refs" for h name
      unfolding gc_allowed_def del_secret_def using that Some by blast
    then show ?thesis using Some by (auto intro!: ok_conseq [OF sweep_ok [of "\<lambda>h. answered w h ?list r"]])
  qed (auto intro: ok_return)
qed auto

lemma collect_inventory_ok:
  assumes "truthy_build (gc_previousBuildId opts) = Some previous"
  shows "io_ok w (gc_allowed sha parse opts w) (\<lambda>_. True) (collect_inventory sha parse text opts previous object) (\<lambda>_ _. True) (\<lambda>_ _. True)"
proof -
  define as_text where "as_text = (\<lambda>v. case v of JStr s \<Rightarrow> s | _ \<Rightarrow> text v)"
  have del: "gc_allowed sha parse opts w h (delete_cmd ''configmap'' (gc_namespace opts) wanted)"
    if "b \<noteq> JStr (gc_buildId opts)" "b \<noteq> JStr previous" "retentionName sha (gc_releaseName opts) (Some (as_text b)) = Inr wanted" for h b wanted
  proof -
    have "\<forall>s. b = JStr s \<longrightarrow> as_text b = s" by (simp add: as_text_def)
    with that have "del_configmap sha opts w h (delete_cmd ''configmap'' (gc_namespace opts) wanted)"
      unfolding del_configmap_def using assms by blast
    then show ?thesis by (simp add: gc_allowed_def)
  qed
  have body: "io_ok w (gc_allowed sha parse opts w) (\<lambda>_. True)
      (io_bind (io_lift (js_prop (Some object) ''metadata'')) (\<lambda>metadata.
       io_bind (io_lift (retentionName sha (gc_releaseName opts) (Some (as_text b)))) (\<lambda>wanted.
       if field_is metadata ''name'' wanted \<and> field_is (oget metadata ''labels'') name_label (gc_releaseName opts)
       then io_bind (execCapture (delete_cmd ''configmap'' (gc_namespace opts) wanted)) (\<lambda>_. io_return ()) else io_return ()))) (\<lambda>_ _. True) (\<lambda>_ _. True)"
    if "b \<noteq> JStr (gc_buildId opts)" "b \<noteq> JStr previous" for b
  proof (rule ok_bind [where Q = "\<lambda>_ _. True"])
    fix metadata
    show "io_ok w (gc_allowed sha parse opts w) (\<lambda>_. True)
      (io_bind (io_lift (retentionName sha (gc_releaseName opts) (Some (as_text b)))) (\<lambda>wanted.
       if field_is metadata ''name'' wanted \<and> field_is (oget metadata ''labels'') name_label (gc_releaseName opts)
       then io_bind (execCapture (delete_cmd ''configmap'' (gc_namespace opts) wanted)) (\<lambda>_. io_return ()) else io_return ())) (\<lambda>_ _. True) (\<lambda>_ _. True)"
    proof (rule ok_bind [where Q = "\<lambda>wanted h. retentionName sha (gc_releaseName opts) (Some (as_text b)) = Inr wanted"])
      fix wanted
      show "io_ok w (gc_allowed sha parse opts w) (\<lambda>h. retentionName sha (gc_releaseName opts) (Some (as_text b)) = Inr wanted)
        (if field_is metadata ''name'' wanted \<and> field_is (oget metadata ''labels'') name_label (gc_releaseName opts)
       then io_bind (execCapture (delete_cmd ''configmap'' (gc_namespace opts) wanted)) (\<lambda>_. io_return ()) else io_return ()) (\<lambda>_ _. True) (\<lambda>_ _. True)"
        by (intro ok_if ok_return TrueI ok_conseq [OF ok_run_it [of "\<lambda>h. retentionName sha (gc_releaseName opts) (Some (as_text b)) = Inr wanted"]])
          (auto intro: del [OF that] simp: lasting_def)
    qed (auto intro: ok_lift)
  qed (auto intro: ok_lift)
  show ?thesis
    unfolding collect_inventory_def Let_def as_text_def [symmetric]
    by (rule ok_bind [where Q = "\<lambda>_ _. True"])
      (auto intro!: ok_lift ok_throw ok_return body split: option.splits)
qed

lemma sweep_inventories_ok:
  assumes "truthy_build (gc_previousBuildId opts) = Some previous"
  shows "io_only w (gc_allowed sha parse opts w) (sweep_inventories sha parse text opts previous)"
proof -
  have "io_only w (gc_allowed sha parse opts w) (execCapture (list_inventories (gc_namespace opts) (gc_releaseName opts)))"
    by (rule ok_conseq [OF ok_ask_any]) auto
  then show ?thesis
    unfolding sweep_inventories_def
    by (rule only_bind) (intro ok_if only_catch only_each collect_inventory_ok [OF assms] only_basic)
qed

lemma cleanup_in_gc:
  "io_only w (gc_allowed sha parse opts w)
     (cleanupRetainedStablePoolResources parse (gc_releaseName opts) (gc_pools opts @ gc_previousPools opts)
        (Some (JStr (gc_namespace opts))) (gc_hasHealthCheckPolicy opts))"
  by (rule ok_start, rule ok_allow [OF cleanup_ok]) (auto simp: gc_allowed_def del_retained_def)

lemma gc_ok: "io_only w (gc_allowed sha parse opts w) (gcSupersededResources sha parse text opts)"
proof -
  have previous: "io_only w (gc_allowed sha parse opts w)
      (io_then (sweep_inventories sha parse text opts previous)
        (io_then (sweep_configmaps opts ROUTING_MANIFEST_SNAPSHOT_COMPONENT (routingManifestSnapshotName sha (gc_releaseName opts)) previous)
        (io_then (if gc_hasPortableOrigin opts
                  then sweep_configmaps opts COMPOSITION_PLAN_COMPONENT (compositionPlanConfigMapName (gc_releaseName opts)) previous
                  else io_return ())
                 (sweep_configmaps opts EMIT_METADATA_COMPONENT (emitMetadataConfigMapName sha (gc_releaseName opts)) previous))))"
    if "truthy_build (gc_previousBuildId opts) = Some previous" for previous
    using that by (intro only_then ok_if sweep_inventories_ok sweep_configmaps_ok only_basic) (auto simp: configmap_names_def)
  show ?thesis
    unfolding gcSupersededResources_def Let_def
    by (intro only_then only_catch only_bind collect_deployments_ok cleanup_in_gc sweep_jobs_ok sweep_secrets_ok only_basic)
      (use previous in \<open>auto split: option.splits\<close>)
qed

section \<open>What it never deletes\<close>




lemma retained_shape: "deletion_allowed ns rs w h c \<Longrightarrow> \<exists>x \<in> set rs. c = delete_retained ns x"
  unfolding deletion_allowed_def by blast

lemma delete_kinds:
  "delete_cmd kind ns name ! 2 = kind" "delete_present_cmd kind ns name ! 2 = kind" "delete_cmd kind ns name ! 1 = ''delete''"
  "list_retained rel ns k ! 1 = ''get''" "delete_retained ns x ! 2 = typeForKind (sr_kind x)"
  by (simp_all add: delete_cmd_def delete_present_cmd_def list_retained_def delete_retained_def)

lemma allowed_kinds:
  assumes "gc_allowed sha parse opts w h c" "c ! 1 = ''delete''"
  shows "c ! 2 = ''deployment'' \<Longrightarrow> del_deployment parse opts w h c"
    and "c ! 2 = ''service'' \<Longrightarrow> del_companion parse opts w h c \<or> del_retained parse opts w h c"
    and "c ! 2 = ''configmap'' \<Longrightarrow> del_configmap sha opts w h c"
    and "c ! 2 = ''secret'' \<Longrightarrow> del_secret sha parse opts w h c"
    and "c ! 2 = ''job'' \<Longrightarrow> del_job sha opts c"
proof -
  have companion: "companion_type k \<in> {''service'', ''healthcheckpolicy''}" for k by (cases k) auto
  have stable: "typeForKind k \<in> {''service'', ''poddisruptionbudget'', ''healthcheckpolicy'', ''gcpbackendpolicy''}" for k by (cases k) auto
  have not_list: "c \<noteq> list_retained rel ns k" for rel ns k using assms(2) by (auto simp: list_retained_def)
  have kinds: "del_deployment parse opts w h c \<Longrightarrow> c ! 2 = ''deployment''"
    "del_companion parse opts w h c \<Longrightarrow> c ! 2 \<in> {''service'', ''healthcheckpolicy''}"
    "del_retained parse opts w h c \<Longrightarrow> c ! 2 \<in> {''service'', ''poddisruptionbudget'', ''healthcheckpolicy'', ''gcpbackendpolicy''}"
    "del_configmap sha opts w h c \<Longrightarrow> c ! 2 = ''configmap''" "del_secret sha parse opts w h c \<Longrightarrow> c ! 2 = ''secret''"
    "del_job sha opts c \<Longrightarrow> c ! 2 = ''job''"
    subgoal by (auto simp: del_deployment_def delete_kinds)
    subgoal unfolding del_companion_def Let_def by (metis companion delete_kinds(2))
    subgoal
    proof -
      assume "del_retained parse opts w h c"
      then obtain ns x where "c = delete_retained ns x"
        using not_list retained_shape unfolding del_retained_def cleanup_allowed_def by metis
      then show ?thesis using stable [of "sr_kind x"] by (simp add: delete_kinds)
    qed
    subgoal by (auto simp: del_configmap_def delete_kinds)
    subgoal by (auto simp: del_secret_def delete_kinds)
    subgoal by (auto simp: del_job_def delete_kinds)
    done
  have cases: "del_deployment parse opts w h c \<or> del_companion parse opts w h c \<or> del_retained parse opts w h c
     \<or> del_job sha opts c \<or> del_configmap sha opts w h c \<or> del_secret sha parse opts w h c"
    using assms unfolding gc_allowed_def by auto
  have other: "c ! 2 \<noteq> ''deployment'' \<Longrightarrow> \<not> del_deployment parse opts w h c"
    "c ! 2 \<notin> {''service'', ''healthcheckpolicy''} \<Longrightarrow> \<not> del_companion parse opts w h c"
    "c ! 2 \<notin> {''service'', ''poddisruptionbudget'', ''healthcheckpolicy'', ''gcpbackendpolicy''} \<Longrightarrow> \<not> del_retained parse opts w h c"
    "c ! 2 \<noteq> ''configmap'' \<Longrightarrow> \<not> del_configmap sha opts w h c" "c ! 2 \<noteq> ''secret'' \<Longrightarrow> \<not> del_secret sha parse opts w h c"
    "c ! 2 \<noteq> ''job'' \<Longrightarrow> \<not> del_job sha opts c"
    using kinds by blast+
  show "c ! 2 = ''deployment'' \<Longrightarrow> del_deployment parse opts w h c" using cases other(2-6) by simp
  show "c ! 2 = ''service'' \<Longrightarrow> del_companion parse opts w h c \<or> del_retained parse opts w h c" using cases other(1,4-6) by simp
  show "c ! 2 = ''configmap'' \<Longrightarrow> del_configmap sha opts w h c" using cases other(1-3,5,6) by simp
  show "c ! 2 = ''secret'' \<Longrightarrow> del_secret sha parse opts w h c" using cases other(1-4,6) by simp
  show "c ! 2 = ''job'' \<Longrightarrow> del_job sha opts c" using cases other(1-5) by simp
qed


text \<open>A Deployment mentions a Secret in the environment of one of its containers.\<close>

definition mentions_secret :: "json \<Rightarrow> string \<Rightarrow> bool" where
  "mentions_secret d s \<longleftrightarrow>
     (\<exists>cs ct env e. oget (oget (oget (jget d ''spec'') ''template'') ''spec'') ''containers'' = Some (JArr cs) \<and> ct \<in> set cs
        \<and> jget ct ''env'' = Some (JArr env) \<and> e \<in> set env
        \<and> oget (oget (jget e ''valueFrom'') ''secretKeyRef'') ''name'' = Some (JStr s))"

lemma js_prop_Inr: "js_prop (Some j) k = Inr v \<Longrightarrow> v = jget j k"
  by (cases j) auto

lemma res_collect_in: "res_collect f xs = Inr ys \<Longrightarrow> x \<in> set xs \<Longrightarrow> \<exists>zs. f x = Inr zs \<and> set zs \<subseteq> set ys"
  by (induction xs arbitrary: ys) (fastforce simp: res_simps)+

lemma flat_map_over_in: "flat_map_over (Some (JArr xs)) f = Inr ys \<Longrightarrow> x \<in> set xs \<Longrightarrow> \<exists>zs. f x = Inr zs \<and> set zs \<subseteq> set ys"
  by (simp add: flat_map_over_def res_collect_in)

lemma mentioned_secret_found:
  assumes "mentions_secret d s" "s \<noteq> []" "secret_refs_of_deployment d = Inr refs"
  shows "s \<in> set refs"
proof -
  obtain cs ct env e where d: "oget (oget (oget (jget d ''spec'') ''template'') ''spec'') ''containers'' = Some (JArr cs)" "ct \<in> set cs"
    and e: "jget ct ''env'' = Some (JArr env)" "e \<in> set env" "oget (oget (jget e ''valueFrom'') ''secretKeyRef'') ''name'' = Some (JStr s)"
    using assms(1) unfolding mentions_secret_def by blast
  have "flat_map_over (Some (JArr cs)) secret_refs_of_container = Inr refs"
    using assms(3) d(1) unfolding secret_refs_of_deployment_def by (auto simp: res_simps dest!: js_prop_Inr)
  from flat_map_over_in [OF this d(2)] obtain refs1 where one: "secret_refs_of_container ct = Inr refs1" "set refs1 \<subseteq> set refs" by blast
  then have "flat_map_over (Some (JArr env)) (\<lambda>e. res_bind (js_prop (Some e) ''valueFrom'') (\<lambda>v. Inr (case oget (oget v ''secretKeyRef'') ''name'' of
        Some (JStr s) \<Rightarrow> (if s = [] then [] else [s]) | _ \<Rightarrow> []))) = Inr refs1"
    using e(1) unfolding secret_refs_of_container_def by (auto simp: res_simps dest!: js_prop_Inr)
  from flat_map_over_in [OF this e(2)] obtain refs2 where two: "res_bind (js_prop (Some e) ''valueFrom'') (\<lambda>v. Inr (case oget (oget v ''secretKeyRef'') ''name'' of
        Some (JStr s) \<Rightarrow> (if s = [] then [] else [s]) | _ \<Rightarrow> [])) = Inr refs2" "set refs2 \<subseteq> set refs1" by blast
  then have "refs2 = [s]" using e(3) assms(2) by (auto simp: res_simps dest!: js_prop_Inr)
  then show ?thesis using one two by auto
qed

text \<open>
  C19: Whatever the cluster answers, a dispatch Secret is deleted only after the release's Deployments
  were listed and the list was understood, and the Secret deleted is named by no
  \<^verbatim>\<open>env[].valueFrom.secretKeyRef\<close> of a container of any listed Deployment and is not the Secret of the current or of the previous build.
\<close>

theorem gc_keeps_referenced_secrets:
  assumes "gcSupersededResources sha parse text opts w h = (r, h @ as @ c # bs)" "c ! 1 = ''delete''" "c ! 2 = ''secret''"
  shows "\<exists>name l j. c = delete_cmd ''secret'' (gc_namespace opts) name
     \<and> answered w (h @ as) (list_deployments (gc_namespace opts) (gc_releaseName opts)) l
     \<and> exitCode l = 0 \<and> parse (stdout l) = Some j
     \<and> (\<forall>items d. jget j ''items'' = Some (JArr items) \<and> d \<in> set items \<and> name \<noteq> [] \<longrightarrow> \<not> mentions_secret d name)
     \<and> name \<noteq> internalSecretName sha (gc_releaseName opts) (gc_buildId opts)
     \<and> (\<forall>previous. truthy_build (gc_previousBuildId opts) = Some previous \<longrightarrow> name \<noteq> internalSecretName sha (gc_releaseName opts) previous)"
proof -
  have ok: "gc_allowed sha parse opts w (h @ as) c" using ok_run [OF gc_ok TrueI assms(1)] .
  from allowed_kinds(4) [OF ok assms(2,3)] obtain name l refs where c: "c = delete_cmd ''secret'' (gc_namespace opts) name"
    and l: "answered w (h @ as) (list_deployments (gc_namespace opts) (gc_releaseName opts)) l"
    and refs: "referenced_secrets sha parse opts l = Some refs" "name \<notin> set refs" unfolding del_secret_def by blast
  from refs(1) obtain j refs1 where j: "exitCode l = 0" "parse (stdout l) = Some j"
    and refs1: "res_bind (js_prop (Some j) ''items'') (\<lambda>items. flat_map_over items secret_refs_of_deployment) = Inr refs1"
    and all: "refs = refs1 @ [internalSecretName sha (gc_releaseName opts) (gc_buildId opts)] @
        (case truthy_build (gc_previousBuildId opts) of None \<Rightarrow> [] | Some previous \<Rightarrow> [internalSecretName sha (gc_releaseName opts) previous])"
    unfolding referenced_secrets_def by (auto split: if_splits option.splits sum.splits)
  have "\<not> mentions_secret d name" if items: "jget j ''items'' = Some (JArr items)" "d \<in> set items" "name \<noteq> []" for items d
  proof
    assume mention: "mentions_secret d name"
    have "flat_map_over (Some (JArr items)) secret_refs_of_deployment = Inr refs1"
      using refs1 items(1) by (auto simp: res_simps dest!: js_prop_Inr)
    from flat_map_over_in [OF this items(2)] obtain refs2 where "secret_refs_of_deployment d = Inr refs2" "set refs2 \<subseteq> set refs1" by blast
    with mentioned_secret_found [OF mention items(3)] have "name \<in> set refs" using all by auto
    then show False using refs(2) by simp
  qed
  then show ?thesis using c l j refs(2) all by (intro exI [of _ name] exI [of _ l] exI [of _ j]) auto
qed

section \<open>Parking keeps the autoscaler out\<close>

definition parking_allowed :: "string \<Rightarrow> string \<Rightarrow> string \<Rightarrow> string list \<Rightarrow> int \<Rightarrow> world \<Rightarrow> history \<Rightarrow> command \<Rightarrow> bool" where
  "parking_allowed releaseName namespace previous pools replicas w h c \<longleftrightarrow>
     (\<exists>pool \<in> set pools. let names = poolResourceNames releaseName pool previous; unhpa = delete_present_cmd ''hpa'' namespace (hpa names)
        in c = unhpa \<or>
           c = scale_cmd namespace (deployment names) replicas \<and>
             (\<exists>before r. h = before @ [unhpa] \<and> w before unhpa = Some r \<and> exitCode r = 0))"

lemma park_pool_ok:
  assumes "pool \<in> set pools"
  shows "io_only w (parking_allowed rel ns previous pools n w)
    (let names = poolResourceNames rel pool previous
     in io_bind (execCapture (delete_present_cmd ''hpa'' ns (hpa names))) (\<lambda>hpaDelete.
          if exitCode hpaDelete \<noteq> 0 then io_return ()
          else io_bind (execCapture (scale_cmd ns (deployment names) n)) (\<lambda>_. io_return ())))"
proof -
  define names where "names = poolResourceNames rel pool previous"
  define unhpa where "unhpa = delete_present_cmd ''hpa'' ns (hpa names)"
  let ?G = "parking_allowed rel ns previous pools n w"
  have first: "?G h unhpa" for h
    using assms unfolding parking_allowed_def unhpa_def names_def Let_def by blast
  have second: "?G h (scale_cmd ns (deployment names) n)" if "h = before @ [unhpa]" "w before unhpa = Some r" "exitCode r = 0" for h before r
    using assms that unfolding parking_allowed_def unhpa_def names_def Let_def by blast
  have "io_ok w ?G (\<lambda>_. True) (execCapture unhpa) (\<lambda>r h. \<exists>before. h = before @ [unhpa] \<and> w before unhpa = Some r) (\<lambda>_ _. True)"
    using first by (intro ok_capture) auto
  moreover have "io_ok w ?G (\<lambda>h. \<exists>before. h = before @ [unhpa] \<and> w before unhpa = Some r)
      (if exitCode r \<noteq> 0 then io_return () else io_bind (execCapture (scale_cmd ns (deployment names) n)) (\<lambda>_. io_return ())) (\<lambda>_ _. True) (\<lambda>_ _. True)" for r
    by (intro ok_if ok_bind [where Q = "\<lambda>_ _. True"] ok_capture) (use second in \<open>auto intro: ok_return\<close>)
  ultimately show ?thesis unfolding names_def [symmetric] unhpa_def [symmetric] Let_def by (rule ok_bind)
qed

lemma parking_ok:
  assumes "truthy_build previousBuildId = Some previous"
  shows "io_only w (parking_allowed rel ns previous pools (case n of None \<Rightarrow> 0 | Some k \<Rightarrow> k) w)
     (scaleDownPreviousBuild rel ns buildId previousBuildId pools n)"
  unfolding scaleDownPreviousBuild_def Let_def assms option.case
  using park_pool_ok [where ns = ns and rel = rel and previous = previous and w = w, unfolded Let_def]
  by (intro ok_if only_each only_basic)

text \<open>
  Parking the previous build scales only Deployments of that build's pools, never when it is also the
  current build, and a Deployment is scaled only directly after the command that deleted the
  autoscaler of the same pool, answered with success: no autoscaler is left to undo it.
\<close>

theorem parked_after_autoscaler_is_gone:
  assumes "scaleDownPreviousBuild rel ns buildId previousBuildId pools n w h = (r, h @ as @ c # bs)" "c ! 1 = ''scale''"
  shows "\<exists>previous pool before ok. let names = poolResourceNames rel pool previous; unhpa = delete_present_cmd ''hpa'' ns (hpa names)
     in previousBuildId = Some previous \<and> previous \<noteq> buildId \<and> pool \<in> set pools
        \<and> c = scale_cmd ns (deployment names) (case n of None \<Rightarrow> 0 | Some k \<Rightarrow> k)
        \<and> h @ as = before @ [unhpa] \<and> w before unhpa = Some ok \<and> exitCode ok = 0"
proof (cases "truthy_build previousBuildId")
  case None
  then show ?thesis using assms(1) by (simp add: scaleDownPreviousBuild_def io_return_def)
next
  case (Some previous)
  then have previous: "previousBuildId = Some previous" by (auto simp: truthy_build_def split: option.splits list.splits)
  have "previous \<noteq> buildId" using assms(1) Some by (auto simp: scaleDownPreviousBuild_def io_return_def)
  moreover have "parking_allowed rel ns previous pools (case n of None \<Rightarrow> 0 | Some k \<Rightarrow> k) w (h @ as) c"
    using ok_run [OF parking_ok [OF Some] TrueI assms(1)] .
  moreover have "c \<noteq> delete_present_cmd ''hpa'' ns x" for x using assms(2) by (auto simp: delete_present_cmd_def)
  ultimately show ?thesis unfolding parking_allowed_def Let_def using previous by metis
qed

theorem parked_after_autoscaler_is_gone_witness:
  "\<exists>before. [delete_present_cmd ''hpa'' ''web'' ''shop-p-b1-hpa''] = before @ [delete_present_cmd ''hpa'' ''web'' ''shop-p-b1-hpa'']"
proof -
  let ?m = "scaleDownPreviousBuild ''shop'' ''web'' ''b2'' (Some ''b1'') [''p''] (Some 1)"
  have run: "?m demo_world [] = (Inr (), [] @ [delete_present_cmd ''hpa'' ''web'' ''shop-p-b1-hpa''] @ scale_cmd ''web'' ''shop-p-b1'' 1 # [])"
    by code_simp
  have c: "scale_cmd ''web'' ''shop-p-b1'' 1 ! 1 = ''scale''" by (simp add: scale_cmd_def)
  from parked_after_autoscaler_is_gone [OF run c] obtain pool before unhpa where
    "[] @ [delete_present_cmd ''hpa'' ''web'' ''shop-p-b1-hpa''] = before @ [unhpa]" unfolding Let_def by blast
  then show ?thesis by simp
qed

section \<open>A run\<close>

text \<open>Build \<^verbatim>\<open>b2\<close> replaced \<^verbatim>\<open>b1\<close>; the cluster still has build \<^verbatim>\<open>b0\<close> and a Secret nothing mentions.\<close>

definition gc_demo_opts :: gc_opts where
  "gc_demo_opts = \<lparr>gc_releaseName = ''shop'', gc_namespace = ''web'', gc_buildId = ''b2'', gc_previousBuildId = Some ''b1'',
     gc_pools = [''p''], gc_previousPools = [''p''], gc_hasPortableOrigin = False, gc_hasHealthCheckPolicy = False\<rparr>"

definition gc_demo_deployment :: "string \<Rightarrow> json" where
  "gc_demo_deployment build = JObj
     [(''metadata'', JObj [(''name'', JStr (''shop-p-'' @ build)),
        (''labels'', JObj [(ADAPTER_RELEASE_LABEL, JStr ''shop''), (name_label, JStr ''shop''), (component_label, JStr ''p''), (version_label, JStr build)])]),
      (''spec'', JObj [(''template'', JObj [(''spec'', JObj [(''containers'', JArr [JObj [(''name'', JStr ''pool-server''),
        (''env'', JArr [JObj [(''name'', JStr ''NEXT_BUILD_ID''), (''value'', JStr build)],
                      JObj [(''name'', JStr ''POOL_NAME''), (''value'', JStr ''p'')],
                      JObj [(''name'', JStr ''RELEASE_NAME''), (''value'', JStr ''shop'')],
                      JObj [(''valueFrom'', JObj [(''secretKeyRef'', JObj [(''name'', JStr ''used'')])])]])]])])])])]"

definition gc_demo_parse :: "string \<Rightarrow> raw_json" where
  "gc_demo_parse s = (if s = ''D'' then Some (JObj [(''items'', JArr [gc_demo_deployment ''b2'', gc_demo_deployment ''b1'', gc_demo_deployment ''b0''])]) else None)"

definition gc_demo_world :: world where
  "gc_demo_world h c = Some \<lparr>exitCode = 0,
     stdout = (if c ! 2 = ''deployments'' then ''D'' else if c ! 2 = ''secrets'' then ''used'' @ [CHR 0x0A] @ ''stale'' else []), stderr = []\<rparr>"

lemma gc_demo_run:
  "1 < length (snd (gcSupersededResources (\<lambda>_. ''00ff00ff'') gc_demo_parse (\<lambda>_. []) gc_demo_opts gc_demo_world []))"
  "snd (gcSupersededResources (\<lambda>_. ''00ff00ff'') gc_demo_parse (\<lambda>_. []) gc_demo_opts gc_demo_world []) ! 1 = delete_cmd ''deployment'' ''web'' ''shop-p-b0''"
  "11 < length (snd (gcSupersededResources (\<lambda>_. ''00ff00ff'') gc_demo_parse (\<lambda>_. []) gc_demo_opts gc_demo_world []))"
  "snd (gcSupersededResources (\<lambda>_. ''00ff00ff'') gc_demo_parse (\<lambda>_. []) gc_demo_opts gc_demo_world []) ! 11 = delete_cmd ''secret'' ''web'' ''stale''"
  by code_simp+


theorem gc_keeps_referenced_secrets_witness:
  "''stale'' \<noteq> internalSecretName (\<lambda>_. ''00ff00ff'') ''shop'' ''b2''"
proof -
  have c: "delete_cmd ''secret'' ''web'' ''stale'' ! 1 = ''delete''" "delete_cmd ''secret'' ''web'' ''stale'' ! 2 = ''secret''"
    by (simp_all add: delete_cmd_def)
  from gc_keeps_referenced_secrets [OF run_at [where m = "gcSupersededResources (\<lambda>_. ''00ff00ff'') gc_demo_parse (\<lambda>_. []) gc_demo_opts" and w = gc_demo_world, OF gc_demo_run(3,4)] c]
  obtain name where "delete_cmd ''secret'' ''web'' ''stale'' = delete_cmd ''secret'' (gc_namespace gc_demo_opts) name"
    "name \<noteq> internalSecretName (\<lambda>_. ''00ff00ff'') (gc_releaseName gc_demo_opts) (gc_buildId gc_demo_opts)" by blast
  moreover from this(1) have "name = ''stale''" by (simp add: delete_cmd_def)
  moreover have "gc_releaseName gc_demo_opts = ''shop''" "gc_buildId gc_demo_opts = ''b2''" by (simp_all add: gc_demo_opts_def)
  ultimately show ?thesis by metis
qed

end
