(* ===== verification/Gates.thy ===== *)
theory Gates
  imports Gc
begin

text \<open>
  \<^verbatim>\<open>src/cutover/gates.ts\<close>: what has to be true before traffic moves. Each gate either returns, or puts the
  routing edge back (\<open>restoreEdge\<close>, which the code receives as a collaborator) and throws. \<open>parse\<close> is
  \<open>JSON.parse\<close> of a text. Counts that \<^verbatim>\<open>kubectl\<close> prints are 32-bit integers in decimal.
\<close>

section \<open>Rollout budgets\<close>

definition TERMINATION_GRACE_SECONDS :: int where "TERMINATION_GRACE_SECONDS = 210"
definition MIN_READY_SECONDS :: int where "MIN_READY_SECONDS = 30"
definition READINESS_PROBE_PERIOD_SECONDS :: int where "READINESS_PROBE_PERIOD_SECONDS = 5"
definition READINESS_PROBE_FAILURE_THRESHOLD :: int where "READINESS_PROBE_FAILURE_THRESHOLD = 3"
definition EXEC_TIMEOUT_ROLLOUT :: int where "EXEC_TIMEOUT_ROLLOUT = 15 * 60 * 1000"

definition ROLLOUT_TIMEOUT_FLOOR_SECONDS :: int where "ROLLOUT_TIMEOUT_FLOOR_SECONDS = 600"
definition ROLLOUT_TIMEOUT_CEILING_SECONDS :: int where "ROLLOUT_TIMEOUT_CEILING_SECONDS = 1800"

definition ROLLOUT_SURGE_STEP_SECONDS :: int where
  "ROLLOUT_SURGE_STEP_SECONDS =
     READINESS_PROBE_PERIOD_SECONDS * READINESS_PROBE_FAILURE_THRESHOLD + 30 + MIN_READY_SECONDS + TERMINATION_GRACE_SECONDS"

record rollout_budget =
  rb_arg :: string
  rb_seconds :: int
  rb_execTimeoutMs :: int

definition rolloutWaitBudget :: "int \<Rightarrow> rollout_budget" where
  "rolloutWaitBudget seconds =
     \<lparr>rb_arg = ''--timeout='' @ int_dec seconds @ ''s'', rb_seconds = seconds,
      rb_execTimeoutMs = max EXEC_TIMEOUT_ROLLOUT (seconds * 1000 + 60000)\<rparr>"

text \<open>\<open>None\<close> is \<open>NaN\<close>, the count that could not be read.\<close>

definition deriveRolloutWaitBudget :: "int option \<Rightarrow> rollout_budget" where
  "deriveRolloutWaitBudget replicas =
     (let safeReplicas = (case replicas of None \<Rightarrow> 1 | Some n \<Rightarrow> max 1 n)
      in rolloutWaitBudget (min ROLLOUT_TIMEOUT_CEILING_SECONDS
           (max ROLLOUT_TIMEOUT_FLOOR_SECONDS (safeReplicas * ROLLOUT_SURGE_STEP_SECONDS))))"

definition poolRolloutWaitBudget :: rollout_budget where
  "poolRolloutWaitBudget = rolloutWaitBudget ROLLOUT_TIMEOUT_FLOOR_SECONDS"

record edge_result =
  er_attempted :: bool
  er_restored :: bool
  er_error :: string

record gate_context =
  ctx_releaseName :: string
  ctx_namespace :: string
  ctx_buildId :: string
  ctx_safeBuildId :: string
  ctx_previousBuildId :: "string option"
  ctx_poolRolloutWait :: rollout_budget
  ctx_restoreEdge :: "edge_result io"

text \<open>\<open>const edge = await deps.restoreEdgeToPreviousBuild(); throw new Error(...)\<close>.\<close>

definition abort_gate :: "gate_context \<Rightarrow> string \<Rightarrow> 'a io" where
  "abort_gate ctx message = io_bind (ctx_restoreEdge ctx) (\<lambda>_. io_throw (Thrown message))"

section \<open>Rollouts\<close>

definition rollout_status :: "string \<Rightarrow> string \<Rightarrow> string \<Rightarrow> command" where
  "rollout_status deployName namespace arg =
     [''kubectl'', ''rollout'', ''status'', ''deployment/'' @ deployName, ''-n'', namespace, arg]"

definition list_build_deployments :: "gate_context \<Rightarrow> command" where
  "list_build_deployments ctx =
     [''kubectl'', ''get'', ''deployments'', ''-n'', ctx_namespace ctx, ''-l'',
      name_label @ ''='' @ ctx_releaseName ctx @ '','' @ version_label @ ''='' @ ctx_safeBuildId ctx, ''-o'', names_jsonpath]"

definition new_deploys :: "gate_context \<Rightarrow> exec_result \<Rightarrow> string list" where
  "new_deploys ctx r = filter (\<lambda>n. n \<noteq> [] \<and> n \<noteq> routingServiceDeploymentName (ctx_releaseName ctx)) (lines_of r)"

definition waitPoolRollouts :: "gate_context \<Rightarrow> unit io" where
  "waitPoolRollouts ctx =
     io_bind (execCapture (list_build_deployments ctx)) (\<lambda>listed.
       io_each (\<lambda>deployName.
         io_bind (execCapture (rollout_status deployName (ctx_namespace ctx) (rb_arg (ctx_poolRolloutWait ctx)))) (\<lambda>rollout.
           if exitCode rollout \<noteq> 0 then abort_gate ctx ''did not finish rolling out'' else io_return ()))
       (new_deploys ctx listed))"

text \<open>Fields of an answer \<^verbatim>\<open>a|b|c\<close>; \<open>None\<close> is a field that is not there.\<close>

definition fields_of :: "string \<Rightarrow> string list" where
  "fields_of s = js_split (CHR ''|'') s"

definition field_at :: "string list \<Rightarrow> nat \<Rightarrow> string option" where
  "field_at fs i = (if i < length fs then Some (fs ! i) else None)"

definition text_at :: "string list \<Rightarrow> nat \<Rightarrow> string" where
  "text_at fs i = (case field_at fs i of None \<Rightarrow> [] | Some s \<Rightarrow> s)"

definition get_replicas :: "string \<Rightarrow> string \<Rightarrow> command" where
  "get_replicas deployName namespace =
     capacity_get ''deployment'' deployName namespace ''jsonpath={.metadata.name}|{.spec.replicas}''"

definition waitRoutingRollout :: "gate_context \<Rightarrow> unit io" where
  "waitRoutingRollout ctx =
     (let routingDeploy = routingServiceDeploymentName (ctx_releaseName ctx)
      in io_bind (execCapture (get_replicas routingDeploy (ctx_namespace ctx))) (\<lambda>rsExists.
         let fs = fields_of (js_trim (stdout rsExists))
         in if exitCode rsExists \<noteq> 0 then abort_gate ctx ''could not read expected routing service''
            else if text_at fs 0 = [] then abort_gate ctx ''routing Deployment is absent''
            else io_bind (execCapture (rollout_status routingDeploy (ctx_namespace ctx)
                   (rb_arg (deriveRolloutWaitBudget (js_parse_int (text_at fs 1)))))) (\<lambda>rsRollout.
              if exitCode rsRollout \<noteq> 0 then abort_gate ctx ''did not become healthy'' else io_return ())))"

definition wait_job :: "string \<Rightarrow> string \<Rightarrow> command" where
  "wait_job namespace job =
     [''kubectl'', ''wait'', ''--for=condition=complete'', ''job/'' @ job, ''-n'', namespace, ''--timeout=600s'']"

definition waitRouteExtJob :: "gate_context \<Rightarrow> string \<Rightarrow> unit io" where
  "waitRouteExtJob ctx currentRouteExtJob =
     io_bind (execCapture (wait_job (ctx_namespace ctx) currentRouteExtJob)) (\<lambda>wait.
       if exitCode wait \<noteq> 0 then abort_gate ctx ''registration job did not complete'' else io_return ())"

section \<open>Acceptance of the extension policy\<close>

text \<open>\<open>v?.includes(s)\<close> on a string, an array, or a value that has no such method.\<close>

fun js_includes :: "json option \<Rightarrow> string \<Rightarrow> thrown + bool" where
  "js_includes None s = Inr False"
| "js_includes (Some JNull) s = Inr False"
| "js_includes (Some (JStr t)) s = Inr (sublist s t)"
| "js_includes (Some (JArr xs)) s = Inr (JStr s \<in> set xs)"
| "js_includes (Some _) s = Inl TypeError"

text \<open>\<open>a >= b\<close> on the numbers of the API; \<open>null\<close> and booleans count as numbers too.\<close>

fun js_numeric :: "json \<Rightarrow> rat option" where
  "js_numeric (JNum q) = Some q"
| "js_numeric JNull = Some 0"
| "js_numeric (JBool b) = Some (if b then 1 else 0)"
| "js_numeric _ = None"

definition js_at_least :: "json \<Rightarrow> json \<Rightarrow> bool" where
  "js_at_least a b = (case (js_numeric a, js_numeric b) of (Some x, Some y) \<Rightarrow> y \<le> x | _ \<Rightarrow> False)"

text \<open>The status of a condition that is current for the generation of the object; \<open>None\<close> when there is none.\<close>

definition current_acceptance :: "json \<Rightarrow> thrown + json option" where
  "current_acceptance obj =
     res_bind (js_prop (Some obj) ''metadata'') (\<lambda>metadata.
     let generation = oget metadata ''generation''
     in case js_default (oget (jget obj ''status'') ''ancestors'') (JArr []) of
          JArr ancestors \<Rightarrow>
            res_bind (js_find (\<lambda>a. res_bind (js_prop (Some a) ''controllerName'') (\<lambda>n. js_includes n ''gateway.envoyproxy.io'')) ancestors) (\<lambda>found.
            let mine = (case found of Some a \<Rightarrow> Some a | None \<Rightarrow> (case ancestors of [] \<Rightarrow> None | a # _ \<Rightarrow> Some a))
            in res_bind (js_ofind (\<lambda>c. res_bind (js_prop (Some c) ''type'') (\<lambda>t. Inr (t = Some (JStr ''Accepted'')))) (oget mine ''conditions'')) (\<lambda>cond.
            case cond of
              None \<Rightarrow> Inr None
            | Some c \<Rightarrow>
                let observed = jget c ''observedGeneration'';
                    current = (case (generation, observed) of (Some g, Some ob) \<Rightarrow> js_at_least ob g | _ \<Rightarrow> True)
                in Inr (if current then Some (js_default (jget c ''status'') (JStr [])) else None)))
        | _ \<Rightarrow> Inl TypeError)"

definition policy_name :: "gate_context \<Rightarrow> string" where
  "policy_name ctx = ctx_releaseName ctx @ ''-routing-extproc''"

definition get_policy :: "gate_context \<Rightarrow> command" where
  "get_policy ctx = [''kubectl'', ''get'', ''envoyextensionpolicy'', policy_name ctx, ''-n'', ctx_namespace ctx, ''-o'', ''json'']"

text \<open>What one read makes of the status seen so far; an answer that cannot be understood is no verdict.\<close>

definition observe_policy :: "(string \<Rightarrow> raw_json) \<Rightarrow> exec_result \<Rightarrow> json \<Rightarrow> json" where
  "observe_policy parse read status =
     (if exitCode read = 0
      then (case parse (stdout read) of
              None \<Rightarrow> status
            | Some obj \<Rightarrow> (case current_acceptance obj of Inr (Some s) \<Rightarrow> s | _ \<Rightarrow> status))
      else status)"

text \<open>The status is final only when it was read in this very attempt.\<close>

definition policy_decided :: "(string \<Rightarrow> raw_json) \<Rightarrow> exec_result \<Rightarrow> bool" where
  "policy_decided parse read =
     (exitCode read = 0 \<and>
      (case parse (stdout read) of
         None \<Rightarrow> False
       | Some obj \<Rightarrow> current_acceptance obj \<in> {Inr (Some (JStr ''True'')), Inr (Some (JStr ''False''))}))"

primrec poll_policy :: "(string \<Rightarrow> raw_json) \<Rightarrow> gate_context \<Rightarrow> nat \<Rightarrow> json \<Rightarrow> json io" where
  "poll_policy parse ctx 0 status = io_return status"
| "poll_policy parse ctx (Suc n) status =
     io_bind (execCapture (get_policy ctx)) (\<lambda>read.
       let status' = observe_policy parse read status
       in if policy_decided parse read then io_return status'
          else io_then (io_sleep 2000) (poll_policy parse ctx n status'))"

definition waitPolicyAccepted :: "(string \<Rightarrow> raw_json) \<Rightarrow> gate_context \<Rightarrow> unit io" where
  "waitPolicyAccepted parse ctx =
     io_bind (poll_policy parse ctx 30 (JStr [])) (\<lambda>status.
       if status \<noteq> JStr ''True'' then abort_gate ctx ''policy is not Accepted'' else io_return ())"

section \<open>Warming up\<close>

definition computeCapacityTargets :: "string list \<Rightarrow> (string, int) jsmap \<Rightarrow> (string, int) jsmap" where
  "computeCapacityTargets pools previousReplicasByPool =
     foldl (\<lambda>targets (poolName, replicas). if poolName \<in> set (jsmap_keys targets) then jsmap_set poolName replicas targets else targets)
       (foldl (\<lambda>m poolName. jsmap_set poolName 1 m) [] pools) previousReplicasByPool"

record warmed_hpa =
  wh_name :: string
  wh_min :: int
  wh_max :: int

definition patch_hpa :: "string \<Rightarrow> string \<Rightarrow> int \<Rightarrow> int \<Rightarrow> command" where
  "patch_hpa name namespace lo hi =
     [''kubectl'', ''patch'', ''hpa'', name, ''-n'', namespace, ''--type=merge'', ''--field-manager=helm'', ''-p'',
      json_braces [json_field ''spec'' (json_braces [json_field ''minReplicas'' (int_dec lo), json_field ''maxReplicas'' (int_dec hi)])]]"

primrec restore_attempts :: "nat \<Rightarrow> command \<Rightarrow> bool io" where
  "restore_attempts 0 c = io_return False"
| "restore_attempts (Suc n) c =
     io_bind (execCapture c) (\<lambda>restore. if exitCode restore = 0 then io_return True else restore_attempts n c)"

text \<open>The closure remembers which autoscalers it has put back: \<open>restored\<close> is its memory before and after.\<close>

definition restoreWarmedHpas :: "string \<Rightarrow> warmed_hpa list \<Rightarrow> string list \<Rightarrow> string list io" where
  "restoreWarmedHpas namespace warmedHpas restored =
     io_fold (\<lambda>already h. if wh_name h \<in> set already then io_return already
        else io_bind (restore_attempts 3 (patch_hpa (wh_name h) namespace (wh_min h) (wh_max h)))
               (\<lambda>ok. io_return (if ok then already @ [wh_name h] else already)))
       restored warmedHpas"

definition abortWarmupSetup :: "gate_context \<Rightarrow> warmed_hpa list \<Rightarrow> string \<Rightarrow> 'a io" where
  "abortWarmupSetup ctx warmedHpas message =
     io_bind (ctx_restoreEdge ctx) (\<lambda>_.
     io_bind (restoreWarmedHpas (ctx_namespace ctx) warmedHpas []) (\<lambda>_. io_throw (Thrown message)))"

text \<open>\<open>Number(text)\<close> when it is an integer written in decimal; an absent field is \<open>NaN\<close>, an empty one is 0.\<close>

definition js_integer :: "string option \<Rightarrow> int option" where
  "js_integer v = (case v of None \<Rightarrow> None | Some s \<Rightarrow>
     (let t = js_trim s
      in if t = [] then Some 0
         else (case js_parse_int t of None \<Rightarrow> None
               | Some n \<Rightarrow> if list_all dec_digit (if hd t \<in> {CHR ''-'', CHR ''+''} then tl t else t) then Some n else None)))"

definition get_hpa_bounds :: "string \<Rightarrow> string \<Rightarrow> command" where
  "get_hpa_bounds name namespace =
     capacity_get ''hpa'' name namespace ''jsonpath={.metadata.name}|{.spec.minReplicas}|{.spec.maxReplicas}''"

definition prepare_hpa :: "gate_context \<Rightarrow> (string, int) jsmap \<Rightarrow> warmed_hpa list \<Rightarrow> string \<Rightarrow> warmed_hpa list io" where
  "prepare_hpa ctx previousReplicasByPool warmedHpas poolName =
     (let newHpaName = hpa (poolResourceNames (ctx_releaseName ctx) poolName (ctx_buildId ctx))
      in io_bind (execCapture (get_hpa_bounds newHpaName (ctx_namespace ctx))) (\<lambda>hpaRead.
         if exitCode hpaRead \<noteq> 0 then abortWarmupSetup ctx warmedHpas ''could not read the HPA''
         else let fs = fields_of (js_trim (stdout hpaRead))
              in if text_at fs 0 = [] then abortWarmupSetup ctx warmedHpas ''the HPA was not found''
                 else (case (js_integer (field_at fs 1), js_integer (field_at fs 2)) of
                     (Some hpaMinimum, Some hpaMaximum) \<Rightarrow>
                       if hpaMinimum < 1 \<or> hpaMaximum < hpaMinimum then abortWarmupSetup ctx warmedHpas ''could not parse the bounds''
                       else (case map_of previousReplicasByPool poolName of
                           Some outgoing \<Rightarrow>
                             if hpaMinimum < outgoing
                             then io_bind (execCapture (patch_hpa newHpaName (ctx_namespace ctx) outgoing (max hpaMaximum outgoing))) (\<lambda>warm.
                                    if exitCode warm \<noteq> 0 then abortWarmupSetup ctx warmedHpas ''could not set temporary bounds''
                                    else io_return (warmedHpas @ [\<lparr>wh_name = newHpaName, wh_min = hpaMinimum, wh_max = hpaMaximum\<rparr>]))
                             else io_return warmedHpas
                         | None \<Rightarrow> io_return warmedHpas)
                   | _ \<Rightarrow> abortWarmupSetup ctx warmedHpas ''could not parse the bounds'')))"

definition scale_to_target :: "gate_context \<Rightarrow> (string, int) jsmap \<Rightarrow> string \<times> int \<Rightarrow> unit io" where
  "scale_to_target ctx capacityTargets entry =
     (let (poolName, outgoing) = entry;
          newDeployName = deployment (poolResourceNames (ctx_releaseName ctx) poolName (ctx_buildId ctx));
          expected = (case map_of capacityTargets poolName of None \<Rightarrow> outgoing | Some n \<Rightarrow> n)
      in io_bind (execCapture (get_replicas newDeployName (ctx_namespace ctx))) (\<lambda>cur.
         let fs = fields_of (js_trim (stdout cur))
         in case js_parse_int (text_at fs 1) of
              None \<Rightarrow> io_return ()
            | Some current \<Rightarrow>
                if exitCode cur \<noteq> 0 \<or> text_at fs 0 = [] \<or> expected \<le> current then io_return ()
                else io_bind (execCapture (scale_cmd (ctx_namespace ctx) newDeployName expected)) (\<lambda>_. io_return ())))"

definition warmUpHpas ::
    "gate_context \<Rightarrow> string list \<Rightarrow> (string, int) jsmap \<Rightarrow> ((string, int) jsmap \<times> warmed_hpa list) io" where
  "warmUpHpas ctx pools previousReplicasByPool =
     (let capacityTargets = computeCapacityTargets pools previousReplicasByPool
      in io_bind (io_fold (prepare_hpa ctx previousReplicasByPool) [] pools) (\<lambda>warmedHpas.
         io_then (io_each (scale_to_target ctx capacityTargets) previousReplicasByPool)
           (io_return (capacityTargets, warmedHpas))))"

section \<open>Ready capacity\<close>

definition list_pods :: "string \<Rightarrow> string \<Rightarrow> string \<Rightarrow> string \<Rightarrow> command" where
  "list_pods namespace releaseName version path =
     [''kubectl'', ''get'', ''pods'', ''-n'', namespace, ''-l'',
      name_label @ ''='' @ releaseName @ '','' @ version_label @ ''='' @ version @ '','' @ component_label @ ''!=routing-service'', ''-o'', path]"

definition ready_jsonpath :: string where
  "ready_jsonpath = ''jsonpath={range .items[*]}{.metadata.name}|{.status.conditions[?(@.type=='' @ [CHR 0x22] @ ''Ready'' @ [CHR 0x22]
     @ '')].status}|{.metadata.labels.app'' @ [CHR 0x5C] @ ''.kubernetes'' @ [CHR 0x5C] @ ''.io/component}{'' @ [CHR 0x22, CHR 0x5C] @ ''n'' @ [CHR 0x22] @ ''}{end}''"

definition phase_jsonpath :: string where
  "phase_jsonpath = ''jsonpath={range .items[*]}{.metadata.name}|{.status.phase}{'' @ [CHR 0x22, CHR 0x5C] @ ''n'' @ [CHR 0x22] @ ''}{end}''"

record pod_census =
  pc_allHealthy :: bool
  pc_checked :: nat
  pc_ready :: "(string, int) jsmap"

definition count_pod :: "pod_census \<Rightarrow> string \<Rightarrow> pod_census" where
  "count_pod c line =
     (let fs = fields_of line
      in if text_at fs 0 = [] then c
         else let c1 = c\<lparr>pc_checked := pc_checked c + 1\<rparr>
              in if field_at fs 1 \<noteq> Some ''True'' then c1\<lparr>pc_allHealthy := False\<rparr>
                 else let component = text_at fs 2
                      in if component = [] then c1
                         else c1\<lparr>pc_ready := jsmap_set component (or_zero (map_of (pc_ready c) component) + 1) (pc_ready c)\<rparr>)"

definition census :: "exec_result \<Rightarrow> pod_census" where
  "census r =
     (let c0 = \<lparr>pc_allHealthy = True, pc_checked = 0, pc_ready = []\<rparr>
      in if exitCode r = 0 then foldl count_pod c0 (lines_of r) else c0)"

definition enough_ready :: "(string, int) jsmap \<Rightarrow> exec_result \<Rightarrow> bool" where
  "enough_ready capacityTargets r =
     (let c = census r
      in pc_allHealthy c \<and> 0 < pc_checked c \<and>
         list_all (\<lambda>(poolName, expected). expected \<le> or_zero (map_of (pc_ready c) poolName)) capacityTargets)"

primrec poll_ready :: "gate_context \<Rightarrow> (string, int) jsmap \<Rightarrow> nat \<Rightarrow> bool io" where
  "poll_ready ctx capacityTargets 0 = io_return False"
| "poll_ready ctx capacityTargets (Suc n) =
     io_bind (execCapture (list_pods (ctx_namespace ctx) (ctx_releaseName ctx) (ctx_safeBuildId ctx) ready_jsonpath)) (\<lambda>pods.
       if enough_ready capacityTargets pods then io_return True
       else if n = 0 then io_return False
       else io_then (io_sleep 5000) (poll_ready ctx capacityTargets n))"

text \<open>The probe of a pod's readiness endpoint and the tail of its log, for the operator.\<close>

definition readyz_snippet :: string where
  "readyz_snippet = ''const http=require('' @ [CHR 0x22] @ ''http'' @ [CHR 0x22] @ '');http.get('' @ [CHR 0x22] @ ''http://localhost:3000/readyz'' @ [CHR 0x22]
     @ '',r=>{let d='' @ [CHR 0x22, CHR 0x22] @ '';r.on('' @ [CHR 0x22] @ ''data'' @ [CHR 0x22] @ '',c=>d+=c);r.on('' @ [CHR 0x22] @ ''end'' @ [CHR 0x22]
     @ '',()=>console.log(r.statusCode,d))}).on('' @ [CHR 0x22] @ ''error'' @ [CHR 0x22] @ '',e=>console.log('' @ [CHR 0x22] @ ''ERR'' @ [CHR 0x22] @ '',e.message))''"

definition diagnose_pod :: "string \<Rightarrow> string \<Rightarrow> unit io" where
  "diagnose_pod namespace line =
     (let podName = text_at (fields_of line) 0
      in if podName = [] then io_return ()
         else io_bind (execCapture [''kubectl'', ''exec'', podName, ''-n'', namespace, ''--'', ''node'', ''-e'', readyz_snippet]) (\<lambda>_.
              io_bind (execCapture [''kubectl'', ''logs'', podName, ''-n'', namespace, ''--tail=20'']) (\<lambda>_. io_return ())))"

definition waitReadyCapacity :: "gate_context \<Rightarrow> (string, int) jsmap \<Rightarrow> unit io \<Rightarrow> unit io" where
  "waitReadyCapacity ctx capacityTargets restoreHpas =
     io_bind (poll_ready ctx capacityTargets 24) (\<lambda>newBuildHealthy.
       if newBuildHealthy then io_return ()
       else io_bind (ctx_restoreEdge ctx) (\<lambda>_.
            io_then restoreHpas
           (io_bind (execCapture (list_pods (ctx_namespace ctx) (ctx_releaseName ctx) (ctx_safeBuildId ctx) phase_jsonpath)) (\<lambda>newPods.
            io_then (if exitCode newPods = 0 \<and> js_trim (stdout newPods) \<noteq> []
                     then io_each (diagnose_pod (ctx_namespace ctx)) (lines_of newPods) else io_return ())
              (io_throw (CutoverExitError 1))))))"

section \<open>Serving rollback target\<close>

definition healthz_snippet :: string where
  "healthz_snippet = ''const http=require('' @ [CHR 0x22] @ ''http'' @ [CHR 0x22] @ '');http.get('' @ [CHR 0x22] @ ''http://localhost:3000/healthz'' @ [CHR 0x22]
     @ '',r=>process.exit(r.statusCode===200?0:1)).on('' @ [CHR 0x22] @ ''error'' @ [CHR 0x22] @ '',()=>process.exit(1))''"

definition probe_healthz :: "string \<Rightarrow> string \<Rightarrow> command" where
  "probe_healthz namespace pod = [''kubectl'', ''exec'', pod, ''-n'', namespace, ''--'', ''node'', ''-e'', healthz_snippet]"

text \<open>One pod of the Deployment answering is enough; the loop stops at the first.\<close>

primrec any_pod_serves :: "string \<Rightarrow> string list \<Rightarrow> bool io" where
  "any_pod_serves namespace [] = io_return False"
| "any_pod_serves namespace (pod # pods) =
     io_bind (execCapture (probe_healthz namespace pod)) (\<lambda>healthz.
       if exitCode healthz = 0 then io_return True else any_pod_serves namespace pods)"

primrec all_deploys_serve :: "string \<Rightarrow> string list \<Rightarrow> string list \<Rightarrow> bool io" where
  "all_deploys_serve namespace pods [] = io_return True"
| "all_deploys_serve namespace pods (name # names) =
     io_bind (any_pod_serves namespace (filter (prefix (name @ ''-'')) pods)) (\<lambda>depServing.
       if depServing then all_deploys_serve namespace pods names else io_return False)"

definition serving_pods :: "exec_result \<Rightarrow> string list" where
  "serving_pods r = (if exitCode r = 0 then filter (\<lambda>p. p \<noteq> []) (lines_of r) else [])"

primrec poll_serving :: "string \<Rightarrow> string \<Rightarrow> string \<Rightarrow> string list \<Rightarrow> nat \<Rightarrow> bool io" where
  "poll_serving releaseName namespace version names 0 = io_return False"
| "poll_serving releaseName namespace version names (Suc n) =
     io_bind (execCapture (list_pods namespace releaseName version names_jsonpath)) (\<lambda>podsResult.
       let pods = serving_pods podsResult
       in io_bind (if pods = [] then io_return False else all_deploys_serve namespace pods names) (\<lambda>allServing.
            if allServing then io_return True
            else if n = 0 then io_return False
            else io_then (io_sleep 5000) (poll_serving releaseName namespace version names n)))"

definition waitPreviousBuildServing :: "string \<Rightarrow> string \<Rightarrow> string \<Rightarrow> string list \<Rightarrow> unit io" where
  "waitPreviousBuildServing releaseName namespace safePreviousBuild previousDeploys =
     io_bind (poll_serving releaseName namespace safePreviousBuild previousDeploys 24) (\<lambda>serving.
       if serving then io_return () else io_throw (Thrown ''did not pass /healthz''))"

end
