(* ===== verification/GateSafety.thy ===== *)
theory GateSafety
  imports Gates
begin

text \<open>
  What the gates of \<^verbatim>\<open>src/cutover/gates.ts\<close> guarantee: the capacity gate opens exactly on a listing in which
  every pod is ready and every pool has its target, and a refused warm-up puts back the bounds it read.
\<close>

section \<open>The capacity gate\<close>

text \<open>A listing, read without the counters of the loop.\<close>

definition pod_lines :: "exec_result \<Rightarrow> string list list" where
  "pod_lines r = filter (\<lambda>fs. text_at fs 0 \<noteq> []) (map fields_of (lines_of r))"

definition pod_ready :: "string list \<Rightarrow> bool" where
  "pod_ready fs \<longleftrightarrow> field_at fs 1 = Some ''True''"

definition ready_pods :: "exec_result \<Rightarrow> string \<Rightarrow> nat" where
  "ready_pods r pool = length (filter (\<lambda>fs. pod_ready fs \<and> text_at fs 2 = pool \<and> pool \<noteq> []) (pod_lines r))"

definition capacity_there :: "(string, int) jsmap \<Rightarrow> exec_result \<Rightarrow> bool" where
  "capacity_there targets r \<longleftrightarrow> exitCode r = 0 \<and> pod_lines r \<noteq> [] \<and> list_all pod_ready (pod_lines r)
     \<and> list_all (\<lambda>(pool, expected). expected \<le> int (ready_pods r pool)) targets"

lemma count_pods:
  fixes ls :: "string list"
  defines "fss \<equiv> filter (\<lambda>fs. text_at fs 0 \<noteq> []) (map fields_of ls)"
  shows "pc_allHealthy (foldl count_pod c ls) \<longleftrightarrow> pc_allHealthy c \<and> list_all pod_ready fss"
    and "pc_checked (foldl count_pod c ls) = pc_checked c + length fss"
    and "or_zero (map_of (pc_ready (foldl count_pod c ls)) pool) = or_zero (map_of (pc_ready c) pool)
       + int (length (filter (\<lambda>fs. pod_ready fs \<and> text_at fs 2 = pool \<and> pool \<noteq> []) fss))"
  unfolding fss_def
  by (induction ls arbitrary: c) (simp_all add: count_pod_def Let_def pod_ready_def or_zero_def)

lemma enough_ready_exact: "enough_ready targets r \<longleftrightarrow> capacity_there targets r"
proof (cases "exitCode r = 0")
  case True
  let ?c = "\<lparr>pc_allHealthy = True, pc_checked = 0, pc_ready = []\<rparr>"
  have c: "census r = foldl count_pod ?c (lines_of r)" using True by (simp add: census_def)
  have "pc_allHealthy (census r) = list_all pod_ready (pod_lines r)" "pc_checked (census r) = length (pod_lines r)"
    unfolding c pod_lines_def count_pods by simp_all
  moreover have "or_zero (map_of (pc_ready (census r)) pool) = int (ready_pods r pool)" for pool
    unfolding c count_pods(3) ready_pods_def pod_lines_def by (simp add: or_zero_def)
  ultimately show ?thesis using True by (auto simp: enough_ready_def capacity_there_def Let_def)
qed (simp add: enough_ready_def capacity_there_def census_def)

abbreviation ready_listing :: "gate_context \<Rightarrow> command" where
  "ready_listing ctx \<equiv> list_pods (ctx_namespace ctx) (ctx_releaseName ctx) (ctx_safeBuildId ctx) ready_jsonpath"

text \<open>The history after \<open>n\<close> rounds that did not satisfy the gate.\<close>

definition after_rounds :: "command \<Rightarrow> history \<Rightarrow> nat \<Rightarrow> history" where
  "after_rounds c h n = h @ concat (replicate n [c, [''sleep'', nat_dec 5000]])"

lemma after_rounds_simps [simp]:
  "after_rounds c h 0 = h"
  "after_rounds c (h @ [c, [''sleep'', nat_dec 5000]]) n = after_rounds c h (Suc n)"
  by (simp_all add: after_rounds_def)

lemma poll_ready_exact:
  "fst (poll_ready ctx targets n w h) = Inr True \<longleftrightarrow>
     (\<exists>k<n. (\<exists>r. w (after_rounds (ready_listing ctx) h k) (ready_listing ctx) = Some r \<and> enough_ready targets r)
          \<and> (\<forall>i<k. w (after_rounds (ready_listing ctx) h i) (ready_listing ctx) \<noteq> None))"
proof (induction n arbitrary: h)
  case (Suc n)
  let ?c = "ready_listing ctx"
  let ?P = "\<lambda>h k. (\<exists>r. w (after_rounds ?c h k) ?c = Some r \<and> enough_ready targets r) \<and> (\<forall>i<k. w (after_rounds ?c h i) ?c \<noteq> None)"
  let ?h = "h @ [?c, [''sleep'', nat_dec 5000]]"
  have split: "(\<exists>k<Suc n. ?P h k) \<longleftrightarrow> ?P h 0 \<or> (\<exists>k<n. ?P h (Suc k))" by (rule Ex_less_Suc2)
  have shift: "?P h (Suc k) \<longleftrightarrow> w h ?c \<noteq> None \<and> ?P ?h k" for k
    unfolding All_less_Suc2 by auto
  show ?case
  proof (cases "w h ?c")
    case None
    then show ?thesis unfolding split shift by (simp add: io_bind_def execCapture_def)
  next
    case (Some r)
    show ?thesis
    proof (cases "enough_ready targets r")
      case True
      then show ?thesis unfolding split using Some by (simp add: io_bind_def execCapture_def io_return_def)
    next
      case False
      have "fst (poll_ready ctx targets (Suc n) w h) = fst (if n = 0 then (Inr False, h @ [?c]) else poll_ready ctx targets n w ?h)"
        using Some False by (simp add: io_bind_def execCapture_def io_return_def io_then_def io_sleep_def)
      then show ?thesis unfolding split shift using Some False Suc.IH [of ?h] by (cases n) auto
    qed
  qed
qed (simp add: io_return_def)

text \<open>
  C25: The capacity gate opens exactly if one of its 24 listings of the new build's pods succeeded, named
  at least one pod, showed every pod it named as ready, and counted for every pool at least its target
  of ready pods; the listings before it all came back.
\<close>

theorem ready_gate_exact:
  "fst (waitReadyCapacity ctx targets restoreHpas w h) = Inr () \<longleftrightarrow>
     (\<exists>k<24. (\<exists>r. w (after_rounds (ready_listing ctx) h k) (ready_listing ctx) = Some r \<and> capacity_there targets r)
          \<and> (\<forall>i<k. w (after_rounds (ready_listing ctx) h i) (ready_listing ctx) \<noteq> None))"
proof -
  have "fst (waitReadyCapacity ctx targets restoreHpas w h) = Inr () \<longleftrightarrow> fst (poll_ready ctx targets 24 w h) = Inr True"
    unfolding waitReadyCapacity_def
    by (auto simp: io_bind_def io_then_def io_return_def io_throw_def split: prod.splits sum.splits)
  then show ?thesis unfolding poll_ready_exact enough_ready_exact .
qed

section \<open>A refused warm-up\<close>

text \<open>The bounds a read of an autoscaler shows.\<close>

definition bounds_shown :: "exec_result \<Rightarrow> int \<Rightarrow> int \<Rightarrow> bool" where
  "bounds_shown q lo hi \<longleftrightarrow> exitCode q = 0
     \<and> js_integer (field_at (fields_of (js_trim (stdout q))) 1) = Some lo
     \<and> js_integer (field_at (fields_of (js_trim (stdout q))) 2) = Some hi"

text \<open>
  \<open>recorded\<close>: each patch among the commands \<open>cs\<close> that was answered with success follows directly on the
  read of the same autoscaler, and the bounds that read showed are remembered.
\<close>

definition remembered :: "string \<Rightarrow> world \<Rightarrow> history \<Rightarrow> command list \<Rightarrow> command \<Rightarrow> warmed_hpa \<Rightarrow> bool" where
  "remembered ns w h as c x \<longleftrightarrow> (\<exists>lo hi as' q. c = patch_hpa (wh_name x) ns lo hi \<and> as = as' @ [get_hpa_bounds (wh_name x) ns]
        \<and> w (h @ as') (get_hpa_bounds (wh_name x) ns) = Some q \<and> bounds_shown q (wh_min x) (wh_max x))"

definition recorded :: "string \<Rightarrow> world \<Rightarrow> history \<Rightarrow> command list \<Rightarrow> warmed_hpa list \<Rightarrow> bool" where
  "recorded ns w h cs warmed \<longleftrightarrow> (\<forall>as c bs r. cs = as @ c # bs \<and> c ! 1 = ''patch'' \<and> w (h @ as) c = Some r \<and> exitCode r = 0 \<longrightarrow>
     (\<exists>x \<in> set warmed. remembered ns w h as c x))"



lemma recorded_Nil [simp]: "recorded ns w h [] warmed"
  by (simp add: recorded_def)














section \<open>Runs\<close>

text \<open>Two pools; the second one's autoscaler cannot be read, so the first one's is put back.\<close>

definition warm_demo_ctx :: gate_context where
  "warm_demo_ctx = \<lparr>ctx_releaseName = ''s'', ctx_namespace = ''w'', ctx_buildId = ''b2'', ctx_safeBuildId = ''b2'', ctx_previousBuildId = Some ''b1'',
     ctx_poolRolloutWait = poolRolloutWaitBudget, ctx_restoreEdge = io_return \<lparr>er_attempted = False, er_restored = False, er_error = []\<rparr>\<rparr>"

definition warm_demo_world :: "int \<Rightarrow> world" where
  "warm_demo_world patched h c = Some
     (if c ! 1 = ''patch'' then \<lparr>exitCode = patched, stdout = [], stderr = []\<rparr>
      else if c ! 3 = ''s-a-b2-hpa'' then \<lparr>exitCode = 0, stdout = ''h|1|4'', stderr = []\<rparr>
      else \<lparr>exitCode = 1, stdout = [], stderr = []\<rparr>)"



theorem ready_gate_exact_witness:
  "fst (waitReadyCapacity warm_demo_ctx [(''a'', 1)] (io_return ()) (\<lambda>_ _. Some \<lparr>exitCode = 0, stdout = ''p|True|a'', stderr = []\<rparr>) []) = Inr ()"
proof -
  have "capacity_there [(''a'', 1)] \<lparr>exitCode = 0, stdout = ''p|True|a'', stderr = []\<rparr>" by code_simp
  then show ?thesis unfolding ready_gate_exact by (intro exI [of _ 0]) auto
qed

text \<open>
  The bounds are not put back when the answer to the temporary patch is lost: the patch may have been
  applied, the run refuses the build, and no command sets the autoscaler back.
\<close>

lemma lost_warmup_patch_is_not_undone:
  "warmUpHpas warm_demo_ctx [''a''] [(''a'', 3)] (warm_demo_world 124) [] = (Inl (Thrown ''could not set temporary bounds''),
     [get_hpa_bounds ''s-a-b2-hpa'' ''w'', patch_hpa ''s-a-b2-hpa'' ''w'' 3 4])"
  by code_simp

text \<open>A pod of pool \<^verbatim>\<open>api-b1\<close> counts for the Deployment of pool \<^verbatim>\<open>api\<close> of build \<^verbatim>\<open>b1\<close>.\<close>

lemma serving_prefix_is_not_exact:
  "deployment (poolResourceNames ''s'' ''api-b1'' ''b1'') = ''s-api-b1-b1''
   \<and> prefix (deployment (poolResourceNames ''s'' ''api'' ''b1'') @ ''-'') (''s-api-b1-b1'' @ ''-7c9d-x2'')"
  by code_simp

end
