(* ===== verification/RoutingHistory.thy ===== *)
theory RoutingHistory
  imports Exec
begin

text \<open>
  \<^verbatim>\<open>src/cutover/routing-history.ts\<close>: which image a rollback may give the routing tier. ConfigMaps only
  describe the request; the image has to come from the live Deployment or from a ReplicaSet that
  Deployment owns. \<open>parse\<close> is \<open>JSON.parse\<close> of a text.
\<close>

record routing_revision =
  rr_image :: string
  rr_secretRef :: "json option"
  rr_architecture :: "json option"

record live_revision = routing_revision +
  rr_imageTag :: string

definition INTERNAL_SECRET_KEY :: string where
  "INTERNAL_SECRET_KEY = ''secret''"

definition refuse :: "string \<Rightarrow> thrown + 'a" where
  "refuse reason = Inl (Thrown reason)"

definition owner_is :: "string \<Rightarrow> string \<Rightarrow> json \<Rightarrow> bool" where
  "owner_is deploymentName deploymentUid ref \<longleftrightarrow>
     jget ref ''apiVersion'' = Some (JStr ''apps/v1'') \<and> jget ref ''kind'' = Some (JStr ''Deployment'')
     \<and> jget ref ''name'' = Some (JStr deploymentName) \<and> jget ref ''uid'' = Some (JStr deploymentUid)
     \<and> jget ref ''controller'' = Some (JBool True)"

definition owned_by :: "string \<Rightarrow> string \<Rightarrow> json \<Rightarrow> bool" where
  "owned_by deploymentName deploymentUid item =
     (case oget (jget item ''metadata'') ''ownerReferences'' of
        Some (JArr owners) \<Rightarrow> list_ex (owner_is deploymentName deploymentUid) owners
      | _ \<Rightarrow> False)"

definition entry_named :: "string \<Rightarrow> json list \<Rightarrow> json option" where
  "entry_named k entries = List.find (\<lambda>e. jget e ''name'' = Some (JStr k)) entries"

text \<open>The part after the last colon of an image that has a colon and no digest.\<close>

definition tagged_build_id :: "string \<Rightarrow> string option" where
  "tagged_build_id img =
     (if CHR '':'' \<in> set img \<and> CHR ''@'' \<notin> set img then Some (rev (takeWhile (\<lambda>c. c \<noteq> CHR '':'') (rev img))) else None)"

definition revision_build_id :: "string \<Rightarrow> json list \<Rightarrow> json option" where
  "revision_build_id img env =
     (case tagged_build_id img of
        Some (c # cs) \<Rightarrow> Some (JStr (c # cs))
      | _ \<Rightarrow> oget (entry_named ''NEXT_BUILD_ID'' env) ''value'')"

definition json_list :: "json option \<Rightarrow> json list" where
  "json_list v = (case v of Some (JArr xs) \<Rightarrow> xs | _ \<Rightarrow> [])"

text \<open>What one owned ReplicaSet contributes: nothing when it holds another build.\<close>

definition revision_of :: "string \<Rightarrow> json \<Rightarrow> thrown + routing_revision option" where
  "revision_of targetBuildId item =
     (let spec = oget (oget (jget item ''spec'') ''template'') ''spec''
      in case oget spec ''containers'' of
           Some (JArr containers) \<Rightarrow>
             (case entry_named ''routing-service'' containers of
                None \<Rightarrow> refuse ''an owned routing revision has no routing image''
              | Some routing \<Rightarrow>
                  (case jget routing ''image'' of
                     Some (JStr (c # cs)) \<Rightarrow>
                       let img = c # cs; env = json_list (jget routing ''env'')
                       in if revision_build_id img env \<noteq> Some (JStr targetBuildId) then Inr None
                          else
                            let secretEnv = entry_named ''INTERNAL_HEADER_SECRET'' env;
                                secretRef = oget (oget secretEnv ''valueFrom'') ''secretKeyRef'';
                                arch = js_default (oget (oget spec ''nodeSelector'') ''kubernetes.io/arch'') JNull
                            in if secretEnv \<noteq> None \<and> (js_falsy (oget secretRef ''name'') \<or> \<not> field_is secretRef ''key'' INTERNAL_SECRET_KEY)
                               then refuse ''the target revision has an unsupported dispatch Secret binding''
                               else (case arch of
                                   JNull \<Rightarrow> Inr (Some \<lparr>rr_image = img, rr_secretRef = oget secretRef ''name'', rr_architecture = None\<rparr>)
                                 | JStr a \<Rightarrow> Inr (Some \<lparr>rr_image = img, rr_secretRef = oget secretRef ''name'', rr_architecture = Some (JStr a)\<rparr>)
                                 | _ \<Rightarrow> refuse ''the target revision has an invalid architecture selector'')
                   | _ \<Rightarrow> refuse ''an owned routing revision has no routing image''))
         | _ \<Rightarrow> refuse ''an owned routing revision has no containers'')"

fun owned_revisions :: "string \<Rightarrow> string \<Rightarrow> string \<Rightarrow> json list \<Rightarrow> thrown + routing_revision list" where
  "owned_revisions deploymentName uid targetBuildId [] = Inr []"
| "owned_revisions deploymentName uid targetBuildId (item # items) =
     (if \<not> owned_by deploymentName uid item then owned_revisions deploymentName uid targetBuildId items
      else res_bind (revision_of targetBuildId item) (\<lambda>found.
           res_bind (owned_revisions deploymentName uid targetBuildId items) (\<lambda>others.
           Inr ((case found of None \<Rightarrow> [] | Some r \<Rightarrow> [r]) @ others))))"

text \<open>The live Deployment counts when its image tag is the build asked for.\<close>

definition live_candidates :: "string \<Rightarrow> live_revision \<Rightarrow> routing_revision list" where
  "live_candidates targetBuildId live = (if rr_imageTag live = targetBuildId then [routing_revision.truncate live] else [])"

definition choose_revision :: "string \<Rightarrow> string \<Rightarrow> string \<Rightarrow> live_revision \<Rightarrow> json list \<Rightarrow> thrown + routing_revision" where
  "choose_revision deploymentName uid targetBuildId live items =
     res_bind (owned_revisions deploymentName uid targetBuildId items) (\<lambda>owned.
       case live_candidates targetBuildId live @ owned of
         [] \<Rightarrow> refuse ''no retained workload revision matches the requested build''
       | target # others \<Rightarrow>
           if list_ex (\<lambda>c. c \<noteq> target) (target # others) then refuse ''retained workload revisions disagree''
           else Inr target)"

definition list_replicasets :: "string \<Rightarrow> command" where
  "list_replicasets namespace = [''kubectl'', ''get'', ''replicasets'', ''-n'', namespace, ''-o'', ''json'']"

definition readTrustedRoutingRevision ::
    "(string \<Rightarrow> raw_json) \<Rightarrow> string \<Rightarrow> string option \<Rightarrow> string \<Rightarrow> string \<Rightarrow> live_revision \<Rightarrow> routing_revision io" where
  "readTrustedRoutingRevision parse deploymentName deploymentUid namespace targetBuildId live =
     (if deploymentUid \<in> {None, Some []} then io_lift (refuse ''the routing Deployment has no UID'')
      else io_bind (execCapture (list_replicasets namespace)) (\<lambda>result.
        if exitCode result \<noteq> 0 then io_lift (refuse ''the routing ReplicaSet history could not be read'')
        else case parse (stdout result) of
            None \<Rightarrow> io_lift (refuse ''the ReplicaSet list is malformed'')
          | Some parsed \<Rightarrow>
              (case jget parsed ''items'' of
                 Some (JArr items) \<Rightarrow> io_lift (choose_revision deploymentName (the deploymentUid) targetBuildId live items)
               | _ \<Rightarrow> io_lift (refuse ''the ReplicaSet list is malformed''))))"

section \<open>Where the image comes from\<close>

lemma owned_revisions_exact:
  assumes "owned_revisions name uid target items = Inr revs"
  shows "set revs = {r. \<exists>item \<in> set items. owned_by name uid item \<and> revision_of target item = Inr (Some r)}"
    and "item \<in> set items \<Longrightarrow> owned_by name uid item \<Longrightarrow> \<exists>f. revision_of target item = Inr f"
  using assms
proof (induction items arbitrary: revs)
  case (Cons x xs)
  { case 1
    then show ?case using Cons.IH by (cases "owned_by name uid x") (auto simp: res_simps split: option.splits)
  next
    case 2
    then show ?case using Cons.IH by (auto simp: res_simps split: if_splits)
  }
qed auto

lemma choose_revision_exact:
  assumes "choose_revision name uid target live items = Inr r"
  shows "rr_imageTag live = target \<and> r = routing_revision.truncate live
      \<or> (\<exists>item \<in> set items. owned_by name uid item \<and> revision_of target item = Inr (Some r))"
    and "rr_imageTag live = target \<Longrightarrow> r = routing_revision.truncate live"
    and "item \<in> set items \<Longrightarrow> owned_by name uid item \<Longrightarrow> revision_of target item \<in> {Inr None, Inr (Some r)}"
proof -
  obtain owned where owned: "owned_revisions name uid target items = Inr owned"
    and pick: "(case live_candidates target live @ owned of [] \<Rightarrow> refuse ''no retained workload revision matches the requested build''
       | t # others \<Rightarrow> if list_ex (\<lambda>c. c \<noteq> t) (t # others) then refuse ''retained workload revisions disagree'' else Inr t) = Inr r"
    using assms unfolding choose_revision_def by (auto simp: res_simps)
  have r: "r \<in> set (live_candidates target live @ owned)" "\<forall>c \<in> set (live_candidates target live @ owned). c = r"
    using pick by (cases "live_candidates target live @ owned"; force simp: refuse_def list_ex_iff split: if_splits)+
  show "rr_imageTag live = target \<and> r = routing_revision.truncate live
      \<or> (\<exists>item \<in> set items. owned_by name uid item \<and> revision_of target item = Inr (Some r))"
    using r(1) owned_revisions_exact(1) [OF owned] by (auto simp: live_candidates_def split: if_splits)
  show "rr_imageTag live = target \<Longrightarrow> r = routing_revision.truncate live"
    using r(2) by (auto simp: live_candidates_def)
  assume item: "item \<in> set items" "owned_by name uid item"
  then obtain f where "revision_of target item = Inr f" using owned_revisions_exact(2) [OF owned] by blast
  then show "revision_of target item \<in> {Inr None, Inr (Some r)}"
    using item r(2) owned_revisions_exact(1) [OF owned] by (cases f) auto
qed

lemma revision_of_target:
  assumes "revision_of target item = Inr (Some r)"
  shows "\<exists>cs ct. oget (oget (oget (jget item ''spec'') ''template'') ''spec'') ''containers'' = Some (JArr cs) \<and> ct \<in> set cs
     \<and> jget ct ''name'' = Some (JStr ''routing-service'') \<and> jget ct ''image'' = Some (JStr (rr_image r))
     \<and> revision_build_id (rr_image r) (json_list (jget ct ''env'')) = Some (JStr target)"
proof -
  obtain cs ct where cs: "oget (oget (oget (jget item ''spec'') ''template'') ''spec'') ''containers'' = Some (JArr cs)"
    and ct: "entry_named ''routing-service'' cs = Some ct"
    and img: "jget ct ''image'' = Some (JStr (rr_image r))" "revision_build_id (rr_image r) (json_list (jget ct ''env'')) = Some (JStr target)"
    using assms unfolding revision_of_def
    by (auto simp: Let_def refuse_def split: option.splits json.splits list.splits if_splits)
  from ct have "ct \<in> set cs" "jget ct ''name'' = Some (JStr ''routing-service'')"
    unfolding entry_named_def by (auto simp: find_Some_iff)
  with cs img show ?thesis by blast
qed

text \<open>
  C21: A rollback gets an image for the routing tier only from a workload: the live routing Deployment,
  when its tag is the requested build, or a ReplicaSet whose controlling owner is exactly that
  Deployment, by name and UID, and whose routing-service container runs the requested build. All
  workloads that qualify agree on image, Secret and architecture; no ConfigMap takes part.
\<close>

theorem routing_image_comes_from_workload:
  assumes "readTrustedRoutingRevision parse name uid ns target live w h = (Inr r, h')"
  shows "\<exists>u l parsed items. uid = Some u \<and> u \<noteq> [] \<and> w h (list_replicasets ns) = Some l \<and> exitCode l = 0
     \<and> parse (stdout l) = Some parsed \<and> jget parsed ''items'' = Some (JArr items)
     \<and> (rr_imageTag live = target \<and> r = routing_revision.truncate live
        \<or> (\<exists>item \<in> set items. owned_by name u item \<and> (\<exists>cs ct.
             oget (oget (oget (jget item ''spec'') ''template'') ''spec'') ''containers'' = Some (JArr cs) \<and> ct \<in> set cs
             \<and> jget ct ''name'' = Some (JStr ''routing-service'') \<and> jget ct ''image'' = Some (JStr (rr_image r))
             \<and> revision_build_id (rr_image r) (json_list (jget ct ''env'')) = Some (JStr target))))
     \<and> (rr_imageTag live = target \<longrightarrow> r = routing_revision.truncate live)
     \<and> (\<forall>item \<in> set items. owned_by name u item \<longrightarrow> revision_of target item \<in> {Inr None, Inr (Some r)})"
proof -
  obtain u l parsed items where u: "uid = Some u" "u \<noteq> []" "w h (list_replicasets ns) = Some l" "exitCode l = 0"
    "parse (stdout l) = Some parsed" "jget parsed ''items'' = Some (JArr items)"
    and r: "choose_revision name u target live items = Inr r"
    using assms unfolding readTrustedRoutingRevision_def io_defs
    by (auto simp: refuse_def split: if_splits option.splits json.splits prod.splits sum.splits)
  show ?thesis
    using u choose_revision_exact [OF r] revision_of_target
    by (intro exI [of _ u] exI [of _ l] exI [of _ parsed] exI [of _ items] conjI) (blast+)
qed

section \<open>A run\<close>

definition history_demo_item :: json where
  "history_demo_item = JObj
     [(''metadata'', JObj [(''ownerReferences'', JArr [JObj [(''apiVersion'', JStr ''apps/v1''), (''kind'', JStr ''Deployment''),
          (''name'', JStr ''shop-routing''), (''uid'', JStr ''u1''), (''controller'', JBool True)]])]),
      (''spec'', JObj [(''template'', JObj [(''spec'', JObj [(''containers'', JArr [JObj [(''name'', JStr ''routing-service''), (''image'', JStr ''r/rt:b1'')]])])])])]"

definition history_demo_live :: live_revision where
  "history_demo_live = \<lparr>rr_image = ''r/rt:b2'', rr_secretRef = None, rr_architecture = None, rr_imageTag = ''b2''\<rparr>"

lemma history_demo_run:
  "readTrustedRoutingRevision (\<lambda>_. Some (JObj [(''items'', JArr [history_demo_item])])) ''shop-routing'' (Some ''u1'') ''web'' ''b1'' history_demo_live
     (\<lambda>_ _. Some \<lparr>exitCode = 0, stdout = [], stderr = []\<rparr>) [] =
   (Inr \<lparr>rr_image = ''r/rt:b1'', rr_secretRef = None, rr_architecture = None\<rparr>, [list_replicasets ''web''])"
  by code_simp

theorem routing_image_comes_from_workload_witness:
  "owned_by ''shop-routing'' ''u1'' history_demo_item"
proof -
  define P where "P = JObj [(''items'', JArr [history_demo_item])]"
  define uid where "uid = Some ''u1''"
  define b where "b = ''b1''"
  obtain r h' where run: "readTrustedRoutingRevision (\<lambda>_. Some P) ''shop-routing'' uid ''web'' b history_demo_live
     (\<lambda>_ _. Some \<lparr>exitCode = 0, stdout = [], stderr = []\<rparr>) [] = (Inr r, h')"
    using history_demo_run unfolding P_def uid_def b_def by blast
  have other: "rr_imageTag history_demo_live \<noteq> b" by (simp add: history_demo_live_def b_def)
  from routing_image_comes_from_workload [OF run] other
  obtain u items item where "uid = Some u" "jget P ''items'' = Some (JArr items)" "item \<in> set items" "owned_by ''shop-routing'' u item"
    by blast
  then show ?thesis by (auto simp: uid_def P_def)
qed

end
