(* ===== verification/Edge.thy ===== *)
theory Edge
  imports Gates RoutingHistory
begin

text \<open>
  \<^verbatim>\<open>src/cutover/edge.ts\<close>: reading what the routing tier serves, retaining its manifest under a name of
  its own, reverting the tier to another build, and the recovery handle the gates call. The commands
  run \<^verbatim>\<open>kubectl\<close>; what it answers is the world of theory \<open>Exec\<close>. \<open>parse\<close> is \<open>JSON.parse\<close> of a text,
  \<open>num\<close> the text \<open>JSON.stringify\<close> gives a number, \<open>text\<close> the text of a value that is not a string where
  a command argument is expected, and \<open>sha\<close> the SHA-256 hex digest. The UID of the Deployment is read
  at the type the source declares for it, a string or nothing. Log lines are left out.
\<close>

section \<open>Texts handed to \<^verbatim>\<open>kubectl\<close>\<close>

text \<open>\<open>JSON.stringify\<close> of a value without \<open>undefined\<close> in it; an infinite number prints as \<open>null\<close>.\<close>

fun stringify :: "(rat \<Rightarrow> string) \<Rightarrow> json \<Rightarrow> string" where
  "stringify num JNull = ''null''"
| "stringify num (JBool b) = (if b then ''true'' else ''false'')"
| "stringify num (JNum q) = num q"
| "stringify num JHuge = ''null''"
| "stringify num (JStr s) = json_string s"
| "stringify num (JArr xs) = ''['' @ js_join '','' (map (stringify num) xs) @ '']''"
| "stringify num (JObj ms) = ''{'' @ js_join '','' (map (\<lambda>(k, v). json_string k @ '':'' @ stringify num v) ms) @ ''}''"

text \<open>
  \<open>execCaptureStdin\<close>: the text on standard input is kept in the history behind the arguments.
\<close>

definition execCaptureStdin :: "command \<Rightarrow> string \<Rightarrow> exec_result io" where
  "execCaptureStdin c input = execCapture (c @ [''<'', input])"

definition arg_text :: "(json \<Rightarrow> string) \<Rightarrow> json \<Rightarrow> string" where
  "arg_text text v = (case v of JStr s \<Rightarrow> s | _ \<Rightarrow> text v)"

text \<open>A check that throws, as a step of a program.\<close>

definition io_check :: "invalid + 'a \<Rightarrow> 'a io" where
  "io_check r = (case r of Inl _ \<Rightarrow> io_throw (Thrown ''invalid'') | Inr x \<Rightarrow> io_return x)"

section \<open>What the routing tier serves\<close>

definition SNAPSHOT_BUILD_ID_ANNOTATION :: string where
  "SNAPSHOT_BUILD_ID_ANNOTATION = ''adapter-k8s/build-id''"

definition ROUTING_MANIFEST_VOLUME_NAME :: string where
  "ROUTING_MANIFEST_VOLUME_NAME = ''routing-manifest''"

record routing_serving_config =
  sc_imageTag :: json
  sc_image :: string
  sc_manifestConfigMap :: string
  sc_internalSecretRef :: "json option"
  sc_nodeArchitecture :: "json option"

datatype routing_serving_read =
    ServingAbsent
  | ServingRead routing_serving_config "string option"
  | ServingFailed string

text \<open>\<open>x ?? null\<close>, where \<open>null\<close> is \<open>None\<close>.\<close>

definition or_null :: "json option \<Rightarrow> json option" where
  "or_null v = (if v = Some JNull then None else v)"

text \<open>The part after the last colon of an image that has a colon and no \<^verbatim>\<open>@sha256:\<close>; otherwise empty.\<close>

definition served_tag :: "json option \<Rightarrow> string" where
  "served_tag img =
     (case img of
        Some (JStr i) \<Rightarrow>
          if CHR '':'' \<in> set i \<and> \<not> sublist ''@sha256:'' i then rev (takeWhile (\<lambda>c. c \<noteq> CHR '':'') (rev i)) else []
      | _ \<Rightarrow> [])"

definition read_serving :: "json \<Rightarrow> routing_serving_read" where
  "read_serving parsed =
     (let podSpec = oget (oget (jget parsed ''spec'') ''template'') ''spec'';
          routingContainer = entry_named ''routing-service'' (json_list (oget podSpec ''containers''));
          img = oget routingContainer ''image'';
          cmName = oget (oget (entry_named ROUTING_MANIFEST_VOLUME_NAME (json_list (oget podSpec ''volumes''))) ''configMap'') ''name'';
          env = json_list (oget routingContainer ''env'');
          envBuildId = oget (entry_named ''NEXT_BUILD_ID'' env) ''value'';
          internalSecretRef = or_null (oget (oget (oget (entry_named ''INTERNAL_HEADER_SECRET'' env) ''valueFrom'') ''secretKeyRef'') ''name'');
          arch = is_string (oget (oget podSpec ''nodeSelector'') ''kubernetes.io/arch'');
          tag = (if served_tag img \<noteq> [] then Some (JStr (served_tag img)) else envBuildId)
      in if js_falsy tag \<or> is_string cmName \<in> {None, Some []} then ServingFailed ''cannot be identified''
         else ServingRead
           \<lparr>sc_imageTag = the tag, sc_image = (case is_string img of None \<Rightarrow> [] | Some i \<Rightarrow> i),
            sc_manifestConfigMap = the (is_string cmName), sc_internalSecretRef = internalSecretRef,
            sc_nodeArchitecture = map_option JStr arch\<rparr>
           (is_string (oget (jget parsed ''metadata'') ''uid'')))"

definition get_routing :: "string \<Rightarrow> string \<Rightarrow> command" where
  "get_routing deployName namespace =
     [''kubectl'', ''get'', ''deployment'', deployName, ''-n'', namespace, ''--ignore-not-found'', ''-o'', ''json'']"

definition serving_of :: "(string \<Rightarrow> raw_json) \<Rightarrow> exec_result \<Rightarrow> routing_serving_read" where
  "serving_of parse res =
     (if exitCode res \<noteq> 0 then ServingFailed ''could not be read''
      else if js_trim (stdout res) = [] then ServingAbsent
      else case parse (stdout res) of None \<Rightarrow> ServingFailed ''not valid JSON'' | Some parsed \<Rightarrow> read_serving parsed)"

definition readRoutingServingConfig :: "(string \<Rightarrow> raw_json) \<Rightarrow> string \<Rightarrow> string option \<Rightarrow> routing_serving_read io" where
  "readRoutingServingConfig parse releaseName configuredNamespace =
     io_bind (io_check (resolveK8sNamespace (map_option JStr configuredNamespace))) (\<lambda>namespace.
     io_bind (execCapture (get_routing (routingServiceDeploymentName releaseName) namespace)) (\<lambda>res.
     io_return (serving_of parse res)))"

section \<open>Retaining the manifest it serves\<close>

datatype retain_manifest_result = Retained string | NoRoutingTier | RetainFailed string

text \<open>The name of a build's snapshot; hashing a value that is not a string throws.\<close>

definition snapshot_of :: "(string \<Rightarrow> string) \<Rightarrow> string \<Rightarrow> json \<Rightarrow> string io" where
  "snapshot_of sha releaseName tag =
     (case tag of JStr b \<Rightarrow> io_return (routingManifestSnapshotName sha releaseName b) | _ \<Rightarrow> io_throw TypeError)"

definition annotate_keep :: "string \<Rightarrow> string \<Rightarrow> command" where
  "annotate_keep snapshotName namespace =
     [''kubectl'', ''annotate'', ''configmap'', snapshotName, ''-n'', namespace, KEEP_ANNOTATION @ ''='' @ KEEP_VALUE, ''--overwrite'']"

definition label_snapshot :: "string \<Rightarrow> string \<Rightarrow> string \<Rightarrow> command" where
  "label_snapshot releaseName snapshotName namespace =
     [''kubectl'', ''label'', ''configmap'', snapshotName, ''-n'', namespace, name_label @ ''='' @ releaseName,
      component_label @ ''='' @ ROUTING_MANIFEST_SNAPSHOT_COMPONENT, ''--overwrite'']"

definition keep_live_snapshot :: "string \<Rightarrow> string \<Rightarrow> string \<Rightarrow> retain_manifest_result io" where
  "keep_live_snapshot releaseName snapshotName namespace =
     io_bind (execCapture (annotate_keep snapshotName namespace)) (\<lambda>annotated.
       if exitCode annotated \<noteq> 0 then io_return (RetainFailed ''could not retain'')
       else io_bind (execCapture (label_snapshot releaseName snapshotName namespace)) (\<lambda>labeled.
         if exitCode labeled \<noteq> 0 then io_return (RetainFailed ''could not classify'')
         else io_return (Retained snapshotName)))"

definition get_snapshot :: "string \<Rightarrow> string \<Rightarrow> command" where
  "get_snapshot snapshotName namespace =
     [''kubectl'', ''get'', ''configmap'', snapshotName, ''-n'', namespace, ''--ignore-not-found'', ''-o'', ''json'']"

definition get_manifest :: "string \<Rightarrow> string \<Rightarrow> command" where
  "get_manifest name namespace = [''kubectl'', ''get'', ''configmap'', name, ''-n'', namespace, ''-o'', ''json'']"

text \<open>The build id a ConfigMap is stamped with, and whether it is another one than the one served.\<close>

definition stamped_for :: "(string \<Rightarrow> raw_json) \<Rightarrow> exec_result \<Rightarrow> json option" where
  "stamped_for parse existing =
     (if exitCode existing = 0 \<and> js_trim (stdout existing) \<noteq> []
      then oget (oget (oget (parse (stdout existing)) ''metadata'') ''annotations'') SNAPSHOT_BUILD_ID_ANNOTATION
      else None)"

definition holds_other_build :: "(string \<Rightarrow> raw_json) \<Rightarrow> string \<Rightarrow> exec_result \<Rightarrow> bool" where
  "holds_other_build parse tag existing \<longleftrightarrow> is_string (stamped_for parse existing) \<notin> {None, Some [], Some tag}"

definition live_data :: "(string \<Rightarrow> raw_json) \<Rightarrow> exec_result \<Rightarrow> json option" where
  "live_data parse cm =
     (if exitCode cm = 0 \<and> js_trim (stdout cm) \<noteq> [] then objectRecord (oget (parse (stdout cm)) ''data'') else None)"

definition snapshot_object :: "string \<Rightarrow> string \<Rightarrow> string \<Rightarrow> json \<Rightarrow> json" where
  "snapshot_object releaseName snapshotName tag data = JObj
     [(''apiVersion'', JStr ''v1''), (''kind'', JStr ''ConfigMap''),
      (''metadata'', JObj
        [(''name'', JStr snapshotName),
         (''labels'', JObj [(name_label, JStr releaseName), (''app.kubernetes.io/managed-by'', JStr ''adapter-k8s''),
                            (component_label, JStr ROUTING_MANIFEST_SNAPSHOT_COMPONENT)]),
         (''annotations'', JObj [(KEEP_ANNOTATION, JStr KEEP_VALUE), (SNAPSHOT_BUILD_ID_ANNOTATION, JStr tag)])]),
      (''data'', data)]"

definition apply_stdin :: "string \<Rightarrow> command" where
  "apply_stdin namespace = [''kubectl'', ''apply'', ''-n'', namespace, ''-f'', ''-'']"

definition copy_manifest ::
    "(string \<Rightarrow> raw_json) \<Rightarrow> (rat \<Rightarrow> string) \<Rightarrow> string \<Rightarrow> string \<Rightarrow> string \<Rightarrow> string \<Rightarrow> string \<Rightarrow> retain_manifest_result io" where
  "copy_manifest parse num releaseName snapshotName namespace tag manifestConfigMap =
     io_bind (execCapture (get_snapshot snapshotName namespace)) (\<lambda>existing.
       if holds_other_build parse tag existing then io_throw (Thrown ''Refusing to overwrite'')
       else io_bind (execCapture (get_manifest manifestConfigMap namespace)) (\<lambda>cm.
         case live_data parse cm of
           None \<Rightarrow> io_return (RetainFailed ''could not be read'')
         | Some data \<Rightarrow>
             io_bind (execCaptureStdin (apply_stdin namespace) (stringify num (snapshot_object releaseName snapshotName tag data))) (\<lambda>applied.
               if exitCode applied \<noteq> 0 then io_return (RetainFailed ''apply failed'') else io_return (Retained snapshotName))))"

definition retainLiveRoutingManifest ::
    "(string \<Rightarrow> raw_json) \<Rightarrow> (rat \<Rightarrow> string) \<Rightarrow> (string \<Rightarrow> string) \<Rightarrow> string \<Rightarrow> string option \<Rightarrow> retain_manifest_result io" where
  "retainLiveRoutingManifest parse num sha releaseName configuredNamespace =
     io_bind (io_check (resolveK8sNamespace (map_option JStr configuredNamespace))) (\<lambda>namespace.
     io_bind (readRoutingServingConfig parse releaseName (Some namespace)) (\<lambda>read.
       case read of
         ServingAbsent \<Rightarrow> io_return NoRoutingTier
       | ServingFailed reason \<Rightarrow> io_return (RetainFailed reason)
       | ServingRead serving _ \<Rightarrow>
           io_bind (snapshot_of sha releaseName (sc_imageTag serving)) (\<lambda>snapshotName.
             if sc_manifestConfigMap serving = snapshotName then keep_live_snapshot releaseName snapshotName namespace
             else copy_manifest parse num releaseName snapshotName namespace (the (is_string (Some (sc_imageTag serving))))
                    (sc_manifestConfigMap serving))))"

section \<open>Reverting the tier to another build\<close>

record routing_spec_snapshot =
  rs_buildId :: json
  rs_image :: string
  rs_manifestConfigMap :: string
  rs_internalSecretRef :: "json option"
  rs_nodeArchitecture :: "json option"

text \<open>What is served before anything changes. An empty image stands for \<open>null\<close>; the other two are never empty.\<close>

definition prior_spec :: "routing_serving_config \<Rightarrow> routing_spec_snapshot" where
  "prior_spec cfg =
     \<lparr>rs_buildId = sc_imageTag cfg, rs_image = sc_image cfg, rs_manifestConfigMap = sc_manifestConfigMap cfg,
      rs_internalSecretRef = sc_internalSecretRef cfg, rs_nodeArchitecture = sc_nodeArchitecture cfg\<rparr>"

text \<open>
  The live revision as a candidate. A tag that is not a string equals no build id, like the empty text here:
  a build id has been checked to be non-empty when this is used.
\<close>

definition live_of :: "routing_serving_config \<Rightarrow> live_revision" where
  "live_of cfg =
     \<lparr>rr_image = sc_image cfg, rr_secretRef = sc_internalSecretRef cfg, rr_architecture = sc_nodeArchitecture cfg,
      rr_imageTag = (case sc_imageTag cfg of JStr b \<Rightarrow> b | _ \<Rightarrow> [])\<rparr>"

definition arch_part :: "bool \<Rightarrow> json option \<Rightarrow> (string \<times> json) list" where
  "arch_part changed arch =
     (if changed then [(''nodeSelector'', JObj [(''kubernetes.io/arch'', (case arch of None \<Rightarrow> JNull | Some a \<Rightarrow> a))])] else [])"

definition secret_entry :: "json option \<Rightarrow> json" where
  "secret_entry ref = JObj ((''name'', JStr ''INTERNAL_HEADER_SECRET'') #
     (if js_falsy ref then [(''$patch'', JStr ''delete'')]
      else [(''valueFrom'', JObj [(''secretKeyRef'', JObj [(''name'', the ref), (''key'', JStr INTERNAL_SECRET_KEY)])])]))"

definition volume_part :: "string \<Rightarrow> (string \<times> json) list" where
  "volume_part cmName =
     [(''volumes'', JArr [JObj [(''name'', JStr ROUTING_MANIFEST_VOLUME_NAME), (''configMap'', JObj [(''name'', JStr cmName)])]])]"

definition pod_patch :: "(string \<times> json) list \<Rightarrow> json" where
  "pod_patch ms = JObj [(''spec'', JObj [(''template'', JObj [(''spec'', JObj ms)])])]"

definition build_entry :: "json \<Rightarrow> json" where
  "build_entry b = JObj [(''name'', JStr ''NEXT_BUILD_ID''), (''value'', b)]"

definition routing_container :: "string \<Rightarrow> (string \<times> json) list \<Rightarrow> (string \<times> json)" where
  "routing_container img extra = (''containers'', JArr [JObj ([(''name'', JStr ''routing-service''), (''image'', JStr img)] @ extra)])"

definition revert_patch :: "string \<Rightarrow> routing_revision \<Rightarrow> routing_spec_snapshot \<Rightarrow> string option \<Rightarrow> json" where
  "revert_patch targetBuildId target prior snapshot = pod_patch
     (arch_part (rr_architecture target \<noteq> rs_nodeArchitecture prior) (rr_architecture target)
      @ [routing_container (rr_image target) [(''env'', JArr (build_entry (JStr targetBuildId) #
           (if rr_secretRef target \<noteq> rs_internalSecretRef prior then [secret_entry (rr_secretRef target)] else [])))]]
      @ (case snapshot of None \<Rightarrow> [] | Some name \<Rightarrow> volume_part name))"

definition restore_patch :: "routing_spec_snapshot \<Rightarrow> bool \<Rightarrow> json" where
  "restore_patch prior restoreNodeArchitecture = pod_patch
     (arch_part restoreNodeArchitecture (rs_nodeArchitecture prior)
      @ [routing_container (rs_image prior)
           (if js_falsy (Some (rs_buildId prior)) \<and> js_falsy (rs_internalSecretRef prior) then []
            else [(''env'', JArr ((if js_falsy (Some (rs_buildId prior)) then [] else [build_entry (rs_buildId prior)])
                    @ [secret_entry (rs_internalSecretRef prior)]))])]
      @ (if rs_manifestConfigMap prior = [] then [] else volume_part (rs_manifestConfigMap prior)))"

definition patch_routing :: "(rat \<Rightarrow> string) \<Rightarrow> string \<Rightarrow> string \<Rightarrow> json \<Rightarrow> command" where
  "patch_routing num deployName namespace patch =
     [''kubectl'', ''patch'', ''deployment'', deployName, ''-n'', namespace, ''--type=strategic'', ''--field-manager=helm'',
      ''-p'', stringify num patch]"

definition restoreRoutingSpec :: "(rat \<Rightarrow> string) \<Rightarrow> string \<Rightarrow> routing_spec_snapshot \<Rightarrow> string \<Rightarrow> bool \<Rightarrow> bool io" where
  "restoreRoutingSpec num deployName prior namespace restoreNodeArchitecture =
     (if rs_image prior = [] then io_return False
      else io_bind (execCapture (patch_routing num deployName namespace (restore_patch prior restoreNodeArchitecture)))
             (\<lambda>res. io_return (exitCode res = 0)))"

definition ROUTING_ROLLOUT_TIMEOUT_SECONDS :: nat where
  "ROUTING_ROLLOUT_TIMEOUT_SECONDS = 300"

definition find_snapshot :: "string \<Rightarrow> string \<Rightarrow> command" where
  "find_snapshot snapshotName namespace =
     [''kubectl'', ''get'', ''configmap'', snapshotName, ''-n'', namespace, ''--ignore-not-found'', ''-o'', ''name'']"

definition find_secret :: "string \<Rightarrow> string \<Rightarrow> command" where
  "find_secret name namespace =
     [''kubectl'', ''get'', ''secret'', name, ''-n'', namespace, ''--ignore-not-found'', ''-o'', ''name'']"

text \<open>An answer to one of the two: the object is there.\<close>

definition there :: "exec_result \<Rightarrow> bool" where
  "there r \<longleftrightarrow> exitCode r = 0 \<and> js_trim (stdout r) \<noteq> []"

definition require_secret :: "(json \<Rightarrow> string) \<Rightarrow> json option \<Rightarrow> string \<Rightarrow> unit io" where
  "require_secret text ref namespace =
     (if js_falsy ref then io_return ()
      else io_bind (execCapture (find_secret (arg_text text (the ref)) namespace)) (\<lambda>secret.
        if there secret then io_return () else io_throw (Thrown ''its recorded dispatch Secret is unavailable'')))"

definition rollout_arg :: string where
  "rollout_arg = ''--timeout='' @ nat_dec ROUTING_ROLLOUT_TIMEOUT_SECONDS @ ''s''"

definition roll_to ::
    "(rat \<Rightarrow> string) \<Rightarrow> string \<Rightarrow> string \<Rightarrow> string \<Rightarrow> routing_revision \<Rightarrow> routing_spec_snapshot \<Rightarrow> string option \<Rightarrow> unit io" where
  "roll_to num deployName namespace targetBuildId target prior snapshot =
     io_bind (execCapture (patch_routing num deployName namespace (revert_patch targetBuildId target prior snapshot))) (\<lambda>patched.
       if exitCode patched \<noteq> 0 then io_throw (Thrown ''Failed to revert the routing service'')
       else io_bind (execCapture (rollout_status deployName namespace rollout_arg)) (\<lambda>rollout.
         if exitCode rollout = 0 then io_return ()
         else io_bind (restoreRoutingSpec num deployName prior namespace (rr_architecture target \<noteq> rs_nodeArchitecture prior)) (\<lambda>restored.
           io_throw (Thrown (if restored then ''did not roll out; the edge was restored''
                             else ''did not roll out; the edge could NOT be restored'')))))"

record revert_options =
  rv_releaseName :: string
  rv_namespace :: "string option"
  rv_targetBuildId :: string
  rv_registry :: "string option"
  rv_retainCurrentManifest :: "bool option"

definition revert_read_tier ::
    "(string \<Rightarrow> raw_json) \<Rightarrow> (rat \<Rightarrow> string) \<Rightarrow> (json \<Rightarrow> string) \<Rightarrow> (string \<Rightarrow> string) \<Rightarrow> revert_options \<Rightarrow> string
      \<Rightarrow> routing_serving_config \<Rightarrow> string option \<Rightarrow> unit io" where
  "revert_read_tier parse num text sha opts namespace cfg uid =
     (let deployName = routingServiceDeploymentName (rv_releaseName opts);
          targetSnapshot = routingManifestSnapshotName sha (rv_releaseName opts) (rv_targetBuildId opts)
      in io_bind (case rv_registry opts of None \<Rightarrow> io_return () | Some r \<Rightarrow> io_check (assertSafeImageRegistry r)) (\<lambda>_.
         io_bind (readTrustedRoutingRevision parse deployName uid namespace (rv_targetBuildId opts) (live_of cfg)) (\<lambda>target.
         io_then (if rv_retainCurrentManifest opts = Some False then io_return NoRoutingTier
                  else retainLiveRoutingManifest parse num sha (rv_releaseName opts) (Some namespace))
        (io_bind (execCapture (find_snapshot targetSnapshot namespace)) (\<lambda>snap.
         io_then (require_secret text (rr_secretRef target) namespace)
                 (roll_to num deployName namespace (rv_targetBuildId opts) target (prior_spec cfg)
                    (if there snap then Some targetSnapshot else None)))))))"

definition revertRoutingServiceToBuild ::
    "(string \<Rightarrow> raw_json) \<Rightarrow> (rat \<Rightarrow> string) \<Rightarrow> (json \<Rightarrow> string) \<Rightarrow> (string \<Rightarrow> string) \<Rightarrow> revert_options \<Rightarrow> unit io" where
  "revertRoutingServiceToBuild parse num text sha opts =
     io_bind (io_check (resolveK8sNamespace (map_option JStr (rv_namespace opts)))) (\<lambda>namespace.
     io_bind (io_check (assertSafeBuildIdName (rv_targetBuildId opts))) (\<lambda>_.
     io_bind (readRoutingServingConfig parse (rv_releaseName opts) (Some namespace)) (\<lambda>exists.
       case exists of
         ServingFailed reason \<Rightarrow> io_throw (Thrown reason)
       | ServingAbsent \<Rightarrow> io_return ()
       | ServingRead cfg uid \<Rightarrow> revert_read_tier parse num text sha opts namespace cfg uid)))"

section \<open>The recovery handle\<close>

text \<open>
  \<open>createEdgeRecovery\<close>: the options the handle closes over, and the flag it keeps. The function that
  reverts the tier is injected, so it is an argument here.
\<close>

record edge_recovery =
  ec_releaseName :: string
  ec_namespace :: string
  ec_buildId :: string
  ec_previousBuildId :: "string option"
  ec_registry :: "string option"
  ec_helmMutationAttempted :: bool

definition createEdgeRecovery :: "string \<Rightarrow> string \<Rightarrow> string \<Rightarrow> string option \<Rightarrow> string option \<Rightarrow> edge_recovery" where
  "createEdgeRecovery releaseName namespace buildId previousBuildId registry =
     \<lparr>ec_releaseName = releaseName, ec_namespace = namespace, ec_buildId = buildId,
      ec_previousBuildId = previousBuildId, ec_registry = registry, ec_helmMutationAttempted = False\<rparr>"

definition markHelmMutationAttempted :: "edge_recovery \<Rightarrow> edge_recovery" where
  "markHelmMutationAttempted ec = ec\<lparr>ec_helmMutationAttempted := True\<rparr>"

definition edge_to_restore :: "edge_recovery \<Rightarrow> string option" where
  "edge_to_restore ec =
     (if ec_helmMutationAttempted ec \<and> ec_previousBuildId ec \<notin> {None, Some [], Some (ec_buildId ec)} then ec_previousBuildId ec else None)"

text \<open>The message of an error; the real ones carry more detail.\<close>

fun error_text :: "thrown \<Rightarrow> string" where
  "error_text (Thrown m) = m"
| "error_text SpawnError = ''spawn''"
| "error_text TypeError = ''TypeError''"
| "error_text (CutoverExitError code) = ''exit''"

definition restoreEdgeToPreviousBuild :: "(revert_options \<Rightarrow> unit io) \<Rightarrow> edge_recovery \<Rightarrow> edge_result io" where
  "restoreEdgeToPreviousBuild revertRoutingService ec =
     (case edge_to_restore ec of
        None \<Rightarrow> io_return \<lparr>er_attempted = False, er_restored = False, er_error = []\<rparr>
      | Some previous \<Rightarrow>
          io_catch
            (io_then (revertRoutingService
               \<lparr>rv_releaseName = ec_releaseName ec, rv_namespace = Some (ec_namespace ec), rv_targetBuildId = previous,
                rv_registry = ec_registry ec, rv_retainCurrentManifest = Some False\<rparr>)
              (io_return \<lparr>er_attempted = True, er_restored = True, er_error = []\<rparr>))
            (\<lambda>e. io_return \<lparr>er_attempted = True, er_restored = False, er_error = error_text e\<rparr>))"

end
