(* ===== verification/EdgeSafety.thy ===== *)
theory EdgeSafety
  imports Edge
begin

text \<open>
  What reverting and retaining the routing tier (\<^verbatim>\<open>src/cutover/edge.ts\<close>) guarantees: the Deployment is
  patched only to a revision a workload vouches for or back to what was read at the start, and a
  retained manifest is never written over another build's.
\<close>

section \<open>What a run has learnt\<close>

abbreviation routing_deploy :: "revert_options \<Rightarrow> string" where
  "routing_deploy opts \<equiv> routingServiceDeploymentName (rv_releaseName opts)"

text \<open>Some answer to \<open>c\<close> in this history satisfied \<open>P\<close>.\<close>

definition learnt :: "world \<Rightarrow> command \<Rightarrow> (exec_result \<Rightarrow> bool) \<Rightarrow> history \<Rightarrow> bool" where
  "learnt w c P h \<longleftrightarrow> (\<exists>r. answered w h c r \<and> P r)"

lemma learntI: "answered w h c r \<Longrightarrow> P r \<Longrightarrow> learnt w c P h"
  unfolding learnt_def by blast

lemma lasting_learnt [simp]: "lasting (learnt w c P)"
  unfolding lasting_def learnt_def using answered_later by blast

lemma lasting_conj [simp]: "lasting K \<Longrightarrow> lasting L \<Longrightarrow> lasting (\<lambda>h. K h \<and> L h)"
  by (simp add: lasting_def)

definition served :: "(string \<Rightarrow> raw_json) \<Rightarrow> world \<Rightarrow> string \<Rightarrow> string \<Rightarrow> routing_serving_read \<Rightarrow> history \<Rightarrow> bool" where
  "served parse w releaseName ns what =
     learnt w (get_routing (routingServiceDeploymentName releaseName) ns) (\<lambda>r. serving_of parse r = what)"

text \<open>The read of the Deployment succeeded and found none.\<close>

definition tier_absent :: "world \<Rightarrow> string \<Rightarrow> string \<Rightarrow> history \<Rightarrow> bool" where
  "tier_absent w releaseName ns =
     learnt w (get_routing (routingServiceDeploymentName releaseName) ns) (\<lambda>r. exitCode r = 0 \<and> js_trim (stdout r) = [])"

lemma served_absent: "served parse w rel ns ServingAbsent h \<Longrightarrow> \<exists>ns. tier_absent w rel ns h"
  unfolding served_def tier_absent_def learnt_def serving_of_def read_serving_def
  by (fastforce simp: Let_def split: if_splits option.splits)

text \<open>A listing of ReplicaSets vouches for a revision.\<close>

definition vouches ::
    "(string \<Rightarrow> raw_json) \<Rightarrow> revert_options \<Rightarrow> routing_serving_config \<Rightarrow> string option \<Rightarrow> routing_revision \<Rightarrow> exec_result \<Rightarrow> bool" where
  "vouches parse opts cfg uid target l \<longleftrightarrow>
     (\<exists>u parsed items. uid = Some u \<and> u \<noteq> [] \<and> exitCode l = 0
        \<and> parse (stdout l) = Some parsed \<and> jget parsed ''items'' = Some (JArr items)
        \<and> choose_revision (routing_deploy opts) u (rv_targetBuildId opts) (live_of cfg) items = Inr target)"

definition trusted ::
    "(string \<Rightarrow> raw_json) \<Rightarrow> world \<Rightarrow> revert_options \<Rightarrow> string \<Rightarrow> routing_serving_config \<Rightarrow> string option \<Rightarrow> routing_revision \<Rightarrow> history \<Rightarrow> bool" where
  "trusted parse w opts ns cfg uid target = learnt w (list_replicasets ns) (vouches parse opts cfg uid target)"

definition snapshot_looked_up :: "world \<Rightarrow> string \<Rightarrow> string \<Rightarrow> string option \<Rightarrow> history \<Rightarrow> bool" where
  "snapshot_looked_up w name ns found =
     learnt w (find_snapshot name ns) (\<lambda>r. found = (if there r then Some name else None))"

definition secret_there :: "(json \<Rightarrow> string) \<Rightarrow> world \<Rightarrow> string \<Rightarrow> json option \<Rightarrow> history \<Rightarrow> bool" where
  "secret_there text w ns ref h \<longleftrightarrow> js_falsy ref \<or> learnt w (find_secret (arg_text text (the ref)) ns) there h"

lemma lasting_facts [simp]:
  "lasting (served parse w rel ns what)" "lasting (trusted parse w opts ns cfg uid target)"
  "lasting (snapshot_looked_up w name ns found)" "lasting (secret_there text w ns ref)"
  using lasting_learnt unfolding served_def trusted_def snapshot_looked_up_def secret_there_def lasting_def by blast+

section \<open>Rules for the parts\<close>

lemma ok_check: "(\<And>x h. P h \<Longrightarrow> c = Inr x \<Longrightarrow> Q x h) \<Longrightarrow> (\<And>h. P h \<Longrightarrow> E (Thrown ''invalid'') h) \<Longrightarrow> io_ok w G P (io_check c) Q E"
  unfolding io_check_def by (cases c) (auto intro: ok_return ok_throw)

lemma resolve_again: "resolveK8sNamespace v = Inr ns \<Longrightarrow> resolveK8sNamespace (Some (JStr ns)) = Inr ns"
  unfolding resolveK8sNamespace_def by (auto simp: res_simps split: option.splits json.splits)

text \<open>Reads are allowed.\<close>

definition reads_allowed :: "(history \<Rightarrow> command \<Rightarrow> bool) \<Rightarrow> bool" where
  "reads_allowed G \<longleftrightarrow> (\<forall>h c. c ! 1 = ''get'' \<longrightarrow> G h c)"

lemma reads_allowedD [simp]:
  assumes "reads_allowed G"
  shows "G h (get_routing d ns)" "G h (get_snapshot d ns)" "G h (get_manifest d ns)" "G h (find_snapshot d ns)"
    "G h (find_secret d ns)" "G h (list_replicasets ns)"
  using assms unfolding reads_allowed_def get_routing_def get_snapshot_def get_manifest_def find_snapshot_def find_secret_def list_replicasets_def
  by simp_all

lemma ok_read_serving:
  assumes "reads_allowed G" "lasting K"
  shows "io_ok w G K (readRoutingServingConfig parse rel (Some ns)) (\<lambda>what h. K h \<and> served parse w rel ns what h) (\<lambda>_. K)"
  unfolding readRoutingServingConfig_def
proof (rule ok_bind [where Q = "\<lambda>n h. n = ns \<and> K h"], goal_cases)
  case 1
  show ?case
    by (rule ok_check) (auto simp: resolveK8sNamespace_def res_simps split: option.splits json.splits)
next
  case (2 n)
  show ?case
    by (rule ok_pure, rule ok_bind [OF ok_ask]) (use assms in \<open>auto intro!: ok_return learntI simp: served_def\<close>)
qed

lemma ok_read_trusted:
  assumes "reads_allowed G" "lasting K"
  shows "io_ok w G K (readTrustedRoutingRevision parse (routing_deploy opts) uid ns (rv_targetBuildId opts) (live_of cfg))
           (\<lambda>target h. K h \<and> trusted parse w opts ns cfg uid target h) (\<lambda>_. K)"
  unfolding readTrustedRoutingRevision_def
proof (rule ok_if, goal_cases)
  case 1
  show ?case by (auto simp: refuse_def intro: ok_lift)
next
  case 2
  show ?case
  proof (rule ok_bind [OF ok_ask], goal_cases)
    case (3 r)
    show ?case
      using 2 by (intro ok_if) (auto simp: refuse_def trusted_def vouches_def intro!: ok_lift learntI split: option.splits json.splits)
  qed (use assms in auto)
qed

lemma ok_require_secret:
  assumes "reads_allowed G" "lasting K"
  shows "io_ok w G K (require_secret text ref ns) (\<lambda>_ h. K h \<and> secret_there text w ns ref h) (\<lambda>_. K)"
  unfolding require_secret_def
proof (rule ok_if, goal_cases)
  case 2
  then show ?case
    by (intro ok_bind [OF ok_ask] ok_if) (use assms in \<open>auto intro!: ok_return ok_throw learntI simp: secret_there_def\<close>)
qed (auto intro: ok_return simp: secret_there_def)

section \<open>Retention\<close>

definition copies_live_manifest ::
    "(string \<Rightarrow> raw_json) \<Rightarrow> (rat \<Rightarrow> string) \<Rightarrow> (string \<Rightarrow> string) \<Rightarrow> world \<Rightarrow> string \<Rightarrow> history \<Rightarrow> command \<Rightarrow> string \<Rightarrow> bool" where
  "copies_live_manifest parse num sha w rel h c name \<longleftrightarrow>
     (\<exists>ns cfg uid tag data. served parse w rel ns (ServingRead cfg uid) h \<and> sc_imageTag cfg = JStr tag
        \<and> name = routingManifestSnapshotName sha rel tag \<and> sc_manifestConfigMap cfg \<noteq> name
        \<and> learnt w (get_snapshot name ns) (\<lambda>existing. \<not> holds_other_build parse tag existing) h
        \<and> learnt w (get_manifest (sc_manifestConfigMap cfg) ns) (\<lambda>cm. live_data parse cm = Some data) h
        \<and> c = apply_stdin ns @ [''<'', stringify num (snapshot_object rel name tag data)])"

definition marks_live_snapshot ::
    "(string \<Rightarrow> raw_json) \<Rightarrow> (string \<Rightarrow> string) \<Rightarrow> world \<Rightarrow> string \<Rightarrow> history \<Rightarrow> string \<Rightarrow> string \<Rightarrow> bool" where
  "marks_live_snapshot parse sha w rel h ns name \<longleftrightarrow>
     (\<exists>cfg uid tag. served parse w rel ns (ServingRead cfg uid) h \<and> sc_imageTag cfg = JStr tag
        \<and> name = routingManifestSnapshotName sha rel tag \<and> sc_manifestConfigMap cfg = name)"

text \<open>The commands retention may run, and what its result says about the run.\<close>

definition retention_step ::
    "(string \<Rightarrow> raw_json) \<Rightarrow> (rat \<Rightarrow> string) \<Rightarrow> (string \<Rightarrow> string) \<Rightarrow> world \<Rightarrow> string \<Rightarrow> history \<Rightarrow> command \<Rightarrow> bool" where
  "retention_step parse num sha w rel h c \<longleftrightarrow> c ! 1 = ''get''
     \<or> (\<exists>name. copies_live_manifest parse num sha w rel h c name)
     \<or> (\<exists>ns name. marks_live_snapshot parse sha w rel h ns name \<and> c \<in> {annotate_keep name ns, label_snapshot rel name ns})"

definition succeeded_last :: "world \<Rightarrow> history \<Rightarrow> command list \<Rightarrow> bool" where
  "succeeded_last w h cs \<longleftrightarrow> (\<exists>h0. h = h0 @ cs \<and> all_succeed w h0 cs)"

fun retention_honest ::
    "(string \<Rightarrow> raw_json) \<Rightarrow> (rat \<Rightarrow> string) \<Rightarrow> (string \<Rightarrow> string) \<Rightarrow> world \<Rightarrow> string \<Rightarrow> retain_manifest_result \<Rightarrow> history \<Rightarrow> bool" where
  "retention_honest parse num sha w rel (RetainFailed _) h = True"
| "retention_honest parse num sha w rel NoRoutingTier h = (\<exists>ns. tier_absent w rel ns h)"
| "retention_honest parse num sha w rel (Retained name) h \<longleftrightarrow>
     (\<exists>c. copies_live_manifest parse num sha w rel (butlast h) c name \<and> succeeded_last w h [c])
     \<or> (\<exists>ns. marks_live_snapshot parse sha w rel h ns name \<and> succeeded_last w h [annotate_keep name ns, label_snapshot rel name ns])"

text \<open>A program that is allowed what retention may do.\<close>

definition retention_allowed ::
    "(string \<Rightarrow> raw_json) \<Rightarrow> (rat \<Rightarrow> string) \<Rightarrow> (string \<Rightarrow> string) \<Rightarrow> world \<Rightarrow> string \<Rightarrow> (history \<Rightarrow> command \<Rightarrow> bool) \<Rightarrow> bool" where
  "retention_allowed parse num sha w rel G \<longleftrightarrow> (\<forall>h c. retention_step parse num sha w rel h c \<longrightarrow> G h c)"

lemma retention_allowed_reads: "retention_allowed parse num sha w rel G \<Longrightarrow> reads_allowed G"
  unfolding retention_allowed_def reads_allowed_def retention_step_def by blast

lemma retention_allowedD:
  assumes "retention_allowed parse num sha w rel G"
  shows "marks_live_snapshot parse sha w rel h ns name \<Longrightarrow> G h (annotate_keep name ns)"
    and "marks_live_snapshot parse sha w rel h ns name \<Longrightarrow> G h (label_snapshot rel name ns)"
    and "copies_live_manifest parse num sha w rel h c name \<Longrightarrow> G h c"
  using assms unfolding retention_allowed_def retention_step_def by blast+

lemma succeeded_one: "w h c = Some r \<Longrightarrow> exitCode r = 0 \<Longrightarrow> succeeded_last w (h @ [c]) [c]"
  unfolding succeeded_last_def by auto

lemma succeeded_two:
  "w h c = Some r \<Longrightarrow> exitCode r = 0 \<Longrightarrow> w (h @ [c]) d = Some s \<Longrightarrow> exitCode s = 0 \<Longrightarrow> succeeded_last w (h @ [c] @ [d]) [c, d]"
  unfolding succeeded_last_def by auto

lemma marks_later: "marks_live_snapshot parse sha w rel h ns name \<Longrightarrow> marks_live_snapshot parse sha w rel (h @ [c]) ns name"
  unfolding marks_live_snapshot_def using lasting_facts(1) unfolding lasting_def by blast

lemma ok_keep_live:
  assumes "retention_allowed parse num sha w rel G" "lasting K"
    and "\<And>h. K h \<Longrightarrow> marks_live_snapshot parse sha w rel h ns name"
  shows "io_ok w G K (keep_live_snapshot rel name ns) (\<lambda>res h. K h \<and> retention_honest parse num sha w rel res h) (\<lambda>_. K)"
  unfolding keep_live_snapshot_def
proof (rule ok_bind [where Q = "\<lambda>r h. K h \<and> (\<exists>h0. h = h0 @ [annotate_keep name ns] \<and> w h0 (annotate_keep name ns) = Some r)"], goal_cases)
  case 1
  show ?case
    using assms(2) by (intro ok_capture) (auto simp: lasting_def intro: retention_allowedD(1) [OF assms(1) assms(3)])
next
  case (2 r)
  show ?case
  proof (rule ok_if, goal_cases)
    case 1
    show ?case by (auto intro: ok_return)
  next
    case ok: 2
    show ?case
    proof (rule ok_bind [where Q = "\<lambda>s h. K h \<and> (exitCode s = 0 \<longrightarrow> succeeded_last w h [annotate_keep name ns, label_snapshot rel name ns])"], goal_cases)
      case 1
      show ?case
        using assms(2) ok by (intro ok_capture) (auto simp: lasting_def intro: retention_allowedD(2) [OF assms(1) assms(3)] dest: succeeded_two)
    next
      case (2 s)
      show ?case using assms(3) by (intro ok_if ok_return) auto
    qed
  qed
qed

lemma ok_copy_manifest:
  assumes "retention_allowed parse num sha w rel G" "lasting K"
    and K: "\<And>h. K h \<Longrightarrow> served parse w rel ns (ServingRead cfg uid) h"
    and name: "sc_imageTag cfg = JStr tag" "name = routingManifestSnapshotName sha rel tag" "sc_manifestConfigMap cfg \<noteq> name"
  shows "io_ok w G K (copy_manifest parse num rel name ns tag (sc_manifestConfigMap cfg))
           (\<lambda>res h. K h \<and> retention_honest parse num sha w rel res h) (\<lambda>_. K)"
  unfolding copy_manifest_def
proof (rule ok_bind [OF ok_ask], goal_cases)
  case (3 existing)
  show ?case
  proof (rule ok_if, goal_cases)
    case 1
    show ?case by (auto intro: ok_throw)
  next
    case free: 2
    let ?J = "\<lambda>h. K h \<and> learnt w (get_snapshot name ns) (\<lambda>e. \<not> holds_other_build parse tag e) h"
    show ?case
    proof (rule ok_pre [where P = ?J], rule ok_bind [where Q = "\<lambda>cm h. ?J h \<and> answered w h (get_manifest (sc_manifestConfigMap cfg) ns) cm"], goal_cases)
      case 1
      show ?case
        using assms(2) retention_allowed_reads [OF assms(1)]
        by (intro ok_conseq [OF ok_ask [of ?J]]) auto
    next
      case (2 cm)
      show ?case
      proof (cases "live_data parse cm")
        case None
        then show ?thesis by (auto intro: ok_return)
      next
        case (Some data)
        let ?c = "apply_stdin ns @ [''<'', stringify num (snapshot_object rel name tag data)]"
        have copies: "copies_live_manifest parse num sha w rel h ?c name" if "?J h" "answered w h (get_manifest (sc_manifestConfigMap cfg) ns) cm" for h
          using that K [of h] name Some unfolding copies_live_manifest_def
          by (intro exI [of _ ns] exI [of _ cfg] exI [of _ uid] exI [of _ tag] exI [of _ data]) (auto intro: learntI)
        show ?thesis
          unfolding Some option.case execCaptureStdin_def
        proof (rule ok_bind [where Q = "\<lambda>r h. K h \<and> (exitCode r = 0 \<longrightarrow> retention_honest parse num sha w rel (Retained name) h)"], goal_cases)
          case 1
          show ?case
            using assms(2) copies retention_allowedD(3) [OF assms(1)] succeeded_one
            by (intro ok_capture) (fastforce simp: lasting_def)+
        next
          case (2 r)
          show ?case by (intro ok_if ok_return) auto
        qed
      qed
    qed (use free in \<open>auto intro: learntI\<close>)
  qed
qed (use assms(2) retention_allowed_reads [OF assms(1)] in auto)

lemma ok_retain:
  assumes "retention_allowed parse num sha w rel G" "lasting K"
  shows "io_ok w G K (retainLiveRoutingManifest parse num sha rel configured)
           (\<lambda>res h. K h \<and> retention_honest parse num sha w rel res h) (\<lambda>_. K)"
  unfolding retainLiveRoutingManifest_def
proof (rule ok_bind [where Q = "\<lambda>_. K"], goal_cases)
  case 1
  show ?case by (auto intro: ok_check)
next
  case (2 ns)
  show ?case
  proof (rule ok_bind [OF ok_read_serving], goal_cases)
    case (3 what)
    show ?case
    proof (cases what)
      case (ServingRead cfg uid)
      let ?K = "\<lambda>h. K h \<and> served parse w rel ns (ServingRead cfg uid) h"
      show ?thesis
        unfolding ServingRead routing_serving_read.case snapshot_of_def
      proof (rule ok_bind [where Q = "\<lambda>name h. (\<exists>tag. sc_imageTag cfg = JStr tag \<and> name = routingManifestSnapshotName sha rel tag) \<and> ?K h"], goal_cases)
        case 1
        show ?case by (cases "sc_imageTag cfg") (auto intro!: ok_return ok_throw)
      next
        case (2 name)
        show ?case
        proof (rule ok_pure, elim exE conjE, rule ok_if, goal_cases)
          case (1 tag)
          then show ?case
            using assms(2) by (intro ok_conseq [OF ok_keep_live [OF assms(1), where K = ?K]]) (auto simp: marks_live_snapshot_def)
        next
          case (2 tag)
          then show ?case
            using assms(2) by (auto intro!: ok_conseq [OF ok_copy_manifest [OF assms(1), where K = ?K]])
        qed
      qed
    qed (auto intro!: ok_return dest: served_absent)
  qed (use assms(2) retention_allowed_reads [OF assms(1)] in auto)
qed


section \<open>Reverting\<close>

text \<open>Everything a revert has established before it touches the Deployment.\<close>

definition prepared ::
    "(string \<Rightarrow> raw_json) \<Rightarrow> (json \<Rightarrow> string) \<Rightarrow> (string \<Rightarrow> string) \<Rightarrow> world \<Rightarrow> revert_options \<Rightarrow> string \<Rightarrow> routing_serving_config
      \<Rightarrow> string option \<Rightarrow> routing_revision \<Rightarrow> string option \<Rightarrow> history \<Rightarrow> bool" where
  "prepared parse text sha w opts ns cfg uid target found h \<longleftrightarrow>
     served parse w (rv_releaseName opts) ns (ServingRead cfg uid) h
     \<and> trusted parse w opts ns cfg uid target h
     \<and> snapshot_looked_up w (routingManifestSnapshotName sha (rv_releaseName opts) (rv_targetBuildId opts)) ns found h
     \<and> secret_there text w ns (rr_secretRef target) h"

lemma lasting_prepared [simp]: "lasting (prepared parse text sha w opts ns cfg uid target found)"
  unfolding prepared_def by simp

definition revert_command :: "(rat \<Rightarrow> string) \<Rightarrow> revert_options \<Rightarrow> string \<Rightarrow> routing_serving_config \<Rightarrow> routing_revision \<Rightarrow> string option \<Rightarrow> command" where
  "revert_command num opts ns cfg target found =
     patch_routing num (routing_deploy opts) ns (revert_patch (rv_targetBuildId opts) target (prior_spec cfg) found)"

definition restore_command :: "(rat \<Rightarrow> string) \<Rightarrow> revert_options \<Rightarrow> string \<Rightarrow> routing_serving_config \<Rightarrow> routing_revision \<Rightarrow> command" where
  "restore_command num opts ns cfg target =
     patch_routing num (routing_deploy opts) ns (restore_patch (prior_spec cfg) (rr_architecture target \<noteq> sc_nodeArchitecture cfg))"

definition rollout_command :: "revert_options \<Rightarrow> string \<Rightarrow> command" where
  "rollout_command opts ns = rollout_status (routing_deploy opts) ns rollout_arg"

text \<open>The patch was accepted and the rollout that followed was not.\<close>

definition rollout_failed :: "world \<Rightarrow> command \<Rightarrow> command \<Rightarrow> history \<Rightarrow> bool" where
  "rollout_failed w patch rollout h \<longleftrightarrow>
     (\<exists>h0 p q. h = h0 @ [patch, rollout] \<and> w h0 patch = Some p \<and> exitCode p = 0
        \<and> w (h0 @ [patch]) rollout = Some q \<and> exitCode q \<noteq> 0)"

definition patch_justified ::
    "(string \<Rightarrow> raw_json) \<Rightarrow> (rat \<Rightarrow> string) \<Rightarrow> (json \<Rightarrow> string) \<Rightarrow> (string \<Rightarrow> string) \<Rightarrow> world \<Rightarrow> revert_options \<Rightarrow> history \<Rightarrow> command \<Rightarrow> bool" where
  "patch_justified parse num text sha w opts h c \<longleftrightarrow>
     (\<exists>ns cfg uid target found. prepared parse text sha w opts ns cfg uid target found h
        \<and> (c = revert_command num opts ns cfg target found
           \<or> c = restore_command num opts ns cfg target
             \<and> rollout_failed w (revert_command num opts ns cfg target found) (rollout_command opts ns) h))"

definition revert_step ::
    "(string \<Rightarrow> raw_json) \<Rightarrow> (rat \<Rightarrow> string) \<Rightarrow> (json \<Rightarrow> string) \<Rightarrow> (string \<Rightarrow> string) \<Rightarrow> world \<Rightarrow> revert_options \<Rightarrow> history \<Rightarrow> command \<Rightarrow> bool" where
  "revert_step parse num text sha w opts h c \<longleftrightarrow>
     patch_justified parse num text sha w opts h c
     \<or> retention_step parse num sha w (rv_releaseName opts) h c \<and> (c ! 1 = ''get'' \<or> rv_retainCurrentManifest opts \<noteq> Some False)
     \<or> (\<exists>ns. c = rollout_command opts ns)"

text \<open>A revert that returns: there is no tier, or it has rolled out.\<close>

definition reverted ::
    "(string \<Rightarrow> raw_json) \<Rightarrow> (rat \<Rightarrow> string) \<Rightarrow> (json \<Rightarrow> string) \<Rightarrow> (string \<Rightarrow> string) \<Rightarrow> world \<Rightarrow> revert_options \<Rightarrow> history \<Rightarrow> bool" where
  "reverted parse num text sha w opts h \<longleftrightarrow>
     (\<exists>ns. tier_absent w (rv_releaseName opts) ns h)
     \<or> (\<exists>ns cfg uid target found. prepared parse text sha w opts ns cfg uid target found h
          \<and> succeeded_last w h [revert_command num opts ns cfg target found, rollout_command opts ns])"

lemma revert_step_reads: "reads_allowed (revert_step parse num text sha w opts)"
  unfolding reads_allowed_def revert_step_def retention_step_def by blast

lemma revert_steps:
  "prepared parse text sha w opts ns cfg uid target found h \<Longrightarrow>
     revert_step parse num text sha w opts h (revert_command num opts ns cfg target found)"
  "prepared parse text sha w opts ns cfg uid target found h \<Longrightarrow>
     rollout_failed w (revert_command num opts ns cfg target found) (rollout_command opts ns) h \<Longrightarrow>
     revert_step parse num text sha w opts h (restore_command num opts ns cfg target)"
  "revert_step parse num text sha w opts h (rollout_command opts ns)"
  unfolding revert_step_def patch_justified_def by metis+

lemma ok_roll_to:
  "io_ok w (revert_step parse num text sha w opts) (prepared parse text sha w opts ns cfg uid target found)
     (roll_to num (routing_deploy opts) ns (rv_targetBuildId opts) target (prior_spec cfg) found)
     (\<lambda>_. reverted parse num text sha w opts) (\<lambda>_ _. True)"
  (is "io_ok w ?G ?K _ ?Q ?E")
proof -
  let ?c = "revert_command num opts ns cfg target found" and ?d = "rollout_command opts ns" and ?u = "restore_command num opts ns cfg target"
  have K: "?K h \<Longrightarrow> ?K (h @ [x])" for h x using lasting_prepared unfolding lasting_def by blast
  have revert: "io_ok w ?G ?K (execCapture ?c) (\<lambda>p h. ?K h \<and> (\<exists>h0. h = h0 @ [?c] \<and> w h0 ?c = Some p)) ?E"
    by (rule ok_capture) (auto simp: K revert_steps)
  have rollout: "io_ok w ?G (\<lambda>h. ?K h \<and> (\<exists>h0. h = h0 @ [?c] \<and> w h0 ?c = Some p)) (execCapture ?d)
      (\<lambda>q h. ?K h \<and> (\<exists>h0. h = h0 @ [?c, ?d] \<and> w h0 ?c = Some p \<and> w (h0 @ [?c]) ?d = Some q)) ?E" for p
    by (rule ok_capture) (auto simp: K revert_steps)
  have restore: "io_ok w ?G (\<lambda>h. ?K h \<and> rollout_failed w ?c ?d h) (execCapture ?u) (\<lambda>_ _. True) ?E"
    by (rule ok_capture) (auto simp: revert_steps)
  have undo: "io_ok w ?G (\<lambda>h. ?K h \<and> rollout_failed w ?c ?d h)
      (restoreRoutingSpec num (routing_deploy opts) (prior_spec cfg) ns (rr_architecture target \<noteq> rs_nodeArchitecture (prior_spec cfg))) (\<lambda>_ _. True) ?E"
    unfolding restoreRoutingSpec_def
    by (intro ok_if ok_bind [where Q = "\<lambda>_ _. True"])
      (use restore in \<open>auto intro: ok_return simp: restore_command_def prior_spec_def\<close>)
  have settle: "io_ok w ?G (\<lambda>h. ?K h \<and> (\<exists>h0. h = h0 @ [?c, ?d] \<and> w h0 ?c = Some p \<and> w (h0 @ [?c]) ?d = Some q))
      (if exitCode q = 0 then io_return ()
       else io_bind (restoreRoutingSpec num (routing_deploy opts) (prior_spec cfg) ns (rr_architecture target \<noteq> rs_nodeArchitecture (prior_spec cfg)))
          (\<lambda>restored. io_throw (Thrown (msg restored)))) ?Q ?E" if "exitCode p = 0" for p q msg
  proof (rule ok_if, goal_cases)
    case 1
    show ?case
      using that 1 by (intro ok_return) (fastforce simp: reverted_def succeeded_last_def)
  next
    case 2
    show ?case
      by (rule ok_bind [OF ok_pre [OF undo]]) (use that 2 in \<open>auto simp: rollout_failed_def intro: ok_throw\<close>)
  qed
  show ?thesis
    unfolding roll_to_def revert_command_def [symmetric] rollout_command_def [symmetric]
    by (intro ok_bind [OF revert] ok_if ok_bind [OF rollout] settle) (auto intro: ok_throw)
qed

lemma ok_retain_or_not:
  assumes "lasting K"
  shows "io_ok w (revert_step parse num text sha w opts) K
     (if rv_retainCurrentManifest opts = Some False then io_return NoRoutingTier
      else retainLiveRoutingManifest parse num sha (rv_releaseName opts) (Some ns)) (\<lambda>_. K) (\<lambda>_ _. True)"
proof (rule ok_if, goal_cases)
  case 2
  then have "retention_allowed parse num sha w (rv_releaseName opts) (revert_step parse num text sha w opts)"
    by (simp add: retention_allowed_def revert_step_def)
  from ok_retain [OF this assms] show ?case by (rule ok_conseq) auto
qed (auto intro: ok_return)

lemma ok_revert_read_tier:
  "io_ok w (revert_step parse num text sha w opts) (served parse w (rv_releaseName opts) ns (ServingRead cfg uid))
     (revert_read_tier parse num text sha opts ns cfg uid) (\<lambda>_. reverted parse num text sha w opts) (\<lambda>_ _. True)"
  (is "io_ok w ?G ?S _ _ ?E")
proof -
  let ?name = "routingManifestSnapshotName sha (rv_releaseName opts) (rv_targetBuildId opts)"
  let ?T = "\<lambda>target h. ?S h \<and> trusted parse w opts ns cfg uid target h"
  let ?F = "\<lambda>target found h. ?T target h \<and> snapshot_looked_up w ?name ns found h"
  have registry: "io_ok w ?G ?S (case rv_registry opts of None \<Rightarrow> io_return () | Some r \<Rightarrow> io_check (assertSafeImageRegistry r)) (\<lambda>_. ?S) ?E"
    by (cases "rv_registry opts") (auto intro: ok_return ok_check)
  have trust: "io_ok w ?G ?S (readTrustedRoutingRevision parse (routing_deploy opts) uid ns (rv_targetBuildId opts) (live_of cfg)) ?T ?E"
    by (rule ok_conseq [OF ok_read_trusted [OF revert_step_reads lasting_facts(1)]]) auto
  have look: "io_ok w ?G (?T target) (execCapture (find_snapshot ?name ns))
      (\<lambda>snap h. ?F target (if there snap then Some ?name else None) h) ?E" for target
    by (rule ok_conseq [OF ok_ask [of "?T target"]]) (auto simp: revert_step_reads snapshot_looked_up_def intro: learntI)
  have secret: "io_ok w ?G (?F target found) (require_secret text (rr_secretRef target) ns)
      (\<lambda>_. prepared parse text sha w opts ns cfg uid target found) ?E" for target found
    by (rule ok_conseq [OF ok_require_secret [OF revert_step_reads, of "?F target found"]]) (auto simp: prepared_def)
  show ?thesis
    unfolding revert_read_tier_def Let_def
    by (intro ok_bind [OF registry] ok_bind [OF trust] ok_then [OF ok_retain_or_not] ok_bind [OF look] ok_then [OF secret] ok_roll_to) simp
qed

lemma ok_revert:
  "io_ok w (revert_step parse num text sha w opts) (\<lambda>_. True)
     (revertRoutingServiceToBuild parse num text sha opts) (\<lambda>_. reverted parse num text sha w opts) (\<lambda>_ _. True)"
  (is "io_ok w ?G _ _ ?Q ?E")
proof -
  have checked: "io_ok w ?G (\<lambda>_. True) (io_check c) (\<lambda>_ _. True) ?E" for c :: "invalid + 'b"
    by (auto intro: ok_check)
  have read: "io_ok w ?G (\<lambda>_. True) (readRoutingServingConfig parse (rv_releaseName opts) (Some ns)) (served parse w (rv_releaseName opts) ns) ?E" for ns
    by (rule ok_conseq [OF ok_read_serving [OF revert_step_reads, of "\<lambda>_. True"]]) auto
  show ?thesis
    unfolding revertRoutingServiceToBuild_def
  proof (rule ok_bind [OF checked], rule ok_bind [OF checked], rule ok_bind [OF read], goal_cases)
    case (1 ns _ what)
    show ?case
      by (cases what) (auto intro!: ok_revert_read_tier ok_return ok_throw simp: reverted_def dest: served_absent)
  qed
qed

text \<open>A patch is none of the other commands a revert runs.\<close>

lemma retention_patches_nothing: "retention_step parse num sha w rel h c \<Longrightarrow> c ! 1 \<noteq> ''patch''"
  unfolding retention_step_def copies_live_manifest_def annotate_keep_def label_snapshot_def apply_stdin_def by auto

lemma rollout_patches_nothing: "rollout_command opts ns ! 1 \<noteq> ''patch''"
  by (simp add: rollout_command_def rollout_status_def)

text \<open>
  C22: Reverting the routing tier patches its Deployment for two reasons only. Either to the image, Secret
  and architecture that the ReplicaSet listing or the live Deployment vouches for, stamped with the build
  asked for and mounting that build's snapshot where it was found, after the Secret was found to exist; or,
  directly after that patch was accepted and its rollout failed, back to what was read at the start. It
  returns only when the release has no routing tier or that patch and its rollout succeeded last.
\<close>

theorem edge_moves_only_to_trusted_build:
  assumes "revertRoutingServiceToBuild parse num text sha opts w [] = (r, h)"
  shows "(\<forall>as c bs. h = as @ c # bs \<and> c ! 1 = ''patch'' \<longrightarrow> patch_justified parse num text sha w opts as c)
       \<and> (r = Inr () \<longrightarrow> reverted parse num text sha w opts h)"
proof -
  have "patch_justified parse num text sha w opts as c" if "h = as @ c # bs" "c ! 1 = ''patch''" for as c bs
  proof -
    have "revert_step parse num text sha w opts as c" using ok_run [OF ok_revert, where h = "[]"] assms that by simp
    with that(2) show ?thesis
      unfolding revert_step_def using retention_patches_nothing rollout_patches_nothing by blast
  qed
  then show ?thesis using ok_revert assms unfolding io_ok_def by (fastforce split: sum.splits)
qed

section \<open>The recovery handle of the gates\<close>

abbreviation recovery_options :: "edge_recovery \<Rightarrow> string \<Rightarrow> revert_options" where
  "recovery_options ec previous \<equiv>
     \<lparr>rv_releaseName = ec_releaseName ec, rv_namespace = Some (ec_namespace ec), rv_targetBuildId = previous,
      rv_registry = ec_registry ec, rv_retainCurrentManifest = Some False\<rparr>"

text \<open>
  C24: The recovery handle never throws. Before Helm was invoked, without a previous build, or when the
  previous build is the new one, it runs no command and reports that nothing was attempted. Otherwise
  each command it runs is a read, a wait for the rollout, or a justified patch to the previous build: it
  writes no manifest snapshot. It reports the edge as restored only when the release has no routing tier
  or the tier was patched to the previous build and has rolled out, and then with no error.
\<close>

theorem recovery_reports_the_edge:
  assumes "restoreEdgeToPreviousBuild (revertRoutingServiceToBuild parse num text sha) ec w [] = (r, h)"
  shows "case edge_to_restore ec of
           None \<Rightarrow> h = [] \<and> r = Inr \<lparr>er_attempted = False, er_restored = False, er_error = []\<rparr>
         | Some previous \<Rightarrow> (\<exists>res. r = Inr res \<and> er_attempted res
             \<and> (er_restored res \<longrightarrow> reverted parse num text sha w (recovery_options ec previous) h \<and> er_error res = [])
             \<and> (\<forall>as c bs. h = as @ c # bs \<longrightarrow> c ! 1 \<in> {''get'', ''rollout''}
                  \<or> patch_justified parse num text sha w (recovery_options ec previous) as c))"
proof (cases "edge_to_restore ec")
  case None
  then show ?thesis using assms by (simp add: restoreEdgeToPreviousBuild_def io_return_def)
next
  case (Some previous)
  let ?o = "recovery_options ec previous"
  obtain q h1 where run: "revertRoutingServiceToBuild parse num text sha ?o w [] = (q, h1)" by fastforce
  then have h: "h1 = h" and r: "r = Inr (case q of Inl e \<Rightarrow> \<lparr>er_attempted = True, er_restored = False, er_error = error_text e\<rparr>
        | Inr _ \<Rightarrow> \<lparr>er_attempted = True, er_restored = True, er_error = []\<rparr>)"
    using assms Some by (auto simp: restoreEdgeToPreviousBuild_def io_defs split: sum.splits)
  have step: "c ! 1 \<in> {''get'', ''rollout''} \<or> patch_justified parse num text sha w ?o as c" if "h = as @ c # bs" for as c bs
  proof -
    have "revert_step parse num text sha w ?o as c" using ok_run [OF ok_revert, where h = "[]"] run h that by simp
    then show ?thesis unfolding revert_step_def by (auto simp: rollout_command_def rollout_status_def)
  qed
  have "reverted parse num text sha w ?o h" if "q = Inr ()"
    using ok_revert [of w parse num "text" sha ?o] run that h unfolding io_ok_def by fastforce
  then show ?thesis using Some r step by (auto split: sum.splits)
qed

text \<open>A patch that is answered with an error ends the revert: nothing is put back, whatever became of it.\<close>

lemma failed_patch_is_not_undone:
  assumes "w h (patch_routing num deployName ns (revert_patch build target prior found)) = Some p" "exitCode p \<noteq> 0"
  shows "roll_to num deployName ns build target prior found w h =
    (Inl (Thrown ''Failed to revert the routing service''), h @ [patch_routing num deployName ns (revert_patch build target prior found)])"
  using assms by (simp add: roll_to_def io_defs)

section \<open>A run\<close>

text \<open>The tier serves build \<^verbatim>\<open>b2\<close>, a ReplicaSet remembers \<^verbatim>\<open>b1\<close>, and the rollout to \<^verbatim>\<open>b1\<close> fails.\<close>

definition edge_demo_spec :: "string \<Rightarrow> json" where
  "edge_demo_spec img = JObj [(''template'', JObj [(''spec'', JObj
     [(''containers'', JArr [JObj [(''name'', JStr ''routing-service''), (''image'', JStr img)]]),
      (''volumes'', JArr [JObj [(''name'', JStr ''routing-manifest''), (''configMap'', JObj [(''name'', JStr ''shop-routing-manifest'')])]])])])]"

definition edge_demo_owner :: json where
  "edge_demo_owner = JObj [(''apiVersion'', JStr ''apps/v1''), (''kind'', JStr ''Deployment''),
     (''name'', JStr ''shop-routing-service''), (''uid'', JStr ''u1''), (''controller'', JBool True)]"

definition edge_demo_parse :: "string \<Rightarrow> raw_json" where
  "edge_demo_parse s =
     (if s = ''D'' then Some (JObj [(''metadata'', JObj [(''uid'', JStr ''u1'')]), (''spec'', edge_demo_spec ''r/rt:b2'')])
      else if s = ''R'' then Some (JObj [(''items'', JArr
         [JObj [(''metadata'', JObj [(''ownerReferences'', JArr [edge_demo_owner])]), (''spec'', edge_demo_spec ''r/rt:b1'')]])])
      else if s = ''M'' then Some (JObj [(''data'', JObj [(''routing-manifest.json'', JStr ''m'')])])
      else None)"

definition edge_demo_world :: world where
  "edge_demo_world h c =
     Some (if c ! 1 = ''rollout'' then \<lparr>exitCode = 1, stdout = [], stderr = []\<rparr>
           else \<lparr>exitCode = 0,
             stdout = (if c ! 2 = ''deployment'' then ''D'' else if c ! 2 = ''replicasets'' then ''R''
                       else if c ! 3 = ''shop-routing-manifest'' then ''M'' else []), stderr = []\<rparr>)"

definition edge_demo_options :: revert_options where
  "edge_demo_options = \<lparr>rv_releaseName = ''shop'', rv_namespace = Some ''web'', rv_targetBuildId = ''b1'', rv_registry = None,
     rv_retainCurrentManifest = Some False\<rparr>"

definition edge_demo_run :: "(thrown + unit) \<times> history" where
  "edge_demo_run = revertRoutingServiceToBuild edge_demo_parse (\<lambda>_. []) (\<lambda>_. []) (\<lambda>_. replicate 64 CHR ''0'') edge_demo_options edge_demo_world []"


definition edge_demo_recovery :: edge_recovery where
  "edge_demo_recovery = markHelmMutationAttempted (createEdgeRecovery ''shop'' ''web'' ''b2'' (Some ''b1'') None)"

theorem edge_moves_only_to_trusted_build_witness:
  "patch_justified edge_demo_parse (\<lambda>_. []) (\<lambda>_. []) (\<lambda>_. replicate 64 CHR ''0'') edge_demo_world edge_demo_options
     (take 5 (snd edge_demo_run)) (snd edge_demo_run ! 5)"
proof -
  have h: "length (snd edge_demo_run) = 6" "snd edge_demo_run ! 5 ! 1 = ''patch''" by code_simp+
  have "snd edge_demo_run = take 5 (snd edge_demo_run) @ snd edge_demo_run ! 5 # drop 6 (snd edge_demo_run)"
    using h(1) id_take_nth_drop [of 5 "snd edge_demo_run"] by simp
  then show ?thesis
    using edge_moves_only_to_trusted_build
      [of edge_demo_parse "\<lambda>_. []" "\<lambda>_. []" "\<lambda>_. replicate 64 CHR ''0''" edge_demo_options edge_demo_world "fst edge_demo_run" "snd edge_demo_run"] h(2)
    unfolding edge_demo_run_def [symmetric] by fastforce
qed


definition calm_world :: world where
  "calm_world h c = Some \<lparr>exitCode = 0, stdout = (if c ! 2 = ''deployment'' then ''D'' else ''R''), stderr = []\<rparr>"

definition recovery_demo_run :: "(thrown + edge_result) \<times> history" where
  "recovery_demo_run = restoreEdgeToPreviousBuild (revertRoutingServiceToBuild edge_demo_parse (\<lambda>_. []) (\<lambda>_. []) (\<lambda>_. replicate 64 CHR ''0''))
     edge_demo_recovery calm_world []"

theorem recovery_reports_the_edge_witness:
  "reverted edge_demo_parse (\<lambda>_. []) (\<lambda>_. []) (\<lambda>_. replicate 64 CHR ''0'')
     calm_world
     (recovery_options edge_demo_recovery ''b1'') (snd recovery_demo_run)"
proof -
  have e: "edge_to_restore edge_demo_recovery = Some ''b1''" by code_simp
  have ok: "fst recovery_demo_run = Inr \<lparr>er_attempted = True, er_restored = True, er_error = []\<rparr>" by code_simp
  have run: "restoreEdgeToPreviousBuild (revertRoutingServiceToBuild edge_demo_parse (\<lambda>_. []) (\<lambda>_. []) (\<lambda>_. replicate 64 CHR ''0''))
      edge_demo_recovery calm_world [] = (Inr \<lparr>er_attempted = True, er_restored = True, er_error = []\<rparr>, snd recovery_demo_run)"
    unfolding ok [symmetric] by (simp add: recovery_demo_run_def)
  show ?thesis using recovery_reports_the_edge [OF run] unfolding e option.case by simp
qed

end
