(* ===== verification/Cutover.thy ===== *)
theory Cutover
  imports DeployState CacheControl GateSafety EdgeSafety
begin

text \<open>
  \<^verbatim>\<open>src/cutover/run.ts\<close>: the order in which a promotion (\<open>runCutover\<close>) and a rollback (\<open>runRevert\<close>) use
  the components of the other theories, and the deploy state they commit. The gates, the edge recovery,
  parking and collection are the programs of \<open>Gates\<close>, \<open>Edge\<close> and \<open>Gc\<close>. The operations whose models are not
  programs over commands (the deploy state, the switch of the selectors, retention, the readiness of a
  composition plan, the invalidation of the CDN) are each one step: an entry of the history of their
  own, answered by an arbitrary function of the history before it.
\<close>

section \<open>Collaborators as steps\<close>

record calls =
  call_protect :: "history \<Rightarrow> thrown + unit"
  call_planReady :: "history \<Rightarrow> thrown + unit"
  call_readState :: "history \<Rightarrow> thrown + json option"
  call_prepare :: "history \<Rightarrow> thrown + bool"
  call_switch :: "history \<Rightarrow> thrown + unit"
  call_snapshot :: "history \<Rightarrow> thrown + unit"
  call_flip :: "history \<Rightarrow> thrown + unit"
  call_writeState :: "history \<Rightarrow> thrown + unit"
  call_invalidate :: "history \<Rightarrow> thrown + unit"

definition call_entry :: "string \<Rightarrow> string list \<Rightarrow> command" where
  "call_entry name args = ''call'' # name # args"

definition io_call :: "string \<Rightarrow> string list \<Rightarrow> (history \<Rightarrow> thrown + 'a) \<Rightarrow> 'a io" where
  "io_call name args f w h = (f h, h @ [call_entry name args])"

text \<open>\<open>StateUnavailableError\<close>, the error of a store that cannot be read.\<close>

definition StateUnavailable :: thrown where
  "StateUnavailable = Thrown ''StateUnavailableError''"

section \<open>What a promotion is given\<close>

record cutover_inputs =
  ci_skipCleanup :: bool
  ci_releaseName :: string
  ci_namespace :: string
  ci_buildId :: string
  ci_previousBuildId :: "string option"
  ci_pools :: "string list"
  ci_previousPools :: "string list"
  ci_defaultPool :: string
  ci_hasPortableOrigin :: bool
  ci_hasRoutingTier :: bool
  ci_hasHealthCheckPolicy :: bool
  ci_previousReplicas :: "(string, int) jsmap"
  ci_state :: "json option"
  ci_composition :: "(string \<times> string) option"
  ci_routingDigest :: "string option"
  ci_platform :: string
  ci_unretained :: "string option"
  ci_projectId :: "string option"
  ci_hasRouteExtJob :: bool
  ci_hasEnvoyExtensionPolicy :: bool
  ci_cdnEnabled :: bool

section \<open>The state a promotion commits\<close>

text \<open>\<open>state?.[field]?.[previousBuildId]\<close>, where there is a previous build.\<close>

definition recorded_for :: "json option \<Rightarrow> string \<Rightarrow> string option \<Rightarrow> json option" where
  "recorded_for state field previous =
     (case truthy_build previous of None \<Rightarrow> None | Some p \<Rightarrow> oget (oget state field) p)"

text \<open>The previous build's entry, carried over verbatim when it is truthy.\<close>

definition carried :: "json option \<Rightarrow> string \<Rightarrow> string option \<Rightarrow> (string \<times> json) list" where
  "carried state field previous =
     (let v = recorded_for state field previous in if js_falsy v then [] else [(the previous, the v)])"

definition plan_record :: "string \<times> string \<Rightarrow> json" where
  "plan_record snapshot = JObj [(''digest'', JStr (fst snapshot)), (''targetFingerprint'', JStr (snd snapshot))]"

definition with_own :: "string \<Rightarrow> json option \<Rightarrow> (string \<times> json) list \<Rightarrow> (string \<times> json) list" where
  "with_own buildId v ms = (case v of None \<Rightarrow> ms | Some j \<Rightarrow> jsmap_set buildId j ms)"

text \<open>\<open>(state?.unretainedManifestBuilds ?? []).filter(...)\<close>, which throws when it has no such method.\<close>

definition carried_unretained :: "json option \<Rightarrow> string option \<Rightarrow> thrown + json list" where
  "carried_unretained state previous =
     (case or_null (oget state ''unretainedManifestBuilds'') of
        None \<Rightarrow> Inr []
      | Some (JArr bs) \<Rightarrow> Inr (filter (\<lambda>b. Some b = map_option JStr previous) bs)
      | _ \<Rightarrow> Inl TypeError)"

definition nonempty_member :: "string \<Rightarrow> (string \<times> json) list \<Rightarrow> (string \<times> json) list" where
  "nonempty_member k ms = (if ms = [] then [] else [(k, JObj ms)])"

definition str_array :: "string list \<Rightarrow> json" where
  "str_array xs = JArr (map JStr xs)"

text \<open>A previous build without surviving pools is not recorded.\<close>

definition recordable :: "cutover_inputs \<Rightarrow> string option" where
  "recordable i = (if ci_previousPools i \<noteq> [] then truthy_build (ci_previousBuildId i) else None)"

definition pool_topologies :: "cutover_inputs \<Rightarrow> (string \<times> json) list" where
  "pool_topologies i = jsmap_set (ci_buildId i) (str_array (ci_pools i))
     (case recordable i of None \<Rightarrow> [] | Some p \<Rightarrow> [(p, str_array (ci_previousPools i))])"

definition default_pools :: "cutover_inputs \<Rightarrow> (string \<times> json) list" where
  "default_pools i = jsmap_set (ci_buildId i) (JStr (ci_defaultPool i))
     (case recordable i of None \<Rightarrow> []
      | Some p \<Rightarrow> [(p, js_default (oget (oget (ci_state i) ''defaultPools'') p) (JStr (hd (ci_previousPools i))))])"

definition remdups_first :: "json list \<Rightarrow> json list" where
  "remdups_first xs = rev (remdups (rev xs))"

definition cutover_body :: "(string \<Rightarrow> string) \<Rightarrow> cutover_inputs \<Rightarrow> json list \<Rightarrow> (string \<times> json) list" where
  "cutover_body sha i unretained =
     (let state = ci_state i; build = ci_buildId i; previous = ci_previousBuildId i in
     [(''buildId'', JStr build), (''previousBuildId'', (case previous of None \<Rightarrow> JNull | Some p \<Rightarrow> JStr p)),
      (''cdnTags'', JObj (with_own build (Some (JStr (cdnTagForBuildId sha build))) (carried state ''cdnTags'' previous)))]
     @ nonempty_member ''routingImageDigests''
         (with_own build (map_option JStr (truthy_build (ci_routingDigest i))) (carried state ''routingImageDigests'' previous))
     @ [(''poolTopologies'', JObj (pool_topologies i))]
     @ (if ci_hasPortableOrigin i \<or> \<not> js_falsy (oget state ''defaultPools'') then [(''defaultPools'', JObj (default_pools i))] else [])
     @ [(''targetPlatforms'', JObj (with_own build (Some (JStr (ci_platform i))) (carried state ''targetPlatforms'' previous)))]
     @ nonempty_member ''compositionPlans''
         (with_own build (map_option plan_record (ci_composition i)) (carried state ''compositionPlans'' previous))
     @ [(''readinessPathSupported'', JBool True)]
     @ (if unretained = [] then [] else [(''unretainedManifestBuilds'', JArr unretained)]))"

definition cutover_state :: "(string \<Rightarrow> string) \<Rightarrow> cutover_inputs \<Rightarrow> thrown + state_write" where
  "cutover_state sha i =
     res_bind (carried_unretained (ci_state i) (ci_previousBuildId i)) (\<lambda>kept.
       Inr \<lparr>sw_body = cutover_body sha i (remdups_first (kept @ (case truthy_build (ci_unretained i) of None \<Rightarrow> [] | Some b \<Rightarrow> [JStr b]))),
            sw_based = js_default (oget (ci_state i) ''generation'') JNull\<rparr>)"

section \<open>A promotion\<close>

definition gate_context_of :: "edge_result io \<Rightarrow> cutover_inputs \<Rightarrow> gate_context" where
  "gate_context_of restoreEdge i =
     \<lparr>ctx_releaseName = ci_releaseName i, ctx_namespace = ci_namespace i, ctx_buildId = ci_buildId i,
      ctx_safeBuildId = sanitizeK8sName (ci_buildId i) [], ctx_previousBuildId = ci_previousBuildId i,
      ctx_poolRolloutWait = poolRolloutWaitBudget, ctx_restoreEdge = restoreEdge\<rparr>"

text \<open>\<open>===\<close> on values from \<open>JSON.parse\<close>: two objects are never the same.\<close>

definition js_same :: "json option \<Rightarrow> json option \<Rightarrow> bool" where
  "js_same a b \<longleftrightarrow> a = b \<and> (case a of Some (JArr _) \<Rightarrow> False | Some (JObj _) \<Rightarrow> False | _ \<Rightarrow> True)"

definition same_generation :: "json \<Rightarrow> json \<Rightarrow> bool" where
  "same_generation a b = js_same (Some (js_default (jget a ''generation'') (JNum 0))) (Some (js_default (jget b ''generation'') (JNum 0)))"

definition state_changed :: "json option \<Rightarrow> json option \<Rightarrow> bool" where
  "state_changed state latest =
     (case state of
        None \<Rightarrow> latest \<noteq> None
      | Some s \<Rightarrow> (case latest of None \<Rightarrow> True
          | Some l \<Rightarrow> \<not> js_same (jget l ''buildId'') (jget s ''buildId'') \<or> \<not> same_generation l s))"

text \<open>The store may stay unreadable when the previous build was recovered from the selectors.\<close>

definition may_be_unavailable :: "cutover_inputs \<Rightarrow> thrown \<Rightarrow> bool" where
  "may_be_unavailable i e \<longleftrightarrow> ci_state i = None \<and> truthy_build (ci_previousBuildId i) \<noteq> None \<and> e = StateUnavailable"

definition revalidate_state :: "calls \<Rightarrow> cutover_inputs \<Rightarrow> edge_result io \<Rightarrow> unit io \<Rightarrow> unit io" where
  "revalidate_state cs i restoreEdge restoreHpas =
     io_catch
       (io_bind (io_call ''readState'' [] (call_readState cs)) (\<lambda>latest.
          if state_changed (ci_state i) latest then io_throw (Thrown ''deploy state changed'') else io_return ()))
       (\<lambda>e. if may_be_unavailable i e then io_return ()
            else io_then restoreEdge (io_then restoreHpas (io_throw (Thrown ''could not be revalidated''))))"

definition prepare_retention :: "calls \<Rightarrow> edge_result io \<Rightarrow> unit io \<Rightarrow> bool io" where
  "prepare_retention cs restoreEdge restoreHpas =
     io_catch (io_call ''prepareRetention'' [] (call_prepare cs))
       (\<lambda>e. io_then restoreEdge (io_then restoreHpas (io_throw e)))"

definition write_text :: "(rat \<Rightarrow> string) \<Rightarrow> state_write \<Rightarrow> string list" where
  "write_text num sw = [stringify num (JObj (sw_body sw)), stringify num (sw_based sw)]"

definition commit_state :: "(rat \<Rightarrow> string) \<Rightarrow> calls \<Rightarrow> thrown + state_write \<Rightarrow> unit io \<Rightarrow> unit io" where
  "commit_state num cs state restoreHpas =
     io_catch (io_bind (io_lift state) (\<lambda>sw. io_call ''writeState'' (write_text num sw) (call_writeState cs)))
       (\<lambda>_. io_then restoreHpas (io_throw (CutoverExitError 1)))"

definition plan_gate :: "calls \<Rightarrow> cutover_inputs \<Rightarrow> edge_result io \<Rightarrow> unit io" where
  "plan_gate cs i restoreEdge =
     (if ci_composition i = None then io_return ()
      else io_catch (io_call ''waitForCompositionPlanReadiness'' [] (call_planReady cs))
             (\<lambda>_. io_then restoreEdge (io_throw (Thrown ''Composition-plan readiness failed''))))"

text \<open>Phase D up to the warm-up: nothing the outgoing build relies on changes.\<close>

definition entry_gates :: "(string \<Rightarrow> raw_json) \<Rightarrow> (string \<Rightarrow> string) \<Rightarrow> calls \<Rightarrow> edge_result io \<Rightarrow> cutover_inputs \<Rightarrow> unit io" where
  "entry_gates parse sha cs restoreEdge i =
     (let ctx = gate_context_of restoreEdge i
      in io_then (io_catch (io_call ''protectRetentionBuild'' [] (call_protect cs)) (\<lambda>e. io_then restoreEdge (io_throw e)))
        (io_then (waitPoolRollouts ctx)
        (io_then (if ci_hasRoutingTier i then waitRoutingRollout ctx else io_return ())
        (io_then (if ci_hasRouteExtJob i then waitRouteExtJob ctx (routeExtJobName sha (ci_releaseName i) (ci_buildId i)) else io_return ())
        (io_then (if ci_hasEnvoyExtensionPolicy i then waitPolicyAccepted parse ctx else io_return ())
                 (plan_gate cs i restoreEdge))))))"

definition gc_options :: "cutover_inputs \<Rightarrow> gc_opts" where
  "gc_options i =
     \<lparr>gc_releaseName = ci_releaseName i, gc_namespace = ci_namespace i, gc_buildId = ci_buildId i,
      gc_previousBuildId = ci_previousBuildId i, gc_pools = ci_pools i, gc_previousPools = ci_previousPools i,
      gc_hasPortableOrigin = ci_hasPortableOrigin i, gc_hasHealthCheckPolicy = ci_hasHealthCheckPolicy i\<rparr>"

definition invalidate_cdn :: "calls \<Rightarrow> unit io" where
  "invalidate_cdn cs = io_catch (io_call ''invalidateCdnBuildTag'' [] (call_invalidate cs)) (\<lambda>_. io_return ())"

text \<open>After the commit. \<open>complete\<close> of the retention handle handles its own errors.\<close>

definition after_commit ::
    "(string \<Rightarrow> raw_json) \<Rightarrow> (json \<Rightarrow> string) \<Rightarrow> (string \<Rightarrow> string) \<Rightarrow> calls \<Rightarrow> cutover_inputs \<Rightarrow> bool \<Rightarrow> unit io" where
  "after_commit parse text sha cs i retain =
     io_then (if retain then io_call ''complete'' [] (\<lambda>_. Inr ()) else io_return ())
    (io_then (if ci_composition i = None \<and> ci_cdnEnabled i \<and> truthy_build (ci_projectId i) \<noteq> None then invalidate_cdn cs else io_return ())
    (if ci_skipCleanup i then io_return ()
     else io_then (scaleDownPreviousBuild (ci_releaseName i) (ci_namespace i) (ci_buildId i) (ci_previousBuildId i) (ci_previousPools i)
                     (Some (if retain then 1 else 0)))
                  (gcSupersededResources sha parse text (gc_options i))))"

definition promote ::
    "(rat \<Rightarrow> string) \<Rightarrow> (string \<Rightarrow> string) \<Rightarrow> calls \<Rightarrow> edge_result io \<Rightarrow> cutover_inputs \<Rightarrow> unit io \<Rightarrow> bool io" where
  "promote num sha cs restoreEdge i restoreHpas =
     io_then (revalidate_state cs i restoreEdge restoreHpas)
    (io_bind (prepare_retention cs restoreEdge restoreHpas) (\<lambda>retain.
     io_then (io_call ''switchTrafficToNewBuild'' [] (call_switch cs))
    (io_then (commit_state num cs (cutover_state sha i) restoreHpas)
    (io_then restoreHpas (io_return retain)))))"

definition runCutover ::
    "(string \<Rightarrow> raw_json) \<Rightarrow> (rat \<Rightarrow> string) \<Rightarrow> (json \<Rightarrow> string) \<Rightarrow> (string \<Rightarrow> string) \<Rightarrow> calls \<Rightarrow> edge_result io \<Rightarrow> cutover_inputs \<Rightarrow> unit io" where
  "runCutover parse num text sha cs restoreEdge i =
     (let ctx = gate_context_of restoreEdge i
      in io_then (entry_gates parse sha cs restoreEdge i)
        (io_bind (warmUpHpas ctx (ci_pools i) (ci_previousReplicas i)) (\<lambda>(capacityTargets, warmed).
         let restoreHpas = io_then (restoreWarmedHpas (ci_namespace i) warmed []) (io_return ())
         in io_then (waitReadyCapacity ctx capacityTargets restoreHpas)
           (io_bind (promote num sha cs restoreEdge i restoreHpas) (\<lambda>retain.
            after_commit parse text sha cs i retain)))))"

section \<open>A rollback\<close>

record revert_inputs =
  ri_skipCleanup :: bool
  ri_releaseName :: string
  ri_namespace :: string
  ri_currentBuildId :: string
  ri_previousBuildId :: string
  ri_poolNames :: "string list"
  ri_currentPoolNames :: "string list"
  ri_previousDeploys :: "pool_deploy list"
  ri_currentDeploys :: "pool_deploy list"
  ri_scaling :: "(string, scaling) jsmap"
  ri_state :: json
  ri_targetComposition :: bool
  ri_registry :: "string option"
  ri_projectId :: "string option"
  ri_cdnEnabled :: bool

definition scaling_of :: "revert_inputs \<Rightarrow> string \<Rightarrow> scaling" where
  "scaling_of i pool = (case map_of (ri_scaling i) pool of None \<Rightarrow> \<lparr>sc_min = 1, sc_max = 3, sc_targetCPU = 80\<rparr> | Some s \<Rightarrow> s)"

definition scale_up :: "revert_inputs \<Rightarrow> (string, capacity_plan) jsmap \<Rightarrow> pool_deploy \<Rightarrow> (string, capacity_plan) jsmap io" where
  "scale_up i capacityByPool d =
     io_bind (readLiveCapacity (ri_releaseName i) (pd_pool d) (ri_currentBuildId i) (ri_namespace i)) (\<lambda>(observed, _).
     let plan = planRollbackCapacity observed (scaling_of i (pd_pool d))
     in io_bind (execOrThrow (scale_cmd (ri_namespace i) (pd_name d) (cp_replicas plan))) (\<lambda>_.
        io_return (jsmap_set (pd_pool d) plan capacityByPool)))"

definition autoscale_cmd :: "revert_inputs \<Rightarrow> pool_deploy \<Rightarrow> capacity_plan \<Rightarrow> command" where
  "autoscale_cmd i d plan =
     [''kubectl'', ''autoscale'', ''deployment'', pd_name d, ''-n'', ri_namespace i, ''--name='' @ pd_hpa d,
      ''--min='' @ int_dec (cp_min plan), ''--max='' @ int_dec (cp_max plan), ''--cpu='' @ int_dec (sc_targetCPU (scaling_of i (pd_pool d))) @ ''%'']"

definition ensure_autoscaler :: "revert_inputs \<Rightarrow> (string, capacity_plan) jsmap \<Rightarrow> pool_deploy \<Rightarrow> unit io" where
  "ensure_autoscaler i capacityByPool d =
     (let s = scaling_of i (pd_pool d);
          plan = (case map_of capacityByPool (pd_pool d) of
                    None \<Rightarrow> \<lparr>cp_replicas = ROLLBACK_MIN_REPLICAS, cp_min = sc_min s, cp_max = sc_max s\<rparr> | Some p \<Rightarrow> p)
      in io_bind (execCapture (capacity_get ''hpa'' (pd_hpa d) (ri_namespace i) ''name'')) (\<lambda>found.
         if js_trim (stdout found) = [] then io_then (execOrThrow (autoscale_cmd i d plan)) (io_return ())
         else io_then (execCapture (patch_hpa (pd_hpa d) (ri_namespace i) (cp_min plan) (cp_max plan))) (io_return ())))"

definition await_rollout :: "revert_inputs \<Rightarrow> pool_deploy \<Rightarrow> unit io" where
  "await_rollout i d = io_then (execOrThrow (rollout_status (pd_name d) (ri_namespace i) ''--timeout=120s'')) (io_return ())"

text \<open>Steps 1 to 3: bring the target back at size and see it serve.\<close>

definition bring_back :: "calls \<Rightarrow> revert_inputs \<Rightarrow> unit io" where
  "bring_back cs i =
     io_then (io_call ''protectRetentionBuild'' [] (call_protect cs))
    (io_bind (io_fold (scale_up i) [] (ri_previousDeploys i)) (\<lambda>capacityByPool.
     io_then (io_each (ensure_autoscaler i capacityByPool) (ri_previousDeploys i))
    (io_then (io_each (await_rollout i) (ri_previousDeploys i))
    (io_then (waitPreviousBuildServing (ri_releaseName i) (ri_namespace i) (sanitizeK8sName (ri_previousBuildId i) [])
                (map pd_name (ri_previousDeploys i)))
             (if ri_targetComposition i then io_call ''waitForCompositionPlanReadiness'' [] (call_planReady cs) else io_return ())))))"

definition rollback_still_valid :: "revert_inputs \<Rightarrow> json option \<Rightarrow> bool" where
  "rollback_still_valid i latest =
     (case latest of None \<Rightarrow> False
      | Some l \<Rightarrow> jget l ''buildId'' = Some (JStr (ri_currentBuildId i)) \<and> jget l ''previousBuildId'' = Some (JStr (ri_previousBuildId i))
          \<and> same_generation l (ri_state i))"

text \<open>The committed state with the two builds swapped; the maps per build are pruned to the two.\<close>

definition pruned :: "revert_inputs \<Rightarrow> string \<Rightarrow> (string \<times> json) list \<Rightarrow> (string \<times> json) list" where
  "pruned i field body =
     (if js_falsy (jget (ri_state i) field) then body
      else jsmap_set field (JObj (filter (\<lambda>(b, _). b \<in> {ri_currentBuildId i, ri_previousBuildId i})
             (the (object_entries (the (jget (ri_state i) field)))))) body)"

definition durable :: "json \<Rightarrow> (string \<times> json) list" where
  "durable state = (case state of JObj ms \<Rightarrow>
     filter (\<lambda>(k, _). k \<notin> {''generation'', ''updatedAt'', ''readinessPathSupported''}) ms | _ \<Rightarrow> [])"

definition revert_body :: "revert_inputs \<Rightarrow> (string \<times> json) list" where
  "revert_body i =
     pruned i ''targetPlatforms'' (pruned i ''defaultPools''
       (jsmap_set ''poolTopologies''
          (JObj (jsmap_set (ri_currentBuildId i) (str_array (ri_currentPoolNames i)) [(ri_previousBuildId i, str_array (ri_poolNames i))]))
       (jsmap_set ''previousBuildId'' (JStr (ri_currentBuildId i))
       (jsmap_set ''buildId'' (JStr (ri_previousBuildId i)) (durable (ri_state i))))))"

definition revert_state :: "revert_inputs \<Rightarrow> state_write" where
  "revert_state i = \<lparr>sw_body = revert_body i, sw_based = js_default (jget (ri_state i) ''generation'') JNull\<rparr>"

definition revert_options_of :: "revert_inputs \<Rightarrow> revert_options" where
  "revert_options_of i =
     \<lparr>rv_releaseName = ri_releaseName i, rv_namespace = Some (ri_namespace i), rv_targetBuildId = ri_previousBuildId i,
      rv_registry = ri_registry i, rv_retainCurrentManifest = None\<rparr>"

text \<open>Steps 3.5 to 4b: from the snapshot of the selectors to the commit.\<close>

definition reverse_traffic ::
    "(rat \<Rightarrow> string) \<Rightarrow> calls \<Rightarrow> unit io \<Rightarrow> revert_inputs \<Rightarrow> bool io" where
  "reverse_traffic num cs revertEdge i =
     io_then (io_call ''snapshotRevertSelectors'' [] (call_snapshot cs))
    (io_bind (io_call ''readState'' [] (call_readState cs)) (\<lambda>latest.
     if \<not> rollback_still_valid i latest then io_throw (Thrown ''Committed deploy state changed'')
     else io_bind (io_call ''prepareRetention'' [] (call_prepare cs)) (\<lambda>retain.
     io_then (io_check (assertSafeBuildIdName (ri_previousBuildId i)))
    (io_then (case truthy_build (ri_registry i) of None \<Rightarrow> io_return () | Some r \<Rightarrow> io_check (assertSafeImageRegistry r))
    (io_then revertEdge
    (io_then (io_call ''flipSelectorsToPreviousBuild'' [] (call_flip cs))
    (io_then (commit_state num cs (Inr (revert_state i)) (io_return ()))
             (io_return retain))))))))"

definition runRevert ::
    "(string \<Rightarrow> raw_json) \<Rightarrow> (rat \<Rightarrow> string) \<Rightarrow> (json \<Rightarrow> string) \<Rightarrow> (string \<Rightarrow> string) \<Rightarrow> calls \<Rightarrow> revert_inputs \<Rightarrow> unit io" where
  "runRevert parse num text sha cs i =
     io_then (bring_back cs i)
    (io_bind (reverse_traffic num cs (revertRoutingServiceToBuild parse num text sha (revert_options_of i)) i) (\<lambda>retain.
     io_then (if retain then io_call ''complete'' [] (\<lambda>_. Inr ()) else io_return ())
    (io_then (if ri_cdnEnabled i \<and> truthy_build (ri_projectId i) \<noteq> None then invalidate_cdn cs else io_return ())
             (if ri_skipCleanup i then io_return ()
              else scaleDownCurrentBuild (ri_namespace i) (ri_currentDeploys i) (Some (if retain then 1 else 0))))))"

end
