(* ===== verification/CutoverSafety.thy ===== *)
theory CutoverSafety
  imports Cutover
begin

text \<open>
  What a promotion and a rollback (\<^verbatim>\<open>src/cutover/run.ts\<close>) guarantee: the order of gates, switch, commit and
  clean-up, the contents of the state they commit, and that two rollbacks lead back.
\<close>

section \<open>Programs that neither move traffic nor commit nor delete\<close>

definition quiet :: "command \<Rightarrow> bool" where
  "quiet c \<longleftrightarrow> c ! 1 \<notin> {''delete'', ''switchTrafficToNewBuild'', ''flipSelectorsToPreviousBuild'', ''writeState''}"

abbreviation quietly :: "world \<Rightarrow> 'a io \<Rightarrow> bool" where
  "quietly w m \<equiv> io_only w (\<lambda>_. quiet) m"

lemma quiet_exec: "quiet c \<Longrightarrow> quietly w (execCapture c)"
  by (rule ok_capture) auto

lemma quiet_exec_or_throw: "quiet c \<Longrightarrow> quietly w (execOrThrow c)"
  unfolding execOrThrow_def by (intro only_bind quiet_exec ok_if) simp_all

lemma quiet_sleep: "quietly w (io_sleep 5000)" "quietly w (io_sleep 2000)"
  by (rule ok_sleep; simp add: quiet_def nat_dec.simps)+

lemma quiet_check: "quietly w (io_check c)"
  by (rule ok_check) auto

lemmas quiet_intros = only_bind only_then only_catch only_each only_fold quiet_exec quiet_exec_or_throw quiet_sleep quiet_check

lemma quiet_commands [simp]:
  "quiet (rollout_status d ns arg)" "quiet (list_build_deployments ctx)" "quiet (get_replicas d ns)" "quiet (wait_job j ns)"
  "quiet (get_policy ctx)" "quiet (patch_hpa name ns lo hi)" "quiet (get_hpa_bounds name ns)" "quiet (scale_cmd ns name n)"
  "quiet (list_pods ns rel version path)" "quiet (probe_healthz ns pod)" "quiet (capacity_get kind name ns path)"
  "quiet (''kubectl'' # ''exec'' # args)" "quiet (''kubectl'' # ''logs'' # args)" "quiet (autoscale_cmd i pd plan)"
  by (simp_all add: quiet_def rollout_status_def list_build_deployments_def get_replicas_def wait_job_def get_policy_def patch_hpa_def
      get_hpa_bounds_def capacity_get_def scale_cmd_def list_pods_def probe_healthz_def autoscale_cmd_def)

lemma quiet_abort: "quietly w (ctx_restoreEdge ctx) \<Longrightarrow> quietly w (abort_gate ctx message)"
  unfolding abort_gate_def by (intro quiet_intros) simp_all

lemma quiet_pool_rollouts: "quietly w (ctx_restoreEdge ctx) \<Longrightarrow> quietly w (waitPoolRollouts ctx)"
  unfolding waitPoolRollouts_def Let_def by (intro quiet_intros ok_if quiet_abort) simp_all

lemma quiet_routing_rollout: "quietly w (ctx_restoreEdge ctx) \<Longrightarrow> quietly w (waitRoutingRollout ctx)"
  unfolding waitRoutingRollout_def Let_def by (intro quiet_intros ok_if quiet_abort) simp_all

lemma quiet_ext_job: "quietly w (ctx_restoreEdge ctx) \<Longrightarrow> quietly w (waitRouteExtJob ctx name)"
  unfolding waitRouteExtJob_def Let_def by (intro quiet_intros ok_if quiet_abort) simp_all

lemma quiet_poll_policy: "quietly w (poll_policy parse ctx n status)"
  by (induction n arbitrary: status) (auto simp: Let_def intro!: quiet_intros)

lemma quiet_policy: "quietly w (ctx_restoreEdge ctx) \<Longrightarrow> quietly w (waitPolicyAccepted parse ctx)"
  unfolding waitPolicyAccepted_def Let_def by (intro quiet_intros ok_if quiet_abort quiet_poll_policy) simp_all

lemma quiet_attempts: "quiet c \<Longrightarrow> quietly w (restore_attempts n c)"
  by (induction n) (auto intro!: quiet_intros)

lemma quiet_restore_hpas: "quietly w (restoreWarmedHpas ns warmed restored)"
  unfolding restoreWarmedHpas_def by (intro quiet_intros ok_if quiet_attempts) simp_all

lemma quiet_prepare_hpa: "quietly w (ctx_restoreEdge ctx) \<Longrightarrow> quietly w (prepare_hpa ctx replicas warmed pool)"
  unfolding prepare_hpa_def abortWarmupSetup_def Let_def
  by (intro quiet_intros ok_if) (auto intro!: quiet_intros quiet_restore_hpas split: option.splits)

lemma quiet_scale_to_target: "quietly w (scale_to_target ctx targets entry)"
  unfolding scale_to_target_def Let_def
  by (cases entry) (auto intro!: quiet_intros split: option.splits)

lemma quiet_warm_up: "quietly w (ctx_restoreEdge ctx) \<Longrightarrow> quietly w (warmUpHpas ctx pools replicas)"
  unfolding warmUpHpas_def Let_def by (intro quiet_intros quiet_prepare_hpa quiet_scale_to_target) simp_all

lemma quiet_poll_ready: "quietly w (poll_ready ctx targets n)"
  by (induction n) (auto simp: Let_def intro!: quiet_intros)

lemma quiet_diagnose: "quietly w (diagnose_pod ns line)"
  unfolding diagnose_pod_def Let_def by (intro ok_if quiet_intros) simp_all

lemma quiet_ready_capacity:
  "quietly w (ctx_restoreEdge ctx) \<Longrightarrow> quietly w restoreHpas \<Longrightarrow> quietly w (waitReadyCapacity ctx targets restoreHpas)"
  unfolding waitReadyCapacity_def by (intro quiet_intros ok_if quiet_poll_ready quiet_diagnose) simp_all

text \<open>Reverting the edge, and the recovery handle built on it.\<close>

lemma quiet_edge_commands [simp]:
  "quiet (get_routing d ns)" "quiet (get_snapshot d ns)" "quiet (get_manifest d ns)" "quiet (find_snapshot d ns)"
  "quiet (find_secret d ns)" "quiet (list_replicasets ns)" "quiet (annotate_keep d ns)" "quiet (label_snapshot rel d ns)"
  "quiet (patch_routing num d ns p)" "quiet (apply_stdin ns @ args)"
  by (simp_all add: quiet_def get_routing_def get_snapshot_def get_manifest_def find_snapshot_def find_secret_def list_replicasets_def
      annotate_keep_def label_snapshot_def patch_routing_def apply_stdin_def)

lemma quiet_read_serving: "quietly w (readRoutingServingConfig parse rel ns)"
  unfolding readRoutingServingConfig_def by (intro quiet_intros) simp_all

lemma quiet_retain: "quietly w (retainLiveRoutingManifest parse num sha rel ns)"
  unfolding retainLiveRoutingManifest_def keep_live_snapshot_def copy_manifest_def snapshot_of_def execCaptureStdin_def
  by (intro quiet_intros quiet_read_serving)
    (auto intro!: quiet_intros split: routing_serving_read.splits option.splits json.splits)

lemma quiet_trusted: "quietly w (readTrustedRoutingRevision parse d uid ns build live)"
  unfolding readTrustedRoutingRevision_def
  by (intro quiet_intros ok_if) (auto split: option.splits json.splits)

lemma quiet_roll_to: "quietly w (roll_to num d ns build target prior found)"
  unfolding roll_to_def restoreRoutingSpec_def by (intro quiet_intros ok_if) simp_all

lemma quiet_read_tier: "quietly w (revert_read_tier parse num text sha opts ns cfg uid)"
  unfolding revert_read_tier_def require_secret_def Let_def
  by (intro quiet_intros ok_if quiet_trusted quiet_retain quiet_roll_to)
    (auto intro!: quiet_intros split: option.splits)

lemma quiet_revert: "quietly w (revertRoutingServiceToBuild parse num text sha opts)"
  unfolding revertRoutingServiceToBuild_def
  by (intro quiet_intros quiet_read_serving) (auto intro!: quiet_read_tier split: routing_serving_read.splits)

lemma quiet_recovery: "quietly w (restoreEdgeToPreviousBuild (revertRoutingServiceToBuild parse num text sha) ec)"
  unfolding restoreEdgeToPreviousBuild_def
  by (cases "edge_to_restore ec") (auto intro!: quiet_intros quiet_revert)

section \<open>Rules for the steps of a promotion\<close>

lemma ok_call:
  assumes "\<And>h. P h \<Longrightarrow> G h (call_entry name args)"
    and "\<And>h x. P h \<Longrightarrow> f h = Inr x \<Longrightarrow> Q x (h @ [call_entry name args])"
    and "\<And>h e. P h \<Longrightarrow> f h = Inl e \<Longrightarrow> E e (h @ [call_entry name args])"
  shows "io_ok w G P (io_call name args f) Q E"
  using assms by (auto simp: io_ok_def io_call_def intro: steps.intros split: sum.splits)

lemma quiet_call: "name \<notin> {''delete'', ''switchTrafficToNewBuild'', ''flipSelectorsToPreviousBuild'', ''writeState''} \<Longrightarrow> quietly w (io_call name args f)"
  by (rule ok_call) (auto simp: quiet_def call_entry_def)

lemma ok_quietly:
  assumes "quietly w m" "\<And>h c. quiet c \<Longrightarrow> G h c"
  shows "io_ok w G P m (\<lambda>_ _. True) (\<lambda>_ _. True)"
  by (rule ok_pre [OF ok_allow [OF assms(1)]]) (use assms(2) in auto)

text \<open>What has been done when traffic moves, when the state is written, and when something is deleted.\<close>

definition ready_to_switch :: "world \<Rightarrow> calls \<Rightarrow> edge_result io \<Rightarrow> cutover_inputs \<Rightarrow> history \<Rightarrow> bool" where
  "ready_to_switch w cs restoreEdge i h \<longleftrightarrow>
     (\<exists>h0 h1 hpas retain. h = h0 @ [call_entry ''readState'' [], call_entry ''prepareRetention'' []]
        \<and> waitReadyCapacity (gate_context_of restoreEdge i) (computeCapacityTargets (ci_pools i) (ci_previousReplicas i)) hpas w h1 = (Inr (), h0)
        \<and> (case call_readState cs h0 of Inl e \<Rightarrow> may_be_unavailable i e | Inr latest \<Rightarrow> \<not> state_changed (ci_state i) latest)
        \<and> call_prepare cs (h0 @ [call_entry ''readState'' []]) = Inr retain)"

abbreviation switch_entry :: command where
  "switch_entry \<equiv> call_entry ''switchTrafficToNewBuild'' []"

abbreviation write_entry :: "(rat \<Rightarrow> string) \<Rightarrow> state_write \<Rightarrow> command" where
  "write_entry num sw \<equiv> call_entry ''writeState'' (write_text num sw)"

definition just_switched :: "calls \<Rightarrow> history \<Rightarrow> bool" where
  "just_switched cs h \<longleftrightarrow> (\<exists>h0. h = h0 @ [switch_entry] \<and> call_switch cs h0 = Inr ())"

definition committed :: "(rat \<Rightarrow> string) \<Rightarrow> calls \<Rightarrow> thrown + state_write \<Rightarrow> history \<Rightarrow> bool" where
  "committed num cs state h \<longleftrightarrow> (\<exists>as bs sw. h = as @ write_entry num sw # bs \<and> state = Inr sw \<and> call_writeState cs as = Inr ())"

definition cutover_step ::
    "(rat \<Rightarrow> string) \<Rightarrow> (string \<Rightarrow> string) \<Rightarrow> calls \<Rightarrow> edge_result io \<Rightarrow> cutover_inputs \<Rightarrow> world \<Rightarrow> history \<Rightarrow> command \<Rightarrow> bool" where
  "cutover_step num sha cs restoreEdge i w h c \<longleftrightarrow>
     (c ! 1 = ''switchTrafficToNewBuild'' \<longrightarrow> ready_to_switch w cs restoreEdge i h)
     \<and> (c ! 1 = ''writeState'' \<longrightarrow> just_switched cs h \<and> (\<exists>sw. cutover_state sha i = Inr sw \<and> c = write_entry num sw))
     \<and> (c ! 1 = ''delete'' \<longrightarrow> committed num cs (cutover_state sha i) h)"

lemma lasting_committed [simp]: "lasting (committed num cs state)"
  unfolding lasting_def committed_def by (metis append_Cons append_assoc)

lemma quiet_step: "quiet c \<Longrightarrow> cutover_step num sha cs restoreEdge i w h c"
  by (simp add: quiet_def cutover_step_def)

text \<open>Once the state is committed, cleaning up may run: it moves no traffic and commits nothing.\<close>

definition tidy :: "command \<Rightarrow> bool" where
  "tidy c \<longleftrightarrow> c ! 1 \<notin> {''switchTrafficToNewBuild'', ''flipSelectorsToPreviousBuild'', ''writeState''}"

lemma quiet_tidy: "quiet c \<Longrightarrow> tidy c"
  by (simp add: quiet_def tidy_def)

lemma tidy_deletes [simp]:
  "tidy (delete_cmd kind ns name)" "tidy (delete_present_cmd kind ns name)" "tidy (scale_cmd ns name n)" "tidy (list_retained rel ns sk)" "tidy (delete_retained ns sr)"
  by (simp_all add: tidy_def delete_retained_def delete_cmd_def delete_present_cmd_def scale_cmd_def list_retained_def)

lemma gc_tidy: "gc_allowed sha parse opts w h c \<Longrightarrow> tidy c"
proof -
  have get: "tidy c" if "c ! 1 = ''get''" using that by (simp add: tidy_def)
  have retained: "tidy c" if "del_retained parse opts w h c"
    using that unfolding del_retained_def cleanup_allowed_def deletion_allowed_def by auto
  assume "gc_allowed sha parse opts w h c"
  then show ?thesis
    using get retained unfolding gc_allowed_def del_deployment_def del_companion_def del_job_def del_configmap_def del_secret_def Let_def
    by auto
qed

abbreviation tidily :: "world \<Rightarrow> 'a io \<Rightarrow> bool" where
  "tidily w m \<equiv> io_only w (\<lambda>_. tidy) m"

lemma tidy_park: "tidily w (scaleDownPreviousBuild rel ns build previous pools n)"
proof (cases "truthy_build previous")
  case None
  then show ?thesis by (simp add: scaleDownPreviousBuild_def)
next
  case (Some p)
  show ?thesis
    by (rule ok_allow [OF parking_ok [OF Some]]) (auto simp: parking_allowed_def Let_def)
qed

lemma tidy_park_current: "tidily w (scaleDownCurrentBuild ns ds n)"
  unfolding scaleDownCurrentBuild_def execOrThrow_def
  by (intro only_each only_bind ok_if ok_capture) auto

lemma tidy_gc: "tidily w (gcSupersededResources sha parse text opts)"
  by (rule ok_allow [OF gc_ok]) (rule gc_tidy)

lemma tidy_quiet: "quietly w m \<Longrightarrow> tidily w m"
  by (erule ok_allow) (rule quiet_tidy)

lemma tidy_invalidate: "tidily w (invalidate_cdn cs)"
  unfolding invalidate_cdn_def by (intro tidy_quiet only_catch quiet_call) simp_all

lemma tidy_after_commit: "tidily w (after_commit parse text sha cs i retain)"
  unfolding after_commit_def
  by (intro only_then ok_if tidy_park tidy_gc tidy_invalidate tidy_quiet [OF quiet_call]) simp_all

text \<open>After the commit every tidy command is allowed.\<close>

lemma ok_tidily:
  assumes "tidily w m" "lasting K" "\<And>h c. K h \<Longrightarrow> tidy c \<Longrightarrow> G h c"
  shows "io_ok w G K m (\<lambda>_. K) (\<lambda>_. K)"
proof -
  have "io_ok w (\<lambda>h c. K h \<and> tidy c) (\<lambda>h. K h \<and> True) m (\<lambda>_ h. K h \<and> True) (\<lambda>_ h. K h \<and> True)"
    by (rule ok_frame [OF assms(1)]) (use assms(2) in \<open>auto simp: lasting_def\<close>)
  then show ?thesis by (rule ok_conseq [OF ok_allow]) (use assms(3) in auto)
qed

lemma quiet_entry_gates:
  assumes "quietly w restoreEdge"
  shows "quietly w (entry_gates parse sha cs restoreEdge i)"
proof -
  have ctx: "quietly w (ctx_restoreEdge (gate_context_of restoreEdge i))" using assms by (simp add: gate_context_of_def)
  show ?thesis
    unfolding entry_gates_def plan_gate_def Let_def
    by (intro only_then only_catch ok_if quiet_call quiet_pool_rollouts quiet_routing_rollout quiet_ext_job quiet_policy ctx assms) simp_all
qed

lemma warm_up_targets:
  "warmUpHpas ctx pools replicas w h = (Inr (targets, warmed), h') \<Longrightarrow> targets = computeCapacityTargets pools replicas"
  unfolding warmUpHpas_def Let_def by (auto simp: io_defs split: prod.splits sum.splits)

text \<open>The passed gate, as a fact about the history it ended with.\<close>

definition gate_passed :: "world \<Rightarrow> edge_result io \<Rightarrow> cutover_inputs \<Rightarrow> history \<Rightarrow> bool" where
  "gate_passed w restoreEdge i h \<longleftrightarrow> (\<exists>h1 hpas.
     waitReadyCapacity (gate_context_of restoreEdge i) (computeCapacityTargets (ci_pools i) (ci_previousReplicas i)) hpas w h1 = (Inr (), h))"

lemma ok_gate:
  assumes "quietly w (waitReadyCapacity (gate_context_of restoreEdge i) (computeCapacityTargets (ci_pools i) (ci_previousReplicas i)) hpas)"
    and "\<And>h c. quiet c \<Longrightarrow> G h c"
  shows "io_ok w G P (waitReadyCapacity (gate_context_of restoreEdge i) (computeCapacityTargets (ci_pools i) (ci_previousReplicas i)) hpas)
           (\<lambda>_. gate_passed w restoreEdge i) (\<lambda>_ _. True)"
proof (rule ok_start)
  fix h assume "P h"
  show "io_ok w G (\<lambda>h'. h' = h) (waitReadyCapacity (gate_context_of restoreEdge i) (computeCapacityTargets (ci_pools i) (ci_previousReplicas i)) hpas)
          (\<lambda>_. gate_passed w restoreEdge i) (\<lambda>_ _. True)"
    by (rule ok_conseq [OF ok_remember [OF ok_allow [OF assms(1)], of _ h]]) (use assms(2) in \<open>auto simp: gate_passed_def\<close>)
qed

definition revalidated :: "world \<Rightarrow> calls \<Rightarrow> edge_result io \<Rightarrow> cutover_inputs \<Rightarrow> history \<Rightarrow> bool" where
  "revalidated w cs restoreEdge i h \<longleftrightarrow>
     (\<exists>h0. h = h0 @ [call_entry ''readState'' []] \<and> gate_passed w restoreEdge i h0
        \<and> (case call_readState cs h0 of Inl e \<Rightarrow> may_be_unavailable i e | Inr latest \<Rightarrow> \<not> state_changed (ci_state i) latest))"

lemma ok_revalidate:
  assumes "quietly w restoreEdge" "quietly w hpas" and G: "\<And>h c. quiet c \<Longrightarrow> G h c"
  shows "io_ok w G (gate_passed w restoreEdge i) (revalidate_state cs i restoreEdge hpas) (\<lambda>_. revalidated w cs restoreEdge i) (\<lambda>_ _. True)"
proof -
  let ?r = "call_entry ''readState'' []"
  let ?F = "\<lambda>e h. \<exists>h0. h = h0 @ [?r] \<and> gate_passed w restoreEdge i h0 \<and> (call_readState cs h0 = Inl e \<or> e \<noteq> StateUnavailable)"
  have read: "io_ok w G (gate_passed w restoreEdge i) (io_call ''readState'' [] (call_readState cs))
      (\<lambda>latest h. \<exists>h0. h = h0 @ [?r] \<and> gate_passed w restoreEdge i h0 \<and> call_readState cs h0 = Inr latest) ?F"
    by (rule ok_call) (auto intro!: G simp: quiet_def call_entry_def)
  have changed: "Thrown ''deploy state changed'' \<noteq> StateUnavailable" by (simp add: StateUnavailable_def)
  have handler: "io_ok w G (?F e) (if may_be_unavailable i e then io_return ()
      else io_then restoreEdge (io_then hpas (io_throw (Thrown ''could not be revalidated'')))) (\<lambda>_. revalidated w cs restoreEdge i) (\<lambda>_ _. True)" for e
  proof (rule ok_if, goal_cases)
    case 1
    then show ?case by (intro ok_return) (auto simp: revalidated_def may_be_unavailable_def)
  next
    case 2
    show ?case
      by (rule ok_then [OF ok_quietly [OF assms(1) G]], assumption, rule ok_then [OF ok_quietly [OF assms(2) G]], assumption) (auto intro: ok_throw)
  qed
  show ?thesis
    unfolding revalidate_state_def
    by (rule ok_catch [OF ok_bind [OF read] handler])
      (intro ok_if ok_throw ok_return, use changed in \<open>auto simp: revalidated_def\<close>)
qed

lemma ok_prepare:
  assumes "quietly w restoreEdge" "quietly w hpas" and G: "\<And>h c. quiet c \<Longrightarrow> G h c"
  shows "io_ok w G (revalidated w cs restoreEdge i) (prepare_retention cs restoreEdge hpas) (\<lambda>_. ready_to_switch w cs restoreEdge i) (\<lambda>_ _. True)"
proof -
  have call: "io_ok w G (revalidated w cs restoreEdge i) (io_call ''prepareRetention'' [] (call_prepare cs))
      (\<lambda>_. ready_to_switch w cs restoreEdge i) (\<lambda>_ _. True)"
  proof (rule ok_call, goal_cases)
    case (1 h)
    show ?case by (rule G) (simp add: quiet_def call_entry_def)
  next
    case (2 h retain)
    then show ?case unfolding revalidated_def gate_passed_def ready_to_switch_def by fastforce
  qed simp
  have handler: "io_ok w G (\<lambda>_. True) (io_then restoreEdge (io_then hpas (io_throw e))) (\<lambda>_. ready_to_switch w cs restoreEdge i) (\<lambda>_ _. True)" for e
    by (rule ok_then [OF ok_quietly [OF assms(1) G]], assumption, rule ok_then [OF ok_quietly [OF assms(2) G]], assumption) (auto intro: ok_throw)
  show ?thesis unfolding prepare_retention_def by (rule ok_catch [OF call handler])
qed

text \<open>Writing the state: allowed where \<open>P\<close> holds, and afterwards it is committed.\<close>

lemma ok_commit':
  assumes hpas: "io_ok w G (\<lambda>_. True) hpas (\<lambda>_ _. True) (\<lambda>_ _. True)"
    and permitted: "\<And>h sw. P h \<Longrightarrow> state = Inr sw \<Longrightarrow> G h (write_entry num sw)"
  shows "io_ok w G P (commit_state num cs state hpas) (\<lambda>_. committed num cs state) (\<lambda>_ _. True)"
proof -
  have "io_ok w G P (io_bind (io_lift state) (\<lambda>sw. io_call ''writeState'' (write_text num sw) (call_writeState cs)))
      (\<lambda>_. committed num cs state) (\<lambda>_ _. True)"
  proof (rule ok_bind [where Q = "\<lambda>sw h. state = Inr sw \<and> P h"], goal_cases)
    case 1
    show ?case by (rule ok_lift) auto
  next
    case (2 sw)
    show ?case by (rule ok_call) (use permitted in \<open>auto simp: committed_def\<close>)
  qed
  then show ?thesis
    unfolding commit_state_def
    by (rule ok_catch) (rule ok_then [OF hpas], auto intro: ok_throw)
qed

lemmas ok_commit = ok_commit' [OF ok_quietly]

lemma ok_promote:
  fixes w cs restoreEdge i num sha
  defines "G \<equiv> cutover_step num sha cs restoreEdge i w"
  assumes "quietly w restoreEdge" "quietly w hpas"
  shows "io_ok w G (gate_passed w restoreEdge i) (promote num sha cs restoreEdge i hpas) (\<lambda>_. committed num cs (cutover_state sha i)) (\<lambda>_ _. True)"
proof -
  have G: "quiet c \<Longrightarrow> G h c" for h c unfolding G_def by (rule quiet_step)
  have moved: "io_ok w G (ready_to_switch w cs restoreEdge i) (io_call ''switchTrafficToNewBuild'' [] (call_switch cs)) (\<lambda>_. just_switched cs) (\<lambda>_ _. True)"
    by (rule ok_call) (auto simp: G_def cutover_step_def just_switched_def call_entry_def)
  have commit: "io_ok w G (just_switched cs) (commit_state num cs (cutover_state sha i) hpas) (\<lambda>_. committed num cs (cutover_state sha i)) (\<lambda>_ _. True)"
    by (rule ok_commit [OF assms(3) G]) (auto simp: G_def cutover_step_def call_entry_def)
  have settled: "io_ok w G (committed num cs (cutover_state sha i)) hpas (\<lambda>_. committed num cs (cutover_state sha i)) (\<lambda>_ _. True)"
    by (rule ok_conseq [OF ok_tidily [OF tidy_quiet [OF assms(3)] lasting_committed]])
      (auto simp: G_def cutover_step_def tidy_def)
  show ?thesis
    unfolding promote_def
    by (rule ok_then [OF ok_revalidate [OF assms(2,3) G]], assumption, rule ok_bind [OF ok_prepare [OF assms(2,3) G]], assumption,
        rule ok_then [OF moved], rule ok_then [OF commit], rule ok_then [OF settled]) (auto intro: ok_return)
qed

lemma ok_cutover:
  assumes "quietly w restoreEdge"
  shows "io_ok w (cutover_step num sha cs restoreEdge i w) (\<lambda>_. True) (runCutover parse num text sha cs restoreEdge i)
     (\<lambda>_. committed num cs (cutover_state sha i)) (\<lambda>_ _. True)"
  (is "io_ok w ?G _ _ ?C _")
proof -
  let ?ctx = "gate_context_of restoreEdge i"
  let ?warm = "warmUpHpas ?ctx (ci_pools i) (ci_previousReplicas i)"
  have G: "quiet c \<Longrightarrow> ?G h c" for h c by (rule quiet_step)
  have ctx: "quietly w (ctx_restoreEdge ?ctx)" using assms by (simp add: gate_context_of_def)
  have quiet_warm: "io_ok w ?G (\<lambda>_. True) ?warm (\<lambda>_ _. True) (\<lambda>_ _. True)"
    by (rule ok_quietly [OF quiet_warm_up [OF ctx] G])
  have warm: "io_ok w ?G (\<lambda>_. True) ?warm (\<lambda>x _. fst x = computeCapacityTargets (ci_pools i) (ci_previousReplicas i)) (\<lambda>_ _. True)"
  proof (rule ok_start)
    fix h
    show "io_ok w ?G (\<lambda>h'. h' = h) ?warm (\<lambda>x _. fst x = computeCapacityTargets (ci_pools i) (ci_previousReplicas i)) (\<lambda>_ _. True)"
      by (rule ok_conseq [OF ok_remember [where h = h, OF quiet_warm TrueI]])
        (auto dest: warm_up_targets)
  qed
  have rest: "io_ok w ?G (\<lambda>_. True) (io_then (waitReadyCapacity ?ctx targets hpas) (io_bind (promote num sha cs restoreEdge i hpas)
      (\<lambda>retain. after_commit parse text sha cs i retain))) ?C (\<lambda>_ _. True)"
    if "targets = computeCapacityTargets (ci_pools i) (ci_previousReplicas i)" "quietly w hpas" for targets hpas
    unfolding that(1)
    by (rule ok_then [OF ok_gate [OF quiet_ready_capacity [OF ctx that(2)] G]], assumption,
        rule ok_bind [OF ok_promote [OF assms that(2)]], rule ok_conseq [OF ok_tidily [OF tidy_after_commit lasting_committed]])
      (auto simp: cutover_step_def tidy_def)
  show ?thesis
    unfolding runCutover_def Let_def
  proof (rule ok_then [OF ok_quietly [OF quiet_entry_gates [OF assms] G]], assumption, rule ok_bind [OF warm], goal_cases)
    case (1 x)
    obtain targets warmed where x: "x = (targets, warmed)" by fastforce
    have "quietly w (io_then (restoreWarmedHpas (ci_namespace i) warmed []) (io_return ()))"
      by (intro only_then quiet_restore_hpas only_basic)
    from rest [OF _ this] show ?case unfolding x prod.case fst_conv by (auto simp: io_ok_def)
  qed
qed

text \<open>
  C13: A promotion, with the edge recovery the job wires in, keeps this order whatever the cluster and the
  collaborators answer. Traffic moves only directly after the capacity gate passed, a last read of the
  deploy state found it unchanged (or unreadable, where the previous build had been recovered from the
  selectors), and retention was prepared. The state is written only directly after traffic moved, and it
  is the state of this promotion. Nothing is deleted before that write succeeded, and a promotion
  that returns has committed its state.
\<close>

theorem cutover_commits_before_cleaning:
  assumes "runCutover parse num text sha cs (restoreEdgeToPreviousBuild (revertRoutingServiceToBuild parse num text sha) ec) i w [] = (r, h)"
  shows "(\<forall>as c bs. h = as @ c # bs \<longrightarrow>
            cutover_step num sha cs (restoreEdgeToPreviousBuild (revertRoutingServiceToBuild parse num text sha) ec) i w as c)
       \<and> (r = Inr () \<longrightarrow> committed num cs (cutover_state sha i) h)"
proof -
  note ok = ok_cutover [OF quiet_recovery, of w num sha cs parse num "text" sha ec i parse "text"]
  show ?thesis
    using ok_run [OF ok, where h = "[]"] ok assms unfolding io_ok_def by (fastforce split: sum.splits)
qed

text \<open>A gate whose command could not be started throws at once: no recovery command follows.\<close>

lemma unstarted_command_skips_recovery:
  assumes "w h (list_build_deployments ctx) = None"
  shows "waitPoolRollouts ctx w h = (Inl SpawnError, h @ [list_build_deployments ctx])"
  using assms by (simp add: waitPoolRollouts_def io_defs)

section \<open>The order of a rollback\<close>

text \<open>What a rollback runs before its last look at the state does not touch the routing Deployment either.\<close>

definition calm :: "command \<Rightarrow> bool" where
  "calm c \<longleftrightarrow> quiet c \<and> \<not> (c ! 1 = ''patch'' \<and> c ! 2 = ''deployment'')"

abbreviation calmly :: "world \<Rightarrow> 'a io \<Rightarrow> bool" where
  "calmly w m \<equiv> io_only w (\<lambda>_. calm) m"

lemma calm_exec: "calm c \<Longrightarrow> calmly w (execCapture c)"
  by (rule ok_capture) auto

lemma calm_exec_or_throw: "calm c \<Longrightarrow> calmly w (execOrThrow c)"
  unfolding execOrThrow_def by (intro only_bind calm_exec ok_if) simp_all

lemma calm_sleep: "calmly w (io_sleep 5000)"
  by (rule ok_sleep) (simp_all add: calm_def quiet_def nat_dec.simps)

lemma calm_call: "name \<notin> {''delete'', ''patch'', ''switchTrafficToNewBuild'', ''flipSelectorsToPreviousBuild'', ''writeState''} \<Longrightarrow> calmly w (io_call name args f)"
  by (rule ok_call) (auto simp: calm_def quiet_def call_entry_def)

lemma calm_commands [simp]:
  "calm (rollout_status d ns arg)" "calm (patch_hpa name ns lo hi)" "calm (scale_cmd ns name n)" "calm (autoscale_cmd i pd plan)"
  "calm (list_pods ns rel version path)" "calm (probe_healthz ns pod)" "calm (capacity_get kind name ns path)"
  by (simp_all add: calm_def rollout_status_def patch_hpa_def scale_cmd_def autoscale_cmd_def list_pods_def probe_healthz_def capacity_get_def quiet_def)

lemmas calm_intros = only_bind only_then only_each only_fold calm_exec calm_exec_or_throw calm_sleep calm_call

lemma calm_any_pod: "calmly w (any_pod_serves ns pods)"
  by (induction pods) (auto intro!: calm_intros)

lemma calm_all_deploys: "calmly w (all_deploys_serve ns pods names)"
  by (induction names) (auto intro!: calm_intros calm_any_pod)

lemma calm_poll_serving: "calmly w (poll_serving rel ns version names n)"
  by (induction n) (auto simp: Let_def intro!: calm_intros calm_all_deploys)

lemma calm_serving: "calmly w (waitPreviousBuildServing rel ns version names)"
  unfolding waitPreviousBuildServing_def by (intro calm_intros ok_if calm_poll_serving) simp_all

lemma calm_bring_back: "calmly w (bring_back cs i)"
proof -
  have up: "calmly w (scale_up i m d)" for m d
    unfolding scale_up_def readLiveCapacity_def Let_def by (auto intro!: calm_intros split: prod.splits)
  have auto: "calmly w (ensure_autoscaler i m d)" for m d
    unfolding ensure_autoscaler_def Let_def by (intro calm_intros ok_if) simp_all
  have rollout: "calmly w (await_rollout i d)" for d
    unfolding await_rollout_def by (intro calm_intros) simp_all
  show ?thesis
    unfolding bring_back_def by (intro only_then only_bind only_fold only_each ok_if calm_call calm_serving up auto rollout) simp_all
qed

definition rechecked :: "calls \<Rightarrow> revert_inputs \<Rightarrow> history \<Rightarrow> bool" where
  "rechecked cs i h \<longleftrightarrow>
     (\<exists>as bs latest. h = as @ call_entry ''readState'' [] # bs \<and> call_readState cs as = Inr latest \<and> rollback_still_valid i latest)"

lemma lasting_rechecked [simp]: "lasting (rechecked cs i)"
  unfolding lasting_def rechecked_def by (metis append_Cons append_assoc)

abbreviation flip_entry :: command where
  "flip_entry \<equiv> call_entry ''flipSelectorsToPreviousBuild'' []"

definition rollback_step ::
    "(string \<Rightarrow> raw_json) \<Rightarrow> (rat \<Rightarrow> string) \<Rightarrow> (json \<Rightarrow> string) \<Rightarrow> (string \<Rightarrow> string) \<Rightarrow> calls \<Rightarrow> revert_inputs \<Rightarrow> world \<Rightarrow> history \<Rightarrow> command \<Rightarrow> bool" where
  "rollback_step parse num text sha cs i w h c \<longleftrightarrow>
     (c ! 1 = ''patch'' \<and> c ! 2 = ''deployment'' \<longrightarrow> rechecked cs i h)
     \<and> (c ! 1 = ''flipSelectorsToPreviousBuild'' \<longrightarrow> rechecked cs i h \<and> reverted parse num text sha w (revert_options_of i) h)
     \<and> (c ! 1 = ''writeState'' \<longrightarrow> c = write_entry num (revert_state i) \<and> (\<exists>h0. h = h0 @ [flip_entry] \<and> call_flip cs h0 = Inr ()))
     \<and> (c ! 1 = ''delete'' \<longrightarrow> committed num cs (Inr (revert_state i)) h)
     \<and> c ! 1 \<noteq> ''switchTrafficToNewBuild''"

lemma quiet_revert_step: "revert_step parse num text sha w opts h c \<Longrightarrow> quiet c"
  unfolding revert_step_def patch_justified_def retention_step_def copies_live_manifest_def
  by (auto simp: quiet_def revert_command_def restore_command_def patch_routing_def rollout_command_def rollout_status_def
      annotate_keep_def label_snapshot_def apply_stdin_def)

lemma ok_reverse_traffic:
  fixes parse num "text" sha cs i w
  defines "G \<equiv> rollback_step parse num text sha cs i w"
  shows "io_ok w G (\<lambda>_. True) (reverse_traffic num cs (revertRoutingServiceToBuild parse num text sha (revert_options_of i)) i)
     (\<lambda>_. committed num cs (Inr (revert_state i))) (\<lambda>_ _. True)"
proof -
  let ?R = "rechecked cs i" and ?flipped = "\<lambda>h. \<exists>h0. h = h0 @ [flip_entry] \<and> call_flip cs h0 = Inr ()"
  have calm: "calm c \<Longrightarrow> G h c" for h c by (auto simp: G_def rollback_step_def calm_def quiet_def)
  have quiet: "quiet c \<Longrightarrow> ?R h \<Longrightarrow> G h c" for h c by (auto simp: G_def rollback_step_def quiet_def)
  have snapshot: "io_ok w G (\<lambda>_. True) (io_call ''snapshotRevertSelectors'' [] (call_snapshot cs)) (\<lambda>_ _. True) (\<lambda>_ _. True)"
    by (rule ok_call) (auto intro!: calm simp: calm_def quiet_def call_entry_def)
  have read: "io_ok w G (\<lambda>_. True) (io_call ''readState'' [] (call_readState cs))
      (\<lambda>latest h. \<exists>h0. h = h0 @ [call_entry ''readState'' []] \<and> call_readState cs h0 = Inr latest) (\<lambda>_ _. True)"
    by (rule ok_call) (auto intro!: calm simp: calm_def quiet_def call_entry_def)
  have R: "?R h \<Longrightarrow> ?R (h @ [c])" for h c using lasting_rechecked unfolding lasting_def by blast
  have prepare: "io_ok w G ?R (io_call ''prepareRetention'' [] (call_prepare cs)) (\<lambda>_. ?R) (\<lambda>_ _. True)"
    by (rule ok_call) (auto intro!: quiet simp: R quiet_def call_entry_def)
  have checks: "io_ok w G ?R (io_check c) (\<lambda>_. ?R) (\<lambda>_ _. True)" for c :: "invalid + unit"
    by (rule ok_check) auto
  have edge: "io_ok w G ?R (revertRoutingServiceToBuild parse num text sha (revert_options_of i))
      (\<lambda>_ h. ?R h \<and> reverted parse num text sha w (revert_options_of i) h) (\<lambda>_ _. True)"
    by (rule ok_conseq [OF ok_allow [OF ok_frame [OF ok_revert, of ?R]]]) (auto intro: quiet quiet_revert_step R)
  have flip: "io_ok w G (\<lambda>h. ?R h \<and> reverted parse num text sha w (revert_options_of i) h)
      (io_call ''flipSelectorsToPreviousBuild'' [] (call_flip cs)) (\<lambda>_. ?flipped) (\<lambda>_ _. True)"
    by (rule ok_call) (auto simp: G_def rollback_step_def call_entry_def)
  have commit: "io_ok w G ?flipped (commit_state num cs (Inr (revert_state i)) (io_return ())) (\<lambda>_. committed num cs (Inr (revert_state i))) (\<lambda>_ _. True)"
    by (rule ok_commit') (auto simp: G_def rollback_step_def call_entry_def)
  show ?thesis
    unfolding reverse_traffic_def
  proof (rule ok_then [OF snapshot], rule ok_bind [OF read], goal_cases)
    case (1 latest)
    show ?case
    proof (rule ok_if, goal_cases)
      case 1
      show ?case by (auto intro: ok_throw)
    next
      case valid: 2
      have registry: "io_ok w G ?R (case truthy_build (ri_registry i) of None \<Rightarrow> io_return () | Some r \<Rightarrow> io_check (assertSafeImageRegistry r)) (\<lambda>_. ?R) (\<lambda>_ _. True)"
        by (cases "truthy_build (ri_registry i)") (auto intro: ok_return checks)
      show ?case
        by (rule ok_pre [where P = ?R], rule ok_bind [OF prepare], rule ok_then [OF checks], rule ok_then [OF registry], rule ok_then [OF edge],
            rule ok_then [OF flip], rule ok_then [OF commit]) (use valid in \<open>auto intro: ok_return simp: rechecked_def\<close>)
    qed
  qed
qed

lemma ok_rollback:
  "io_ok w (rollback_step parse num text sha cs i w) (\<lambda>_. True) (runRevert parse num text sha cs i)
     (\<lambda>_. committed num cs (Inr (revert_state i))) (\<lambda>_ _. True)"
  (is "io_ok w ?G _ _ ?C _")
proof -
  have before: "io_ok w ?G (\<lambda>_. True) (bring_back cs i) (\<lambda>_ _. True) (\<lambda>_ _. True)"
    by (rule ok_allow [OF calm_bring_back]) (auto simp: rollback_step_def calm_def quiet_def)
  let ?tidy = "\<lambda>_ c. tidy c \<and> c ! 1 \<noteq> ''patch''"
  have calls: "io_only w ?tidy (io_call name [] f)" if "name \<in> {''complete'', ''invalidateCdnBuildTag''}" for name and f :: "history \<Rightarrow> thrown + unit"
    using that by (intro ok_call) (auto simp: tidy_def call_entry_def)
  have park: "io_only w ?tidy (scaleDownCurrentBuild ns ds n)" for ns ds n
    unfolding scaleDownCurrentBuild_def execOrThrow_def
    by (intro only_each only_bind ok_if ok_capture) (auto simp: scale_cmd_def delete_present_cmd_def tidy_def)
  have later: "io_ok w ?G (committed num cs (Inr (revert_state i))) m (\<lambda>_. committed num cs (Inr (revert_state i))) (\<lambda>_ _. True)"
    if "io_only w ?tidy m" for m :: "unit io"
  proof -
    have "io_ok w (\<lambda>h c. committed num cs (Inr (revert_state i)) h \<and> ?tidy h c) (\<lambda>h. committed num cs (Inr (revert_state i)) h \<and> True) m
        (\<lambda>_ h. committed num cs (Inr (revert_state i)) h \<and> True) (\<lambda>_ h. committed num cs (Inr (revert_state i)) h \<and> True)"
      by (rule ok_frame [OF that]) (use lasting_committed in \<open>auto simp: lasting_def\<close>)
    then show ?thesis by (rule ok_conseq [OF ok_allow]) (auto simp: rollback_step_def tidy_def)
  qed
  show ?thesis
    unfolding runRevert_def invalidate_cdn_def
    by (rule ok_then [OF before], rule ok_bind [OF ok_reverse_traffic],
        intro ok_then [OF later] later ok_if only_basic only_catch calls park) simp_all
qed

text \<open>
  C14: A rollback keeps this order whatever the cluster and the collaborators answer. The routing
  Deployment is patched only after a read of the deploy state that still named the two builds and the
  generation the rollback started from. The selectors flip only after that and after the edge was
  reverted, or there is none. The state is written only directly after the flip, with the two builds
  swapped; an autoscaler of the abandoned build is deleted only after that write succeeded; and a
  rollback that returns has committed its state.
\<close>

theorem rollback_commits_before_cleaning:
  assumes "runRevert parse num text sha cs i w [] = (r, h)"
  shows "(\<forall>as c bs. h = as @ c # bs \<longrightarrow> rollback_step parse num text sha cs i w as c)
       \<and> (r = Inr () \<longrightarrow> committed num cs (Inr (revert_state i)) h)"
  using ok_run [OF ok_rollback, where h = "[]"] ok_rollback assms unfolding io_ok_def by (fastforce split: sum.splits)

section \<open>The state a promotion commits\<close>

lemma map_of_filter_keys: "map_of (filter (\<lambda>(k, _). P k) ms) k = (if P k then map_of ms k else None)"
  by (induction ms) auto

lemma map_of_nonempty_member [simp]: "map_of (nonempty_member k ms) x = (if x = k \<and> ms \<noteq> [] then Some (JObj ms) else None)"
  by (simp add: nonempty_member_def)

text \<open>The members of a committed state, one by one.\<close>

lemma cutover_members:
  defines "b \<equiv> \<lambda>sha i u. map_of (cutover_body sha i u)"
  shows "b sha i u ''buildId'' = Some (JStr (ci_buildId i))"
    and "b sha i u ''previousBuildId'' = Some (case ci_previousBuildId i of None \<Rightarrow> JNull | Some p \<Rightarrow> JStr p)"
    and "b sha i u ''cdnTags'' = Some (JObj (with_own (ci_buildId i) (Some (JStr (cdnTagForBuildId sha (ci_buildId i)))) (carried (ci_state i) ''cdnTags'' (ci_previousBuildId i))))"
    and "b sha i u ''routingImageDigests'' = (let ms = with_own (ci_buildId i) (map_option JStr (truthy_build (ci_routingDigest i))) (carried (ci_state i) ''routingImageDigests'' (ci_previousBuildId i))
           in if ms = [] then None else Some (JObj ms))"
    and "b sha i u ''poolTopologies'' = Some (JObj (pool_topologies i))"
    and "b sha i u ''defaultPools'' \<in> {None, Some (JObj (default_pools i))}"
    and "b sha i u ''targetPlatforms'' = Some (JObj (with_own (ci_buildId i) (Some (JStr (ci_platform i))) (carried (ci_state i) ''targetPlatforms'' (ci_previousBuildId i))))"
    and "b sha i u ''compositionPlans'' = (let ms = with_own (ci_buildId i) (map_option plan_record (ci_composition i)) (carried (ci_state i) ''compositionPlans'' (ci_previousBuildId i))
           in if ms = [] then None else Some (JObj ms))"
  unfolding b_def cutover_body_def Let_def by (auto simp: map_add_def split: option.splits if_splits)

definition in_play :: "cutover_inputs \<Rightarrow> string set" where
  "in_play i = insert (ci_buildId i) (set_option (ci_previousBuildId i))"

lemma truthy_build_Some: "truthy_build b = Some p \<Longrightarrow> b = Some p"
  by (auto simp: truthy_build_def split: option.splits list.splits)

lemma carried_cases:
  "carried state field previous = [] \<or> (\<exists>p v. previous = Some p \<and> carried state field previous = [(p, v)]
     \<and> oget (oget state field) p = Some v \<and> \<not> js_falsy (Some v))"
proof (cases "truthy_build previous")
  case None
  then show ?thesis by (simp add: carried_def recorded_for_def)
next
  case (Some p)
  then have "previous = Some p" by (rule truthy_build_Some)
  with Some show ?thesis
    by (cases "oget (oget state field) p") (auto simp: carried_def recorded_for_def Let_def)
qed

lemma jsmap_set_keys: "fst ` set (jsmap_set k v m) = insert k (fst ` set m)"
  by (induction m) auto

lemma with_own_keys:
  assumes "set (jsmap_keys ms) \<subseteq> in_play i"
  shows "set (jsmap_keys (with_own (ci_buildId i) v ms)) \<subseteq> in_play i"
  using assms by (cases v) (simp_all add: with_own_def jsmap_set_keys in_play_def)

lemma carried_keys: "set (jsmap_keys (carried state field (ci_previousBuildId i))) \<subseteq> in_play i"
  using carried_cases [of state field "ci_previousBuildId i"] by (auto simp: in_play_def)

lemma recordable_keys: "recordable i = Some p \<Longrightarrow> p \<in> in_play i"
  by (auto simp: recordable_def in_play_def dest: truthy_build_Some split: if_splits)

lemma topology_keys: "set (jsmap_keys (pool_topologies i)) \<subseteq> in_play i" "set (jsmap_keys (default_pools i)) \<subseteq> in_play i"
proof -
  have "set_option (recordable i) \<subseteq> in_play i" using recordable_keys by (auto simp: elem_set)
  moreover have "ci_buildId i \<in> in_play i" by (simp add: in_play_def)
  ultimately show "set (jsmap_keys (pool_topologies i)) \<subseteq> in_play i" "set (jsmap_keys (default_pools i)) \<subseteq> in_play i"
    unfolding pool_topologies_def default_pools_def by (cases "recordable i"; simp add: jsmap_set_keys)+
qed

lemma jsmap_set_entries: "set (jsmap_set k v m) \<subseteq> insert (k, v) (set m)"
  by (induction m) auto

abbreviation digest_entry :: "string \<times> json \<Rightarrow> bool" where
  "digest_entry e \<equiv> matches BUILD_ID_RE (fst e) \<and> string_and (matches DIGEST_RE) (Some (snd e))"

lemma carried_digest:
  assumes "isAdapterState s" "e \<in> set (carried (Some s) ''routingImageDigests'' previous)"
  shows "digest_entry e"
proof -
  obtain p v where e: "e = (p, v)" and v: "oget (oget (Some s) ''routingImageDigests'') p = Some v"
    using carried_cases [of "Some s" "''routingImageDigests''" previous] assms(2) by auto
  then obtain dm where dm: "jget s ''routingImageDigests'' = Some (JObj dm)" "map_of dm p = Some v"
    by (auto simp: oget_def bind_eq_Some_conv elim: jget.elims)
  have "digest_map (jget s ''routingImageDigests'')" using assms(1) by (cases s) (auto simp: isAdapterState_def)
  then show ?thesis using dm map_of_SomeD [of dm p v] e by (auto simp: digest_map_def list_all_iff)
qed

lemma committed_digests:
  assumes "\<forall>s. ci_state i = Some s \<longrightarrow> isAdapterState s" "matches BUILD_ID_RE (ci_buildId i)"
    and "\<forall>d. truthy_build (ci_routingDigest i) = Some d \<longrightarrow> matches DIGEST_RE d"
  shows "digest_map (map_of (cutover_body sha i u) ''routingImageDigests'')"
proof -
  let ?c = "carried (ci_state i) ''routingImageDigests'' (ci_previousBuildId i)"
  let ?ms = "with_own (ci_buildId i) (map_option JStr (truthy_build (ci_routingDigest i))) ?c"
  have "\<forall>e \<in> set ?c. digest_entry e"
  proof (cases "ci_state i")
    case None
    then show ?thesis by (simp add: carried_def recorded_for_def oget_def Let_def split: option.splits)
  next
    case (Some s)
    then show ?thesis using assms(1) carried_digest [of s _ "ci_previousBuildId i"] by simp
  qed
  then have "\<forall>e \<in> set ?ms. digest_entry e"
    using assms(2,3) jsmap_set_entries unfolding with_own_def
    by (cases "truthy_build (ci_routingDigest i)") (fastforce simp: string_and_def)+
  then show ?thesis
    unfolding cutover_members(4) Let_def by (auto simp: digest_map_def list_all_iff)
qed

lemma carried_over:
  assumes "ci_previousBuildId i = Some p" "p \<noteq> []" "p \<noteq> ci_buildId i" "oget (oget (ci_state i) field) p = Some v" "\<not> js_falsy (Some v)"
  shows "map_of (with_own (ci_buildId i) own (carried (ci_state i) field (ci_previousBuildId i))) p = Some v"
    and "with_own (ci_buildId i) own (carried (ci_state i) field (ci_previousBuildId i)) \<noteq> []"
proof -
  have "truthy_build (Some p) = Some p" using assms(2) by (cases p) (simp_all add: truthy_build_def)
  then have c: "carried (ci_state i) field (ci_previousBuildId i) = [(p, v)]"
    using assms by (simp add: carried_def recorded_for_def Let_def)
  show v: "map_of (with_own (ci_buildId i) own (carried (ci_state i) field (ci_previousBuildId i))) p = Some v"
    unfolding c using assms(3) by (cases own) (simp_all add: with_own_def)
  then show "with_own (ci_buildId i) own (carried (ci_state i) field (ci_previousBuildId i)) \<noteq> []" by auto
qed

definition per_build :: "string set" where
  "per_build = {''cdnTags'', ''routingImageDigests'', ''poolTopologies'', ''defaultPools'', ''targetPlatforms'', ''compositionPlans''}"

lemma only_in_play:
  assumes "field \<in> per_build" "map_of (cutover_body sha i u) field = Some (JObj ms)"
  shows "fst ` set ms \<subseteq> in_play i"
proof -
  note own = with_own_keys [OF carried_keys, unfolded set_map]
  have "map_of (cutover_body sha i u) ''defaultPools'' = Some (JObj ms) \<Longrightarrow> ms = default_pools i"
    using cutover_members(6) [of sha i u] by (metis empty_iff insert_iff json.inject(5) option.distinct(1) option.inject)
  then show ?thesis
    using assms(2) assms(1) [unfolded per_build_def] topology_keys [of i, unfolded set_map]
    by (elim insertE emptyE) (simp_all add: cutover_members Let_def own split: if_splits, (metis own)+)
qed

lemma committed_accepted:
  assumes "\<forall>s. ci_state i = Some s \<longrightarrow> isAdapterState s" "matches BUILD_ID_RE (ci_buildId i)"
    and "\<forall>d. truthy_build (ci_routingDigest i) = Some d \<longrightarrow> matches DIGEST_RE d"
  shows "isAdapterState (stamp (cutover_body sha i u) generation now)"
proof -
  have "\<not> matches BUILD_ID_RE []" by code_simp
  then have "ci_buildId i \<noteq> []" using assms(2) by metis
  then show ?thesis
    using committed_digests [OF assms, of sha u]
    unfolding isAdapterState_def stamp_def by (simp add: cutover_members string_and_def split: option.splits)
qed

text \<open>
  C15: The state a promotion commits is one the next reader accepts. It names the new build and the
  build it replaced; every record it keeps per build (CDN tags, routing digests, pool topologies,
  default pools, platforms, composition plans) is about these two only; and the CDN tag, the routing
  digest, the platform and the plan recorded for the outgoing build are carried over unchanged (its pools
  and its default pool are written from what the promotion was given).
\<close>

theorem committed_state_covers_builds_in_play:
  assumes "cutover_state sha i = Inr sw" "matches BUILD_ID_RE (ci_buildId i)"
    and "\<forall>s. ci_state i = Some s \<longrightarrow> isAdapterState s"
    and "\<forall>d. truthy_build (ci_routingDigest i) = Some d \<longrightarrow> matches DIGEST_RE d"
  shows "isAdapterState (stamp (sw_body sw) generation now)
    \<and> map_of (sw_body sw) ''buildId'' = Some (JStr (ci_buildId i))
    \<and> map_of (sw_body sw) ''previousBuildId'' = Some (case ci_previousBuildId i of None \<Rightarrow> JNull | Some p \<Rightarrow> JStr p)
    \<and> (\<forall>field \<in> per_build. \<forall>ms. map_of (sw_body sw) field = Some (JObj ms) \<longrightarrow> fst ` set ms \<subseteq> in_play i)
    \<and> (\<forall>field \<in> {''cdnTags'', ''routingImageDigests'', ''targetPlatforms'', ''compositionPlans''}. \<forall>p v.
         ci_previousBuildId i = Some p \<and> p \<noteq> [] \<and> p \<noteq> ci_buildId i \<and> oget (oget (ci_state i) field) p = Some v \<and> \<not> js_falsy (Some v)
         \<longrightarrow> oget (map_of (sw_body sw) field) p = Some v)"
proof -
  obtain u where b: "sw_body sw = cutover_body sha i u"
    using assms(1) unfolding cutover_state_def by (auto simp: res_simps)
  have "oget (map_of (cutover_body sha i u) field) p = Some v"
    if "field \<in> {''cdnTags'', ''routingImageDigests'', ''targetPlatforms'', ''compositionPlans''}" "ci_previousBuildId i = Some p" "p \<noteq> []" "p \<noteq> ci_buildId i"
      "oget (oget (ci_state i) field) p = Some v" "\<not> js_falsy (Some v)" for field p v
    using that(1) carried_over [OF that(2-6)]
    by (elim insertE emptyE) (simp_all add: cutover_members Let_def oget_def)
  then show ?thesis
    unfolding b by (intro conjI ballI allI impI committed_accepted [OF assms(3,2,4)] cutover_members(1,2)) (use only_in_play in \<open>metis+\<close>)
qed

section \<open>Two rollbacks\<close>

lemma map_of_pruned:
  "map_of (pruned i field body) k =
     (if k = field \<and> \<not> js_falsy (jget (ri_state i) field)
      then Some (JObj (filter (\<lambda>(b, _). b \<in> {ri_currentBuildId i, ri_previousBuildId i}) (the (object_entries (the (jget (ri_state i) field))))))
      else map_of body k)"
  by (simp add: pruned_def)

lemma map_of_durable: "map_of (durable (JObj ms)) k = (if k \<in> {''generation'', ''updatedAt'', ''readinessPathSupported''} then None else map_of ms k)"
  unfolding durable_def json.case map_of_filter_keys by simp

definition topologies :: "revert_inputs \<Rightarrow> json" where
  "topologies i = JObj (jsmap_set (ri_currentBuildId i) (str_array (ri_currentPoolNames i)) [(ri_previousBuildId i, str_array (ri_poolNames i))])"

lemma map_of_revert_body:
  assumes "ri_state i = JObj ms"
  shows "map_of (revert_body i) ''buildId'' = Some (JStr (ri_previousBuildId i))"
    and "map_of (revert_body i) ''previousBuildId'' = Some (JStr (ri_currentBuildId i))"
    and "map_of (revert_body i) ''poolTopologies'' = Some (topologies i)"
    and "k \<in> {''defaultPools'', ''targetPlatforms''} \<Longrightarrow> map_of ms k = Some (JObj es) \<Longrightarrow>
      map_of (revert_body i) k = Some (JObj (filter (\<lambda>(b, _). b \<in> {ri_currentBuildId i, ri_previousBuildId i}) es))"
    and "k \<notin> {''generation'', ''updatedAt'', ''readinessPathSupported'', ''poolTopologies'', ''defaultPools'', ''targetPlatforms'', ''buildId'', ''previousBuildId''} \<Longrightarrow>
      map_of (revert_body i) k = map_of ms k"
proof -
  note body = revert_body_def map_of_pruned assms topologies_def map_of_jsmap_set
  show "map_of (revert_body i) ''buildId'' = Some (JStr (ri_previousBuildId i))"
    "map_of (revert_body i) ''previousBuildId'' = Some (JStr (ri_currentBuildId i))"
    "map_of (revert_body i) ''poolTopologies'' = Some (topologies i)"
    unfolding body by simp_all
  show "map_of (revert_body i) k = Some (JObj (filter (\<lambda>(b, _). b \<in> {ri_currentBuildId i, ri_previousBuildId i}) es))"
    if "k \<in> {''defaultPools'', ''targetPlatforms''}" "map_of ms k = Some (JObj es)"
    unfolding body using that by (elim insertE emptyE) simp_all
  show "map_of (revert_body i) k = map_of ms k"
    if "k \<notin> {''generation'', ''updatedAt'', ''readinessPathSupported'', ''poolTopologies'', ''defaultPools'', ''targetPlatforms'', ''buildId'', ''previousBuildId''}"
    unfolding body using that by (simp add: map_of_durable)
qed

text \<open>The second rollback starts from the state the first one committed, with the builds exchanged.\<close>

definition swapped :: "revert_inputs \<Rightarrow> rat \<Rightarrow> string \<Rightarrow> revert_inputs" where
  "swapped i generation now =
     i\<lparr>ri_currentBuildId := ri_previousBuildId i, ri_previousBuildId := ri_currentBuildId i,
       ri_poolNames := ri_currentPoolNames i, ri_currentPoolNames := ri_poolNames i,
       ri_state := stamp (revert_body i) generation now\<rparr>"

lemma stamp_member: "k \<notin> {''generation'', ''updatedAt''} \<Longrightarrow> jget (stamp body g now) k = map_of body k"
  by (auto simp: stamp_def)

text \<open>
  C16: Two rollbacks in a row lead back: the state committed by the second names the builds of the state
  the first started from, in their places; every member the code does not rewrite is unchanged; the
  default pools and platforms of the two builds, where recorded, are unchanged; and both topologies are
  recorded for their builds.
\<close>

theorem two_rollbacks_lead_back:
  assumes "ri_state i = JObj ms" "ri_currentBuildId i \<noteq> ri_previousBuildId i"
    and "map_of ms ''buildId'' = Some (JStr (ri_currentBuildId i))" "map_of ms ''previousBuildId'' = Some (JStr (ri_previousBuildId i))"
  shows "(\<forall>k. k \<notin> {''generation'', ''updatedAt'', ''readinessPathSupported'', ''poolTopologies'', ''defaultPools'', ''targetPlatforms''} \<longrightarrow>
            map_of (revert_body (swapped i generation now)) k = map_of ms k)
       \<and> (\<forall>k \<in> {''defaultPools'', ''targetPlatforms''}. \<forall>es. map_of ms k = Some (JObj es) \<longrightarrow>
            (\<forall>b \<in> {ri_currentBuildId i, ri_previousBuildId i}. oget (map_of (revert_body (swapped i generation now)) k) b = map_of es b))
       \<and> oget (map_of (revert_body (swapped i generation now)) ''poolTopologies'') (ri_currentBuildId i) = Some (str_array (ri_currentPoolNames i))
       \<and> oget (map_of (revert_body (swapped i generation now)) ''poolTopologies'') (ri_previousBuildId i) = Some (str_array (ri_poolNames i))"
proof -
  let ?j = "swapped i generation now"
  obtain ms1 where s1: "ri_state ?j = JObj ms1" by (simp add: swapped_def stamp_def)
  have m1: "map_of ms1 k = map_of (revert_body i) k" if "k \<notin> {''generation'', ''updatedAt''}" for k
    using stamp_member [OF that, of "revert_body i" generation now] s1 by (simp add: swapped_def)
  note one = map_of_revert_body [OF assms(1)] and two = map_of_revert_body [OF s1]
  have names: "map_of (revert_body ?j) k = map_of ms k"
    if "k \<notin> {''generation'', ''updatedAt'', ''readinessPathSupported'', ''poolTopologies'', ''defaultPools'', ''targetPlatforms''}" for k
  proof (cases "k = ''buildId'' \<or> k = ''previousBuildId''")
    case True
    then show ?thesis using two(1,2) assms(3,4) by (auto simp: swapped_def)
  next
    case False
    then show ?thesis using that two(5) [of k] one(5) [of k] m1 [of k] by simp
  qed
  have pools: "oget (map_of (revert_body ?j) k) b = map_of es b"
    if k: "k \<in> {''defaultPools'', ''targetPlatforms''}" "map_of ms k = Some (JObj es)" and b: "b \<in> {ri_currentBuildId i, ri_previousBuildId i}" for k es b
  proof -
    have "k \<notin> {''generation'', ''updatedAt''}" using k(1) by auto
    then have "map_of (revert_body ?j) k = Some (JObj (filter (\<lambda>(b, _). b \<in> {ri_currentBuildId ?j, ri_previousBuildId ?j})
        (filter (\<lambda>(b, _). b \<in> {ri_currentBuildId i, ri_previousBuildId i}) es)))"
      using two(4) [OF k(1)] one(4) [OF k] m1 [of k] by simp
    then have "oget (map_of (revert_body ?j) k) b = map_of (filter (\<lambda>(b, _). b \<in> {ri_currentBuildId ?j, ri_previousBuildId ?j})
        (filter (\<lambda>(b, _). b \<in> {ri_currentBuildId i, ri_previousBuildId i}) es)) b"
      by (simp only: oget_def Option.bind.simps jget.simps)
    moreover have "b \<in> {ri_currentBuildId ?j, ri_previousBuildId ?j}" using b by (auto simp: swapped_def)
    ultimately show ?thesis using b by (simp only: map_of_filter_keys if_True)
  qed
  have "oget (map_of (revert_body ?j) ''poolTopologies'') (ri_currentBuildId i) = Some (str_array (ri_currentPoolNames i))"
    "oget (map_of (revert_body ?j) ''poolTopologies'') (ri_previousBuildId i) = Some (str_array (ri_poolNames i))"
    unfolding two(3) using assms(2) by (simp_all add: oget_def topologies_def swapped_def)
  then show ?thesis by (intro conjI allI impI ballI) (use names pools in \<open>metis+\<close>)
qed

section \<open>Runs\<close>

definition cutover_demo_world :: world where
  "cutover_demo_world h c = Some \<lparr>exitCode = 0,
     stdout = (if c ! 2 = ''hpa'' then ''h|1|3'' else if c ! 2 = ''pods'' then ''p|True|ssr'' else []), stderr = []\<rparr>"

definition demo_calls :: "json option \<Rightarrow> calls" where
  "demo_calls state =
     \<lparr>call_protect = (\<lambda>_. Inr ()), call_planReady = (\<lambda>_. Inr ()), call_readState = (\<lambda>_. Inr state), call_prepare = (\<lambda>_. Inr False),
      call_switch = (\<lambda>_. Inr ()), call_snapshot = (\<lambda>_. Inr ()), call_flip = (\<lambda>_. Inr ()), call_writeState = (\<lambda>_. Inr ()),
      call_invalidate = (\<lambda>_. Inr ())\<rparr>"

definition demo_state1 :: json where
  "demo_state1 = JObj [(''buildId'', JStr ''b1''), (''previousBuildId'', JNull), (''cdnTags'', JObj [(''b1'', JStr ''t1'')]), (''generation'', JNum 4)]"

definition demo_inputs :: cutover_inputs where
  "demo_inputs = \<lparr>ci_skipCleanup = False, ci_releaseName = ''shop'', ci_namespace = ''web'', ci_buildId = ''b2'', ci_previousBuildId = Some ''b1'',
     ci_pools = [''ssr''], ci_previousPools = [''ssr''], ci_defaultPool = ''ssr'', ci_hasPortableOrigin = False, ci_hasRoutingTier = False,
     ci_hasHealthCheckPolicy = False, ci_previousReplicas = [(''ssr'', 1)], ci_state = Some demo_state1, ci_composition = None,
     ci_routingDigest = None, ci_platform = ''linux/amd64'', ci_unretained = None, ci_projectId = None, ci_hasRouteExtJob = False,
     ci_hasEnvoyExtensionPolicy = False, ci_cdnEnabled = False\<rparr>"

abbreviation demo_recovery :: "edge_result io" where
  "demo_recovery \<equiv> restoreEdgeToPreviousBuild (revertRoutingServiceToBuild edge_demo_parse (\<lambda>_. []) (\<lambda>_. []) (\<lambda>_. replicate 64 CHR ''0'')) edge_demo_recovery"

definition cutover_demo_run :: "(thrown + unit) \<times> history" where
  "cutover_demo_run = runCutover edge_demo_parse (\<lambda>_. []) (\<lambda>_. []) (\<lambda>_. replicate 64 CHR ''0'') (demo_calls (Some demo_state1))
     demo_recovery demo_inputs cutover_demo_world []"

definition demo_state2 :: json where
  "demo_state2 = JObj [(''buildId'', JStr ''b2''), (''previousBuildId'', JStr ''b1''), (''cdnTags'', JObj [(''b1'', JStr ''t1''), (''b2'', JStr ''t2'')]),
     (''generation'', JNum 5)]"

definition demo_revert :: revert_inputs where
  "demo_revert = \<lparr>ri_skipCleanup = False, ri_releaseName = ''shop'', ri_namespace = ''web'', ri_currentBuildId = ''b2'', ri_previousBuildId = ''b1'',
     ri_poolNames = [''ssr''], ri_currentPoolNames = [''ssr''],
     ri_previousDeploys = [\<lparr>pd_pool = ''ssr'', pd_name = ''p'', pd_hpa = ''h1''\<rparr>], ri_currentDeploys = [\<lparr>pd_pool = ''ssr'', pd_name = ''q'', pd_hpa = ''h2''\<rparr>],
     ri_scaling = [], ri_state = demo_state2, ri_targetComposition = False, ri_registry = None, ri_projectId = None, ri_cdnEnabled = False\<rparr>"

definition revert_demo_world :: world where
  "revert_demo_world h c = Some \<lparr>exitCode = 0,
     stdout = (if c ! 2 = ''pods'' then ''p-1'' else []), stderr = []\<rparr>"

definition revert_demo_run :: "(thrown + unit) \<times> history" where
  "revert_demo_run = runRevert edge_demo_parse (\<lambda>_. []) (\<lambda>_. []) (\<lambda>_. replicate 64 CHR ''0'') (demo_calls (Some demo_state2)) demo_revert revert_demo_world []"

theorem cutover_commits_before_cleaning_witness:
  "committed (\<lambda>_. []) (demo_calls (Some demo_state1)) (cutover_state (\<lambda>_. replicate 64 CHR ''0'') demo_inputs) (take 9 (snd cutover_demo_run))
   \<and> snd cutover_demo_run ! 9 ! 1 = ''delete''"
proof -
  have h: "9 < length (snd cutover_demo_run)" "snd cutover_demo_run ! 9 ! 1 = ''delete''" by code_simp+
  have run: "runCutover edge_demo_parse (\<lambda>_. []) (\<lambda>_. []) (\<lambda>_. replicate 64 CHR ''0'') (demo_calls (Some demo_state1)) demo_recovery demo_inputs
      cutover_demo_world [] = (fst cutover_demo_run, snd cutover_demo_run)"
    by (simp add: cutover_demo_run_def)
  show ?thesis
    using cutover_commits_before_cleaning [OF run] id_take_nth_drop [OF h(1)] h(2) unfolding cutover_step_def by blast
qed

theorem rollback_commits_before_cleaning_witness:
  "committed (\<lambda>_. []) (demo_calls (Some demo_state2)) (Inr (revert_state demo_revert)) (take 15 (snd revert_demo_run))
   \<and> snd revert_demo_run ! 15 ! 1 = ''delete''"
proof -
  have h: "15 < length (snd revert_demo_run)" "snd revert_demo_run ! 15 ! 1 = ''delete''" by code_simp+
  have run: "runRevert edge_demo_parse (\<lambda>_. []) (\<lambda>_. []) (\<lambda>_. replicate 64 CHR ''0'') (demo_calls (Some demo_state2)) demo_revert
      revert_demo_world [] = (fst revert_demo_run, snd revert_demo_run)"
    by (simp add: revert_demo_run_def)
  show ?thesis
    using rollback_commits_before_cleaning [OF run] id_take_nth_drop [OF h(1)] h(2) unfolding rollback_step_def by blast
qed

definition demo_committed :: state_write where
  "demo_committed = (case cutover_state (\<lambda>_. replicate 64 CHR ''0'') demo_inputs of Inr sw \<Rightarrow> sw | Inl _ \<Rightarrow> \<lparr>sw_body = [], sw_based = JNull\<rparr>)"

theorem committed_state_covers_builds_in_play_witness:
  "isAdapterState (stamp (sw_body demo_committed) 5 ''now'') \<and> oget (map_of (sw_body demo_committed) ''cdnTags'') ''b1'' = Some (JStr ''t1'')"
proof -
  have sw: "cutover_state (\<lambda>_. replicate 64 CHR ''0'') demo_inputs = Inr demo_committed" by code_simp
  have b: "matches BUILD_ID_RE (ci_buildId demo_inputs)" by code_simp
  have s: "\<forall>s. ci_state demo_inputs = Some s \<longrightarrow> isAdapterState s"
    by (simp add: demo_inputs_def demo_state1_def isAdapterState_def string_and_def digest_map_def)
  have d: "\<forall>d. truthy_build (ci_routingDigest demo_inputs) = Some d \<longrightarrow> matches DIGEST_RE d"
    by (simp add: demo_inputs_def truthy_build_def)
  have prior: "ci_previousBuildId demo_inputs = Some ''b1''" "''b1'' \<noteq> ci_buildId demo_inputs"
    "oget (oget (ci_state demo_inputs) ''cdnTags'') ''b1'' = Some (JStr ''t1'')"
    by (simp_all add: demo_inputs_def demo_state1_def oget_def)
  show ?thesis
    using committed_state_covers_builds_in_play [OF sw b s d, of 5 "''now''"] prior by simp
qed

theorem two_rollbacks_lead_back_witness:
  "map_of (revert_body (swapped demo_revert 6 ''now'')) ''buildId'' = Some (JStr ''b2'')"
proof -
  obtain ms where ms: "ri_state demo_revert = JObj ms" "map_of ms ''buildId'' = Some (JStr ''b2'')" "map_of ms ''previousBuildId'' = Some (JStr ''b1'')"
    by (simp add: demo_revert_def demo_state2_def)
  have ids: "ri_currentBuildId demo_revert = ''b2''" "ri_previousBuildId demo_revert = ''b1''" by (simp_all add: demo_revert_def)
  have distinct: "ri_currentBuildId demo_revert \<noteq> ri_previousBuildId demo_revert" by (simp add: ids)
  from two_rollbacks_lead_back [OF ms(1) distinct ms(2,3) [folded ids], of 6 "''now''"]
  have "map_of (revert_body (swapped demo_revert 6 ''now'')) ''buildId'' = map_of ms ''buildId''" by simp
  then show ?thesis using ms(2) by simp
qed

end
