(* ===== verification/RoutePaths.thy ===== *)
theory RoutePaths
  imports Middleware "HOL-Library.Product_Lexorder"
begin

text \<open>
  Paths, pools and outputs of \<^verbatim>\<open>src/routing-common.ts\<close>: the request normalisation both resolvers run
  before routing, the redirect normalisation after it, and the choice of pool and output.

  \<open>web\<close> holds what the runtime provides: \<open>decodeURIComponent\<close>, what a URL stores when its pathname is
  set, and URL references resolved against a base. \<open>next_routing\<close> holds the three locale functions of the
  package \<^verbatim>\<open>@next/routing\<close>. A record of strings that the code indexes is an insertion-ordered map; its
  keys are pathnames and \<^verbatim>\<open>default\<close>, none of which is a property every object has.
\<close>

section \<open>URLs and the runtime\<close>

record web_url = url +
  url_protocol :: string
  url_port :: string
  url_search :: string

definition url_origin :: "web_url \<Rightarrow> string" where
  "url_origin u = url_protocol u @ ''//'' @ url_hostname u @ (if url_port u = [] then [] else '':'' @ url_port u)"

record web =
  w_decode :: "string \<Rightarrow> string option"
  w_path :: "string \<Rightarrow> string"
  w_params :: "string \<Rightarrow> (string \<times> string) list"
  w_reference :: "string \<Rightarrow> web_url \<Rightarrow> web_url option"

definition set_pathname :: "web \<Rightarrow> string \<Rightarrow> web_url \<Rightarrow> web_url" where
  "set_pathname W p u = u\<lparr>url_pathname := w_path W p\<rparr>"

definition set_search :: "web \<Rightarrow> string \<Rightarrow> web_url \<Rightarrow> web_url" where
  "set_search W s u = u\<lparr>url_search := s, url_params := w_params W s\<rparr>"

text \<open>\<open>s || d\<close> on strings.\<close>

definition js_or :: "string \<Rightarrow> string \<Rightarrow> string" where
  "js_or s d = (if s = [] then d else s)"

section \<open>Paths\<close>

definition stripBasePath :: "string \<Rightarrow> string \<Rightarrow> string" where
  "stripBasePath pathname basePath =
     (if basePath = [] then pathname
      else if pathname = basePath then ''/''
      else if prefix (basePath @ ''/'') pathname then drop (length basePath) pathname
      else pathname)"

text \<open>The template of a dynamic route, one expression per segment; \<open>None\<close> for a template that is not supported.\<close>

definition dot :: "char \<Rightarrow> bool" where
  "dot c = (c \<notin> {CHR 0x0A, CHR 0x0D})"

definition OPTIONAL_CATCH_ALL_RE :: rexp where
  "OPTIONAL_CATCH_ALL_RE = Seq (lit ''[[...'') (Seq (rplus (Cls dot)) (lit '']]''))"

definition CATCH_ALL_RE :: rexp where
  "CATCH_ALL_RE = Seq (lit ''[...'') (Seq (rplus (Cls dot)) (lit '']''))"

definition DYNAMIC_RE :: rexp where
  "DYNAMIC_RE = Seq (lit ''['') (Seq (rplus (Cls dot)) (lit '']''))"

definition segment_pattern :: "string \<Rightarrow> rexp option" where
  "segment_pattern seg =
     (if matches OPTIONAL_CATCH_ALL_RE seg then Some (ropt (Seq (lit ''/'') (rplus (Cls dot))))
      else if matches CATCH_ALL_RE seg then Some (Seq (lit ''/'') (rplus (Cls dot)))
      else if matches DYNAMIC_RE seg then Some (Seq (lit ''/'') (rplus (Cls (\<lambda>c. c \<noteq> CHR ''/''))))
      else if CHR ''['' \<in> set seg then None
      else Some (lit (CHR ''/'' # seg)))"

fun template_pattern :: "string list \<Rightarrow> rexp option" where
  "template_pattern [] = Some One"
| "template_pattern (seg # segs) =
     Option.bind (segment_pattern seg) (\<lambda>r. map_option (Seq r) (template_pattern segs))"

definition template_accepts :: "string list \<Rightarrow> string \<Rightarrow> bool" where
  "template_accepts paths outputId =
     (CHR ''['' \<in> set outputId \<and>
      (case template_pattern (tl (js_split (CHR ''/'') outputId)) of
         None \<Rightarrow> False
       | Some r \<Rightarrow> list_ex (matches (Seq r (ropt (lit ''/'')))) paths))"

definition template_weight :: "string \<Rightarrow> nat" where
  "template_weight outputId = length (filter (\<lambda>c. c = CHR ''['') outputId) + (if sublist ''...'' outputId then 10 else 0)"

definition literalSegments :: "string \<Rightarrow> nat" where
  "literalSegments outputId = length (filter (\<lambda>seg. seg \<noteq> [] \<and> CHR ''['' \<notin> set seg) (js_split (CHR ''/'') outputId))"

definition decoded_forms :: "web \<Rightarrow> string \<Rightarrow> string list" where
  "decoded_forms W pathname =
     (case w_decode W pathname of None \<Rightarrow> [pathname] | Some d \<Rightarrow> if d = pathname then [pathname] else [pathname, d])"

definition templateOutputCandidates :: "web \<Rightarrow> string \<Rightarrow> string list \<Rightarrow> string list" where
  "templateOutputCandidates W pathname outputIds =
     sort_key (\<lambda>outputId. (template_weight outputId, - int (literalSegments outputId)))
       (filter (template_accepts (decoded_forms W pathname)) outputIds)"

definition trailingSlashVariants :: "string \<Rightarrow> string list" where
  "trailingSlashVariants pathname =
     (if pathname = ''/'' then [''/'']
      else let slashed = suffix ''/'' pathname;
               withSlash = (if slashed then pathname else pathname @ ''/'');
               withoutSlash = (if slashed then butlast pathname else pathname)
           in [pathname, withoutSlash, withSlash])"

section \<open>Pools and outputs\<close>

type_synonym assignments = "(string, string) jsmap"

definition assigned :: "assignments \<Rightarrow> string \<Rightarrow> string option" where
  "assigned poolAssignments p = truthy (map_of poolAssignments p)"

definition locale_stripped :: "string list \<Rightarrow> string \<Rightarrow> string list" where
  "locale_stripped locales c =
     concat (map (\<lambda>locale. let pfx = CHR ''/'' # locale
        in if prefix (pfx @ ''/'') c \<or> c = pfx then trailingSlashVariants (js_or (drop (length pfx) c) ''/'') else []) locales)"

definition pool_candidates :: "string option \<Rightarrow> string \<Rightarrow> string list \<Rightarrow> string list" where
  "pool_candidates resolvedPathname matchedPathname i18nLocales =
     (let candidates = (case truthy resolvedPathname of None \<Rightarrow> [] | Some p \<Rightarrow> trailingSlashVariants p) @ trailingSlashVariants matchedPathname
      in candidates @ concat (map (locale_stripped i18nLocales) candidates))"

definition first_assigned :: "assignments \<Rightarrow> string list \<Rightarrow> string option" where
  "first_assigned poolAssignments candidates = List.find (\<lambda>p. assigned poolAssignments p \<noteq> None) candidates"

definition lookupPool :: "assignments \<Rightarrow> string option \<Rightarrow> string \<Rightarrow> string list \<Rightarrow> string option" where
  "lookupPool poolAssignments resolvedPathname matchedPathname i18nLocales =
     (case first_assigned poolAssignments (pool_candidates resolvedPathname matchedPathname i18nLocales) of
        Some p \<Rightarrow> assigned poolAssignments p
      | None \<Rightarrow> (case map_of poolAssignments ''default'' of
          Some pool \<Rightarrow> Some pool
        | None \<Rightarrow> (case poolAssignments of [] \<Rightarrow> None | (_, pool) # _ \<Rightarrow> Some pool)))"

definition preferConcreteOutput :: "web \<Rightarrow> string \<Rightarrow> string \<Rightarrow> assignments \<Rightarrow> string option" where
  "preferConcreteOutput W requestPathname resolvedPathname poolAssignments =
     (if assigned poolAssignments resolvedPathname \<noteq> None \<and> CHR ''['' \<notin> set resolvedPathname then None
      else
        let candidates = trailingSlashVariants requestPathname @
              (case w_decode W requestPathname of
                 Some d \<Rightarrow> if d \<noteq> requestPathname then trailingSlashVariants d else []
               | None \<Rightarrow> [])
        in List.find (\<lambda>c. c \<noteq> resolvedPathname \<and> assigned poolAssignments c \<noteq> None) (js_set candidates))"

definition normalizeMatchedPathname :: "string \<Rightarrow> assignments \<Rightarrow> string" where
  "normalizeMatchedPathname pathname poolAssignments =
     (if assigned poolAssignments pathname \<noteq> None then pathname
      else case first_assigned poolAssignments (trailingSlashVariants pathname) of
             Some v \<Rightarrow> v
           | None \<Rightarrow> if pathname = ''/'' \<and> assigned poolAssignments ''/index'' \<noteq> None then ''/index'' else pathname)"

definition resolveOutputPathname :: "web \<Rightarrow> string \<Rightarrow> string option \<Rightarrow> string option \<Rightarrow> assignments \<Rightarrow> string" where
  "resolveOutputPathname W requestPathname resolvedPathname invocationTargetPathname poolAssignments =
     (let matchedPathname = (case invocationTargetPathname of Some p \<Rightarrow> p | None \<Rightarrow> requestPathname);
          base = normalizeMatchedPathname (case resolvedPathname of Some p \<Rightarrow> p | None \<Rightarrow> matchedPathname) poolAssignments
      in case preferConcreteOutput W matchedPathname base poolAssignments of
           Some c \<Rightarrow> c
         | None \<Rightarrow>
             (case (if matchedPathname = requestPathname then preferConcreteOutput W requestPathname base poolAssignments else None) of
                Some c \<Rightarrow> c
              | None \<Rightarrow> base))"

section \<open>Outputs of React Server Component requests\<close>

text \<open>\<open>s.indexOf(t)\<close>.\<close>

fun index_of :: "string \<Rightarrow> string \<Rightarrow> nat option" where
  "index_of t [] = (if t = [] then Some 0 else None)"
| "index_of t (c # s) = (if prefix t (c # s) then Some 0 else map_option Suc (index_of t s))"

definition from_base :: "string \<Rightarrow> string list" where
  "from_base base = (if base = ''/index'' then [''/'', base] else [base])"

definition rscParentCandidates :: "string \<Rightarrow> rsc_config option \<Rightarrow> string list" where
  "rscParentCandidates pathname rsc =
     (case rsc of
        None \<Rightarrow> []
      | Some r \<Rightarrow>
          (case Option.bind (truthy (rsc_prefetchSegmentDirSuffix r)) (\<lambda>dir. index_of (dir @ ''/'') pathname) of
             Some i \<Rightarrow> from_base (js_or (take i pathname) ''/'')
           | None \<Rightarrow>
               if rsc_suffix r \<noteq> [] \<and> suffix (rsc_suffix r) pathname
               then from_base (js_or (take (length pathname - length (rsc_suffix r)) pathname) ''/'')
               else []))"

definition isRscRequest :: "web_headers \<Rightarrow> rsc_config option \<Rightarrow> bool" where
  "isRscRequest headers rscConfig = (case rscConfig of None \<Rightarrow> False | Some r \<Rightarrow> headers (js_lower (rsc_header r)) = Some ''1'')"

definition or_empty :: "string option \<Rightarrow> string" where
  "or_empty v = (case v of None \<Rightarrow> [] | Some s \<Rightarrow> s)"

definition resolveRscOutput :: "string \<Rightarrow> web_headers \<Rightarrow> rsc_config option \<Rightarrow> assignments \<Rightarrow> string" where
  "resolveRscOutput matchedPathname headers rscConfig poolAssignments =
     (case rscConfig of
        None \<Rightarrow> matchedPathname
      | Some r \<Rightarrow>
          if \<not> isRscRequest headers rscConfig then matchedPathname
          else
            let base = (if matchedPathname = ''/'' then ''/index'' else matchedPathname);
                segment = Option.bind (truthy (rsc_prefetchSegmentHeader r)) (\<lambda>name. truthy (headers (js_lower name)));
                candidate = map_option (\<lambda>seg. base @ or_empty (rsc_prefetchSegmentDirSuffix r) @ ''/''
                  @ dropWhile (\<lambda>c. c = CHR ''/'') seg @ or_empty (rsc_prefetchSegmentSuffix r)) segment;
                page = base @ rsc_suffix r
            in case Option.bind candidate (\<lambda>c. if assigned poolAssignments c \<noteq> None then Some c else None) of
                 Some c \<Rightarrow> c
               | None \<Rightarrow> if assigned poolAssignments page \<noteq> None then page else matchedPathname)"

text \<open>The locale the request normalisation added, taken off again.\<close>

definition stripAddedLocale :: "string \<Rightarrow> string option \<Rightarrow> string" where
  "stripAddedLocale pathname addedLocale =
     (case truthy addedLocale of
        None \<Rightarrow> pathname
      | Some locale \<Rightarrow>
          let pfx = CHR ''/'' # locale
          in if pathname = pfx then ''/''
             else if prefix (pfx @ ''/'') pathname then drop (length pfx) pathname
             else pathname)"

definition localeAlignedRouteParamPathname :: "string \<Rightarrow> string \<Rightarrow> string list \<Rightarrow> string" where
  "localeAlignedRouteParamPathname concretePathname handlerPathname i18nLocales =
     (let under = (\<lambda>p l. p = CHR ''/'' # l \<or> prefix (CHR ''/'' # l @ ''/'') p)
      in case truthy (List.find (under concretePathname) i18nLocales) of
           None \<Rightarrow> concretePathname
         | Some locale \<Rightarrow>
             if under handlerPathname locale then concretePathname
             else js_or (drop (length locale + 1) concretePathname) ''/'')"

section \<open>The locale's own template comes first\<close>

lemma sublist_dots_skip: "CHR ''.'' \<notin> set l \<Longrightarrow> sublist ''...'' (l @ s) \<longleftrightarrow> sublist ''...'' s"
  by (induction l) (auto simp: sublist_Cons_right)

lemma prefixed_weight:
  assumes "CHR ''['' \<notin> set l" "CHR ''.'' \<notin> set l"
  shows "template_weight (CHR ''/'' # l @ t) = template_weight t"
proof -
  have "filter (\<lambda>c. c = CHR ''['') l = []" using assms(1) by (induction l) auto
  then show ?thesis using sublist_dots_skip [of "CHR ''/'' # l" t] assms(2) by (simp add: template_weight_def)
qed

lemma js_split_append: "sep \<notin> set l \<Longrightarrow> js_split sep (l @ sep # r) = l # js_split sep r"
  by (induction l) auto

lemma join_split: "xs \<noteq> [] \<Longrightarrow> \<forall>x \<in> set xs. sep \<notin> set x \<Longrightarrow> js_split sep (js_join [sep] xs) = xs"
proof (induction xs)
  case (Cons x xs)
  show ?case
  proof (cases xs)
    case Nil
    then show ?thesis using Cons.prems by (simp add: js_split_no_sep)
  next
    case (Cons y ys)
    then show ?thesis using Cons.IH Cons.prems js_split_append [of sep x "js_join [sep] xs"] by simp
  qed
qed simp

lemma prefixed_literals:
  assumes "l \<noteq> []" "CHR ''['' \<notin> set l" "CHR ''/'' \<notin> set l"
  shows "literalSegments (CHR ''/'' # l @ CHR ''/'' # t) = Suc (literalSegments (CHR ''/'' # t))"
  using assms by (simp add: literalSegments_def js_split_append)

lemma sort_key_before:
  assumes "a \<in> set xs" "b \<in> set xs" "f a < f b"
  shows "\<exists>as bs cs. sort_key f xs = as @ a # bs @ b # cs"
proof -
  let ?r = "sort_key f xs"
  obtain ys zs where b: "?r = ys @ b # zs" using assms(2) by (metis set_sort split_list)
  have "a \<notin> set (b # zs)"
  proof
    assume "a \<in> set (b # zs)"
    moreover have "sorted (map f (ys @ b # zs))" using b by (metis sorted_sort_key)
    ultimately have "f b \<le> f a" by (auto simp: sorted_append)
    then show False using assms(3) by simp
  qed
  moreover have "a \<in> set ?r" using assms(1) by simp
  ultimately have "a \<in> set ys" using b by auto
  then obtain us vs where "ys = us @ a # vs" by (meson split_list)
  then show ?thesis using b by auto
qed

text \<open>
  When a path matches a template and the same template under a literal locale prefix, the template
  with the prefix is tried before the one without it, whatever the order of the manifest, so the locale
  is never taken for the value of a parameter.
\<close>

theorem locale_template_first:
  assumes "CHR ''/'' # t \<in> set (templateOutputCandidates W p ids)"
    and "CHR ''/'' # l @ CHR ''/'' # t \<in> set (templateOutputCandidates W p ids)"
    and "l \<noteq> []" "set l \<inter> {CHR ''['', CHR ''/'', CHR ''.''} = {}"
  shows "\<exists>as bs cs. templateOutputCandidates W p ids = as @ (CHR ''/'' # l @ CHR ''/'' # t) # bs @ (CHR ''/'' # t) # cs"
proof -
  have "(template_weight (CHR ''/'' # l @ CHR ''/'' # t), - int (literalSegments (CHR ''/'' # l @ CHR ''/'' # t)))
      < (template_weight (CHR ''/'' # t), - int (literalSegments (CHR ''/'' # t)))"
    using assms(3,4) prefixed_weight [of l "CHR ''/'' # t"] prefixed_literals [of l t] by (simp add: less_prod_def)
  from sort_key_before [where f = "\<lambda>i. (template_weight i, - int (literalSegments i))", OF _ _ this] show ?thesis using assms(1,2) unfolding templateOutputCandidates_def by simp
qed

definition plain_web :: web where
  "plain_web = \<lparr>w_decode = Some, w_path = (\<lambda>p. p), w_params = (\<lambda>s. []), w_reference = (\<lambda>r u. None)\<rparr>"

theorem locale_template_first_witness:
  "\<exists>as bs cs. templateOutputCandidates plain_web ''/en/a'' [''/[[...s]]'', ''/en/[[...s]]''] = as @ ''/en/[[...s]]'' # bs @ ''/[[...s]]'' # cs"
proof -
  have r: "templateOutputCandidates plain_web ''/en/a'' [''/[[...s]]'', ''/en/[[...s]]''] = [''/en/[[...s]]'', ''/[[...s]]'']" by code_simp
  have "CHR ''/'' # ''[[...s]]'' \<in> set (templateOutputCandidates plain_web ''/en/a'' [''/[[...s]]'', ''/en/[[...s]]''])"
    "CHR ''/'' # ''en'' @ CHR ''/'' # ''[[...s]]'' \<in> set (templateOutputCandidates plain_web ''/en/a'' [''/[[...s]]'', ''/en/[[...s]]''])"
    unfolding r by simp_all
  from locale_template_first [OF this] show ?thesis by simp
qed

section \<open>The page of an RSC output\<close>

lemma index_of_first:
  assumes "t \<noteq> []" "\<And>i. i < length a \<Longrightarrow> \<not> prefix t (drop i (a @ t @ b))"
  shows "index_of t (a @ t @ b) = Some (length a)"
  using assms
proof (induction a)
  case Nil
  then show ?case by (cases t) auto
next
  case (Cons c a)
  have "\<not> prefix t (c # a @ t @ b)" using Cons.prems(2) [of 0] by simp
  moreover have "index_of t (a @ t @ b) = Some (length a)"
    using Cons.IH Cons.prems(1) Cons.prems(2) [of "Suc i" for i] by fastforce
  ultimately show ?case by simp
qed

lemma index_of_None: "t \<noteq> [] \<Longrightarrow> index_of t s = None \<longleftrightarrow> \<not> sublist t s"
  by (induction s) (auto simp: sublist_Cons_right)

lemma index_of_dir:
  assumes "CHR ''/'' \<notin> set dir" "\<not> sublist (dir @ ''/'') base"
  shows "index_of (dir @ ''/'') (base @ dir @ ''/'' @ b) = Some (length base)"
proof -
  have "\<not> prefix (dir @ ''/'') (drop i (base @ (dir @ ''/'') @ b))" if i: "i < length base" for i
  proof
    assume p: "prefix (dir @ ''/'') (drop i (base @ (dir @ ''/'') @ b))"
    then obtain r where r: "drop i base @ dir @ ''/'' @ b = dir @ ''/'' @ r" using i by (auto simp: prefix_def)
    show False
    proof (cases "length dir < length (drop i base)")
      case True
      then have "prefix (dir @ ''/'') (drop i base)"
        using r by (metis append_assoc length_append_singleton not_less_eq not_less prefixI prefix_length_prefix append_eq_append_conv2 prefix_def)
      then show False using assms(2) by (meson prefix_imp_sublist sublist_drop sublist_order.order_trans)
    next
      case False
      let ?n = "length dir"
      have "(drop i base @ dir @ ''/'' @ b) ! ?n = CHR ''/''" using r by (simp add: nth_append)
      moreover have "(drop i base @ dir @ ''/'' @ b) ! ?n = dir ! (?n - length (drop i base))"
        using False i unfolding nth_append by auto
      moreover have "?n - length (drop i base) < ?n" using False i by simp
      ultimately show False using assms(1) nth_mem by metis
    qed
  qed
  from index_of_first [OF _ this] show ?thesis by simp
qed

lemma sublist_last_in:
  assumes "sublist (d @ [x]) (a @ b)" "x \<notin> set b"
  shows "sublist (d @ [x]) a"
proof -
  obtain us vs where e: "a @ b = (us @ d @ [x]) @ vs" using assms(1) by (auto simp: sublist_def)
  show ?thesis
  proof (cases "length (us @ d @ [x]) \<le> length a")
    case True
    then obtain ws where "a = (us @ d @ [x]) @ ws" using e by (metis append_eq_append_conv_if append_take_drop_id)
    then show ?thesis unfolding sublist_def by (metis append_assoc)
  next
    case False
    have "(a @ b) ! length (us @ d) = x" unfolding e by (simp add: nth_append)
    moreover have "(a @ b) ! length (us @ d) = b ! (length (us @ d) - length a)" using False by (simp add: nth_append)
    moreover have "length (us @ d) - length a < length b"
      using arg_cong [OF e, of length] False by simp
    ultimately show ?thesis using assms(2) nth_mem by metis
  qed
qed

lemma from_base_page: "m \<noteq> [] \<Longrightarrow> m \<in> set (from_base (js_or (if m = ''/'' then ''/index'' else m) ''/''))"
  by (auto simp: from_base_def js_or_def)

lemma rsc_output_cases:
  assumes "rsc_prefetchSegmentDirSuffix r = Some dir" "resolveRscOutput m headers (Some r) pools \<noteq> m"
  shows "(\<exists>b. resolveRscOutput m headers (Some r) pools = (if m = ''/'' then ''/index'' else m) @ dir @ ''/'' @ b)
       \<or> resolveRscOutput m headers (Some r) pools = (if m = ''/'' then ''/index'' else m) @ rsc_suffix r"
proof -
  define base where "base = (if m = ''/'' then ''/index'' else m)"
  show ?thesis
    using assms unfolding resolveRscOutput_def Let_def base_def [symmetric]
    by (cases "Option.bind (truthy (rsc_prefetchSegmentHeader r)) (\<lambda>name. truthy (headers (js_lower name)))")
      (auto simp: or_empty_def split: if_splits)
qed

text \<open>
  Whenever an RSC request is mapped to an output of its own, a segment prefetch or the payload of the
  whole page, the page it was mapped from is among the pages that output is traced back to, so its
  handler is found. The page's path must not itself contain the marker of segment directories.
\<close>

theorem rsc_output_has_its_page:
  assumes "resolveRscOutput m headers (Some r) pools \<noteq> m" "m \<noteq> []"
    and "rsc_suffix r \<noteq> []" "CHR ''/'' \<notin> set (rsc_suffix r)"
    and "rsc_prefetchSegmentDirSuffix r = Some dir" "dir \<noteq> []" "CHR ''/'' \<notin> set dir"
    and "\<not> sublist (dir @ ''/'') (if m = ''/'' then ''/index'' else m)"
  shows "m \<in> set (rscParentCandidates (resolveRscOutput m headers (Some r) pools) (Some r))"
proof -
  let ?base = "if m = ''/'' then ''/index'' else m"
  have dir: "truthy (rsc_prefetchSegmentDirSuffix r) = Some dir" using assms(5,6) by (simp add: truthy_def split: list.splits)
  consider b where "resolveRscOutput m headers (Some r) pools = ?base @ dir @ ''/'' @ b" | "resolveRscOutput m headers (Some r) pools = ?base @ rsc_suffix r"
    using rsc_output_cases [OF assms(5,1)] by blast
  then show ?thesis
  proof cases
    case (1 b)
    then show ?thesis using index_of_dir [OF assms(7,8), of b] from_base_page [OF assms(2)] dir
      by (simp add: rscParentCandidates_def)
  next
    case 2
    have "\<not> sublist (dir @ ''/'') (?base @ rsc_suffix r)" using sublist_last_in [OF _ assms(4), of dir ?base] assms(8) by metis
    then have "index_of (dir @ ''/'') (?base @ rsc_suffix r) = None" by (subst index_of_None) auto
    then show ?thesis using 2 from_base_page [OF assms(2)] dir assms(3)
      by (simp add: rscParentCandidates_def suffix_def)
  qed
qed

definition rsc_demo :: rsc_config where
  "rsc_demo = \<lparr>rsc_header = ''rsc'', rsc_suffix = ''.rsc'', rsc_prefetchSegmentHeader = Some ''seg'',
     rsc_prefetchSegmentDirSuffix = Some ''.segments'', rsc_prefetchSegmentSuffix = Some ''.segment.rsc''\<rparr>"

theorem rsc_output_has_its_page_witness:
  "''/'' \<in> set (rscParentCandidates ''/index.segments/_tree.segment.rsc'' (Some rsc_demo))"
proof -
  let ?h = "[''rsc'' \<mapsto> ''1'', ''seg'' \<mapsto> ''/_tree'']" and ?A = "[(''/index.segments/_tree.segment.rsc'', ''p'')]"
  have r: "resolveRscOutput ''/'' ?h (Some rsc_demo) ?A = ''/index.segments/_tree.segment.rsc''" by code_simp
  have d: "rsc_prefetchSegmentDirSuffix rsc_demo = Some ''.segments''" "rsc_suffix rsc_demo = ''.rsc''" by (simp_all add: rsc_demo_def)
  have n: "\<not> sublist (''.segments'' @ ''/'') (if ''/'' = ''/'' then ''/index'' else ''/'')" by code_simp
  show ?thesis using rsc_output_has_its_page [of "''/''" ?h rsc_demo ?A "''.segments''"] n unfolding r d by simp
qed

end
