(* ===== verification/RequestPrep.thy ===== *)
theory RequestPrep
  imports RoutePaths
begin

text \<open>
  The request normalisation of \<^verbatim>\<open>src/routing-common.ts\<close> that both resolvers run before routing
  (\<open>prepareRequest\<close>), and the normalisation of redirects after it. The code changes a URL in place; here
  the changed URL is returned.
\<close>

section \<open>Locales\<close>

record i18n_config =
  i18n_locales :: "string list"
  i18n_defaultLocale :: string
  i18n_localeDetection :: bool

text \<open>
  \<open>normalizeLocalePath\<close> gives the path without its locale and the locale found; \<open>detectDomainLocale\<close> the
  default locale of the domain; \<open>detectLocale\<close> the locale for a path, host, cookie and language header.
\<close>

record next_routing =
  normalizeLocalePath :: "string \<Rightarrow> string list \<Rightarrow> string \<times> string option"
  detectDomainLocale :: "i18n_config \<Rightarrow> string \<Rightarrow> string option"
  detectLocale :: "string \<Rightarrow> string \<Rightarrow> string option \<Rightarrow> string option \<Rightarrow> i18n_config \<Rightarrow> string"

record routing_manifest =
  rm_buildId :: "string option"
  rm_i18n :: "i18n_config option"
  rm_basePath :: string
  rm_trailingSlash :: bool

text \<open>\<open>i18n?.locales?.length\<close>.\<close>

definition has_locales :: "i18n_config option \<Rightarrow> i18n_config option" where
  "has_locales i18n = (case i18n of Some c \<Rightarrow> if i18n_locales c = [] then None else Some c | None \<Rightarrow> None)"

definition chosen_locale :: "next_routing \<Rightarrow> web_url \<Rightarrow> web_headers \<Rightarrow> i18n_config \<Rightarrow> string \<Rightarrow> string option" where
  "chosen_locale N url headers c path =
     (let defaultLocale = (case truthy (detectDomainLocale N c (url_hostname url)) of Some l \<Rightarrow> l | None \<Rightarrow> i18n_defaultLocale c);
          isIndex = (path = ''/'' \<or> path = ''/index'')
      in if isIndex \<and> i18n_localeDetection c
         then let locale = detectLocale N path (url_hostname url) (headers ''cookie'') (headers ''accept-language'') c
              in if locale \<noteq> defaultLocale then None else Some locale
         else Some defaultLocale)"

definition prefixRequestLocale ::
    "web \<Rightarrow> next_routing \<Rightarrow> web_url \<Rightarrow> web_headers \<Rightarrow> i18n_config option \<Rightarrow> string \<Rightarrow> bool \<Rightarrow> string option \<times> web_url" where
  "prefixRequestLocale W N url headers i18n basePath trailingSlash =
     (case has_locales i18n of
        None \<Rightarrow> (None, url)
      | Some c \<Rightarrow>
          let path = stripBasePath (url_pathname url) basePath
          in if prefix ''/_next/'' path \<or> prefix ''/api/'' path then (None, url)
             else if truthy (snd (normalizeLocalePath N path (i18n_locales c))) \<noteq> None then (None, url)
             else (case chosen_locale N url headers c path of
                 None \<Rightarrow> (None, url)
               | Some locale \<Rightarrow>
                   (Some locale,
                    set_pathname W
                      (if path = ''/'' then basePath @ ''/'' @ locale @ (if trailingSlash then ''/'' else [])
                       else basePath @ ''/'' @ locale @ path) url)))"

section \<open>Preparing a request\<close>

fun collapse :: "string \<Rightarrow> string" where
  "collapse (c # d # s) = (if c = CHR ''/'' \<and> d = CHR ''/'' then collapse (d # s) else c # collapse (d # s))"
| "collapse s = s"

definition collapseSlashesRedirect :: "web \<Rightarrow> web_url \<Rightarrow> web_url option" where
  "collapseSlashesRedirect W url =
     (if \<not> sublist ''//'' (url_pathname url) then None else Some (set_pathname W (collapse (url_pathname url)) url))"

definition strip_control_headers :: "web_headers \<Rightarrow> web_headers" where
  "strip_control_headers headers =
     (\<lambda>name. if prefix ''x-middleware-'' name \<and> name \<noteq> ''x-middleware-prefetch'' then None else headers name)"

record prepared =
  pr_url :: web_url
  pr_originalUrl :: web_url
  pr_isDataRequest :: bool
  pr_addedLocale :: "string option"

datatype prepare_result = Prepared prepared | PrepareError nat | PrepareRedirect web_url nat

definition data_prefix :: "routing_manifest \<Rightarrow> string" where
  "data_prefix manifest = rm_basePath manifest @ ''/_next/data/'' @ or_empty (rm_buildId manifest) @ ''/''"

definition is_data_request :: "routing_manifest \<Rightarrow> string \<Rightarrow> bool" where
  "is_data_request manifest pathname =
     (truthy (rm_buildId manifest) \<noteq> None \<and> prefix (data_prefix manifest) pathname \<and> suffix ''.json'' pathname)"

definition data_page_url :: "web \<Rightarrow> routing_manifest \<Rightarrow> web_url \<Rightarrow> web_url" where
  "data_page_url W manifest url =
     (let dataPath = js_slice (url_pathname url) (int (length (data_prefix manifest))) (- 5);
          pagePath = (if dataPath = ''index'' then ''/'' else CHR ''/'' # dataPath);
          page = set_pathname W (js_or (rm_basePath manifest @ (if pagePath = ''/'' then [] else pagePath)) ''/'') url
      in if rm_trailingSlash manifest \<and> url_pathname page \<noteq> ''/'' \<and> \<not> suffix ''/'' (url_pathname page)
         then set_pathname W (url_pathname page @ ''/'') page else page)"

definition prepareRequest ::
    "web \<Rightarrow> next_routing \<Rightarrow> web_url \<Rightarrow> web_headers \<Rightarrow> routing_manifest \<Rightarrow> prepare_result \<times> web_headers" where
  "prepareRequest W N requestUrl headers manifest =
     (let headers' = strip_control_headers headers
      in (if w_decode W (url_pathname requestUrl) = None then PrepareError 400
          else case collapseSlashesRedirect W requestUrl of
                 Some collapsed \<Rightarrow> PrepareRedirect collapsed 308
               | None \<Rightarrow>
                   let isDataRequest = is_data_request manifest (url_pathname requestUrl);
                       url = (if isDataRequest then data_page_url W manifest requestUrl else requestUrl);
                       (addedLocale, url') = prefixRequestLocale W N url headers' (rm_i18n manifest) (rm_basePath manifest) (rm_trailingSlash manifest)
                   in Prepared \<lparr>pr_url = url', pr_originalUrl = requestUrl, pr_isDataRequest = isDataRequest, pr_addedLocale = addedLocale\<rparr>,
          headers'))"

section \<open>Redirects\<close>

datatype redirect_norm = KeepRedirect | RewriteRedirect web_url | RetryAt web_url

definition drop_last_slash :: "web \<Rightarrow> web_url \<Rightarrow> web_url" where
  "drop_last_slash W u = set_pathname W (butlast (url_pathname u)) u"

definition normalizeI18nRedirect ::
    "web \<Rightarrow> next_routing \<Rightarrow> web_url \<times> nat \<Rightarrow> web_url \<Rightarrow> i18n_config option \<Rightarrow> string \<Rightarrow> string option \<Rightarrow> redirect_norm" where
  "normalizeI18nRedirect W N redirect requestUrl i18n basePath addedLocale =
     (case has_locales i18n of
        None \<Rightarrow> KeepRedirect
      | Some c \<Rightarrow>
          let (target, status) = redirect;
              localeOf = (\<lambda>p. normalizeLocalePath N p (i18n_locales c));
              origPath = stripBasePath (url_pathname requestUrl) basePath;
              targetPath = stripBasePath (url_pathname target) basePath
          in if truthy (snd (localeOf origPath)) \<noteq> None then KeepRedirect
             else (case truthy (snd (localeOf targetPath)) of
                 None \<Rightarrow> KeepRedirect
               | Some locale \<Rightarrow>
                   let rest = fst (localeOf targetPath);
                       root = (targetPath = CHR ''/'' # locale @ ''/'')
                   in if url_origin target \<noteq> url_origin requestUrl
                      then (if root then RewriteRedirect (drop_last_slash W target) else KeepRedirect)
                      else if rest = origPath
                      then (if status = 307
                            then (if root then RewriteRedirect (drop_last_slash W target) else KeepRedirect)
                            else RetryAt (set_pathname W (basePath @ ''/'' @ locale @ (if origPath = ''/'' then [] else origPath)) requestUrl))
                      else (case truthy addedLocale of
                          Some added \<Rightarrow>
                            if js_lower locale = js_lower added
                            then RewriteRedirect (set_pathname W (js_or (basePath @ (if rest = ''/'' then [] else rest)) ''/'') target)
                            else KeepRedirect
                        | None \<Rightarrow> KeepRedirect)))"

definition slash_flip :: "string \<Rightarrow> string \<Rightarrow> bool" where
  "slash_flip a b \<longleftrightarrow> a = b @ ''/'' \<or> a @ ''/'' = b"

text \<open>The locale \<open>normalizeLocationRedirect\<close> reads off a path itself, and the rest of the path.\<close>

definition leading_locale :: "string list \<Rightarrow> string \<Rightarrow> (string \<times> string) option" where
  "leading_locale locales p =
     (case js_split (CHR ''/'') p of
        _ # seg # _ \<Rightarrow>
          (case truthy (Some (js_lower seg)) of
             None \<Rightarrow> None
           | Some s \<Rightarrow> map_option (\<lambda>l. (l, js_or (drop (length l + 1) p) ''/'')) (truthy (List.find (\<lambda>l. js_lower l = s) locales)))
      | _ \<Rightarrow> None)"

definition normalizeLocationRedirect ::
    "web \<Rightarrow> web_url \<Rightarrow> web_url \<Rightarrow> i18n_config option \<Rightarrow> string \<Rightarrow> string option \<Rightarrow> web_url" where
  "normalizeLocationRedirect W target requestUrl i18n basePath addedLocale =
     (if url_origin target \<noteq> url_origin requestUrl then target
      else
        let origPath = stripBasePath (url_pathname requestUrl) basePath;
            targetPath = stripBasePath (url_pathname target) basePath;
            target1 =
              (case has_locales i18n of
                 None \<Rightarrow> target
               | Some c \<Rightarrow>
                   if leading_locale (i18n_locales c) origPath \<noteq> None then target
                   else (case leading_locale (i18n_locales c) targetPath of
                       None \<Rightarrow> target
                     | Some (locale, rest) \<Rightarrow>
                         if slash_flip rest origPath
                            \<or> (case truthy addedLocale of Some added \<Rightarrow> js_lower locale = js_lower added | None \<Rightarrow> False)
                         then set_pathname W (js_or (basePath @ (if rest = ''/'' then [] else rest)) ''/'') target
                         else target))
        in if url_search target1 = [] \<and> url_search requestUrl \<noteq> [] \<and> slash_flip (url_pathname target1) (url_pathname requestUrl)
           then set_search W (url_search requestUrl) target1 else target1)"

text \<open>What routing found, as far as redirects are concerned. \<open>None\<close> of the result is a \<open>Location\<close> that is not a URL.\<close>

record resolution =
  rs_redirect :: "(web_url \<times> nat) option"
  rs_headers :: "web_headers option"
  rs_status :: "nat option"

datatype redirect_result = NoRedirect | RedirectTo web_url nat "web_headers option" | RetryWith web_url

definition normalizeResolvedRedirect ::
    "web \<Rightarrow> next_routing \<Rightarrow> 'a resolution_scheme \<Rightarrow> prepared \<Rightarrow> routing_manifest \<Rightarrow> bool \<Rightarrow> redirect_result option" where
  "normalizeResolvedRedirect W N r prep manifest middlewareAuthored =
     (case rs_redirect r of
        Some redirect \<Rightarrow>
          (case normalizeI18nRedirect W N redirect (pr_originalUrl prep) (rm_i18n manifest) (rm_basePath manifest) (pr_addedLocale prep) of
             RetryAt u \<Rightarrow> Some (RetryWith u)
           | RewriteRedirect u \<Rightarrow> Some (RedirectTo u (snd redirect) (rs_headers r))
           | KeepRedirect \<Rightarrow> Some (RedirectTo (fst redirect) (snd redirect) (rs_headers r)))
      | None \<Rightarrow>
          (case (truthy (Option.bind (rs_headers r) (\<lambda>h. h ''location'')), rs_status r) of
             (Some location, Some status) \<Rightarrow>
               if status \<notin> {301, 302, 303, 307, 308} then Some NoRedirect
               else (case w_reference W location (pr_originalUrl prep) of
                   None \<Rightarrow> None
                 | Some target \<Rightarrow>
                     let carried = (if \<not> middlewareAuthored \<and> url_search target = [] \<and> url_search (pr_originalUrl prep) \<noteq> []
                                    then set_search W (url_search (pr_originalUrl prep)) target else target)
                     in Some (RedirectTo (normalizeLocationRedirect W carried (pr_originalUrl prep) (rm_i18n manifest) (rm_basePath manifest) (pr_addedLocale prep))
                                status (rs_headers r)))
           | _ \<Rightarrow> Some NoRedirect))"

section \<open>Redirects settle\<close>

lemma collapse_head: "s \<noteq> [] \<Longrightarrow> \<exists>t. collapse s = hd s # t"
  by (induction s rule: collapse.induct) auto

lemma collapse_settled: "\<not> sublist ''//'' (collapse s)"
proof (induction s rule: collapse.induct)
  case (1 c d s)
  then show ?case
  proof (cases "c = CHR ''/'' \<and> d = CHR ''/''")
    case False
    obtain t where t: "collapse (d # s) = d # t" using collapse_head [of "d # s"] by auto
    then show ?thesis using 1(2) [OF False] False by (auto simp: sublist_Cons_right [of _ c])
  qed auto
qed (auto simp: sublist_Cons_right)

lemma collapse_id: "\<not> sublist ''//'' s \<Longrightarrow> collapse s = s"
  by (induction s rule: collapse.induct) (auto simp: sublist_Cons_right)

text \<open>
  A path with repeated slashes is redirected once. The target has no repeated slash and keeps origin
  and query, and the request for it, with any headers and under any manifest, is not redirected again.
  The hypothesis is that the URL stores the collapsed path as it is given.
\<close>

theorem slash_redirect_settles:
  assumes "fst (prepareRequest W N u headers manifest) = PrepareRedirect v status"
    and "w_path W (collapse (url_pathname u)) = collapse (url_pathname u)"
  shows "status = 308 \<and> url_pathname v = collapse (url_pathname u) \<and> url_origin v = url_origin u \<and> url_search v = url_search u
     \<and> (\<forall>headers' manifest' v' status'. fst (prepareRequest W N v headers' manifest') \<noteq> PrepareRedirect v' status')"
proof -
  have v: "collapseSlashesRedirect W u = Some v" "status = 308"
    using assms(1) by (auto simp: prepareRequest_def Let_def split: if_splits option.splits prod.splits)
  then have p: "v = u\<lparr>url_pathname := collapse (url_pathname u)\<rparr>"
    using assms(2) by (auto simp: collapseSlashesRedirect_def set_pathname_def split: if_splits)
  then have "collapseSlashesRedirect W v = None" using collapse_settled by (simp add: collapseSlashesRedirect_def)
  then have "fst (prepareRequest W N v headers' manifest') \<noteq> PrepareRedirect v' status'" for headers' manifest' v' status'
    by (simp add: prepareRequest_def Let_def split: prod.splits)
  then show ?thesis using v(2) p by (simp add: url_origin_def)
qed

definition demo_url :: "string \<Rightarrow> web_url" where
  "demo_url p = \<lparr>url_pathname = p, url_hostname = ''h'', url_params = [], url_protocol = ''http:'', url_port = [], url_search = []\<rparr>"

definition demo_routing :: next_routing where
  "demo_routing = \<lparr>normalizeLocalePath = (\<lambda>p ls. (p, None)), detectDomainLocale = (\<lambda>c h. None), detectLocale = (\<lambda>p h c a i. i18n_defaultLocale i)\<rparr>"

definition demo_manifest :: routing_manifest where
  "demo_manifest = \<lparr>rm_buildId = Some ''b1'', rm_i18n = Some \<lparr>i18n_locales = [''en'', ''fr''], i18n_defaultLocale = ''en'', i18n_localeDetection = True\<rparr>,
     rm_basePath = [], rm_trailingSlash = False\<rparr>"

theorem slash_redirect_settles_witness:
  "url_pathname (demo_url ''/a/b'') = collapse ''//a///b''
   \<and> fst (prepareRequest plain_web demo_routing (demo_url ''/a/b'') Map.empty demo_manifest) \<noteq> PrepareRedirect (demo_url ''/a/b'') 308"
proof -
  have run: "fst (prepareRequest plain_web demo_routing (demo_url ''//a///b'') Map.empty demo_manifest) = PrepareRedirect (demo_url ''/a/b'') 308"
    by code_simp
  have path: "w_path plain_web (collapse (url_pathname (demo_url ''//a///b''))) = collapse (url_pathname (demo_url ''//a///b''))"
    by (simp add: plain_web_def)
  show ?thesis using slash_redirect_settles [OF run path] by (simp add: demo_url_def)
qed

section \<open>The added locale comes off again\<close>

text \<open>
  What request preparation prefixes with a locale, for an application without a base path, is turned
  back into the public path when the same locale is stripped: handlers and rewrite signals see the path
  the client asked for. The hypothesis is that the URL stores the prefixed path as it is given.
\<close>

theorem added_locale_comes_off:
  assumes "prefixRequestLocale W N u headers i18n [] trailingSlash = (Some l, u')" "l \<noteq> []" "prefix ''/'' (url_pathname u)"
    and "\<And>q. w_path W (CHR ''/'' # l @ q) = CHR ''/'' # l @ q"
  shows "stripAddedLocale (url_pathname u') (Some l) = url_pathname u"
proof -
  let ?p = "url_pathname u"
  have "u' = set_pathname W (CHR ''/'' # l @ (if ?p = ''/'' then if trailingSlash then ''/'' else [] else ?p)) u"
    using assms(1) by (auto simp: prefixRequestLocale_def Let_def stripBasePath_def split: option.splits if_splits)
  then have "url_pathname u' = CHR ''/'' # l @ (if ?p = ''/'' then if trailingSlash then ''/'' else [] else ?p)"
    using assms(4) by (simp add: set_pathname_def)
  moreover obtain q where "?p = CHR ''/'' # q" using assms(3) by (auto simp: prefix_def)
  moreover have "truthy (Some l) = Some l" using assms(2) by (simp add: truthy_def split: list.splits)
  ultimately show ?thesis by (auto simp: stripAddedLocale_def Let_def prefix_def)
qed

theorem added_locale_comes_off_witness:
  "prefixRequestLocale plain_web demo_routing (demo_url ''/about'') Map.empty (rm_i18n demo_manifest) [] False = (Some ''en'', demo_url ''/en/about'')
   \<and> stripAddedLocale ''/en/about'' (Some ''en'') = ''/about''"
proof -
  have run: "prefixRequestLocale plain_web demo_routing (demo_url ''/about'') Map.empty (rm_i18n demo_manifest) [] False = (Some ''en'', demo_url ''/en/about'')"
    by code_simp
  from added_locale_comes_off [OF run] run show ?thesis by (simp add: demo_url_def plain_web_def prefix_def)
qed

end
