(* ===== verification/RouteQuery.thy ===== *)
theory RouteQuery
  imports RequestPrep "HOL-Library.Multiset"
begin

text \<open>
  Queries and rewrites in \<^verbatim>\<open>src/routing-common.ts\<close>: the target a rewritten request is invoked with and the
  headers that tell the client about the rewrite. A query is a plain JavaScript object, so reading a key
  it does not have can find a member every object inherits, and writing \<^verbatim>\<open>__proto__\<close> creates no entry.
  Objects list keys that are array indices first. \<open>form\<close> is \<open>URLSearchParams.toString\<close> and \<open>rx\<close> the match
  of a path against a pattern: the positional groups and the named ones, \<open>None\<close> when the pattern does not
  compile or does not match.
\<close>

section \<open>Query objects\<close>

datatype query_element = QText string | QInherited string

datatype query_value = QOne string | QMany "query_element list"

type_synonym query = "(string, query_value) jsmap"

definition OBJECT_MEMBERS :: "string list" where
  "OBJECT_MEMBERS = [''constructor'', ''hasOwnProperty'', ''isPrototypeOf'', ''propertyIsEnumerable'', ''toLocaleString'', ''toString'',
     ''valueOf'', ''__defineGetter__'', ''__defineSetter__'', ''__lookupGetter__'', ''__lookupSetter__'']"

definition native_text :: "string \<Rightarrow> string" where
  "native_text k = ''function '' @ (if k = ''constructor'' then ''Object'' else k) @ ''() { [native code] }''"

primrec element_text :: "query_element \<Rightarrow> string" where
  "element_text (QText s) = s"
| "element_text (QInherited k) = native_text k"

primrec value_elements :: "query_value \<Rightarrow> query_element list" where
  "value_elements (QOne s) = [QText s]"
| "value_elements (QMany es) = es"

definition obj_set :: "string \<Rightarrow> 'v \<Rightarrow> (string, 'v) jsmap \<Rightarrow> (string, 'v) jsmap" where
  "obj_set k v m = (if k = ''__proto__'' then m else jsmap_set k v m)"

text \<open>\<open>{ ...a, ...b }\<close>.\<close>

definition obj_spread :: "(string, 'v) jsmap \<Rightarrow> (string, 'v) jsmap \<Rightarrow> (string, 'v) jsmap" where
  "obj_spread a b = foldl (\<lambda>m (k, v). jsmap_set k v m) a b"

definition sentinel :: "string \<Rightarrow> bool" where
  "sentinel s = prefix ''$nxtP'' s"

definition internal_key :: "string \<Rightarrow> bool" where
  "internal_key k = (prefix ''nxtP'' k \<or> k = ''_rsc'')"

definition internal_entry :: "string \<times> query_value \<Rightarrow> bool" where
  "internal_entry e = (internal_key (fst e) \<or> list_ex (sentinel \<circ> element_text) (value_elements (snd e)))"

definition filterInternalQuery :: "query option \<Rightarrow> query option" where
  "filterInternalQuery q =
     map_option (\<lambda>m. foldl (\<lambda>out (k, v). obj_set k v out) [] (filter (Not \<circ> internal_entry) (obj_entries m))) q"

definition sanitizeRouteMatches :: "(string, string) jsmap option \<Rightarrow> (string, string) jsmap option" where
  "sanitizeRouteMatches routeMatches =
     (case routeMatches of
        None \<Rightarrow> None
      | Some m \<Rightarrow>
          let unresolvedValues = filter sentinel (map snd m)
          in if unresolvedValues = [] then Some m
             else let sanitized = filter (\<lambda>(_, v). v \<notin> set unresolvedValues) (obj_entries m)
                  in if sanitized = [] then None else Some sanitized)"

definition mergeInvocationQuery :: "query option \<Rightarrow> query option \<Rightarrow> query option" where
  "mergeInvocationQuery resolvedQuery targetQuery =
     (if resolvedQuery = None \<and> targetQuery = None then None
      else filterInternalQuery (Some (obj_spread (case resolvedQuery of None \<Rightarrow> [] | Some q \<Rightarrow> q) (case targetQuery of None \<Rightarrow> [] | Some q \<Rightarrow> q))))"

text \<open>\<open>query[key]\<close>: an own entry, or a member all objects have.\<close>

definition previous_value :: "query \<Rightarrow> string \<Rightarrow> query_value option" where
  "previous_value m k =
     (case map_of m k of
        Some v \<Rightarrow> Some v
      | None \<Rightarrow> if k \<in> set OBJECT_MEMBERS then Some (QMany [QInherited k]) else None)"

definition add_param :: "query \<Rightarrow> string \<times> string \<Rightarrow> query" where
  "add_param m p =
     (let (key, value) = p
      in obj_set key (case previous_value m key of
           None \<Rightarrow> QOne value
         | Some v \<Rightarrow> QMany (value_elements v @ [QText value])) m)"

definition query_of_params :: "(string \<times> string) list \<Rightarrow> query" where
  "query_of_params ps = foldl add_param [] ps"

definition queryFromUrl :: "('a) url_scheme \<Rightarrow> query" where
  "queryFromUrl u = query_of_params (url_params u)"

definition query_params :: "query \<Rightarrow> (string \<times> string) list" where
  "query_params m = concat (map (\<lambda>(k, v). map (\<lambda>e. (k, element_text e)) (value_elements v)) (obj_entries m))"

definition buildQueryString :: "((string \<times> string) list \<Rightarrow> string) \<Rightarrow> query option \<Rightarrow> string" where
  "buildQueryString form q =
     (case q of
        None \<Rightarrow> []
      | Some m \<Rightarrow> let s = form (query_params m) in if s = [] then [] else CHR ''?'' # s)"

section \<open>Repeated keys of a rewrite\<close>

record route_rule =
  rt_sourceRegex :: string
  rt_destination :: "string option"
  rt_status :: "nat option"

record route_graph =
  rg_beforeMiddleware :: "route_rule list"
  rg_beforeFiles :: "route_rule list"
  rg_afterFiles :: "route_rule list"
  rg_fallback :: "route_rule list"

record rx_match =
  rx_groups :: "string option list"
  rx_named :: "(string \<times> string option) list"

text \<open>\<open>s.replaceAll(t, () => v)\<close> for a text \<open>t\<close> that is not empty.\<close>

function replace_all :: "string \<Rightarrow> string \<Rightarrow> string \<Rightarrow> string" where
  "replace_all t v [] = []"
| "replace_all t v (c # s) =
     (if t \<noteq> [] \<and> prefix t (c # s) then v @ replace_all t v (drop (length t) (c # s)) else c # replace_all t v s)"
  by pat_completeness auto
termination
  by (relation "measure (\<lambda>(_, _, s). length s)") auto

declare replace_all.simps [simp del]

definition fill_destination :: "rx_match \<Rightarrow> string \<Rightarrow> string" where
  "fill_destination m destination =
     foldl (\<lambda>d (name, value). case value of None \<Rightarrow> d | Some v \<Rightarrow> replace_all (CHR ''$'' # name) v d) destination
       (map (\<lambda>(i, g). (nat_dec (i + 1), g)) (enumerate 0 (rx_groups m)) @ rx_named m)"

definition grouped :: "(string \<times> string) list \<Rightarrow> (string, string list) jsmap" where
  "grouped ps = foldl (\<lambda>m (k, v). jsmap_set k ((case map_of m k of None \<Rightarrow> [] | Some vs \<Rightarrow> vs) @ [v]) m) [] ps"

definition restore_repeated :: "query \<Rightarrow> string \<times> string list \<Rightarrow> query" where
  "restore_repeated out entry =
     (let (key, values) = entry
      in if 1 < length values \<and> map_of out key = Some (QOne (last values)) then obj_set key (QMany (map QText values)) out else out)"

definition apply_rule :: "web \<Rightarrow> (string \<Rightarrow> string \<Rightarrow> rx_match option) \<Rightarrow> string \<Rightarrow> query \<Rightarrow> route_rule \<Rightarrow> query" where
  "apply_rule W rx pathname out rule =
     (case truthy (rt_destination rule) of
        None \<Rightarrow> out
      | Some destination \<Rightarrow>
          if (case rt_status rule of None \<Rightarrow> False | Some s \<Rightarrow> 300 \<le> s \<and> s < 400) then out
          else (case rx (rt_sourceRegex rule) pathname of
              None \<Rightarrow> out
            | Some m \<Rightarrow>
                (case js_split (CHR ''?'') (fill_destination m destination) of
                   _ # rawQuery # _ \<Rightarrow> if rawQuery = [] then out else foldl restore_repeated out (grouped (w_params W rawQuery))
                 | _ \<Rightarrow> out)))"

definition restoreRepeatedRewriteQuery ::
    "web \<Rightarrow> (string \<Rightarrow> string \<Rightarrow> rx_match option) \<Rightarrow> web_url \<Rightarrow> route_graph \<Rightarrow> query option \<Rightarrow> query option" where
  "restoreRepeatedRewriteQuery W rx requestUrl routes q =
     map_option (\<lambda>m. foldl (apply_rule W rx (url_pathname requestUrl)) m
       (rg_beforeMiddleware routes @ rg_beforeFiles routes @ rg_afterFiles routes @ rg_fallback routes)) q"

section \<open>Rewrite targets\<close>

record invocation_target =
  it_pathname :: "string option"
  it_query :: "query option"

definition unresolved_dynamic :: "string \<Rightarrow> bool" where
  "unresolved_dynamic p = (sublist ''$nxtP'' p \<or> sublist ''%24nxtp'' (js_lower p))"

definition computeRewriteInvocation ::
    "web \<Rightarrow> ((string \<times> string) list \<Rightarrow> string) \<Rightarrow> (string \<Rightarrow> string \<Rightarrow> rx_match option) \<Rightarrow> web_url \<Rightarrow> string option \<Rightarrow> bool \<Rightarrow> bool
      \<Rightarrow> route_graph \<Rightarrow> query option \<Rightarrow> invocation_target option \<Rightarrow> string option \<Rightarrow> string option \<times> query option" where
  "computeRewriteInvocation W form rx originalUrl addedLocale isRsc isData routes resolvedQuery target resolvedPathname =
     (let invocationQuery = restoreRepeatedRewriteQuery W rx originalUrl routes
            (mergeInvocationQuery resolvedQuery (Option.bind target it_query));
          targetPathRaw = (case Option.bind target it_pathname of Some p \<Rightarrow> Some p | None \<Rightarrow> resolvedPathname)
      in (case truthy targetPathRaw of
            None \<Rightarrow> None
          | Some raw \<Rightarrow>
              if unresolved_dynamic raw \<or> isRsc \<or> isData then None
              else let candidate = stripAddedLocale raw addedLocale @ buildQueryString form invocationQuery
                   in if candidate \<noteq> url_pathname originalUrl @ url_search originalUrl then Some candidate else None,
          invocationQuery))"

record rewrite_signal =
  sg_path :: "string option"
  sg_query :: "string option"

definition computeRewriteSignalHeaders ::
    "((string \<times> string) list \<Rightarrow> string) \<Rightarrow> web_url \<Rightarrow> string option \<Rightarrow> bool \<Rightarrow> invocation_target option \<Rightarrow> query option \<Rightarrow> rewrite_signal" where
  "computeRewriteSignalHeaders form originalUrl addedLocale isRsc target invocationQuery =
     (case (isRsc, truthy (Option.bind target it_pathname)) of
        (True, Some targetPathname) \<Rightarrow>
          if unresolved_dynamic targetPathname then \<lparr>sg_path = None, sg_query = None\<rparr>
          else let rewrittenPath = stripAddedLocale targetPathname addedLocale;
                   rewrittenSearch = buildQueryString form invocationQuery
               in \<lparr>sg_path = (if rewrittenPath \<noteq> url_pathname originalUrl then Some rewrittenPath else None),
                   sg_query = (if rewrittenSearch \<noteq> url_search originalUrl
                     then Some (case rewrittenSearch of c # s \<Rightarrow> if c = CHR ''?'' then s else rewrittenSearch | [] \<Rightarrow> []) else None)\<rparr>
      | _ \<Rightarrow> \<lparr>sg_path = None, sg_query = None\<rparr>)"

definition REWRITTEN_PATH_HEADER :: string where "REWRITTEN_PATH_HEADER = ''x-nextjs-rewritten-path''"
definition REWRITTEN_QUERY_HEADER :: string where "REWRITTEN_QUERY_HEADER = ''x-nextjs-rewritten-query''"

definition applyRewriteSignalHeaders :: "web_headers \<Rightarrow> rewrite_signal \<Rightarrow> web_headers" where
  "applyRewriteSignalHeaders headers signal =
     (let h1 = (case sg_path signal of None \<Rightarrow> headers | Some p \<Rightarrow> headers(REWRITTEN_PATH_HEADER \<mapsto> p))
      in case sg_query signal of None \<Rightarrow> h1 | Some q \<Rightarrow> h1(REWRITTEN_QUERY_HEADER \<mapsto> q))"

definition middlewareAuthoredRedirect :: "web_headers option \<Rightarrow> bool" where
  "middlewareAuthoredRedirect middlewareResponse =
     (case middlewareResponse of None \<Rightarrow> False | Some h \<Rightarrow> h ''location'' \<noteq> None)"

section \<open>What reaches the handler\<close>

definition handler_entry :: "string \<times> query_value \<Rightarrow> bool" where
  "handler_entry e \<longleftrightarrow> \<not> internal_key (fst e) \<and> (\<forall>s. snd e = QOne s \<longrightarrow> \<not> sentinel s)"

lemma set_jsmap_set: "e \<in> set (jsmap_set k v m) \<Longrightarrow> e = (k, v) \<or> e \<in> set m"
  by (induction m) (auto split: if_splits)

lemma set_obj_set: "e \<in> set (obj_set k v m) \<Longrightarrow> e = (k, v) \<or> e \<in> set m"
  by (auto simp: obj_set_def dest: set_jsmap_set split: if_splits)

lemma fold_obj_set: "e \<in> set (foldl (\<lambda>out (k, v). obj_set k v out) m es) \<Longrightarrow> e \<in> set m \<or> e \<in> set es"
  by (induction es arbitrary: m) (auto dest: set_obj_set)

lemma filterInternalQuery_handler:
  assumes "filterInternalQuery q = Some m"
  shows "list_all handler_entry m"
proof -
  have "\<not> internal_entry e" if "e \<in> set m" for e
    using assms fold_obj_set that unfolding filterInternalQuery_def by fastforce
  then have "handler_entry e" if "e \<in> set m" for e using that by (cases e) (force simp: handler_entry_def internal_entry_def)
  then show ?thesis by (simp add: list_all_iff)
qed

lemma restore_repeated_handler: "list_all handler_entry m \<Longrightarrow> list_all handler_entry (restore_repeated m e)"
proof (cases e)
  case (Pair key vs)
  assume m: "list_all handler_entry m"
  show ?thesis
  proof (cases "1 < length vs \<and> map_of m key = Some (QOne (last vs))")
    case True
    then have "(key, QOne (last vs)) \<in> set m" using map_of_SomeD by fastforce
    then have "\<not> internal_key key" using m by (auto simp: list_all_iff handler_entry_def)
    then show ?thesis using True m Pair by (auto simp: restore_repeated_def list_all_iff handler_entry_def dest!: set_obj_set)
  qed (use m Pair in \<open>auto simp: restore_repeated_def\<close>)
qed

lemma apply_rule_handler:
  assumes "list_all handler_entry m"
  shows "list_all handler_entry (apply_rule W rx p m rule)"
proof -
  have "list_all handler_entry (foldl restore_repeated m es)" for es
    using assms by (induction es arbitrary: m) (auto intro: restore_repeated_handler)
  then show ?thesis using assms by (auto simp: apply_rule_def split: option.splits list.splits)
qed

text \<open>
  The query a rewritten request is invoked with never has a key that routing uses internally, and no
  single value in it is the marker of a capture that was not resolved; the path it is invoked with never
  contains that marker, plain or percent-encoded.
\<close>

theorem internal_params_stay_internal:
  assumes "computeRewriteInvocation W form rx u l isRsc isData routes rq target rp = (invokePath, Some q)"
  shows "(\<forall>k v. (k, v) \<in> set q \<longrightarrow> \<not> prefix ''nxtP'' k \<and> k \<noteq> ''_rsc'' \<and> (\<forall>s. v = QOne s \<longrightarrow> \<not> prefix ''$nxtP'' s))
     \<and> (\<forall>p. invokePath = Some p \<longrightarrow> \<not> isRsc \<and> \<not> isData \<and>
          (\<exists>raw. p = stripAddedLocale raw l @ buildQueryString form (Some q) \<and> \<not> sublist ''$nxtP'' raw \<and> \<not> sublist ''%24nxtp'' (js_lower raw)))"
proof -
  obtain m where m: "mergeInvocationQuery rq (Option.bind target it_query) = Some m"
    and q: "q = foldl (apply_rule W rx (url_pathname u)) m
       (rg_beforeMiddleware routes @ rg_beforeFiles routes @ rg_afterFiles routes @ rg_fallback routes)"
    using assms by (auto simp: computeRewriteInvocation_def restoreRepeatedRewriteQuery_def Let_def)
  have "list_all handler_entry m" using m filterInternalQuery_handler by (auto simp: mergeInvocationQuery_def split: if_splits)
  then have "list_all handler_entry (foldl (apply_rule W rx (url_pathname u)) m rs)" for rs
    by (induction rs arbitrary: m) (auto intro: apply_rule_handler)
  then have entries: "list_all handler_entry q" unfolding q .
  have "\<not> isRsc \<and> \<not> isData \<and> (\<exists>raw. p = stripAddedLocale raw l @ buildQueryString form (Some q) \<and> \<not> unresolved_dynamic raw)"
    if "invokePath = Some p" for p
    using assms that by (auto simp: computeRewriteInvocation_def Let_def split: option.splits if_splits)
  then show ?thesis using entries
    by (fastforce simp: list_all_iff handler_entry_def internal_key_def sentinel_def unresolved_dynamic_def)
qed

text \<open>A repeated key that is restored from the destination brings back a capture that was not resolved.\<close>

definition leak_web :: web where
  "leak_web = plain_web\<lparr>w_params := (\<lambda>s. if s = ''x=$nxtPa&x=2'' then [(''x'', ''$nxtPa''), (''x'', ''2'')] else [])\<rparr>"

definition leak_routes :: route_graph where
  "leak_routes = \<lparr>rg_beforeMiddleware = [], rg_beforeFiles = [\<lparr>rt_sourceRegex = ''r'', rt_destination = Some ''/b?x=$nxtPa&x=2'', rt_status = None\<rparr>],
     rg_afterFiles = [], rg_fallback = []\<rparr>"

lemma restored_key_leaks_sentinel:
  "restoreRepeatedRewriteQuery leak_web (\<lambda>_ _. Some \<lparr>rx_groups = [], rx_named = [(''nxtPa'', None)]\<rparr>) (demo_url ''/a'') leak_routes
     (mergeInvocationQuery (Some [(''x'', QOne ''2'')]) None) = Some [(''x'', QMany [QText ''$nxtPa'', QText ''2''])]"
  by code_simp

theorem internal_params_stay_internal_witness:
  "\<not> prefix ''nxtP'' ''id'' \<and> (\<exists>p. p = ''/b?id=7'' \<and> \<not> sublist ''$nxtP'' p)"
proof -
  let ?form = "\<lambda>ps. case ps of [(k, v)] \<Rightarrow> k @ ''='' @ v | _ \<Rightarrow> []"
  let ?rq = "Some [(''nxtPid'', QOne ''7''), (''id'', QOne ''7''), (''_rsc'', QOne ''x'')]"
  have run: "computeRewriteInvocation plain_web ?form (\<lambda>_ _. None) (demo_url ''/a'') None False False leak_routes ?rq
      (Some \<lparr>it_pathname = Some ''/b'', it_query = None\<rparr>) None = (Some ''/b?id=7'', Some [(''id'', QOne ''7'')])"
    by code_simp
  have "\<not> sublist ''$nxtP'' ''/b?id=7''" by code_simp
  then show ?thesis using internal_params_stay_internal [OF run] by auto
qed

section \<open>Queries survive being written and read\<close>

definition values_of :: "string \<Rightarrow> (string \<times> string) list \<Rightarrow> string list" where
  "values_of k ps = map snd (filter (\<lambda>p. fst p = k) ps)"

definition ordinary :: "string \<Rightarrow> bool" where
  "ordinary k \<longleftrightarrow> k \<noteq> ''__proto__'' \<and> k \<notin> set OBJECT_MEMBERS"

definition value_for :: "string list \<Rightarrow> query_value option" where
  "value_for vs = (case vs of [] \<Rightarrow> None | [v] \<Rightarrow> Some (QOne v) | _ \<Rightarrow> Some (QMany (map QText vs)))"

lemma value_for_snoc:
  "Some (case value_for vs of None \<Rightarrow> QOne v | Some w \<Rightarrow> QMany (value_elements w @ [QText v])) = value_for (vs @ [v])"
  by (auto simp: value_for_def split: list.splits)

lemma query_of_params_value:
  assumes "ordinary k"
  shows "map_of (query_of_params ps) k = value_for (values_of k ps)"
proof (induction ps rule: rev_induct)
  case (snoc p ps)
  have "previous_value (query_of_params ps) k = value_for (values_of k ps)"
    using snoc.IH assms by (auto simp: previous_value_def ordinary_def split: option.splits)
  then show ?case using snoc.IH assms
    by (auto simp: value_for_snoc query_of_params_def add_param_def obj_set_def values_of_def ordinary_def split: prod.splits)
qed (simp add: query_of_params_def values_of_def value_for_def)

lemma query_of_params_wf: "jsmap_wf (query_of_params ps)"
  by (induction ps rule: rev_induct) (auto simp: query_of_params_def add_param_def obj_set_def split: prod.splits)

lemma map_of_obj_entries: "jsmap_wf m \<Longrightarrow> map_of (obj_entries m) = map_of m"
proof -
  assume wf: "jsmap_wf m"
  have "mset (obj_entries m) = mset m"
    unfolding obj_entries_def by (simp add: comp_def multiset_partition [symmetric])
  then have "set (obj_entries m) = set m" "distinct (map fst (obj_entries m))"
    using wf by (metis mset_eq_setD, metis mset_eq_imp_distinct_iff mset_map)
  then show ?thesis using wf map_of_inject_set by blast
qed

lemma obj_entries_wf: "jsmap_wf m \<Longrightarrow> jsmap_wf (obj_entries m)"
proof -
  assume wf: "jsmap_wf m"
  have "mset (obj_entries m) = mset m"
    unfolding obj_entries_def by (simp add: comp_def multiset_partition [symmetric])
  then show ?thesis using wf by (metis mset_eq_imp_distinct_iff mset_map)
qed

lemma values_of_entries:
  assumes "distinct (map fst es)"
  shows "values_of k (concat (map (\<lambda>(k, v). map (\<lambda>e. (k, f e)) (g v)) es)) = (case map_of es k of None \<Rightarrow> [] | Some v \<Rightarrow> map f (g v))"
  using assms
proof (induction es)
  case (Cons e es)
  have none: "map_of es k = None" if "fst e = k" using Cons.prems that by (auto simp: map_of_eq_None_iff)
  have app: "values_of k (a @ b) = values_of k a @ values_of k b" for a b by (simp add: values_of_def)
  have hd: "values_of k (map (\<lambda>x. (fst e, f x)) (g (snd e))) = (if fst e = k then map f (g (snd e)) else [])"
    by (auto simp: values_of_def comp_def)
  show ?case using Cons none app hd by (cases e) auto
qed (simp add: values_of_def)

lemma query_params_values: "jsmap_wf m \<Longrightarrow> values_of k (query_params m) = (case map_of m k of None \<Rightarrow> [] | Some v \<Rightarrow> map element_text (value_elements v))"
  unfolding query_params_def using values_of_entries [OF obj_entries_wf, of m k element_text value_elements]
  by (simp add: map_of_obj_entries)

lemma value_for_texts: "(case value_for vs of None \<Rightarrow> [] | Some v \<Rightarrow> map element_text (value_elements v)) = vs"
  by (auto simp: value_for_def comp_def split: list.splits)

text \<open>
  The query read from a URL and written out again has, for every key that is not a member of all
  objects, the same values in the same order as the URL. The hypothesis is that reading what
  \<open>URLSearchParams\<close> wrote gives back the parameters written.
\<close>

theorem query_survives_rewriting:
  assumes "w_params W (buildQueryString form (Some (queryFromUrl u))) = query_params (queryFromUrl u)" "ordinary k"
  shows "values_of k (w_params W (buildQueryString form (Some (queryFromUrl u)))) = values_of k (url_params u)"
  unfolding assms(1) unfolding queryFromUrl_def
  by (simp add: query_params_values query_of_params_wf query_of_params_value assms(2) value_for_texts)

theorem query_survives_rewriting_witness:
  "values_of ''a'' (query_params (query_of_params [(''a'', ''1''), (''b'', ''2''), (''a'', ''3'')])) = [''1'', ''3'']"
proof -
  let ?u = "(demo_url ''/'')\<lparr>url_params := [(''a'', ''1''), (''b'', ''2''), (''a'', ''3'')]\<rparr>"
  let ?W = "plain_web\<lparr>w_params := (\<lambda>_. query_params (queryFromUrl ?u))\<rparr>"
  have inverse: "w_params ?W (buildQueryString (\<lambda>_. ''q'') (Some (queryFromUrl ?u))) = query_params (queryFromUrl ?u)" by simp
  have "ordinary ''a''" by code_simp
  from query_survives_rewriting [OF inverse this] show ?thesis by (simp add: queryFromUrl_def values_of_def)
qed

text \<open>A parameter with the name of a member of all objects gets the text of that member as a value of its own.\<close>

lemma inherited_member_enters_query:
  "query_params (query_of_params [(''constructor'', ''x'')]) = [(''constructor'', ''function Object() { [native code] }''), (''constructor'', ''x'')]"
  by code_simp

end
