(* ===== verification/LocalResolver.thy ===== *)
theory LocalResolver
  imports RouteQuery
begin

text \<open>
  The pool server's own resolver, \<^verbatim>\<open>src/pool-server/resolve.ts\<close>. Routing itself is \<open>resolveRoutes\<close> of the
  package \<^verbatim>\<open>@next/routing\<close>: from a URL and headers it either decides or asks for the middleware and goes on
  with the answer, so it is a tree of type \<open>routing\<close>. Running a middleware, reading its verdict
  (\<open>responseToMiddlewareResult\<close>, \<open>None\<close> where it throws), and whether a module exports one are parameters as
  well. The matcher of \<^verbatim>\<open>routing-common.ts\<close> catches what compiling a pattern raises, so it does not throw; left out
  is a configured condition on a name that is no header name, where \<^verbatim>\<open>Headers.get\<close> throws and the request
  is answered with 500. The variables that the callback of one pass assigns are the record \<open>mw_state\<close>; it also logs every
  run of the middleware. A header that is repeated counts as its values joined. A pass can continue with another one,
  after a rewrite or a retry, and nothing bounds retries, so \<open>resolve\<close> takes fuel and \<open>None\<close> means that it
  ran out.
\<close>

section \<open>Middleware\<close>

record mw_response =
  mr_status :: nat
  mr_headers :: web_headers

datatype mw_outcome = MwResponse mw_response | MwNone | MwThrow

record mw_ctx =
  mc_url :: web_url
  mc_headers :: web_headers

datatype mw_result = MwEmpty | MwBodySent | MwResult mw_response

datatype 'r routing = Resolved 'r | InvokeMiddleware mw_ctx "mw_result \<Rightarrow> 'r routing"

record route_resolution = resolution +
  rz_middlewareResponded :: bool
  rz_externalRewrite :: "web_url option"
  rz_resolvedPathname :: "string option"
  rz_invocationTarget :: "invocation_target option"
  rz_resolvedQuery :: "query option"
  rz_routeMatches :: "(string, string) jsmap option"

record full_manifest = routing_manifest +
  fm_middleware :: bool
  fm_poolAssignments :: assignments
  fm_routeGraph :: route_graph
  fm_rsc :: "rsc_config option"

record resolver =
  lr_web :: web
  lr_next :: next_routing
  lr_engine :: engine
  lr_form :: "(string \<times> string) list \<Rightarrow> string"
  lr_match :: "string \<Rightarrow> string \<Rightarrow> rx_match option"
  lr_manifest :: full_manifest
  lr_edge :: "(mw_ctx \<Rightarrow> mw_outcome) option"
  lr_node :: "(mw_ctx \<Rightarrow> mw_outcome) option"
  lr_nodeCallable :: bool
  lr_matchers :: "middleware_matcher list"
  lr_requestHeaders :: "mw_response \<Rightarrow> web_headers \<Rightarrow> web_url \<Rightarrow> web_headers option"
  lr_router :: "web_url \<Rightarrow> web_headers \<Rightarrow> route_resolution routing"

record mw_state =
  ms_response :: "mw_response option"
  ms_rewriteStatus :: "nat option"
  ms_requestHeaders :: "web_headers option"
  ms_threw :: bool
  ms_log :: "(mw_ctx \<times> mw_outcome) list"

definition run_middleware :: "resolver \<Rightarrow> mw_ctx \<Rightarrow> mw_outcome" where
  "run_middleware R ctx =
     (let node = (case lr_node R of None \<Rightarrow> MwNone | Some f \<Rightarrow> f ctx)
      in case lr_edge R of
           None \<Rightarrow> node
         | Some f \<Rightarrow> (case f ctx of MwNone \<Rightarrow> node | outcome \<Rightarrow> outcome))"

definition invoke_middleware :: "resolver \<Rightarrow> bool \<Rightarrow> mw_ctx \<Rightarrow> mw_state \<Rightarrow> mw_result \<times> mw_state" where
  "invoke_middleware R middlewareAlreadyRan ctx s =
     (if lr_edge R = None \<and> lr_node R = None then (MwEmpty, s)
      else if middlewareAlreadyRan then (MwEmpty, s)
      else if \<not> matchesMiddleware (lr_engine R) (lr_matchers R) (url.truncate (mc_url ctx)) (mc_headers ctx) then (MwEmpty, s)
      else
        let outcome = run_middleware R ctx; s1 = s\<lparr>ms_log := ms_log s @ [(ctx, outcome)]\<rparr>
        in case outcome of
             MwThrow \<Rightarrow> (MwBodySent, s1\<lparr>ms_threw := True\<rparr>)
           | MwNone \<Rightarrow> (MwEmpty, s1)
           | MwResponse r \<Rightarrow>
               let s2 = s1\<lparr>ms_response := Some r,
                 ms_rewriteStatus := (if mr_headers r ''x-middleware-rewrite'' \<noteq> None \<and> mr_status r \<noteq> 200 then Some (mr_status r) else ms_rewriteStatus s)\<rparr>
               in (case lr_requestHeaders R r (mc_headers ctx) (mc_url ctx) of
                     None \<Rightarrow> (MwBodySent, s2\<lparr>ms_threw := True\<rparr>)
                   | Some reqHeaders \<Rightarrow> (MwResult r, s2\<lparr>ms_requestHeaders := Some reqHeaders\<rparr>)))"

primrec run_routing :: "(mw_ctx \<Rightarrow> mw_state \<Rightarrow> mw_result \<times> mw_state) \<Rightarrow> 'r routing \<Rightarrow> mw_state \<Rightarrow> 'r \<times> mw_state" where
  "run_routing f (Resolved r) s = (r, s)"
| "run_routing f (InvokeMiddleware ctx k) s = (case f ctx s of (x, s') \<Rightarrow> run_routing f (k x) s')"

section \<open>Results\<close>

record route_result =
  rte_pool :: string
  rte_matchedPathname :: string
  rte_routeMatches :: "(string, string) jsmap option"
  rte_resolvedHeaders :: "web_headers option"
  rte_responseStatus :: "nat option"
  rte_middlewareRequestHeaders :: "web_headers option"
  rte_invokePath :: "string option"
  rte_invocationQuery :: "query option"

datatype resolve_result =
    RouteTo route_result
  | ResolveRedirect web_url nat "web_headers option"
  | ResolveError nat
  | MiddlewareResponse mw_response
  | ExternalRewrite web_url "web_headers option" "web_headers option"
  | NotFound "web_headers option" "web_headers option"
  | ResolveThrows

definition effective_port :: "web_url \<Rightarrow> string" where
  "effective_port u = js_or (url_port u) (if url_protocol u = ''https:'' then ''443'' else if url_protocol u = ''http:'' then ''80'' else [])"

definition loopback :: "string list" where
  "loopback = [''localhost'', ''127.0.0.1'', ''::1'', ''[::1]'']"

definition isSameDeploymentRewrite :: "web_url \<Rightarrow> web_url \<Rightarrow> bool" where
  "isSameDeploymentRewrite requestUrl rewriteUrl =
     (url_origin requestUrl = url_origin rewriteUrl \<or>
      url_protocol requestUrl = url_protocol rewriteUrl \<and> effective_port requestUrl = effective_port rewriteUrl
      \<and> url_hostname requestUrl \<in> set loopback \<and> url_hostname rewriteUrl \<in> set loopback)"

definition mergeHeaders :: "web_headers option \<Rightarrow> web_headers option \<Rightarrow> web_headers option" where
  "mergeHeaders first second =
     (if first = None \<and> second = None then None
      else Some ((case first of None \<Rightarrow> Map.empty | Some a \<Rightarrow> a) ++ (case second of None \<Rightarrow> Map.empty | Some b \<Rightarrow> b)))"

definition pagesRewriteSignalPath :: "web_url \<Rightarrow> full_manifest \<Rightarrow> string" where
  "pagesRewriteSignalPath target manifest =
     (let base = rm_basePath manifest; p0 = url_pathname target;
          p1 = (if base \<noteq> [] \<and> (p0 = base \<or> prefix (base @ ''/'') p0) then js_or (drop (length base) p0) ''/'' else p0);
          p2 = (if p1 \<noteq> ''/'' \<and> suffix ''/'' p1 then butlast p1 else p1)
      in (if p2 = ''/'' then js_or base ''/'' else base @ p2) @ url_search target)"

definition or_else :: "'a option \<Rightarrow> 'a option \<Rightarrow> 'a option" where
  "or_else a b = (case a of None \<Rightarrow> b | Some x \<Rightarrow> Some x)"

text \<open>The end of a pass that routing completed without redirect, response or rewrite.\<close>

definition final_route :: "resolver \<Rightarrow> prepared \<Rightarrow> web_headers \<Rightarrow> mw_state \<Rightarrow> route_resolution \<Rightarrow> resolve_result" where
  "final_route R prep headers s r =
     (let m = lr_manifest R; url = pr_url prep;
          targetPathname = Option.bind (rz_invocationTarget r) it_pathname;
          matchedPathname = (case targetPathname of Some p \<Rightarrow> p | None \<Rightarrow> url_pathname url)
      in case truthy (lookupPool (fm_poolAssignments m) (rz_resolvedPathname r) matchedPathname
                (case rm_i18n m of None \<Rightarrow> [] | Some c \<Rightarrow> i18n_locales c)) of
           None \<Rightarrow> NotFound (rs_headers r) (ms_requestHeaders s)
         | Some pool \<Rightarrow>
             let base = resolveOutputPathname (lr_web R) (url_pathname url) (rz_resolvedPathname r) targetPathname (fm_poolAssignments m);
                 final = resolveRscOutput base headers (fm_rsc m) (fm_poolAssignments m);
                 isRscReq = isRscRequest headers (fm_rsc m);
                 (invokePath, invocationQuery) = computeRewriteInvocation (lr_web R) (lr_form R) (lr_match R) (pr_originalUrl prep) (pr_addedLocale prep)
                   isRscReq (pr_isDataRequest prep) (fm_routeGraph m) (rz_resolvedQuery r) (rz_invocationTarget r) (rz_resolvedPathname r);
                 signal = computeRewriteSignalHeaders (lr_form R) (pr_originalUrl prep) (pr_addedLocale prep) isRscReq (rz_invocationTarget r) invocationQuery;
                 resolvedHeaders = (if sg_path signal \<noteq> None \<or> sg_query signal \<noteq> None
                   then Some (applyRewriteSignalHeaders (case rs_headers r of None \<Rightarrow> Map.empty | Some h \<Rightarrow> h) signal) else rs_headers r)
             in RouteTo \<lparr>rte_pool = pool, rte_matchedPathname = final, rte_routeMatches = sanitizeRouteMatches (rz_routeMatches r),
                  rte_resolvedHeaders = resolvedHeaders, rte_responseStatus = ms_rewriteStatus s,
                  rte_middlewareRequestHeaders = ms_requestHeaders s, rte_invokePath = invokePath, rte_invocationQuery = invocationQuery\<rparr>)"

text \<open>What the caller makes of the route a rewrite inside the deployment led to.\<close>

definition after_rewrite :: "resolver \<Rightarrow> prepared \<Rightarrow> mw_state \<Rightarrow> route_resolution \<Rightarrow> web_url \<Rightarrow> route_result \<Rightarrow> route_result" where
  "after_rewrite R prep s r target rewritten =
     (let headers = or_else (mergeHeaders (rs_headers r) (rte_resolvedHeaders rewritten)) (if pr_isDataRequest prep then Some Map.empty else None)
      in rewritten\<lparr>
        rte_responseStatus := or_else (ms_rewriteStatus s) (rte_responseStatus rewritten),
        rte_resolvedHeaders := (if pr_isDataRequest prep
          then map_option (\<lambda>h. h(''x-nextjs-rewrite'' \<mapsto> pagesRewriteSignalPath target (lr_manifest R))) headers else headers),
        rte_middlewareRequestHeaders := or_else (rte_middlewareRequestHeaders rewritten) (ms_requestHeaders s),
        rte_invokePath := (if pr_isDataRequest prep then None
          else or_else (rte_invokePath rewritten) (Some (url_pathname target @ url_search target))),
        rte_invocationQuery := mergeInvocationQuery (Some (queryFromUrl target)) (rte_invocationQuery rewritten)\<rparr>)"

section \<open>Resolving\<close>

definition routing_headers :: "prepared \<Rightarrow> web_headers \<Rightarrow> web_headers" where
  "routing_headers prep headers = headers(''x-nextjs-data'' := (if pr_isDataRequest prep then Some ''1'' else None))"

definition start_state :: "web_headers option \<Rightarrow> mw_state" where
  "start_state inherited = \<lparr>ms_response = None, ms_rewriteStatus = None, ms_requestHeaders = inherited, ms_threw = False, ms_log = []\<rparr>"

text \<open>A declared middleware without anything that can run it.\<close>

definition policy_missing :: "resolver \<Rightarrow> bool" where
  "policy_missing R \<longleftrightarrow> fm_middleware (lr_manifest R) \<and> lr_edge R = None \<and> \<not> (lr_node R \<noteq> None \<and> lr_nodeCallable R)"

text \<open>How a pass ends: with a result, or by continuing at another URL.\<close>

datatype pass_end = PassDone resolve_result | PassRetry web_url | PassRewrite web_url

definition finish_pass :: "resolver \<Rightarrow> prepared \<Rightarrow> web_headers \<Rightarrow> nat \<Rightarrow> route_resolution \<Rightarrow> mw_state \<Rightarrow> pass_end" where
  "finish_pass R prep headers rewriteDepth r s =
     (if ms_threw s then PassDone (ResolveError 500)
      else case normalizeResolvedRedirect (lr_web R) (lr_next R) r prep (routing_manifest.truncate (lr_manifest R))
                  (middlewareAuthoredRedirect (map_option mr_headers (ms_response s))) of
          None \<Rightarrow> PassDone ResolveThrows
        | Some (RetryWith retryUrl) \<Rightarrow> PassRetry retryUrl
        | Some (RedirectTo u status hs) \<Rightarrow> PassDone (ResolveRedirect u status hs)
        | Some NoRedirect \<Rightarrow>
            (case (if rz_middlewareResponded r then ms_response s else None) of
               Some response \<Rightarrow> PassDone (MiddlewareResponse response)
             | None \<Rightarrow>
                 (case rz_externalRewrite r of
                    None \<Rightarrow> PassDone (final_route R prep headers s r)
                  | Some target \<Rightarrow>
                      if isSameDeploymentRewrite (pr_url prep) target
                      then (if 8 \<le> rewriteDepth then PassDone (ResolveError 508) else PassRewrite target)
                      else PassDone (ExternalRewrite target (rs_headers r) (ms_requestHeaders s)))))"

fun resolve :: "nat \<Rightarrow> resolver \<Rightarrow> web_url \<Rightarrow> web_headers \<Rightarrow> nat \<Rightarrow> bool \<Rightarrow> web_headers option \<Rightarrow> (resolve_result \<times> (mw_ctx \<times> mw_outcome) list) option" where
  "resolve 0 R url headers rewriteDepth middlewareAlreadyRan inherited = None"
| "resolve (Suc fuel) R url headers0 rewriteDepth middlewareAlreadyRan inherited =
     (case prepareRequest (lr_web R) (lr_next R) url headers0 (routing_manifest.truncate (lr_manifest R)) of
        (PrepareError status, _) \<Rightarrow> Some (ResolveError status, [])
      | (PrepareRedirect u status, _) \<Rightarrow> Some (ResolveRedirect u status None, [])
      | (Prepared prep, headers) \<Rightarrow>
          if policy_missing R then Some (ResolveError 500, [])
          else
            (case run_routing (invoke_middleware R middlewareAlreadyRan) (lr_router R (pr_url prep) (routing_headers prep headers)) (start_state inherited) of
               (r, s) \<Rightarrow>
                 (case finish_pass R prep headers rewriteDepth r s of
                    PassDone result \<Rightarrow> Some (result, ms_log s)
                  | PassRetry retryUrl \<Rightarrow>
                      map_option (\<lambda>(result, log). (result, ms_log s @ log)) (resolve fuel R retryUrl headers 0 True (ms_requestHeaders s))
                  | PassRewrite target \<Rightarrow>
                      map_option (\<lambda>(result, log).
                          (case result of RouteTo rewritten \<Rightarrow> RouteTo (after_rewrite R prep s r target rewritten) | other \<Rightarrow> other, ms_log s @ log))
                        (resolve fuel R target (case ms_requestHeaders s of Some h \<Rightarrow> h | None \<Rightarrow> headers) (rewriteDepth + 1) True None))))"

section \<open>Platform routes\<close>

definition equalSearchParams :: "(string \<times> string) list \<Rightarrow> (string \<times> string) list \<Rightarrow> bool" where
  "equalSearchParams left right = list_all (\<lambda>k. values_of k left = values_of k right) (map fst left @ map fst right)"

definition targetsSamePlatformUrl :: "web \<Rightarrow> string \<Rightarrow> web_url \<Rightarrow> bool option" where
  "targetsSamePlatformUrl W invokePath requestUrl =
     map_option (\<lambda>target. url_origin target = url_origin requestUrl \<and> url_pathname target = url_pathname requestUrl
       \<and> equalSearchParams (url_params target) (url_params requestUrl)) (w_reference W invokePath requestUrl)"

datatype platform_result = ContinuePlatform "web_headers option" "web_headers option" | PlatformResult resolve_result

definition resolvePlatformRequest :: "nat \<Rightarrow> resolver \<Rightarrow> web_url \<Rightarrow> web_headers \<Rightarrow> platform_result option" where
  "resolvePlatformRequest fuel R url headers =
     (case resolve fuel R url headers 0 False None of
        None \<Rightarrow> None
      | Some (NotFound hs mw, _) \<Rightarrow> Some (ContinuePlatform hs mw)
      | Some (RouteTo r, _) \<Rightarrow>
          (case rte_invokePath r of
             None \<Rightarrow> Some (ContinuePlatform (rte_resolvedHeaders r) (rte_middlewareRequestHeaders r))
           | Some p \<Rightarrow>
               (case targetsSamePlatformUrl (lr_web R) p url of
                  None \<Rightarrow> Some (PlatformResult ResolveThrows)
                | Some True \<Rightarrow> Some (ContinuePlatform (rte_resolvedHeaders r) (rte_middlewareRequestHeaders r))
                | Some False \<Rightarrow> Some (PlatformResult (RouteTo r))))
      | Some (result, _) \<Rightarrow> Some (PlatformResult result))"

section \<open>The middleware's verdict is final\<close>

lemma invoke_already_ran [simp]: "invoke_middleware R True ctx s = (MwEmpty, s)"
  by (simp add: invoke_middleware_def)

lemma routing_already_ran: "snd (run_routing (invoke_middleware R True) t s) = s"
  by (induction t) auto

definition faithful :: "mw_state \<Rightarrow> bool" where
  "faithful s \<longleftrightarrow> (MwThrow \<in> snd ` set (ms_log s) \<longrightarrow> ms_threw s)"

lemma invoke_faithful: "faithful s \<Longrightarrow> invoke_middleware R b ctx s = (x, s') \<Longrightarrow> faithful s'"
  by (auto simp: invoke_middleware_def faithful_def Let_def split: if_splits mw_outcome.splits option.splits)

lemma routing_faithful: "faithful s \<Longrightarrow> faithful (snd (run_routing (invoke_middleware R b) t s))"
  by (induction t arbitrary: s) (auto split: prod.split dest: invoke_faithful)

text \<open>One pass that ends in a route, and how it got there.\<close>

abbreviation one_pass :: "resolver \<Rightarrow> bool \<Rightarrow> web_headers option \<Rightarrow> prepared \<Rightarrow> web_headers \<Rightarrow> route_resolution \<times> mw_state" where
  "one_pass R b inherited prep headers \<equiv>
     run_routing (invoke_middleware R b) (lr_router R (pr_url prep) (routing_headers prep headers)) (start_state inherited)"

lemma route_map [simp]:
  "(case x of RouteTo y \<Rightarrow> RouteTo (f y) | other \<Rightarrow> other) = RouteTo z \<longleftrightarrow> (\<exists>y. x = RouteTo y \<and> z = f y)"
  by (cases x) auto

lemma resolve_route_cases:
  assumes "resolve (Suc n) R u h d b inherited = Some (RouteTo result, log)"
  shows "\<exists>prep headers r s. prepareRequest (lr_web R) (lr_next R) u h (routing_manifest.truncate (lr_manifest R)) = (Prepared prep, headers)
     \<and> one_pass R b inherited prep headers = (r, s) \<and> \<not> policy_missing R \<and> \<not> ms_threw s
     \<and> (log = ms_log s \<and> final_route R prep headers s r = RouteTo result
      \<or> (\<exists>v log'. log = ms_log s @ log' \<and> resolve n R v headers 0 True (ms_requestHeaders s) = Some (RouteTo result, log'))
      \<or> (\<exists>v h' log' result'. log = ms_log s @ log' \<and> result = after_rewrite R prep s r v result'
           \<and> resolve n R v h' (d + 1) True None = Some (RouteTo result', log')))"
proof -
  obtain p headers where p: "prepareRequest (lr_web R) (lr_next R) u h (routing_manifest.truncate (lr_manifest R)) = (p, headers)" by fastforce
  then obtain prep where prep: "p = Prepared prep" and policy: "\<not> policy_missing R"
    using assms by (cases p) (auto split: if_splits)
  obtain r s where rs: "one_pass R b inherited prep headers = (r, s)" by fastforce
  have threw: "\<not> ms_threw s" using assms p prep policy rs by (auto simp: finish_pass_def)
  consider "finish_pass R prep headers d r s = PassDone (RouteTo result)" "log = ms_log s"
    | v log' where "log = ms_log s @ log'" "resolve n R v headers 0 True (ms_requestHeaders s) = Some (RouteTo result, log')"
    | v h' log' result' where "log = ms_log s @ log'" "result = after_rewrite R prep s r v result'"
        "resolve n R v h' (d + 1) True None = Some (RouteTo result', log')"
    using assms p prep policy rs by (auto split: pass_end.splits)
  then show ?thesis
  proof cases
    case 1
    then have "final_route R prep headers s r = RouteTo result"
      by (auto simp: finish_pass_def split: if_splits option.splits redirect_result.splits)
    then show ?thesis using p prep policy rs threw 1(2) by blast
  qed (use p prep policy rs threw in blast)+
qed

lemma final_route_headers: "final_route R prep headers s r = RouteTo result \<Longrightarrow> rte_middlewareRequestHeaders result = ms_requestHeaders s"
  by (auto simp: final_route_def Let_def split: option.splits prod.splits)

lemma continuation_route:
  "resolve n R u h d True inherited = Some (RouteTo result, log) \<Longrightarrow> log = [] \<and> rte_middlewareRequestHeaders result = inherited"
proof (induction n arbitrary: u h d inherited result log)
  case (Suc n)
  from resolve_route_cases [OF Suc.prems] obtain prep headers r s where rs: "one_pass R True inherited prep headers = (r, s)"
    and cases: "log = ms_log s \<and> final_route R prep headers s r = RouteTo result
      \<or> (\<exists>v log'. log = ms_log s @ log' \<and> resolve n R v headers 0 True (ms_requestHeaders s) = Some (RouteTo result, log'))
      \<or> (\<exists>v h' log' result'. log = ms_log s @ log' \<and> result = after_rewrite R prep s r v result'
           \<and> resolve n R v h' (d + 1) True None = Some (RouteTo result', log'))" by blast
  have s: "ms_log s = []" "ms_requestHeaders s = inherited"
    using routing_already_ran [of R] rs by (metis snd_conv start_state_def mw_state.select_convs)+
  from cases consider "log = ms_log s" "final_route R prep headers s r = RouteTo result"
    | v log' where "log = ms_log s @ log'" "resolve n R v headers 0 True (ms_requestHeaders s) = Some (RouteTo result, log')"
    | v h' log' result' where "log = ms_log s @ log'" "result = after_rewrite R prep s r v result'"
        "resolve n R v h' (d + 1) True None = Some (RouteTo result', log')" by blast
  then show ?case
  proof cases
    case 1
    then show ?thesis using s final_route_headers by simp
  next
    case 2
    then show ?thesis using s Suc.IH by simp
  next
    case 3
    then show ?thesis using s Suc.IH [OF 3(3)] by (simp add: after_rewrite_def Let_def or_else_def)
  qed
qed simp

text \<open>
  C9: When a request is resolved to a route, no middleware run has thrown, neither has reading its verdict,
  and a declared middleware was there to run; every run happened in the first pass, whatever retries and rewrites followed; and the
  request headers the middleware asked for in that pass are exactly the ones handed to the route.
\<close>

theorem middleware_verdict_is_final:
  assumes "resolve fuel R u h 0 False None = Some (RouteTo result, log)"
  shows "\<exists>prep headers. prepareRequest (lr_web R) (lr_next R) u h (routing_manifest.truncate (lr_manifest R)) = (Prepared prep, headers)
     \<and> log = ms_log (snd (one_pass R False None prep headers))
     \<and> rte_middlewareRequestHeaders result = ms_requestHeaders (snd (one_pass R False None prep headers))
     \<and> \<not> policy_missing R \<and> MwThrow \<notin> snd ` set log
     \<and> \<not> ms_threw (snd (one_pass R False None prep headers))"
proof -
  obtain n where n: "fuel = Suc n" using assms by (cases fuel) auto
  from resolve_route_cases [OF assms [unfolded n]] obtain prep headers r s where
    p: "prepareRequest (lr_web R) (lr_next R) u h (routing_manifest.truncate (lr_manifest R)) = (Prepared prep, headers)"
    and rs: "one_pass R False None prep headers = (r, s)" and ok: "\<not> policy_missing R" "\<not> ms_threw s"
    and cases: "log = ms_log s \<and> final_route R prep headers s r = RouteTo result
      \<or> (\<exists>v log'. log = ms_log s @ log' \<and> resolve n R v headers 0 True (ms_requestHeaders s) = Some (RouteTo result, log'))
      \<or> (\<exists>v h' log' result'. log = ms_log s @ log' \<and> result = after_rewrite R prep s r v result'
           \<and> resolve n R v h' (0 + 1) True None = Some (RouteTo result', log'))" by blast
  have "faithful s" using routing_faithful [of "start_state None"] rs by (metis faithful_def mw_state.select_convs(4,5) snd_conv start_state_def empty_iff image_empty list.set(1))
  then have "MwThrow \<notin> snd ` set (ms_log s)" using ok(2) by (simp add: faithful_def)
  moreover have "log = ms_log s \<and> rte_middlewareRequestHeaders result = ms_requestHeaders s"
    using cases by (auto dest!: continuation_route final_route_headers simp: after_rewrite_def Let_def or_else_def)
  ultimately show ?thesis using p rs ok by (metis snd_conv)
qed

section \<open>Rewrites end\<close>

lemma no_retry:
  assumes "has_locales (rm_i18n m) = None"
  shows "normalizeResolvedRedirect W N r prep m b \<noteq> Some (RetryWith v)"
  using assms by (auto simp: normalizeResolvedRedirect_def normalizeI18nRedirect_def Let_def split: option.splits if_splits prod.splits)

lemma resolve_answers:
  assumes "has_locales (rm_i18n (lr_manifest R)) = None"
  shows "0 < n \<Longrightarrow> 9 \<le> n + d \<Longrightarrow> resolve n R u h d b inherited \<noteq> None"
proof (induction n arbitrary: u h d b inherited)
  case (Suc n)
  have retry: "normalizeResolvedRedirect (lr_web R) (lr_next R) r prep (routing_manifest.truncate (lr_manifest R)) b' \<noteq> Some (RetryWith v)"
    for r :: route_resolution and prep b' v
    by (rule no_retry) (use assms in \<open>simp add: routing_manifest.truncate_def\<close>)
  have end_pass: "finish_pass R prep headers d r s \<noteq> PassRetry v" "finish_pass R prep headers d r s = PassRewrite v \<Longrightarrow> d < 8" for prep headers r s v
    using retry by (auto simp: finish_pass_def split: option.splits redirect_result.splits if_splits)
  have rest: "resolve n R v h' (Suc d) True None \<noteq> None" if "d < 8" for v h'
    using Suc.IH [of "Suc d" v h' True None] Suc.prems that by (cases n) auto
  obtain p headers where p: "prepareRequest (lr_web R) (lr_next R) u h (routing_manifest.truncate (lr_manifest R)) = (p, headers)" by fastforce
  show ?case
    using p end_pass rest by (auto split: prepare_result.splits prod.splits pass_end.splits)
qed simp

text \<open>
  C40: For an application without locales every request is answered: the chain of rewrites inside the
  deployment ends within nine passes, whatever routing and middleware answer, and a longer chain is
  answered with status 508. An answer may be an error, and \<open>ResolveThrows\<close> is one.
\<close>

theorem rewrites_end:
  assumes "has_locales (rm_i18n (lr_manifest R)) = None"
  shows "\<exists>result log. resolve 9 R u h 0 b inherited = Some (result, log)"
  using resolve_answers [OF assms, of 9 0 u h b inherited] by auto

section \<open>Runs\<close>

definition demo_resolution :: "web_url option \<Rightarrow> route_resolution" where
  "demo_resolution target = \<lparr>rs_redirect = None, rs_headers = None, rs_status = None, rz_middlewareResponded = False, rz_externalRewrite = target,
     rz_resolvedPathname = None, rz_invocationTarget = None, rz_resolvedQuery = None, rz_routeMatches = None\<rparr>"

text \<open>
  Middleware rewrites \<^verbatim>\<open>/a\<close> to \<^verbatim>\<open>/b\<close> and replaces the request headers; a rule rewrites \<^verbatim>\<open>/c\<close> to another origin.
\<close>

definition demo_router :: "web_url \<Rightarrow> web_headers \<Rightarrow> route_resolution routing" where
  "demo_router u h =
     (if url_pathname u = ''/a'' then InvokeMiddleware \<lparr>mc_url = u, mc_headers = h\<rparr> (\<lambda>_. Resolved (demo_resolution (Some (demo_url ''/b''))))
      else if url_pathname u = ''/x'' then InvokeMiddleware \<lparr>mc_url = u, mc_headers = h\<rparr> (\<lambda>_. Resolved (demo_resolution (Some (demo_url ''/c''))))
      else if url_pathname u = ''/c'' then Resolved (demo_resolution (Some ((demo_url ''/out'')\<lparr>url_hostname := ''other''\<rparr>)))
      else Resolved (demo_resolution None))"

definition demo_resolver :: resolver where
  "demo_resolver = \<lparr>lr_web = plain_web, lr_next = demo_routing, lr_engine = \<lparr>compile = (\<lambda>_. None), isSafe = (\<lambda>_. None), decode = Some\<rparr>,
     lr_form = (\<lambda>_. []), lr_match = (\<lambda>_ _. None),
     lr_manifest = \<lparr>rm_buildId = Some ''b1'', rm_i18n = None, rm_basePath = [], rm_trailingSlash = False,
       fm_middleware = True, fm_poolAssignments = [(''/b'', ''web'')],
       fm_routeGraph = \<lparr>rg_beforeMiddleware = [], rg_beforeFiles = [], rg_afterFiles = [], rg_fallback = []\<rparr>, fm_rsc = None\<rparr>,
     lr_edge = Some (\<lambda>_. MwResponse \<lparr>mr_status = 200, mr_headers = Map.empty\<rparr>), lr_node = None, lr_nodeCallable = False, lr_matchers = [],
     lr_requestHeaders = (\<lambda>_ _ _. Some [''x-user'' \<mapsto> ''7'']), lr_router = demo_router\<rparr>"

lemma demo_no_locales: "has_locales (rm_i18n (lr_manifest demo_resolver)) = None"
  by code_simp

lemma demo_route:
  "(case resolve 9 demo_resolver (demo_url ''/a'') Map.empty 0 False None of
      Some (RouteTo r, log) \<Rightarrow> rte_pool r = ''web'' \<and> rte_invokePath r = Some ''/b'' \<and> length log = 1
        \<and> Option.bind (rte_middlewareRequestHeaders r) (\<lambda>h. h ''x-user'') = Some ''7''
    | _ \<Rightarrow> False)"
  by code_simp

theorem middleware_verdict_is_final_witness:
  "\<exists>result log. resolve 9 demo_resolver (demo_url ''/a'') Map.empty 0 False None = Some (RouteTo result, log) \<and> length log = 1
     \<and> MwThrow \<notin> snd ` set log \<and> \<not> policy_missing demo_resolver"
proof -
  obtain a log where a: "resolve 9 demo_resolver (demo_url ''/a'') Map.empty 0 False None = Some (a, log)"
    using resolve_answers [OF demo_no_locales, of 9 0] by fastforce
  obtain result where run: "resolve 9 demo_resolver (demo_url ''/a'') Map.empty 0 False None = Some (RouteTo result, log)" "length log = 1"
    using demo_route a by (cases a) auto
  from middleware_verdict_is_final [OF run(1)] run show ?thesis by blast
qed

theorem rewrites_end_witness: "\<exists>result log. resolve 9 demo_resolver (demo_url ''/a'') Map.empty 0 False None = Some (result, log)"
  by (rule rewrites_end [OF demo_no_locales])

text \<open>A verdict that cannot be read answers the request with status 500.\<close>

lemma unreadable_verdict_is_an_error:
  "(case resolve 9 (demo_resolver\<lparr>lr_requestHeaders := (\<lambda>_ _ _. None)\<rparr>) (demo_url ''/a'') Map.empty 0 False None of
      Some (ResolveError status, log) \<Rightarrow> status = 500 \<and> length log = 1
    | _ \<Rightarrow> False)"
  by code_simp

text \<open>
  Headers the middleware asked for do not survive when its rewrite leads to another origin: the request is
  forwarded with the client's own headers.
\<close>

lemma external_continuation_loses_headers:
  "(case resolve 9 demo_resolver (demo_url ''/x'') Map.empty 0 False None of
      Some (ExternalRewrite u resolved requested, log) \<Rightarrow> url_hostname u = ''other'' \<and> requested = None \<and> length log = 1
    | _ \<Rightarrow> False)"
  by code_simp

end
