(* ===== verification/RscHash.thy ===== *)
theory RscHash
  imports RoutePaths "HOL-Library.Word"
begin

text \<open>
  The cache-busting parameter \<^verbatim>\<open>_rsc\<close> of \<^verbatim>\<open>src/routing-common.ts\<close>. A shared cache may key a response by its
  URL alone, so a response to an RSC request may only be stored if the URL carries a hash of the request
  headers the response depends on. \<open>digest\<close> is SHA-256 of a text, cut to 96 bits and written in base64url;
  \<open>None\<close> where it throws. A header is absent, a string, or an array of strings.
\<close>

section \<open>The hashes\<close>

definition RSC_CACHE_BUSTING_QUERY :: string where "RSC_CACHE_BUSTING_QUERY = ''_rsc''"
definition RSC_REQUEST_HEADER :: string where "RSC_REQUEST_HEADER = ''rsc''"
definition RSC_ROUTER_PREFETCH_HEADER :: string where "RSC_ROUTER_PREFETCH_HEADER = ''next-router-prefetch''"
definition RSC_ROUTER_SEGMENT_PREFETCH_HEADER :: string where "RSC_ROUTER_SEGMENT_PREFETCH_HEADER = ''next-router-segment-prefetch''"
definition RSC_ROUTER_STATE_TREE_HEADER :: string where "RSC_ROUTER_STATE_TREE_HEADER = ''next-router-state-tree''"
definition RSC_NEXT_URL_HEADER :: string where "RSC_NEXT_URL_HEADER = ''next-url''"

type_synonym rsc_value = "node_value option"

definition normalizeRscPrefetchHeader :: "rsc_value \<Rightarrow> string option" where
  "normalizeRscPrefetchHeader value =
     (case value of Some (Single s) \<Rightarrow> if s \<in> {''1'', ''2'', ''3''} then Some s else None | _ \<Rightarrow> None)"

definition normalizeRscCacheBustingInput :: "rsc_value \<Rightarrow> string" where
  "normalizeRscCacheBustingInput value =
     (case value of None \<Rightarrow> ''0'' | Some (Single s) \<Rightarrow> s | Some (Multi ss) \<Rightarrow> js_join '','' ss)"

definition rscCacheBustingInput :: "string option \<Rightarrow> rsc_value \<Rightarrow> rsc_value \<Rightarrow> rsc_value \<Rightarrow> string option" where
  "rscCacheBustingInput prefetch segmentPrefetch stateTree nextUrl =
     (if prefetch \<in> {None, Some ''0''} \<and> segmentPrefetch = None \<and> stateTree = None \<and> nextUrl = None then None
      else Some (js_join '','' [case prefetch of None \<Rightarrow> ''0'' | Some p \<Rightarrow> p,
        normalizeRscCacheBustingInput segmentPrefetch, normalizeRscCacheBustingInput stateTree, normalizeRscCacheBustingInput nextUrl]))"

definition computeRscCacheBustingParam ::
    "(string \<Rightarrow> string option) \<Rightarrow> string option \<Rightarrow> rsc_value \<Rightarrow> rsc_value \<Rightarrow> rsc_value \<Rightarrow> string option" where
  "computeRscCacheBustingParam digest prefetch segmentPrefetch stateTree nextUrl =
     (case rscCacheBustingInput prefetch segmentPrefetch stateTree nextUrl of None \<Rightarrow> Some [] | Some input \<Rightarrow> digest input)"

text \<open>JavaScript's 32-bit arithmetic on numbers: \<open>n | 0\<close> and \<open>n >>> 0\<close>.\<close>

definition to_int32 :: "int \<Rightarrow> int" where
  "to_int32 n = (n + 2 ^ 31) mod 2 ^ 32 - 2 ^ 31"

definition to_uint32 :: "int \<Rightarrow> int" where
  "to_uint32 n = n mod 2 ^ 32"

definition legacy_step :: "int \<Rightarrow> char \<Rightarrow> int" where
  "legacy_step hash c = to_int32 (to_int32 (to_int32 hash * 2 ^ 5) + hash + int (of_char c))"

definition legacy_hash :: "string \<Rightarrow> int" where
  "legacy_hash input = to_uint32 (foldl legacy_step 5381 input)"

definition base36_digit :: "nat \<Rightarrow> char" where
  "base36_digit n = char_of (if n < 10 then 48 + n else 87 + n)"

fun base36 :: "nat \<Rightarrow> string" where
  "base36 n = (if n < 36 then [base36_digit n] else base36 (n div 36) @ [base36_digit (n mod 36)])"

declare base36.simps [simp del]

definition computeLegacyRscCacheBustingParam :: "string option \<Rightarrow> rsc_value \<Rightarrow> rsc_value \<Rightarrow> rsc_value \<Rightarrow> string" where
  "computeLegacyRscCacheBustingParam prefetch segmentPrefetch stateTree nextUrl =
     (case rscCacheBustingInput prefetch segmentPrefetch stateTree nextUrl of
        None \<Rightarrow> []
      | Some input \<Rightarrow> take 5 (base36 (nat (legacy_hash input))))"

section \<open>The verdict\<close>

record rsc_verdict =
  rv_isRscRequest :: bool
  rv_validated :: bool
  rv_expected :: string

definition rsc_inputs :: "(string \<Rightarrow> rsc_value) \<Rightarrow> rsc_config option \<Rightarrow> string option \<times> rsc_value \<times> rsc_value \<times> rsc_value" where
  "rsc_inputs header rsc =
     (normalizeRscPrefetchHeader (header RSC_ROUTER_PREFETCH_HEADER),
      (let name = (case Option.bind rsc rsc_prefetchSegmentHeader of Some n \<Rightarrow> n | None \<Rightarrow> RSC_ROUTER_SEGMENT_PREFETCH_HEADER)
       in case header (js_lower name) of Some (Single []) \<Rightarrow> None | v \<Rightarrow> v),
      header RSC_ROUTER_STATE_TREE_HEADER, header RSC_NEXT_URL_HEADER)"

definition param_get :: "(string \<times> string) list \<Rightarrow> string \<Rightarrow> string option" where
  "param_get ps k = map_of ps k"

definition validateRscCacheBustingParam ::
    "(string \<Rightarrow> string option) \<Rightarrow> (string \<Rightarrow> rsc_value) \<Rightarrow> (string \<times> string) list \<Rightarrow> rsc_config option \<Rightarrow> rsc_verdict option" where
  "validateRscCacheBustingParam digest header searchParams rsc =
     (if header (js_lower (case rsc of Some r \<Rightarrow> rsc_header r | None \<Rightarrow> RSC_REQUEST_HEADER)) \<noteq> Some (Single ''1'')
      then Some \<lparr>rv_isRscRequest = False, rv_validated = True, rv_expected = []\<rparr>
      else (case rsc_inputs header rsc of (prefetch, segmentPrefetch, stateTree, nextUrl) \<Rightarrow>
        (case computeRscCacheBustingParam digest prefetch segmentPrefetch stateTree nextUrl of
           None \<Rightarrow> None
         | Some expected \<Rightarrow>
             let actual = param_get searchParams RSC_CACHE_BUSTING_QUERY
             in Some \<lparr>rv_isRscRequest = True,
                  rv_validated = (actual = Some expected
                    \<or> actual \<noteq> None \<and> actual = Some (computeLegacyRscCacheBustingParam prefetch segmentPrefetch stateTree nextUrl)),
                  rv_expected = expected\<rparr>)))"

definition rscCacheBustingUnvalidated ::
    "(string \<Rightarrow> string option) \<Rightarrow> (string \<Rightarrow> rsc_value) \<Rightarrow> (string \<times> string) list \<Rightarrow> rsc_config option \<Rightarrow> bool" where
  "rscCacheBustingUnvalidated digest header searchParams rsc =
     (case validateRscCacheBustingParam digest header searchParams rsc of
        None \<Rightarrow> True
      | Some verdict \<Rightarrow> rv_isRscRequest verdict \<and> \<not> rv_validated verdict)"

section \<open>The legacy hash is 32-bit arithmetic\<close>

lemma to_int32_cong: "(to_int32 n) mod 2 ^ 32 = n mod 2 ^ 32"
  unfolding to_int32_def by (metis add_diff_cancel_right' mod_diff_left_eq)

lemma legacy_step_word:
  assumes "(word_of_int h :: 32 word) = g"
  shows "word_of_int (legacy_step h c) = g * 33 + (of_nat (of_char c) :: 32 word)"
proof -
  have cong: "(word_of_int (to_int32 n) :: 32 word) = word_of_int n" for n
    using to_int32_cong [of n] by (simp add: word_of_int_eq_iff take_bit_eq_mod)
  show ?thesis
    unfolding legacy_step_def cong
    by (simp add: wi_hom_add [symmetric] wi_hom_mult [symmetric] cong assms algebra_simps)
qed

text \<open>
  The legacy hash, computed with JavaScript's mixture of signed and unsigned 32-bit operations on
  numbers, is exactly the multiply-by-33 hash on 32-bit words, and lies below \<open>2\<^sup>3\<^sup>2\<close>.
\<close>

theorem legacy_hash_is_word_arithmetic:
  "legacy_hash s = uint (foldl (\<lambda>h c. h * 33 + of_nat (of_char c)) (5381 :: 32 word) s) \<and> 0 \<le> legacy_hash s \<and> legacy_hash s < 2 ^ 32"
proof -
  have "word_of_int (foldl legacy_step a s) = foldl (\<lambda>h c. h * 33 + of_nat (of_char c)) (word_of_int a :: 32 word) s" for a
    by (induction s arbitrary: a) (simp_all add: legacy_step_word)
  from this [of 5381] have w: "word_of_int (foldl legacy_step 5381 s) = foldl (\<lambda>h c. h * 33 + of_nat (of_char c)) (5381 :: 32 word) s" by simp
  have "legacy_hash s = uint (word_of_int (foldl legacy_step 5381 s) :: 32 word)"
    by (simp add: legacy_hash_def to_uint32_def uint_word_of_int take_bit_eq_mod)
  then show ?thesis unfolding w [symmetric] by (simp add: legacy_hash_def to_uint32_def)
qed

section \<open>What the parameter vouches for\<close>

definition rsc_texts :: "(string \<Rightarrow> rsc_value) \<Rightarrow> rsc_config option \<Rightarrow> string list" where
  "rsc_texts header rsc =
     (case rsc_inputs header rsc of (prefetch, segmentPrefetch, stateTree, nextUrl) \<Rightarrow>
        [case prefetch of None \<Rightarrow> ''0'' | Some p \<Rightarrow> p,
         normalizeRscCacheBustingInput segmentPrefetch, normalizeRscCacheBustingInput stateTree, normalizeRscCacheBustingInput nextUrl])"

lemma modern_validated:
  assumes "\<not> rscCacheBustingUnvalidated digest header params rsc"
    and "header (js_lower (case rsc of Some r \<Rightarrow> rsc_header r | None \<Rightarrow> RSC_REQUEST_HEADER)) = Some (Single ''1'')"
    and "param_get params RSC_CACHE_BUSTING_QUERY = Some a" "5 < length a"
  shows "digest (js_join '','' (rsc_texts header rsc)) = Some a"
proof -
  obtain p s t n where i: "rsc_inputs header rsc = (p, s, t, n)" by (cases "rsc_inputs header rsc")
  have texts: "rsc_texts header rsc = [case p of None \<Rightarrow> ''0'' | Some p \<Rightarrow> p,
      normalizeRscCacheBustingInput s, normalizeRscCacheBustingInput t, normalizeRscCacheBustingInput n]"
    by (simp add: rsc_texts_def i)
  have short: "length (computeLegacyRscCacheBustingParam p s t n) \<le> 5"
    by (simp add: computeLegacyRscCacheBustingParam_def split: option.splits)
  obtain e where e: "computeRscCacheBustingParam digest p s t n = Some e"
    using assms(1,2) by (auto simp: rscCacheBustingUnvalidated_def validateRscCacheBustingParam_def i split: option.splits)
  then have "e = a"
    using assms short by (auto simp: rscCacheBustingUnvalidated_def validateRscCacheBustingParam_def i Let_def)
  then show ?thesis using e assms(4) unfolding texts computeRscCacheBustingParam_def
    by (auto simp: rscCacheBustingInput_def split: if_splits)
qed

text \<open>
  C10: If two RSC requests carry the same full-length parameter in their URL and neither is refused as
  unvalidated, then the normalised texts of the four headers that decide what they are answered
  (\<open>rsc_texts\<close>) are the same, provided none of these texts contains a comma and the digest has no collision
  at that parameter. The texts are what the parameter vouches for, and they are coarser than the headers:
  an absent header has the text \<^verbatim>\<open>0\<close>, as has a header with the value \<^verbatim>\<open>0\<close>, and every prefetch header other
  than \<^verbatim>\<open>1\<close>, \<^verbatim>\<open>2\<close> and \<^verbatim>\<open>3\<close> counts as absent.
\<close>

theorem rsc_param_binds_headers:
  assumes "\<not> rscCacheBustingUnvalidated digest h1 ps1 rsc" "\<not> rscCacheBustingUnvalidated digest h2 ps2 rsc"
    and "h1 (js_lower (case rsc of Some r \<Rightarrow> rsc_header r | None \<Rightarrow> RSC_REQUEST_HEADER)) = Some (Single ''1'')"
    and "h2 (js_lower (case rsc of Some r \<Rightarrow> rsc_header r | None \<Rightarrow> RSC_REQUEST_HEADER)) = Some (Single ''1'')"
    and "param_get ps1 RSC_CACHE_BUSTING_QUERY = Some a" "param_get ps2 RSC_CACHE_BUSTING_QUERY = Some a" "5 < length a"
    and "\<And>s t. digest s = Some a \<Longrightarrow> digest t = Some a \<Longrightarrow> s = t"
    and "\<And>x. x \<in> set (rsc_texts h1 rsc) \<union> set (rsc_texts h2 rsc) \<Longrightarrow> CHR '','' \<notin> set x"
  shows "rsc_texts h1 rsc = rsc_texts h2 rsc"
proof -
  have "js_join '','' (rsc_texts h1 rsc) = js_join '','' (rsc_texts h2 rsc)"
    using modern_validated [OF assms(1,3,5,7)] modern_validated [OF assms(2,4,6,7)] by (rule assms(8))
  moreover have "rsc_texts h rsc \<noteq> []" for h by (simp add: rsc_texts_def split: prod.splits)
  then have "js_split (CHR '','') (js_join '','' (rsc_texts h rsc)) = rsc_texts h rsc" if "h \<in> {h1, h2}" for h
    using join_split [of "rsc_texts h rsc" "CHR '',''"] assms(9) that by blast
  ultimately show ?thesis by (metis insertCI)
qed

text \<open>
  The proviso is needed: the values are joined with commas as they are, so a comma moved from one header
  to the next leaves the hash input unchanged.
\<close>

lemma comma_moves_between_headers:
  "rscCacheBustingInput None (Some (Single ''/a'')) (Some (Single ''b,c'')) None
     = rscCacheBustingInput None (Some (Single ''/a,b'')) (Some (Single ''c'')) None"
  by code_simp

definition rsc_demo_headers :: "string \<Rightarrow> rsc_value" where
  "rsc_demo_headers n = (if n = ''rsc'' then Some (Single ''1'') else if n = ''next-url'' then Some (Single ''/a'') else None)"

text \<open>Another request with the same texts: it states what the first one leaves out.\<close>

definition rsc_other_headers :: "string \<Rightarrow> rsc_value" where
  "rsc_other_headers n =
     (if n = ''next-router-state-tree'' then Some (Single ''0'') else if n = ''next-router-prefetch'' then Some (Single ''4'')
      else rsc_demo_headers n)"

theorem rsc_param_binds_headers_witness:
  "rsc_demo_headers \<noteq> rsc_other_headers \<and> rsc_texts rsc_demo_headers None = rsc_texts rsc_other_headers None
     \<and> rsc_texts rsc_demo_headers None = [''0'', ''0'', ''0'', ''/a'']"
proof -
  let ?digest = "\<lambda>s. if s = ''0,0,0,/a'' then Some ''sixteencharacter'' else None"
  let ?ps = "[(''_rsc'', ''sixteencharacter'')]"
  have ok: "\<not> rscCacheBustingUnvalidated ?digest rsc_demo_headers ?ps None"
    "\<not> rscCacheBustingUnvalidated ?digest rsc_other_headers ?ps None" by code_simp+
  have texts: "rsc_texts rsc_demo_headers None = [''0'', ''0'', ''0'', ''/a'']"
    "rsc_texts rsc_other_headers None = [''0'', ''0'', ''0'', ''/a'']" by code_simp+
  have rsc: "rsc_demo_headers (js_lower (case None of Some r \<Rightarrow> rsc_header r | None \<Rightarrow> RSC_REQUEST_HEADER)) = Some (Single ''1'')"
    "rsc_other_headers (js_lower (case None of Some r \<Rightarrow> rsc_header r | None \<Rightarrow> RSC_REQUEST_HEADER)) = Some (Single ''1'')" by code_simp+
  have param: "param_get ?ps RSC_CACHE_BUSTING_QUERY = Some ''sixteencharacter''" by code_simp
  have "rsc_texts rsc_demo_headers None = rsc_texts rsc_other_headers None"
    by (rule rsc_param_binds_headers [OF ok rsc param param]) (auto simp: texts split: if_splits)
  moreover have "rsc_demo_headers ''next-router-state-tree'' \<noteq> rsc_other_headers ''next-router-state-tree''" by code_simp
  ultimately show ?thesis using texts by metis
qed

end
