(* ===== verification/ManifestGuard.thy ===== *)
theory ManifestGuard
  imports RequestPrep Json
begin

text \<open>
  What a server accepts at boot and per request before routing: the routing manifest
  (\<open>assertValidRoutingManifest\<close>, with the directory of \<^verbatim>\<open>src/next-runtime/dist-dir.ts\<close>), the request target
  (\<open>parseRequestUrl\<close>) and the size of the header block, all of \<^verbatim>\<open>src/routing-common.ts\<close>. \<open>compiles\<close> says
  whether \<open>new RegExp\<close> accepts a pattern under the given case sensitivity.
\<close>

section \<open>The build directory\<close>

definition DEFAULT_NEXT_DIST_DIR :: string where "DEFAULT_NEXT_DIST_DIR = ''.next''"

abbreviation BSLASH_CHAR :: char where "BSLASH_CHAR \<equiv> CHR 0x5C"

definition win32_absolute :: "string \<Rightarrow> bool" where
  "win32_absolute s =
     (case s of
        [] \<Rightarrow> False
      | c # r \<Rightarrow> c = CHR ''/'' \<or> c = BSLASH_CHAR \<or>
          (lower c \<or> upper c) \<and> (case r of d # e # _ \<Rightarrow> d = CHR '':'' \<and> (e = CHR ''/'' \<or> e = BSLASH_CHAR) | _ \<Rightarrow> False))"

text \<open>\<open>path.posix.normalize\<close> of a relative path: the segments on a stack, \<^verbatim>\<open>..\<close> takes one off unless it is a \<^verbatim>\<open>..\<close> too.\<close>

definition push_segment :: "string list \<Rightarrow> string \<Rightarrow> string list" where
  "push_segment stack seg =
     (if seg = [] \<or> seg = ''.'' then stack
      else if seg = ''..'' then (if stack \<noteq> [] \<and> last stack \<noteq> ''..'' then butlast stack else stack @ [seg])
      else stack @ [seg])"

definition normalized_segments :: "string \<Rightarrow> string list" where
  "normalized_segments p = foldl push_segment [] (js_split (CHR ''/'') p)"

definition posix_normalize :: "string \<Rightarrow> string" where
  "posix_normalize p =
     (let segs = normalized_segments p; slash = suffix ''/'' p
      in if segs = [] then (if slash then ''./'' else ''.'') else js_join ''/'' segs @ (if slash then ''/'' else []))"

definition normalizeNextDistDir :: "json option \<Rightarrow> string + string" where
  "normalizeNextDistDir value =
     (case (case value of None \<Rightarrow> JStr DEFAULT_NEXT_DIST_DIR | Some v \<Rightarrow> v) of
        JStr raw \<Rightarrow>
          if raw = [] then Inl ''must be a non-empty project-relative path''
          else if CHR 0x00 \<in> set raw \<or> prefix ''/'' raw \<or> win32_absolute raw then Inl ''must be project-relative''
          else let normalized = posix_normalize (map (\<lambda>c. if c = BSLASH_CHAR then CHR ''/'' else c) raw)
               in if normalized = ''.'' \<or> normalized = ''..'' \<or> prefix ''../'' normalized then Inl ''must stay inside the project''
                  else Inr normalized
      | _ \<Rightarrow> Inl ''must be a non-empty project-relative path'')"

section \<open>The routing manifest\<close>

definition ROUTE_GRAPH_BUCKETS :: "string list" where
  "ROUTE_GRAPH_BUCKETS = [''beforeMiddleware'', ''beforeFiles'', ''afterFiles'', ''dynamicRoutes'', ''onMatch'', ''fallback'']"

fun object_like :: "json option \<Rightarrow> bool" where
  "object_like (Some (JObj _)) = True"
| "object_like _ = False"

definition check_that :: "bool \<Rightarrow> string \<Rightarrow> string + unit" where
  "check_that b detail = (if b then Inr () else Inl detail)"

text \<open>An entry is an object or an array; both can be asked for a property.\<close>

definition check_entry :: "(string \<Rightarrow> bool \<Rightarrow> bool) \<Rightarrow> bool \<Rightarrow> json \<Rightarrow> string + unit" where
  "check_entry compiles caseSensitive entry =
     res_bind (check_that (case entry of JObj _ \<Rightarrow> True | JArr _ \<Rightarrow> True | _ \<Rightarrow> False) ''must be an object'') (\<lambda>_.
       case jget entry ''sourceRegex'' of
         Some (JStr sourceRegex) \<Rightarrow> check_that (compiles sourceRegex caseSensitive) ''does not compile in this runtime''
       | _ \<Rightarrow> Inl ''sourceRegex must be a string'')"

definition check_bucket :: "(string \<Rightarrow> bool \<Rightarrow> bool) \<Rightarrow> bool \<Rightarrow> json \<Rightarrow> string \<Rightarrow> string + unit" where
  "check_bucket compiles caseSensitive graph bucket =
     (case jget graph bucket of
        None \<Rightarrow> Inl ''is missing''
      | Some (JArr entries) \<Rightarrow> res_all (check_entry compiles caseSensitive) entries
      | Some _ \<Rightarrow> Inl ''must be an array'')"

definition assertValidRoutingManifest :: "(string \<Rightarrow> bool \<Rightarrow> bool) \<Rightarrow> json \<Rightarrow> string + unit" where
  "assertValidRoutingManifest compiles parsed =
     res_bind (check_that (object_like (Some parsed)) ''expected a JSON object'') (\<lambda>_.
     res_bind (check_that (case jget parsed ''buildId'' of Some (JStr s) \<Rightarrow> s \<noteq> [] | _ \<Rightarrow> False) ''buildId must be a non-empty string'') (\<lambda>_.
     res_bind (check_that (is_string (jget parsed ''basePath'') \<noteq> None) ''basePath must be a string'') (\<lambda>_.
     res_bind (normalizeNextDistDir (jget parsed ''distDir'')) (\<lambda>_.
     res_bind (check_that (case jget parsed ''pathnames'' of Some (JArr ps) \<Rightarrow> list_all (\<lambda>p. is_string (Some p) \<noteq> None) ps | _ \<Rightarrow> False)
                ''pathnames must be an array of strings'') (\<lambda>_.
     res_bind (res_all (\<lambda>k. check_that (object_like (jget parsed k)) ''must be an object'') [''poolAssignments'', ''pprRoutes'']) (\<lambda>_.
     case jget parsed ''routeGraph'' of
       Some (JObj members) \<Rightarrow>
         (case jget (JObj members) ''caseSensitive'' of
            None \<Rightarrow> res_all (check_bucket compiles False (JObj members)) ROUTE_GRAPH_BUCKETS
          | Some (JBool b) \<Rightarrow> res_all (check_bucket compiles b (JObj members)) ROUTE_GRAPH_BUCKETS
          | Some _ \<Rightarrow> Inl ''routeGraph.caseSensitive must be a boolean when present'')
     | _ \<Rightarrow> Inl ''routeGraph must be an object''))))))"

section \<open>The request target and the header block\<close>

record authority =
  au_host :: string
  au_pathname :: string
  au_search :: string
  au_hash :: string
  au_username :: string
  au_password :: string

text \<open>\<open>new URL\<close> of an authority, and of a whole request URL; \<open>None\<close> where it throws.\<close>

definition parseRequestUrl ::
    "(string \<Rightarrow> authority option) \<Rightarrow> (string \<Rightarrow> web_url option) \<Rightarrow> string \<Rightarrow> string option \<Rightarrow> string + web_url" where
  "parseRequestUrl authority_of url_of target hostHeader =
     (case authority_of (''http://'' @ (case hostHeader of Some h \<Rightarrow> h | None \<Rightarrow> ''localhost'')) of
        None \<Rightarrow> Inl ''Invalid URL''
      | Some base \<Rightarrow>
          if au_pathname base \<noteq> ''/'' \<or> au_search base \<noteq> [] \<or> au_hash base \<noteq> [] \<or> au_username base \<noteq> [] \<or> au_password base \<noteq> []
          then Inl ''malformed Host header''
          else if \<not> prefix ''/'' target then Inl ''request target must use origin-form''
          else (case url_of (''http://'' @ au_host base @ target) of None \<Rightarrow> Inl ''Invalid URL'' | Some u \<Rightarrow> Inr u))"

definition requestTargetPathname ::
    "(string \<Rightarrow> authority option) \<Rightarrow> (string \<Rightarrow> web_url option) \<Rightarrow> string \<Rightarrow> string + string" where
  "requestTargetPathname authority_of url_of target =
     res_bind (parseRequestUrl authority_of url_of target (Some ''localhost'')) (\<lambda>u. Inr (url_pathname u))"

definition POOL_MAX_HEADER_BYTES :: nat where "POOL_MAX_HEADER_BYTES = 16 * 1024"
definition POOL_HEADER_BUDGET_RESERVE_BYTES :: nat where "POOL_HEADER_BUDGET_RESERVE_BYTES = 2 * 1024"

definition headerBlockBytes :: "(string \<times> string) list \<Rightarrow> nat" where
  "headerBlockBytes entries = foldl (\<lambda>total (k, v). total + (utf8_length k + utf8_length v + 4)) 0 entries"

definition fitsPoolHeaderBudget :: "nat \<Rightarrow> bool" where
  "fitsPoolHeaderBudget bytes = (bytes \<le> POOL_MAX_HEADER_BYTES - POOL_HEADER_BUDGET_RESERVE_BYTES)"

section \<open>The build directory stays inside the project\<close>

definition parents_first :: "string list \<Rightarrow> bool" where
  "parents_first stack \<longleftrightarrow> (\<exists>n rest. stack = replicate n ''..'' @ rest \<and> ''..'' \<notin> set rest)"

definition segment_ok :: "string \<Rightarrow> bool" where
  "segment_ok s \<longleftrightarrow> s \<noteq> [] \<and> s \<noteq> ''.'' \<and> CHR ''/'' \<notin> set s"

lemma push_ok: "list_all segment_ok stack \<Longrightarrow> CHR ''/'' \<notin> set seg \<Longrightarrow> list_all segment_ok (push_segment stack seg)"
  by (auto simp: push_segment_def segment_ok_def list_all_iff dest: in_set_butlastD)

lemma push_parents:
  assumes "parents_first stack"
  shows "parents_first (push_segment stack seg)"
proof -
  obtain n rest where stack: "stack = replicate n ''..'' @ rest" "''..'' \<notin> set rest" using assms unfolding parents_first_def by blast
  have intro: "parents_first (replicate k ''..'' @ r)" if "''..'' \<notin> set r" for k r using that unfolding parents_first_def by blast
  show ?thesis
  proof (cases "seg = ''..''")
    case True
    show ?thesis
    proof (cases rest rule: rev_cases)
      case Nil
      then have "push_segment stack seg = replicate (Suc n) ''..'' @ []"
        using True stack by (cases n) (auto simp: push_segment_def replicate_append_same)
      then show ?thesis using intro [of "[]" "Suc n"] by simp
    next
      case (snoc r x)
      then have "push_segment stack seg = replicate n ''..'' @ r" using True stack by (auto simp: push_segment_def butlast_append)
      then show ?thesis using snoc stack intro [of r n] by simp
    qed
  next
    case False
    then have "push_segment stack seg = stack \<or> push_segment stack seg = replicate n ''..'' @ rest @ [seg]" using stack by (simp add: push_segment_def)
    then show ?thesis using assms stack False intro [of "rest @ [seg]" n] by auto
  qed
qed

lemma normalized_clean: "parents_first (normalized_segments p)" "list_all segment_ok (normalized_segments p)"
proof -
  have "parents_first (foldl push_segment stack segs)" if "parents_first stack" for stack segs
    using that push_parents by (induction segs arbitrary: stack) auto
  moreover have "parents_first []" by (simp add: parents_first_def)
  ultimately show "parents_first (normalized_segments p)" unfolding normalized_segments_def by blast
  have "list_all segment_ok (foldl push_segment stack segs)" if "list_all segment_ok stack" "\<forall>s \<in> set segs. CHR ''/'' \<notin> set s" for stack segs
    using that push_ok by (induction segs arbitrary: stack) auto
  moreover have "\<forall>s \<in> set (js_split (CHR ''/'') p). CHR ''/'' \<notin> set s" using js_split_piece by blast
  ultimately show "list_all segment_ok (normalized_segments p)" unfolding normalized_segments_def by simp
qed

lemma parents_first_none: "parents_first (x # xs) \<Longrightarrow> x \<noteq> ''..'' \<Longrightarrow> ''..'' \<notin> set (x # xs)"
  unfolding parents_first_def by (metis append_Cons append_Nil list.sel(1) replicate_Suc replicate_0 old.nat.exhaust)

text \<open>
  The build directory a manifest may name is a relative path that never leaves the project: it does
  not begin with a slash, and none of its segments is a step to the parent.
\<close>

theorem dist_dir_stays_inside:
  assumes "normalizeNextDistDir value = Inr p"
  shows "\<not> prefix ''/'' p \<and> ''..'' \<notin> set (js_split (CHR ''/'') p) \<and> p \<noteq> [] \<and> p \<noteq> ''.''"
proof -
  obtain raw where p: "p = posix_normalize raw" "p \<noteq> ''.''" "p \<noteq> ''..''" "\<not> prefix ''../'' p"
    using assms by (auto simp: normalizeNextDistDir_def Let_def split: json.splits if_splits)
  let ?segs = "normalized_segments raw"
  show ?thesis
  proof (cases "?segs = []")
    case True
    then show ?thesis using p by (auto simp: posix_normalize_def prefix_def split: if_splits)
  next
    case False
    have clean: "list_all segment_ok ?segs" by (rule normalized_clean)
    obtain x xs where x: "?segs = x # xs" using False by (cases ?segs) auto
    have join: "js_join ''/'' ?segs = x @ (if xs = [] then [] else CHR ''/'' # js_join ''/'' xs)" unfolding x by (cases xs) auto
    have "x \<noteq> ''..''"
    proof
      assume "x = ''..''"
      then show False using p join by (auto simp: posix_normalize_def x Let_def prefix_def split: if_splits)
    qed
    then have none: "''..'' \<notin> set ?segs" using normalized_clean(1) [of raw] parents_first_none x by metis
    have head: "x \<noteq> []" "hd x \<noteq> CHR ''/''" using clean x by (cases x; auto simp: segment_ok_def)+
    have split: "js_split (CHR ''/'') (js_join ''/'' ?segs) = ?segs" 
      by (rule join_split) (use False clean in \<open>auto simp: list_all_iff segment_ok_def\<close>)
    have trail: "js_split (CHR ''/'') (s @ ''/'') = js_split (CHR ''/'') s @ [[]]" for s by (induction s) (auto split: list.splits)
    have "''..'' \<notin> set (js_split (CHR ''/'') p)" using none split trail p(1) False by (auto simp: posix_normalize_def Let_def)
    moreover have "\<not> prefix ''/'' p" "p \<noteq> []" 
      using p(1) False join head by (cases x; simp add: posix_normalize_def Let_def prefix_def)+
    ultimately show ?thesis using p(2) by simp
  qed
qed

theorem dist_dir_stays_inside_witness:
  "normalizeNextDistDir (Some (JStr ''out/../build//next'')) = Inr ''build/next'' \<and> ''..'' \<notin> set (js_split (CHR ''/'') ''build/next'')"
proof -
  have run: "normalizeNextDistDir (Some (JStr ''out/../build//next'')) = Inr ''build/next''" by code_simp
  from dist_dir_stays_inside [OF run] run show ?thesis by blast
qed

text \<open>The project directory itself is refused, but not when it is written with a slash.\<close>

lemma project_directory_with_slash:
  "normalizeNextDistDir (Some (JStr ''.'')) = Inl ''must stay inside the project'' \<and> normalizeNextDistDir (Some (JStr ''./'')) = Inr ''./''"
  by code_simp

end
