(* ===== verification/Spec2Isabelle.thy ===== *)
theory Spec2Isabelle
  imports CacheControl FrameCursor EtagCache UseCache Names Validators DeployState RespClient Traffic Middleware Retention PlanSafety CutoverSafety
    LocalResolver RscHash ManifestGuard
begin

text \<open>
  Verification of \<^verbatim>\<open>adapter-k8s\<close>, the adapter that builds a Next.js application for Kubernetes,
  deploys it and serves it.

  \<^bold>\<open>The program.\<close> A build writes images and a Helm chart (\<^verbatim>\<open>src/adapter.ts\<close>, \<^verbatim>\<open>src/emit\<close>,
  \<^verbatim>\<open>src/target\<close>). The command line (\<^verbatim>\<open>src/cli\<close>) installs the chart, waits for the new build's pods,
  moves traffic to them (\<^verbatim>\<open>src/cutover\<close>) and records what is deployed (\<^verbatim>\<open>src/cli/state.ts\<close>). Inside
  the cluster the pool server (\<^verbatim>\<open>src/pool-server\<close>) serves requests; its replicas share a Valkey store
  for pages, \<open>use cache\<close> entries and the manifest of revalidated tags. A CDN in front of it caches what
  the response headers allow, and an optional routing service (\<^verbatim>\<open>src/routing-service\<close>) runs at the edge.

  \<^bold>\<open>How the parts interact.\<close> A response's \<open>Cache-Control\<close> decides whether the CDN may keep it, and so
  whether it must carry the tags a deploy purges. A page or a cached function result is judged against
  the tag manifest whenever it is read; the manifest is written by any replica through one Lua script
  and read back over the RESP connection. A deploy reads the committed state, switches the Services
  one by one, and commits a new state; a failure on the way must leave traffic and state as they were.
  Names and user values reach the cluster only through the sanitisers and validators.

  \<^bold>\<open>The theories.\<close>
  \<^item> \<open>Prelude\<close>, \<open>Regex\<close>, \<open>Decimal\<close>, \<open>Json\<close>: JavaScript strings, insertion-ordered maps, results, anchored
    regular expressions with a verified matcher, decimal and hexadecimal text, parsed JSON.
  \<^item> \<open>CacheControl\<close>: \<^verbatim>\<open>cache-control.ts\<close>, the forced policy of \<^verbatim>\<open>pool-server/cache-policy.ts\<close>,
    \<^verbatim>\<open>cdn-tags.ts\<close>, \<^verbatim>\<open>static-asset-headers.ts\<close>. Parsing inverts printing, extensions are inert, a
    route with middleware is never fresh for a shared cache, and what is cacheable and mutable is tagged.
  \<^item> \<open>FrameCursor\<close>: \<^verbatim>\<open>pool-server/websocket-frame-cursor.ts\<close>. The cursor tracks the frame
    boundaries of the relayed stream whatever its chunks, so a close frame is only ever written
    between two frames. The interface is the locale \<open>frame_tracker\<close>.
  \<^item> \<open>EtagCache\<close>: \<^verbatim>\<open>pool-server/http-cache.ts\<close>. The memo is a bounded LRU (locale \<open>memo_cache\<close>) that
    never changes an answer; hashing is bounded and no awaited digest is lost.
  \<^item> \<open>TagManifest\<close>: \<^verbatim>\<open>valkey-cache/tag-manifest.ts\<close>, \<^verbatim>\<open>valkey-clock.ts\<close>. The Lua script implements
    Next.js' tag update on the server's clock; a revalidated entry is never judged fresh. What readers
    rely on is the locale \<open>tag_authority\<close>.
  \<^item> \<open>IncrementalCache\<close>, \<open>UseCache\<close>: the two cache handlers of \<^verbatim>\<open>valkey-cache\<close>, every method split at
    its awaits. An entry read back is the one stored; a prepared read sees every invalidation that
    precedes it; the in-process front stays within its bounds and agrees with the manifest.
  \<^item> \<open>RespWire\<close>, \<open>RespClient\<close>: \<^verbatim>\<open>valkey-cache/resp-client.ts\<close>. Scanner and parser agree, replies do not
    depend on how the stream is cut, and no command gets another command's reply.
  \<^item> \<open>Names\<close>, \<open>Validators\<close>: \<^verbatim>\<open>emit/templates/utils.ts\<close>. Sanitised names are DNS labels, the collision
    guard is exact, accepted values are inert, and an escaped scalar survives Helm and YAML.
  \<^item> \<open>DeployState\<close>: \<^verbatim>\<open>cli/state.ts\<close>. No commit is lost under any interleaving of writers, and a failed
    write leaves a state that a second run reads correctly.
  \<^item> \<open>SelectorSwitch\<close>, \<open>Traffic\<close>: \<^verbatim>\<open>cutover/service-selector.ts\<close>, \<^verbatim>\<open>cutover/traffic.ts\<close>. One Service
    is switched through a warmed overlap that never drops the old build early and never overwrites a
    third party; all Services move together or are put back. What the loops rely on is the locale
    \<open>selector_switch\<close>, which \<open>replaceServiceSelector\<close> interprets.
  \<^item> \<open>DispatchProof\<close>, \<open>Middleware\<close>: the dispatch credential of \<^verbatim>\<open>routing-common.ts\<close> and the trust boundary
    of \<^verbatim>\<open>pool-server/server.ts\<close>; the middleware matchers and the guard on their patterns. A pool believes
    a dispatch header only on the request that was signed, and no proof carries a middleware verdict
    over to a request the matchers treat differently.
  \<^item> \<open>Retention\<close>: \<^verbatim>\<open>retention.ts\<close>, \<^verbatim>\<open>retention-expiry.ts\<close>, \<^verbatim>\<open>cutover/retention-expiry.ts\<close>. Requests reach the
    previous build only through an authenticated inventory, and the cleanup only ever stops a standby
    whose marker has expired at the moment of the patch.
  \<^item> \<open>PlanTypes\<close>, \<open>PlanSchema\<close>, \<open>PlanReaders\<close>, \<open>PlanParse\<close>, \<open>Plan\<close>, \<open>PlanDigest\<close>, \<open>PlanSafety\<close>: the
    composition plan (\<^verbatim>\<open>composition-plan/types.ts\<close>, \<^verbatim>\<open>parse.ts\<close>, \<^verbatim>\<open>routing-invariants.ts\<close>,
    \<^verbatim>\<open>fingerprint.ts\<close>). Every reader interprets the locale \<open>strict_reader\<close>: what it returns is what it read.
    So the fingerprint covers the whole document, a verified document is the fingerprinted one, and
    (locale \<open>safe_reader\<close>) no name in a plan can be taken for an option.

  \<^item> \<open>Exec\<close>, \<open>StablePools\<close>, \<open>Gc\<close>, \<open>RoutingHistory\<close>, \<open>Gates\<close>,
    \<open>GateSafety\<close>, \<open>Edge\<close>, \<open>EdgeSafety\<close>: \<^verbatim>\<open>cli/exec.ts\<close>, \<^verbatim>\<open>cli/stable-pool-resources.ts\<close>
    and \<^verbatim>\<open>cutover/gc.ts\<close>, \<^verbatim>\<open>routing-history.ts\<close>, \<^verbatim>\<open>gates.ts\<close>, \<^verbatim>\<open>edge.ts\<close>. Code that runs commands is a program over a
    world that answers each command as it likes, given all that ran before; a Hoare logic on the commands
    issued carries the proofs. Collection deletes only what provably belongs to a superseded build, a
    build is parked only once its autoscaler is gone, a rollback takes its routing image only from
    workloads the cluster owns, the capacity gate opens exactly on enough ready pods, and a refused
    warm-up puts back the bounds it read. The routing tier is patched only to a revision its workloads
    vouch for or back to what it was, its manifest is never retained over another build's, and recovery
    says what became of the edge.

  \<^item> \<open>Cutover\<close>, \<open>CutoverSafety\<close>: \<^verbatim>\<open>cutover/run.ts\<close>, which composes the above. A promotion and a rollback are
    programs over the gates, the edge, parking and collection; the state store, the switch of the
    selectors, retention, plan readiness and the CDN are steps with arbitrary answers. Traffic moves only
    after the gates and an unchanged state, the state is committed directly after, and nothing is deleted
    before that; the committed state is about the two builds in play, and two rollbacks lead back.

  \<^item> \<open>RoutePaths\<close>, \<open>RequestPrep\<close>, \<open>RouteQuery\<close>, \<open>RscHash\<close>, \<open>ManifestGuard\<close>: the rest of \<^verbatim>\<open>routing-common.ts\<close>, which
    both resolvers share: locales, redirects, pools and outputs, queries and rewrite signals, the
    cache-busting parameter of RSC requests, the manifest and the request target. Internal routing
    parameters never reach a handler, an RSC output leads back to its page, a slash redirect is not
    redirected again, an accepted parameter binds the headers it was computed from, and the build
    directory stays inside the project.
  \<^item> \<open>LocalResolver\<close>: \<^verbatim>\<open>pool-server/resolve.ts\<close>. Routing of \<^verbatim>\<open>@next/routing\<close> is a tree that may ask for the
    middleware. Whatever it answers, the middleware runs in the first pass only, a failed run never ends
    in a route, and its request headers reach the route; without locales nine passes always suffice.

  \<^bold>\<open>Modelling.\<close> A function of the source is a function here, an exception the left summand of a
  result, a module's mutable variables the fields of a record. An asynchronous function is cut at its
  awaits; where several can overlap, the cuts are the steps of an inductive relation and the
  properties hold for every interleaving. Calls out of the process (\<open>kubectl\<close>, Valkey, the file system,
  the clock) are arguments: what they answered, or an error, or that the answer was lost. Hashes,
  \<open>net.isIP\<close>, \<open>URL\<close> and Lua's string-to-number conversion are parameters.

  \<^bold>\<open>Bounds.\<close> Strings are lists of code units below 256. Finite numbers are rationals, integers exact;
  this agrees with JavaScript below \<open>2\<^sup>5\<^sup>3\<close>. The recursions of the model terminate by measure. The
  warm-up loop consumes one observation per round and 61 of them always suffice, since rounds are
  five seconds apart and the deadline is 300 seconds away.

  \<^bold>\<open>Not modelled.\<close> HTTP and socket plumbing, the chart templates, the command sequences of the command
  line, the build adapter's file-system work, generated protobuf code, and Next.js itself. Next along
  the plan: the configuration loader, the routing service's message
  handler, and the dispatch guards of the pool server.
\<close>

end
